(* ===== verification/Pgl_Prelude.thy ===== *)
theory Pgl_Prelude
  imports Main "HOL-Library.Word"
begin

text \<open>
  Prelude of the pglogical development: the names of the PostgreSQL types the C sources use,
  errors as values of a sum type (every \<open>elog(ERROR, ...)\<close> and \<open>ereport(ERROR, ...)\<close> of the
  sources is a branch that returns \<open>Inl\<close>), C strings, and the lemma collections the component
  theories share.
\<close>

section \<open>Types\<close>

text \<open>
  \<open>Oid\<close>, \<open>TransactionId\<close> and the other 32-bit identifiers are 32-bit words, \<open>XLogRecPtr\<close> and
  \<open>TimestampTz\<close> are 64-bit words (as they travel on the wire).  A \<open>char *\<close> that is used as a C
  string is a \<open>string\<close> without NUL; a \<open>StringInfo\<close> that is being written is the list of the bytes
  appended to it and one that is being read is the list of the bytes from its cursor on.
\<close>

type_synonym oid = "32 word"
type_synonym transaction_id = "32 word"
type_synonym xlogrecptr = "64 word"
type_synonym timestamptz = "64 word"
type_synonym stringinfo = string

abbreviation InvalidOid :: oid where
  "InvalidOid \<equiv> 0"

abbreviation OidIsValid :: "oid \<Rightarrow> bool" where
  "OidIsValid x \<equiv> x \<noteq> InvalidOid"

abbreviation NUL :: char where
  "NUL \<equiv> CHR 0x00"

section \<open>Errors as values\<close>

datatype errcode =
    ERRCODE_INTERNAL_ERROR
  | ERRCODE_PROTOCOL_VIOLATION
  | ERRCODE_INVALID_PARAMETER_VALUE
  | ERRCODE_INVALID_BINARY_REPRESENTATION
  | ERRCODE_OBJECT_NOT_IN_PREREQUISITE_STATE
  | ERRCODE_FEATURE_NOT_SUPPORTED
  | ERRCODE_UNDEFINED_OBJECT
  | ERRCODE_UNDEFINED_TABLE
  | ERRCODE_UNDEFINED_FUNCTION
  | ERRCODE_DUPLICATE_OBJECT
  | ERRCODE_UNIQUE_VIOLATION
  | ERRCODE_NULL_VALUE_NOT_ALLOWED
  | ERRCODE_CONFIGURATION_LIMIT_EXCEEDED
  | ERRCODE_INVALID_NAME
  | ERRCODE_UNDEFINED_COLUMN
  | ERRCODE_WRONG_OBJECT_TYPE
  | ERRCODE_NAME_TOO_LONG
  | ERRCODE_INSUFFICIENT_PRIVILEGE
  | ERRCODE_CONNECTION_FAILURE
  | ERRCODE_ACTIVE_SQL_TRANSACTION
  | ERRCODE_SYNTAX_ERROR
  | ERRCODE_DATATYPE_MISMATCH
  | ERRCODE_INVALID_COLUMN_REFERENCE
  | ERRCODE_DEPENDENT_OBJECTS_STILL_EXIST
  | ERRCODE_E_R_I_E_TRIGGER_PROTOCOL_VIOLATED
  | ERRCODE_PROGRAM_LIMIT_EXCEEDED

text \<open>
  An error carries its SQLSTATE and the format string of its message; the arguments of the format
  are not kept.  \<open>elog\<close> uses \<open>ERRCODE_INTERNAL_ERROR\<close>.  Following a NULL pointer ends the process, and
  so does \<open>proc_exit\<close> with its exit code.
\<close>

datatype pg_error = Ereport errcode string | NullDereference | ProcExit nat

type_synonym 'a result = "pg_error + 'a"

abbreviation ereport :: "errcode \<Rightarrow> string \<Rightarrow> 'a result" where
  "ereport c m \<equiv> Inl (Ereport c m)"

abbreviation proc_exit :: "nat \<Rightarrow> 'a result" where
  "proc_exit code \<equiv> Inl (ProcExit code)"

abbreviation elog :: "string \<Rightarrow> 'a result" where
  "elog m \<equiv> ereport ERRCODE_INTERNAL_ERROR m"

text \<open>Sequencing: the C code after a call runs only when the call did not raise.\<close>

definition rbind :: "'a result \<Rightarrow> ('a \<Rightarrow> 'b result) \<Rightarrow> 'b result" where
  "rbind m f = (case m of Inl e \<Rightarrow> Inl e | Inr x \<Rightarrow> f x)"

definition is_ok :: "'a result \<Rightarrow> bool" where
  "is_ok r = (case r of Inl _ \<Rightarrow> False | Inr _ \<Rightarrow> True)"

fun rmap :: "('a \<Rightarrow> 'b result) \<Rightarrow> 'a list \<Rightarrow> 'b list result" where
  "rmap f [] = Inr []"
| "rmap f (x # xs) = rbind (f x) (\<lambda>y. rbind (rmap f xs) (\<lambda>ys. Inr (y # ys)))"

section \<open>C strings and fixed-width lengths\<close>

text \<open>
  \<open>cstr p\<close> is the C string at address \<open>p\<close>, the bytes up to the first NUL; \<open>uint8_of\<close> is the byte
  that the conversion of a length to \<open>uint8\<close> leaves.
\<close>

definition cstr :: "string \<Rightarrow> string" where
  "cstr p = takeWhile (\<lambda>c. c \<noteq> NUL) p"

definition nul_free :: "string \<Rightarrow> bool" where
  "nul_free s = (\<forall>c\<in>set s. c \<noteq> NUL)"

definition uint8_of :: "nat \<Rightarrow> char" where
  "uint8_of n = char_of (n mod 256)"

definition byte_val :: "char \<Rightarrow> nat" where
  "byte_val c = of_char c"

section \<open>Number formatting\<close>

text \<open>\<open>%d\<close> and \<open>%X\<close> of C's \<open>printf\<close>.\<close>

definition digit_char :: "nat \<Rightarrow> char" where
  "digit_char d = (if d < 10 then char_of (48 + d) else char_of (55 + d))"

fun dec_of_nat :: "nat \<Rightarrow> string" where
  "dec_of_nat n = (if n < 10 then [digit_char n] else dec_of_nat (n div 10) @ [digit_char (n mod 10)])"

definition dec_of_int :: "int \<Rightarrow> string" where
  "dec_of_int i = (if i < 0 then CHR ''-'' # dec_of_nat (nat (- i)) else dec_of_nat (nat i))"

fun hex_of_nat :: "nat \<Rightarrow> string" where
  "hex_of_nat n = (if n < 16 then [digit_char n] else hex_of_nat (n div 16) @ [digit_char (n mod 16)])"

declare dec_of_nat.simps [simp del] hex_of_nat.simps [simp del]

section \<open>Shared lemmas\<close>

named_theorems result_simps \<open>evaluation of the error monad\<close>
named_theorems wire_simps \<open>reading back what was written\<close>
named_theorems catalog_simps \<open>catalog tables: scan, insert, delete\<close>

lemma rbind_Inl [simp, result_simps]: "rbind (Inl e) f = Inl e"
  by (simp add: rbind_def)

lemma rbind_Inr [simp, result_simps]: "rbind (Inr x) f = f x"
  by (simp add: rbind_def)

lemma rbind_assoc: "rbind (rbind m f) g = rbind m (\<lambda>x. rbind (f x) g)"
  by (cases m) simp_all

lemma rbind_if: "rbind (if b then x else y) f = (if b then rbind x f else rbind y f)"
  by simp

lemma rbind_eq_Inr [result_simps]:
  "rbind m f = Inr y \<longleftrightarrow> (\<exists>x. m = Inr x \<and> f x = Inr y)"
  by (cases m) simp_all

lemma rbind_eq_Inl [result_simps]:
  "rbind m f = Inl e \<longleftrightarrow> m = Inl e \<or> (\<exists>x. m = Inr x \<and> f x = Inl e)"
  by (cases m) simp_all

lemma is_ok_simps [simp, result_simps]: "is_ok (Inr x)" "\<not> is_ok (Inl e)"
  by (simp_all add: is_ok_def)

lemma is_ok_iff: "is_ok r \<longleftrightarrow> (\<exists>x. r = Inr x)"
  by (cases r) simp_all

lemma not_is_ok_iff: "\<not> is_ok r \<longleftrightarrow> (\<exists>e. r = Inl e)"
  by (cases r) simp_all

lemma is_ok_rbind: "is_ok (rbind m f) \<longleftrightarrow> (\<exists>x. m = Inr x \<and> is_ok (f x))"
  by (cases m) simp_all

lemma rmap_append:
  "rmap f (xs @ ys) = rbind (rmap f xs) (\<lambda>us. rbind (rmap f ys) (\<lambda>vs. Inr (us @ vs)))"
  by (induction xs) (simp_all add: rbind_def split: sum.splits)

lemma rmap_Inr_length: "rmap f xs = Inr ys \<Longrightarrow> length ys = length xs"
  by (induction xs arbitrary: ys) (auto simp: rbind_eq_Inr)

lemma rmap_Inr_nth:
  "rmap f xs = Inr ys \<Longrightarrow> i < length xs \<Longrightarrow> f (xs ! i) = Inr (ys ! i)"
  by (induction xs arbitrary: ys i) (auto simp: rbind_eq_Inr nth_Cons split: nat.splits)

lemma rmap_Inr_iff: "rmap f xs = Inr ys \<longleftrightarrow> list_all2 (\<lambda>x y. f x = Inr y) xs ys"
  by (induction xs arbitrary: ys) (auto simp: rbind_eq_Inr list_all2_Cons1)

lemma rmap_Inr_elem: "rmap f xs = Inr ys \<Longrightarrow> x \<in> set xs \<Longrightarrow> \<exists>y. f x = Inr y"
  by (induction xs arbitrary: ys) (auto simp: rbind_eq_Inr)

lemma nul_free_simps [simp]:
  "nul_free []" "nul_free (c # s) \<longleftrightarrow> c \<noteq> NUL \<and> nul_free s"
  "nul_free (s @ t) \<longleftrightarrow> nul_free s \<and> nul_free t"
  by (auto simp: nul_free_def)

lemma cstr_nul [simp]: "cstr (NUL # r) = []"
  by (simp add: cstr_def)

lemma cstr_cons [simp]: "c \<noteq> NUL \<Longrightarrow> cstr (c # r) = c # cstr r"
  by (simp add: cstr_def)

lemma cstr_Nil [simp]: "cstr [] = []"
  by (simp add: cstr_def)

lemma cstr_terminated [simp]: "nul_free s \<Longrightarrow> cstr (s @ NUL # r) = s"
  by (induction s) auto

lemma cstr_terminated_end [simp]: "nul_free s \<Longrightarrow> cstr (s @ [NUL]) = s"
  using cstr_terminated [of s "[]"] by simp

lemma nul_free_cstr [simp]: "nul_free (cstr p)"
  by (auto simp: nul_free_def cstr_def dest: set_takeWhileD)

lemma cstr_idem [simp]: "nul_free s \<Longrightarrow> cstr s = s"
  by (induction s) auto

lemma byte_val_uint8_of [simp]: "byte_val (uint8_of n) = n mod 256"
  by (simp add: byte_val_def uint8_of_def)

lemma byte_val_less: "byte_val c < 256"
  by (cases c) (simp add: byte_val_def horner_sum_bit_eq_take_bit of_char_def)

lemma uint8_of_byte_val [simp]: "uint8_of (byte_val c) = c"
  by (simp add: byte_val_def uint8_of_def)

lemma unat_of_nat_small16: "n < 65536 \<Longrightarrow> unat (of_nat n :: 16 word) = n"
  by (simp add: unat_of_nat take_bit_nat_eq_self)

lemma uint_of_nat_small16: "n < 65536 \<Longrightarrow> uint (of_nat n :: 16 word) = int n"
  by (simp add: unsigned_of_nat take_bit_nat_eq_self)

lemma unat_of_nat_small32: "n < 4294967296 \<Longrightarrow> unat (of_nat n :: 32 word) = n"
  by (simp add: unat_of_nat take_bit_nat_eq_self)

lemma map_of_filter_key:
  "map_of (filter (\<lambda>(k, v). k \<noteq> x) t) = (map_of t)(x := None)"
  by (induction t) (auto simp: fun_eq_iff)

lemma length_concat_const: "\<forall>x\<in>set xs. length x = n \<Longrightarrow> length (concat xs) = n * length xs"
  by (induction xs) simp_all

end
