(* ===== verification/Pgl_Pqformat.thy ===== *)
theory Pgl_Pqformat
  imports Pgl_Prelude
begin

text \<open>
  The message-formatting routines of the PostgreSQL backend (\<open>libpq/pqformat.h\<close>) are not part of
  the repository.  They are a parameter of the model: a record of the routines pglogical calls.
  What the code relies on is the locale \<open>pq_codec\<close>: each \<open>pq_getmsg\<close> routine returns what the
  matching \<open>pq_send\<close> routine wrote and leaves the cursor behind it, and reading more bytes than
  the message holds is an error.  The instance \<open>net_pqformat\<close> is the documented behaviour
  (integers in network byte order, C strings with their terminator, no encoding conversion).
\<close>

section \<open>The parameter\<close>

text \<open>
  A sender returns the bytes it appends.  A getter gets the bytes from the cursor on and returns
  the value together with the bytes behind it.  \<open>pq_getmsgbytes\<close> returns a pointer into the
  message, which is the list of bytes from that address on.
\<close>

record pqformat =
  pq_sendbyte :: "char \<Rightarrow> string"
  pq_sendint2 :: "16 word \<Rightarrow> string"
  pq_sendint4 :: "32 word \<Rightarrow> string"
  pq_sendint64 :: "64 word \<Rightarrow> string"
  pq_sendbytes :: "string \<Rightarrow> nat \<Rightarrow> string"
  pq_sendstring :: "string \<Rightarrow> string"
  pq_getmsgbyte :: "string \<Rightarrow> (char \<times> string) result"
  pq_getmsgint2 :: "string \<Rightarrow> (16 word \<times> string) result"
  pq_getmsgint4 :: "string \<Rightarrow> (32 word \<times> string) result"
  pq_getmsgint64 :: "string \<Rightarrow> (64 word \<times> string) result"
  pq_getmsgbytes :: "int \<Rightarrow> string \<Rightarrow> (string \<times> string) result"
  pq_getmsgstring :: "string \<Rightarrow> (string \<times> string) result"

locale pq_codec =
  fixes F :: pqformat
  assumes getmsgbyte_send: "pq_getmsgbyte F (pq_sendbyte F c @ r) = Inr (c, r)"
    and getmsgbyte_nil: "\<not> is_ok (pq_getmsgbyte F [])"
    and getmsgint2_send: "pq_getmsgint2 F (pq_sendint2 F w2 @ r) = Inr (w2, r)"
    and getmsgint4_send: "pq_getmsgint4 F (pq_sendint4 F w4 @ r) = Inr (w4, r)"
    and getmsgint64_send: "pq_getmsgint64 F (pq_sendint64 F w8 @ r) = Inr (w8, r)"
    and sendbytes: "n \<le> length s \<Longrightarrow> pq_sendbytes F s n = take n s"
    and getmsgbytes: "n \<le> length b \<Longrightarrow> pq_getmsgbytes F (int n) b = Inr (b, drop n b)"
    and getmsgbytes_short: "k < 0 \<or> int (length b) < k \<Longrightarrow> \<not> is_ok (pq_getmsgbytes F k b)"
    and getmsgstring_send: "nul_free s \<Longrightarrow> pq_getmsgstring F (pq_sendstring F s @ r) = Inr (s, r)"
begin

lemmas codec_simps = getmsgbyte_send getmsgint2_send getmsgint4_send getmsgint64_send
  getmsgstring_send

text \<open>A block of raw bytes behind its length comes back, with the cursor behind it.\<close>

lemma getmsgbytes_append:
  "k = int (length s) \<Longrightarrow> pq_getmsgbytes F k (s @ r) = Inr (s @ r, r)"
  using getmsgbytes [of "length s" "s @ r"] by simp

lemma sendbytes_all: "n = length s \<Longrightarrow> pq_sendbytes F s n = s"
  by (simp add: sendbytes)

lemma getmsgbytes_ok_iff:
  "is_ok (pq_getmsgbytes F k b) \<longleftrightarrow> 0 \<le> k \<and> k \<le> int (length b)"
  using getmsgbytes [of "nat k" b] getmsgbytes_short [of k b]
  by (cases "0 \<le> k \<and> k \<le> int (length b)") (auto simp: nat_le_iff)

end

section \<open>The documented wire format\<close>

text \<open>Big-endian bytes of a word, most significant byte first.\<close>

fun put_be :: "nat \<Rightarrow> nat \<Rightarrow> string" where
  "put_be 0 v = []"
| "put_be (Suc n) v = put_be n (v div 256) @ [char_of v]"

definition get_be :: "string \<Rightarrow> nat" where
  "get_be s = foldl (\<lambda>a c. a * 256 + of_char c) 0 s"

definition insufficient :: "'a result" where
  "insufficient = ereport ERRCODE_PROTOCOL_VIOLATION ''insufficient data left in message''"

definition get_fixed :: "nat \<Rightarrow> string \<Rightarrow> ('a::len word \<times> string) result" where
  "get_fixed n b = (if length b < n then insufficient
                    else Inr (of_nat (get_be (take n b)), drop n b))"

definition net_getbyte :: "string \<Rightarrow> (char \<times> string) result" where
  "net_getbyte b = (case b of
      [] \<Rightarrow> ereport ERRCODE_PROTOCOL_VIOLATION ''no data left in message''
    | c # r \<Rightarrow> Inr (c, r))"

definition net_getbytes :: "int \<Rightarrow> string \<Rightarrow> (string \<times> string) result" where
  "net_getbytes k b = (if k < 0 \<or> int (length b) < k then insufficient
                       else Inr (b, drop (nat k) b))"

definition net_getstring :: "string \<Rightarrow> (string \<times> string) result" where
  "net_getstring b = (if NUL \<in> set b then Inr (cstr b, drop (Suc (length (cstr b))) b)
     else ereport ERRCODE_PROTOCOL_VIOLATION ''invalid string in message'')"

definition net_pqformat :: pqformat where
  "net_pqformat = \<lparr>
     pq_sendbyte = (\<lambda>c. [c]),
     pq_sendint2 = (\<lambda>w. put_be 2 (unat w)),
     pq_sendint4 = (\<lambda>w. put_be 4 (unat w)),
     pq_sendint64 = (\<lambda>w. put_be 8 (unat w)),
     pq_sendbytes = (\<lambda>s n. take n s),
     pq_sendstring = (\<lambda>s. s @ [NUL]),
     pq_getmsgbyte = net_getbyte,
     pq_getmsgint2 = get_fixed 2,
     pq_getmsgint4 = get_fixed 4,
     pq_getmsgint64 = get_fixed 8,
     pq_getmsgbytes = net_getbytes,
     pq_getmsgstring = net_getstring \<rparr>"

lemma length_put_be [simp]: "length (put_be n v) = n"
  by (induction n v rule: put_be.induct) simp_all

lemma get_be_snoc: "get_be (s @ [c]) = get_be s * 256 + of_char c"
  by (simp add: get_be_def)

lemma get_put_be: "get_be (put_be n v) = v mod 256 ^ n"
proof (induction n v rule: put_be.induct)
  case (1 v)
  then show ?case by (simp add: get_be_def)
next
  case (2 n v)
  have "get_be (put_be (Suc n) v) = (v div 256 mod 256 ^ n) * 256 + v mod 256"
    using 2 by (simp add: get_be_snoc)
  also have "\<dots> = v mod (256 * 256 ^ n)"
    by (simp add: mod_mult2_eq)
  finally show ?case by simp
qed

lemma get_fixed_put_be:
  fixes w :: "'a::len word"
  assumes "256 ^ n = (2::nat) ^ LENGTH('a)"
  shows "get_fixed n (put_be n (unat w) @ r) = Inr (w, r)"
proof -
  have "unat w < 256 ^ n"
    using assms by simp
  then show ?thesis
    by (simp add: get_fixed_def get_put_be)
qed

lemma net_getstring_put:
  assumes "nul_free s"
  shows "net_getstring (s @ NUL # r) = Inr (s, r)"
  using assms by (simp add: net_getstring_def)

interpretation net: pq_codec net_pqformat
proof
  show "n \<le> length b \<Longrightarrow> pq_getmsgbytes net_pqformat (int n) b = Inr (b, drop n b)" for n b
    by (simp add: net_pqformat_def net_getbytes_def)
  show "k < 0 \<or> int (length b) < k \<Longrightarrow> \<not> is_ok (pq_getmsgbytes net_pqformat k b)" for k b
    by (simp add: net_pqformat_def net_getbytes_def insufficient_def)
  show "nul_free s \<Longrightarrow>
      pq_getmsgstring net_pqformat (pq_sendstring net_pqformat s @ r) = Inr (s, r)" for s r
    by (simp add: net_pqformat_def net_getstring_put)
qed (simp_all add: net_pqformat_def net_getbyte_def get_fixed_put_be)

lemmas net_codec = net.pq_codec_axioms

end
