(* ===== verification/Pgl_Types.thy ===== *)
theory Pgl_Types
  imports Pgl_Pqformat
begin

text \<open>
  The data the output plugin works on.  The backend structures (attributes, types, relations,
  datums, heap tuples, reorder-buffer transactions and changes) are PostgreSQL's; only the fields
  pglogical reads are kept.  \<open>PGLogicalOutputData\<close> is the plugin's own session state
  (\<open>src/pglogical_output/pglogical_output_internal.h\<close>).
\<close>

section \<open>Backend structures\<close>

record form_pg_attribute =
  attname :: string
  atttypid :: oid
  attlen :: int
  attnum :: int
  atttypmod :: int
  attbyval :: bool
  attisdropped :: bool

record form_pg_type =
  typtype :: char
  typelem :: oid
  typreceive :: oid
  typsend :: oid
  typoutput :: oid

type_synonym tupledesc = "form_pg_attribute list"

text \<open>
  A \<open>Bitmapset\<close> of attribute numbers is a set of integers; the NULL pointer that stands for
  "no list" is \<open>None\<close>.
\<close>

type_synonym bitmapset = "int set"

text \<open>The bits of \<open>tgtype\<close> (\<open>catalog/pg_trigger.h\<close>): row 0, before 1, insert 2, delete 3, update 4, truncate 5.\<close>

record trigger =
  tgenabled :: char
  tgtype :: "16 word"
  tgfoid :: oid

definition TRIGGER_FOR_ROW :: "trigger \<Rightarrow> bool" where
  "TRIGGER_FOR_ROW t = bit (tgtype t) 0"

definition TRIGGER_FOR_TRUNCATE :: "trigger \<Rightarrow> bool" where
  "TRIGGER_FOR_TRUNCATE t = bit (tgtype t) 5"

record relation =
  rd_id :: oid
  relnamespace :: oid
  relname :: string
  relkind :: char
  rd_att :: tupledesc
  idkey_attrs :: bitmapset
  replidindex :: oid
  rd_trigs :: "trigger list"
  needs_wal :: bool

abbreviation RELKIND_RELATION :: char where
  "RELKIND_RELATION \<equiv> CHR ''r''"

abbreviation RELKIND_SEQUENCE :: char where
  "RELKIND_SEQUENCE \<equiv> CHR ''S''"

abbreviation FirstLowInvalidHeapAttributeNumber :: int where
  "FirstLowInvalidHeapAttributeNumber \<equiv> -8"

abbreviation FirstNormalObjectId :: oid where
  "FirstNormalObjectId \<equiv> 16384"

text \<open>
  A datum is passed by value, is a pointer to its bytes, or is a varlena pointer to a value that is
  toasted on disk or held indirectly (then the bytes are those of the value it points to).
\<close>

datatype datum =
    DatumByVal "64 word"
  | DatumPtr string
  | DatumOnDisk string
  | DatumIndirect string

definition VARATT_IS_EXTERNAL_ONDISK :: "datum \<Rightarrow> bool" where
  "VARATT_IS_EXTERNAL_ONDISK d = (case d of DatumOnDisk _ \<Rightarrow> True | _ \<Rightarrow> False)"

fun datum_word :: "datum \<Rightarrow> 64 word" where
  "datum_word (DatumByVal w) = w"
| "datum_word _ = 0"

fun datum_bytes :: "datum \<Rightarrow> string" where
  "datum_bytes (DatumByVal _) = []"
| "datum_bytes (DatumPtr b) = b"
| "datum_bytes (DatumOnDisk b) = b"
| "datum_bytes (DatumIndirect b) = b"

text \<open>
  A heap tuple is the list of its column values, \<open>None\<close> for NULL; \<open>heap_deform_tuple\<close> reads a
  column the tuple does not have as NULL.
\<close>

type_synonym heap_tuple = "datum option list"

definition heap_deform_tuple :: "tupledesc \<Rightarrow> heap_tuple \<Rightarrow> datum option list" where
  "heap_deform_tuple desc tup = take (length desc) (tup @ replicate (length desc) None)"

text \<open>
  The type support functions are installed in the database, not in the repository: the lookup of
  a \<open>pg_type\<close> row, the output and send functions by their oid, the input and receive functions
  of a type with a type modifier, and the copying of pass-by-value datums to and from memory.
\<close>

record typeio =
  search_type :: "oid \<Rightarrow> form_pg_type option"
  OidOutputFunctionCall :: "oid \<Rightarrow> datum \<Rightarrow> string"
  OidSendFunctionCall :: "oid \<Rightarrow> datum \<Rightarrow> string"
  store_att_byval :: "int \<Rightarrow> 64 word \<Rightarrow> string"
  OidInputFunctionCall :: "oid \<Rightarrow> int \<Rightarrow> string \<Rightarrow> datum result"
  OidReceiveFunctionCall :: "oid \<Rightarrow> int \<Rightarrow> string \<Rightarrow> (datum \<times> nat) result"
  fetch_att :: "string \<Rightarrow> int \<Rightarrow> datum result"

record reorderbuffer_txn =
  xid :: transaction_id
  has_catalog_changes :: bool
  first_lsn :: xlogrecptr
  final_lsn :: xlogrecptr
  end_lsn :: xlogrecptr
  commit_time :: timestamptz
  origin_id :: "16 word"
  origin_lsn :: xlogrecptr

abbreviation InvalidRepOriginId :: "16 word" where
  "InvalidRepOriginId \<equiv> 0"

datatype change_action =
    REORDER_BUFFER_CHANGE_INSERT
  | REORDER_BUFFER_CHANGE_UPDATE
  | REORDER_BUFFER_CHANGE_DELETE

record reorderbuffer_change =
  action :: change_action
  oldtuple :: "heap_tuple option"
  newtuple :: "heap_tuple option"

text \<open>\<open>DefElem\<close> with a string argument, which may be absent.\<close>

record defelem =
  defname :: string
  defarg :: "string option"

section \<open>Keys of hash tables\<close>

text \<open>
  The key function of a table made without \<open>HASH_BLOBS\<close> reads the key as a string: the bytes of the
  little-endian oid up to the first zero byte.
\<close>

definition string_key :: "oid \<Rightarrow> nat list" where
  "string_key k = takeWhile (\<lambda>b. b \<noteq> 0)
     [unat k mod 256, unat k div 256 mod 256, unat k div 65536 mod 256]"

section \<open>Session state of the output plugin\<close>

datatype PGLogicalProtoType = PGLogicalProtoNative | PGLogicalProtoJson

text \<open>
  The hooks a setup function installs.  A hook gets the private data and returns the private data
  it leaves (the contents may change, the pointer stays) with its result; \<open>None\<close> is the NULL function
  pointer.  The row filter also returns the column list it chose.
\<close>

record 'p PGLogicalHooks =
  startup_hook :: "('p \<Rightarrow> defelem list \<Rightarrow> (defelem list \<times> 'p) result) option"
  shutdown_hook :: "('p \<Rightarrow> 'p) option"
  row_filter_hook :: "('p \<Rightarrow> reorderbuffer_txn \<Rightarrow> relation \<Rightarrow> reorderbuffer_change
                        \<Rightarrow> (bool \<times> bitmapset option \<times> 'p) result) option"
  txn_filter_hook :: "('p \<Rightarrow> 16 word \<Rightarrow> bool) option"
  hooks_private_data :: "'p"

record 'p PGLogicalOutputData =
  api :: "PGLogicalProtoType option"
  allow_internal_basetypes :: bool
  allow_binary_basetypes :: bool
  forward_changeset_origins :: bool
  field_datum_encoding :: int
  client_pg_version :: "32 word"
  client_max_proto_version :: "32 word"
  client_min_proto_version :: "32 word"
  client_expected_encoding :: "string option"
  client_protocol_format :: "string option"
  client_binary_basetypes_major_version :: "32 word"
  client_want_internal_basetypes_set :: bool
  client_want_internal_basetypes :: bool
  client_want_binary_basetypes_set :: bool
  client_want_binary_basetypes :: bool
  client_binary_bigendian_set :: bool
  client_binary_bigendian :: bool
  client_binary_sizeofdatum :: "32 word"
  client_binary_sizeofint :: "32 word"
  client_binary_sizeoflong :: "32 word"
  client_binary_float4byval_set :: bool
  client_binary_float4byval :: bool
  client_binary_float8byval_set :: bool
  client_binary_float8byval :: bool
  client_binary_intdatetimes_set :: bool
  client_binary_intdatetimes :: bool
  client_no_txinfo :: bool
  hooks_setup_funcname :: "string list"
  hooks :: "'p PGLogicalHooks"
  extra_startup_params :: "defelem list"

text \<open>What \<open>palloc0\<close> leaves in the structure: every flag off, every pointer NULL.\<close>

definition palloc0_hooks :: "'p \<Rightarrow> 'p PGLogicalHooks" where
  "palloc0_hooks p0 = \<lparr> startup_hook = None, shutdown_hook = None, row_filter_hook = None,
     txn_filter_hook = None, hooks_private_data = p0 \<rparr>"

definition palloc0_data :: "'p \<Rightarrow> 'p PGLogicalOutputData" where
  "palloc0_data p0 = \<lparr>
     api = None,
     allow_internal_basetypes = False,
     allow_binary_basetypes = False,
     forward_changeset_origins = False,
     field_datum_encoding = 0,
     client_pg_version = 0,
     client_max_proto_version = 0,
     client_min_proto_version = 0,
     client_expected_encoding = None,
     client_protocol_format = None,
     client_binary_basetypes_major_version = 0,
     client_want_internal_basetypes_set = False,
     client_want_internal_basetypes = False,
     client_want_binary_basetypes_set = False,
     client_want_binary_basetypes = False,
     client_binary_bigendian_set = False,
     client_binary_bigendian = False,
     client_binary_sizeofdatum = 0,
     client_binary_sizeofint = 0,
     client_binary_sizeoflong = 0,
     client_binary_float4byval_set = False,
     client_binary_float4byval = False,
     client_binary_float8byval_set = False,
     client_binary_float8byval = False,
     client_binary_intdatetimes_set = False,
     client_binary_intdatetimes = False,
     client_no_txinfo = False,
     hooks_setup_funcname = [],
     hooks = palloc0_hooks p0,
     extra_startup_params = [] \<rparr>"

text \<open>The state a hook keeps behind its private pointer.\<close>

definition set_private :: "'p \<Rightarrow> 'p PGLogicalOutputData \<Rightarrow> 'p PGLogicalOutputData" where
  "set_private p data = data\<lparr> hooks := (hooks data)\<lparr> hooks_private_data := p \<rparr> \<rparr>"

lemma set_private_simps [simp]:
  "api (set_private p d) = api d"
  "startup_hook (hooks (set_private p d)) = startup_hook (hooks d)"
  "shutdown_hook (hooks (set_private p d)) = shutdown_hook (hooks d)"
  "row_filter_hook (hooks (set_private p d)) = row_filter_hook (hooks d)"
  "txn_filter_hook (hooks (set_private p d)) = txn_filter_hook (hooks d)"
  "hooks_private_data (hooks (set_private p d)) = p"
  "field_datum_encoding (set_private p d) = field_datum_encoding d"
  "forward_changeset_origins (set_private p d) = forward_changeset_origins d"
  "allow_internal_basetypes (set_private p d) = allow_internal_basetypes d"
  "allow_binary_basetypes (set_private p d) = allow_binary_basetypes d"
  "client_no_txinfo (set_private p d) = client_no_txinfo d"
  "extra_startup_params (set_private p d) = extra_startup_params d"
  by (simp_all add: set_private_def)

lemma set_private_same [simp]: "set_private (hooks_private_data (hooks d)) d = d"
  by (simp add: set_private_def)

lemma length_heap_deform_tuple [simp]: "length (heap_deform_tuple desc tup) = length desc"
  by (simp add: heap_deform_tuple_def)

lemma heap_deform_tuple_full [simp]:
  "length tup = length desc \<Longrightarrow> heap_deform_tuple desc tup = tup"
  by (simp add: heap_deform_tuple_def)

end
