(* ===== verification/Pgl_Native.thy ===== *)
theory Pgl_Native
  imports Pgl_Types
begin

text \<open>
  The native protocol writer, \<open>src/pglogical_output/pglogical_proto_native.c\<close>, with the relation
  metadata cache entry it marks (\<open>pglogical_relmetacache.h\<close>).  Each writer returns the bytes it
  appends to the output buffer; the writers that can raise return a result.  Assertions are those of
  a production build: they do nothing.
\<close>

section \<open>Relation metadata cache entries\<close>

record PGLRelMetaCacheEntry =
  relid :: oid
  is_cached :: bool
  is_valid :: bool

section \<open>Fixed messages\<close>

definition pglogical_write_begin :: "pqformat \<Rightarrow> reorderbuffer_txn \<Rightarrow> string" where
  "pglogical_write_begin F txn =
     pq_sendbyte F CHR ''B'' @
     pq_sendbyte F NUL @
     pq_sendint64 F (final_lsn txn) @
     pq_sendint64 F (commit_time txn) @
     pq_sendint4 F (xid txn)"

definition pglogical_write_commit ::
  "pqformat \<Rightarrow> reorderbuffer_txn \<Rightarrow> xlogrecptr \<Rightarrow> string" where
  "pglogical_write_commit F txn commit_lsn =
     pq_sendbyte F CHR ''C'' @
     pq_sendbyte F NUL @
     pq_sendint64 F commit_lsn @
     pq_sendint64 F (end_lsn txn) @
     pq_sendint64 F (commit_time txn)"

text \<open>
  Strings go out with their terminator.  The length byte is a \<open>uint8\<close>, and it is also the number of
  bytes copied, so it wraps as the conversion does.
\<close>

definition pglogical_write_origin :: "pqformat \<Rightarrow> string \<Rightarrow> xlogrecptr \<Rightarrow> string" where
  "pglogical_write_origin F origin lsn = (let len = uint8_of (length origin + 1) in
     pq_sendbyte F CHR ''O'' @
     pq_sendbyte F NUL @
     pq_sendint64 F lsn @
     pq_sendbyte F len @
     pq_sendbytes F (origin @ [NUL]) (byte_val len))"

definition PGLOGICAL_STARTUP_MSG_FORMAT_FLAT :: char where
  "PGLOGICAL_STARTUP_MSG_FORMAT_FLAT = CHR 0x01"

text \<open>The keys and values of the startup message are never NULL; an absent value would be a crash.\<close>

definition write_startup_message :: "pqformat \<Rightarrow> defelem list \<Rightarrow> string" where
  "write_startup_message F msg =
     pq_sendbyte F CHR ''S'' @
     pq_sendbyte F PGLOGICAL_STARTUP_MSG_FORMAT_FLAT @
     concat (map (\<lambda>param. pq_sendstring F (defname param) @
                          pq_sendstring F (the (defarg param))) msg)"

section \<open>Relation metadata\<close>

text \<open>The columns that are sent: those neither dropped nor left out of the column list.\<close>

definition att_sent :: "bitmapset option \<Rightarrow> form_pg_attribute \<Rightarrow> bool" where
  "att_sent att_list att = (\<not> attisdropped att \<and>
     (case att_list of None \<Rightarrow> True
      | Some bms \<Rightarrow> attnum att - FirstLowInvalidHeapAttributeNumber \<in> bms))"

definition nliveatts :: "bitmapset option \<Rightarrow> tupledesc \<Rightarrow> 16 word" where
  "nliveatts att_list desc = of_nat (length (filter (att_sent att_list) desc))"

definition IS_REPLICA_IDENTITY :: char where
  "IS_REPLICA_IDENTITY = CHR 0x01"

definition write_att :: "pqformat \<Rightarrow> bitmapset \<Rightarrow> form_pg_attribute \<Rightarrow> string" where
  "write_att F idattrs att =
     (let flags = (if attnum att - FirstLowInvalidHeapAttributeNumber \<in> idattrs
                   then IS_REPLICA_IDENTITY else NUL);
          len = (of_nat (length (attname att) + 1) :: 16 word)
      in pq_sendbyte F CHR ''C'' @
         pq_sendbyte F flags @
         pq_sendbyte F CHR ''N'' @
         pq_sendint2 F len @
         pq_sendbytes F (attname att @ [NUL]) (unat len))"

definition pglogical_write_attrs :: "pqformat \<Rightarrow> relation \<Rightarrow> bitmapset option \<Rightarrow> string" where
  "pglogical_write_attrs F rel att_list =
     pq_sendbyte F CHR ''A'' @
     pq_sendint2 F (nliveatts att_list (rd_att rel)) @
     concat (map (write_att F (idkey_attrs rel)) (filter (att_sent att_list) (rd_att rel)))"

text \<open>
  \<open>get_namespace_name\<close> is a catalog lookup of the backend.  The cache entry, when there is one,
  is marked as cached once the whole description has been written.
\<close>

definition pglogical_write_rel ::
  "pqformat \<Rightarrow> (oid \<Rightarrow> string option) \<Rightarrow> relation \<Rightarrow> PGLRelMetaCacheEntry option
     \<Rightarrow> bitmapset option \<Rightarrow> (string \<times> PGLRelMetaCacheEntry option) result" where
  "pglogical_write_rel F get_namespace_name rel cache_entry att_list =
     (case get_namespace_name (relnamespace rel) of
        None \<Rightarrow> elog ''cache lookup failed for namespace %u''
      | Some nspname \<Rightarrow>
          let nspnamelen = uint8_of (length nspname + 1);
              relnamelen = uint8_of (length (relname rel) + 1)
          in Inr (pq_sendbyte F CHR ''R'' @
                  pq_sendbyte F NUL @
                  pq_sendint4 F (rd_id rel) @
                  pq_sendbyte F nspnamelen @
                  pq_sendbytes F (nspname @ [NUL]) (byte_val nspnamelen) @
                  pq_sendbyte F relnamelen @
                  pq_sendbytes F (relname rel @ [NUL]) (byte_val relnamelen) @
                  pglogical_write_attrs F rel att_list,
                  map_option (\<lambda>e. e\<lparr>is_cached := True\<rparr>) cache_entry))"

section \<open>Tuples\<close>

definition decide_datum_transfer ::
  "form_pg_attribute \<Rightarrow> form_pg_type \<Rightarrow> bool \<Rightarrow> bool \<Rightarrow> char" where
  "decide_datum_transfer att typclass allow_internal allow_binary =
     (if allow_internal \<and> typtype typclass = CHR ''b'' \<and>
         atttypid att < FirstNormalObjectId \<and> typelem typclass = InvalidOid
      then CHR ''i''
      else if allow_binary \<and> OidIsValid (typreceive typclass) \<and>
         (atttypid att < FirstNormalObjectId \<or> typtype typclass \<noteq> CHR ''c'') \<and>
         (atttypid att < FirstNormalObjectId \<or> typelem typclass = InvalidOid)
      then CHR ''b''
      else CHR ''t'')"

text \<open>
  The internal representation: the memory image of a pass-by-value datum, the bytes of a fixed-length
  pass-by-reference one, the whole varlena (of the pointed-to value when it is held indirectly).
\<close>

definition write_internal :: "pqformat \<Rightarrow> typeio \<Rightarrow> form_pg_attribute \<Rightarrow> datum \<Rightarrow> string result" where
  "write_internal F T att v =
     (if attbyval att
      then Inr (pq_sendint4 F (of_int (attlen att)) @ store_att_byval T (attlen att) (datum_word v))
      else if attlen att > 0
      then Inr (pq_sendint4 F (of_int (attlen att)) @ take (nat (attlen att)) (datum_bytes v))
      else if attlen att = -1
      then Inr (pq_sendint4 F (of_nat (length (datum_bytes v))) @ datum_bytes v)
      else elog ''unsupported tuple type'')"

definition write_binary :: "pqformat \<Rightarrow> typeio \<Rightarrow> form_pg_type \<Rightarrow> datum \<Rightarrow> string" where
  "write_binary F T typclass v =
     (let outputbytes = OidSendFunctionCall T (typsend typclass) v
      in pq_sendint4 F (of_nat (length outputbytes)) @
         pq_sendbytes F outputbytes (length outputbytes))"

definition write_text :: "pqformat \<Rightarrow> typeio \<Rightarrow> form_pg_type \<Rightarrow> datum \<Rightarrow> string" where
  "write_text F T typclass v =
     (let outputstr = OidOutputFunctionCall T (typoutput typclass) v
      in pq_sendint4 F (of_nat (length outputstr + 1)) @ outputstr @ [NUL])"

definition write_column ::
  "pqformat \<Rightarrow> typeio \<Rightarrow> 'p PGLogicalOutputData \<Rightarrow> form_pg_attribute \<Rightarrow> datum option
     \<Rightarrow> string result" where
  "write_column F T data att dval =
     (case dval of
        None \<Rightarrow> Inr (pq_sendbyte F CHR ''n'')
      | Some v \<Rightarrow>
          if attlen att = -1 \<and> VARATT_IS_EXTERNAL_ONDISK v
          then Inr (pq_sendbyte F CHR ''u'')
          else (case search_type T (atttypid att) of
              None \<Rightarrow> elog ''cache lookup failed for type %u''
            | Some typclass \<Rightarrow>
                let transfer_type = decide_datum_transfer att typclass
                      (allow_internal_basetypes data) (allow_binary_basetypes data)
                in if transfer_type = CHR ''i''
                   then rbind (write_internal F T att v)
                          (\<lambda>bytes. Inr (pq_sendbyte F CHR ''i'' @ bytes))
                   else if transfer_type = CHR ''b''
                   then Inr (pq_sendbyte F CHR ''b'' @ write_binary F T typclass v)
                   else Inr (pq_sendbyte F CHR ''t'' @ write_text F T typclass v)))"

fun write_columns ::
  "pqformat \<Rightarrow> typeio \<Rightarrow> 'p PGLogicalOutputData \<Rightarrow> bitmapset option
     \<Rightarrow> (form_pg_attribute \<times> datum option) list \<Rightarrow> string result" where
  "write_columns F T data att_list [] = Inr []"
| "write_columns F T data att_list ((att, dval) # cols) =
     (if att_sent att_list att
      then rbind (write_column F T data att dval) (\<lambda>bytes.
           rbind (write_columns F T data att_list cols) (\<lambda>rest. Inr (bytes @ rest)))
      else write_columns F T data att_list cols)"

definition pglogical_write_tuple ::
  "pqformat \<Rightarrow> typeio \<Rightarrow> 'p PGLogicalOutputData \<Rightarrow> relation \<Rightarrow> heap_tuple
     \<Rightarrow> bitmapset option \<Rightarrow> string result" where
  "pglogical_write_tuple F T data rel tuple att_list =
     rbind (write_columns F T data att_list
              (zip (rd_att rel) (heap_deform_tuple (rd_att rel) tuple)))
       (\<lambda>cols. Inr (pq_sendbyte F CHR ''T'' @
                    pq_sendint2 F (nliveatts att_list (rd_att rel)) @ cols))"

definition pglogical_write_insert ::
  "pqformat \<Rightarrow> typeio \<Rightarrow> 'p PGLogicalOutputData \<Rightarrow> relation \<Rightarrow> heap_tuple
     \<Rightarrow> bitmapset option \<Rightarrow> string result" where
  "pglogical_write_insert F T data rel newtup att_list =
     rbind (pglogical_write_tuple F T data rel newtup att_list) (\<lambda>tup.
       Inr (pq_sendbyte F CHR ''I'' @
            pq_sendbyte F NUL @
            pq_sendint4 F (rd_id rel) @
            pq_sendbyte F CHR ''N'' @ tup))"

definition pglogical_write_update ::
  "pqformat \<Rightarrow> typeio \<Rightarrow> 'p PGLogicalOutputData \<Rightarrow> relation \<Rightarrow> heap_tuple option \<Rightarrow> heap_tuple
     \<Rightarrow> bitmapset option \<Rightarrow> string result" where
  "pglogical_write_update F T data rel oldtup newtup att_list =
     rbind (case oldtup of
              None \<Rightarrow> Inr []
            | Some tup \<Rightarrow> rbind (pglogical_write_tuple F T data rel tup att_list)
                            (\<lambda>old. Inr (pq_sendbyte F CHR ''K'' @ old))) (\<lambda>old.
     rbind (pglogical_write_tuple F T data rel newtup att_list) (\<lambda>new.
       Inr (pq_sendbyte F CHR ''U'' @
            pq_sendbyte F NUL @
            pq_sendint4 F (rd_id rel) @
            old @
            pq_sendbyte F CHR ''N'' @ new)))"

definition pglogical_write_delete ::
  "pqformat \<Rightarrow> typeio \<Rightarrow> 'p PGLogicalOutputData \<Rightarrow> relation \<Rightarrow> heap_tuple
     \<Rightarrow> bitmapset option \<Rightarrow> string result" where
  "pglogical_write_delete F T data rel oldtup att_list =
     rbind (pglogical_write_tuple F T data rel oldtup att_list) (\<lambda>tup.
       Inr (pq_sendbyte F CHR ''D'' @
            pq_sendbyte F NUL @
            pq_sendint4 F (rd_id rel) @
            pq_sendbyte F CHR ''K'' @ tup))"

section \<open>Lemmas\<close>

lemma decide_datum_transfer_cases:
  "decide_datum_transfer att ty ai ab \<in> {CHR ''i'', CHR ''b'', CHR ''t''}"
  by (simp add: decide_datum_transfer_def)

lemma decide_datum_transfer_internal:
  "decide_datum_transfer att ty ai ab = CHR ''i'' \<longleftrightarrow>
   ai \<and> typtype ty = CHR ''b'' \<and> atttypid att < FirstNormalObjectId \<and> typelem ty = InvalidOid"
  by (simp add: decide_datum_transfer_def)

end
