(* ===== verification/Pgl_Relcache.thy ===== *)
theory Pgl_Relcache
  imports Pgl_Types
begin

text \<open>
  The subscriber's cache of remote relations, \<open>src/pglogical_relcache.c\<close>: an entry per remote
  relation id with the remote description and, filled in when the relation is first opened, the
  mapping of the remote columns to the local table.

  The hash table is PostgreSQL's \<open>dynahash\<close>: it compares keys through its key function, which is the
  parameter \<open>keyof\<close> (the table is a map from what the key function sees).  The local database is the
  parameter \<open>db\<close>: opening a table by name or by oid.  An error ends the worker, so no state is
  returned with it.
\<close>

section \<open>Data\<close>

record PGLogicalRemoteRel =
  rem_relid :: oid
  rem_nspname :: string
  rem_relname :: string
  rem_attnames :: "string list"
  hasRowFilter :: bool

record PGLogicalRelation =
  remoteid :: oid
  ent_nspname :: string
  ent_relname :: string
  natts :: nat
  attnames :: "string list"
  reloid :: oid
  ent_rel :: "relation option"
  attmap :: "nat list"
  hasTriggers :: bool

record localdb =
  heap_openrv :: "string \<Rightarrow> string \<Rightarrow> relation result"
  heap_open :: "oid \<Rightarrow> relation result"

type_synonym 'k relcache = "'k \<rightharpoonup> PGLogicalRelation"

abbreviation TRIGGER_FIRES_ON_ORIGIN :: char where
  "TRIGGER_FIRES_ON_ORIGIN \<equiv> CHR ''O''"

abbreviation TRIGGER_DISABLED :: char where
  "TRIGGER_DISABLED \<equiv> CHR ''D''"

section \<open>Operations\<close>

fun att_index_from :: "nat \<Rightarrow> tupledesc \<Rightarrow> string \<Rightarrow> nat result" where
  "att_index_from i [] name = elog ''unknown column name %s''"
| "att_index_from i (att # atts) name =
     (if attname att = name then Inr i else att_index_from (Suc i) atts name)"

definition tupdesc_get_att_by_name :: "tupledesc \<Rightarrow> string \<Rightarrow> nat result" where
  "tupdesc_get_att_by_name desc name = att_index_from 0 desc name"

definition has_replica_row_trigger :: "trigger list \<Rightarrow> bool" where
  "has_replica_row_trigger trigs = list_ex (\<lambda>t.
     \<not> (tgenabled t = TRIGGER_FIRES_ON_ORIGIN \<or> tgenabled t = TRIGGER_DISABLED) \<and>
     TRIGGER_FOR_ROW t) trigs"

definition relcache_free_entry :: "PGLogicalRelation \<Rightarrow> PGLogicalRelation" where
  "relcache_free_entry entry =
     entry\<lparr> ent_nspname := [], ent_relname := [], natts := 0, attnames := [], attmap := [],
            reloid := InvalidOid \<rparr>"

text \<open>A fresh entry of the hash table has its key set and nothing else.\<close>

definition new_entry :: "oid \<Rightarrow> PGLogicalRelation" where
  "new_entry k = \<lparr> remoteid = k, ent_nspname = [], ent_relname = [], natts = 0, attnames = [],
     reloid = InvalidOid, ent_rel = None, attmap = [], hasTriggers = False \<rparr>"

definition pglogical_relation_cache_update ::
  "(oid \<Rightarrow> 'k) \<Rightarrow> 'k relcache \<Rightarrow> oid \<Rightarrow> string \<Rightarrow> string \<Rightarrow> string list \<Rightarrow> 'k relcache" where
  "pglogical_relation_cache_update keyof cache rid schemaname rname atts =
     (let entry = (case cache (keyof rid) of
                     Some e \<Rightarrow> relcache_free_entry e | None \<Rightarrow> new_entry rid)
      in cache(keyof rid \<mapsto>
           entry\<lparr> ent_nspname := schemaname, ent_relname := rname, natts := length atts,
                  attnames := atts, attmap := [], reloid := InvalidOid \<rparr>))"

definition pglogical_relation_cache_updater ::
  "(oid \<Rightarrow> 'k) \<Rightarrow> 'k relcache \<Rightarrow> PGLogicalRemoteRel \<Rightarrow> 'k relcache" where
  "pglogical_relation_cache_updater keyof cache remoterel =
     (let entry = (case cache (keyof (rem_relid remoterel)) of
                     Some e \<Rightarrow> relcache_free_entry e | None \<Rightarrow> new_entry (rem_relid remoterel))
      in cache(keyof (rem_relid remoterel) \<mapsto>
           entry\<lparr> ent_nspname := rem_nspname remoterel, ent_relname := rem_relname remoterel,
                  natts := length (rem_attnames remoterel), attnames := rem_attnames remoterel,
                  attmap := [], reloid := InvalidOid \<rparr>))"

definition pglogical_relation_open ::
  "(oid \<Rightarrow> 'k) \<Rightarrow> localdb \<Rightarrow> 'k relcache \<Rightarrow> oid \<Rightarrow> (PGLogicalRelation \<times> 'k relcache) result" where
  "pglogical_relation_open keyof db cache rid =
     (case cache (keyof rid) of
        None \<Rightarrow> elog ''cache lookup failed for remote relation %u''
      | Some entry \<Rightarrow>
          if \<not> OidIsValid (reloid entry)
          then rbind (heap_openrv db (ent_nspname entry) (ent_relname entry)) (\<lambda>rel.
               rbind (rmap (tupdesc_get_att_by_name (rd_att rel)) (attnames entry)) (\<lambda>amap.
               let entry' = entry\<lparr> ent_rel := Some rel, attmap := amap, reloid := rd_id rel,
                                   hasTriggers := has_replica_row_trigger (rd_trigs rel) \<rparr>
               in Inr (entry', cache(keyof rid \<mapsto> entry'))))
          else rbind (heap_open db (reloid entry)) (\<lambda>rel.
               let entry' = entry\<lparr> ent_rel := Some rel \<rparr>
               in Inr (entry', cache(keyof rid \<mapsto> entry'))))"

definition pglogical_relation_close ::
  "(oid \<Rightarrow> 'k) \<Rightarrow> 'k relcache \<Rightarrow> oid \<Rightarrow> 'k relcache" where
  "pglogical_relation_close keyof cache rid =
     (case cache (keyof rid) of
        None \<Rightarrow> cache
      | Some entry \<Rightarrow> cache(keyof rid \<mapsto> entry\<lparr> ent_rel := None \<rparr>))"

definition pglogical_relcache_invalidate_callback ::
  "'k relcache \<Rightarrow> oid \<Rightarrow> 'k relcache" where
  "pglogical_relcache_invalidate_callback cache oid =
     (if oid \<noteq> InvalidOid
      then (\<lambda>k. map_option (\<lambda>entry. if reloid entry = oid
                                    then entry\<lparr> reloid := InvalidOid \<rparr> else entry) (cache k))
      else (\<lambda>k. map_option (\<lambda>entry. entry\<lparr> reloid := InvalidOid \<rparr>) (cache k)))"

section \<open>Invariant\<close>

text \<open>
  An entry is well formed when its column count is that of its names and, once it is bound to a
  local table, that is the table with the remote schema and name, its map sends every remote column to a local column
  of the same name and its trigger flag is the table's.
\<close>

definition att_match :: "tupledesc \<Rightarrow> string list \<Rightarrow> nat list \<Rightarrow> bool" where
  "att_match desc names amap =
     list_all2 (\<lambda>name i. i < length desc \<and> attname (desc ! i) = name) names amap"

definition bound_to :: "localdb \<Rightarrow> PGLogicalRelation \<Rightarrow> relation \<Rightarrow> bool" where
  "bound_to db entry rel \<longleftrightarrow> heap_openrv db (ent_nspname entry) (ent_relname entry) = Inr rel \<and>
     heap_open db (reloid entry) = Inr rel \<and> rd_id rel = reloid entry \<and>
     att_match (rd_att rel) (attnames entry) (attmap entry) \<and>
     hasTriggers entry = has_replica_row_trigger (rd_trigs rel)"

definition entry_ok :: "localdb \<Rightarrow> PGLogicalRelation \<Rightarrow> bool" where
  "entry_ok db entry \<longleftrightarrow> natts entry = length (attnames entry) \<and>
     (OidIsValid (reloid entry) \<longrightarrow> (\<exists>rel. bound_to db entry rel))"

definition relcache_ok :: "localdb \<Rightarrow> 'k relcache \<Rightarrow> bool" where
  "relcache_ok db cache \<longleftrightarrow> (\<forall>k entry. cache k = Some entry \<longrightarrow> entry_ok db entry)"

text \<open>What the backend promises: a table found by name has a valid oid and is what that oid opens.\<close>

definition db_ok :: "localdb \<Rightarrow> bool" where
  "db_ok db \<longleftrightarrow> (\<forall>n r rel. heap_openrv db n r = Inr rel \<longrightarrow>
      OidIsValid (rd_id rel) \<and> heap_open db (rd_id rel) = Inr rel)"

text \<open>
  The life of the cache: relation messages for the remote relations in \<open>R\<close> arrive, relations are opened and closed, and
  local DDL on one table is followed by the invalidation of its oid before anything else happens.  DDL on one table
  (creating, altering, renaming, dropping it) leaves the other tables and their names as they are; after any other DDL everything is invalidated.
  PostgreSQL sends no such message when a schema is renamed: this is not among the steps.
\<close>

inductive relcache_step ::
  "(oid \<Rightarrow> 'k) \<Rightarrow> oid set \<Rightarrow> localdb \<times> 'k relcache \<Rightarrow> localdb \<times> 'k relcache \<Rightarrow> bool" for keyof R where
  update: "rid \<in> R \<Longrightarrow> relcache_step keyof R (db, cache)
     (db, pglogical_relation_cache_update keyof cache rid nsp rn atts)"
| updater: "rem_relid remoterel \<in> R \<Longrightarrow> relcache_step keyof R (db, cache)
     (db, pglogical_relation_cache_updater keyof cache remoterel)"
| opened: "pglogical_relation_open keyof db cache rid = Inr (entry, cache') \<Longrightarrow>
     relcache_step keyof R (db, cache) (db, cache')"
| closed: "relcache_step keyof R (db, cache) (db, pglogical_relation_close keyof cache rid)"
| ddl: "db_ok db' \<Longrightarrow> oid \<noteq> InvalidOid \<Longrightarrow> (\<And>x. x \<noteq> oid \<Longrightarrow> heap_open db' x = heap_open db x) \<Longrightarrow>
     (\<And>n r rel. heap_openrv db n r = Inr rel \<Longrightarrow> rd_id rel \<noteq> oid \<Longrightarrow> heap_openrv db' n r = Inr rel) \<Longrightarrow>
     relcache_step keyof R (db, cache) (db', pglogical_relcache_invalidate_callback cache oid)"
| ddl_all: "db_ok db' \<Longrightarrow>
     relcache_step keyof R (db, cache) (db', pglogical_relcache_invalidate_callback cache InvalidOid)"

text \<open>The remote description an entry holds.\<close>

definition describes :: "string \<Rightarrow> string \<Rightarrow> string list \<Rightarrow> PGLogicalRelation option \<Rightarrow> bool" where
  "describes nsp rn atts x \<longleftrightarrow>
     (\<exists>entry. x = Some entry \<and> ent_nspname entry = nsp \<and> ent_relname entry = rn \<and> attnames entry = atts)"

section \<open>An example\<close>

definition ex_column :: "string \<Rightarrow> form_pg_attribute" where
  "ex_column n = \<lparr> attname = n, atttypid = 25, attlen = -1, attnum = 1, atttypmod = -1,
     attbyval = False, attisdropped = False \<rparr>"

definition ex_table :: relation where
  "ex_table = \<lparr> rd_id = 24577, relnamespace = 2200, relname = ''t'',
     relkind = CHR ''r'', rd_att = [ex_column ''b'', ex_column ''a''], idkey_attrs = {}, replidindex = 0,
     rd_trigs = [\<lparr> tgenabled = CHR ''A'', tgtype = 7, tgfoid = 99 \<rparr>], needs_wal = True \<rparr>"

definition ex_local :: localdb where
  "ex_local = \<lparr> heap_openrv = (\<lambda>n r. if r = ''t'' then Inr ex_table else elog ''no table''),
     heap_open = (\<lambda>i. if i = 24577 then Inr ex_table else elog ''no table'') \<rparr>"

section \<open>Lemmas\<close>

lemma att_index_from_eq:
  "att_index_from k desc name =
     (if name \<in> attname ` set desc
      then Inr (k + length (takeWhile (\<lambda>att. attname att \<noteq> name) desc))
      else elog ''unknown column name %s'')"
  by (induction desc arbitrary: k) auto

text \<open>The first column of that name is found, and a name is unknown exactly when no column has it.\<close>

lemma tupdesc_get_att_by_name_Inr:
  assumes "tupdesc_get_att_by_name desc name = Inr i"
  shows "i < length desc \<and> attname (desc ! i) = name \<and> (\<forall>j < i. attname (desc ! j) \<noteq> name)"
proof -
  let ?P = "\<lambda>att. attname att \<noteq> name"
  have i: "i = length (takeWhile ?P desc)" and ex: "\<exists>att\<in>set desc. \<not> ?P att"
    using assms by (auto simp: tupdesc_get_att_by_name_def att_index_from_eq split: if_splits)
  have "takeWhile ?P desc \<noteq> desc"
    using ex by (simp add: takeWhile_eq_all_conv)
  then have lt: "i < length desc"
    using i length_takeWhile_le [of ?P desc] takeWhile_eq_take [of ?P desc]
    by (cases "length (takeWhile ?P desc) = length desc") simp_all
  moreover have "\<not> ?P (desc ! i)"
    using nth_length_takeWhile [of ?P desc] lt i by simp
  moreover have "\<forall>j < i. ?P (desc ! j)"
    using i by (metis (mono_tags, lifting) nth_mem set_takeWhileD takeWhile_nth)
  ultimately show ?thesis by blast
qed

lemma att_index_from_ok: "is_ok (att_index_from k desc name) \<longleftrightarrow> name \<in> attname ` set desc"
  by (induction desc arbitrary: k) auto

lemma rmap_att_match:
  "rmap (tupdesc_get_att_by_name desc) names = Inr amap \<Longrightarrow> att_match desc names amap"
  by (auto simp: rmap_Inr_iff att_match_def tupdesc_get_att_by_name_Inr elim!: list_all2_mono)

lemma att_match_names: "att_match desc names amap \<Longrightarrow> set names \<subseteq> attname ` set desc"
  unfolding att_match_def
proof (induction names amap rule: list_all2_induct)
  case (Cons name names i amap)
  then have "attname (desc ! i) = name" "desc ! i \<in> set desc" by simp_all
  then have "name \<in> attname ` set desc" by blast
  then show ?case using Cons.IH by simp
qed simp

lemma entry_ok_rel [simp]: "entry_ok db (entry\<lparr> ent_rel := x \<rparr>) = entry_ok db entry"
  by (simp add: entry_ok_def bound_to_def)

lemma entry_ok_unbound:
  "entry_ok db entry \<Longrightarrow> entry_ok db' (entry\<lparr> reloid := InvalidOid \<rparr>)"
  by (simp add: entry_ok_def)

lemma entry_ok_other:
  assumes "entry_ok db entry" "reloid entry \<noteq> oid" "\<And>x. x \<noteq> oid \<Longrightarrow> heap_open db' x = heap_open db x"
    and "\<And>n r rel. heap_openrv db n r = Inr rel \<Longrightarrow> rd_id rel \<noteq> oid \<Longrightarrow> heap_openrv db' n r = Inr rel"
  shows "entry_ok db' entry"
  using assms by (auto simp: entry_ok_def bound_to_def)

lemma relcache_okD: "relcache_ok db cache \<Longrightarrow> cache k = Some entry \<Longrightarrow> entry_ok db entry"
  by (auto simp: relcache_ok_def)

lemma relcache_ok_upd [intro]:
  "relcache_ok db cache \<Longrightarrow> entry_ok db entry \<Longrightarrow> relcache_ok db (cache(k \<mapsto> entry))"
  by (auto simp: relcache_ok_def)

lemma relcache_ok_update:
  "relcache_ok db cache \<Longrightarrow>
   relcache_ok db (pglogical_relation_cache_update keyof cache rid nsp rel atts)"
  unfolding pglogical_relation_cache_update_def Let_def
  by (rule relcache_ok_upd) (auto simp: entry_ok_def)

lemma updater_is_update:
  "pglogical_relation_cache_updater keyof cache r =
   pglogical_relation_cache_update keyof cache (rem_relid r) (rem_nspname r) (rem_relname r)
     (rem_attnames r)"
  by (simp add: pglogical_relation_cache_updater_def pglogical_relation_cache_update_def)

lemma relcache_ok_open:
  assumes "relcache_ok db cache" "db_ok db"
    and "pglogical_relation_open keyof db cache rid = Inr (entry, cache')"
  shows "relcache_ok db cache' \<and> entry_ok db entry \<and> (\<exists>rel. bound_to db entry rel \<and> ent_rel entry = Some rel) \<and>
    cache' (keyof rid) = Some entry"
proof -
  obtain e where e: "cache (keyof rid) = Some e" "entry_ok db e"
    using assms(3) relcache_okD [OF assms(1), of "keyof rid"]
    by (cases "cache (keyof rid)") (auto simp: pglogical_relation_open_def)
  have "entry_ok db entry \<and> (\<exists>rel. bound_to db entry rel \<and> ent_rel entry = Some rel) \<and>
      cache' = cache(keyof rid \<mapsto> entry)"
  proof (cases "OidIsValid (reloid e)")
    case True
    then obtain rel where "bound_to db e rel" using e(2) by (auto simp: entry_ok_def)
    then have "bound_to db (e\<lparr> ent_rel := Some rel \<rparr>) rel" "heap_open db (reloid e) = Inr rel"
      by (simp_all add: bound_to_def)
    then show ?thesis using True e assms(3) by (auto simp: pglogical_relation_open_def Let_def)
  next
    case False
    then show ?thesis
      using e assms(2,3)
      by (auto simp: pglogical_relation_open_def rbind_eq_Inr db_ok_def entry_ok_def bound_to_def Let_def
          dest!: rmap_att_match)
  qed
  then show ?thesis using assms(1) by auto
qed

text \<open>When a well-formed entry can be opened.\<close>

lemma open_ok_iff:
  assumes "relcache_ok db cache" "cache (keyof rid) = Some e"
  shows "is_ok (pglogical_relation_open keyof db cache rid) \<longleftrightarrow>
    (\<exists>rel. heap_openrv db (ent_nspname e) (ent_relname e) = Inr rel \<and> set (attnames e) \<subseteq> attname ` set (rd_att rel))"
proof (cases "OidIsValid (reloid e)")
  case True
  then obtain rel where r: "bound_to db e rel" using assms relcache_okD by (fastforce simp: entry_ok_def)
  have "set (attnames e) \<subseteq> attname ` set (rd_att rel)"
    using r unfolding bound_to_def by (blast dest: att_match_names)
  then show ?thesis using r True assms(2) by (simp add: pglogical_relation_open_def bound_to_def Let_def)
next
  case False
  have "is_ok (rmap (tupdesc_get_att_by_name desc) names) \<longleftrightarrow> set names \<subseteq> attname ` set desc" for desc names
    by (induction names) (auto simp: tupdesc_get_att_by_name_def att_index_from_eq is_ok_def rbind_def split: sum.splits)
  then show ?thesis
    using False assms(2)
    by (cases "heap_openrv db (ent_nspname e) (ent_relname e)")
      (simp_all add: pglogical_relation_open_def Let_def is_ok_rbind, auto simp: is_ok_iff)
qed

lemma relcache_ok_close:
  "relcache_ok db cache \<Longrightarrow> relcache_ok db (pglogical_relation_close keyof cache rid)"
  by (auto simp: pglogical_relation_close_def relcache_ok_def split: option.splits)

text \<open>
  After local DDL on one table the invalidation message for it makes the cache fit the new catalog
  again; the message with the invalid oid makes it fit any catalog.
\<close>

lemma relcache_ok_invalidate:
  assumes "relcache_ok db cache" "oid \<noteq> InvalidOid" "\<And>x. x \<noteq> oid \<Longrightarrow> heap_open db' x = heap_open db x"
    and "\<And>n r rel. heap_openrv db n r = Inr rel \<Longrightarrow> rd_id rel \<noteq> oid \<Longrightarrow> heap_openrv db' n r = Inr rel"
  shows "relcache_ok db' (pglogical_relcache_invalidate_callback cache oid)"
  using assms(1,2)
  by (auto simp: pglogical_relcache_invalidate_callback_def relcache_ok_def
      intro: entry_ok_unbound entry_ok_other [OF _ _ assms(3,4)])

lemma relcache_ok_invalidate_all:
  assumes "relcache_ok db cache"
  shows "relcache_ok db' (pglogical_relcache_invalidate_callback cache InvalidOid)"
  using assms
  by (auto simp: pglogical_relcache_invalidate_callback_def relcache_ok_def
      intro: entry_ok_unbound)

lemma relcache_step_ok:
  assumes "relcache_step keyof R (db, cache) (db', cache')" "db_ok db" "relcache_ok db cache"
  shows "db_ok db' \<and> relcache_ok db' cache'"
  using assms
  by (cases rule: relcache_step.cases)
    (auto simp: updater_is_update intro: relcache_ok_update relcache_ok_close relcache_ok_invalidate
      relcache_ok_invalidate_all dest: relcache_ok_open)

lemma relcache_run_ok:
  assumes "(relcache_step keyof R)\<^sup>*\<^sup>* (db, cache) (db', cache')" "db_ok db" "relcache_ok db cache"
  shows "db_ok db' \<and> relcache_ok db' cache'"
  using assms(1)
proof (induction "(db', cache')" arbitrary: db' cache' rule: rtranclp_induct)
  case base
  then show ?case using assms(2,3) by simp
next
  case (step y)
  then show ?case by (cases y) (auto dest: relcache_step_ok)
qed

text \<open>Only a relation message whose id has the same key changes the description under that key.\<close>

lemma describes_invalidate:
  assumes "describes nsp rn atts (cache k)"
  shows "describes nsp rn atts (pglogical_relcache_invalidate_callback cache i k)"
proof -
  obtain e where e: "cache k = Some e" "ent_nspname e = nsp" "ent_relname e = rn" "attnames e = atts"
    using assms by (auto simp: describes_def)
  then show ?thesis
    by (cases "i = InvalidOid"; cases "reloid e = i") (simp_all add: describes_def pglogical_relcache_invalidate_callback_def)
qed

lemma describes_keep:
  assumes "relcache_step keyof {r. keyof r \<noteq> k} (db, cache) (db', cache')" "describes nsp rn atts (cache k)"
  shows "describes nsp rn atts (cache' k)"
  using assms
proof (cases rule: relcache_step.cases)
  case (opened rid entry)
  then show ?thesis
    using assms(2)
    by (cases "keyof rid = k")
      (auto simp: describes_def pglogical_relation_open_def rbind_eq_Inr Let_def split: option.splits if_splits)
qed (auto simp: describes_def pglogical_relation_cache_update_def updater_is_update
    pglogical_relation_close_def Let_def split: option.splits
    intro: describes_invalidate [unfolded describes_def])

lemma describes_run:
  assumes "(relcache_step keyof {r. keyof r \<noteq> k})\<^sup>*\<^sup>* (db, cache) (db', cache')" "describes nsp rn atts (cache k)"
  shows "describes nsp rn atts (cache' k)"
  using assms(1)
proof (induction "(db', cache')" arbitrary: db' cache' rule: rtranclp_induct)
  case (step y)
  then show ?case by (cases y) (auto dest: describes_keep)
qed (use assms(2) in simp)

section \<open>Properties\<close>


lemma ex_local_ok: "db_ok ex_local"
  by (simp add: db_ok_def ex_local_def ex_table_def)


text \<open>
  Remote relations are kept apart only as far as the hash key keeps their ids apart.  With a key
  function that separates the two ids, storing the description of one leaves the other as it was; when
  the key function maps both to the same key, the description stored for the second id is what
  opening the first one uses from then on.  The table is created without \<open>HASH_BLOBS\<close>, so its keys are
  compared as strings, and ids that agree up to a zero byte, such as 16384 and 32768, are one key.
\<close>

theorem relation_ids_share_hash_key:
  "(keyof a \<noteq> keyof b \<longrightarrow>
     (pglogical_relation_cache_update keyof cache b nsp rn atts) (keyof a) = cache (keyof a)) \<and>
   (keyof a = keyof b \<longrightarrow>
     pglogical_relation_open keyof db
       (pglogical_relation_cache_update keyof cache b nsp rn atts) a =
     pglogical_relation_open keyof db
       (pglogical_relation_cache_update keyof cache b nsp rn atts) b) \<and>
   string_key 16384 = string_key 32768"
  by (simp add: pglogical_relation_cache_update_def pglogical_relation_open_def Let_def
      string_key_def)

theorem relation_ids_share_hash_key_witness:
  "string_key 16384 = string_key 32768 \<and>
   pglogical_relation_open string_key ex_local
     (pglogical_relation_cache_update string_key Map.empty 32768 ''public'' ''t'' [''a'']) 16384 =
   pglogical_relation_open string_key ex_local
     (pglogical_relation_cache_update string_key Map.empty 32768 ''public'' ''t'' [''a'']) 32768"
  using relation_ids_share_hash_key [of string_key 16384 32768 Map.empty "''public''" "''t''"
      "[''a'']" ex_local] by simp

end
