(* ===== verification/Pgl_Proto.thy ===== *)
theory Pgl_Proto
  imports Pgl_Native Pgl_Relcache
begin

text \<open>
  The subscriber's protocol reader, \<open>src/pglogical_proto.c\<close>, and its round trips with the writer of
  \<open>src/pglogical_output/pglogical_proto_native.c\<close>.  The message-type byte has been consumed by
  the dispatcher before a reader is called.  A pointer into the message is the list of the bytes
  from that address on, so a C string read through it ends at the first NUL even when that lies
  behind the announced length.
\<close>

section \<open>Data\<close>

text \<open>The arrays of \<open>PGLogicalTupleData\<close>, indexed by local attribute.\<close>

record PGLogicalTupleData =
  tvalues :: "nat \<Rightarrow> datum"
  tnulls :: "nat \<Rightarrow> bool"
  tchanged :: "nat \<Rightarrow> bool"

section \<open>Readers\<close>

definition pglogical_read_begin ::
  "pqformat \<Rightarrow> string \<Rightarrow> ((xlogrecptr \<times> timestamptz \<times> transaction_id) \<times> string) result" where
  "pglogical_read_begin F inp =
     rbind (pq_getmsgbyte F inp) (\<lambda>(flags, inp).
     rbind (pq_getmsgint64 F inp) (\<lambda>(remote_lsn, inp).
     rbind (pq_getmsgint64 F inp) (\<lambda>(committime, inp).
     rbind (pq_getmsgint4 F inp) (\<lambda>(remote_xid, inp).
       Inr ((remote_lsn, committime, remote_xid), inp)))))"

definition pglogical_read_commit ::
  "pqformat \<Rightarrow> string \<Rightarrow> ((xlogrecptr \<times> xlogrecptr \<times> timestamptz) \<times> string) result" where
  "pglogical_read_commit F inp =
     rbind (pq_getmsgbyte F inp) (\<lambda>(flags, inp).
     rbind (pq_getmsgint64 F inp) (\<lambda>(commit_lsn, inp).
     rbind (pq_getmsgint64 F inp) (\<lambda>(end_lsn, inp).
     rbind (pq_getmsgint64 F inp) (\<lambda>(committime, inp).
       Inr ((commit_lsn, end_lsn, committime), inp)))))"

text \<open>\<open>pnstrdup\<close> copies the announced bytes and terminates the copy.\<close>

definition pglogical_read_origin ::
  "pqformat \<Rightarrow> string \<Rightarrow> ((string \<times> xlogrecptr) \<times> string) result" where
  "pglogical_read_origin F inp =
     rbind (pq_getmsgbyte F inp) (\<lambda>(flags, inp).
     rbind (pq_getmsgint64 F inp) (\<lambda>(lsn, inp).
     rbind (pq_getmsgbyte F inp) (\<lambda>(len, inp).
     rbind (pq_getmsgbytes F (int (byte_val len)) inp) (\<lambda>(ptr, inp).
       Inr ((cstr (take (byte_val len) ptr), lsn), inp)))))"

definition read_column ::
  "pqformat \<Rightarrow> typeio \<Rightarrow> form_pg_attribute \<Rightarrow> nat \<Rightarrow> PGLogicalTupleData \<Rightarrow> string
     \<Rightarrow> (PGLogicalTupleData \<times> string) result" where
  "read_column F T att attid tuple inp =
     rbind (pq_getmsgbyte F inp) (\<lambda>(kind, inp).
     let valid = tuple\<lparr> tnulls := (tnulls tuple)(attid := False),
                       tchanged := (tchanged tuple)(attid := True) \<rparr>
     in if kind = CHR ''n''
        then Inr (tuple\<lparr> tvalues := (tvalues tuple)(attid := DatumByVal 0xdeadbeef),
                         tchanged := (tchanged tuple)(attid := True) \<rparr>, inp)
        else if kind = CHR ''u''
        then Inr (tuple\<lparr> tvalues := (tvalues tuple)(attid := DatumByVal 0xfbadbeef) \<rparr>, inp)
        else if kind = CHR ''i''
        then rbind (pq_getmsgint4 F inp) (\<lambda>(len, inp).
             rbind (pq_getmsgbytes F (sint len) inp) (\<lambda>(ptr, inp).
             if attbyval att
             then rbind (fetch_att T (take (unat len) ptr) (sint len)) (\<lambda>v.
                  Inr (valid\<lparr> tvalues := (tvalues valid)(attid := v) \<rparr>, inp))
             else Inr (valid\<lparr> tvalues :=
                         (tvalues valid)(attid := DatumPtr (take (unat len) ptr)) \<rparr>, inp)))
        else if kind = CHR ''b''
        then rbind (pq_getmsgint4 F inp) (\<lambda>(len, inp).
             rbind (pq_getmsgbytes F (sint len) inp) (\<lambda>(ptr, inp).
             rbind (OidReceiveFunctionCall T (atttypid att) (atttypmod att) (take (unat len) ptr))
               (\<lambda>(v, cursor).
             if unat len \<noteq> cursor
             then ereport ERRCODE_INVALID_BINARY_REPRESENTATION ''incorrect binary data format''
             else Inr (valid\<lparr> tvalues := (tvalues valid)(attid := v) \<rparr>, inp))))
        else if kind = CHR ''t''
        then rbind (pq_getmsgint4 F inp) (\<lambda>(len, inp).
             rbind (pq_getmsgbytes F (sint len) inp) (\<lambda>(ptr, inp).
             rbind (OidInputFunctionCall T (atttypid att) (atttypmod att) (cstr ptr)) (\<lambda>v.
             Inr (valid\<lparr> tvalues := (tvalues valid)(attid := v) \<rparr>, inp))))
        else elog ''unknown data representation type %c'')"

fun read_columns ::
  "pqformat \<Rightarrow> typeio \<Rightarrow> tupledesc \<Rightarrow> nat list \<Rightarrow> PGLogicalTupleData \<Rightarrow> string
     \<Rightarrow> (PGLogicalTupleData \<times> string) result" where
  "read_columns F T desc [] tuple inp = Inr (tuple, inp)"
| "read_columns F T desc (attid # attids) tuple inp =
     rbind (read_column F T (desc ! attid) attid tuple inp) (\<lambda>(tuple, inp).
       read_columns F T desc attids tuple inp)"

definition pglogical_read_tuple ::
  "pqformat \<Rightarrow> typeio \<Rightarrow> PGLogicalRelation \<Rightarrow> PGLogicalTupleData \<Rightarrow> string
     \<Rightarrow> (PGLogicalTupleData \<times> string) result" where
  "pglogical_read_tuple F T rel tuple inp =
     rbind (pq_getmsgbyte F inp) (\<lambda>(act, inp).
     if act \<noteq> CHR ''T'' then elog ''expected TUPLE, got %c''
     else let tuple = tuple\<lparr> tnulls := (\<lambda>_. True), tchanged := (\<lambda>_. False) \<rparr>
          in rbind (pq_getmsgint2 F inp) (\<lambda>(n, inp).
             if natts rel \<noteq> unat n then elog ''tuple natts mismatch, %u vs %u''
             else read_columns F T (rd_att (the (ent_rel rel))) (take (unat n) (attmap rel))
                    tuple inp))"

definition pglogical_read_insert ::
  "pqformat \<Rightarrow> typeio \<Rightarrow> (oid \<Rightarrow> 'k) \<Rightarrow> localdb \<Rightarrow> 'k relcache \<Rightarrow> PGLogicalTupleData \<Rightarrow> string
     \<Rightarrow> (PGLogicalRelation \<times> PGLogicalTupleData \<times> 'k relcache \<times> string) result" where
  "pglogical_read_insert F T keyof db cache newtup inp =
     rbind (pq_getmsgbyte F inp) (\<lambda>(flags, inp).
     rbind (pq_getmsgint4 F inp) (\<lambda>(rid, inp).
     rbind (pq_getmsgbyte F inp) (\<lambda>(act, inp).
     if act \<noteq> CHR ''N'' then elog ''expected new tuple but got %d''
     else rbind (pglogical_relation_open keyof db cache rid) (\<lambda>(rel, cache).
          rbind (pglogical_read_tuple F T rel newtup inp) (\<lambda>(newtup, inp).
            Inr (rel, newtup, cache, inp))))))"

definition pglogical_read_update ::
  "pqformat \<Rightarrow> typeio \<Rightarrow> (oid \<Rightarrow> 'k) \<Rightarrow> localdb \<Rightarrow> 'k relcache
     \<Rightarrow> PGLogicalTupleData \<Rightarrow> PGLogicalTupleData \<Rightarrow> string
     \<Rightarrow> (PGLogicalRelation \<times> bool \<times> PGLogicalTupleData \<times> PGLogicalTupleData
          \<times> 'k relcache \<times> string) result" where
  "pglogical_read_update F T keyof db cache oldtup newtup inp =
     rbind (pq_getmsgbyte F inp) (\<lambda>(flags, inp).
     rbind (pq_getmsgint4 F inp) (\<lambda>(rid, inp).
     rbind (pq_getmsgbyte F inp) (\<lambda>(act, inp).
     if act \<noteq> CHR ''K'' \<and> act \<noteq> CHR ''O'' \<and> act \<noteq> CHR ''N''
     then elog ''expected action 'N', 'O' or 'K', got %c''
     else rbind (pglogical_relation_open keyof db cache rid) (\<lambda>(rel, cache).
          rbind (if act = CHR ''K'' \<or> act = CHR ''O''
                 then rbind (pglogical_read_tuple F T rel oldtup inp) (\<lambda>(oldtup, inp).
                      rbind (pq_getmsgbyte F inp) (\<lambda>(act, inp). Inr (True, oldtup, act, inp)))
                 else Inr (False, oldtup, act, inp)) (\<lambda>(hasoldtup, oldtup, act, inp).
          if act \<noteq> CHR ''N'' then elog ''expected action 'N', got %c''
          else rbind (pglogical_read_tuple F T rel newtup inp) (\<lambda>(newtup, inp).
               Inr (rel, hasoldtup, oldtup, newtup, cache, inp)))))))"

definition pglogical_read_delete ::
  "pqformat \<Rightarrow> typeio \<Rightarrow> (oid \<Rightarrow> 'k) \<Rightarrow> localdb \<Rightarrow> 'k relcache \<Rightarrow> PGLogicalTupleData \<Rightarrow> string
     \<Rightarrow> (PGLogicalRelation \<times> PGLogicalTupleData \<times> 'k relcache \<times> string) result" where
  "pglogical_read_delete F T keyof db cache oldtup inp =
     rbind (pq_getmsgbyte F inp) (\<lambda>(flags, inp).
     rbind (pq_getmsgint4 F inp) (\<lambda>(rid, inp).
     rbind (pq_getmsgbyte F inp) (\<lambda>(act, inp).
     if act \<noteq> CHR ''K'' \<and> act \<noteq> CHR ''O'' then elog ''expected action 'O' or 'K' %c''
     else rbind (pglogical_relation_open keyof db cache rid) (\<lambda>(rel, cache).
          rbind (pglogical_read_tuple F T rel oldtup inp) (\<lambda>(oldtup, inp).
            Inr (rel, oldtup, cache, inp))))))"

text \<open>The attribute names are pointers into the message; they are C strings when they are used.\<close>

fun read_attr_loop :: "pqformat \<Rightarrow> nat \<Rightarrow> string \<Rightarrow> (string list \<times> string) result" where
  "read_attr_loop F 0 inp = Inr ([], inp)"
| "read_attr_loop F (Suc n) inp =
     rbind (pq_getmsgbyte F inp) (\<lambda>(blocktype, inp).
     if blocktype \<noteq> CHR ''C'' then elog ''expected COLUMN, got %c''
     else rbind (pq_getmsgbyte F inp) (\<lambda>(flags, inp).
          rbind (pq_getmsgbyte F inp) (\<lambda>(blocktype, inp).
          if blocktype \<noteq> CHR ''N'' then elog ''expected NAME, got %c''
          else rbind (pq_getmsgint2 F inp) (\<lambda>(len, inp).
               rbind (pq_getmsgbytes F (int (unat len)) inp) (\<lambda>(ptr, inp).
               rbind (read_attr_loop F n inp) (\<lambda>(names, inp).
                 Inr (cstr ptr # names, inp)))))))"

definition pglogical_read_attrs :: "pqformat \<Rightarrow> string \<Rightarrow> (string list \<times> string) result" where
  "pglogical_read_attrs F inp =
     rbind (pq_getmsgbyte F inp) (\<lambda>(blocktype, inp).
     if blocktype \<noteq> CHR ''A'' then elog ''expected ATTRS, got %c''
     else rbind (pq_getmsgint2 F inp) (\<lambda>(nattrs, inp). read_attr_loop F (unat nattrs) inp))"

definition pglogical_read_rel ::
  "pqformat \<Rightarrow> (oid \<Rightarrow> 'k) \<Rightarrow> 'k relcache \<Rightarrow> string \<Rightarrow> (oid \<times> 'k relcache \<times> string) result" where
  "pglogical_read_rel F keyof cache inp =
     rbind (pq_getmsgbyte F inp) (\<lambda>(flags, inp).
     rbind (pq_getmsgint4 F inp) (\<lambda>(rid, inp).
     rbind (pq_getmsgbyte F inp) (\<lambda>(len, inp).
     rbind (pq_getmsgbytes F (int (byte_val len)) inp) (\<lambda>(schemaname, inp).
     rbind (pq_getmsgbyte F inp) (\<lambda>(len, inp).
     rbind (pq_getmsgbytes F (int (byte_val len)) inp) (\<lambda>(rname, inp).
     rbind (pglogical_read_attrs F inp) (\<lambda>(attrnames, inp).
       Inr (rid, pglogical_relation_cache_update keyof cache rid (cstr schemaname) (cstr rname)
                   attrnames, inp))))))))"

section \<open>The abstract content of a tuple message\<close>

text \<open>
  What travels for a column, free of its encoding.  \<open>column_out\<close> is what the writer sends for a
  datum and \<open>column_in\<close> what the reader makes of it.
\<close>

datatype wire_col =
    WNull
  | WUnchanged
  | WInternal string
  | WBinary string
  | WText string

fun encode_col :: "pqformat \<Rightarrow> wire_col \<Rightarrow> string" where
  "encode_col F WNull = pq_sendbyte F CHR ''n''"
| "encode_col F WUnchanged = pq_sendbyte F CHR ''u''"
| "encode_col F (WInternal b) = pq_sendbyte F CHR ''i'' @ pq_sendint4 F (of_nat (length b)) @ b"
| "encode_col F (WBinary b) = pq_sendbyte F CHR ''b'' @ pq_sendint4 F (of_nat (length b)) @ b"
| "encode_col F (WText s) =
     pq_sendbyte F CHR ''t'' @ pq_sendint4 F (of_nat (length s + 1)) @ s @ [NUL]"

fun wire_col_ok :: "wire_col \<Rightarrow> bool" where
  "wire_col_ok WNull = True"
| "wire_col_ok WUnchanged = True"
| "wire_col_ok (WInternal b) = (length b < 2 ^ 31)"
| "wire_col_ok (WBinary b) = (length b < 2 ^ 31)"
| "wire_col_ok (WText s) = (length s + 1 < 2 ^ 31 \<and> nul_free s)"

fun column_in ::
  "typeio \<Rightarrow> form_pg_attribute \<Rightarrow> nat \<Rightarrow> wire_col \<Rightarrow> PGLogicalTupleData \<Rightarrow> PGLogicalTupleData result"
where
  "column_in T att i WNull tup =
     Inr (tup\<lparr> tvalues := (tvalues tup)(i := DatumByVal 0xdeadbeef),
               tchanged := (tchanged tup)(i := True) \<rparr>)"
| "column_in T att i WUnchanged tup =
     Inr (tup\<lparr> tvalues := (tvalues tup)(i := DatumByVal 0xfbadbeef) \<rparr>)"
| "column_in T att i c tup =
     rbind (case c of
              WInternal b \<Rightarrow> if attbyval att then fetch_att T b (int (length b)) else Inr (DatumPtr b)
            | WBinary b \<Rightarrow> rbind (OidReceiveFunctionCall T (atttypid att) (atttypmod att) b)
                (\<lambda>(v, cursor). if length b \<noteq> cursor
                   then ereport ERRCODE_INVALID_BINARY_REPRESENTATION
                          ''incorrect binary data format''
                   else Inr v)
            | WText s \<Rightarrow> OidInputFunctionCall T (atttypid att) (atttypmod att) s
            | _ \<Rightarrow> Inr (DatumByVal 0)) (\<lambda>v.
     Inr (tup\<lparr> tnulls := (tnulls tup)(i := False), tchanged := (tchanged tup)(i := True),
               tvalues := (tvalues tup)(i := v) \<rparr>))"

fun columns_in ::
  "typeio \<Rightarrow> tupledesc \<Rightarrow> nat list \<Rightarrow> wire_col list \<Rightarrow> PGLogicalTupleData \<Rightarrow> PGLogicalTupleData result"
where
  "columns_in T desc (i # is) (c # cs) tup =
     rbind (column_in T (desc ! i) i c tup) (columns_in T desc is cs)"
| "columns_in T desc _ _ tup = Inr tup"

definition column_out ::
  "typeio \<Rightarrow> 'p PGLogicalOutputData \<Rightarrow> form_pg_attribute \<Rightarrow> datum option \<Rightarrow> wire_col result" where
  "column_out T data att dval =
     (case dval of
        None \<Rightarrow> Inr WNull
      | Some v \<Rightarrow>
          if attlen att = -1 \<and> VARATT_IS_EXTERNAL_ONDISK v then Inr WUnchanged
          else (case search_type T (atttypid att) of
              None \<Rightarrow> elog ''cache lookup failed for type %u''
            | Some ty \<Rightarrow>
               let k = decide_datum_transfer att ty
                         (allow_internal_basetypes data) (allow_binary_basetypes data)
               in if k = CHR ''i'' then
                    (if attbyval att
                     then Inr (WInternal (store_att_byval T (attlen att) (datum_word v)))
                     else if attlen att > 0
                     then Inr (WInternal (take (nat (attlen att)) (datum_bytes v)))
                     else if attlen att = -1 then Inr (WInternal (datum_bytes v))
                     else elog ''unsupported tuple type'')
                  else if k = CHR ''b'' then Inr (WBinary (OidSendFunctionCall T (typsend ty) v))
                  else Inr (WText (OidOutputFunctionCall T (typoutput ty) v))))"

text \<open>
  A datum fits its column: the memory image of a pass-by-value datum has the length of the type, and
  a fixed-length pass-by-reference datum has that many bytes.
\<close>

definition datum_fits :: "typeio \<Rightarrow> form_pg_attribute \<Rightarrow> datum option \<Rightarrow> bool" where
  "datum_fits T att dval =
     (case dval of None \<Rightarrow> True
      | Some v \<Rightarrow>
         (attbyval att \<longrightarrow> int (length (store_att_byval T (attlen att) (datum_word v))) = attlen att) \<and>
         (\<not> attbyval att \<and> attlen att > 0 \<longrightarrow> int (length (datum_bytes v)) = attlen att))"

text \<open>The columns a tuple message carries, with their values, and the message as columns.\<close>

definition sent_cols ::
  "bitmapset option \<Rightarrow> relation \<Rightarrow> heap_tuple \<Rightarrow> (form_pg_attribute \<times> datum option) list" where
  "sent_cols att_list rel tup =
     filter (\<lambda>(att, v). att_sent att_list att) (zip (rd_att rel) (heap_deform_tuple (rd_att rel) tup))"

definition tuple_out ::
  "typeio \<Rightarrow> 'p PGLogicalOutputData \<Rightarrow> bitmapset option \<Rightarrow> relation \<Rightarrow> heap_tuple
     \<Rightarrow> wire_col list result" where
  "tuple_out T data att_list rel tup =
     rmap (\<lambda>(att, v). column_out T data att v) (sent_cols att_list rel tup)"

text \<open>An indirect datum is sent inline.\<close>

fun plain :: "datum \<Rightarrow> datum" where
  "plain (DatumIndirect b) = DatumPtr b"
| "plain d = d"

text \<open>
  What the type support functions of the two databases promise for a value of a column: the input
  and receive functions of the subscriber invert the output and send functions of the provider, the
  two sides agree on whether the type is passed by value, and the representation is shorter than a
  signed 32-bit length can say.
\<close>

definition io_inverse ::
  "typeio \<Rightarrow> typeio \<Rightarrow> form_pg_attribute \<Rightarrow> form_pg_attribute \<Rightarrow> datum \<Rightarrow> bool" where
  "io_inverse T T' att latt v \<longleftrightarrow>
     (case search_type T (atttypid att) of
        None \<Rightarrow> False
      | Some ty \<Rightarrow>
         (let txt = OidOutputFunctionCall T (typoutput ty) v;
              bin = OidSendFunctionCall T (typsend ty) v
          in nul_free txt \<and> length txt + 1 < 2 ^ 31 \<and> length bin < 2 ^ 31 \<and>
             OidInputFunctionCall T' (atttypid latt) (atttypmod latt) txt = Inr (plain v) \<and>
             OidReceiveFunctionCall T' (atttypid latt) (atttypmod latt) bin =
               Inr (plain v, length bin))) \<and>
     attbyval latt = attbyval att \<and> (attlen att > 0 \<or> attlen att = -1) \<and>
     (if attbyval att
      then (let img = store_att_byval T (attlen att) (datum_word v)
            in int (length img) = attlen att \<and> attlen att < 2 ^ 31 \<and>
               fetch_att T' img (attlen att) = Inr (plain v))
      else length (datum_bytes v) < 2 ^ 31 \<and> plain v = DatumPtr (datum_bytes v) \<and>
           (attlen att > 0 \<longrightarrow> int (length (datum_bytes v)) = attlen att))"

definition col_transferable ::
  "typeio \<Rightarrow> typeio \<Rightarrow> form_pg_attribute \<Rightarrow> form_pg_attribute \<Rightarrow> datum option \<Rightarrow> bool" where
  "col_transferable T T' att latt dval \<longleftrightarrow>
     (case dval of None \<Rightarrow> True
      | Some v \<Rightarrow> (attlen att = -1 \<and> VARATT_IS_EXTERNAL_ONDISK v \<and> \<not> attbyval att)
                  \<or> io_inverse T T' att latt v)"

text \<open>What the subscriber should know of a column afterwards.\<close>

definition column_received ::
  "form_pg_attribute \<Rightarrow> datum option \<Rightarrow> PGLogicalTupleData \<Rightarrow> nat \<Rightarrow> bool" where
  "column_received att dval tup i \<longleftrightarrow>
     (case dval of
        None \<Rightarrow> tnulls tup i \<and> tchanged tup i
      | Some v \<Rightarrow>
          if attlen att = -1 \<and> VARATT_IS_EXTERNAL_ONDISK v then \<not> tchanged tup i
          else \<not> tnulls tup i \<and> tchanged tup i \<and> tvalues tup i = plain v)"

definition tuple_received ::
  "(nat \<times> form_pg_attribute \<times> datum option) list \<Rightarrow> PGLogicalTupleData \<Rightarrow> bool" where
  "tuple_received cols tup \<longleftrightarrow> (\<forall>(i, att, v) \<in> set cols. column_received att v tup i)"

text \<open>
  The row arrives: every column that was sent lands in the local column of its name, and the other
  local columns stay null and unchanged.
\<close>

definition row_replicated ::
  "bitmapset option \<Rightarrow> relation \<Rightarrow> heap_tuple \<Rightarrow> relation \<Rightarrow> PGLogicalTupleData \<Rightarrow> bool" where
  "row_replicated al rel tup lrel t \<longleftrightarrow>
     (\<forall>(att, v) \<in> set (sent_cols al rel tup). \<exists>i < length (rd_att lrel).
        attname (rd_att lrel ! i) = attname att \<and> column_received att v t i) \<and>
     (\<forall>i < length (rd_att lrel).
        attname (rd_att lrel ! i) \<notin> attname ` set (filter (att_sent al) (rd_att rel)) \<longrightarrow>
        tnulls t i \<and> \<not> tchanged t i)"

definition cols_transferable ::
  "typeio \<Rightarrow> typeio \<Rightarrow> bitmapset option \<Rightarrow> relation \<Rightarrow> relation \<Rightarrow> heap_tuple \<Rightarrow> bool" where
  "cols_transferable T T' al rel lrel tup \<longleftrightarrow>
     (\<forall>(att, v) \<in> set (sent_cols al rel tup). \<forall>latt \<in> set (rd_att lrel).
        attname latt = attname att \<longrightarrow> col_transferable T T' att latt v)"

text \<open>
  Names are C strings that fit their length field (PostgreSQL's are shorter than 64 bytes), a
  relation has fewer columns than a \<open>uint16\<close> counts and no two live columns share a name.
\<close>

definition rel_wire_ok :: "string \<Rightarrow> relation \<Rightarrow> bitmapset option \<Rightarrow> bool" where
  "rel_wire_ok nsp rel al \<longleftrightarrow>
     nul_free nsp \<and> length nsp < 255 \<and> nul_free (relname rel) \<and> length (relname rel) < 255 \<and>
     list_all (\<lambda>att. nul_free (attname att) \<and> length (attname att) < 65535)
       (filter (att_sent al) (rd_att rel)) \<and>
     length (filter (att_sent al) (rd_att rel)) < 65536 \<and>
     distinct (map attname (filter (att_sent al) (rd_att rel)))"

section \<open>An example\<close>

text \<open>
  A provider table \<open>public.t\<close> with columns \<open>id\<close> and \<open>note\<close> (and a dropped one between them), the
  subscriber's table with the columns in the other order, and text values sent in text form.
\<close>

definition ex_att :: "string \<Rightarrow> int \<Rightarrow> bool \<Rightarrow> form_pg_attribute" where
  "ex_att name num dropped = \<lparr> attname = name, atttypid = 25, attlen = -1, attnum = num,
     atttypmod = -1, attbyval = False, attisdropped = dropped \<rparr>"

definition ex_relation :: "oid \<Rightarrow> tupledesc \<Rightarrow> relation" where
  "ex_relation oid desc = \<lparr> rd_id = oid, relnamespace = 2200, relname = ''t'', relkind = CHR ''r'',
     rd_att = desc, idkey_attrs = {9}, replidindex = 16390, rd_trigs = [], needs_wal = True \<rparr>"

definition ex_prel :: relation where
  "ex_prel = ex_relation 16385 [ex_att ''id'' 1 False, ex_att ''old'' 2 True, ex_att ''note'' 3 False]"

definition ex_lrel :: relation where
  "ex_lrel = ex_relation 24577 [ex_att ''note'' 1 False, ex_att ''id'' 2 False, ex_att ''more'' 3 False]"

definition ex_typeio :: typeio where
  "ex_typeio = \<lparr>
     search_type = (\<lambda>_. Some \<lparr> typtype = CHR ''b'', typelem = 0, typreceive = 2414, typsend = 2415,
                                typoutput = 47 \<rparr>),
     OidOutputFunctionCall = (\<lambda>_ d. datum_bytes d),
     OidSendFunctionCall = (\<lambda>_ d. datum_bytes d),
     store_att_byval = (\<lambda>_ _. []),
     OidInputFunctionCall = (\<lambda>_ _ s. Inr (DatumPtr s)),
     OidReceiveFunctionCall = (\<lambda>_ _ s. Inr (DatumPtr s, length s)),
     fetch_att = (\<lambda>_ _. elog ''unsupported byval length'') \<rparr>"

definition ex_db :: localdb where
  "ex_db = \<lparr> heap_openrv = (\<lambda>_ _. Inr ex_lrel), heap_open = (\<lambda>_. Inr ex_lrel) \<rparr>"

definition ex_row :: heap_tuple where
  "ex_row = [Some (DatumPtr ''1''), None, Some (DatumOnDisk ''toast'')]"

definition ex_txn :: reorderbuffer_txn where
  "ex_txn = \<lparr> xid = 734, has_catalog_changes = False, first_lsn = 0x16B3700,
     final_lsn = 0x16B3748, end_lsn = 0x16B3778, commit_time = 5,
     origin_id = 1, origin_lsn = 0x2000 \<rparr>"

definition ex_tup0 :: PGLogicalTupleData where
  "ex_tup0 = \<lparr> tvalues = (\<lambda>_. DatumByVal 0), tnulls = (\<lambda>_. False), tchanged = (\<lambda>_. False) \<rparr>"

section \<open>Lemmas\<close>

lemma sint_of_nat_small: "n < 2 ^ 31 \<Longrightarrow> sint (of_nat n :: 32 word) = int n"
  by (simp add: signed_of_nat signed_take_bit_int_eq_self)

lemma map_fst_sent_cols: "map fst (sent_cols al rel tup) = filter (att_sent al) (rd_att rel)"
proof -
  have "length xs = length ys \<Longrightarrow>
    map fst (filter (\<lambda>(att, v). att_sent al att) (zip xs ys)) = filter (att_sent al) xs"
    for xs and ys :: "datum option list"
    by (induction xs ys rule: list_induct2) simp_all
  then show ?thesis by (simp add: sent_cols_def)
qed

lemma length_sent_cols: "length (sent_cols al rel tup) = length (filter (att_sent al) (rd_att rel))"
  by (metis length_map map_fst_sent_cols)

text \<open>A transferable column is sent without error, fits, and is received as it should be.\<close>

lemma col_transferable_fits: "col_transferable T T' att latt v \<Longrightarrow> datum_fits T att v"
  by (auto simp: col_transferable_def datum_fits_def io_inverse_def Let_def
      split: option.splits if_splits)

lemma column_transfer:
  assumes "col_transferable T T' att latt v"
  obtains c where "column_out T data att v = Inr c" and "wire_col_ok c"
    and "\<And>tup i. tnulls tup i \<Longrightarrow> \<not> tchanged tup i \<Longrightarrow>
      \<exists>t. column_in T' latt i c tup = Inr t \<and> column_received att v t i \<and>
          (\<forall>j. j \<noteq> i \<longrightarrow> tnulls t j = tnulls tup j \<and> tchanged t j = tchanged tup j \<and>
                          tvalues t j = tvalues tup j)"
proof (cases v)
  case None
  show ?thesis
    by (rule that [of WNull]) (simp_all add: None column_out_def column_received_def)
next
  case (Some d)
  show ?thesis
  proof (cases "attlen att = -1 \<and> VARATT_IS_EXTERNAL_ONDISK d")
    case True
    show ?thesis
      by (rule that [of WUnchanged]) (simp_all add: Some True column_out_def column_received_def)
  next
    case False
    with assms Some have io: "io_inverse T T' att latt d"
      by (auto simp: col_transferable_def)
    then obtain ty where ty: "search_type T (atttypid att) = Some ty"
      by (auto simp: io_inverse_def split: option.splits)
    let ?k = "decide_datum_transfer att ty (allow_internal_basetypes data)
                (allow_binary_basetypes data)"
    let ?img = "if attbyval att then store_att_byval T (attlen att) (datum_word d)
                else datum_bytes d"
    note defs = Some False ty column_out_def column_received_def Let_def
    consider "?k = CHR ''i''" | "?k = CHR ''b''" | "?k = CHR ''t''"
      using decide_datum_transfer_cases by blast
    then show ?thesis
    proof cases
      case 1
      then show ?thesis
        using io by (intro that [of "WInternal ?img"])
          (auto simp: io_inverse_def defs nat_le_iff split: if_splits)
    next
      case 2
      then show ?thesis
        using io by (intro that [of "WBinary (OidSendFunctionCall T (typsend ty) d)"])
          (auto simp: io_inverse_def defs)
    next
      case 3
      then show ?thesis
        using io by (intro that [of "WText (OidOutputFunctionCall T (typoutput ty) d)"])
          (auto simp: io_inverse_def defs)
    qed
  qed
qed

lemma column_received_cong:
  "tnulls t i = tnulls u i \<Longrightarrow> tchanged t i = tchanged u i \<Longrightarrow> tvalues t i = tvalues u i \<Longrightarrow>
   column_received att v t i = column_received att v u i"
  by (simp add: column_received_def split: option.splits)

lemma columns_transfer:
  assumes "length is = length cols" "distinct is"
    and "\<forall>(i, att, v) \<in> set (zip is cols). col_transferable T T' att (desc ! i) v"
    and "\<forall>i \<in> set is. tnulls tup i \<and> \<not> tchanged tup i"
  shows "\<exists>cs t. rmap (\<lambda>(att, v). column_out T data att v) cols = Inr cs \<and>
     list_all wire_col_ok cs \<and> columns_in T' desc is cs tup = Inr t \<and>
     tuple_received (zip is cols) t \<and>
     (\<forall>j. j \<notin> set is \<longrightarrow> tnulls t j = tnulls tup j \<and> tchanged t j = tchanged tup j \<and>
                           tvalues t j = tvalues tup j)"
  using assms
proof (induction "is" cols arbitrary: tup rule: list_induct2)
  case Nil
  then show ?case by (simp add: tuple_received_def)
next
  case (Cons i "is" col cols)
  obtain att v where col: "col = (att, v)" by (cases col)
  have tr: "col_transferable T T' att (desc ! i) v" and fresh: "tnulls tup i" "\<not> tchanged tup i"
    using Cons.prems col by auto
  obtain c where c: "column_out T data att v = Inr c" "wire_col_ok c"
    and "\<exists>t. column_in T' (desc ! i) i c tup = Inr t \<and> column_received att v t i \<and>
          (\<forall>j. j \<noteq> i \<longrightarrow> tnulls t j = tnulls tup j \<and> tchanged t j = tchanged tup j \<and>
                          tvalues t j = tvalues tup j)"
    using column_transfer [OF tr, of data thesis] fresh by metis
  then obtain t where t: "column_in T' (desc ! i) i c tup = Inr t" "column_received att v t i"
    "\<forall>j. j \<noteq> i \<longrightarrow> tnulls t j = tnulls tup j \<and> tchanged t j = tchanged tup j \<and>
                    tvalues t j = tvalues tup j"
    by blast
  have "\<forall>j \<in> set is. tnulls t j \<and> \<not> tchanged t j"
    using Cons.prems t(3) by (metis distinct.simps(2) list.set_intros(2))
  then obtain cs u where u: "rmap (\<lambda>(att, v). column_out T data att v) cols = Inr cs"
    "list_all wire_col_ok cs" "columns_in T' desc is cs t = Inr u"
    "tuple_received (zip is cols) u"
    "\<forall>j. j \<notin> set is \<longrightarrow> tnulls u j = tnulls t j \<and> tchanged u j = tchanged t j \<and>
                         tvalues u j = tvalues t j"
    using Cons.IH [of t] Cons.prems by auto
  have "column_received att v u i"
    using t(2) u(5) Cons.prems(1) by (subst column_received_cong [where u = t]) auto
  then show ?case
    using c t u col Cons.prems(1) by (auto simp: tuple_received_def)
qed

text \<open>Columns that are matched by name go to distinct local columns.\<close>

lemma att_match_distinct:
  assumes "att_match desc names amap" "distinct names"
  shows "distinct amap"
  unfolding distinct_conv_nth
proof (intro allI impI)
  fix i j assume ij: "i < length amap" "j < length amap" "i \<noteq> j"
  from assms(1) have "length names = length amap"
    and "\<forall>k < length amap. attname (desc ! (amap ! k)) = names ! k"
    by (auto simp: att_match_def list_all2_conv_all_nth)
  with ij assms(2) show "amap ! i \<noteq> amap ! j"
    by (metis nth_eq_iff_index_eq)
qed

lemma tuple_received_row:
  assumes "att_match (rd_att lrel) (map attname (filter (att_sent al) (rd_att rel))) amap"
    and "tuple_received (zip amap (sent_cols al rel tup)) t"
    and "\<forall>j. j \<notin> set amap \<longrightarrow> tnulls t j \<and> \<not> tchanged t j"
  shows "row_replicated al rel tup lrel t"
proof -
  let ?live = "filter (att_sent al) (rd_att rel)" and ?cols = "sent_cols al rel tup"
  have len: "length amap = length ?live" "length ?cols = length ?live"
    using assms(1) by (auto simp: att_match_def list_all2_conv_all_nth length_sent_cols)
  have m: "amap ! k < length (rd_att lrel)" "attname (rd_att lrel ! (amap ! k)) = attname (?live ! k)"
    if "k < length ?live" for k
    using assms(1) that by (auto simp: att_match_def list_all2_conv_all_nth)
  have fst_cols: "fst (?cols ! k) = ?live ! k" if "k < length ?live" for k
    using that len by (metis map_fst_sent_cols nth_map)
  have "\<exists>i < length (rd_att lrel). attname (rd_att lrel ! i) = attname att \<and> column_received att v t i"
    if "(att, v) \<in> set ?cols" for att v
  proof -
    from that obtain k where k: "k < length ?live" "?cols ! k = (att, v)"
      using len(2) by (metis in_set_conv_nth)
    then have "(amap ! k, att, v) \<in> set (zip amap ?cols)"
      using len by (metis in_set_zip fst_conv snd_conv)
    with assms(2) have "column_received att v t (amap ! k)"
      by (auto simp: tuple_received_def)
    with k m [of k] fst_cols [of k] show ?thesis by auto
  qed
  moreover have "tnulls t i \<and> \<not> tchanged t i"
    if "attname (rd_att lrel ! i) \<notin> attname ` set ?live" for i
  proof -
    have "i \<notin> set amap"
      using that m(2) len(1) by (metis image_eqI in_set_conv_nth)
    with assms(3) show ?thesis by blast
  qed
  ultimately show ?thesis unfolding row_replicated_def by blast
qed

text \<open>Opening a relation right after its description was stored binds it to the local table.\<close>

lemma rmap_att_ok:
  "set names \<subseteq> attname ` set desc \<Longrightarrow> \<exists>amap. rmap (tupdesc_get_att_by_name desc) names = Inr amap"
  by (induction names) (auto simp: tupdesc_get_att_by_name_def att_index_from_eq)

lemma open_after_update:
  assumes "heap_openrv db nsp rn = Inr lrel" "set names \<subseteq> attname ` set (rd_att lrel)"
  shows "\<exists>e cache'. pglogical_relation_open keyof db
       (pglogical_relation_cache_update keyof cache rid nsp rn names) rid = Inr (e, cache') \<and>
     ent_rel e = Some lrel \<and> reloid e = rd_id lrel \<and> natts e = length names \<and>
     att_match (rd_att lrel) names (attmap e)"
proof -
  obtain amap where amap: "rmap (tupdesc_get_att_by_name (rd_att lrel)) names = Inr amap"
    using rmap_att_ok [OF assms(2)] by blast
  then show ?thesis
    using assms(1) rmap_att_match [OF amap]
    by (simp add: pglogical_relation_open_def pglogical_relation_cache_update_def Let_def)
qed

context pq_codec
begin

lemmas read_simps = codec_simps getmsgbytes_append sendbytes_all sint_of_nat_small
  unat_of_nat_small32 unat_of_nat_small16

lemma read_write_begin:
  "pq_getmsgbyte F (pglogical_write_begin F txn @ r) = Inr (CHR ''B'', m) \<Longrightarrow>
   pglogical_read_begin F m = Inr ((final_lsn txn, commit_time txn, xid txn), r)"
  by (auto simp: pglogical_write_begin_def pglogical_read_begin_def codec_simps)

lemma read_write_commit:
  "pq_getmsgbyte F (pglogical_write_commit F txn lsn @ r) = Inr (CHR ''C'', m) \<Longrightarrow>
   pglogical_read_commit F m = Inr ((lsn, end_lsn txn, commit_time txn), r)"
  by (auto simp: pglogical_write_commit_def pglogical_read_commit_def codec_simps)

lemma read_write_origin:
  assumes "pq_getmsgbyte F (pglogical_write_origin F origin lsn @ r) = Inr (CHR ''O'', m)"
    and "nul_free origin" "length origin < 255"
  shows "pglogical_read_origin F m = Inr ((origin, lsn), r)"
  using assms getmsgbytes_append [of "int (length origin + 1)" "origin @ [NUL]" r]
  by (auto simp: pglogical_write_origin_def pglogical_read_origin_def Let_def codec_simps
      sendbytes_all)

lemma read_column_encode:
  assumes "wire_col_ok c"
  shows "read_column F T att i tup (encode_col F c @ r) =
         rbind (column_in T att i c tup) (\<lambda>t. Inr (t, r))"
proof (cases c)
  case (WText s)
  then show ?thesis
    using assms getmsgbytes_append [of "int (length s + 1)" "s @ [NUL]" r]
    by (simp add: read_column_def read_simps rbind_assoc Let_def flip: of_nat_Suc)
qed (use assms in \<open>auto simp: read_column_def read_simps rbind_assoc Let_def
      intro!: arg_cong [where f = "rbind _"] split: prod.splits\<close>)

lemma read_columns_encode:
  "list_all wire_col_ok cs \<Longrightarrow> length is = length cs \<Longrightarrow>
   read_columns F T desc is tup (concat (map (encode_col F) cs) @ r) =
   rbind (columns_in T desc is cs tup) (\<lambda>t. Inr (t, r))"
proof (induction cs arbitrary: "is" tup)
  case (Cons c cs)
  then obtain i is' where "is = i # is'" by (cases "is") auto
  with Cons show ?case
    by (simp add: read_column_encode rbind_assoc)
qed simp

lemma write_internal_refines:
  assumes "datum_fits T att (Some v)"
  shows "rbind (write_internal F T att v) (\<lambda>b. Inr (pq_sendbyte F CHR ''i'' @ b)) =
    rbind (if attbyval att then Inr (WInternal (store_att_byval T (attlen att) (datum_word v)))
           else if attlen att > 0 then Inr (WInternal (take (nat (attlen att)) (datum_bytes v)))
           else if attlen att = -1 then Inr (WInternal (datum_bytes v))
           else elog ''unsupported tuple type'') (\<lambda>c. Inr (encode_col F c))"
proof -
  have len: "int n = attlen att \<Longrightarrow> (of_int (attlen att) :: 32 word) = of_nat n" for n
    by (metis of_int_of_nat_eq)
  show ?thesis
    using assms
    by (cases "attbyval att"; cases "attlen att > 0")
      (simp_all add: write_internal_def datum_fits_def len min_absorb2)
qed

lemma write_column_refines:
  assumes "datum_fits T att dval"
  shows "write_column F T data att dval =
         rbind (column_out T data att dval) (\<lambda>c. Inr (encode_col F c))"
proof (cases dval)
  case (Some v)
  then show ?thesis
    using assms write_internal_refines [of T att v]
    by (simp add: write_column_def column_out_def write_binary_def write_text_def Let_def
        sendbytes_all split: option.splits)
qed (simp add: write_column_def column_out_def)

lemma write_columns_refines:
  "\<forall>(att, v) \<in> set (filter (\<lambda>(att, v). att_sent al att) cols). datum_fits T att v \<Longrightarrow>
   write_columns F T data al cols =
   rbind (rmap (\<lambda>(att, v). column_out T data att v) (filter (\<lambda>(att, v). att_sent al att) cols))
     (\<lambda>cs. Inr (concat (map (encode_col F) cs)))"
  by (induction cols) (auto simp: write_column_refines rbind_assoc)

text \<open>A tuple message is the encoding of its columns, and reading it applies them in order.\<close>

lemma write_tuple_refines:
  assumes "\<forall>(att, v) \<in> set (sent_cols al rel tup). datum_fits T att v"
  shows "pglogical_write_tuple F T data rel tup al =
    rbind (tuple_out T data al rel tup) (\<lambda>cs.
      Inr (pq_sendbyte F CHR ''T'' @ pq_sendint2 F (nliveatts al (rd_att rel)) @
           concat (map (encode_col F) cs)))"
  using write_columns_refines [OF assms [unfolded sent_cols_def], of data]
  by (simp add: pglogical_write_tuple_def tuple_out_def sent_cols_def rbind_assoc)

lemma read_tuple_encode:
  assumes "list_all wire_col_ok cs" "length cs = length (filter (att_sent al) desc)"
    and "length cs < 65536" "natts rel = length cs" "length (attmap rel) = length cs"
  shows "pglogical_read_tuple F T rel tup
      (pq_sendbyte F CHR ''T'' @ pq_sendint2 F (nliveatts al desc) @
       concat (map (encode_col F) cs) @ r) =
    rbind (columns_in T (rd_att (the (ent_rel rel))) (attmap rel) cs
             (tup\<lparr> tnulls := (\<lambda>_. True), tchanged := (\<lambda>_. False) \<rparr>)) (\<lambda>t. Inr (t, r))"
proof -
  have n: "unat (nliveatts al desc) = length cs"
    using assms by (simp add: nliveatts_def unat_of_nat_small16)
  show ?thesis
    using assms by (simp add: pglogical_read_tuple_def codec_simps n Let_def read_columns_encode)
qed

text \<open>The description of a relation comes back as its names and those of the columns sent.\<close>

lemma read_write_att:
  assumes "nul_free (attname att)" "length (attname att) < 65535"
  shows "read_attr_loop F (Suc n) (write_att F ids att @ r) =
    rbind (read_attr_loop F n r) (\<lambda>(names, inp). Inr (attname att # names, inp))"
  using assms getmsgbytes_append [of "int (length (attname att) + 1)" "attname att @ [NUL]" r]
  by (simp add: write_att_def Let_def codec_simps sendbytes_all unat_of_nat_small16
      uint_of_nat_small16 flip: of_nat_Suc)

lemma read_write_atts:
  "list_all (\<lambda>att. nul_free (attname att) \<and> length (attname att) < 65535) atts \<Longrightarrow>
   read_attr_loop F (length atts) (concat (map (write_att F ids) atts) @ r) =
     Inr (map attname atts, r)"
  by (induction atts) (simp_all del: read_attr_loop.simps(2) add: read_write_att)

lemma sent_cols_matched:
  assumes "att_match (rd_att lrel) (map attname (filter (att_sent al) (rd_att rel))) m"
    and "cols_transferable T T' al rel lrel tup"
  shows "\<forall>(i, att, v) \<in> set (zip m (sent_cols al rel tup)). col_transferable T T' att (rd_att lrel ! i) v"
proof (clarsimp simp: in_set_zip)
  let ?cols = "sent_cols al rel tup"
  fix k att v assume k: "k < length m" "k < length ?cols" "?cols ! k = (att, v)"
  then have "filter (att_sent al) (rd_att rel) ! k = att"
    using map_fst_sent_cols [of al rel tup] by (metis fst_conv nth_map)
  then have "attname (rd_att lrel ! (m ! k)) = attname att" "m ! k < length (rd_att lrel)"
    using assms(1) k by (auto simp: att_match_def list_all2_conv_all_nth length_sent_cols)
  then show "col_transferable T T' att (rd_att lrel ! (m ! k)) v"
    using assms(2) k nth_mem [of k ?cols] nth_mem [of "m ! k" "rd_att lrel"]
    by (auto simp: cols_transferable_def)
qed

lemma matched_cols_fit:
  assumes "\<forall>(i, att, v) \<in> set (zip m cols). col_transferable T T' att (latts ! i) v"
    and "length m = length cols"
  shows "\<forall>(att, v) \<in> set cols. datum_fits T att v"
proof clarify
  fix att v assume "(att, v) \<in> set cols"
  then obtain k where "k < length cols" "cols ! k = (att, v)"
    by (metis in_set_conv_nth)
  then have "(m ! k, att, v) \<in> set (zip m cols)"
    using assms(2) by (metis in_set_zip fst_conv snd_conv)
  with assms(1) show "datum_fits T att v"
    by (auto dest: col_transferable_fits)
qed

lemma tuple_transfer:
  assumes "rel_wire_ok nsp rel al" "cols_transferable T T' al rel lrel tup"
    and "att_match (rd_att lrel) (map attname (filter (att_sent al) (rd_att rel))) (attmap e)"
    and "ent_rel e = Some lrel" "natts e = length (filter (att_sent al) (rd_att rel))"
  shows "\<exists>b. pglogical_write_tuple F T data rel tup al = Inr b \<and>
    (\<forall>tup0 r. \<exists>t. pglogical_read_tuple F T' e tup0 (b @ r) = Inr (t, r) \<and>
                   row_replicated al rel tup lrel t)"
proof -
  let ?live = "filter (att_sent al) (rd_att rel)" and ?cols = "sent_cols al rel tup"
  let ?clear = "\<lambda>tup0. tup0\<lparr> tnulls := (\<lambda>_. True), tchanged := (\<lambda>_. False) \<rparr>"
  have len: "length (attmap e) = length ?cols" "length ?cols = length ?live"
    using assms(3) by (auto simp: att_match_def list_all2_conv_all_nth length_sent_cols)
  have dist: "distinct (attmap e)"
    using att_match_distinct [OF assms(3)] assms(1) by (simp add: rel_wire_ok_def)
  note tr = sent_cols_matched [OF assms(3,2)]
  note fits = matched_cols_fit [OF tr len(1)]
  have ct: "\<exists>cs t. rmap (\<lambda>(att, v). column_out T data att v) ?cols = Inr cs \<and>
     list_all wire_col_ok cs \<and>
     columns_in T' (rd_att lrel) (attmap e) cs (?clear tup0) = Inr t \<and>
     row_replicated al rel tup lrel t" for tup0
    using columns_transfer [OF len(1) dist tr, of "?clear tup0" data]
      tuple_received_row [OF assms(3), of tup] by fastforce
  then obtain cs where cs: "rmap (\<lambda>(att, v). column_out T data att v) ?cols = Inr cs"
    "list_all wire_col_ok cs" by blast
  have "length cs = length ?live" "length cs < 65536"
    using rmap_Inr_length [OF cs(1)] len assms(1) by (auto simp: rel_wire_ok_def)
  then have "\<exists>t. pglogical_read_tuple F T' e tup0 (pq_sendbyte F CHR ''T'' @
      pq_sendint2 F (nliveatts al (rd_att rel)) @ concat (map (encode_col F) cs) @ r) = Inr (t, r) \<and>
      row_replicated al rel tup lrel t" for tup0 r
    using read_tuple_encode [OF cs(2)] ct [of tup0] cs(1) assms(4,5) len by auto
  then show ?thesis
    using write_tuple_refines [OF fits, of data] cs(1) by (simp add: tuple_out_def)
qed

lemma read_write_rel:
  assumes "get_ns (relnamespace rel) = Some nsp" "rel_wire_ok nsp rel al"
  shows "\<exists>b m. pglogical_write_rel F get_ns rel ce al =
      Inr (b, map_option (\<lambda>e. e\<lparr>is_cached := True\<rparr>) ce) \<and>
    pq_getmsgbyte F (b @ r) = Inr (CHR ''R'', m) \<and>
    pglogical_read_rel F keyof cache m =
      Inr (rd_id rel, pglogical_relation_cache_update keyof cache (rd_id rel) nsp (relname rel)
                        (map attname (filter (att_sent al) (rd_att rel))), r)"
proof -
  let ?live = "filter (att_sent al) (rd_att rel)"
  have n: "unat (nliveatts al (rd_att rel)) = length ?live"
    using assms(2) by (simp add: nliveatts_def unat_of_nat_small16 rel_wire_ok_def)
  have "pglogical_read_attrs F (pglogical_write_attrs F rel al @ r) = Inr (map attname ?live, r)"
    using assms(2)
    by (simp add: pglogical_read_attrs_def pglogical_write_attrs_def codec_simps n read_write_atts
        rel_wire_ok_def)
  moreover have blk: "pq_getmsgbytes F (int (length s + 1)) (s @ NUL # x) = Inr (s @ NUL # x, x)"
    for s x
    using getmsgbytes_append [of "int (length s + 1)" "s @ [NUL]" x] by simp
  ultimately show ?thesis
    using assms
    by (simp add: pglogical_write_rel_def pglogical_read_rel_def Let_def codec_simps sendbytes_all
        rel_wire_ok_def)
qed

text \<open>
  The subscriber after it has read the description of a relation: opening it succeeds, and every
  tuple message for it can be written, read, and lands in the right columns.
\<close>

lemma described_relation:
  assumes "rel_wire_ok nsp rel al" "heap_openrv db nsp (relname rel) = Inr lrel"
    and "attname ` set (filter (att_sent al) (rd_att rel)) \<subseteq> attname ` set (rd_att lrel)"
  shows "\<exists>e cache'. pglogical_relation_open keyof db
       (pglogical_relation_cache_update keyof cache (rd_id rel) nsp (relname rel)
          (map attname (filter (att_sent al) (rd_att rel)))) (rd_id rel) = Inr (e, cache') \<and>
     reloid e = rd_id lrel \<and>
     (\<forall>tup. cols_transferable T T' al rel lrel tup \<longrightarrow>
        (\<exists>b. pglogical_write_tuple F T data rel tup al = Inr b \<and>
          (\<forall>tup0 r. \<exists>t. pglogical_read_tuple F T' e tup0 (b @ r) = Inr (t, r) \<and>
                         row_replicated al rel tup lrel t)))"
proof -
  let ?names = "map attname (filter (att_sent al) (rd_att rel))"
  obtain e cache' where e: "pglogical_relation_open keyof db
       (pglogical_relation_cache_update keyof cache (rd_id rel) nsp (relname rel) ?names)
       (rd_id rel) = Inr (e, cache')" "ent_rel e = Some lrel" "reloid e = rd_id lrel"
       "natts e = length ?names" "att_match (rd_att lrel) ?names (attmap e)"
    using open_after_update [OF assms(2), of ?names keyof cache "rd_id rel"] assms(3) by auto
  then show ?thesis
    using tuple_transfer [OF assms(1) _ e(5,2)] by auto
qed

lemma insert_transfer:
  assumes "rel_wire_ok nsp rel al" "heap_openrv db nsp (relname rel) = Inr lrel"
    and "attname ` set (filter (att_sent al) (rd_att rel)) \<subseteq> attname ` set (rd_att lrel)"
    and "cols_transferable T T' al rel lrel tup"
  shows "\<exists>b m e t cache'. pglogical_write_insert F T data rel tup al = Inr b \<and>
    pq_getmsgbyte F (b @ r) = Inr (CHR ''I'', m) \<and>
    pglogical_read_insert F T' keyof db
      (pglogical_relation_cache_update keyof cache (rd_id rel) nsp (relname rel)
         (map attname (filter (att_sent al) (rd_att rel)))) tup0 m = Inr (e, t, cache', r) \<and>
    reloid e = rd_id lrel \<and> row_replicated al rel tup lrel t"
proof -
  from described_relation [OF assms(1-3), of keyof cache T T' data] assms(4)
  obtain e cache' b t where
    "pglogical_relation_open keyof db
       (pglogical_relation_cache_update keyof cache (rd_id rel) nsp (relname rel)
          (map attname (filter (att_sent al) (rd_att rel)))) (rd_id rel) = Inr (e, cache')"
    "reloid e = rd_id lrel" "pglogical_write_tuple F T data rel tup al = Inr b"
    "pglogical_read_tuple F T' e tup0 (b @ r) = Inr (t, r)" "row_replicated al rel tup lrel t"
    by metis
  then show ?thesis
    by (simp add: pglogical_write_insert_def pglogical_read_insert_def codec_simps)
qed

lemma delete_transfer:
  assumes "rel_wire_ok nsp rel al" "heap_openrv db nsp (relname rel) = Inr lrel"
    and "attname ` set (filter (att_sent al) (rd_att rel)) \<subseteq> attname ` set (rd_att lrel)"
    and "cols_transferable T T' al rel lrel tup"
  shows "\<exists>b m e t cache'. pglogical_write_delete F T data rel tup al = Inr b \<and>
    pq_getmsgbyte F (b @ r) = Inr (CHR ''D'', m) \<and>
    pglogical_read_delete F T' keyof db
      (pglogical_relation_cache_update keyof cache (rd_id rel) nsp (relname rel)
         (map attname (filter (att_sent al) (rd_att rel)))) tup0 m = Inr (e, t, cache', r) \<and>
    reloid e = rd_id lrel \<and> row_replicated al rel tup lrel t"
proof -
  from described_relation [OF assms(1-3), of keyof cache T T' data] assms(4)
  obtain e cache' b t where
    "pglogical_relation_open keyof db
       (pglogical_relation_cache_update keyof cache (rd_id rel) nsp (relname rel)
          (map attname (filter (att_sent al) (rd_att rel)))) (rd_id rel) = Inr (e, cache')"
    "reloid e = rd_id lrel" "pglogical_write_tuple F T data rel tup al = Inr b"
    "pglogical_read_tuple F T' e tup0 (b @ r) = Inr (t, r)" "row_replicated al rel tup lrel t"
    by metis
  then show ?thesis
    by (simp add: pglogical_write_delete_def pglogical_read_delete_def codec_simps)
qed

lemma update_transfer:
  assumes "rel_wire_ok nsp rel al" "heap_openrv db nsp (relname rel) = Inr lrel"
    and "attname ` set (filter (att_sent al) (rd_att rel)) \<subseteq> attname ` set (rd_att lrel)"
    and "cols_transferable T T' al rel lrel new"
    and "\<forall>old. oldo = Some old \<longrightarrow> cols_transferable T T' al rel lrel old"
  shows "\<exists>b m e tn to cache'. pglogical_write_update F T data rel oldo new al = Inr b \<and>
    pq_getmsgbyte F (b @ r) = Inr (CHR ''U'', m) \<and>
    pglogical_read_update F T' keyof db
      (pglogical_relation_cache_update keyof cache (rd_id rel) nsp (relname rel)
         (map attname (filter (att_sent al) (rd_att rel)))) tup0 tup1 m =
      Inr (e, oldo \<noteq> None, to, tn, cache', r) \<and>
    reloid e = rd_id lrel \<and> row_replicated al rel new lrel tn \<and>
    (case oldo of None \<Rightarrow> to = tup0 | Some old \<Rightarrow> row_replicated al rel old lrel to)"
proof -
  from described_relation [OF assms(1-3), of keyof cache T T' data]
  obtain e cache' where open_ok:
    "pglogical_relation_open keyof db
       (pglogical_relation_cache_update keyof cache (rd_id rel) nsp (relname rel)
          (map attname (filter (att_sent al) (rd_att rel)))) (rd_id rel) = Inr (e, cache')"
    "reloid e = rd_id lrel"
    and tr: "\<And>tup. cols_transferable T T' al rel lrel tup \<Longrightarrow>
      \<exists>b. pglogical_write_tuple F T data rel tup al = Inr b \<and>
        (\<forall>tup0 r. \<exists>t. pglogical_read_tuple F T' e tup0 (b @ r) = Inr (t, r) \<and>
                       row_replicated al rel tup lrel t)"
    by auto
  obtain b where b: "pglogical_write_tuple F T data rel new al = Inr b"
    "\<forall>tup0 r. \<exists>t. pglogical_read_tuple F T' e tup0 (b @ r) = Inr (t, r) \<and>
                   row_replicated al rel new lrel t"
    using tr [OF assms(4)] by blast
  then obtain t where t: "pglogical_read_tuple F T' e tup1 (b @ r) = Inr (t, r)"
    "row_replicated al rel new lrel t" by blast
  show ?thesis
  proof (cases oldo)
    case None
    then show ?thesis
      using open_ok b t
      by (simp add: pglogical_write_update_def pglogical_read_update_def codec_simps)
  next
    case (Some old)
    then obtain c u where "pglogical_write_tuple F T data rel old al = Inr c"
      "pglogical_read_tuple F T' e tup0 (c @ pq_sendbyte F CHR ''N'' @ b @ r) =
         Inr (u, pq_sendbyte F CHR ''N'' @ b @ r)"
      "row_replicated al rel old lrel u"
      using tr assms(5) by metis
    then show ?thesis
      using open_ok b t Some
      by (simp add: pglogical_write_update_def pglogical_read_update_def codec_simps)
  qed
qed

end

section \<open>The example meets the hypotheses\<close>

lemma ex_att_simps [simp]:
  "attname (ex_att n k d) = n" "attnum (ex_att n k d) = k" "attisdropped (ex_att n k d) = d"
  "attlen (ex_att n k d) = -1" "attbyval (ex_att n k d) = False" "atttypid (ex_att n k d) = 25"
  by (simp_all add: ex_att_def)

lemma ex_live: "filter (att_sent None) (rd_att ex_prel) = [ex_att ''id'' 1 False, ex_att ''note'' 3 False]"
  by (simp add: ex_prel_def ex_relation_def att_sent_def)

lemma ex_rel_wire_ok: "rel_wire_ok ''public'' ex_prel None"
  unfolding rel_wire_ok_def ex_live by (simp add: ex_prel_def ex_relation_def)

lemma ex_names:
  "attname ` set (filter (att_sent None) (rd_att ex_prel)) \<subseteq> attname ` set (rd_att ex_lrel)"
  unfolding ex_live by (simp add: ex_lrel_def ex_relation_def)

lemma ex_sent:
  "sent_cols None ex_prel ex_row =
     [(ex_att ''id'' 1 False, Some (DatumPtr ''1'')),
      (ex_att ''note'' 3 False, Some (DatumOnDisk ''toast''))]"
  by (simp add: sent_cols_def ex_prel_def ex_relation_def ex_row_def att_sent_def)

lemma ex_transferable: "cols_transferable ex_typeio ex_typeio None ex_prel ex_lrel ex_row"
  by (simp add: cols_transferable_def ex_sent col_transferable_def io_inverse_def ex_typeio_def
      ex_lrel_def ex_relation_def VARATT_IS_EXTERNAL_ONDISK_def Let_def)

lemma ex_open: "heap_openrv ex_db ''public'' (relname ex_prel) = Inr ex_lrel"
  by (simp add: ex_db_def)

lemmas ex_facts = ex_rel_wire_ok ex_open ex_names ex_transferable

section \<open>Properties\<close>

text \<open>
  C1.  An insert is replicated end to end.  Let the subscriber read the RELATION message the
  provider writes for a table and then the INSERT message for a row of it.  Both messages are
  written and accepted without error and consumed to the end, the INSERT opens the local table of the
  same name, every column that was sent (live and in the column list) arrives in the local column of
  the same name with its value (null, unchanged-toast and plain values each as they should be), and
  every other local column is left null and unmarked.  The hypotheses are the behaviour of the
  message routines and of the type input/output functions, and that the local table has the columns.
\<close>

theorem insert_replicated:
  assumes "pq_codec F" "get_ns (relnamespace rel) = Some nsp" "rel_wire_ok nsp rel al"
    and "heap_openrv db nsp (relname rel) = Inr lrel"
    and "attname ` set (filter (att_sent al) (rd_att rel)) \<subseteq> attname ` set (rd_att lrel)"
    and "cols_transferable T T' al rel lrel tup"
  shows "\<exists>msg1 msg2 ce' m1 m2 cache1 cache2 e t.
    pglogical_write_rel F get_ns rel ce al = Inr (msg1, ce') \<and>
    pglogical_write_insert F T data rel tup al = Inr msg2 \<and>
    pq_getmsgbyte F msg1 = Inr (CHR ''R'', m1) \<and>
    pglogical_read_rel F keyof cache m1 = Inr (rd_id rel, cache1, []) \<and>
    pq_getmsgbyte F msg2 = Inr (CHR ''I'', m2) \<and>
    pglogical_read_insert F T' keyof db cache1 tup0 m2 = Inr (e, t, cache2, []) \<and>
    reloid e = rd_id lrel \<and> row_replicated al rel tup lrel t"
  using pq_codec.read_write_rel [where get_ns = get_ns and rel = rel and nsp = nsp and al = al and
      ce = ce and r = "[]" and keyof = keyof and cache = cache, OF assms(1-3)]
    pq_codec.insert_transfer [OF assms(1,3-6), of data "[]" keyof cache tup0]
  by auto

theorem insert_replicated_witness:
  "\<exists>msg1 msg2 ce' m1 m2 cache1 cache2 e t.
    pglogical_write_rel net_pqformat (\<lambda>_. Some ''public'') ex_prel None None = Inr (msg1, ce') \<and>
    pglogical_write_insert net_pqformat ex_typeio (palloc0_data ()) ex_prel ex_row None = Inr msg2 \<and>
    pq_getmsgbyte net_pqformat msg1 = Inr (CHR ''R'', m1) \<and>
    pglogical_read_rel net_pqformat id Map.empty m1 = Inr (rd_id ex_prel, cache1, []) \<and>
    pq_getmsgbyte net_pqformat msg2 = Inr (CHR ''I'', m2) \<and>
    pglogical_read_insert net_pqformat ex_typeio id ex_db cache1 ex_tup0 m2 =
      Inr (e, t, cache2, []) \<and>
    reloid e = rd_id ex_lrel \<and> row_replicated None ex_prel ex_row ex_lrel t"
  by (rule insert_replicated [OF net_codec _ ex_facts]) simp

text \<open>
  C2.  An update is replicated end to end: the UPDATE message for a described table is written and
  read without error, the reader reports an old tuple exactly when the writer sent one, and both
  tuples arrive column by column as an inserted row does (without an old tuple the caller's buffer for
  it is not touched).
\<close>

theorem update_replicated:
  assumes "pq_codec F" "get_ns (relnamespace rel) = Some nsp" "rel_wire_ok nsp rel al"
    and "heap_openrv db nsp (relname rel) = Inr lrel"
    and "attname ` set (filter (att_sent al) (rd_att rel)) \<subseteq> attname ` set (rd_att lrel)"
    and "cols_transferable T T' al rel lrel new"
    and "\<forall>old. oldo = Some old \<longrightarrow> cols_transferable T T' al rel lrel old"
  shows "\<exists>msg1 msg2 ce' m1 m2 cache1 cache2 e told tnew.
    pglogical_write_rel F get_ns rel ce al = Inr (msg1, ce') \<and>
    pglogical_write_update F T data rel oldo new al = Inr msg2 \<and>
    pq_getmsgbyte F msg1 = Inr (CHR ''R'', m1) \<and>
    pglogical_read_rel F keyof cache m1 = Inr (rd_id rel, cache1, []) \<and>
    pq_getmsgbyte F msg2 = Inr (CHR ''U'', m2) \<and>
    pglogical_read_update F T' keyof db cache1 tup0 tup1 m2 =
      Inr (e, oldo \<noteq> None, told, tnew, cache2, []) \<and>
    reloid e = rd_id lrel \<and> row_replicated al rel new lrel tnew \<and>
    (case oldo of None \<Rightarrow> told = tup0 | Some old \<Rightarrow> row_replicated al rel old lrel told)"
  using pq_codec.read_write_rel [where get_ns = get_ns and rel = rel and nsp = nsp and al = al and
      ce = ce and r = "[]" and keyof = keyof and cache = cache, OF assms(1-3)]
    pq_codec.update_transfer [OF assms(1,3-7), of data "[]" keyof cache tup0 tup1]
  by auto

theorem update_replicated_witness:
  "\<exists>msg1 msg2 ce' m1 m2 cache1 cache2 e told tnew.
    pglogical_write_rel net_pqformat (\<lambda>_. Some ''public'') ex_prel None None = Inr (msg1, ce') \<and>
    pglogical_write_update net_pqformat ex_typeio (palloc0_data ()) ex_prel (Some ex_row) ex_row
      None = Inr msg2 \<and>
    pq_getmsgbyte net_pqformat msg1 = Inr (CHR ''R'', m1) \<and>
    pglogical_read_rel net_pqformat id Map.empty m1 = Inr (rd_id ex_prel, cache1, []) \<and>
    pq_getmsgbyte net_pqformat msg2 = Inr (CHR ''U'', m2) \<and>
    pglogical_read_update net_pqformat ex_typeio id ex_db cache1 ex_tup0 ex_tup0 m2 =
      Inr (e, Some ex_row \<noteq> None, told, tnew, cache2, []) \<and>
    reloid e = rd_id ex_lrel \<and> row_replicated None ex_prel ex_row ex_lrel tnew \<and>
    (case Some ex_row of None \<Rightarrow> told = ex_tup0
     | Some old \<Rightarrow> row_replicated None ex_prel old ex_lrel told)"
  by (rule update_replicated [OF net_codec _ ex_facts]) (simp_all add: ex_transferable)

text \<open>
  C3.  A delete is replicated end to end: the DELETE message for a described table is written and read
  without error and the key tuple arrives column by column as an inserted row does.
\<close>

theorem delete_replicated:
  assumes "pq_codec F" "get_ns (relnamespace rel) = Some nsp" "rel_wire_ok nsp rel al"
    and "heap_openrv db nsp (relname rel) = Inr lrel"
    and "attname ` set (filter (att_sent al) (rd_att rel)) \<subseteq> attname ` set (rd_att lrel)"
    and "cols_transferable T T' al rel lrel tup"
  shows "\<exists>msg1 msg2 ce' m1 m2 cache1 cache2 e t.
    pglogical_write_rel F get_ns rel ce al = Inr (msg1, ce') \<and>
    pglogical_write_delete F T data rel tup al = Inr msg2 \<and>
    pq_getmsgbyte F msg1 = Inr (CHR ''R'', m1) \<and>
    pglogical_read_rel F keyof cache m1 = Inr (rd_id rel, cache1, []) \<and>
    pq_getmsgbyte F msg2 = Inr (CHR ''D'', m2) \<and>
    pglogical_read_delete F T' keyof db cache1 tup0 m2 = Inr (e, t, cache2, []) \<and>
    reloid e = rd_id lrel \<and> row_replicated al rel tup lrel t"
  using pq_codec.read_write_rel [where get_ns = get_ns and rel = rel and nsp = nsp and al = al and
      ce = ce and r = "[]" and keyof = keyof and cache = cache, OF assms(1-3)]
    pq_codec.delete_transfer [OF assms(1,3-6), of data "[]" keyof cache tup0]
  by auto

theorem delete_replicated_witness:
  "\<exists>msg1 msg2 ce' m1 m2 cache1 cache2 e t.
    pglogical_write_rel net_pqformat (\<lambda>_. Some ''public'') ex_prel None None = Inr (msg1, ce') \<and>
    pglogical_write_delete net_pqformat ex_typeio (palloc0_data ()) ex_prel ex_row None = Inr msg2 \<and>
    pq_getmsgbyte net_pqformat msg1 = Inr (CHR ''R'', m1) \<and>
    pglogical_read_rel net_pqformat id Map.empty m1 = Inr (rd_id ex_prel, cache1, []) \<and>
    pq_getmsgbyte net_pqformat msg2 = Inr (CHR ''D'', m2) \<and>
    pglogical_read_delete net_pqformat ex_typeio id ex_db cache1 ex_tup0 m2 =
      Inr (e, t, cache2, []) \<and>
    reloid e = rd_id ex_lrel \<and> row_replicated None ex_prel ex_row ex_lrel t"
  by (rule delete_replicated [OF net_codec _ ex_facts]) simp

text \<open>
  C4.  The transaction messages round-trip: BEGIN, COMMIT and ORIGIN as the provider writes them are
  read back field by field and consumed to the end, for every origin name that the length byte can
  describe with its terminator.
\<close>

theorem transaction_messages_roundtrip:
  assumes "pq_codec F" "nul_free origin" "length origin < 255"
  shows "\<exists>b c m. pq_getmsgbyte F (pglogical_write_begin F txn @ r) = Inr (CHR ''B'', b) \<and>
    pglogical_read_begin F b = Inr ((final_lsn txn, commit_time txn, xid txn), r) \<and>
    pq_getmsgbyte F (pglogical_write_commit F txn commit_lsn @ r) = Inr (CHR ''C'', c) \<and>
    pglogical_read_commit F c = Inr ((commit_lsn, end_lsn txn, commit_time txn), r) \<and>
    pq_getmsgbyte F (pglogical_write_origin F origin lsn @ r) = Inr (CHR ''O'', m) \<and>
    pglogical_read_origin F m = Inr ((origin, lsn), r)"
  using pq_codec.read_write_begin [OF assms(1), of txn r]
    pq_codec.read_write_commit [OF assms(1), of txn commit_lsn r]
    pq_codec.read_write_origin [OF assms(1) _ assms(2,3), of lsn r]
    pq_codec.getmsgbyte_send [OF assms(1)]
  by (simp add: pglogical_write_begin_def pglogical_write_commit_def pglogical_write_origin_def Let_def)

theorem transaction_messages_roundtrip_witness:
  "\<exists>b c m. pq_getmsgbyte net_pqformat (pglogical_write_begin net_pqformat ex_txn @ ''x'') =
      Inr (CHR ''B'', b) \<and>
    pglogical_read_begin net_pqformat b =
      Inr ((final_lsn ex_txn, commit_time ex_txn, xid ex_txn), ''x'') \<and>
    pq_getmsgbyte net_pqformat (pglogical_write_commit net_pqformat ex_txn 9 @ ''x'') =
      Inr (CHR ''C'', c) \<and>
    pglogical_read_commit net_pqformat c =
      Inr ((9, end_lsn ex_txn, commit_time ex_txn), ''x'') \<and>
    pq_getmsgbyte net_pqformat (pglogical_write_origin net_pqformat ''pgl_node'' 7 @ ''x'') =
      Inr (CHR ''O'', m) \<and>
    pglogical_read_origin net_pqformat m = Inr ((''pgl_node'', 7), ''x'')"
  by (rule transaction_messages_roundtrip [OF net_codec]) simp_all

end
