(* ===== verification/Pgl_Catalog.thy ===== *)
theory Pgl_Catalog
  imports Pgl_Prelude
begin

text \<open>
  The catalog tables of the extension.  A table is the list of its visible rows in scan order.
  \<open>simple_heap_insert\<close> followed by \<open>CatalogUpdateIndexes\<close> adds a row and raises when a unique index
  declared for the table in \<open>src/pglogical--1.3.0.sql\<close> already has its key; it does not enforce foreign
  keys.  The locale \<open>unique_table\<close> states what a unique index over a key gives to the code that looks
  rows up by that key; it is interpreted for each index of each catalog.
\<close>

section \<open>Operations on tables\<close>

text \<open>\<open>conflicts x r\<close>: the rows share the key of a unique index.\<close>

definition catalog_insert :: "('r \<Rightarrow> 'r \<Rightarrow> bool) \<Rightarrow> 'r \<Rightarrow> 'r list \<Rightarrow> 'r list result" where
  "catalog_insert conflicts r t =
     (if list_ex (\<lambda>x. conflicts x r) t
      then ereport ERRCODE_UNIQUE_VIOLATION ''duplicate key value violates unique constraint %s''
      else Inr (t @ [r]))"

fun delete_first :: "('r \<Rightarrow> bool) \<Rightarrow> 'r list \<Rightarrow> 'r list" where
  "delete_first P [] = []"
| "delete_first P (x # xs) = (if P x then xs else x # delete_first P xs)"

definition delete_all :: "('r \<Rightarrow> bool) \<Rightarrow> 'r list \<Rightarrow> 'r list" where
  "delete_all P t = filter (\<lambda>x. \<not> P x) t"

fun update_first :: "('r \<Rightarrow> bool) \<Rightarrow> ('r \<Rightarrow> 'r) \<Rightarrow> 'r list \<Rightarrow> 'r list" where
  "update_first P f [] = []"
| "update_first P f (x # xs) = (if P x then f x # xs else x # update_first P f xs)"

text \<open>No two rows share a key.\<close>

definition rows_ok :: "('r \<Rightarrow> 'r \<Rightarrow> bool) \<Rightarrow> 'r list \<Rightarrow> bool" where
  "rows_ok conflicts t = sorted_wrt (\<lambda>x y. \<not> conflicts x y) t"

section \<open>Names\<close>

text \<open>
  A \<open>NameData\<close> holds \<open>NAMEDATALEN\<close> bytes with the terminator; \<open>nameeq\<close> compares that many bytes of two
  C strings.
\<close>

abbreviation NAMEDATALEN :: nat where
  "NAMEDATALEN \<equiv> 64"

definition namestrcpy :: "string \<Rightarrow> string" where
  "namestrcpy s = take (NAMEDATALEN - 1) s"

definition nameeq :: "string \<Rightarrow> string \<Rightarrow> bool" where
  "nameeq a b = (take NAMEDATALEN (a @ [NUL]) = take NAMEDATALEN (b @ [NUL]))"

section \<open>Lemmas\<close>

lemma namestrcpy_short [simp]: "length s < NAMEDATALEN \<Longrightarrow> namestrcpy s = s"
  by (simp add: namestrcpy_def)

lemma length_namestrcpy [simp]: "length (namestrcpy s) < NAMEDATALEN"
  by (simp add: namestrcpy_def)

lemma nameeq_refl [simp]: "nameeq s s"
  by (simp add: nameeq_def)

lemma nameeq_short:
  "length a < NAMEDATALEN \<Longrightarrow> length b < NAMEDATALEN \<Longrightarrow> nameeq a b \<longleftrightarrow> a = b"
  by (simp add: nameeq_def)

lemma find_Some_in: "List.find P t = Some r \<Longrightarrow> r \<in> set t \<and> P r"
  by (auto simp: find_Some_iff)

lemma find_append:
  "List.find P (xs @ ys) = (case List.find P xs of None \<Rightarrow> List.find P ys | Some r \<Rightarrow> Some r)"
  by (induction xs) auto

lemma find_None_all: "List.find P t = None \<longleftrightarrow> (\<forall>x \<in> set t. \<not> P x)"
  by (auto simp: find_None_iff)

lemma set_delete_first_subset: "set (delete_first P t) \<subseteq> set t"
  by (induction t) auto

lemma delete_all_simps [simp, catalog_simps]:
  "set (delete_all P t) = {x \<in> set t. \<not> P x}"
  by (auto simp: delete_all_def)

lemma sorted_wrt_delete_first: "sorted_wrt Q t \<Longrightarrow> sorted_wrt Q (delete_first P t)"
  using set_delete_first_subset by (induction t) fastforce+

lemma sorted_wrt_update_first:
  assumes "sorted_wrt Q t" "\<And>x y. Q (f x) y = Q x y" "\<And>x y. Q y (f x) = Q y x"
  shows "sorted_wrt Q (update_first P f t)"
proof -
  have "(\<forall>y \<in> set (update_first P f xs). Q x y) \<longleftrightarrow> (\<forall>y \<in> set xs. Q x y)" for x xs
    using assms(3) by (induction xs) auto
  then show ?thesis
    using assms(1,2) by (induction t) auto
qed

lemma rows_ok_Nil [simp, intro]: "rows_ok c []"
  by (simp add: rows_ok_def)

lemma rows_ok_insert:
  "rows_ok c t \<Longrightarrow> catalog_insert c r t = Inr t' \<Longrightarrow> rows_ok c t' \<and> t' = t @ [r]"
  by (auto simp: catalog_insert_def rows_ok_def sorted_wrt_append list_ex_iff split: if_splits)

lemma rows_ok_delete_first [intro]: "rows_ok c t \<Longrightarrow> rows_ok c (delete_first P t)"
  unfolding rows_ok_def by (rule sorted_wrt_delete_first)

lemma rows_ok_delete_all [intro]: "rows_ok c t \<Longrightarrow> rows_ok c (delete_all P t)"
  unfolding rows_ok_def delete_all_def by (rule sorted_wrt_filter)

lemma rows_ok_update_first [intro]:
  "rows_ok c t \<Longrightarrow> (\<And>x y. c (f x) y = c x y) \<Longrightarrow> (\<And>x y. c y (f x) = c y x) \<Longrightarrow>
   rows_ok c (update_first P f t)"
  unfolding rows_ok_def by (rule sorted_wrt_update_first) simp_all

lemma find_update_first:
  assumes "\<And>x. P x \<Longrightarrow> P (f x)"
  shows "List.find P (update_first P f t) = map_option f (List.find P t)"
  using assms by (induction t) auto

lemma find_update_first_other:
  assumes "\<And>x. P x \<Longrightarrow> \<not> Q x \<and> \<not> Q (f x)"
  shows "List.find Q (update_first P f t) = List.find Q t"
  using assms by (induction t) auto

lemma in_update_first:
  "x \<in> set (update_first Q f t) \<Longrightarrow> \<exists>y \<in> set t. x = y \<or> x = f y \<and> Q y"
  by (induction t) (auto split: if_splits)

lemma update_first_none: "List.find Q t = None \<Longrightarrow> update_first Q f t = t"
  by (induction t) (auto split: if_splits)

lemma update_first_image:
  "(\<And>x. g (f x) = g x) \<Longrightarrow> g ` set (update_first Q f t) = g ` set t"
  by (induction t) auto

section \<open>What a unique index gives\<close>

locale unique_table =
  fixes conflicts :: "'r \<Rightarrow> 'r \<Rightarrow> bool" and key :: "'r \<Rightarrow> 'k"
  assumes same_key: "key x = key y \<Longrightarrow> conflicts x y"
begin

lemma key_inj:
  assumes "rows_ok conflicts t" "x \<in> set t" "y \<in> set t" "key x = key y"
  shows "x = y"
proof -
  obtain i j where ij: "i < length t" "j < length t" "t ! i = x" "t ! j = y"
    using assms(2,3) by (metis in_set_conv_nth)
  show ?thesis
  proof (rule linorder_cases [of i j])
    assume "i < j"
    then show ?thesis
      using ij assms(1,4) same_key unfolding rows_ok_def by (metis sorted_wrt_nth_less)
  next
    assume "j < i"
    then show ?thesis
      using ij assms(1,4) same_key unfolding rows_ok_def by (metis sorted_wrt_nth_less)
  qed (use ij in simp)
qed

lemma lookup_in:
  assumes "rows_ok conflicts t" "r \<in> set t"
  shows "List.find (\<lambda>x. key x = key r) t = Some r"
proof (cases "List.find (\<lambda>x. key x = key r) t")
  case None
  then show ?thesis using assms(2) by (auto simp: find_None_all)
next
  case (Some x)
  then show ?thesis
    using key_inj [OF assms(1)] assms(2) by (auto dest!: find_Some_in)
qed

lemma lookup_insert:
  assumes "rows_ok conflicts t" "catalog_insert conflicts r t = Inr t'"
  shows "List.find (\<lambda>x. key x = key r) t' = Some r"
  using rows_ok_insert [OF assms] by (auto intro: lookup_in)

lemma lookup_insert_other:
  assumes "catalog_insert conflicts r t = Inr t'" "k \<noteq> key r"
  shows "List.find (\<lambda>x. key x = k) t' = List.find (\<lambda>x. key x = k) t"
  using assms by (auto simp: catalog_insert_def find_append split: if_splits option.splits)

lemma insert_fails:
  "x \<in> set t \<Longrightarrow> key x = key r \<Longrightarrow> \<not> is_ok (catalog_insert conflicts r t)"
  using same_key by (auto simp: catalog_insert_def list_ex_iff)

lemma lookup_delete:
  assumes "rows_ok conflicts t"
  shows "List.find (\<lambda>x. key x = k) (delete_first (\<lambda>x. key x = k) t) = None"
  using assms
proof (induction t)
  case (Cons a t)
  then have "key x \<noteq> key a" if "x \<in> set t" for x
    using that same_key by (force simp: rows_ok_def)
  with Cons show ?case
    by (auto simp: rows_ok_def find_None_all)
qed simp

lemma lookup_delete_other:
  "k' \<noteq> k \<Longrightarrow> List.find (\<lambda>x. key x = k') (delete_first (\<lambda>x. key x = k) t) =
             List.find (\<lambda>x. key x = k') t"
  by (induction t) auto

lemma delete_first_filter:
  assumes "rows_ok conflicts t"
  shows "delete_first (\<lambda>x. key x = k) t = filter (\<lambda>x. key x \<noteq> k) t"
  using assms
proof (induction t)
  case (Cons a t)
  then have "key x \<noteq> key a" if "x \<in> set t" for x
    using that same_key by (force simp: rows_ok_def)
  with Cons show ?case
    by (auto simp: rows_ok_def intro!: filter_True [symmetric])
qed simp

end

end
