(* ===== verification/Pgl_Queue.thy ===== *)
theory Pgl_Queue
  imports Pgl_Types Pgl_Catalog "HOL-Library.Multiset"
begin

text \<open>
  The queue table through which the provider sends messages along with the data, and the truncate
  trigger that feeds it: \<open>src/pglogical_queue.c\<close>.  The queue is the list of its rows.  The clock, the role
  names, the JSON input functions and \<open>CreateTrigger\<close> are PostgreSQL's and parameters.
\<close>

section \<open>Messages\<close>

abbreviation QUEUE_COMMAND_TYPE_SQL :: char where
  "QUEUE_COMMAND_TYPE_SQL \<equiv> CHR ''Q''"

abbreviation QUEUE_COMMAND_TYPE_TRUNCATE :: char where
  "QUEUE_COMMAND_TYPE_TRUNCATE \<equiv> CHR ''T''"

abbreviation QUEUE_COMMAND_TYPE_TABLESYNC :: char where
  "QUEUE_COMMAND_TYPE_TABLESYNC \<equiv> CHR ''A''"

abbreviation QUEUE_COMMAND_TYPE_SEQUENCE :: char where
  "QUEUE_COMMAND_TYPE_SEQUENCE \<equiv> CHR ''S''"

record QueueTuple =
  qt_queued_at :: timestamptz
  qt_role :: string
  qt_replication_sets :: "string list option"
  qt_message_type :: char
  qt_message :: string

text \<open>\<open>List *\<close>: the empty list is the NULL pointer.\<close>

record 'j QueuedMessage =
  queued_at :: timestamptz
  qm_role :: string
  qm_replication_sets :: "string list"
  qm_message_type :: char
  qm_message :: 'j

record 'j queue_env =
  GetCurrentTimestamp :: timestamptz
  GetUserNameFromId :: "oid \<Rightarrow> string option"
  json_in :: "string \<Rightarrow> string result"
  jsonb_in :: "string \<Rightarrow> 'j result"

definition queue_message ::
  "'j queue_env \<Rightarrow> string list \<Rightarrow> oid \<Rightarrow> char \<Rightarrow> string \<Rightarrow> QueueTuple list \<Rightarrow> QueueTuple list result" where
  "queue_message Q replication_sets roleoid message_type message queue =
     (case GetUserNameFromId Q roleoid of
        None \<Rightarrow> ereport ERRCODE_UNDEFINED_OBJECT ''invalid role OID: %u''
      | Some role \<Rightarrow>
          rbind (json_in Q message) (\<lambda>json.
          Inr (queue @ [\<lparr> qt_queued_at = GetCurrentTimestamp Q, qt_role = namestrcpy role,
                          qt_replication_sets =
                            (if replication_sets \<noteq> [] then Some replication_sets else None),
                          qt_message_type = message_type, qt_message = json \<rparr>])))"

definition queued_message_from_tuple :: "'j queue_env \<Rightarrow> QueueTuple \<Rightarrow> 'j QueuedMessage result" where
  "queued_message_from_tuple Q tup =
     rbind (jsonb_in Q (qt_message tup)) (\<lambda>j.
     Inr \<lparr> queued_at = qt_queued_at tup, qm_role = qt_role tup,
           qm_replication_sets = (case qt_replication_sets tup of None \<Rightarrow> [] | Some l \<Rightarrow> l),
           qm_message_type = qt_message_type tup, qm_message = j \<rparr>)"

section \<open>The truncate trigger\<close>

text \<open>
  The loop over the triggers of the table: \<open>n\<close> iterations are left and \<open>ts\<close> are the triggers from the
  pointer on.  A trigger that is not for TRUNCATE is skipped by \<open>continue\<close>, which leaves the pointer
  where it is.
\<close>

fun trigger_scan :: "nat \<Rightarrow> trigger list \<Rightarrow> oid \<Rightarrow> bool" where
  "trigger_scan 0 ts funcoid = False"
| "trigger_scan (Suc n) [] funcoid = False"
| "trigger_scan (Suc n) (t # ts) funcoid =
     (if \<not> TRIGGER_FOR_TRUNCATE t then trigger_scan n (t # ts) funcoid
      else if tgfoid t = funcoid then True
      else trigger_scan n ts funcoid)"

text \<open>
  \<open>CreateTrigger\<close> puts the trigger among those of the table, which are kept in the order of
  their names; an internal trigger gets a name of its own, so it never clashes.
\<close>

definition truncate_trigger :: "oid \<Rightarrow> trigger" where
  "truncate_trigger funcoid = \<lparr> tgenabled = CHR ''O'', tgtype = 32, tgfoid = funcoid \<rparr>"

definition create_truncate_trigger ::
  "(trigger \<Rightarrow> trigger list \<Rightarrow> trigger list) \<Rightarrow> oid \<Rightarrow> relation \<Rightarrow> relation" where
  "create_truncate_trigger CreateTrigger funcoid rel =
     (if rd_trigs rel \<noteq> [] \<and> trigger_scan (length (rd_trigs rel)) (rd_trigs rel) funcoid then rel
      else rel\<lparr> rd_trigs := CreateTrigger (truncate_trigger funcoid) (rd_trigs rel) \<rparr>)"

text \<open>An example: a table with a foreign-key trigger (for each row, after insert) and the truncate trigger.\<close>

definition ex_fk_table :: relation where
  "ex_fk_table = \<lparr> rd_id = 16400, relnamespace = 2200, relname = ''child'', relkind = RELKIND_RELATION,
     rd_att = [], idkey_attrs = {}, replidindex = 0,
     rd_trigs = [\<lparr> tgenabled = CHR ''O'', tgtype = 5, tgfoid = 1644 \<rparr>, truncate_trigger 99],
     needs_wal = True \<rparr>"

section \<open>Lemmas\<close>

lemma truncate_trigger_for_truncate [simp]:
  "TRIGGER_FOR_TRUNCATE (truncate_trigger f)" "tgfoid (truncate_trigger f) = f"
  by (simp_all add: TRIGGER_FOR_TRUNCATE_def truncate_trigger_def bit_numeral_rec)

text \<open>The loop sees no further than the first trigger that is not for TRUNCATE.\<close>

lemma trigger_scan_iff:
  "n \<le> length ts \<Longrightarrow> trigger_scan n ts f \<longleftrightarrow>
   (\<exists>t \<in> set (takeWhile TRIGGER_FOR_TRUNCATE (take n ts)). tgfoid t = f)"
proof (induction n ts f rule: trigger_scan.induct)
  case (3 n t ts f)
  show ?case
  proof (cases "TRIGGER_FOR_TRUNCATE t")
    case False
    have "\<not> trigger_scan m (t # us) f" for m us
      using False by (induction m) auto
    then show ?thesis using False by auto
  next
    case True
    then show ?thesis using 3 by auto
  qed
qed auto

lemma create_truncate_trigger_fields [simp]:
  "rd_id (create_truncate_trigger c f rel) = rd_id rel"
  "replidindex (create_truncate_trigger c f rel) = replidindex rel"
  "relkind (create_truncate_trigger c f rel) = relkind rel"
  "rd_att (create_truncate_trigger c f rel) = rd_att rel"
  "needs_wal (create_truncate_trigger c f rel) = needs_wal rel"
  by (simp_all add: create_truncate_trigger_def)

section \<open>Properties\<close>

text \<open>
  The truncate trigger is added again whenever another kind of trigger sorts first.  After
  \<open>create_truncate_trigger\<close> the table always has the trigger, provided that \<open>CreateTrigger\<close> adds what it is
  given.  When the first trigger of the table is for TRUNCATE and calls the queue function nothing changes;
  but when the first trigger is not for TRUNCATE the existing trigger is not seen and one more is
  created, however many the table already has.
\<close>

theorem truncate_trigger_created:
  assumes "\<forall>t ts. mset (CreateTrigger t ts) = add_mset t (mset ts)"
  shows "(\<exists>t \<in> set (rd_trigs (create_truncate_trigger CreateTrigger f rel)).
            TRIGGER_FOR_TRUNCATE t \<and> tgfoid t = f) \<and>
    (rd_trigs rel \<noteq> [] \<and> TRIGGER_FOR_TRUNCATE (hd (rd_trigs rel)) \<and> tgfoid (hd (rd_trigs rel)) = f
       \<longrightarrow> create_truncate_trigger CreateTrigger f rel = rel) \<and>
    (rd_trigs rel \<noteq> [] \<and> \<not> TRIGGER_FOR_TRUNCATE (hd (rd_trigs rel))
       \<longrightarrow> count (mset (rd_trigs (create_truncate_trigger CreateTrigger f rel))) (truncate_trigger f) =
           Suc (count (mset (rd_trigs rel)) (truncate_trigger f)))"
proof -
  let ?ts = "rd_trigs rel"
  have add: "t \<in> set (CreateTrigger t ts)" for t ts
    using assms by (metis set_mset_mset union_single_eq_member)
  have scan: "trigger_scan (length ?ts) ?ts f \<longleftrightarrow>
      (\<exists>t \<in> set (takeWhile TRIGGER_FOR_TRUNCATE ?ts). tgfoid t = f)"
    using trigger_scan_iff [of "length ?ts"] by simp
  have "\<exists>t \<in> set (rd_trigs (create_truncate_trigger CreateTrigger f rel)).
            TRIGGER_FOR_TRUNCATE t \<and> tgfoid t = f"
    using add [of "truncate_trigger f" ?ts] scan
    by (auto simp: create_truncate_trigger_def dest: set_takeWhileD intro: bexI [of _ "truncate_trigger f"])
  moreover have "create_truncate_trigger CreateTrigger f rel = rel"
    if "?ts \<noteq> []" "TRIGGER_FOR_TRUNCATE (hd ?ts)" "tgfoid (hd ?ts) = f"
    using that scan by (cases ?ts) (auto simp: create_truncate_trigger_def)
  moreover have "rd_trigs (create_truncate_trigger CreateTrigger f rel) =
      CreateTrigger (truncate_trigger f) ?ts" if "?ts \<noteq> []" "\<not> TRIGGER_FOR_TRUNCATE (hd ?ts)"
    using that scan by (cases ?ts) (auto simp: create_truncate_trigger_def)
  ultimately show ?thesis
    using assms by simp
qed

theorem truncate_trigger_created_witness:
  "length (rd_trigs ex_fk_table) = 2 \<and> truncate_trigger 99 \<in> set (rd_trigs ex_fk_table) \<and>
   count (mset (rd_trigs (create_truncate_trigger (\<lambda>t ts. ts @ [t]) 99 ex_fk_table)))
     (truncate_trigger 99) = 2"
proof -
  have "\<not> TRIGGER_FOR_TRUNCATE (hd (rd_trigs ex_fk_table))"
    by (simp add: ex_fk_table_def TRIGGER_FOR_TRUNCATE_def bit_numeral_rec)
  moreover have "count (mset (rd_trigs ex_fk_table)) (truncate_trigger 99) = 1"
    by (simp add: ex_fk_table_def truncate_trigger_def)
  ultimately show ?thesis
    using truncate_trigger_created [of "\<lambda>t ts. ts @ [t]" 99 ex_fk_table]
    by (simp add: ex_fk_table_def)
qed

end
