(* ===== verification/Pgl_Node.thy ===== *)
theory Pgl_Node
  imports Pgl_Catalog
begin

text \<open>
  Nodes, node interfaces, the local node and subscriptions: \<open>src/pglogical_node.c\<close>.  The catalogs are
  tables of \<open>Pgl_Catalog\<close>; \<open>sub_changed\<close> records the calls of \<open>pglogical_subscription_changed\<close>, which
  notify the workers when the transaction ends.  PostgreSQL's \<open>hash_any\<close> is a parameter.
\<close>

section \<open>Data\<close>

record PGLogicalNode =
  node_id :: oid
  node_name :: string

record PGlogicalInterface =
  if_id :: oid
  if_name :: string
  if_nodeid :: oid
  if_dsn :: string

record PGLogicalLocalNode =
  ln_node :: PGLogicalNode
  ln_node_if :: PGlogicalInterface

record interval =
  itime :: int
  iday :: int
  imonth :: int

record PGLogicalSubscription =
  sub_id :: oid
  sub_name :: string
  sub_origin :: PGLogicalNode
  sub_target :: PGLogicalNode
  sub_origin_if :: PGlogicalInterface
  sub_target_if :: PGlogicalInterface
  sub_enabled :: bool
  sub_apply_delay :: "interval option"
  sub_slot_name :: string
  sub_replication_sets :: "string list"
  sub_forward_origins :: "string list"

text \<open>Rows of the catalogs; a nullable column is an option.\<close>

record LocalNodeTuple =
  ln_id :: oid
  ln_if :: oid

record SubscriptionTuple =
  st_id :: oid
  st_name :: string
  st_origin :: oid
  st_target :: oid
  st_origin_if :: oid
  st_target_if :: oid
  st_enabled :: bool
  st_slot_name :: string
  st_replication_sets :: "string list option"
  st_forward_origins :: "string list option"
  st_apply_delay :: "interval option"

record node_catalog =
  cat_node :: "PGLogicalNode list"
  cat_local_node :: "LocalNodeTuple list"
  cat_node_interface :: "PGlogicalInterface list"
  cat_subscription :: "SubscriptionTuple list"
  sub_changed :: "oid list"

text \<open>The unique indexes: primary keys, and the names.\<close>

definition node_conflicts :: "PGLogicalNode \<Rightarrow> PGLogicalNode \<Rightarrow> bool" where
  "node_conflicts x y \<longleftrightarrow> node_id x = node_id y \<or> node_name x = node_name y"

definition local_node_conflicts :: "LocalNodeTuple \<Rightarrow> LocalNodeTuple \<Rightarrow> bool" where
  "local_node_conflicts x y \<longleftrightarrow> ln_id x = ln_id y"

definition interface_conflicts :: "PGlogicalInterface \<Rightarrow> PGlogicalInterface \<Rightarrow> bool" where
  "interface_conflicts x y \<longleftrightarrow>
     if_id x = if_id y \<or> (if_nodeid x = if_nodeid y \<and> if_name x = if_name y)"

definition subscription_conflicts :: "SubscriptionTuple \<Rightarrow> SubscriptionTuple \<Rightarrow> bool" where
  "subscription_conflicts x y \<longleftrightarrow> st_id x = st_id y \<or> st_name x = st_name y"

definition pglogical_subscription_changed :: "oid \<Rightarrow> node_catalog \<Rightarrow> node_catalog" where
  "pglogical_subscription_changed subid cat = cat\<lparr> sub_changed := sub_changed cat @ [subid] \<rparr>"

section \<open>Names of subscriptions\<close>

definition valid_name_char :: "char \<Rightarrow> bool" where
  "valid_name_char c \<longleftrightarrow>
     (byte_val CHR ''a'' \<le> byte_val c \<and> byte_val c \<le> byte_val CHR ''z'') \<or>
     (byte_val CHR ''0'' \<le> byte_val c \<and> byte_val c \<le> byte_val CHR ''9'') \<or> c = CHR ''_''"

definition validate_subscription_name :: "string \<Rightarrow> unit result" where
  "validate_subscription_name name =
     (if length name = 0
      then ereport ERRCODE_INVALID_NAME ''subscription  name %s is too short''
      else if length name \<ge> NAMEDATALEN
      then ereport ERRCODE_NAME_TOO_LONG ''subscription name %s is too long''
      else if list_all valid_name_char name then Inr ()
      else ereport ERRCODE_INVALID_NAME ''subscription name %s contains invalid character'')"

section \<open>Nodes\<close>

definition get_node :: "oid \<Rightarrow> node_catalog \<Rightarrow> PGLogicalNode result" where
  "get_node nodeid cat =
     (case List.find (\<lambda>r. node_id r = nodeid) (cat_node cat) of
        None \<Rightarrow> elog ''node %u not found'' | Some r \<Rightarrow> Inr r)"

definition get_node_by_name :: "string \<Rightarrow> bool \<Rightarrow> node_catalog \<Rightarrow> PGLogicalNode option result" where
  "get_node_by_name name missing_ok cat =
     (case List.find (\<lambda>r. nameeq (node_name r) name) (cat_node cat) of
        None \<Rightarrow> if missing_ok then Inr None else elog ''node %s not found''
      | Some r \<Rightarrow> Inr (Some r))"

definition create_node ::
  "(string \<Rightarrow> oid) \<Rightarrow> PGLogicalNode \<Rightarrow> node_catalog \<Rightarrow> (PGLogicalNode \<times> node_catalog) result" where
  "create_node hash_any node cat =
     rbind (get_node_by_name (node_name node) True cat) (\<lambda>existing.
     if existing \<noteq> None then elog ''node %s already exists''
     else let node = (if node_id node = InvalidOid
                      then node\<lparr> node_id := hash_any (node_name node) \<rparr> else node)
          in rbind (catalog_insert node_conflicts
                      \<lparr> node_id = node_id node, node_name = namestrcpy (node_name node) \<rparr>
                      (cat_node cat)) (\<lambda>t.
             Inr (node, pglogical_subscription_changed InvalidOid (cat\<lparr> cat_node := t \<rparr>))))"

definition drop_node :: "oid \<Rightarrow> node_catalog \<Rightarrow> node_catalog result" where
  "drop_node nodeid cat =
     (if List.find (\<lambda>r. node_id r = nodeid) (cat_node cat) = None
      then elog ''node %u not found''
      else Inr (pglogical_subscription_changed InvalidOid
                  (cat\<lparr> cat_node := delete_first (\<lambda>r. node_id r = nodeid) (cat_node cat) \<rparr>)))"

section \<open>Node interfaces\<close>

text \<open>
  The id of an interface is the hash of the pair of the node id and the hash of the name; the hash of
  two words is the parameter \<open>hash_pair\<close> (\<open>hash_any\<close> over the array).
\<close>

definition create_node_interface ::
  "(string \<Rightarrow> oid) \<Rightarrow> (oid \<Rightarrow> oid \<Rightarrow> oid) \<Rightarrow> PGlogicalInterface \<Rightarrow> node_catalog
     \<Rightarrow> (PGlogicalInterface \<times> node_catalog) result" where
  "create_node_interface hash_any hash_pair nodeif cat =
     (let nodeif = (if if_id nodeif = InvalidOid
                    then nodeif\<lparr> if_id := hash_pair (if_nodeid nodeif) (hash_any (if_name nodeif)) \<rparr>
                    else nodeif)
      in rbind (catalog_insert interface_conflicts (nodeif\<lparr> if_name := namestrcpy (if_name nodeif) \<rparr>)
                  (cat_node_interface cat)) (\<lambda>t.
         Inr (nodeif, cat\<lparr> cat_node_interface := t \<rparr>)))"

definition drop_node_interface :: "oid \<Rightarrow> node_catalog \<Rightarrow> node_catalog result" where
  "drop_node_interface ifid cat =
     (if List.find (\<lambda>r. if_id r = ifid) (cat_node_interface cat) = None
      then elog ''node interface %u not found''
      else Inr (cat\<lparr> cat_node_interface :=
                      delete_first (\<lambda>r. if_id r = ifid) (cat_node_interface cat) \<rparr>))"

definition drop_node_interfaces :: "oid \<Rightarrow> node_catalog \<Rightarrow> node_catalog" where
  "drop_node_interfaces nodeid cat =
     cat\<lparr> cat_node_interface := delete_all (\<lambda>r. if_nodeid r = nodeid) (cat_node_interface cat) \<rparr>"

definition get_node_interface :: "oid \<Rightarrow> node_catalog \<Rightarrow> PGlogicalInterface result" where
  "get_node_interface ifid cat =
     (case List.find (\<lambda>r. if_id r = ifid) (cat_node_interface cat) of
        None \<Rightarrow> elog ''node interface %u not found'' | Some r \<Rightarrow> Inr r)"

definition get_node_interface_by_name ::
  "oid \<Rightarrow> string \<Rightarrow> bool \<Rightarrow> node_catalog \<Rightarrow> PGlogicalInterface option result" where
  "get_node_interface_by_name nodeid name missing_ok cat =
     (case List.find (\<lambda>r. if_nodeid r = nodeid \<and> nameeq (if_name r) name)
             (cat_node_interface cat) of
        None \<Rightarrow> if missing_ok then Inr None else elog ''node interface %s not found for nod %u''
      | Some r \<Rightarrow> Inr (Some r))"

section \<open>The local node\<close>

text \<open>The scan has no key: any row is the local node.\<close>

definition get_local_node :: "bool \<Rightarrow> node_catalog \<Rightarrow> PGLogicalLocalNode option result" where
  "get_local_node missing_ok cat =
     (case cat_local_node cat of
        [] \<Rightarrow> if missing_ok then Inr None
              else ereport ERRCODE_OBJECT_NOT_IN_PREREQUISITE_STATE ''local node not found''
      | r # _ \<Rightarrow>
          rbind (get_node (ln_id r) cat) (\<lambda>node.
          rbind (get_node_interface (ln_if r) cat) (\<lambda>nodeif.
            Inr (Some \<lparr> ln_node = node, ln_node_if = nodeif \<rparr>))))"

definition create_local_node :: "oid \<Rightarrow> oid \<Rightarrow> node_catalog \<Rightarrow> node_catalog result" where
  "create_local_node nodeid ifid cat =
     rbind (get_local_node True cat) (\<lambda>existing.
     if existing \<noteq> None
     then elog ''current database is already configured as pglogical node''
     else rbind (catalog_insert local_node_conflicts \<lparr> ln_id = nodeid, ln_if = ifid \<rparr>
                   (cat_local_node cat)) (\<lambda>t.
          Inr (cat\<lparr> cat_local_node := t \<rparr>)))"

definition drop_local_node :: "node_catalog \<Rightarrow> node_catalog result" where
  "drop_local_node cat =
     (case cat_local_node cat of
        [] \<Rightarrow> ereport ERRCODE_OBJECT_NOT_IN_PREREQUISITE_STATE ''local node not found''
      | _ # rest \<Rightarrow> Inr (cat\<lparr> cat_local_node := rest \<rparr>))"

section \<open>Subscriptions\<close>

definition list_or_null :: "string list \<Rightarrow> string list option" where
  "list_or_null l = (if length l > 0 then Some l else None)"

definition subscription_fromtuple ::
  "SubscriptionTuple \<Rightarrow> node_catalog \<Rightarrow> PGLogicalSubscription result" where
  "subscription_fromtuple tup cat =
     rbind (get_node (st_origin tup) cat) (\<lambda>origin.
     rbind (get_node (st_target tup) cat) (\<lambda>target.
     rbind (get_node_interface (st_origin_if tup) cat) (\<lambda>origin_if.
     rbind (get_node_interface (st_target_if tup) cat) (\<lambda>target_if.
       Inr \<lparr> sub_id = st_id tup, sub_name = st_name tup, sub_origin = origin, sub_target = target,
             sub_origin_if = origin_if, sub_target_if = target_if, sub_enabled = st_enabled tup,
             sub_apply_delay = st_apply_delay tup, sub_slot_name = st_slot_name tup,
             sub_replication_sets = (case st_replication_sets tup of None \<Rightarrow> [] | Some l \<Rightarrow> l),
             sub_forward_origins = (case st_forward_origins tup of None \<Rightarrow> [] | Some l \<Rightarrow> l) \<rparr>))))"

definition get_subscription :: "oid \<Rightarrow> node_catalog \<Rightarrow> PGLogicalSubscription result" where
  "get_subscription subid cat =
     (case List.find (\<lambda>r. st_id r = subid) (cat_subscription cat) of
        None \<Rightarrow> elog ''subscription %u not found''
      | Some tup \<Rightarrow> subscription_fromtuple tup cat)"

definition get_subscription_by_name ::
  "string \<Rightarrow> bool \<Rightarrow> node_catalog \<Rightarrow> PGLogicalSubscription option result" where
  "get_subscription_by_name name missing_ok cat =
     (case List.find (\<lambda>r. nameeq (st_name r) name) (cat_subscription cat) of
        None \<Rightarrow> if missing_ok then Inr None else elog ''subscriber %s not found''
      | Some tup \<Rightarrow> rbind (subscription_fromtuple tup cat) (\<lambda>sub. Inr (Some sub)))"

definition get_node_subscriptions ::
  "oid \<Rightarrow> bool \<Rightarrow> node_catalog \<Rightarrow> PGLogicalSubscription list result" where
  "get_node_subscriptions nodeid origin cat =
     rmap (\<lambda>tup. subscription_fromtuple tup cat)
       (filter (\<lambda>r. (if origin then st_origin r else st_target r) = nodeid) (cat_subscription cat))"

definition create_subscription ::
  "(string \<Rightarrow> oid) \<Rightarrow> PGLogicalSubscription \<Rightarrow> node_catalog
     \<Rightarrow> (PGLogicalSubscription \<times> node_catalog) result" where
  "create_subscription hash_any sub cat =
     rbind (validate_subscription_name (sub_name sub)) (\<lambda>_.
     rbind (get_subscription_by_name (sub_name sub) True cat) (\<lambda>existing.
     if existing \<noteq> None then elog ''subscription %s already exists''
     else let sub = (if sub_id sub = InvalidOid
                     then sub\<lparr> sub_id := hash_any (sub_name sub) \<rparr> else sub)
          in rbind (catalog_insert subscription_conflicts
               \<lparr> st_id = sub_id sub, st_name = namestrcpy (sub_name sub),
                 st_origin = if_nodeid (sub_origin_if sub),
                 st_target = if_nodeid (sub_target_if sub),
                 st_origin_if = if_id (sub_origin_if sub), st_target_if = if_id (sub_target_if sub),
                 st_enabled = sub_enabled sub, st_slot_name = namestrcpy (sub_slot_name sub),
                 st_replication_sets = list_or_null (sub_replication_sets sub),
                 st_forward_origins = list_or_null (sub_forward_origins sub),
                 st_apply_delay = sub_apply_delay sub \<rparr> (cat_subscription cat)) (\<lambda>t.
             Inr (sub, pglogical_subscription_changed (sub_id sub)
                         (cat\<lparr> cat_subscription := t \<rparr>)))))"

text \<open>
  The apply delay is written without a test for NULL.  A changed name is only reported in the log.
\<close>

definition alter_subscription :: "PGLogicalSubscription \<Rightarrow> node_catalog \<Rightarrow> node_catalog result" where
  "alter_subscription sub cat =
     (if List.find (\<lambda>r. st_id r = sub_id sub) (cat_subscription cat) = None
      then elog ''subscription %u not found''
      else if sub_apply_delay sub = None then Inl NullDereference
      else Inr (pglogical_subscription_changed (sub_id sub)
             (cat\<lparr> cat_subscription := update_first (\<lambda>r. st_id r = sub_id sub) (\<lambda>oldtup.
                oldtup\<lparr> st_origin := if_nodeid (sub_origin_if sub),
                        st_target := if_nodeid (sub_target_if sub),
                        st_origin_if := if_id (sub_origin_if sub),
                        st_target_if := if_id (sub_target_if sub),
                        st_enabled := sub_enabled sub,
                        st_slot_name := namestrcpy (sub_slot_name sub),
                        st_replication_sets := list_or_null (sub_replication_sets sub),
                        st_forward_origins := list_or_null (sub_forward_origins sub),
                        st_apply_delay := sub_apply_delay sub \<rparr>) (cat_subscription cat) \<rparr>)))"

definition drop_subscription :: "oid \<Rightarrow> node_catalog \<Rightarrow> node_catalog result" where
  "drop_subscription subid cat =
     (if List.find (\<lambda>r. st_id r = subid) (cat_subscription cat) = None
      then elog ''subscription %u not found''
      else Inr (pglogical_subscription_changed subid
                  (cat\<lparr> cat_subscription := delete_first (\<lambda>r. st_id r = subid) (cat_subscription cat) \<rparr>)))"

section \<open>Invariant\<close>

text \<open>
  No two rows share the key of a unique index, the names stored are names, and there is at most one
  local node.
\<close>

definition node_catalog_ok :: "node_catalog \<Rightarrow> bool" where
  "node_catalog_ok cat \<longleftrightarrow>
     rows_ok node_conflicts (cat_node cat) \<and>
     rows_ok interface_conflicts (cat_node_interface cat) \<and>
     rows_ok subscription_conflicts (cat_subscription cat) \<and>
     length (cat_local_node cat) \<le> 1 \<and>
     (\<forall>r \<in> set (cat_node cat). length (node_name r) < NAMEDATALEN) \<and>
     (\<forall>r \<in> set (cat_node_interface cat). length (if_name r) < NAMEDATALEN) \<and>
     (\<forall>r \<in> set (cat_subscription cat). validate_subscription_name (st_name r) = Inr ())"

text \<open>The steps that change the catalogs.\<close>

inductive node_step :: "(string \<Rightarrow> oid) \<Rightarrow> (oid \<Rightarrow> oid \<Rightarrow> oid) \<Rightarrow> node_catalog \<Rightarrow> node_catalog \<Rightarrow> bool"
  for hash_any hash_pair where
  create_node: "create_node hash_any node cat = Inr (n, cat') \<Longrightarrow>
     node_step hash_any hash_pair cat cat'"
| drop_node: "drop_node nodeid cat = Inr cat' \<Longrightarrow> node_step hash_any hash_pair cat cat'"
| create_interface: "create_node_interface hash_any hash_pair nodeif cat = Inr (i, cat') \<Longrightarrow>
     node_step hash_any hash_pair cat cat'"
| drop_interface: "drop_node_interface ifid cat = Inr cat' \<Longrightarrow>
     node_step hash_any hash_pair cat cat'"
| drop_interfaces: "node_step hash_any hash_pair cat (drop_node_interfaces nodeid cat)"
| create_local: "create_local_node nodeid ifid cat = Inr cat' \<Longrightarrow>
     node_step hash_any hash_pair cat cat'"
| drop_local: "drop_local_node cat = Inr cat' \<Longrightarrow> node_step hash_any hash_pair cat cat'"
| create_subscription: "create_subscription hash_any sub cat = Inr (s, cat') \<Longrightarrow>
     node_step hash_any hash_pair cat cat'"
| alter_subscription: "alter_subscription sub cat = Inr cat' \<Longrightarrow>
     node_step hash_any hash_pair cat cat'"
| drop_subscription: "drop_subscription subid cat = Inr cat' \<Longrightarrow>
     node_step hash_any hash_pair cat cat'"

inductive_cases node_stepE: "node_step hash_any hash_pair cat cat'"

text \<open>The codes of lower-case letters, digits and the underscore.\<close>

definition name_codes :: "nat set" where
  "name_codes = {97..122} \<union> {48..57} \<union> {95}"

section \<open>An example\<close>

definition ex_hash :: "string \<Rightarrow> oid" where
  "ex_hash s = of_nat (17 + length s)"

definition ex_node :: "oid \<Rightarrow> string \<Rightarrow> PGLogicalNode" where
  "ex_node i n = \<lparr> node_id = i, node_name = n \<rparr>"

definition ex_if :: "oid \<Rightarrow> oid \<Rightarrow> PGlogicalInterface" where
  "ex_if i n = \<lparr> if_id = i, if_name = ''default'', if_nodeid = n, if_dsn = ''dbname=db'' \<rparr>"

definition ex_catalog :: node_catalog where
  "ex_catalog = \<lparr> cat_node = [ex_node 1 ''provider'', ex_node 2 ''subscriber''],
     cat_local_node = [\<lparr> ln_id = 2, ln_if = 12 \<rparr>],
     cat_node_interface = [ex_if 11 1, ex_if 12 2], cat_subscription = [], sub_changed = [] \<rparr>"

definition ex_sub :: PGLogicalSubscription where
  "ex_sub = \<lparr> sub_id = 0, sub_name = ''sub1'', sub_origin = ex_node 1 ''provider'',
     sub_target = ex_node 2 ''subscriber'', sub_origin_if = ex_if 11 1, sub_target_if = ex_if 12 2,
     sub_enabled = True, sub_apply_delay = Some \<lparr> itime = 0, iday = 0, imonth = 0 \<rparr>,
     sub_slot_name = ''pgl_db_provider_sub1'', sub_replication_sets = [''default''],
     sub_forward_origins = [] \<rparr>"

definition ex_catalog1 :: node_catalog where
  "ex_catalog1 = ex_catalog\<lparr> cat_subscription := [\<lparr> st_id = 21, st_name = ''sub1'', st_origin = 1,
     st_target = 2, st_origin_if = 11, st_target_if = 12, st_enabled = True,
     st_slot_name = ''pgl_db_provider_sub1'', st_replication_sets = Some [''default''],
     st_forward_origins = None, st_apply_delay = Some \<lparr> itime = 0, iday = 0, imonth = 0 \<rparr> \<rparr>],
     sub_changed := [21] \<rparr>"

section \<open>Lemmas\<close>

interpretation node_by_id: unique_table node_conflicts node_id
  by unfold_locales (simp add: node_conflicts_def)

interpretation node_by_name: unique_table node_conflicts node_name
  by unfold_locales (simp add: node_conflicts_def)

interpretation if_by_id: unique_table interface_conflicts if_id
  by unfold_locales (simp add: interface_conflicts_def)

interpretation if_by_name: unique_table interface_conflicts "\<lambda>r. (if_nodeid r, if_name r)"
  by unfold_locales (simp add: interface_conflicts_def)

interpretation sub_by_id: unique_table subscription_conflicts st_id
  by unfold_locales (simp add: subscription_conflicts_def)

interpretation sub_by_name: unique_table subscription_conflicts st_name
  by unfold_locales (simp add: subscription_conflicts_def)

lemma changed_simps [simp]:
  "cat_node (pglogical_subscription_changed i cat) = cat_node cat"
  "cat_local_node (pglogical_subscription_changed i cat) = cat_local_node cat"
  "cat_node_interface (pglogical_subscription_changed i cat) = cat_node_interface cat"
  "cat_subscription (pglogical_subscription_changed i cat) = cat_subscription cat"
  "sub_changed (pglogical_subscription_changed i cat) = sub_changed cat @ [i]"
  by (simp_all add: pglogical_subscription_changed_def)

lemma validate_iff:
  "validate_subscription_name name = Inr () \<longleftrightarrow>
   name \<noteq> [] \<and> length name < NAMEDATALEN \<and> list_all valid_name_char name"
  by (auto simp: validate_subscription_name_def)

lemma validate_Inr_unit: "validate_subscription_name name = Inr u \<Longrightarrow>
   validate_subscription_name name = Inr ()"
  by simp

text \<open>Lookups read one table each, so they do not see changes of the others.\<close>

lemma lookup_cong:
  "cat_node c = cat_node c' \<Longrightarrow> get_node i c = get_node i c'"
  "cat_node_interface c = cat_node_interface c' \<Longrightarrow> get_node_interface i c = get_node_interface i c'"
  "cat_node c = cat_node c' \<Longrightarrow> cat_node_interface c = cat_node_interface c' \<Longrightarrow>
   subscription_fromtuple tup c = subscription_fromtuple tup c'"
  by (simp_all add: get_node_def get_node_interface_def subscription_fromtuple_def)

lemma insert_names:
  assumes "rows_ok c t" "catalog_insert c r t = Inr t'" "\<forall>x \<in> set t. P x" "P r"
  shows "rows_ok c t' \<and> (\<forall>x \<in> set t'. P x)"
  using rows_ok_insert [OF assms(1,2)] assms(3,4) by auto

lemma delete_names:
  assumes "rows_ok c t" "\<forall>x \<in> set t. P x"
  shows "rows_ok c (delete_first Q t) \<and> (\<forall>x \<in> set (delete_first Q t). P x)"
  using assms by (auto dest: subsetD [OF set_delete_first_subset])

lemma create_node_ok:
  assumes "node_catalog_ok cat" "create_node h node cat = Inr (n, cat')"
  shows "node_catalog_ok cat'"
proof -
  obtain t where t: "catalog_insert node_conflicts
      \<lparr> node_id = node_id n, node_name = namestrcpy (node_name n) \<rparr> (cat_node cat) = Inr t"
    and c: "cat' = pglogical_subscription_changed InvalidOid (cat\<lparr> cat_node := t \<rparr>)"
    using assms(2) by (auto simp: create_node_def rbind_eq_Inr Let_def split: if_splits)
  have "rows_ok node_conflicts t \<and> (\<forall>x \<in> set t. length (node_name x) < NAMEDATALEN)"
    using insert_names [OF _ t, of "\<lambda>x. length (node_name x) < NAMEDATALEN"] assms(1)
    by (simp add: node_catalog_ok_def)
  then show ?thesis using assms(1) c by (simp add: node_catalog_ok_def)
qed

lemma create_interface_ok:
  assumes "node_catalog_ok cat" "create_node_interface h p nodeif cat = Inr (i, cat')"
  shows "node_catalog_ok cat'"
proof -
  obtain t where t: "catalog_insert interface_conflicts
      (i\<lparr> if_name := namestrcpy (if_name i) \<rparr>) (cat_node_interface cat) = Inr t"
    and c: "cat' = cat\<lparr> cat_node_interface := t \<rparr>"
    using assms(2) by (auto simp: create_node_interface_def rbind_eq_Inr Let_def split: if_splits)
  have "rows_ok interface_conflicts t \<and> (\<forall>x \<in> set t. length (if_name x) < NAMEDATALEN)"
    using insert_names [OF _ t, of "\<lambda>x. length (if_name x) < NAMEDATALEN"] assms(1)
    by (simp add: node_catalog_ok_def)
  then show ?thesis using assms(1) c by (simp add: node_catalog_ok_def)
qed

text \<open>What a successful creation of a subscription did.\<close>

lemma create_subscription_Inr:
  assumes "create_subscription h sub cat = Inr (s, cat')"
  obtains t where "validate_subscription_name (sub_name sub) = Inr ()"
    "s = (if sub_id sub = InvalidOid then sub\<lparr> sub_id := h (sub_name sub) \<rparr> else sub)"
    "catalog_insert subscription_conflicts
       \<lparr> st_id = sub_id s, st_name = sub_name sub,
         st_origin = if_nodeid (sub_origin_if sub), st_target = if_nodeid (sub_target_if sub),
         st_origin_if = if_id (sub_origin_if sub), st_target_if = if_id (sub_target_if sub),
         st_enabled = sub_enabled sub, st_slot_name = namestrcpy (sub_slot_name sub),
         st_replication_sets = list_or_null (sub_replication_sets sub),
         st_forward_origins = list_or_null (sub_forward_origins sub),
         st_apply_delay = sub_apply_delay sub \<rparr> (cat_subscription cat) = Inr t"
    "cat' = pglogical_subscription_changed (sub_id s) (cat\<lparr> cat_subscription := t \<rparr>)"
proof -
  have v: "validate_subscription_name (sub_name sub) = Inr ()"
    using assms by (auto simp: create_subscription_def rbind_eq_Inr)
  then have "namestrcpy (sub_name sub) = sub_name sub"
    by (simp add: validate_iff)
  then show ?thesis
    using assms v that by (auto simp: create_subscription_def rbind_eq_Inr Let_def split: if_splits)
qed

lemma create_subscription_ok:
  assumes "node_catalog_ok cat" "create_subscription h sub cat = Inr (s, cat')"
  shows "node_catalog_ok cat'"
  using assms(2)
proof (rule create_subscription_Inr)
  fix t
  assume v: "validate_subscription_name (sub_name sub) = Inr ()"
    and c: "cat' = pglogical_subscription_changed (sub_id s) (cat\<lparr> cat_subscription := t \<rparr>)"
    and t: "catalog_insert subscription_conflicts
       \<lparr> st_id = sub_id s, st_name = sub_name sub,
         st_origin = if_nodeid (sub_origin_if sub), st_target = if_nodeid (sub_target_if sub),
         st_origin_if = if_id (sub_origin_if sub), st_target_if = if_id (sub_target_if sub),
         st_enabled = sub_enabled sub, st_slot_name = namestrcpy (sub_slot_name sub),
         st_replication_sets = list_or_null (sub_replication_sets sub),
         st_forward_origins = list_or_null (sub_forward_origins sub),
         st_apply_delay = sub_apply_delay sub \<rparr> (cat_subscription cat) = Inr t"
  have "rows_ok subscription_conflicts t \<and>
      (\<forall>x \<in> set t. validate_subscription_name (st_name x) = Inr ())"
    using insert_names [OF _ t, of "\<lambda>x. validate_subscription_name (st_name x) = Inr ()"]
      assms(1) v by (simp add: node_catalog_ok_def)
  then show ?thesis using assms(1) c by (simp add: node_catalog_ok_def)
qed

lemma alter_subscription_ok:
  assumes "node_catalog_ok cat" "alter_subscription sub cat = Inr cat'"
  shows "node_catalog_ok cat'"
  using assms
  by (auto simp: alter_subscription_def node_catalog_ok_def subscription_conflicts_def
      intro!: rows_ok_update_first dest!: in_update_first split: if_splits)

lemma drop_ok:
  assumes "node_catalog_ok cat"
  shows "drop_node i cat = Inr cat' \<Longrightarrow> node_catalog_ok cat'"
    and "drop_node_interface i cat = Inr cat' \<Longrightarrow> node_catalog_ok cat'"
    and "drop_subscription i cat = Inr cat' \<Longrightarrow> node_catalog_ok cat'"
    and "drop_local_node cat = Inr cat' \<Longrightarrow> node_catalog_ok cat'"
    and "node_catalog_ok (drop_node_interfaces i cat)"
  using assms delete_names
  by (auto simp: node_catalog_ok_def drop_node_def drop_node_interface_def drop_subscription_def
      drop_local_node_def drop_node_interfaces_def split: if_splits list.splits
      dest!: subsetD [OF set_delete_first_subset])

lemma create_local_ok:
  assumes "node_catalog_ok cat" "create_local_node n i cat = Inr cat'"
  shows "node_catalog_ok cat'"
  using assms
  by (auto simp: create_local_node_def get_local_node_def node_catalog_ok_def catalog_insert_def
      rbind_eq_Inr split: list.splits if_splits)

lemma node_step_ok:
  assumes "node_step h p cat cat'" "node_catalog_ok cat"
  shows "node_catalog_ok cat'"
  using assms
  by (cases rule: node_step.cases)
    (auto intro: create_node_ok create_interface_ok create_subscription_ok alter_subscription_ok
      drop_ok create_local_ok)

lemma list_or_null_back [simp]: "(case list_or_null l of None \<Rightarrow> [] | Some x \<Rightarrow> x) = l"
  by (simp add: list_or_null_def)

text \<open>A row whose references resolve is read back as the subscription it stores.\<close>

lemma subscription_fromtuple_resolved:
  assumes "get_node (st_origin tup) cat = Inr on" "get_node (st_target tup) cat = Inr tn"
    and "get_node_interface (st_origin_if tup) cat = Inr oi"
    and "get_node_interface (st_target_if tup) cat = Inr ti"
  shows "subscription_fromtuple tup cat =
    Inr \<lparr> sub_id = st_id tup, sub_name = st_name tup, sub_origin = on, sub_target = tn,
          sub_origin_if = oi, sub_target_if = ti, sub_enabled = st_enabled tup,
          sub_apply_delay = st_apply_delay tup, sub_slot_name = st_slot_name tup,
          sub_replication_sets = (case st_replication_sets tup of None \<Rightarrow> [] | Some l \<Rightarrow> l),
          sub_forward_origins = (case st_forward_origins tup of None \<Rightarrow> [] | Some l \<Rightarrow> l) \<rparr>"
  using assms by (simp add: subscription_fromtuple_def)

lemma find_nameeq:
  assumes "\<forall>r \<in> set t. length (f r) < NAMEDATALEN" "length n < NAMEDATALEN"
  shows "List.find (\<lambda>r. nameeq (f r) n) t = List.find (\<lambda>r. f r = n) t"
  using assms by (induction t) (auto simp: nameeq_short)

lemma subscription_row_lookup:
  assumes "node_catalog_ok cat" "r \<in> set (cat_subscription cat)"
    and "subscription_fromtuple r cat = Inr s"
  shows "get_subscription (st_id r) cat = Inr s"
    and "get_subscription_by_name (st_name r) m cat = Inr (Some s)"
proof -
  have rows: "rows_ok subscription_conflicts (cat_subscription cat)"
    and names: "\<forall>r \<in> set (cat_subscription cat). length (st_name r) < NAMEDATALEN"
    using assms(1) by (auto simp: node_catalog_ok_def validate_iff)
  then have "length (st_name r) < NAMEDATALEN"
    using assms(2) by blast
  with rows names show "get_subscription (st_id r) cat = Inr s"
    "get_subscription_by_name (st_name r) m cat = Inr (Some s)"
    using assms(2,3)
    by (simp_all add: get_subscription_def get_subscription_by_name_def find_nameeq
        sub_by_id.lookup_in sub_by_name.lookup_in)
qed

lemma subscription_row_drop:
  assumes "node_catalog_ok cat" "r \<in> set (cat_subscription cat)"
  shows "\<exists>cat2. drop_subscription (st_id r) cat = Inr cat2 \<and>
    \<not> is_ok (get_subscription (st_id r) cat2) \<and>
    get_subscription_by_name (st_name r) True cat2 = Inr None"
proof -
  let ?t = "cat_subscription cat" and ?cat2 = "pglogical_subscription_changed (st_id r)
    (cat\<lparr> cat_subscription := delete_first (\<lambda>x. st_id x = st_id r) (cat_subscription cat) \<rparr>)"
  have rows: "rows_ok subscription_conflicts ?t"
    and names: "\<forall>r \<in> set ?t. length (st_name r) < NAMEDATALEN"
    using assms(1) by (auto simp: node_catalog_ok_def validate_iff)
  have left: "cat_subscription ?cat2 = filter (\<lambda>x. st_id x \<noteq> st_id r) ?t"
    using sub_by_id.delete_first_filter [OF rows] by simp
  have "x = r" if "x \<in> set ?t" "nameeq (st_name x) (st_name r)" for x
    using that names assms(2) sub_by_name.key_inj [OF rows that(1) assms(2)]
    by (auto simp: nameeq_short)
  then have "List.find (\<lambda>x. nameeq (st_name x) (st_name r)) (cat_subscription ?cat2) = None"
    "List.find (\<lambda>x. st_id x = st_id r) (cat_subscription ?cat2) = None"
    using left by (auto simp: find_None_all)
  then show ?thesis
    using sub_by_id.lookup_in [OF rows assms(2)]
    by (simp add: drop_subscription_def get_subscription_def get_subscription_by_name_def)
qed

lemma created_row:
  assumes "create_subscription h sub cat = Inr (s, cat')"
    and "get_node (if_nodeid (sub_origin_if sub)) cat = Inr (sub_origin sub)"
    and "get_node (if_nodeid (sub_target_if sub)) cat = Inr (sub_target sub)"
    and "get_node_interface (if_id (sub_origin_if sub)) cat = Inr (sub_origin_if sub)"
    and "get_node_interface (if_id (sub_target_if sub)) cat = Inr (sub_target_if sub)"
    and "length (sub_slot_name sub) < NAMEDATALEN"
  obtains r where "cat' = pglogical_subscription_changed (sub_id s) (cat\<lparr> cat_subscription := cat_subscription cat @ [r] \<rparr>)"
    "st_id r = sub_id s" "st_name r = sub_name s" "subscription_fromtuple r cat' = Inr s"
    "validate_subscription_name (sub_name s) = Inr ()"
    "s = sub\<lparr> sub_id := if sub_id sub = InvalidOid then h (sub_name sub) else sub_id sub \<rparr>"
  using assms(1)
proof (rule create_subscription_Inr)
  let ?r = "\<lparr> st_id = sub_id s, st_name = sub_name sub,
         st_origin = if_nodeid (sub_origin_if sub), st_target = if_nodeid (sub_target_if sub),
         st_origin_if = if_id (sub_origin_if sub), st_target_if = if_id (sub_target_if sub),
         st_enabled = sub_enabled sub, st_slot_name = namestrcpy (sub_slot_name sub),
         st_replication_sets = list_or_null (sub_replication_sets sub),
         st_forward_origins = list_or_null (sub_forward_origins sub),
         st_apply_delay = sub_apply_delay sub \<rparr>"
  fix t
  assume v: "validate_subscription_name (sub_name sub) = Inr ()"
    and s: "s = (if sub_id sub = InvalidOid then sub\<lparr> sub_id := h (sub_name sub) \<rparr> else sub)"
    and ins: "catalog_insert subscription_conflicts ?r (cat_subscription cat) = Inr t"
    and c: "cat' = pglogical_subscription_changed (sub_id s) (cat\<lparr> cat_subscription := t \<rparr>)"
  have eta: "\<lparr> sub_id = i, sub_name = sub_name sub, sub_origin = sub_origin sub,
      sub_target = sub_target sub, sub_origin_if = sub_origin_if sub,
      sub_target_if = sub_target_if sub, sub_enabled = sub_enabled sub,
      sub_apply_delay = sub_apply_delay sub, sub_slot_name = sub_slot_name sub,
      sub_replication_sets = sub_replication_sets sub,
      sub_forward_origins = sub_forward_origins sub \<rparr> = sub\<lparr> sub_id := i \<rparr>" for i
    by (cases sub) simp
  have "s = sub\<lparr> sub_id := sub_id s \<rparr>"
    using s by simp
  moreover have "get_node i cat' = get_node i cat" "get_node_interface i cat' = get_node_interface i cat"
    for i
    using c by (simp_all add: get_node_def get_node_interface_def)
  ultimately have "subscription_fromtuple ?r cat' = Inr s"
    using assms(2-6) eta [of "sub_id s"] by (subst subscription_fromtuple_resolved) simp_all
  moreover have "t = cat_subscription cat @ [?r]"
    using ins by (simp add: catalog_insert_def split: if_splits)
  ultimately show thesis
    using v s c by (intro that [of ?r]) simp_all
qed

lemma created_row_drop:
  assumes "node_catalog_ok cat'"
    "cat' = pglogical_subscription_changed i (cat\<lparr> cat_subscription := cat_subscription cat @ [r] \<rparr>)" "st_id r = i"
  shows "drop_subscription i cat' = Inr (cat\<lparr> sub_changed := sub_changed cat @ [i, i] \<rparr>)"
proof -
  have t: "cat_subscription cat' = cat_subscription cat @ [r]" using assms(2) by simp
  have rows: "rows_ok subscription_conflicts (cat_subscription cat @ [r])"
    using assms(1) t by (simp add: node_catalog_ok_def)
  have new: "st_id x \<noteq> i" if "x \<in> set (cat_subscription cat)" for x
    using rows that assms(3) by (auto simp: rows_ok_def sorted_wrt_append subscription_conflicts_def)
  have "delete_first (\<lambda>x. st_id x = i) (cat_subscription cat @ [r]) = cat_subscription cat"
    using sub_by_id.delete_first_filter [OF rows, of i] assms(3) new by (simp add: filter_True)
  then show ?thesis
    using sub_by_id.lookup_in [OF rows, of r] assms(2,3)
    by (simp add: drop_subscription_def pglogical_subscription_changed_def)
qed

lemma valid_name_char_codes: "valid_name_char c \<longleftrightarrow> of_char c \<in> name_codes"
proof -
  have "c = CHR ''_'' \<longleftrightarrow> of_char c = (of_char CHR ''_'' :: nat)"
    by (simp only: of_char_eq_iff)
  then show ?thesis
    by (simp add: valid_name_char_def byte_val_def name_codes_def) auto
qed

section \<open>Properties\<close>

text \<open>
  C11.  The node and subscription catalogs stay consistent: whatever sequence of the operations that
  change them succeeds, no two nodes share an id or a name, no two interfaces share an id or a name
  within a node, no two subscriptions share an id or a name, every subscription has a valid name, the
  stored names fit their column and there is at most one local node.
\<close>

theorem node_catalog_consistent:
  assumes "(node_step hash_any hash_pair)\<^sup>*\<^sup>* cat cat'" "node_catalog_ok cat"
  shows "node_catalog_ok cat'"
  using assms by (induction rule: rtranclp_induct) (auto intro: node_step_ok)

lemma ex_valid_name: "validate_subscription_name ''sub1'' = Inr ()"
  by (simp add: validate_subscription_name_def valid_name_char_def byte_val_def)

lemma ex_catalog_ok: "node_catalog_ok ex_catalog"
  by (simp add: node_catalog_ok_def ex_catalog_def rows_ok_def node_conflicts_def ex_node_def
      interface_conflicts_def ex_if_def)

lemma ex_create:
  "create_subscription ex_hash ex_sub ex_catalog = Inr (ex_sub\<lparr> sub_id := 21 \<rparr>, ex_catalog1)"
  by (simp add: create_subscription_def ex_sub_def ex_valid_name get_subscription_by_name_def
      ex_catalog_def catalog_insert_def ex_hash_def ex_if_def list_or_null_def ex_catalog1_def
      pglogical_subscription_changed_def namestrcpy_def)

theorem node_catalog_consistent_witness: "node_catalog_ok ex_catalog1"
  using node_catalog_consistent [of ex_hash "\<lambda>a b. a + b" ex_catalog ex_catalog1]
    node_step.create_subscription [OF ex_create] ex_catalog_ok by blast

text \<open>
  C12.  A subscription that was created can be read back.  In a consistent catalog that knows the
  nodes and interfaces the subscription refers to, a successful creation stores it under a valid id:
  looking it up by that id and by its name both return exactly the subscription that was given, with
  its id; the workers are told of that id; creating a second one of the same name fails; and dropping it
  restores every table of the catalog as it was before the creation, with the workers told of the id a second
  time, so that both lookups find nothing.
\<close>

theorem subscription_create_lookup_drop:
  assumes "node_catalog_ok cat" "create_subscription hash_any sub cat = Inr (s, cat')"
    and "get_node (if_nodeid (sub_origin_if sub)) cat = Inr (sub_origin sub)"
    and "get_node (if_nodeid (sub_target_if sub)) cat = Inr (sub_target sub)"
    and "get_node_interface (if_id (sub_origin_if sub)) cat = Inr (sub_origin_if sub)"
    and "get_node_interface (if_id (sub_target_if sub)) cat = Inr (sub_target_if sub)"
    and "length (sub_slot_name sub) < NAMEDATALEN"
  shows "s = sub\<lparr> sub_id := if sub_id sub = InvalidOid then hash_any (sub_name sub) else sub_id sub \<rparr> \<and>
    get_subscription (sub_id s) cat' = Inr s \<and>
    get_subscription_by_name (sub_name s) missing_ok cat' = Inr (Some s) \<and>
    sub_changed cat' = sub_changed cat @ [sub_id s] \<and>
    (\<forall>sub2. sub_name sub2 = sub_name s \<longrightarrow> \<not> is_ok (create_subscription hash_any sub2 cat')) \<and>
    (\<exists>cat2. drop_subscription (sub_id s) cat' = Inr cat2 \<and>
       cat2 = cat\<lparr> sub_changed := sub_changed cat @ [sub_id s, sub_id s] \<rparr> \<and>
       \<not> is_ok (get_subscription (sub_id s) cat2) \<and>
       get_subscription_by_name (sub_name s) True cat2 = Inr None)"
proof -
  obtain r where c: "cat' = pglogical_subscription_changed (sub_id s) (cat\<lparr> cat_subscription := cat_subscription cat @ [r] \<rparr>)"
    and n: "st_id r = sub_id s" "st_name r = sub_name s" "subscription_fromtuple r cat' = Inr s"
    and v: "validate_subscription_name (sub_name s) = Inr ()"
    and s: "s = sub\<lparr> sub_id := if sub_id sub = InvalidOid then hash_any (sub_name sub) else sub_id sub \<rparr>"
    using assms(2-7) by (rule created_row)
  have "cat_subscription cat' = cat_subscription cat @ [r]" and chg: "sub_changed cat' = sub_changed cat @ [sub_id s]"
    using c by simp_all
  note r = this(1) n
  have ok': "node_catalog_ok cat'"
    using create_subscription_ok [OF assms(1,2)] .
  note lk = subscription_row_lookup [OF ok' _ r(4), folded r(2,3)]
  have lookups: "get_subscription (sub_id s) cat' = Inr s"
    "get_subscription_by_name (sub_name s) m cat' = Inr (Some s)" for m
    using lk r by simp_all
  have dup: "\<not> is_ok (create_subscription hash_any sub2 cat')" if "sub_name sub2 = sub_name s" for sub2
    using lookups(2) [of True] v that by (simp add: create_subscription_def)
  have "\<exists>cat2. drop_subscription (sub_id s) cat' = Inr cat2 \<and>
       cat2 = cat\<lparr> sub_changed := sub_changed cat @ [sub_id s, sub_id s] \<rparr> \<and>
       \<not> is_ok (get_subscription (sub_id s) cat2) \<and>
       get_subscription_by_name (sub_name s) True cat2 = Inr None"
    using subscription_row_drop [OF ok', of r] created_row_drop [OF ok' c r(2)] r by simp
  then show ?thesis
    using s lookups dup chg by blast
qed

theorem subscription_create_lookup_drop_witness:
  "get_subscription 21 ex_catalog1 = Inr (ex_sub\<lparr> sub_id := 21 \<rparr>) \<and>
    get_subscription_by_name ''sub1'' False ex_catalog1 = Inr (Some (ex_sub\<lparr> sub_id := 21 \<rparr>)) \<and>
    sub_changed ex_catalog1 = [21] \<and>
    \<not> is_ok (create_subscription ex_hash ex_sub ex_catalog1) \<and>
    (\<exists>cat2. drop_subscription 21 ex_catalog1 = Inr cat2 \<and> cat2 = ex_catalog\<lparr> sub_changed := [21, 21] \<rparr> \<and>
       \<not> is_ok (get_subscription 21 cat2) \<and> get_subscription_by_name ''sub1'' True cat2 = Inr None)"
proof -
  have refs: "get_node (if_nodeid (sub_origin_if ex_sub)) ex_catalog = Inr (sub_origin ex_sub)"
    "get_node (if_nodeid (sub_target_if ex_sub)) ex_catalog = Inr (sub_target ex_sub)"
    "get_node_interface (if_id (sub_origin_if ex_sub)) ex_catalog = Inr (sub_origin_if ex_sub)"
    "get_node_interface (if_id (sub_target_if ex_sub)) ex_catalog = Inr (sub_target_if ex_sub)"
    "length (sub_slot_name ex_sub) < NAMEDATALEN"
    by (simp_all add: ex_sub_def ex_if_def ex_node_def get_node_def get_node_interface_def
        ex_catalog_def)
  have "sub_name ex_sub = ''sub1''" "sub_changed ex_catalog = []"
    by (simp_all add: ex_sub_def ex_catalog_def)
  then show ?thesis
    using subscription_create_lookup_drop [OF ex_catalog_ok ex_create refs, of False] by simp
qed

text \<open>
  Altering a subscription replaces everything but its identity.  For a subscription that exists and
  has an apply delay, the alteration succeeds, the subscription read back afterwards has the stored
  name and id and every other attribute of the new value (the slot name cut to a name), every other
  subscription reads as before, and the workers are told.  Without an apply delay the code follows a NULL
  pointer.
\<close>

theorem subscription_alter:
  assumes "node_catalog_ok cat" "tup \<in> set (cat_subscription cat)" "st_id tup = sub_id sub"
    and "get_node (if_nodeid (sub_origin_if sub)) cat = Inr (sub_origin sub)"
    and "get_node (if_nodeid (sub_target_if sub)) cat = Inr (sub_target sub)"
    and "get_node_interface (if_id (sub_origin_if sub)) cat = Inr (sub_origin_if sub)"
    and "get_node_interface (if_id (sub_target_if sub)) cat = Inr (sub_target_if sub)"
  shows "(sub_apply_delay sub = None \<longrightarrow> alter_subscription sub cat = Inl NullDereference) \<and>
    (sub_apply_delay sub \<noteq> None \<longrightarrow>
      (\<exists>cat'. alter_subscription sub cat = Inr cat' \<and>
        get_subscription (sub_id sub) cat' = Inr (sub\<lparr> sub_name := st_name tup,
           sub_slot_name := namestrcpy (sub_slot_name sub) \<rparr>) \<and>
        (\<forall>i. i \<noteq> sub_id sub \<longrightarrow> get_subscription i cat' = get_subscription i cat) \<and>
        sub_changed cat' = sub_changed cat @ [sub_id sub]))"
proof -
  let ?t = "cat_subscription cat" and ?P = "\<lambda>r. st_id r = sub_id sub"
  let ?f = "\<lambda>oldtup. oldtup\<lparr> st_origin := if_nodeid (sub_origin_if sub),
       st_target := if_nodeid (sub_target_if sub), st_origin_if := if_id (sub_origin_if sub),
       st_target_if := if_id (sub_target_if sub), st_enabled := sub_enabled sub,
       st_slot_name := namestrcpy (sub_slot_name sub),
       st_replication_sets := list_or_null (sub_replication_sets sub),
       st_forward_origins := list_or_null (sub_forward_origins sub),
       st_apply_delay := sub_apply_delay sub \<rparr>"
  have found: "List.find ?P ?t = Some tup"
    using sub_by_id.lookup_in [OF _ assms(2)] assms(1,3) by (simp add: node_catalog_ok_def)
  then have upd: "List.find ?P (update_first ?P ?f ?t) = Some (?f tup)"
    by (subst find_update_first) simp_all
  have other: "List.find (\<lambda>r. st_id r = i) (update_first ?P ?f ?t) = List.find (\<lambda>r. st_id r = i) ?t"
    if "i \<noteq> sub_id sub" for i
    using that by (intro find_update_first_other) auto
  define cat' where "cat' = pglogical_subscription_changed (sub_id sub)
    (cat\<lparr> cat_subscription := update_first ?P ?f ?t \<rparr>)"
  have same: "get_node i cat' = get_node i cat" "get_node_interface i cat' = get_node_interface i cat"
    "subscription_fromtuple x cat' = subscription_fromtuple x cat" for i x
    by (intro lookup_cong; simp add: cat'_def)+
  have "subscription_fromtuple (?f tup) cat =
      Inr (sub\<lparr> sub_name := st_name tup, sub_slot_name := namestrcpy (sub_slot_name sub) \<rparr>)"
    using assms(3-7) by (subst subscription_fromtuple_resolved) (simp_all, cases sub, simp)
  then have "get_subscription (sub_id sub) cat' =
      Inr (sub\<lparr> sub_name := st_name tup, sub_slot_name := namestrcpy (sub_slot_name sub) \<rparr>)"
    using upd same(3) unfolding get_subscription_def by (simp add: cat'_def)
  moreover have "get_subscription i cat' = get_subscription i cat" if "i \<noteq> sub_id sub" for i
    using other [OF that] by (simp only: get_subscription_def same(3)) (simp add: cat'_def)
  moreover have "sub_apply_delay sub \<noteq> None \<Longrightarrow> alter_subscription sub cat = Inr cat'"
    "sub_apply_delay sub = None \<Longrightarrow> alter_subscription sub cat = Inl NullDereference"
    "sub_changed cat' = sub_changed cat @ [sub_id sub]"
    using found by (simp_all add: alter_subscription_def cat'_def)
  ultimately show ?thesis by blast
qed

theorem subscription_alter_witness:
  "\<exists>cat'. alter_subscription (ex_sub\<lparr> sub_id := 21, sub_enabled := False \<rparr>) ex_catalog1 = Inr cat' \<and>
     get_subscription 21 cat' = Inr (ex_sub\<lparr> sub_id := 21, sub_enabled := False \<rparr>) \<and>
     (\<forall>i. i \<noteq> 21 \<longrightarrow> get_subscription i cat' = get_subscription i ex_catalog1) \<and>
     sub_changed cat' = sub_changed ex_catalog1 @ [21]"
proof -
  let ?sub = "ex_sub\<lparr> sub_id := 21, sub_enabled := False \<rparr>"
  have pre: "node_catalog_ok ex_catalog1"
    "hd (cat_subscription ex_catalog1) \<in> set (cat_subscription ex_catalog1)"
    "st_id (hd (cat_subscription ex_catalog1)) = sub_id ?sub"
    "get_node (if_nodeid (sub_origin_if ?sub)) ex_catalog1 = Inr (sub_origin ?sub)"
    "get_node (if_nodeid (sub_target_if ?sub)) ex_catalog1 = Inr (sub_target ?sub)"
    "get_node_interface (if_id (sub_origin_if ?sub)) ex_catalog1 = Inr (sub_origin_if ?sub)"
    "get_node_interface (if_id (sub_target_if ?sub)) ex_catalog1 = Inr (sub_target_if ?sub)"
    by (simp_all add: node_catalog_ok_def ex_catalog1_def ex_catalog_def rows_ok_def node_conflicts_def
        ex_node_def interface_conflicts_def ex_if_def ex_valid_name ex_sub_def get_node_def
        get_node_interface_def)
  have same: "?sub\<lparr> sub_name := st_name (hd (cat_subscription ex_catalog1)),
      sub_slot_name := namestrcpy (sub_slot_name ?sub) \<rparr> = ?sub" "sub_apply_delay ?sub \<noteq> None"
    by (simp_all add: ex_sub_def ex_catalog1_def)
  show ?thesis
    using subscription_alter [OF pre] unfolding same(1) using same(2) by auto
qed

text \<open>
  A subscription name is accepted exactly when it is non-empty, shorter than \<open>NAMEDATALEN\<close> and
  made of lower-case letters, digits and underscores; otherwise the error says which rule it breaks, the
  length rules first.
\<close>

theorem subscription_name_rules:
  "(validate_subscription_name name = Inr () \<longleftrightarrow>
     name \<noteq> [] \<and> length name < 64 \<and>
     (\<forall>c \<in> set name. of_char c \<in> name_codes)) \<and>
   (validate_subscription_name name \<noteq> Inr () \<longleftrightarrow>
     (\<exists>m. validate_subscription_name name = ereport ERRCODE_NAME_TOO_LONG m \<and> length name \<ge> 64 \<or>
          validate_subscription_name name = ereport ERRCODE_INVALID_NAME m \<and>
            (name = [] \<or> length name < 64 \<and>
             \<not> (\<forall>c \<in> set name. of_char c \<in> name_codes))))"
  by (auto simp: validate_subscription_name_def list_all_iff valid_name_char_codes)

theorem subscription_name_rules_witness:
  "(validate_subscription_name ''sub1'' = Inr () \<longleftrightarrow>
     ''sub1'' \<noteq> [] \<and> length ''sub1'' < 64 \<and>
     (\<forall>c \<in> set ''sub1''. of_char c \<in> name_codes)) \<and>
   (validate_subscription_name ''sub1'' \<noteq> Inr () \<longleftrightarrow>
     (\<exists>m. validate_subscription_name ''sub1'' = ereport ERRCODE_NAME_TOO_LONG m \<and> length ''sub1'' \<ge> 64 \<or>
          validate_subscription_name ''sub1'' = ereport ERRCODE_INVALID_NAME m \<and>
            (''sub1'' = [] \<or> length ''sub1'' < 64 \<and>
             \<not> (\<forall>c \<in> set ''sub1''. of_char c \<in> name_codes))))"
  by (rule subscription_name_rules)

end
