(* ===== verification/Pgl_Repset.thy ===== *)
theory Pgl_Repset
  imports Pgl_Queue Pgl_Node
begin

text \<open>
  Replication sets: \<open>src/pglogical_repset.c\<close>, with the records of the sequence state it keeps
  (\<open>src/pglogical_sequences.c\<close>).  The state \<open>provider_db\<close> holds the catalogs, the relations of the
  database, the current values of its sequences and the relcache invalidations sent so far.

  \<open>hash_any\<close>, \<open>CreateTrigger\<close>, the conversion of expression trees to and from text and the reading of
  a column with a tuple descriptor are parameters (\<open>repset_env\<close>).  The catalog rows are read with
  the descriptor of the user's table, so what \<open>heap_getattr\<close> returns depends on that table.
\<close>

section \<open>Data\<close>

record PGLogicalRepSet =
  rs_id :: oid
  rs_nodeid :: oid
  rs_name :: string
  replicate_insert :: bool
  replicate_update :: bool
  replicate_delete :: bool
  replicate_truncate :: bool

record RepSetTableTuple =
  rt_setid :: oid
  rt_reloid :: oid
  rt_att_list :: "string list option"
  rt_row_filter :: "string option"

record RepSetSeqTuple =
  rq_setid :: oid
  rq_seqoid :: oid

record SeqStateTuple =
  ss_seqoid :: oid
  ss_cache_size :: "32 word"
  ss_last_value :: "64 word"

record 'n PGLogicalTableRepInfo =
  ti_reloid :: oid
  isvalid :: bool
  ti_insert :: bool
  ti_update :: bool
  ti_delete :: bool
  ti_att_list :: "bitmapset option"
  ti_row_filter :: "'n list"

record provider_db =
  pg_class :: "oid \<rightharpoonup> relation"
  seq_last_value :: "oid \<Rightarrow> 64 word"
  cat_repset :: "PGLogicalRepSet list"
  cat_repset_table :: "RepSetTableTuple list"
  cat_repset_seq :: "RepSetSeqTuple list"
  cat_sequence_state :: "SeqStateTuple list"
  invalidations :: "oid list"

record 'n repset_env =
  re_hash_any :: "string \<Rightarrow> oid"
  re_hash_pair :: "oid \<Rightarrow> oid \<Rightarrow> oid"
  re_CreateTrigger :: "trigger \<Rightarrow> trigger list \<Rightarrow> trigger list"
  queue_truncate_fn :: oid
  nodeToString :: "'n \<Rightarrow> string"
  stringToNode :: "string \<Rightarrow> 'n"
  getattr_att_list :: "tupledesc \<Rightarrow> RepSetTableTuple \<Rightarrow> string list option"
  getattr_row_filter :: "tupledesc \<Rightarrow> RepSetTableTuple \<Rightarrow> string option"
  repset_table_exists :: bool
  repset_relation_exists :: bool
  repset_table_oid :: oid

text \<open>The unique indexes of the catalogs.\<close>

definition repset_conflicts :: "PGLogicalRepSet \<Rightarrow> PGLogicalRepSet \<Rightarrow> bool" where
  "repset_conflicts x y \<longleftrightarrow>
     rs_id x = rs_id y \<or> (rs_nodeid x = rs_nodeid y \<and> rs_name x = rs_name y)"

definition repset_table_conflicts :: "RepSetTableTuple \<Rightarrow> RepSetTableTuple \<Rightarrow> bool" where
  "repset_table_conflicts x y \<longleftrightarrow> rt_setid x = rt_setid y \<and> rt_reloid x = rt_reloid y"

definition repset_seq_conflicts :: "RepSetSeqTuple \<Rightarrow> RepSetSeqTuple \<Rightarrow> bool" where
  "repset_seq_conflicts x y \<longleftrightarrow> rq_setid x = rq_setid y \<and> rq_seqoid x = rq_seqoid y"

definition seq_state_conflicts :: "SeqStateTuple \<Rightarrow> SeqStateTuple \<Rightarrow> bool" where
  "seq_state_conflicts x y \<longleftrightarrow> ss_seqoid x = ss_seqoid y"

section \<open>Backend calls\<close>

definition heap_open_class :: "oid \<Rightarrow> provider_db \<Rightarrow> relation result" where
  "heap_open_class oid db =
     (case pg_class db oid of None \<Rightarrow> elog ''could not open relation with OID %u'' | Some r \<Rightarrow> Inr r)"

definition CacheInvalidateRelcacheByRelid :: "oid \<Rightarrow> provider_db \<Rightarrow> provider_db result" where
  "CacheInvalidateRelcacheByRelid oid db =
     (case pg_class db oid of
        None \<Rightarrow> elog ''cache lookup failed for relation %u''
      | Some _ \<Rightarrow> Inr (db\<lparr> invalidations := invalidations db @ [oid] \<rparr>))"

text \<open>A loop over rows that may raise.\<close>

fun foreach_row :: "('r \<Rightarrow> 's \<Rightarrow> 's result) \<Rightarrow> 'r list \<Rightarrow> 's \<Rightarrow> 's result" where
  "foreach_row f [] s = Inr s"
| "foreach_row f (r # rs) s = rbind (f r s) (foreach_row f rs)"

section \<open>Sequence state records\<close>

abbreviation SEQUENCE_REPLICATION_MIN_CACHE :: int where
  "SEQUENCE_REPLICATION_MIN_CACHE \<equiv> 1000"

abbreviation SEQUENCE_REPLICATION_MAX_CACHE :: int where
  "SEQUENCE_REPLICATION_MAX_CACHE \<equiv> 1000000"

definition sequence_get_last_value :: "oid \<Rightarrow> provider_db \<Rightarrow> (64 word) result" where
  "sequence_get_last_value seqoid db =
     rbind (heap_open_class seqoid db) (\<lambda>_. Inr (seq_last_value db seqoid))"

definition pglogical_create_sequence_state_record :: "oid \<Rightarrow> provider_db \<Rightarrow> provider_db result" where
  "pglogical_create_sequence_state_record seqoid db =
     (if List.find (\<lambda>r. ss_seqoid r = seqoid) (cat_sequence_state db) = None
      then rbind (sequence_get_last_value seqoid db) (\<lambda>v.
           rbind (catalog_insert seq_state_conflicts
                    \<lparr> ss_seqoid = seqoid,
                      ss_cache_size = word_of_int SEQUENCE_REPLICATION_MIN_CACHE,
                      ss_last_value = v \<rparr> (cat_sequence_state db)) (\<lambda>t.
           Inr (db\<lparr> cat_sequence_state := t \<rparr>)))
      else Inr db)"

definition pglogical_drop_sequence_state_record :: "oid \<Rightarrow> provider_db \<Rightarrow> provider_db" where
  "pglogical_drop_sequence_state_record seqoid db =
     db\<lparr> cat_sequence_state := delete_first (\<lambda>r. ss_seqoid r = seqoid) (cat_sequence_state db) \<rparr>"

section \<open>Reading the sets\<close>

definition replication_set_from_tuple :: "PGLogicalRepSet \<Rightarrow> PGLogicalRepSet" where
  "replication_set_from_tuple t =
     \<lparr> rs_id = rs_id t, rs_nodeid = rs_nodeid t, rs_name = rs_name t,
       replicate_insert = replicate_insert t, replicate_update = replicate_update t,
       replicate_delete = replicate_delete t, replicate_truncate = replicate_truncate t \<rparr>"

definition get_replication_set :: "oid \<Rightarrow> provider_db \<Rightarrow> PGLogicalRepSet result" where
  "get_replication_set setid db =
     (case List.find (\<lambda>r. rs_id r = setid) (cat_repset db) of
        None \<Rightarrow> elog ''replication set %d not found''
      | Some t \<Rightarrow> Inr (replication_set_from_tuple t))"

definition get_replication_set_by_name ::
  "oid \<Rightarrow> string \<Rightarrow> bool \<Rightarrow> provider_db \<Rightarrow> PGLogicalRepSet option result" where
  "get_replication_set_by_name nodeid setname missing_ok db =
     (case List.find (\<lambda>r. rs_nodeid r = nodeid \<and> nameeq (rs_name r) setname) (cat_repset db) of
        None \<Rightarrow> if missing_ok then Inr None else elog ''replication set %s not found''
      | Some t \<Rightarrow> Inr (Some (replication_set_from_tuple t)))"

definition get_node_replication_sets :: "oid \<Rightarrow> provider_db \<Rightarrow> PGLogicalRepSet list result" where
  "get_node_replication_sets nodeid db =
     rmap (\<lambda>t. get_replication_set (rs_id t) db)
       (filter (\<lambda>t. rs_nodeid t = nodeid) (cat_repset db))"

fun get_replication_sets ::
  "oid \<Rightarrow> string list \<Rightarrow> bool \<Rightarrow> provider_db \<Rightarrow> PGLogicalRepSet list result" where
  "get_replication_sets nodeid [] missing_ok db = Inr []"
| "get_replication_sets nodeid (setname # names) missing_ok db =
     (case List.find (\<lambda>r. rs_nodeid r = nodeid \<and> nameeq (rs_name r) setname) (cat_repset db) of
        None \<Rightarrow> if missing_ok then get_replication_sets nodeid names missing_ok db
                else ereport ERRCODE_INVALID_PARAMETER_VALUE ''replication set %s not found''
      | Some t \<Rightarrow> rbind (get_replication_sets nodeid names missing_ok db) (\<lambda>sets.
                 Inr (replication_set_from_tuple t # sets)))"

definition get_table_replication_sets ::
  "'n repset_env \<Rightarrow> oid \<Rightarrow> oid \<Rightarrow> provider_db \<Rightarrow> PGLogicalRepSet list result" where
  "get_table_replication_sets E nodeid rid db =
     (if \<not> repset_table_exists E \<and> \<not> repset_relation_exists E
      then ereport ERRCODE_UNDEFINED_TABLE ''relation \"%s.%s\" does not exist''
      else rbind (rmap (\<lambda>t. get_replication_set (rt_setid t) db)
             (filter (\<lambda>t. rt_reloid t = rid) (cat_repset_table db))) (\<lambda>sets.
           Inr (filter (\<lambda>s. rs_nodeid s = nodeid) sets)))"

definition sequence_has_replication_sets :: "oid \<Rightarrow> oid \<Rightarrow> provider_db \<Rightarrow> bool" where
  "sequence_has_replication_sets nodeid seqoid db =
     list_ex (\<lambda>t. rq_seqoid t = seqoid) (cat_repset_seq db)"

definition get_seq_replication_sets :: "oid \<Rightarrow> oid \<Rightarrow> provider_db \<Rightarrow> PGLogicalRepSet list result" where
  "get_seq_replication_sets nodeid seqoid db =
     rbind (rmap (\<lambda>t. get_replication_set (rq_setid t) db)
       (filter (\<lambda>t. rq_seqoid t = seqoid) (cat_repset_seq db))) (\<lambda>sets.
     Inr (filter (\<lambda>s. rs_nodeid s = nodeid) sets))"

definition replication_set_get_tables :: "oid \<Rightarrow> provider_db \<Rightarrow> oid list" where
  "replication_set_get_tables setid db =
     map rt_reloid (filter (\<lambda>t. rt_setid t = setid) (cat_repset_table db))"

definition replication_set_get_seqs :: "oid \<Rightarrow> provider_db \<Rightarrow> oid list" where
  "replication_set_get_seqs setid db =
     map rq_seqoid (filter (\<lambda>t. rq_setid t = setid) (cat_repset_seq db))"

section \<open>Creating, altering and dropping sets\<close>

definition create_replication_set ::
  "'n repset_env \<Rightarrow> PGLogicalRepSet \<Rightarrow> provider_db \<Rightarrow> (PGLogicalRepSet \<times> provider_db) result" where
  "create_replication_set E repset db =
     (if length (rs_name repset) = 0
      then ereport ERRCODE_INVALID_NAME ''replication set name cannot be empty''
      else rbind (get_replication_set_by_name (rs_nodeid repset) (rs_name repset) True db) (\<lambda>existing.
        if existing \<noteq> None then elog ''replication set %s already exists''
        else let repset = (if rs_id repset = InvalidOid
               then repset\<lparr> rs_id := re_hash_pair E (rs_nodeid repset) (re_hash_any E (rs_name repset)) \<rparr>
               else repset)
             in rbind (catalog_insert repset_conflicts
                         (repset\<lparr> rs_name := namestrcpy (rs_name repset) \<rparr>) (cat_repset db)) (\<lambda>t.
                Inr (repset, db\<lparr> cat_repset := t \<rparr>))))"

definition alter_check_table :: "PGLogicalRepSet \<Rightarrow> provider_db \<Rightarrow> RepSetTableTuple \<Rightarrow> unit result" where
  "alter_check_table repset db t =
     rbind (heap_open_class (rt_reloid t) db) (\<lambda>targetrel.
     if relkind targetrel = RELKIND_RELATION \<and> \<not> OidIsValid (replidindex targetrel) \<and>
        (replicate_update repset \<or> replicate_delete repset)
     then ereport ERRCODE_INVALID_PARAMETER_VALUE
       ''replication set %s cannot be altered to replicate UPDATEs or DELETEs because it contains tables without PRIMARY KEY''
     else Inr ())"

definition alter_replication_set :: "PGLogicalRepSet \<Rightarrow> provider_db \<Rightarrow> provider_db result" where
  "alter_replication_set repset db =
     (if List.find (\<lambda>r. rs_id r = rs_id repset) (cat_repset db) = None
      then elog ''replication set %u not found''
      else rbind (if replicate_update repset \<or> replicate_delete repset
                  then rmap (alter_check_table repset db)
                         (filter (\<lambda>t. rt_setid t = rs_id repset) (cat_repset_table db))
                  else Inr []) (\<lambda>_.
           Inr (db\<lparr> cat_repset := update_first (\<lambda>r. rs_id r = rs_id repset) (\<lambda>oldtup.
              oldtup\<lparr> replicate_insert := replicate_insert repset,
                      replicate_update := replicate_update repset,
                      replicate_delete := replicate_delete repset,
                      replicate_truncate := replicate_truncate repset \<rparr>) (cat_repset db) \<rparr>)))"

text \<open>The scans see the rows that were there when they began.\<close>

definition replication_set_remove_tables :: "oid \<Rightarrow> oid \<Rightarrow> provider_db \<Rightarrow> provider_db result" where
  "replication_set_remove_tables setid nodeid db =
     foreach_row (\<lambda>t db.
         CacheInvalidateRelcacheByRelid (rt_reloid t)
           (db\<lparr> cat_repset_table := delete_first (\<lambda>x. x = t) (cat_repset_table db) \<rparr>))
       (filter (\<lambda>t. rt_setid t = setid) (cat_repset_table db)) db"

definition replication_set_remove_seqs :: "oid \<Rightarrow> oid \<Rightarrow> provider_db \<Rightarrow> provider_db result" where
  "replication_set_remove_seqs setid nodeid db =
     foreach_row (\<lambda>t db.
         let db = db\<lparr> cat_repset_seq := delete_first (\<lambda>x. x = t) (cat_repset_seq db) \<rparr>;
             db = (if \<not> sequence_has_replication_sets nodeid (rq_seqoid t) db
                   then pglogical_drop_sequence_state_record (rq_seqoid t) db else db)
         in CacheInvalidateRelcacheByRelid (rq_seqoid t) db)
       (filter (\<lambda>t. rq_setid t = setid) (cat_repset_seq db)) db"

definition drop_replication_set :: "'n repset_env \<Rightarrow> oid \<Rightarrow> provider_db \<Rightarrow> provider_db result" where
  "drop_replication_set E setid db =
     (case List.find (\<lambda>r. rs_id r = setid) (cat_repset db) of
        None \<Rightarrow> elog ''replication set %u not found''
      | Some repset \<Rightarrow>
          rbind (replication_set_remove_tables setid (rs_nodeid repset) db) (\<lambda>db.
          rbind (replication_set_remove_seqs setid (rs_nodeid repset) db) (\<lambda>db.
          Inr (db\<lparr> cat_repset := delete_first (\<lambda>x. x = repset) (cat_repset db),
                   invalidations := invalidations db @ [repset_table_oid E] \<rparr>))))"

definition drop_node_replication_sets :: "'n repset_env \<Rightarrow> oid \<Rightarrow> provider_db \<Rightarrow> provider_db result" where
  "drop_node_replication_sets E nodeid db =
     rbind (foreach_row (\<lambda>repset db.
          rbind (replication_set_remove_tables (rs_id repset) (rs_nodeid repset) db) (\<lambda>db.
          rbind (replication_set_remove_seqs (rs_id repset) (rs_nodeid repset) db) (\<lambda>db.
          Inr (db\<lparr> cat_repset := delete_first (\<lambda>x. x = repset) (cat_repset db) \<rparr>))))
       (filter (\<lambda>r. rs_nodeid r = nodeid) (cat_repset db)) db) (\<lambda>db.
     Inr (db\<lparr> invalidations := invalidations db @ [repset_table_oid E] \<rparr>))"

section \<open>Membership\<close>

definition replication_set_add_table ::
  "'n repset_env \<Rightarrow> oid \<Rightarrow> oid \<Rightarrow> string list \<Rightarrow> 'n option \<Rightarrow> provider_db \<Rightarrow> provider_db result" where
  "replication_set_add_table E setid rid att_list row_filter db =
     rbind (get_replication_set setid db) (\<lambda>repset.
     rbind (heap_open_class rid db) (\<lambda>targetrel.
     if \<not> needs_wal targetrel
     then ereport ERRCODE_INVALID_PARAMETER_VALUE ''UNLOGGED and TEMP tables cannot be replicated''
     else if \<not> OidIsValid (replidindex targetrel) \<and> (replicate_update repset \<or> replicate_delete repset)
     then ereport ERRCODE_INVALID_PARAMETER_VALUE ''table %s cannot be added to replication set %s''
     else let db = db\<lparr> pg_class := (pg_class db)(rid \<mapsto>
                create_truncate_trigger (re_CreateTrigger E) (queue_truncate_fn E) targetrel) \<rparr>
          in rbind (catalog_insert repset_table_conflicts
                 \<lparr> rt_setid = rs_id repset, rt_reloid = rid, rt_att_list = list_or_null att_list,
                   rt_row_filter = map_option (nodeToString E) row_filter \<rparr>
                 (cat_repset_table db)) (\<lambda>t.
             CacheInvalidateRelcacheByRelid rid (db\<lparr> cat_repset_table := t \<rparr>))))"

definition replication_set_add_seq :: "oid \<Rightarrow> oid \<Rightarrow> provider_db \<Rightarrow> provider_db result" where
  "replication_set_add_seq setid seqoid db =
     rbind (get_replication_set setid db) (\<lambda>repset.
     rbind (heap_open_class seqoid db) (\<lambda>targetrel.
     if \<not> needs_wal targetrel
     then ereport ERRCODE_INVALID_PARAMETER_VALUE ''UNLOGGED and TEMP sequwnces cannot be replicated''
     else rbind (pglogical_create_sequence_state_record seqoid db) (\<lambda>db.
          rbind (catalog_insert repset_seq_conflicts \<lparr> rq_setid = rs_id repset, rq_seqoid = seqoid \<rparr>
                   (cat_repset_seq db)) (\<lambda>t.
          CacheInvalidateRelcacheByRelid seqoid (db\<lparr> cat_repset_seq := t \<rparr>)))))"

definition replication_set_remove_table :: "oid \<Rightarrow> oid \<Rightarrow> bool \<Rightarrow> provider_db \<Rightarrow> provider_db result" where
  "replication_set_remove_table setid rid from_drop db =
     (let P = (\<lambda>t. rt_setid t = setid \<and> rt_reloid t = rid)
      in if List.find P (cat_repset_table db) = None \<and> \<not> from_drop
         then elog ''replication set table mapping %d:%d not found''
         else let db = db\<lparr> cat_repset_table := delete_first P (cat_repset_table db) \<rparr>
              in if \<not> from_drop then CacheInvalidateRelcacheByRelid rid db else Inr db)"

definition replication_set_remove_seq :: "oid \<Rightarrow> oid \<Rightarrow> bool \<Rightarrow> provider_db \<Rightarrow> provider_db result" where
  "replication_set_remove_seq setid seqoid from_drop db =
     rbind (get_replication_set setid db) (\<lambda>repset.
     let P = (\<lambda>t. rq_setid t = setid \<and> rq_seqoid t = seqoid)
     in if List.find P (cat_repset_seq db) = None \<and> \<not> from_drop
        then elog ''replication set sequence mapping %d:%d not found''
        else let db = db\<lparr> cat_repset_seq := delete_first P (cat_repset_seq db) \<rparr>
             in rbind (if \<not> from_drop then CacheInvalidateRelcacheByRelid seqoid db else Inr db) (\<lambda>db.
                Inr (if from_drop \<or> \<not> sequence_has_replication_sets (rs_nodeid repset) seqoid db
                     then pglogical_drop_sequence_state_record seqoid db else db)))"

section \<open>The cache of the tables' replication info\<close>

fun get_att_num_by_name :: "tupledesc \<Rightarrow> string \<Rightarrow> int" where
  "get_att_num_by_name [] name = FirstLowInvalidHeapAttributeNumber"
| "get_att_num_by_name (att # atts) name =
     (if attisdropped att then get_att_num_by_name atts name
      else if nameeq (attname att) name then attnum att
      else get_att_num_by_name atts name)"

text \<open>
  \<open>RepSetTableHash\<close>: NULL until it is first needed, then a \<open>dynahash\<close> table that compares keys as its
  key function sees them.
\<close>

type_synonym ('k, 'n) repset_hash = "('k \<rightharpoonup> 'n PGLogicalTableRepInfo) option"

definition clear_entry :: "'n PGLogicalTableRepInfo \<Rightarrow> 'n PGLogicalTableRepInfo" where
  "clear_entry entry = entry\<lparr> isvalid := False, ti_att_list := None, ti_row_filter := [] \<rparr>"

definition repset_relcache_invalidate_callback ::
  "(oid \<Rightarrow> 'k) \<Rightarrow> oid \<Rightarrow> ('k, 'n) repset_hash \<Rightarrow> ('k, 'n) repset_hash" where
  "repset_relcache_invalidate_callback keyof rid hash =
     (case hash of
        None \<Rightarrow> None
      | Some h \<Rightarrow>
          if rid = InvalidOid then Some (\<lambda>k. map_option clear_entry (h k))
          else (case h (keyof rid) of
                  None \<Rightarrow> Some h | Some entry \<Rightarrow> Some (h(keyof rid \<mapsto> clear_entry entry))))"

text \<open>One row of the table that belongs to one of the sets: what it adds to the entry.\<close>

definition add_names :: "tupledesc \<Rightarrow> string list \<Rightarrow> bitmapset option \<Rightarrow> bitmapset option" where
  "add_names desc names bms =
     fold (\<lambda>name b. Some (insert (get_att_num_by_name desc name - FirstLowInvalidHeapAttributeNumber)
             (case b of None \<Rightarrow> {} | Some s \<Rightarrow> s))) names bms"

definition merge_set ::
  "'n repset_env \<Rightarrow> tupledesc \<Rightarrow> RepSetTableTuple \<Rightarrow> PGLogicalRepSet
     \<Rightarrow> 'n PGLogicalTableRepInfo \<Rightarrow> 'n PGLogicalTableRepInfo" where
  "merge_set E desc t repset entry =
     (if rt_setid t \<noteq> rs_id repset then entry
      else entry\<lparr> ti_insert := ti_insert entry \<or> replicate_insert repset,
                  ti_update := ti_update entry \<or> replicate_update repset,
                  ti_delete := ti_delete entry \<or> replicate_delete repset,
                  ti_att_list := (case getattr_att_list E desc t of
                      None \<Rightarrow> ti_att_list entry
                    | Some names \<Rightarrow> add_names desc names (ti_att_list entry)),
                  ti_row_filter := (case getattr_row_filter E desc t of
                      None \<Rightarrow> ti_row_filter entry
                    | Some s \<Rightarrow> ti_row_filter entry @ [stringToNode E s]) \<rparr>)"

definition fill_entry ::
  "'n repset_env \<Rightarrow> relation \<Rightarrow> PGLogicalRepSet list \<Rightarrow> provider_db \<Rightarrow> 'n PGLogicalTableRepInfo" where
  "fill_entry E table sets db =
     (fold (\<lambda>t entry. fold (merge_set E (rd_att table) t) sets entry)
        (filter (\<lambda>t. rt_reloid t = rd_id table) (cat_repset_table db))
        \<lparr> ti_reloid = rd_id table, isvalid = False, ti_insert = False, ti_update = False,
          ti_delete = False, ti_att_list = None, ti_row_filter = [] \<rparr>)\<lparr> isvalid := True \<rparr>"

definition get_table_replication_info ::
  "'n repset_env \<Rightarrow> (oid \<Rightarrow> 'k) \<Rightarrow> relation \<Rightarrow> PGLogicalRepSet list \<Rightarrow> provider_db
     \<Rightarrow> ('k, 'n) repset_hash \<Rightarrow> ('n PGLogicalTableRepInfo \<times> ('k, 'n) repset_hash) result" where
  "get_table_replication_info E keyof table subs_replication_sets db hash =
     (let h = (case hash of None \<Rightarrow> Map.empty | Some h \<Rightarrow> h);
          fill = (if \<not> repset_table_exists E \<and> \<not> repset_relation_exists E
                  then ereport ERRCODE_UNDEFINED_TABLE ''relation \"%s.%s\" does not exist''
                  else let entry = fill_entry E table subs_replication_sets db
                       in Inr (entry, Some (h(keyof (rd_id table) \<mapsto> entry))))
      in case h (keyof (rd_id table)) of
           Some entry \<Rightarrow> if isvalid entry then Inr (entry, Some h) else fill
         | None \<Rightarrow> fill)"

text \<open>\<open>quote_identifier\<close> is PostgreSQL's.\<close>

definition stringlist_to_identifierstr :: "(string \<Rightarrow> string) \<Rightarrow> string list \<Rightarrow> string" where
  "stringlist_to_identifierstr quote_identifier strings =
     concat (case map quote_identifier strings of
               [] \<Rightarrow> [] | s # ss \<Rightarrow> s # concat (map (\<lambda>x. ['','', x]) ss))"

section \<open>Consistency of the catalogs\<close>

text \<open>
  The unique indexes hold; every member belongs to a set that exists; the stored names are names; a
  table in a set that replicates UPDATEs or DELETEs has a replica identity index; the sequences with a state
  record are those that are in some set, and their cache size is within its bounds.
\<close>

definition identity_ok :: "provider_db \<Rightarrow> RepSetTableTuple \<Rightarrow> PGLogicalRepSet \<Rightarrow> bool" where
  "identity_ok db t s \<longleftrightarrow> (rs_id s = rt_setid t \<and> (replicate_update s \<or> replicate_delete s) \<longrightarrow>
     (\<forall>r. pg_class db (rt_reloid t) = Some r \<and> relkind r = RELKIND_RELATION \<longrightarrow>
        OidIsValid (replidindex r)))"

definition cache_size_ok :: "SeqStateTuple \<Rightarrow> bool" where
  "cache_size_ok s \<longleftrightarrow> SEQUENCE_REPLICATION_MIN_CACHE \<le> sint (ss_cache_size s) \<and>
     sint (ss_cache_size s) \<le> SEQUENCE_REPLICATION_MAX_CACHE"

definition repset_catalog_ok :: "provider_db \<Rightarrow> bool" where
  "repset_catalog_ok db \<longleftrightarrow>
     rows_ok repset_conflicts (cat_repset db) \<and>
     rows_ok repset_table_conflicts (cat_repset_table db) \<and>
     rows_ok repset_seq_conflicts (cat_repset_seq db) \<and>
     rows_ok seq_state_conflicts (cat_sequence_state db) \<and>
     (\<forall>s \<in> set (cat_repset db). rs_name s \<noteq> [] \<and> length (rs_name s) < NAMEDATALEN) \<and>
     rt_setid ` set (cat_repset_table db) \<subseteq> rs_id ` set (cat_repset db) \<and>
     rq_setid ` set (cat_repset_seq db) \<subseteq> rs_id ` set (cat_repset db) \<and>
     (\<forall>t \<in> set (cat_repset_table db). \<forall>s \<in> set (cat_repset db). identity_ok db t s) \<and>
     ss_seqoid ` set (cat_sequence_state db) = rq_seqoid ` set (cat_repset_seq db) \<and>
     (\<forall>s \<in> set (cat_sequence_state db). cache_size_ok s)"

text \<open>What is left when a set is dropped.\<close>

definition without_set :: "PGLogicalRepSet \<Rightarrow> provider_db \<Rightarrow> provider_db" where
  "without_set s db =
     db\<lparr> cat_repset := filter (\<lambda>r. rs_id r \<noteq> rs_id s) (cat_repset db),
         cat_repset_table := filter (\<lambda>t. rt_setid t \<noteq> rs_id s) (cat_repset_table db),
         cat_repset_seq := filter (\<lambda>t. rq_setid t \<noteq> rs_id s) (cat_repset_seq db),
         cat_sequence_state := filter (\<lambda>x. ss_seqoid x \<in>
             rq_seqoid ` {t \<in> set (cat_repset_seq db). rq_setid t \<noteq> rs_id s}) (cat_sequence_state db) \<rparr>"

inductive repset_step :: "'n repset_env \<Rightarrow> provider_db \<Rightarrow> provider_db \<Rightarrow> bool" for E where
  create: "create_replication_set E repset db = Inr (s, db') \<Longrightarrow> repset_step E db db'"
| alter: "alter_replication_set repset db = Inr db' \<Longrightarrow> repset_step E db db'"
| drop: "drop_replication_set E setid db = Inr db' \<Longrightarrow> repset_step E db db'"
| drop_node: "drop_node_replication_sets E nodeid db = Inr db' \<Longrightarrow> repset_step E db db'"
| add_table: "replication_set_add_table E setid rid atts flt db = Inr db' \<Longrightarrow> repset_step E db db'"
| add_seq: "replication_set_add_seq setid seqoid db = Inr db' \<Longrightarrow> repset_step E db db'"
| remove_table: "replication_set_remove_table setid rid False db = Inr db' \<Longrightarrow> repset_step E db db'"
| remove_seq: "replication_set_remove_seq setid seqoid False db = Inr db' \<Longrightarrow> repset_step E db db'"

text \<open>
  A walsender's view: the catalogs change, the invalidations they send reach its callback, and it looks
  tables up for the list of sets \<open>sets\<close> it resolved when it started.  \<open>user_ddl\<close> is the creation, change or removal of the
  table with one oid, which sends its invalidation.
\<close>

inductive info_step :: "'n repset_env \<Rightarrow> (oid \<Rightarrow> 'k) \<Rightarrow> PGLogicalRepSet list \<Rightarrow>
    provider_db \<times> ('k, 'n) repset_hash \<Rightarrow> provider_db \<times> ('k, 'n) repset_hash \<Rightarrow> bool"
  for E keyof sets where
  change: "repset_step E db db' \<Longrightarrow> invalidations db' = invalidations db @ new \<Longrightarrow>
     info_step E keyof sets (db, hash) (db', fold (repset_relcache_invalidate_callback keyof) new hash)"
| user_ddl: "(\<And>r. x = Some r \<Longrightarrow> rd_id r = rid) \<Longrightarrow> rid \<noteq> InvalidOid \<Longrightarrow>
     info_step E keyof sets (db, hash)
       (db\<lparr> pg_class := (pg_class db)(rid := x) \<rparr>, repset_relcache_invalidate_callback keyof rid hash)"
| reset: "info_step E keyof sets (db, hash) (db, repset_relcache_invalidate_callback keyof InvalidOid hash)"
| lookup: "pg_class db (rd_id table) = Some table \<Longrightarrow>
     get_table_replication_info E keyof table sets db hash = Inr (entry, hash') \<Longrightarrow>
     info_step E keyof sets (db, hash) (db, hash')"

definition info_ok ::
  "'n repset_env \<Rightarrow> (oid \<Rightarrow> 'k) \<Rightarrow> PGLogicalRepSet list \<Rightarrow> provider_db \<Rightarrow> ('k, 'n) repset_hash \<Rightarrow> bool" where
  "info_ok E keyof sets db hash \<longleftrightarrow>
     (\<forall>rid r. pg_class db rid = Some r \<longrightarrow> rd_id r = rid \<and> rid \<noteq> InvalidOid) \<and>
     (\<forall>h k entry. hash = Some h \<and> h k = Some entry \<and> isvalid entry \<longrightarrow>
        (\<exists>table. pg_class db (rd_id table) = Some table \<and> k = keyof (rd_id table) \<and>
           entry = fill_entry E table sets db))"

text \<open>
  What the entry of a table should say.  \<open>subscribed\<close> are the pairs of a membership row of the table and
  a set of the subscription it belongs to; \<open>listed_columns\<close> are the bitmap members of the columns those
  rows list.  The column list and the filter of a row are what \<open>heap_getattr\<close> returns for it with the descriptor of the user's
  table, which the code passes.
\<close>

definition subscribed ::
  "relation \<Rightarrow> PGLogicalRepSet list \<Rightarrow> provider_db \<Rightarrow> (RepSetTableTuple \<times> PGLogicalRepSet) set" where
  "subscribed table sets db =
     {(t, s). t \<in> set (cat_repset_table db) \<and> s \<in> set sets \<and> rt_reloid t = rd_id table \<and>
              rt_setid t = rs_id s}"

definition listed_columns ::
  "'n repset_env \<Rightarrow> relation \<Rightarrow> (RepSetTableTuple \<times> PGLogicalRepSet) set \<Rightarrow> bitmapset" where
  "listed_columns E table ps =
     {get_att_num_by_name (rd_att table) name - FirstLowInvalidHeapAttributeNumber | name t s names.
        (t, s) \<in> ps \<and> getattr_att_list E (rd_att table) t = Some names \<and> name \<in> set names}"

definition info_spec ::
  "'n repset_env \<Rightarrow> relation \<Rightarrow> (RepSetTableTuple \<times> PGLogicalRepSet) set
     \<Rightarrow> 'n PGLogicalTableRepInfo \<Rightarrow> bool" where
  "info_spec E table ps entry \<longleftrightarrow>
     ti_reloid entry = rd_id table \<and> isvalid entry \<and>
     (ti_insert entry \<longleftrightarrow> (\<exists>(t, s) \<in> ps. replicate_insert s)) \<and>
     (ti_update entry \<longleftrightarrow> (\<exists>(t, s) \<in> ps. replicate_update s)) \<and>
     (ti_delete entry \<longleftrightarrow> (\<exists>(t, s) \<in> ps. replicate_delete s)) \<and>
     ti_att_list entry =
       (if listed_columns E table ps = {} then None else Some (listed_columns E table ps)) \<and>
     set (ti_row_filter entry) =
       {stringToNode E f | f t s. (t, s) \<in> ps \<and> getattr_row_filter E (rd_att table) t = Some f}"

text \<open>No other table of the database has an oid that the hash takes for this one's.\<close>

definition own_key :: "(oid \<Rightarrow> 'k) \<Rightarrow> oid \<Rightarrow> provider_db \<Rightarrow> bool" where
  "own_key keyof rid db \<longleftrightarrow> (\<forall>i \<in> dom (pg_class db). keyof i = keyof rid \<longrightarrow> i = rid)"

text \<open>The relations that may have changed are among those that were invalidated.\<close>

definition touched :: "provider_db \<Rightarrow> provider_db \<Rightarrow> bool" where
  "touched db db' \<longleftrightarrow> (\<exists>new. invalidations db' = invalidations db @ new \<and>
     (\<forall>i. (pg_class db i = None \<longleftrightarrow> pg_class db' i = None) \<and>
        (\<forall>r'. pg_class db' i = Some r' \<longrightarrow> (\<exists>r. pg_class db i = Some r \<and> rd_id r' = rd_id r)) \<and>
        (i \<notin> set new \<longrightarrow> pg_class db' i = pg_class db i \<and>
           filter (\<lambda>t. rt_reloid t = i) (cat_repset_table db') =
           filter (\<lambda>t. rt_reloid t = i) (cat_repset_table db))))"

section \<open>An example\<close>

definition ex_renv :: "string repset_env" where
  "ex_renv = \<lparr> re_hash_any = ex_hash, re_hash_pair = (\<lambda>a b. a + b), re_CreateTrigger = (\<lambda>t ts. ts @ [t]),
     queue_truncate_fn = 99, nodeToString = id, stringToNode = id,
     getattr_att_list = (\<lambda>desc. rt_att_list), getattr_row_filter = (\<lambda>desc. rt_row_filter),
     repset_table_exists = True, repset_relation_exists = False, repset_table_oid = 16300 \<rparr>"

definition ex_att :: "string \<Rightarrow> int \<Rightarrow> form_pg_attribute" where
  "ex_att name num = \<lparr> attname = name, atttypid = 25, attlen = -1, attnum = num, atttypmod = -1,
     attbyval = False, attisdropped = False \<rparr>"

definition ex_rtable :: relation where
  "ex_rtable = \<lparr> rd_id = 16400, relnamespace = 2200, relname = ''t'', relkind = RELKIND_RELATION,
     rd_att = [ex_att ''id'' 1, ex_att ''v'' 2], idkey_attrs = {9}, replidindex = 16410, rd_trigs = [],
     needs_wal = True \<rparr>"

definition ex_default :: PGLogicalRepSet where
  "ex_default = \<lparr> rs_id = 1, rs_nodeid = 7, rs_name = ''default'', replicate_insert = True,
     replicate_update = True, replicate_delete = True, replicate_truncate = True \<rparr>"

definition ex_pdb :: provider_db where
  "ex_pdb = \<lparr> pg_class = [16400 \<mapsto> ex_rtable], seq_last_value = (\<lambda>_. 1),
     cat_repset = [ex_default], cat_repset_table = [], cat_repset_seq = [], cat_sequence_state = [],
     invalidations = [] \<rparr>"

definition ex_pdb1 :: provider_db where
  "ex_pdb1 = ex_pdb\<lparr> pg_class := [16400 \<mapsto> ex_rtable\<lparr> rd_trigs := [truncate_trigger 99] \<rparr>],
     cat_repset_table := [\<lparr> rt_setid = 1, rt_reloid = 16400, rt_att_list = Some [''id''],
                           rt_row_filter = Some ''id > 5'' \<rparr>],
     invalidations := [16400] \<rparr>"

section \<open>Lemmas\<close>

interpretation set_by_id: unique_table repset_conflicts rs_id
  by unfold_locales (simp add: repset_conflicts_def)

interpretation set_by_name: unique_table repset_conflicts "\<lambda>r. (rs_nodeid r, rs_name r)"
  by unfold_locales (simp add: repset_conflicts_def)

interpretation member_table: unique_table repset_table_conflicts "\<lambda>t. (rt_setid t, rt_reloid t)"
  by unfold_locales (simp add: repset_table_conflicts_def)

interpretation member_seq: unique_table repset_seq_conflicts "\<lambda>t. (rq_setid t, rq_seqoid t)"
  by unfold_locales (simp add: repset_seq_conflicts_def)

interpretation seq_state: unique_table seq_state_conflicts ss_seqoid
  by unfold_locales (simp add: seq_state_conflicts_def)

lemma from_tuple_id [simp]: "replication_set_from_tuple t = t"
  by (simp add: replication_set_from_tuple_def)

lemma invalidate_Inr [result_simps]:
  "CacheInvalidateRelcacheByRelid i db = Inr db' \<longleftrightarrow>
   pg_class db i \<noteq> None \<and> db' = db\<lparr> invalidations := invalidations db @ [i] \<rparr>"
  by (auto simp: CacheInvalidateRelcacheByRelid_def split: option.splits)

lemma heap_open_Inr [result_simps]: "heap_open_class i db = Inr r \<longleftrightarrow> pg_class db i = Some r"
  by (simp add: heap_open_class_def split: option.splits)

lemma get_set_Inr [result_simps]:
  "get_replication_set i db = Inr s \<longleftrightarrow> List.find (\<lambda>r. rs_id r = i) (cat_repset db) = Some s"
  by (simp add: get_replication_set_def split: option.splits)

lemma seq_has_iff:
  "sequence_has_replication_sets n q db \<longleftrightarrow> q \<in> rq_seqoid ` set (cat_repset_seq db)"
  by (simp add: sequence_has_replication_sets_def list_ex_iff image_iff Bex_def eq_commute)

lemma delete_row: "distinct xs \<Longrightarrow> delete_first (\<lambda>x. x = t) xs = filter (\<lambda>x. x \<noteq> t) xs"
  by (induction xs) (auto intro!: filter_True [symmetric])

lemma rows_ok_distinct:
  "rows_ok c t \<Longrightarrow> (\<And>x. c x x) \<Longrightarrow> distinct t"
  by (auto simp: rows_ok_def distinct_conv_nth sorted_wrt_iff_nth_less) (metis linorder_neqE_nat)

lemma rows_ok_filter [intro]: "rows_ok c t \<Longrightarrow> rows_ok c (filter P t)"
  unfolding rows_ok_def by (rule sorted_wrt_filter)

lemma remove_tables_loop:
  assumes "foreach_row (\<lambda>t db. CacheInvalidateRelcacheByRelid (rt_reloid t)
       (db\<lparr> cat_repset_table := delete_first (\<lambda>x. x = t) (cat_repset_table db) \<rparr>)) rs db = Inr db'"
    and "distinct (cat_repset_table db)"
  shows "db' = db\<lparr> cat_repset_table := filter (\<lambda>x. x \<notin> set rs) (cat_repset_table db),
                    invalidations := invalidations db @ map rt_reloid rs \<rparr>"
  using assms
proof (induction rs arbitrary: db)
  case (Cons t rs)
  let ?d = "db\<lparr> cat_repset_table := filter (\<lambda>x. x \<noteq> t) (cat_repset_table db),
               invalidations := invalidations db @ [rt_reloid t] \<rparr>"
  have "foreach_row (\<lambda>t db. CacheInvalidateRelcacheByRelid (rt_reloid t)
       (db\<lparr> cat_repset_table := delete_first (\<lambda>x. x = t) (cat_repset_table db) \<rparr>)) rs ?d = Inr db'"
    using Cons.prems by (auto simp: rbind_eq_Inr invalidate_Inr delete_row)
  from Cons.IH [OF this] Cons.prems(2) show ?case
    by (simp add: conj_commute)
qed simp

text \<open>The state records that stay when the mappings \<open>rs\<close> are removed.\<close>

lemma remove_seqs_loop:
  assumes "foreach_row (\<lambda>t db.
         let db = db\<lparr> cat_repset_seq := delete_first (\<lambda>x. x = t) (cat_repset_seq db) \<rparr>;
             db = (if \<not> sequence_has_replication_sets nodeid (rq_seqoid t) db
                   then pglogical_drop_sequence_state_record (rq_seqoid t) db else db)
         in CacheInvalidateRelcacheByRelid (rq_seqoid t) db) rs db = Inr db'"
    and "distinct (cat_repset_seq db)" "rows_ok seq_state_conflicts (cat_sequence_state db)"
  shows "db' = db\<lparr> cat_repset_seq := filter (\<lambda>x. x \<notin> set rs) (cat_repset_seq db),
      cat_sequence_state := filter (\<lambda>s. ss_seqoid s \<in> rq_seqoid ` set rs \<longrightarrow>
          ss_seqoid s \<in> rq_seqoid ` (set (cat_repset_seq db) - set rs)) (cat_sequence_state db),
      invalidations := invalidations db @ map rq_seqoid rs \<rparr>"
  using assms
proof (induction rs arbitrary: db)
  case (Cons t rs)
  let ?q = "filter (\<lambda>x. x \<noteq> t) (cat_repset_seq db)"
  let ?s = "filter (\<lambda>s. ss_seqoid s = rq_seqoid t \<longrightarrow> rq_seqoid t \<in> rq_seqoid ` set ?q)
              (cat_sequence_state db)"
  let ?d = "db\<lparr> cat_repset_seq := ?q, cat_sequence_state := ?s,
               invalidations := invalidations db @ [rq_seqoid t] \<rparr>"
  have has: "sequence_has_replication_sets nodeid (rq_seqoid t) (db\<lparr> cat_repset_seq := ?q \<rparr>) \<longleftrightarrow>
      rq_seqoid t \<in> rq_seqoid ` set ?q"
    by (simp add: seq_has_iff)
  have "foreach_row (\<lambda>t db.
         let db = db\<lparr> cat_repset_seq := delete_first (\<lambda>x. x = t) (cat_repset_seq db) \<rparr>;
             db = (if \<not> sequence_has_replication_sets nodeid (rq_seqoid t) db
                   then pglogical_drop_sequence_state_record (rq_seqoid t) db else db)
         in CacheInvalidateRelcacheByRelid (rq_seqoid t) db) rs ?d = Inr db'"
    using Cons.prems(1) unfolding foreach_row.simps Let_def delete_row [OF Cons.prems(2)] has
    by (auto simp: rbind_eq_Inr invalidate_Inr pglogical_drop_sequence_state_record_def
        seq_state.delete_first_filter [OF Cons.prems(3)] Let_def split: if_splits)
  note IH = Cons.IH [OF this]
  have s: "db' = ?d\<lparr> cat_repset_seq := filter (\<lambda>x. x \<notin> set rs) ?q,
      cat_sequence_state := filter (\<lambda>s. ss_seqoid s \<in> rq_seqoid ` set rs \<longrightarrow>
          ss_seqoid s \<in> rq_seqoid ` (set ?q - set rs)) ?s,
      invalidations := invalidations ?d @ map rq_seqoid rs \<rparr>"
    using IH Cons.prems by (simp add: rows_ok_filter)
  have "filter (\<lambda>s. ss_seqoid s \<in> rq_seqoid ` set rs \<longrightarrow>
          ss_seqoid s \<in> rq_seqoid ` (set ?q - set rs)) ?s =
      filter (\<lambda>s. ss_seqoid s \<in> rq_seqoid ` set (t # rs) \<longrightarrow>
          ss_seqoid s \<in> rq_seqoid ` (set (cat_repset_seq db) - set (t # rs))) (cat_sequence_state db)"
    unfolding filter_filter by (rule filter_cong [OF refl]) auto
  then show ?case
    unfolding s by (auto simp: conj_commute intro!: filter_cong)
qed simp

lemma repset_okD:
  assumes "repset_catalog_ok db"
  shows "rows_ok repset_conflicts (cat_repset db)" "rows_ok repset_table_conflicts (cat_repset_table db)"
    "rows_ok repset_seq_conflicts (cat_repset_seq db)"
    "rows_ok seq_state_conflicts (cat_sequence_state db)"
    "distinct (cat_repset db)" "distinct (cat_repset_table db)" "distinct (cat_repset_seq db)"
    "ss_seqoid ` set (cat_sequence_state db) = rq_seqoid ` set (cat_repset_seq db)"
  using assms by (auto simp: repset_catalog_ok_def repset_conflicts_def repset_table_conflicts_def
      repset_seq_conflicts_def intro!: rows_ok_distinct)

lemma filter_not_in_filter: "filter (\<lambda>x. x \<notin> set (filter P xs)) xs = filter (\<lambda>x. \<not> P x) xs"
  by (rule filter_cong) auto

lemma drop_set_body:
  assumes ok: "repset_catalog_ok db" and s: "s \<in> set (cat_repset db)"
    and t: "replication_set_remove_tables (rs_id s) n db = Inr d1"
    and q: "replication_set_remove_seqs (rs_id s) n d1 = Inr d2"
  shows "d2\<lparr> cat_repset := delete_first (\<lambda>x. x = s) (cat_repset d2) \<rparr> =
    without_set s (db\<lparr> invalidations := invalidations db @
      replication_set_get_tables (rs_id s) db @ replication_set_get_seqs (rs_id s) db \<rparr>)"
proof -
  note okD = repset_okD [OF ok]
  have d1: "d1 = db\<lparr> cat_repset_table := filter (\<lambda>t. rt_setid t \<noteq> rs_id s) (cat_repset_table db),
      invalidations := invalidations db @ replication_set_get_tables (rs_id s) db \<rparr>"
    using remove_tables_loop [OF t [unfolded replication_set_remove_tables_def] okD(6)]
    by (simp only: filter_not_in_filter replication_set_get_tables_def)
  have dq: "distinct (cat_repset_seq d1)" "rows_ok seq_state_conflicts (cat_sequence_state d1)"
    using okD by (simp_all add: d1)
  have keep: "filter (\<lambda>x. ss_seqoid x \<in> rq_seqoid ` set (filter (\<lambda>t. rq_setid t = rs_id s) (cat_repset_seq db))
        \<longrightarrow> ss_seqoid x \<in> rq_seqoid ` (set (cat_repset_seq db) -
              set (filter (\<lambda>t. rq_setid t = rs_id s) (cat_repset_seq db)))) (cat_sequence_state db) =
      filter (\<lambda>x. ss_seqoid x \<in> rq_seqoid ` {t \<in> set (cat_repset_seq db). rq_setid t \<noteq> rs_id s})
        (cat_sequence_state db)"
    by (rule filter_cong [OF refl]) (use okD(8) in auto)
  have d2: "d2 = d1\<lparr> cat_repset_seq := filter (\<lambda>t. rq_setid t \<noteq> rs_id s) (cat_repset_seq db),
      cat_sequence_state := filter (\<lambda>x. ss_seqoid x \<in> rq_seqoid ` {t \<in> set (cat_repset_seq db).
        rq_setid t \<noteq> rs_id s}) (cat_sequence_state db),
      invalidations := invalidations d1 @ replication_set_get_seqs (rs_id s) db \<rparr>"
    using remove_seqs_loop [OF q [unfolded replication_set_remove_seqs_def] dq] keep
    by (simp add: d1 replication_set_get_seqs_def cong: filter_cong)
  have "filter (\<lambda>x. x \<noteq> s) (cat_repset db) = filter (\<lambda>r. rs_id r \<noteq> rs_id s) (cat_repset db)"
    using set_by_id.key_inj [OF okD(1) _ s] by (intro filter_cong) auto
  then show ?thesis
    using okD(5) by (simp add: d2 d1 delete_row without_set_def)
qed

lemma without_set_ok:
  assumes "repset_catalog_ok db"
  shows "repset_catalog_ok (without_set s db)"
proof -
  have "ss_seqoid ` set (cat_sequence_state (without_set s db)) =
      rq_seqoid ` set (cat_repset_seq (without_set s db))"
  proof -
    have img: "ss_seqoid ` {x \<in> A. ss_seqoid x \<in> B} = ss_seqoid ` A \<inter> B" for A B by auto
    show ?thesis
      using repset_okD(8) [OF assms] by (auto simp: without_set_def img)
  qed
  then show ?thesis
    using assms unfolding repset_catalog_ok_def
    by (intro conjI) (auto simp: without_set_def identity_ok_def)
qed

lemma repset_ok_invalidations [simp]:
  "repset_catalog_ok (db\<lparr> invalidations := x \<rparr>) = repset_catalog_ok db"
  by (simp add: repset_catalog_ok_def identity_ok_def)

lemma drop_set_Inr:
  assumes "repset_catalog_ok db" "drop_replication_set E setid db = Inr db'"
  obtains s where "s \<in> set (cat_repset db)" "rs_id s = setid"
    "db' = (without_set s db)\<lparr> invalidations := invalidations db @ replication_set_get_tables setid db @
       replication_set_get_seqs setid db @ [repset_table_oid E] \<rparr>"
proof -
  obtain s d1 d2 where s: "List.find (\<lambda>r. rs_id r = setid) (cat_repset db) = Some s"
    and d: "replication_set_remove_tables setid (rs_nodeid s) db = Inr d1"
      "replication_set_remove_seqs setid (rs_nodeid s) d1 = Inr d2"
    and db': "db' = d2\<lparr> cat_repset := delete_first (\<lambda>x. x = s) (cat_repset d2),
                       invalidations := invalidations d2 @ [repset_table_oid E] \<rparr>"
    using assms(2) by (auto simp: drop_replication_set_def rbind_eq_Inr split: option.splits)
  from s have sin: "s \<in> set (cat_repset db)" "rs_id s = setid"
    by (auto dest: find_Some_in)
  note body = drop_set_body [OF assms(1) sin(1), unfolded sin(2), OF d]
  have inv: "invalidations d2 = invalidations db @ replication_set_get_tables setid db @
      replication_set_get_seqs setid db"
    using arg_cong [OF body, of invalidations] by (simp add: without_set_def)
  have "db' = (d2\<lparr> cat_repset := delete_first (\<lambda>x. x = s) (cat_repset d2) \<rparr>)
      \<lparr> invalidations := invalidations d2 @ [repset_table_oid E] \<rparr>"
    by (simp add: db')
  also have "\<dots> = (without_set s db)\<lparr> invalidations := invalidations db @ replication_set_get_tables setid db @
       replication_set_get_seqs setid db @ [repset_table_oid E] \<rparr>"
    unfolding body inv by (simp add: without_set_def)
  finally show ?thesis
    using that sin by blast
qed

lemma drop_sets_loop_ok:
  assumes "foreach_row (\<lambda>repset db.
          rbind (replication_set_remove_tables (rs_id repset) (rs_nodeid repset) db) (\<lambda>db.
          rbind (replication_set_remove_seqs (rs_id repset) (rs_nodeid repset) db) (\<lambda>db.
          Inr (db\<lparr> cat_repset := delete_first (\<lambda>x. x = repset) (cat_repset db) \<rparr>)))) rs db = Inr db'"
    and "repset_catalog_ok db" "set rs \<subseteq> set (cat_repset db)" "distinct (map rs_id rs)"
  shows "repset_catalog_ok db'"
  using assms
proof (induction rs arbitrary: db)
  case (Cons s rs)
  obtain d1 d2 where d: "replication_set_remove_tables (rs_id s) (rs_nodeid s) db = Inr d1"
    "replication_set_remove_seqs (rs_id s) (rs_nodeid s) d1 = Inr d2"
    and rest: "foreach_row (\<lambda>repset db.
          rbind (replication_set_remove_tables (rs_id repset) (rs_nodeid repset) db) (\<lambda>db.
          rbind (replication_set_remove_seqs (rs_id repset) (rs_nodeid repset) db) (\<lambda>db.
          Inr (db\<lparr> cat_repset := delete_first (\<lambda>x. x = repset) (cat_repset db) \<rparr>)))) rs
        (d2\<lparr> cat_repset := delete_first (\<lambda>x. x = s) (cat_repset d2) \<rparr>) = Inr db'"
    using Cons.prems(1) by (auto simp: rbind_eq_Inr)
  have "s \<in> set (cat_repset db)" using Cons.prems(3) by simp
  note body = drop_set_body [OF Cons.prems(2) this d]
  show ?case
  proof (rule Cons.IH [OF rest])
    show "repset_catalog_ok (d2\<lparr> cat_repset := delete_first (\<lambda>x. x = s) (cat_repset d2) \<rparr>)"
      unfolding body using Cons.prems(2) by (intro without_set_ok) simp
    show "set rs \<subseteq> set (cat_repset (d2\<lparr> cat_repset := delete_first (\<lambda>x. x = s) (cat_repset d2) \<rparr>))"
      unfolding body using Cons.prems(3,4) by (auto simp: without_set_def rev_image_eqI)
  qed (use Cons.prems in simp)
qed simp

lemma drop_sets_ok:
  assumes "repset_catalog_ok db"
  shows "drop_replication_set E setid db = Inr db' \<Longrightarrow> repset_catalog_ok db'"
    and "drop_node_replication_sets E nodeid db = Inr db' \<Longrightarrow> repset_catalog_ok db'"
proof -
  show "drop_replication_set E setid db = Inr db' \<Longrightarrow> repset_catalog_ok db'"
    using drop_set_Inr [OF assms] without_set_ok [OF assms] by (metis repset_ok_invalidations)
  have "distinct (map rs_id (filter (\<lambda>r. rs_nodeid r = nodeid) (cat_repset db)))"
    using set_by_id.key_inj [OF repset_okD(1) [OF assms]] repset_okD(5) [OF assms]
    by (auto simp: distinct_map inj_on_def)
  then show "drop_node_replication_sets E nodeid db = Inr db' \<Longrightarrow> repset_catalog_ok db'"
    using drop_sets_loop_ok [OF _ assms, of "filter (\<lambda>r. rs_nodeid r = nodeid) (cat_repset db)"]
    by (auto simp: drop_node_replication_sets_def rbind_eq_Inr)
qed

lemma create_set_ok:
  assumes "repset_catalog_ok db" "create_replication_set E repset db = Inr (s, db')"
  shows "repset_catalog_ok db'"
proof -
  obtain t where t: "catalog_insert repset_conflicts (s\<lparr> rs_name := namestrcpy (rs_name s) \<rparr>) (cat_repset db) = Inr t"
    and db': "db' = db\<lparr> cat_repset := t \<rparr>" and name: "rs_name s \<noteq> []"
    using assms(2) by (auto simp: create_replication_set_def rbind_eq_Inr Let_def split: if_splits)
  note ins = rows_ok_insert [OF repset_okD(1) [OF assms(1)] t]
  have fresh: "rs_id s \<noteq> rt_setid x" if "x \<in> set (cat_repset_table db)" for x
  proof -
    have "rt_setid x \<in> rs_id ` set (cat_repset db)"
      using assms(1) that by (auto simp: repset_catalog_ok_def)
    then show ?thesis
      using t by (auto simp: catalog_insert_def list_ex_iff repset_conflicts_def split: if_splits)
  qed
  have "namestrcpy (rs_name s) \<noteq> []" using name by (simp add: namestrcpy_def)
  then show ?thesis
    using assms(1) ins fresh unfolding repset_catalog_ok_def db' by (auto simp: identity_ok_def)
qed

lemma alter_set_ok:
  assumes "repset_catalog_ok db" "alter_replication_set repset db = Inr db'"
  shows "repset_catalog_ok db'"
proof -
  let ?f = "\<lambda>oldtup. oldtup\<lparr> replicate_insert := replicate_insert repset,
      replicate_update := replicate_update repset, replicate_delete := replicate_delete repset,
      replicate_truncate := replicate_truncate repset \<rparr>"
  let ?t = "update_first (\<lambda>r. rs_id r = rs_id repset) ?f (cat_repset db)"
  have db': "db' = db\<lparr> cat_repset := ?t \<rparr>"
    using assms(2) by (auto simp: alter_replication_set_def rbind_eq_Inr split: if_splits)
  have chk: "alter_check_table repset db t = Inr ()"
    if "replicate_update repset \<or> replicate_delete repset" "t \<in> set (cat_repset_table db)"
      "rt_setid t = rs_id repset" for t
    using assms(2) that by (auto simp: alter_replication_set_def rbind_eq_Inr split: if_splits
        dest!: rmap_Inr_elem [where x = t])
  have rows: "rows_ok repset_conflicts ?t"
    using repset_okD(1) [OF assms(1)] by (intro rows_ok_update_first) (auto simp: repset_conflicts_def)
  have ids: "rs_id ` set ?t = rs_id ` set (cat_repset db)"
    by (rule update_first_image) simp
  have names: "rs_name x \<noteq> [] \<and> length (rs_name x) < NAMEDATALEN" if "x \<in> set ?t" for x
    using in_update_first [OF that] assms(1) by (auto simp: repset_catalog_ok_def)
  have ident: "identity_ok db t x" if t: "t \<in> set (cat_repset_table db)" and x: "x \<in> set ?t" for t x
  proof -
    obtain y where y: "y \<in> set (cat_repset db)" "x = y \<or> x = ?f y \<and> rs_id y = rs_id repset"
      using in_update_first [OF x] by auto
    have "identity_ok db t y" using assms(1) t y(1) by (simp add: repset_catalog_ok_def)
    moreover have "identity_ok db t (?f y)" if "rs_id y = rs_id repset"
      using that chk [OF _ t] by (auto simp: identity_ok_def alter_check_table_def rbind_eq_Inr
          heap_open_class_def split: if_splits)
    ultimately show ?thesis using y(2) by auto
  qed
  have "identity_ok db' t x = identity_ok db t x" for t x
    by (simp add: db' identity_ok_def)
  then show ?thesis
    using assms(1) rows ids names ident unfolding repset_catalog_ok_def db' by simp
qed

lemma add_table_Inr:
  assumes "replication_set_add_table E setid rid atts flt db = Inr db'"
  obtains s r where "List.find (\<lambda>r. rs_id r = setid) (cat_repset db) = Some s" "pg_class db rid = Some r"
    "needs_wal r" "OidIsValid (replidindex r) \<or> \<not> replicate_update s \<and> \<not> replicate_delete s"
    "catalog_insert repset_table_conflicts \<lparr> rt_setid = setid, rt_reloid = rid,
       rt_att_list = list_or_null atts, rt_row_filter = map_option (nodeToString E) flt \<rparr>
       (cat_repset_table db) = Inr (cat_repset_table db')"
    "db' = db\<lparr> pg_class := (pg_class db)(rid \<mapsto>
        create_truncate_trigger (re_CreateTrigger E) (queue_truncate_fn E) r),
      cat_repset_table := cat_repset_table db', invalidations := invalidations db @ [rid] \<rparr>"
proof -
  obtain s r where f: "List.find (\<lambda>r. rs_id r = setid) (cat_repset db) = Some s" "pg_class db rid = Some r"
    using assms by (auto simp: replication_set_add_table_def rbind_eq_Inr get_set_Inr heap_open_Inr)
  moreover from f have "rs_id s = setid" by (auto dest: find_Some_in)
  ultimately show ?thesis
    using assms that [of s r]
    by (auto simp: replication_set_add_table_def get_replication_set_def heap_open_class_def
        rbind_eq_Inr invalidate_Inr Let_def split: if_splits)
qed

lemma add_table_ok:
  assumes ok: "repset_catalog_ok db" and "replication_set_add_table E setid rid atts flt db = Inr db'"
  shows "repset_catalog_ok db'"
  using assms(2)
proof (cases rule: add_table_Inr)
  case (1 s r)
  have s: "s \<in> set (cat_repset db)" "rs_id s = setid"
    using 1(1) by (auto dest: find_Some_in)
  have uniq: "x = s" if "x \<in> set (cat_repset db)" "rs_id x = setid" for x
    using set_by_id.key_inj [OF repset_okD(1) [OF ok] that(1) s(1)] that(2) s(2) by simp
  note ins = rows_ok_insert [OF repset_okD(2) [OF ok] 1(5)]
  have eqs: "cat_repset db' = cat_repset db" "cat_repset_seq db' = cat_repset_seq db"
    "cat_sequence_state db' = cat_sequence_state db"
    "pg_class db' = (pg_class db)(rid \<mapsto> create_truncate_trigger (re_CreateTrigger E) (queue_truncate_fn E) r)"
    by (subst 1(6), simp)+
  have "identity_ok db' t x" if "t \<in> set (cat_repset_table db')" "x \<in> set (cat_repset db)" for t x
    using that ins ok uniq 1(2,4) by (auto simp: identity_ok_def eqs repset_catalog_ok_def)
  then show ?thesis
    using ok ins s unfolding repset_catalog_ok_def eqs by auto
qed

lemma remove_table_ok:
  assumes "repset_catalog_ok db" "replication_set_remove_table setid rid fd db = Inr db'"
  shows "repset_catalog_ok db'"
proof -
  let ?d = "db\<lparr> cat_repset_table := delete_first (\<lambda>t. rt_setid t = setid \<and> rt_reloid t = rid)
      (cat_repset_table db) \<rparr>"
  have db': "db' = ?d\<lparr> invalidations := invalidations db' \<rparr>"
    using assms(2) by (auto simp: replication_set_remove_table_def invalidate_Inr Let_def split: if_splits)
  have sub: "set (cat_repset_table ?d) \<subseteq> set (cat_repset_table db)"
    by (simp add: set_delete_first_subset)
  have "rt_setid ` set (cat_repset_table ?d) \<subseteq> rs_id ` set (cat_repset db)"
    using order_trans [OF image_mono [OF sub, of rt_setid]] assms(1) by (simp add: repset_catalog_ok_def)
  moreover have "\<forall>t \<in> set (cat_repset_table ?d). \<forall>x \<in> set (cat_repset db). identity_ok ?d t x"
  proof -
    have "identity_ok ?d t x = identity_ok db t x" for t x
      by (simp add: identity_ok_def)
    then show ?thesis using sub assms(1) by (auto simp: repset_catalog_ok_def)
  qed
  ultimately have "repset_catalog_ok ?d"
    using assms(1) by (simp add: repset_catalog_ok_def rows_ok_delete_first)
  then show ?thesis
    by (subst db') simp
qed

lemma seq_state_record_Inr:
  assumes "pglogical_create_sequence_state_record q db = Inr d"
    and "rows_ok seq_state_conflicts (cat_sequence_state db)"
    and "\<forall>s \<in> set (cat_sequence_state db). cache_size_ok s"
  shows "\<exists>t. d = db\<lparr> cat_sequence_state := t \<rparr> \<and> rows_ok seq_state_conflicts t \<and>
    ss_seqoid ` set t = insert q (ss_seqoid ` set (cat_sequence_state db)) \<and>
    (\<forall>s \<in> set t. cache_size_ok s)"
proof (cases "List.find (\<lambda>r. ss_seqoid r = q) (cat_sequence_state db)")
  case None
  then obtain v t where t: "catalog_insert seq_state_conflicts \<lparr> ss_seqoid = q, ss_cache_size = 1000,
      ss_last_value = v \<rparr> (cat_sequence_state db) = Inr t" "d = db\<lparr> cat_sequence_state := t \<rparr>"
    using assms(1) by (auto simp: pglogical_create_sequence_state_record_def rbind_eq_Inr)
  have "cache_size_ok \<lparr> ss_seqoid = q, ss_cache_size = 1000, ss_last_value = v \<rparr>"
    by (simp add: cache_size_ok_def)
  then show ?thesis
    using rows_ok_insert [OF assms(2) t(1)] assms(3) t(2) by (intro exI [of _ t]) auto
next
  case (Some r)
  then have "q \<in> ss_seqoid ` set (cat_sequence_state db)" by (auto dest: find_Some_in)
  then show ?thesis
    using Some assms by (intro exI [of _ "cat_sequence_state db"])
      (auto simp: pglogical_create_sequence_state_record_def insert_absorb)
qed

lemma add_seq_ok:
  assumes ok: "repset_catalog_ok db" and "replication_set_add_seq setid q db = Inr db'"
  shows "repset_catalog_ok db'"
proof -
  obtain s d t iv where s: "List.find (\<lambda>r. rs_id r = setid) (cat_repset db) = Some s"
    and d: "pglogical_create_sequence_state_record q db = Inr d"
    and t: "catalog_insert repset_seq_conflicts \<lparr> rq_setid = rs_id s, rq_seqoid = q \<rparr> (cat_repset_seq d) = Inr t"
    and db': "db' = d\<lparr> cat_repset_seq := t, invalidations := iv \<rparr>"
    using assms(2) by (auto simp: replication_set_add_seq_def rbind_eq_Inr get_set_Inr invalidate_Inr
        split: if_splits)
  have sin: "s \<in> set (cat_repset db)" using s by (auto dest: find_Some_in)
  obtain u where u: "d = db\<lparr> cat_sequence_state := u \<rparr>" "rows_ok seq_state_conflicts u"
    "ss_seqoid ` set u = insert q (ss_seqoid ` set (cat_sequence_state db))" "\<forall>s \<in> set u. cache_size_ok s"
    using seq_state_record_Inr [OF d repset_okD(4) [OF ok]] ok by (auto simp: repset_catalog_ok_def)
  have ins: "rows_ok repset_seq_conflicts t \<and> t = cat_repset_seq db @ [\<lparr> rq_setid = rs_id s, rq_seqoid = q \<rparr>]"
    using rows_ok_insert [OF repset_okD(3) [OF ok]] t by (simp add: u(1))
  have "identity_ok db' x y = identity_ok db x y" for x y
    by (simp add: db' u(1) identity_ok_def)
  then show ?thesis
    using ok ins u sin repset_okD(8) [OF ok] unfolding repset_catalog_ok_def
    by (auto simp: db')
qed

lemma remove_seq_Inr:
  assumes "repset_catalog_ok db" "replication_set_remove_seq setid q False db = Inr db'"
  shows "db' = db\<lparr> cat_repset_seq := filter (\<lambda>t. \<not> (rq_setid t = setid \<and> rq_seqoid t = q)) (cat_repset_seq db),
      cat_sequence_state := filter (\<lambda>s. ss_seqoid s \<in> rq_seqoid `
         {t \<in> set (cat_repset_seq db). \<not> (rq_setid t = setid \<and> rq_seqoid t = q)}) (cat_sequence_state db),
      invalidations := invalidations db @ [q] \<rparr>"
proof -
  let ?q = "filter (\<lambda>t. \<not> (rq_setid t = setid \<and> rq_seqoid t = q)) (cat_repset_seq db)"
  let ?d = "db\<lparr> cat_repset_seq := ?q, invalidations := invalidations db @ [q] \<rparr>"
  have del: "delete_first (\<lambda>t. rq_setid t = setid \<and> rq_seqoid t = q) (cat_repset_seq db) = ?q"
    using member_seq.delete_first_filter [OF repset_okD(3) [OF assms(1)], of "(setid, q)"] by simp
  have db': "db' = (if q \<in> rq_seqoid ` set ?q then ?d else pglogical_drop_sequence_state_record q ?d)"
    using assms(2) unfolding replication_set_remove_seq_def Let_def del
    by (auto simp: rbind_eq_Inr invalidate_Inr seq_has_iff split: if_splits)
  have same: "ss_seqoid ` set (cat_sequence_state db) = rq_seqoid ` set (cat_repset_seq db)"
    using repset_okD(8) [OF assms(1)] .
  have "filter (\<lambda>s. ss_seqoid s \<in> rq_seqoid ` set ?q) (cat_sequence_state db) =
      (if q \<in> rq_seqoid ` set ?q then cat_sequence_state db
       else filter (\<lambda>s. ss_seqoid s \<noteq> q) (cat_sequence_state db))"
  proof (cases "q \<in> rq_seqoid ` set ?q")
    case True
    then have "\<forall>s \<in> set (cat_sequence_state db). ss_seqoid s \<in> rq_seqoid ` set ?q"
      using same by (auto simp: image_iff) (metis imageE image_eqI)
    then show ?thesis using True by (simp only: if_True) (rule filter_True)
  next
    case False
    then show ?thesis
      using same by (simp only: if_False) (intro filter_cong; auto)
  qed
  then show ?thesis
    unfolding db' by (auto simp: pglogical_drop_sequence_state_record_def
        seq_state.delete_first_filter [OF repset_okD(4) [OF assms(1)]])
qed

lemma remove_seq_ok:
  assumes "repset_catalog_ok db" "replication_set_remove_seq setid q False db = Inr db'"
  shows "repset_catalog_ok db'"
proof -
  let ?R = "rq_seqoid ` {t \<in> set (cat_repset_seq db). \<not> (rq_setid t = setid \<and> rq_seqoid t = q)}"
  have img: "ss_seqoid ` {x \<in> A. ss_seqoid x \<in> B} = ss_seqoid ` A \<inter> B" for A B by auto
  have "ss_seqoid ` {x \<in> set (cat_sequence_state db). ss_seqoid x \<in> ?R} = ?R"
    using repset_okD(8) [OF assms(1)] by (auto simp: img)
  moreover have "identity_ok (db\<lparr> cat_repset_seq := a, cat_sequence_state := b, invalidations := c \<rparr>) t x =
      identity_ok db t x" for a b c t x
    by (simp add: identity_ok_def)
  ultimately show ?thesis
    using assms(1) unfolding remove_seq_Inr [OF assms] repset_catalog_ok_def
    by (auto simp: rows_ok_filter)
qed

lemma repset_step_ok:
  assumes "repset_step E db db'" "repset_catalog_ok db"
  shows "repset_catalog_ok db'"
  using assms by (cases rule: repset_step.cases)
    (auto intro: create_set_ok alter_set_ok drop_sets_ok add_table_ok add_seq_ok remove_table_ok remove_seq_ok)

lemma touched_trans:
  assumes "touched a b" "touched b c"
  shows "touched a c"
proof -
  obtain n1 n2 where n: "invalidations b = invalidations a @ n1" "invalidations c = invalidations b @ n2"
    and 1: "\<And>i. (pg_class a i = None \<longleftrightarrow> pg_class b i = None) \<and>
        (\<forall>r'. pg_class b i = Some r' \<longrightarrow> (\<exists>r. pg_class a i = Some r \<and> rd_id r' = rd_id r)) \<and>
        (i \<notin> set n1 \<longrightarrow> pg_class b i = pg_class a i \<and> filter (\<lambda>t. rt_reloid t = i) (cat_repset_table b) =
           filter (\<lambda>t. rt_reloid t = i) (cat_repset_table a))"
    and 2: "\<And>i. (pg_class b i = None \<longleftrightarrow> pg_class c i = None) \<and>
        (\<forall>r'. pg_class c i = Some r' \<longrightarrow> (\<exists>r. pg_class b i = Some r \<and> rd_id r' = rd_id r)) \<and>
        (i \<notin> set n2 \<longrightarrow> pg_class c i = pg_class b i \<and> filter (\<lambda>t. rt_reloid t = i) (cat_repset_table c) =
           filter (\<lambda>t. rt_reloid t = i) (cat_repset_table b))"
    using assms by (auto simp: touched_def)
  show ?thesis
    unfolding touched_def using n
    by (intro exI [of _ "n1 @ n2"] conjI allI) (simp, use 1 2 in metis, use 1 2 in metis, use 1 2 in auto)
qed

lemma foreach_touched:
  assumes "foreach_row f rs db = Inr db'" "\<And>r s s'. f r s = Inr s' \<Longrightarrow> touched s s'"
  shows "touched db db'"
  using assms(1)
proof (induction rs arbitrary: db)
  case Nil
  then show ?case by (simp add: touched_def)
next
  case (Cons r rs)
  then obtain s where s: "f r db = Inr s" "touched s db'"
    by (auto simp: rbind_eq_Inr)
  show ?case
    by (rule touched_trans [OF assms(2) [OF s(1)] s(2)])
qed

lemma touchedI:
  assumes "invalidations db' = invalidations db @ new" "pg_class db' = pg_class db"
    and "\<And>i. i \<notin> set new \<Longrightarrow> filter (\<lambda>t. rt_reloid t = i) (cat_repset_table db') =
           filter (\<lambda>t. rt_reloid t = i) (cat_repset_table db)"
  shows "touched db db'"
  using assms unfolding touched_def by (intro exI [of _ new]) auto

lemma filter_delete_first:
  "(\<And>x. Q x \<Longrightarrow> \<not> P x) \<Longrightarrow> filter P (delete_first Q xs) = filter P xs"
  by (induction xs) auto

lemma remove_members_touched:
  "replication_set_remove_tables setid n db = Inr db' \<Longrightarrow> touched db db'"
  "replication_set_remove_seqs setid n db = Inr db' \<Longrightarrow> touched db db'"
proof -
  assume "replication_set_remove_tables setid n db = Inr db'"
  then show "touched db db'"
    unfolding replication_set_remove_tables_def
    by (rule foreach_touched) (auto simp: invalidate_Inr intro!: touchedI filter_delete_first)
next
  assume "replication_set_remove_seqs setid n db = Inr db'"
  then show "touched db db'"
    unfolding replication_set_remove_seqs_def
    by (rule foreach_touched)
      (auto simp: invalidate_Inr Let_def pglogical_drop_sequence_state_record_def split: if_splits
        intro!: touchedI)
qed

lemma drop_sets_touched:
  "drop_replication_set E setid db = Inr db' \<Longrightarrow> touched db db'"
  "drop_node_replication_sets E nodeid db = Inr db' \<Longrightarrow> touched db db'"
proof -
  assume "drop_replication_set E setid db = Inr db'"
  then obtain s d1 d2 where d: "touched db d1" "touched d1 d2"
    "db' = d2\<lparr> cat_repset := delete_first (\<lambda>x. x = s) (cat_repset d2),
      invalidations := invalidations d2 @ [repset_table_oid E] \<rparr>"
    by (auto simp: drop_replication_set_def rbind_eq_Inr split: option.splits dest: remove_members_touched)
  have "touched d2 db'" unfolding d(3) by (rule touchedI) auto
  then show "touched db db'" using d(1,2) touched_trans by blast
next
  assume "drop_node_replication_sets E nodeid db = Inr db'"
  then obtain d where d: "foreach_row (\<lambda>repset db.
          rbind (replication_set_remove_tables (rs_id repset) (rs_nodeid repset) db) (\<lambda>db.
          rbind (replication_set_remove_seqs (rs_id repset) (rs_nodeid repset) db) (\<lambda>db.
          Inr (db\<lparr> cat_repset := delete_first (\<lambda>x. x = repset) (cat_repset db) \<rparr>))))
       (filter (\<lambda>r. rs_nodeid r = nodeid) (cat_repset db)) db = Inr d"
    "db' = d\<lparr> invalidations := invalidations d @ [repset_table_oid E] \<rparr>"
    by (auto simp: drop_node_replication_sets_def rbind_eq_Inr)
  have body: "touched s (s2\<lparr> cat_repset := u \<rparr>)" if "touched s s1" "touched s1 s2" for s s1 s2 u
    using touched_trans [OF touched_trans [OF that] touchedI [of "s2\<lparr> cat_repset := u \<rparr>" s2 "[]"]] by simp
  have "touched db d"
    by (rule foreach_touched [OF d(1)])
      (auto simp: rbind_eq_Inr intro!: body dest!: remove_members_touched)
  moreover have "touched d db'" unfolding d(2) by (rule touchedI) auto
  ultimately show "touched db db'" by (rule touched_trans)
qed

lemma repset_step_touched:
  assumes "repset_step E db db'"
  shows "touched db db'"
  using assms
proof (cases rule: repset_step.cases)
  case (create repset s)
  then show ?thesis
    by (auto simp: create_replication_set_def rbind_eq_Inr Let_def split: if_splits intro!: touchedI)
next
  case (alter repset)
  then show ?thesis
    by (auto simp: alter_replication_set_def rbind_eq_Inr split: if_splits intro!: touchedI)
next
  case (add_table setid rid atts flt)
  then show ?thesis
  proof (cases rule: add_table_Inr)
    case (1 s r)
    have eqs: "invalidations db' = invalidations db @ [rid]" "pg_class db' = (pg_class db)(rid \<mapsto>
        create_truncate_trigger (re_CreateTrigger E) (queue_truncate_fn E) r)"
      by (subst 1(6), simp)+
    have "filter (\<lambda>t. rt_reloid t = i) (cat_repset_table db') =
        filter (\<lambda>t. rt_reloid t = i) (cat_repset_table db)" if "i \<noteq> rid" for i
      using 1(5) that by (auto simp: catalog_insert_def split: if_splits dest: sym)
    then show ?thesis
      unfolding touched_def eqs by (intro exI [of _ "[rid]"]) (use 1(2) in auto)
  qed
next
  case (add_seq setid seqoid)
  then show ?thesis
    by (auto simp: replication_set_add_seq_def pglogical_create_sequence_state_record_def rbind_eq_Inr
        invalidate_Inr split: if_splits intro!: touchedI)
next
  case (remove_table setid rid)
  then show ?thesis
    by (auto simp: replication_set_remove_table_def Let_def invalidate_Inr split: if_splits
        intro!: touchedI filter_delete_first)
next
  case (remove_seq setid seqoid)
  then show ?thesis
    by (auto simp: replication_set_remove_seq_def Let_def invalidate_Inr rbind_eq_Inr
        pglogical_drop_sequence_state_record_def split: if_splits intro!: touchedI)
qed (use drop_sets_touched in blast)+

text \<open>An entry that is valid after a callback was valid before, and was not the one invalidated.\<close>

lemma callback_valid:
  assumes "repset_relcache_invalidate_callback keyof i hash = Some h'" "h' k = Some e" "isvalid e"
  shows "\<exists>h. hash = Some h \<and> h k = Some e \<and> k \<noteq> keyof i"
  using assms by (auto simp: repset_relcache_invalidate_callback_def clear_entry_def
      split: option.splits if_splits)

lemma callbacks_valid:
  assumes "fold (repset_relcache_invalidate_callback keyof) new hash = Some h'" "h' k = Some e" "isvalid e"
  shows "\<exists>h. hash = Some h \<and> h k = Some e \<and> k \<notin> keyof ` set new"
  using assms
proof (induction new arbitrary: hash)
  case (Cons i new)
  then obtain h where "repset_relcache_invalidate_callback keyof i hash = Some h" "h k = Some e"
    "k \<notin> keyof ` set new" by auto
  with callback_valid [OF this(1,2) Cons.prems(3)] show ?case by auto
qed simp

lemma fill_entry_cong:
  "filter (\<lambda>t. rt_reloid t = rd_id table) (cat_repset_table db) =
   filter (\<lambda>t. rt_reloid t = rd_id table) (cat_repset_table db') \<Longrightarrow>
   fill_entry E table sets db = fill_entry E table sets db'"
  by (simp add: fill_entry_def)

lemma lookup_cases:
  assumes "get_table_replication_info E keyof table sets db hash = Inr (entry, hash')"
  obtains (cached) h where "hash = Some h" "hash' = hash" "h (keyof (rd_id table)) = Some entry" "isvalid entry"
  | (filled) "entry = fill_entry E table sets db"
      "hash' = Some ((case hash of None \<Rightarrow> Map.empty | Some h \<Rightarrow> h)(keyof (rd_id table) \<mapsto> entry))"
  using assms by (auto simp: get_table_replication_info_def Let_def split: option.splits if_splits)

text \<open>\<open>info_ok\<close> in two parts: every relation has its oid, and every valid entry is the one of a table.\<close>

lemma info_okI:
  assumes "\<And>rid r. pg_class db rid = Some r \<Longrightarrow> rd_id r = rid \<and> rid \<noteq> InvalidOid"
    and "\<And>h k entry. hash = Some h \<Longrightarrow> h k = Some entry \<Longrightarrow> isvalid entry \<Longrightarrow>
      \<exists>table. pg_class db (rd_id table) = Some table \<and> k = keyof (rd_id table) \<and>
        entry = fill_entry E table sets db"
  shows "info_ok E keyof sets db hash"
  using assms unfolding info_ok_def by blast

lemma info_okD:
  assumes "info_ok E keyof sets db (Some h)" "h k = Some entry" "isvalid entry"
  obtains table where "pg_class db (rd_id table) = Some table" "k = keyof (rd_id table)"
    "entry = fill_entry E table sets db"
  using assms unfolding info_ok_def by blast

lemma info_ok_change:
  assumes "repset_step E db db'" "invalidations db' = invalidations db @ new"
    and ok: "info_ok E keyof sets db hash"
  shows "info_ok E keyof sets db' (fold (repset_relcache_invalidate_callback keyof) new hash)"
proof (rule info_okI)
  have n: "(\<forall>r'. pg_class db' i = Some r' \<longrightarrow> (\<exists>r. pg_class db i = Some r \<and> rd_id r' = rd_id r)) \<and>
      (i \<notin> set new \<longrightarrow> pg_class db' i = pg_class db i \<and>
         filter (\<lambda>t. rt_reloid t = i) (cat_repset_table db') =
         filter (\<lambda>t. rt_reloid t = i) (cat_repset_table db))" for i
    using repset_step_touched [OF assms(1)] assms(2) by (auto simp: touched_def)
  show "rd_id r = rid \<and> rid \<noteq> InvalidOid" if "pg_class db' rid = Some r" for rid r
    using n [of rid] that ok by (auto simp: info_ok_def)
  fix h' k entry
  assume h: "fold (repset_relcache_invalidate_callback keyof) new hash = Some h'" "h' k = Some entry"
    "isvalid entry"
  obtain h where o: "hash = Some h" "h k = Some entry" "k \<notin> keyof ` set new"
    using callbacks_valid [OF h] by blast
  obtain table where t: "pg_class db (rd_id table) = Some table" "k = keyof (rd_id table)"
    "entry = fill_entry E table sets db"
    using ok [unfolded o(1)] o(2) h(3) by (rule info_okD)
  have "rd_id table \<notin> set new" using o(3) t(2) by blast
  with t n [of "rd_id table"] have "pg_class db' (rd_id table) = Some table"
    "fill_entry E table sets db = fill_entry E table sets db'"
    by (simp_all only: not_False_eq_True simp_thms, intro fill_entry_cong, simp only:)
  then show "\<exists>table. pg_class db' (rd_id table) = Some table \<and> k = keyof (rd_id table) \<and>
      entry = fill_entry E table sets db'" using t by blast
qed

lemma info_ok_ddl:
  assumes "\<And>r. x = Some r \<Longrightarrow> rd_id r = rid" "rid \<noteq> InvalidOid" and ok: "info_ok E keyof sets db hash"
  shows "info_ok E keyof sets (db\<lparr> pg_class := (pg_class db)(rid := x) \<rparr>)
    (repset_relcache_invalidate_callback keyof rid hash)" (is "info_ok _ _ _ ?db' _")
proof (rule info_okI)
  show "rd_id q = i \<and> i \<noteq> InvalidOid" if "pg_class ?db' i = Some q" for i q
    using that assms by (auto simp: info_ok_def split: if_splits)
  fix h' k entry
  assume h: "repset_relcache_invalidate_callback keyof rid hash = Some h'" "h' k = Some entry"
    "isvalid entry"
  obtain h where o: "hash = Some h" "h k = Some entry" "k \<noteq> keyof rid"
    using callback_valid [OF h] by blast
  obtain table where t: "pg_class db (rd_id table) = Some table" "k = keyof (rd_id table)"
    "entry = fill_entry E table sets db"
    using ok [unfolded o(1)] o(2) h(3) by (rule info_okD)
  have "rd_id table \<noteq> rid" using o(3) t(2) by blast
  moreover have "fill_entry E table sets db = fill_entry E table sets ?db'"
    by (rule fill_entry_cong) simp
  ultimately show "\<exists>table. pg_class ?db' (rd_id table) = Some table \<and> k = keyof (rd_id table) \<and>
      entry = fill_entry E table sets ?db'"
    using t by (intro exI [of _ table]) simp
qed

lemma info_ok_lookup:
  assumes "pg_class db (rd_id table) = Some table"
    and "get_table_replication_info E keyof table sets db hash = Inr (entry, hash')"
    and ok: "info_ok E keyof sets db hash"
  shows "info_ok E keyof sets db hash'"
  using assms(2)
proof (cases rule: lookup_cases)
  case filled
  show ?thesis
  proof (rule info_okI)
    show "rd_id r = rid \<and> rid \<noteq> InvalidOid" if "pg_class db rid = Some r" for rid r
      using that ok by (auto simp: info_ok_def)
    show "\<exists>table. pg_class db (rd_id table) = Some table \<and> k = keyof (rd_id table) \<and>
        e = fill_entry E table sets db" if h: "hash' = Some h'" "h' k = Some e" "isvalid e" for h' k e
    proof (cases "k = keyof (rd_id table)")
      case True
      then show ?thesis using h filled assms(1) by auto
    next
      case False
      then obtain h where "hash = Some h" "h k = Some e"
        using h filled by (auto split: option.splits)
      then show ?thesis using ok h(3) unfolding info_ok_def by blast
    qed
  qed
qed (use ok in simp)

lemma info_step_ok:
  assumes "info_step E keyof sets (db, hash) (db', hash')" "info_ok E keyof sets db hash"
  shows "info_ok E keyof sets db' hash'"
  using assms(1)
proof (cases rule: info_step.cases)
  case reset
  then show ?thesis
    using assms(2) callback_valid unfolding info_ok_def by metis
qed (use assms(2) in \<open>auto intro: info_ok_change info_ok_ddl info_ok_lookup\<close>)

text \<open>The entry of a table is the union of what its rows in the subscribed sets say.\<close>

lemma add_names_eq:
  "add_names desc names b = (if names = [] then b else
     Some ((\<lambda>n. get_att_num_by_name desc n - FirstLowInvalidHeapAttributeNumber) ` set names \<union>
           (case b of None \<Rightarrow> {} | Some s \<Rightarrow> s)))"
  unfolding add_names_def by (induction names arbitrary: b) (auto split: option.splits)

lemma add_names_add_names [simp]:
  "add_names desc n2 (add_names desc n1 b) = add_names desc (n1 @ n2) b"
  "add_names desc n (add_names desc n b) = add_names desc n b"
  by (auto simp: add_names_eq)

lemma merge_sets:
  fixes e :: "'n PGLogicalTableRepInfo"
  shows "ti_reloid (fold (merge_set E desc t) sets e) = ti_reloid e"
    "ti_insert (fold (merge_set E desc t) sets e) \<longleftrightarrow>
       ti_insert e \<or> (\<exists>s \<in> set sets. rt_setid t = rs_id s \<and> replicate_insert s)"
    "ti_update (fold (merge_set E desc t) sets e) \<longleftrightarrow>
       ti_update e \<or> (\<exists>s \<in> set sets. rt_setid t = rs_id s \<and> replicate_update s)"
    "ti_delete (fold (merge_set E desc t) sets e) \<longleftrightarrow>
       ti_delete e \<or> (\<exists>s \<in> set sets. rt_setid t = rs_id s \<and> replicate_delete s)"
    "set (ti_row_filter (fold (merge_set E desc t) sets e)) = set (ti_row_filter e) \<union>
       {stringToNode E f | f s. s \<in> set sets \<and> rt_setid t = rs_id s \<and> getattr_row_filter E desc t = Some f}"
  by (induction sets arbitrary: e) (auto simp: merge_set_def split: option.splits)

lemma merge_sets_att_list:
  "ti_att_list (fold (merge_set E desc t) sets e) =
     (if rt_setid t \<in> rs_id ` set sets
      then add_names desc (case getattr_att_list E desc t of None \<Rightarrow> [] | Some l \<Rightarrow> l) (ti_att_list e)
      else ti_att_list e)"
  by (induction sets arbitrary: e) (auto simp: merge_set_def add_names_eq split: option.splits)

lemma merge_rows:
  fixes E :: "'n repset_env" and e :: "'n PGLogicalTableRepInfo" and desc sets
  defines "F \<equiv> fold (\<lambda>t entry. fold (merge_set E desc t) sets entry)"
  shows "ti_reloid (F rows e) = ti_reloid e"
    "ti_insert (F rows e) \<longleftrightarrow> ti_insert e \<or>
       (\<exists>t \<in> set rows. \<exists>s \<in> set sets. rt_setid t = rs_id s \<and> replicate_insert s)"
    "ti_update (F rows e) \<longleftrightarrow> ti_update e \<or>
       (\<exists>t \<in> set rows. \<exists>s \<in> set sets. rt_setid t = rs_id s \<and> replicate_update s)"
    "ti_delete (F rows e) \<longleftrightarrow> ti_delete e \<or>
       (\<exists>t \<in> set rows. \<exists>s \<in> set sets. rt_setid t = rs_id s \<and> replicate_delete s)"
    "set (ti_row_filter (F rows e)) = set (ti_row_filter e) \<union>
       {stringToNode E f | f t s. t \<in> set rows \<and> s \<in> set sets \<and> rt_setid t = rs_id s \<and>
          getattr_row_filter E desc t = Some f}"
    "ti_att_list (F rows e) = add_names desc (concat (map (\<lambda>t. case getattr_att_list E desc t of
          None \<Rightarrow> [] | Some l \<Rightarrow> l) (filter (\<lambda>t. rt_setid t \<in> rs_id ` set sets) rows))) (ti_att_list e)"
  unfolding F_def
proof (induction rows arbitrary: e)
  case (Cons t rows)
  case 1 show ?case by (simp add: Cons merge_sets)
  case 2 show ?case by (simp add: Cons merge_sets disj_assoc)
  case 3 show ?case by (simp add: Cons merge_sets disj_assoc)
  case 4 show ?case by (simp add: Cons merge_sets disj_assoc)
  case 5 show ?case by (auto simp: Cons merge_sets)
  case 6 show ?case by (simp add: Cons merge_sets_att_list)
qed (simp_all add: add_names_eq)

lemma fill_entry_spec: "info_spec E table (subscribed table sets db) (fill_entry E table sets db)"
proof -
  let ?rows = "filter (\<lambda>t. rt_reloid t = rd_id table) (cat_repset_table db)"
  let ?names = "concat (map (\<lambda>t. case getattr_att_list E (rd_att table) t of None \<Rightarrow> [] | Some l \<Rightarrow> l)
     (filter (\<lambda>t. rt_setid t \<in> rs_id ` set sets) ?rows))"
  have cols: "(\<lambda>n. get_att_num_by_name (rd_att table) n - FirstLowInvalidHeapAttributeNumber) ` set ?names =
      listed_columns E table (subscribed table sets db)"
    by (force simp: listed_columns_def subscribed_def split: option.splits)
  then have "listed_columns E table (subscribed table sets db) = {} \<longleftrightarrow> ?names = []"
    by (metis empty_set image_is_empty set_empty)
  with cols have "ti_att_list (fill_entry E table sets db) =
      (if listed_columns E table (subscribed table sets db) = {} then None
       else Some (listed_columns E table (subscribed table sets db)))"
    by (simp add: fill_entry_def merge_rows add_names_eq)
  moreover have "set (ti_row_filter (fill_entry E table sets db)) =
      {stringToNode E f | f t s. (t, s) \<in> subscribed table sets db \<and> getattr_row_filter E (rd_att table) t = Some f}"
    by (auto simp: fill_entry_def merge_rows subscribed_def)
  ultimately show ?thesis
    by (auto simp: info_spec_def fill_entry_def merge_rows subscribed_def)
qed

lemma drop_set_lookups:
  assumes "repset_catalog_ok db" "s \<in> set (cat_repset db)"
  shows "\<not> is_ok (get_replication_set (rs_id s) (without_set s db))"
    "replication_set_get_tables (rs_id s) (without_set s db) = []"
    "replication_set_get_seqs (rs_id s) (without_set s db) = []"
    "i \<noteq> rs_id s \<Longrightarrow> get_replication_set i (without_set s db) = get_replication_set i db"
    "i \<noteq> rs_id s \<Longrightarrow> replication_set_get_tables i (without_set s db) = replication_set_get_tables i db"
    "i \<noteq> rs_id s \<Longrightarrow> replication_set_get_seqs i (without_set s db) = replication_set_get_seqs i db"
proof -
  have none: "List.find (\<lambda>r. rs_id r = rs_id s) (filter (\<lambda>r. rs_id r \<noteq> rs_id s) xs) = None" for xs
    by (auto simp: find_None_all)
  have other: "List.find (\<lambda>r. rs_id r = i) (filter (\<lambda>r. rs_id r \<noteq> rs_id s) xs) =
      List.find (\<lambda>r. rs_id r = i) xs" if "i \<noteq> rs_id s" for i xs
    using that by (induction xs) auto
  show "\<not> is_ok (get_replication_set (rs_id s) (without_set s db))"
    "replication_set_get_tables (rs_id s) (without_set s db) = []"
    "replication_set_get_seqs (rs_id s) (without_set s db) = []"
    "i \<noteq> rs_id s \<Longrightarrow> get_replication_set i (without_set s db) = get_replication_set i db"
    "i \<noteq> rs_id s \<Longrightarrow> replication_set_get_tables i (without_set s db) = replication_set_get_tables i db"
    "i \<noteq> rs_id s \<Longrightarrow> replication_set_get_seqs i (without_set s db) = replication_set_get_seqs i db"
    by (auto simp: get_replication_set_def without_set_def none other replication_set_get_tables_def
        replication_set_get_seqs_def conj_commute filter_empty_conv intro!: arg_cong [where f = "map _"] filter_cong)
qed

text \<open>A lookup finds the entry of a table with the same key: of the table itself when no other one has its key.\<close>

lemma lookup_info_ok:
  assumes "info_ok E keyof sets db hash" "repset_table_exists E" "pg_class db (rd_id table) = Some table"
  obtains table' entry hash' where "get_table_replication_info E keyof table sets db hash = Inr (entry, hash')"
    "pg_class db (rd_id table') = Some table'" "keyof (rd_id table') = keyof (rd_id table)"
    "entry = fill_entry E table' sets db" "own_key keyof (rd_id table) db \<Longrightarrow> table' = table"
proof -
  have "\<exists>entry hash'. get_table_replication_info E keyof table sets db hash = Inr (entry, hash')"
    using assms(2) by (cases "(case hash of None \<Rightarrow> Map.empty | Some h \<Rightarrow> h) (keyof (rd_id table))")
      (auto simp: get_table_replication_info_def Let_def)
  then obtain entry hash' where look: "get_table_replication_info E keyof table sets db hash = Inr (entry, hash')"
    by blast
  from look show ?thesis
  proof (cases rule: lookup_cases)
    case (cached h)
    obtain table' where t: "pg_class db (rd_id table') = Some table'" "keyof (rd_id table) = keyof (rd_id table')"
      "entry = fill_entry E table' sets db"
      using assms(1) [unfolded cached(1)] cached(3,4) by (rule info_okD)
    have "table' = table" if "own_key keyof (rd_id table) db"
    proof -
      have "rd_id table' = rd_id table"
        using that t(2) domI [of "pg_class db", OF t(1)] unfolding own_key_def by metis
      then have "Some table' = pg_class db (rd_id table)" by (rule subst) (rule t(1) [symmetric])
      also have "\<dots> = Some table" by (rule assms(3))
      finally show ?thesis by (rule option.inject [THEN iffD1])
    qed
    then show ?thesis using look t(1,3) t(2) [symmetric] by (intro that [of entry hash' table'])
  next
    case filled
    then show ?thesis using look assms(3) by (intro that [of entry hash' table]) simp_all
  qed
qed

lemma ex_pdb_ok: "repset_catalog_ok ex_pdb"
  by (simp add: repset_catalog_ok_def ex_pdb_def rows_ok_def ex_default_def)

lemma ex_add_table:
  "replication_set_add_table ex_renv 1 16400 [''id''] (Some ''id > 5'') ex_pdb = Inr ex_pdb1"
  by (simp add: replication_set_add_table_def get_replication_set_def ex_pdb_def ex_default_def
      heap_open_class_def ex_rtable_def create_truncate_trigger_def ex_renv_def catalog_insert_def
      CacheInvalidateRelcacheByRelid_def list_or_null_def ex_pdb1_def Let_def)

section \<open>Properties\<close>

text \<open>
  C18.  The replication set catalogs stay consistent: whatever sequence of creations, alterations, drops and
  membership changes succeeds, no two sets share an id or a name within a node, no table or sequence is twice
  in a set, every member belongs to an existing set, every table of a set that replicates UPDATEs or DELETEs
  has a replica identity index, and exactly the sequences that are in some set have a state record,
  with a cache size between its bounds.
\<close>

theorem repset_catalog_consistent:
  assumes "(repset_step E)\<^sup>*\<^sup>* db db'" "repset_catalog_ok db"
  shows "repset_catalog_ok db'"
  using assms by (induction rule: rtranclp_induct) (auto intro: repset_step_ok)

theorem repset_catalog_consistent_witness: "repset_catalog_ok ex_pdb1"
  using repset_catalog_consistent [OF r_into_rtranclp ex_pdb_ok]
    repset_step.add_table [OF ex_add_table] by blast

text \<open>
  C19.  Dropping a replication set removes it and its members and nothing else.  After a successful
  drop the set is not found, it has no tables and no sequences, every other set and its members are as
  before, a sequence keeps its state record exactly when another set still has it, and the relcache
  entries of all former members have been invalidated.
\<close>

theorem dropped_set_is_gone:
  assumes "repset_catalog_ok db" "drop_replication_set E setid db = Inr db'"
  shows "\<not> is_ok (get_replication_set setid db') \<and>
    replication_set_get_tables setid db' = [] \<and> replication_set_get_seqs setid db' = [] \<and>
    (\<forall>i. i \<noteq> setid \<longrightarrow> get_replication_set i db' = get_replication_set i db \<and>
       replication_set_get_tables i db' = replication_set_get_tables i db \<and>
       replication_set_get_seqs i db' = replication_set_get_seqs i db) \<and>
    cat_sequence_state db' = filter (\<lambda>x. ss_seqoid x \<in>
       rq_seqoid ` {t \<in> set (cat_repset_seq db). rq_setid t \<noteq> setid}) (cat_sequence_state db) \<and>
    invalidations db' = invalidations db @ replication_set_get_tables setid db @
       replication_set_get_seqs setid db @ [repset_table_oid E]"
proof -
  obtain s where s: "s \<in> set (cat_repset db)" "rs_id s = setid"
    "db' = (without_set s db)\<lparr> invalidations := invalidations db @ replication_set_get_tables setid db @
       replication_set_get_seqs setid db @ [repset_table_oid E] \<rparr>"
    using drop_set_Inr [OF assms] .
  have frame: "get_replication_set i (d\<lparr> invalidations := x \<rparr>) = get_replication_set i d"
    "replication_set_get_tables i (d\<lparr> invalidations := x \<rparr>) = replication_set_get_tables i d"
    "replication_set_get_seqs i (d\<lparr> invalidations := x \<rparr>) = replication_set_get_seqs i d" for i d x
    by (simp_all add: get_replication_set_def replication_set_get_tables_def replication_set_get_seqs_def)
  show ?thesis
    using drop_set_lookups [OF assms(1) s(1)] unfolding s(3) frame s(2)
    by (simp add: without_set_def s(2))
qed

theorem dropped_set_is_gone_witness:
  "\<exists>db'. drop_replication_set ex_renv 1 ex_pdb1 = Inr db' \<and>
     replication_set_get_tables 1 ex_pdb1 = [16400] \<and> replication_set_get_tables 1 db' = [] \<and>
     invalidations db' = [16400, 16400, 16300]"
proof -
  obtain db' where d: "drop_replication_set ex_renv 1 ex_pdb1 = Inr db'"
    by (simp add: drop_replication_set_def ex_pdb1_def ex_pdb_def ex_default_def
        replication_set_remove_tables_def replication_set_remove_seqs_def CacheInvalidateRelcacheByRelid_def)
  have ok: "repset_catalog_ok ex_pdb1"
    by (rule repset_step_ok [OF repset_step.add_table [OF ex_add_table] ex_pdb_ok])
  show ?thesis
    using dropped_set_is_gone [OF ok d] d
    by (simp add: replication_set_get_tables_def replication_set_get_seqs_def ex_pdb1_def ex_pdb_def ex_renv_def)
qed

text \<open>When a table can join a set, what the sets hold afterwards, and that a removal undoes it.\<close>

lemma add_table_iff:
  "is_ok (replication_set_add_table E setid rid atts flt db) \<longleftrightarrow>
    (\<exists>s r. get_replication_set setid db = Inr s \<and> pg_class db rid = Some r \<and> needs_wal r \<and>
       (OidIsValid (replidindex r) \<or> \<not> replicate_update s \<and> \<not> replicate_delete s) \<and>
       rid \<notin> set (replication_set_get_tables setid db))"
proof -
  have member: "list_ex (\<lambda>x. repset_table_conflicts x \<lparr> rt_setid = setid, rt_reloid = rid,
      rt_att_list = a, rt_row_filter = f \<rparr>) (cat_repset_table db) \<longleftrightarrow>
      rid \<in> set (replication_set_get_tables setid db)" for a f
    by (auto simp: list_ex_iff repset_table_conflicts_def replication_set_get_tables_def)
  have sid: "rs_id s = setid" if "get_replication_set setid db = Inr s" for s
    using that by (auto simp: get_set_Inr dest: find_Some_in)
  show ?thesis
    by (cases "get_replication_set setid db"; cases "pg_class db rid")
      (auto simp: replication_set_add_table_def heap_open_class_def catalog_insert_def member sid
        CacheInvalidateRelcacheByRelid_def Let_def)
qed

lemma add_table_members:
  assumes "repset_catalog_ok db" "replication_set_add_table E setid rid atts flt db = Inr db'"
  shows "replication_set_get_tables i db' =
    replication_set_get_tables i db @ (if i = setid then [rid] else [])"
  using assms(2)
proof (cases rule: add_table_Inr)
  case (1 s r)
  have "cat_repset_table db' = cat_repset_table db @ [\<lparr> rt_setid = setid, rt_reloid = rid,
     rt_att_list = list_or_null atts, rt_row_filter = map_option (nodeToString E) flt \<rparr>]"
    using rows_ok_insert [OF repset_okD(2) [OF assms(1)] 1(5)] by simp
  then show ?thesis by (simp add: replication_set_get_tables_def)
qed

lemma remove_after_add:
  assumes "repset_catalog_ok db" "replication_set_add_table E setid rid atts flt db = Inr db'"
  shows "\<exists>db2. replication_set_remove_table setid rid False db' = Inr db2 \<and>
    cat_repset_table db2 = cat_repset_table db"
  using assms(2)
proof (cases rule: add_table_Inr)
  case (1 s r)
  let ?row = "\<lparr> rt_setid = setid, rt_reloid = rid,
     rt_att_list = list_or_null atts, rt_row_filter = map_option (nodeToString E) flt \<rparr>"
  note ins = rows_ok_insert [OF repset_okD(2) [OF assms(1)] 1(5)]
  note t = conjunct1 [OF ins] conjunct2 [OF ins]
  have old: "\<forall>x \<in> set (cat_repset_table db). \<not> (rt_setid x = setid \<and> rt_reloid x = rid)"
    using 1(5) by (auto simp: catalog_insert_def list_ex_iff repset_table_conflicts_def split: if_splits)
  have "List.find (\<lambda>t. rt_setid t = setid \<and> rt_reloid t = rid) (cat_repset_table db') = Some ?row"
    using old by (simp add: t(2) find_append find_None_all [THEN iffD2])
  moreover have "delete_first (\<lambda>t. rt_setid t = setid \<and> rt_reloid t = rid) (cat_repset_table db') =
      cat_repset_table db"
    using member_table.delete_first_filter [OF t(1), of "(setid, rid)"] old
    by (simp add: t(2) filter_True)
  moreover have "pg_class db' rid \<noteq> None" by (subst 1(6)) simp
  ultimately show ?thesis
    by (auto simp: replication_set_remove_table_def CacheInvalidateRelcacheByRelid_def)
qed

text \<open>
  C20.  A table can join a set exactly when the set exists, the table exists and is WAL-logged, has a replica
  identity index if the set replicates UPDATEs or DELETEs, and is not a member yet.  Afterwards it is the last
  table of that set, the other sets have the tables they had, and removing it again restores the membership
  table.
\<close>

theorem table_joins_set:
  assumes "repset_catalog_ok db"
  shows "(is_ok (replication_set_add_table E setid rid atts flt db) \<longleftrightarrow>
      (\<exists>s r. get_replication_set setid db = Inr s \<and> pg_class db rid = Some r \<and> needs_wal r \<and>
         (OidIsValid (replidindex r) \<or> \<not> replicate_update s \<and> \<not> replicate_delete s) \<and>
         rid \<notin> set (replication_set_get_tables setid db))) \<and>
    (\<forall>db'. replication_set_add_table E setid rid atts flt db = Inr db' \<longrightarrow>
      (\<forall>i. replication_set_get_tables i db' =
         replication_set_get_tables i db @ (if i = setid then [rid] else [])) \<and>
      (\<exists>db2. replication_set_remove_table setid rid False db' = Inr db2 \<and>
         cat_repset_table db2 = cat_repset_table db))"
  using add_table_iff add_table_members [OF assms] remove_after_add [OF assms]
  by (intro conjI allI impI) fast+

theorem table_joins_set_witness:
  "is_ok (replication_set_add_table ex_renv 1 16400 [''id''] (Some ''id > 5'') ex_pdb) \<and>
   replication_set_get_tables 1 ex_pdb1 = replication_set_get_tables 1 ex_pdb @ [16400] \<and>
   (\<exists>db2. replication_set_remove_table 1 16400 False ex_pdb1 = Inr db2 \<and>
      cat_repset_table db2 = cat_repset_table ex_pdb)"
  using table_joins_set [OF ex_pdb_ok, of ex_renv 1 16400 "[''id'']" "Some ''id > 5''"] ex_add_table
  by (simp add: is_ok_def)

text \<open>
  C21.  A walsender's picture of a table is current.  Start with consistent relation oids and no cache, fix the list of sets
  that the walsender resolved when it started, and let the replication sets change, tables be created, altered and dropped, invalidations
  arrive and tables be looked up in any order.  The next lookup of a table succeeds, and its entry says of a table whose oid has the same hash key what
  the membership rows of that table in those sets say at that moment, as they are read with its descriptor: an action is
  replicated when some set of the table replicates it, the column list is the union of the listed columns
  (none when no row lists any), and the row filters are those of all the rows.  That table is the one looked up when
  no other table of the database has an oid with its key (the keys are compared as strings).
\<close>

theorem table_info_current:
  assumes "(info_step E keyof sets)\<^sup>*\<^sup>* (db0, None) (db, hash)"
    and "\<forall>rid r. pg_class db0 rid = Some r \<longrightarrow> rd_id r = rid \<and> rid \<noteq> InvalidOid"
    and "repset_table_exists E" "pg_class db (rd_id table) = Some table"
  shows "\<exists>table' entry hash'. get_table_replication_info E keyof table sets db hash = Inr (entry, hash') \<and>
    pg_class db (rd_id table') = Some table' \<and> keyof (rd_id table') = keyof (rd_id table) \<and>
    info_spec E table' (subscribed table' sets db) entry \<and>
    (own_key keyof (rd_id table) db \<longrightarrow> table' = table)"
proof -
  have "info_ok E keyof sets db hash"
    using assms(1)
  proof (induction "(db, hash)" arbitrary: db hash rule: rtranclp_induct)
    case base
    then show ?case using assms(2) by (simp add: info_ok_def)
  next
    case (step y)
    then show ?case by (cases y) (auto intro: info_step_ok)
  qed
  then show ?thesis
    using lookup_info_ok [OF _ assms(3,4)] fill_entry_spec by metis
qed

lemma ex_info_run:
  "(info_step ex_renv string_key [ex_default])\<^sup>*\<^sup>* (ex_pdb, None)
     (ex_pdb1, fold (repset_relcache_invalidate_callback string_key) [16400] None)"
  by (intro r_into_rtranclp info_step.change [OF repset_step.add_table [OF ex_add_table]])
    (simp add: ex_pdb_def ex_pdb1_def)

theorem table_info_current_witness:
  "\<exists>entry hash'. get_table_replication_info ex_renv string_key (the (pg_class ex_pdb1 16400)) [ex_default] ex_pdb1 None =
      Inr (entry, hash') \<and>
    info_spec ex_renv (the (pg_class ex_pdb1 16400))
      (subscribed (the (pg_class ex_pdb1 16400)) [ex_default] ex_pdb1) entry"
proof -
  let ?t = "the (pg_class ex_pdb1 16400)"
  have t: "rd_id ?t = 16400" "pg_class ex_pdb1 16400 = Some ?t" "repset_table_exists ex_renv"
    "fold (repset_relcache_invalidate_callback string_key) [16400] None = None" "own_key string_key 16400 ex_pdb1"
    "\<forall>rid r. pg_class ex_pdb rid = Some r \<longrightarrow> rd_id r = rid \<and> rid \<noteq> InvalidOid"
    by (simp_all add: ex_pdb_def ex_pdb1_def ex_rtable_def ex_renv_def repset_relcache_invalidate_callback_def own_key_def)
  from table_info_current [OF ex_info_run t(6,3), of ?t, unfolded t(1,4), OF t(2)] t(5) show ?thesis
    by blast
qed

end
