(* ===== verification/Pgl_Sequences.thy ===== *)
theory Pgl_Sequences
  imports Pgl_Repset
begin

text \<open>
  Replication of sequences, \<open>src/pglogical_sequences.c\<close>: the provider records for each sequence a value
  ahead of the one in use and queues a message with it, which sets the sequence on the
  subscribers.  Values are 64-bit and cache sizes 32-bit integers, with two's-complement arithmetic.
\<close>

section \<open>Operations\<close>

record 'j seq_env =
  sq_queue :: "'j queue_env"
  sq_escape_json :: "string \<Rightarrow> string"
  sq_namespace_name :: "oid \<Rightarrow> string option"
  GetUserId :: oid

text \<open>The conversion of an \<open>int32\<close> to \<open>int64\<close>, and C's division by two.\<close>

definition int64_of :: "32 word \<Rightarrow> 64 word" where
  "int64_of c = word_of_int (sint c)"

definition int32_half :: "32 word \<Rightarrow> 32 word" where
  "int32_half c = word_of_int (if sint c < 0 then - ((- sint c) div 2) else sint c div 2)"

text \<open>
  One row of the state table against the current value: nothing when the stored value is far enough
  ahead, else whether more than half of the cache was used, and the new row.
\<close>

definition sync_state_row :: "64 word \<Rightarrow> SeqStateTuple \<Rightarrow> (bool \<times> SeqStateTuple) option" where
  "sync_state_row last_value oldseq =
     (if sint (ss_last_value oldseq) \<ge> sint (last_value + word_of_int (SEQUENCE_REPLICATION_MIN_CACHE div 2))
      then None
      else let consumed = sint (ss_last_value oldseq + int64_of (int32_half (ss_cache_size oldseq))) < sint last_value;
               size = (if sint (ss_last_value oldseq + int64_of (ss_cache_size oldseq)) \<le> sint last_value
                       then (if SEQUENCE_REPLICATION_MAX_CACHE < sint (ss_cache_size oldseq * 2)
                             then word_of_int SEQUENCE_REPLICATION_MAX_CACHE
                             else ss_cache_size oldseq * 2)
                       else ss_cache_size oldseq)
           in Some (consumed, oldseq\<lparr> ss_cache_size := size, ss_last_value := last_value + int64_of size \<rparr>))"

definition sequence_json :: "(string \<Rightarrow> string) \<Rightarrow> string \<Rightarrow> string \<Rightarrow> 64 word \<Rightarrow> string" where
  "sequence_json escape_json nspname seqname v =
     ''{\"schema_name\": '' @ escape_json nspname @ '',\"sequence_name\": '' @ escape_json seqname @
     '',\"last_value\": \"'' @ dec_of_int (sint v) @ ''\"'' @ ''}''"

text \<open>Storing the new row and queueing the message for the sets of the node that have the sequence.\<close>

definition store_and_queue ::
  "'j seq_env \<Rightarrow> oid \<Rightarrow> relation \<Rightarrow> SeqStateTuple \<Rightarrow> provider_db \<Rightarrow> QueueTuple list
     \<Rightarrow> (provider_db \<times> QueueTuple list) result" where
  "store_and_queue S nodeid seqrel newseq db queue =
     (let db = db\<lparr> cat_sequence_state := update_first (\<lambda>r. ss_seqoid r = ss_seqoid newseq)
                     (\<lambda>_. newseq) (cat_sequence_state db) \<rparr>
      in rbind (get_seq_replication_sets nodeid (ss_seqoid newseq) db) (\<lambda>repsets.
         case sq_namespace_name S (relnamespace seqrel) of
           None \<Rightarrow> Inl NullDereference
         | Some nspname \<Rightarrow>
             rbind (queue_message (sq_queue S) (map rs_name repsets) (GetUserId S) QUEUE_COMMAND_TYPE_SEQUENCE
                 (sequence_json (sq_escape_json S) nspname (relname seqrel) (ss_last_value newseq)) queue)
               (\<lambda>queue. Inr (db, queue))))"

definition synchronize_row ::
  "'j seq_env \<Rightarrow> oid \<Rightarrow> SeqStateTuple \<Rightarrow> bool \<times> provider_db \<times> QueueTuple list
     \<Rightarrow> (bool \<times> provider_db \<times> QueueTuple list) result" where
  "synchronize_row S nodeid oldseq = (\<lambda>(ret, db, queue).
     rbind (heap_open_class (ss_seqoid oldseq) db) (\<lambda>seqrel.
     rbind (sequence_get_last_value (ss_seqoid oldseq) db) (\<lambda>last_value.
     case sync_state_row last_value oldseq of
       None \<Rightarrow> Inr (ret, db, queue)
     | Some (consumed, newseq) \<Rightarrow>
         rbind (store_and_queue S nodeid seqrel newseq db queue) (\<lambda>(db, queue).
           Inr (ret \<and> \<not> consumed, db, queue)))))"

definition synchronize_sequences ::
  "'j seq_env \<Rightarrow> node_catalog \<Rightarrow> provider_db \<Rightarrow> QueueTuple list
     \<Rightarrow> (bool \<times> provider_db \<times> QueueTuple list) result" where
  "synchronize_sequences S cat db queue =
     rbind (get_local_node True cat) (\<lambda>local_node.
     case local_node of
       None \<Rightarrow> Inr (True, db, queue)
     | Some ln \<Rightarrow> foreach_row (synchronize_row S (node_id (ln_node ln))) (cat_sequence_state db)
                    (True, db, queue))"

definition synchronize_sequence ::
  "'j seq_env \<Rightarrow> node_catalog \<Rightarrow> oid \<Rightarrow> provider_db \<Rightarrow> QueueTuple list
     \<Rightarrow> (provider_db \<times> QueueTuple list) result" where
  "synchronize_sequence S cat seqoid db queue =
     rbind (get_local_node False cat) (\<lambda>local_node.
     rbind (heap_open_class seqoid db) (\<lambda>seqrel.
     if relkind seqrel \<noteq> RELKIND_SEQUENCE
     then ereport ERRCODE_WRONG_OBJECT_TYPE ''\"%s\" is not a sequence''
     else case List.find (\<lambda>r. ss_seqoid r = seqoid) (cat_sequence_state db) of
            None \<Rightarrow> ereport ERRCODE_OBJECT_NOT_IN_PREREQUISITE_STATE ''\"%s\" is not a replicated sequence''
          | Some t \<Rightarrow>
              rbind (sequence_get_last_value seqoid db) (\<lambda>last_value.
                store_and_queue S (node_id (ln_node (the local_node))) seqrel
                  (t\<lparr> ss_last_value := last_value + int64_of (ss_cache_size t) \<rparr>) db queue)))"

section \<open>Specification\<close>

definition next_row :: "provider_db \<Rightarrow> SeqStateTuple \<Rightarrow> SeqStateTuple" where
  "next_row db t = (case sync_state_row (seq_last_value db (ss_seqoid t)) t of
     None \<Rightarrow> t | Some (_, n) \<Rightarrow> n)"

definition is_behind :: "provider_db \<Rightarrow> SeqStateTuple \<Rightarrow> bool" where
  "is_behind db t \<longleftrightarrow> sync_state_row (seq_last_value db (ss_seqoid t)) t \<noteq> None"

definition is_consumed :: "provider_db \<Rightarrow> SeqStateTuple \<Rightarrow> bool" where
  "is_consumed db t \<longleftrightarrow> (case sync_state_row (seq_last_value db (ss_seqoid t)) t of
     None \<Rightarrow> False | Some (c, _) \<Rightarrow> c)"

text \<open>The message for a row says what the row then stores, to the sets that have the sequence.\<close>

definition announces :: "'j seq_env \<Rightarrow> oid \<Rightarrow> provider_db \<Rightarrow> SeqStateTuple \<Rightarrow> QueueTuple \<Rightarrow> bool" where
  "announces S nodeid db t m \<longleftrightarrow>
     qt_message_type m = QUEUE_COMMAND_TYPE_SEQUENCE \<and>
     (\<exists>r nsp sets. pg_class db (ss_seqoid t) = Some r \<and> sq_namespace_name S (relnamespace r) = Some nsp \<and>
        json_in (sq_queue S) (sequence_json (sq_escape_json S) nsp (relname r) (ss_last_value t)) =
          Inr (qt_message m) \<and>
        get_seq_replication_sets nodeid (ss_seqoid t) db = Inr sets \<and>
        qt_replication_sets m = (if sets = [] then None else Some (map rs_name sets)))"

text \<open>What the backend must provide: the role, the JSON input, and the relations with their schemas.\<close>

definition seq_env_ok :: "'j seq_env \<Rightarrow> provider_db \<Rightarrow> bool" where
  "seq_env_ok S db \<longleftrightarrow> GetUserNameFromId (sq_queue S) (GetUserId S) \<noteq> None \<and>
     (\<forall>j. is_ok (json_in (sq_queue S) j)) \<and>
     list_all (\<lambda>t. case pg_class db (ss_seqoid t) of None \<Rightarrow> False
        | Some r \<Rightarrow> sq_namespace_name S (relnamespace r) \<noteq> None) (cat_sequence_state db)"

section \<open>An example\<close>

definition ex_senv :: "string seq_env" where
  "ex_senv = \<lparr> sq_queue = \<lparr> GetCurrentTimestamp = 0, GetUserNameFromId = (\<lambda>_. Some ''postgres''),
     json_in = Inr, jsonb_in = Inr \<rparr>, sq_escape_json = (\<lambda>s. s), sq_namespace_name = (\<lambda>_. Some ''public''),
     GetUserId = 10 \<rparr>"

definition ex_seqdb :: provider_db where
  "ex_seqdb = ex_pdb\<lparr> pg_class := [16500 \<mapsto> ex_rtable\<lparr> rd_id := 16500, relkind := RELKIND_SEQUENCE \<rparr>],
     cat_repset_seq := [\<lparr> rq_setid = 1, rq_seqoid = 16500 \<rparr>],
     cat_sequence_state := [\<lparr> ss_seqoid = 16500, ss_cache_size = 1000, ss_last_value = 1 \<rparr>] \<rparr>"

section \<open>Lemmas\<close>

lemma sint_word_of_int:
  "- (2 ^ 63) \<le> n \<Longrightarrow> n < 2 ^ 63 \<Longrightarrow> sint (word_of_int n :: 64 word) = n"
  "- (2 ^ 31) \<le> n \<Longrightarrow> n < 2 ^ 31 \<Longrightarrow> sint (word_of_int n :: 32 word) = n"
  by (simp_all add: int_word_sint)

lemma sint_add_small:
  fixes v :: "64 word"
  assumes "0 \<le> n" "n \<le> 1000000" "sint v < 2 ^ 63 - 1000000"
  shows "sint (v + word_of_int n) = sint v + n"
proof -
  have "- (2 ^ 63) \<le> sint v" using sint_greater_eq [of v] by simp
  then show ?thesis
    using assms by (simp add: sint_word_ariths sint_word_of_int signed_take_bit_int_eq_self)
qed

lemma cache_size_double:
  "cache_size_ok t \<Longrightarrow> sint (ss_cache_size t * 2) = sint (ss_cache_size t) * 2"
  by (simp add: cache_size_ok_def sint_word_ariths signed_take_bit_int_eq_self)

text \<open>One row, when the current value is not near the end of the 64-bit range.\<close>

lemma next_row_ahead:
  assumes "cache_size_ok t" "sint (seq_last_value db (ss_seqoid t)) < 2 ^ 63 - 2000000"
  shows "cache_size_ok (next_row db t)" "ss_seqoid (next_row db t) = ss_seqoid t"
    "sint (seq_last_value db (ss_seqoid t)) + 500 \<le> sint (ss_last_value (next_row db t))"
    "is_behind db t \<longleftrightarrow> sint (ss_last_value t) < sint (seq_last_value db (ss_seqoid t)) + 500"
    "is_consumed db t \<longleftrightarrow> sint (ss_last_value t) + sint (ss_cache_size t) div 2 <
       sint (seq_last_value db (ss_seqoid t))"
proof -
  let ?v = "seq_last_value db (ss_seqoid t)" and ?c = "sint (ss_cache_size t)"
  have c: "1000 \<le> ?c" "?c \<le> 1000000" using assms(1) by (simp_all add: cache_size_ok_def)
  have v: "sint ?v < 2 ^ 63 - 1000000" using assms(2) by simp
  have v500: "sint (?v + 500) = sint ?v + 500"
    using sint_add_small [of 500, OF _ _ v] by simp
  show beh: "is_behind db t \<longleftrightarrow> sint (ss_last_value t) < sint ?v + 500"
    by (simp add: is_behind_def sync_state_row_def v500 Let_def)
  let ?n = "next_row db t"
  show "ss_seqoid ?n = ss_seqoid t"
    by (simp add: next_row_def sync_state_row_def Let_def)
  have notbeh: "?n = t" if "\<not> is_behind db t"
    using that by (auto simp: next_row_def is_behind_def split: option.splits)
  have sz: "cache_size_ok ?n \<and> ss_last_value ?n = ?v + int64_of (ss_cache_size ?n)" if "is_behind db t"
    using that c cache_size_double [OF assms(1)]
    by (auto simp: next_row_def is_behind_def sync_state_row_def Let_def cache_size_ok_def split: if_splits)
  show "cache_size_ok ?n"
    using notbeh sz assms(1) by (cases "is_behind db t") auto
  show "sint ?v + 500 \<le> sint (ss_last_value ?n)"
  proof (cases "is_behind db t")
    case True
    with sz have "sint (ss_last_value ?n) = sint ?v + sint (ss_cache_size ?n)"
      using sint_add_small [of "sint (ss_cache_size ?n)", OF _ _ v]
      by (auto simp: int64_of_def cache_size_ok_def)
    then show ?thesis using sz True by (simp add: cache_size_ok_def)
  qed (use notbeh beh in simp)
  have half: "int64_of (int32_half (ss_cache_size t)) = word_of_int (?c div 2)"
    using c by (simp add: int64_of_def int32_half_def sint_word_of_int)
  show "is_consumed db t \<longleftrightarrow> sint (ss_last_value t) + ?c div 2 < sint ?v"
  proof (cases "is_behind db t")
    case True
    then have "sint (ss_last_value t + word_of_int (?c div 2)) = sint (ss_last_value t) + ?c div 2"
      using beh c assms(2) by (intro sint_add_small) auto
    then show ?thesis
      using True by (auto simp: is_consumed_def is_behind_def sync_state_row_def half Let_def split: if_splits)
  qed (use c beh in \<open>auto simp: is_consumed_def is_behind_def split: option.splits\<close>)
qed

lemma update_first_here:
  "i \<notin> ss_seqoid ` set xs \<Longrightarrow> ss_seqoid t = i \<Longrightarrow>
   update_first (\<lambda>r. ss_seqoid r = i) (\<lambda>_. n) (xs @ t # ys) = xs @ n # ys"
  by (induction xs) auto

text \<open>The sets of a sequence can be read: every member row refers to a set.\<close>

lemma get_seq_sets_ok:
  assumes "rq_setid ` set (cat_repset_seq db) \<subseteq> rs_id ` set (cat_repset db)"
  shows "\<exists>sets. get_seq_replication_sets n q db = Inr sets"
proof -
  have "\<exists>s. get_replication_set (rq_setid t) db = Inr s" if t: "t \<in> set (cat_repset_seq db)" for t
  proof -
    obtain s where "s \<in> set (cat_repset db)" "rs_id s = rq_setid t"
      using assms t by (metis imageE image_subset_iff)
    then have "List.find (\<lambda>r. rs_id r = rq_setid t) (cat_repset db) \<noteq> None"
      unfolding find_None_all by blast
    then show ?thesis by (auto simp: get_set_Inr)
  qed
  then have "\<exists>ys. rmap (\<lambda>t. get_replication_set (rq_setid t) db) xs = Inr ys"
    if "set xs \<subseteq> set (cat_repset_seq db)" for xs
    using that by (induction xs) (auto simp: rbind_eq_Inr)
  from this [OF filter_is_subset [of "\<lambda>t. rq_seqoid t = q"]] show ?thesis
    by (auto simp: get_seq_replication_sets_def)
qed

lemma get_seq_sets_cong:
  "get_seq_replication_sets n q (db\<lparr> cat_sequence_state := x \<rparr>) = get_seq_replication_sets n q db"
  by (simp add: get_seq_replication_sets_def get_replication_set_def)

lemma synchronize_row_eq:
  assumes env: "seq_env_ok S db" and t: "t \<in> set (cat_sequence_state db)"
    and d: "d = db\<lparr> cat_sequence_state := xs @ t # ys \<rparr>" "ss_seqoid t \<notin> ss_seqoid ` set xs"
    and refs: "rq_setid ` set (cat_repset_seq db) \<subseteq> rs_id ` set (cat_repset db)"
  shows "\<exists>ms. synchronize_row S nodeid t (ret, d, queue) =
      Inr (ret \<and> \<not> is_consumed db t, db\<lparr> cat_sequence_state := xs @ next_row db t # ys \<rparr>, queue @ ms) \<and>
    list_all2 (announces S nodeid db) (if is_behind db t then [next_row db t] else []) ms"
proof -
  obtain r nsp role where r: "pg_class db (ss_seqoid t) = Some r"
    "sq_namespace_name S (relnamespace r) = Some nsp" "GetUserNameFromId (sq_queue S) (GetUserId S) = Some role"
  proof -
    have "\<exists>r nsp. pg_class db (ss_seqoid t) = Some r \<and> sq_namespace_name S (relnamespace r) = Some nsp"
      using env t by (fastforce simp: seq_env_ok_def list_all_iff split: option.splits)
    then show ?thesis using env that by (auto simp: seq_env_ok_def)
  qed
  have v: "sequence_get_last_value (ss_seqoid t) d = Inr (seq_last_value db (ss_seqoid t))"
    "heap_open_class (ss_seqoid t) d = Inr r"
    using r by (simp_all add: sequence_get_last_value_def heap_open_class_def d(1))
  show ?thesis
  proof (cases "sync_state_row (seq_last_value db (ss_seqoid t)) t")
    case None
    then show ?thesis
      using v d(1) by (auto simp: synchronize_row_def is_behind_def is_consumed_def next_row_def)
  next
    case (Some p)
    obtain c n where p: "p = (c, n)" by (cases p)
    have n: "ss_seqoid n = ss_seqoid t"
      using Some by (auto simp: p sync_state_row_def Let_def split: if_splits)
    obtain sets where sets: "get_seq_replication_sets nodeid (ss_seqoid t) db = Inr sets"
      using get_seq_sets_ok [OF refs] by blast
    obtain j where j: "json_in (sq_queue S) (sequence_json (sq_escape_json S) nsp (relname r) (ss_last_value n)) = Inr j"
      using env unfolding seq_env_ok_def is_ok_iff by blast
    show ?thesis
      using Some v r sets j update_first_here [OF d(2), of t n ys] n
      by (auto simp: synchronize_row_def p store_and_queue_def Let_def d(1) get_seq_sets_cong queue_message_def
          is_behind_def is_consumed_def next_row_def announces_def)
  qed
qed

lemma synchronize_loop:
  assumes env: "seq_env_ok S db" and rs: "set rs \<subseteq> set (cat_sequence_state db)"
    and dist: "distinct (map ss_seqoid (xs @ rs))"
    and refs: "rq_setid ` set (cat_repset_seq db) \<subseteq> rs_id ` set (cat_repset db)"
  shows "\<exists>ms. foreach_row (synchronize_row S nodeid) rs (ret, db\<lparr> cat_sequence_state := xs @ rs \<rparr>, queue) =
      Inr (ret \<and> \<not> list_ex (is_consumed db) rs,
           db\<lparr> cat_sequence_state := xs @ map (next_row db) rs \<rparr>, queue @ ms) \<and>
    list_all2 (announces S nodeid db) (map (next_row db) (filter (is_behind db) rs)) ms"
  using rs dist
proof (induction rs arbitrary: xs ret queue)
  case (Cons t rs)
  have t: "t \<in> set (cat_sequence_state db)" "ss_seqoid t \<notin> ss_seqoid ` set xs"
    using Cons.prems by auto
  obtain m1 where 1: "synchronize_row S nodeid t (ret, db\<lparr> cat_sequence_state := xs @ t # rs \<rparr>, queue) =
      Inr (ret \<and> \<not> is_consumed db t, db\<lparr> cat_sequence_state := xs @ next_row db t # rs \<rparr>, queue @ m1)"
    "list_all2 (announces S nodeid db) (if is_behind db t then [next_row db t] else []) m1"
    using synchronize_row_eq [OF env t(1) refl t(2) refs] by blast
  have "ss_seqoid (next_row db t) = ss_seqoid t"
    by (simp add: next_row_def sync_state_row_def Let_def)
  then obtain m2 where 2: "foreach_row (synchronize_row S nodeid) rs
      (ret \<and> \<not> is_consumed db t, db\<lparr> cat_sequence_state := (xs @ [next_row db t]) @ rs \<rparr>, queue @ m1) =
      Inr ((ret \<and> \<not> is_consumed db t) \<and> \<not> list_ex (is_consumed db) rs,
           db\<lparr> cat_sequence_state := (xs @ [next_row db t]) @ map (next_row db) rs \<rparr>, (queue @ m1) @ m2)"
    "list_all2 (announces S nodeid db) (map (next_row db) (filter (is_behind db) rs)) m2"
    using Cons.IH [of "xs @ [next_row db t]" "ret \<and> \<not> is_consumed db t" "queue @ m1"] Cons.prems by auto
  have "list_all2 (announces S nodeid db) (map (next_row db) (filter (is_behind db) (t # rs))) (m1 @ m2)"
    using list_all2_appendI [OF 1(2) 2(2)] by (auto split: if_splits)
  then show ?case
    using 1(1) 2(1) by (intro exI [of _ "m1 @ m2"]) auto
qed simp

section \<open>Properties\<close>

text \<open>
  C22.  Synchronization keeps every replicated sequence ahead.  On a node with consistent catalogs whose
  backend calls succeed, and while the sequences are not within two million of the end of the 64-bit range, the
  run returns; afterwards each state record stores a value at least 500 ahead of the value in use, with
  a cache size within its bounds.  A record is changed exactly when it was less than 500 ahead, and
  exactly those sequences are announced, in order, each with the value its record then stores and to the
  sets that have it.  The result says whether no sequence had used up more than half of its cache.
\<close>

theorem sequences_stay_ahead:
  assumes "repset_catalog_ok db" "seq_env_ok S db" "get_local_node True cat = Inr (Some ln)"
    and "\<forall>t \<in> set (cat_sequence_state db). sint (seq_last_value db (ss_seqoid t)) < 2 ^ 63 - 2000000"
  shows "\<exists>ret db' ms. synchronize_sequences S cat db queue = Inr (ret, db', queue @ ms) \<and>
    map ss_seqoid (cat_sequence_state db') = map ss_seqoid (cat_sequence_state db) \<and>
    (\<forall>t \<in> set (cat_sequence_state db'). cache_size_ok t \<and>
       sint (seq_last_value db' (ss_seqoid t)) + 500 \<le> sint (ss_last_value t)) \<and>
    (ret \<longleftrightarrow> (\<forall>t \<in> set (cat_sequence_state db).
       sint (seq_last_value db (ss_seqoid t)) \<le> sint (ss_last_value t) + sint (ss_cache_size t) div 2)) \<and>
    list_all2 (announces S (node_id (ln_node ln)) db')
      (map (next_row db) (filter (\<lambda>t. sint (ss_last_value t) < sint (seq_last_value db (ss_seqoid t)) + 500)
         (cat_sequence_state db))) ms \<and>
    (\<forall>t \<in> set (cat_sequence_state db).
       sint (seq_last_value db (ss_seqoid t)) + 500 \<le> sint (ss_last_value t) \<longrightarrow>
       t \<in> set (cat_sequence_state db'))"
proof -
  let ?rs = "cat_sequence_state db"
  have dist: "distinct (map ss_seqoid ?rs)"
    using seq_state.key_inj [OF repset_okD(4) [OF assms(1)]]
      rows_ok_distinct [OF repset_okD(4) [OF assms(1)]]
    by (auto simp: distinct_map inj_on_def seq_state_conflicts_def)
  have refs: "rq_setid ` set (cat_repset_seq db) \<subseteq> rs_id ` set (cat_repset db)"
    and sizes: "\<forall>t \<in> set ?rs. cache_size_ok t"
    using assms(1) by (auto simp: repset_catalog_ok_def)
  obtain ms where ms: "foreach_row (synchronize_row S (node_id (ln_node ln))) ?rs (True, db, queue) =
      Inr (\<not> list_ex (is_consumed db) ?rs, db\<lparr> cat_sequence_state := map (next_row db) ?rs \<rparr>, queue @ ms)"
    "list_all2 (announces S (node_id (ln_node ln)) db) (map (next_row db) (filter (is_behind db) ?rs)) ms"
    using synchronize_loop [OF assms(2) order_refl _ refs, of "[]" "node_id (ln_node ln)" True queue] dist
    by auto
  have row: "cache_size_ok (next_row db t)" "ss_seqoid (next_row db t) = ss_seqoid t"
    "sint (seq_last_value db (ss_seqoid t)) + 500 \<le> sint (ss_last_value (next_row db t))"
    "is_behind db t \<longleftrightarrow> sint (ss_last_value t) < sint (seq_last_value db (ss_seqoid t)) + 500"
    "is_consumed db t \<longleftrightarrow> sint (ss_last_value t) + sint (ss_cache_size t) div 2 <
       sint (seq_last_value db (ss_seqoid t))" if "t \<in> set ?rs" for t
    using next_row_ahead sizes assms(4) that by auto
  have keep: "next_row db t = t" if "\<not> is_behind db t" for t
    using that by (auto simp: next_row_def is_behind_def split: option.splits)
  have ann: "announces S n (db\<lparr> cat_sequence_state := x \<rparr>) = announces S n db" for n x
    by (simp add: announces_def get_seq_sets_cong fun_eq_iff)
  have beh: "filter (\<lambda>t. sint (ss_last_value t) < sint (seq_last_value db (ss_seqoid t)) + 500) ?rs =
      filter (is_behind db) ?rs"
    using row(4) by (intro filter_cong) auto
  show ?thesis
    using ms row keep assms(3) unfolding beh
    by (intro exI [of _ "\<not> list_ex (is_consumed db) ?rs"] exI [of _ "db\<lparr> cat_sequence_state := map (next_row db) ?rs \<rparr>"]
        exI [of _ ms]) (auto simp: synchronize_sequences_def ann list_ex_iff not_less image_iff; force)
qed

theorem sequences_stay_ahead_witness:
  "\<exists>ret db' ms. synchronize_sequences ex_senv ex_catalog ex_seqdb [] = Inr (ret, db', ms) \<and>
     ret \<and> length ms = 1 \<and> map ss_seqoid (cat_sequence_state db') = [16500] \<and>
     (\<forall>t \<in> set (cat_sequence_state db'). sint (seq_last_value db' (ss_seqoid t)) + 500 \<le> sint (ss_last_value t))"
proof -
  have ok: "repset_catalog_ok ex_seqdb"
    by (simp add: repset_catalog_ok_def ex_seqdb_def ex_pdb_def rows_ok_def ex_default_def cache_size_ok_def)
  have env: "seq_env_ok ex_senv ex_seqdb"
    by (simp add: seq_env_ok_def ex_senv_def ex_seqdb_def)
  have ln: "get_local_node True ex_catalog = Inr (Some \<lparr> ln_node = ex_node 2 ''subscriber'', ln_node_if = ex_if 12 2 \<rparr>)"
    by (simp add: get_local_node_def ex_catalog_def get_node_def get_node_interface_def ex_node_def ex_if_def)
  have small: "\<forall>t \<in> set (cat_sequence_state ex_seqdb). sint (seq_last_value ex_seqdb (ss_seqoid t)) < 2 ^ 63 - 2000000"
    by (simp add: ex_seqdb_def ex_pdb_def)
  have rows: "cat_sequence_state ex_seqdb = [\<lparr> ss_seqoid = 16500, ss_cache_size = 1000, ss_last_value = 1 \<rparr>]"
    "seq_last_value ex_seqdb 16500 = 1"
    by (simp_all add: ex_seqdb_def ex_pdb_def)
  show ?thesis
    using sequences_stay_ahead [OF ok env ln small, of "[]"] by (auto simp: rows dest!: list_all2_lengthD)
qed

end
