(* ===== verification/Pgl_Json.thy ===== *)
theory Pgl_Json
  imports Pgl_Types
begin

text \<open>
  The JSON protocol writer, \<open>src/pglogical_output/pglogical_proto_json.c\<close>.  The conversion of a row to
  JSON, JSON string escaping and the printing of time stamps are backend functions and are the
  parameter \<open>J\<close>; \<open>have_origins\<close> is the compile-time switch \<open>HAVE_REPLICATION_ORIGINS\<close>.
\<close>

record jsonio =
  row_to_json :: "relation \<Rightarrow> heap_tuple \<Rightarrow> string"
  escape_json :: "string \<Rightarrow> string"
  timestamptz_to_str :: "timestamptz \<Rightarrow> string"

abbreviation DQ :: string where
  "DQ \<equiv> [CHR 0x22]"

text \<open>\<open>, "key":"val"\<close> and a log position in the format \<open>%X/%X\<close>.\<close>

definition json_field :: "string \<Rightarrow> string \<Rightarrow> string" where
  "json_field key val = '', '' @ DQ @ key @ DQ @ '':'' @ DQ @ val @ DQ"

definition lsn_str :: "xlogrecptr \<Rightarrow> string" where
  "lsn_str lsn = hex_of_nat (unat (drop_bit 32 lsn)) @ ''/'' @ hex_of_nat (unat lsn mod 2 ^ 32)"

definition pglogical_json_write_begin ::
  "jsonio \<Rightarrow> bool \<Rightarrow> 'p PGLogicalOutputData \<Rightarrow> reorderbuffer_txn \<Rightarrow> string" where
  "pglogical_json_write_begin J have_origins data txn =
     ''{'' @ DQ @ ''action'' @ DQ @ '':'' @ DQ @ ''B'' @ DQ @
     json_field ''has_catalog_changes'' (if has_catalog_changes txn then ''t'' else ''f'') @
     (if have_origins \<and> origin_id txn \<noteq> InvalidRepOriginId
      then json_field ''origin_id'' (dec_of_nat (unat (origin_id txn))) else []) @
     (if \<not> client_no_txinfo data
      then json_field ''xid'' (dec_of_nat (unat (xid txn))) @
           json_field ''first_lsn'' (lsn_str (first_lsn txn)) @
           (if have_origins then json_field ''origin_lsn'' (lsn_str (origin_lsn txn)) else []) @
           (if commit_time txn \<noteq> 0
            then json_field ''commit_time'' (timestamptz_to_str J (commit_time txn)) else [])
      else []) @
     ''}''"

definition pglogical_json_write_commit ::
  "'p PGLogicalOutputData \<Rightarrow> reorderbuffer_txn \<Rightarrow> xlogrecptr \<Rightarrow> string" where
  "pglogical_json_write_commit data txn commit_lsn =
     ''{'' @ DQ @ ''action'' @ DQ @ '':'' @ DQ @ ''C'' @ DQ @
     (if \<not> client_no_txinfo data
      then json_field ''final_lsn'' (lsn_str (final_lsn txn)) @
           json_field ''end_lsn'' (lsn_str (end_lsn txn))
      else []) @
     ''}''"

definition json_write_tuple :: "jsonio \<Rightarrow> relation \<Rightarrow> heap_tuple \<Rightarrow> string" where
  "json_write_tuple J rel tuple = row_to_json J rel tuple"

text \<open>A missing namespace is a NULL pointer, which \<open>printf\<close> shows as \<open>(null)\<close>.\<close>

definition pglogical_json_write_change ::
  "jsonio \<Rightarrow> (oid \<Rightarrow> string option) \<Rightarrow> string \<Rightarrow> relation \<Rightarrow> heap_tuple option \<Rightarrow> heap_tuple option
     \<Rightarrow> string" where
  "pglogical_json_write_change J get_namespace_name change rel oldtup newtup =
     ''{'' @ DQ @ ''action'' @ DQ @ '':'' @ DQ @ change @ DQ @ '','' @
     DQ @ ''relation'' @ DQ @ '':['' @
     DQ @ (case get_namespace_name (relnamespace rel) of Some n \<Rightarrow> n | None \<Rightarrow> ''(null)'') @ DQ @ '','' @
     DQ @ relname rel @ DQ @ '']'' @
     (case oldtup of None \<Rightarrow> []
      | Some t \<Rightarrow> '','' @ DQ @ ''oldtuple'' @ DQ @ '':'' @ json_write_tuple J rel t) @
     (case newtup of None \<Rightarrow> []
      | Some t \<Rightarrow> '','' @ DQ @ ''newtuple'' @ DQ @ '':'' @ json_write_tuple J rel t) @
     ''}''"

definition pglogical_json_write_insert ::
  "jsonio \<Rightarrow> (oid \<Rightarrow> string option) \<Rightarrow> relation \<Rightarrow> heap_tuple \<Rightarrow> bitmapset option \<Rightarrow> string" where
  "pglogical_json_write_insert J ns rel newtup att_list =
     pglogical_json_write_change J ns ''I'' rel None (Some newtup)"

definition pglogical_json_write_update ::
  "jsonio \<Rightarrow> (oid \<Rightarrow> string option) \<Rightarrow> relation \<Rightarrow> heap_tuple option \<Rightarrow> heap_tuple
     \<Rightarrow> bitmapset option \<Rightarrow> string" where
  "pglogical_json_write_update J ns rel oldtup newtup att_list =
     pglogical_json_write_change J ns ''U'' rel oldtup (Some newtup)"

definition pglogical_json_write_delete ::
  "jsonio \<Rightarrow> (oid \<Rightarrow> string option) \<Rightarrow> relation \<Rightarrow> heap_tuple \<Rightarrow> bitmapset option \<Rightarrow> string" where
  "pglogical_json_write_delete J ns rel oldtup att_list =
     pglogical_json_write_change J ns ''D'' rel (Some oldtup) None"

fun json_params :: "jsonio \<Rightarrow> bool \<Rightarrow> defelem list \<Rightarrow> string" where
  "json_params J first [] = []"
| "json_params J first (param # msg) =
     (if first then [] else '','') @
     escape_json J (defname param) @ '':'' @ escape_json J (the (defarg param)) @
     json_params J False msg"

definition json_write_startup_message :: "jsonio \<Rightarrow> defelem list \<Rightarrow> string" where
  "json_write_startup_message J msg =
     ''{'' @ DQ @ ''action'' @ DQ @ '':'' @ DQ @ ''S'' @ DQ @ '', '' @ DQ @ ''params'' @ DQ @ '': {'' @
     json_params J True msg @ ''}}''"

end
