(* ===== verification/Pgl_Config.thy ===== *)
theory Pgl_Config
  imports Pgl_Types
begin

text \<open>
  Startup parameters of the output plugin, \<open>src/pglogical_output/pglogical_config.c\<close>: parsing what
  the client sent into \<open>PGLogicalOutputData\<close>, and building the startup message that answers it.  The
  build-time constants of the server (\<open>pglogical_config.h\<close>) and the backend's parsing and encoding
  functions are the parameter \<open>S\<close>.
\<close>

section \<open>The server\<close>

record server_env =
  PG_VERSION_NUM :: int
  PG_VERSION :: string
  CATALOG_VERSION_NO :: int
  sizeof_datum :: int
  sizeof_int :: int
  sizeof_long :: int
  MAXIMUM_ALIGNOF :: int
  server_bigendian :: bool
  server_float4_byval :: bool
  server_float8_byval :: bool
  server_integer_datetimes :: bool
  have_replication_origins :: bool
  MyProcPid :: int
  GetDatabaseEncoding :: int
  GetDatabaseEncodingName :: string
  pg_get_client_encoding :: int
  pg_char_to_encoding :: "string \<Rightarrow> int"
  pg_encoding_to_char :: "int \<Rightarrow> string"
  parse_bool :: "string \<Rightarrow> bool option"
  scanint8 :: "string \<Rightarrow> int option"
  pg_strcaseeq :: "string \<Rightarrow> string \<Rightarrow> bool"
  textToQualifiedNameList :: "string \<Rightarrow> string list result"

abbreviation PGLOGICAL_OUTPUT_VERSION_NUM :: int where
  "PGLOGICAL_OUTPUT_VERSION_NUM \<equiv> 10100"

abbreviation PGLOGICAL_OUTPUT_VERSION :: string where
  "PGLOGICAL_OUTPUT_VERSION \<equiv> ''1.1.0''"

abbreviation PGLOGICAL_PROTO_VERSION_NUM :: "32 word" where
  "PGLOGICAL_PROTO_VERSION_NUM \<equiv> 1"

abbreviation PGLOGICAL_PROTO_MIN_VERSION_NUM :: "32 word" where
  "PGLOGICAL_PROTO_MIN_VERSION_NUM \<equiv> 1"

abbreviation PGLOGICAL_STARTUP_PARAM_FORMAT_FLAT :: "32 word" where
  "PGLOGICAL_STARTUP_PARAM_FORMAT_FLAT \<equiv> 1"

section \<open>Parameter names\<close>

datatype output_param_type =
    OUTPUT_PARAM_TYPE_BOOL
  | OUTPUT_PARAM_TYPE_UINT32
  | OUTPUT_PARAM_TYPE_INT32
  | OUTPUT_PARAM_TYPE_STRING
  | OUTPUT_PARAM_TYPE_QUALIFIED_NAME

datatype output_param_key =
    PARAM_UNRECOGNISED
  | PARAM_MAX_PROTOCOL_VERSION
  | PARAM_MIN_PROTOCOL_VERSION
  | PARAM_PROTOCOL_FORMAT
  | PARAM_EXPECTED_ENCODING
  | PARAM_BINARY_BIGENDIAN
  | PARAM_BINARY_SIZEOF_DATUM
  | PARAM_BINARY_SIZEOF_INT
  | PARAM_BINARY_SIZEOF_LONG
  | PARAM_BINARY_FLOAT4BYVAL
  | PARAM_BINARY_FLOAT8BYVAL
  | PARAM_BINARY_INTEGER_DATETIMES
  | PARAM_BINARY_WANT_INTERNAL_BASETYPES
  | PARAM_BINARY_WANT_BINARY_BASETYPES
  | PARAM_BINARY_BASETYPES_MAJOR_VERSION
  | PARAM_PG_VERSION
  | PARAM_HOOKS_SETUP_FUNCTION
  | PARAM_NO_TXINFO

definition param_lookup :: "(string \<times> output_param_key) list" where
  "param_lookup = [
     (''max_proto_version'', PARAM_MAX_PROTOCOL_VERSION),
     (''min_proto_version'', PARAM_MIN_PROTOCOL_VERSION),
     (''proto_format'', PARAM_PROTOCOL_FORMAT),
     (''expected_encoding'', PARAM_EXPECTED_ENCODING),
     (''binary.bigendian'', PARAM_BINARY_BIGENDIAN),
     (''binary.sizeof_datum'', PARAM_BINARY_SIZEOF_DATUM),
     (''binary.sizeof_int'', PARAM_BINARY_SIZEOF_INT),
     (''binary.sizeof_long'', PARAM_BINARY_SIZEOF_LONG),
     (''binary.float4_byval'', PARAM_BINARY_FLOAT4BYVAL),
     (''binary.float8_byval'', PARAM_BINARY_FLOAT8BYVAL),
     (''binary.integer_datetimes'', PARAM_BINARY_INTEGER_DATETIMES),
     (''binary.want_internal_basetypes'', PARAM_BINARY_WANT_INTERNAL_BASETYPES),
     (''binary.want_binary_basetypes'', PARAM_BINARY_WANT_BINARY_BASETYPES),
     (''binary.basetypes_major_version'', PARAM_BINARY_BASETYPES_MAJOR_VERSION),
     (''pg_version'', PARAM_PG_VERSION),
     (''hooks.setup_function'', PARAM_HOOKS_SETUP_FUNCTION),
     (''no_txinfo'', PARAM_NO_TXINFO)]"

definition get_param_key :: "string \<Rightarrow> output_param_key" where
  "get_param_key name = (case map_of param_lookup name of Some k \<Rightarrow> k | None \<Rightarrow> PARAM_UNRECOGNISED)"

section \<open>Parameter values\<close>

text \<open>A \<open>Datum\<close> of the kind that was asked for; \<open>PV_Null\<close> is \<open>(Datum) 0\<close>.\<close>

datatype param_value =
    PV_Null
  | PV_Bool bool
  | PV_UInt32 "32 word"
  | PV_Int32 "32 word"
  | PV_String string
  | PV_QName "string list"

fun DatumGetUInt32 :: "param_value \<Rightarrow> 32 word" where
  "DatumGetUInt32 (PV_UInt32 w) = w"
| "DatumGetUInt32 (PV_Int32 w) = w"
| "DatumGetUInt32 _ = 0"

fun DatumGetBool :: "param_value \<Rightarrow> bool" where
  "DatumGetBool (PV_Bool b) = b"
| "DatumGetBool _ = False"

fun DatumGetCString :: "param_value \<Rightarrow> string option" where
  "DatumGetCString (PV_String s) = Some s"
| "DatumGetCString _ = None"

fun DatumGetQName :: "param_value \<Rightarrow> string list" where
  "DatumGetQName (PV_QName l) = l"
| "DatumGetQName _ = []"

definition parse_param_bool :: "server_env \<Rightarrow> string \<Rightarrow> bool result" where
  "parse_param_bool S val = (case parse_bool S val of
      None \<Rightarrow> ereport ERRCODE_INVALID_PARAMETER_VALUE
                ''could not parse boolean value %s for parameter %s''
    | Some res \<Rightarrow> Inr res)"

definition parse_param_uint32 :: "server_env \<Rightarrow> string \<Rightarrow> 32 word result" where
  "parse_param_uint32 S val = (case scanint8 S val of
      None \<Rightarrow> ereport ERRCODE_INVALID_PARAMETER_VALUE
                ''could not parse integer value %s for parameter %s''
    | Some res \<Rightarrow>
        if res > 4294967295 \<or> res < 0
        then ereport ERRCODE_INVALID_PARAMETER_VALUE ''value %s out of range for parameter %s''
        else Inr (of_int res))"

definition parse_param_int32 :: "server_env \<Rightarrow> string \<Rightarrow> 32 word result" where
  "parse_param_int32 S val = (case scanint8 S val of
      None \<Rightarrow> ereport ERRCODE_INVALID_PARAMETER_VALUE
                ''could not parse integer value %s for parameter %s''
    | Some res \<Rightarrow>
        if res > 2147483647 \<or> res < -2147483648
        then ereport ERRCODE_INVALID_PARAMETER_VALUE ''value %s out of range for parameter %s''
        else Inr (of_int res))"

definition get_param_value ::
  "server_env \<Rightarrow> defelem \<Rightarrow> bool \<Rightarrow> output_param_type \<Rightarrow> param_value result" where
  "get_param_value S elem null_ok ty =
     (case defarg elem of
        None \<Rightarrow> if null_ok then Inr PV_Null
                else ereport ERRCODE_INVALID_PARAMETER_VALUE ''parameter %s cannot be NULL''
      | Some val \<Rightarrow>
          (case ty of
             OUTPUT_PARAM_TYPE_UINT32 \<Rightarrow> rbind (parse_param_uint32 S val) (\<lambda>w. Inr (PV_UInt32 w))
           | OUTPUT_PARAM_TYPE_INT32 \<Rightarrow> rbind (parse_param_int32 S val) (\<lambda>w. Inr (PV_Int32 w))
           | OUTPUT_PARAM_TYPE_BOOL \<Rightarrow> rbind (parse_param_bool S val) (\<lambda>b. Inr (PV_Bool b))
           | OUTPUT_PARAM_TYPE_STRING \<Rightarrow> Inr (PV_String val)
           | OUTPUT_PARAM_TYPE_QUALIFIED_NAME \<Rightarrow>
               rbind (textToQualifiedNameList S val) (\<lambda>l. Inr (PV_QName l))))"

text \<open>The first option whose name matches without regard to case; the flag is \<open>*found\<close>.\<close>

fun get_param ::
  "server_env \<Rightarrow> defelem list \<Rightarrow> string \<Rightarrow> bool \<Rightarrow> bool \<Rightarrow> output_param_type
     \<Rightarrow> (param_value \<times> bool) result" where
  "get_param S [] name missing_ok null_ok ty =
     (if missing_ok then Inr (PV_Null, False)
      else ereport ERRCODE_INVALID_PARAMETER_VALUE ''missing required parameter %s'')"
| "get_param S (elem # options) name missing_ok null_ok ty =
     (if pg_strcaseeq S name (defname elem)
      then rbind (get_param_value S elem null_ok ty) (\<lambda>v. Inr (v, True))
      else get_param S options name missing_ok null_ok ty)"

section \<open>Reading the parameters\<close>

definition apply_param ::
  "server_env \<Rightarrow> defelem \<Rightarrow> 'p PGLogicalOutputData \<Rightarrow> 'p PGLogicalOutputData result" where
  "apply_param S elem data =
     (case get_param_key (defname elem) of
        PARAM_BINARY_BIGENDIAN \<Rightarrow>
          rbind (get_param_value S elem False OUTPUT_PARAM_TYPE_BOOL) (\<lambda>val.
            Inr (data\<lparr> client_binary_bigendian_set := True,
                       client_binary_bigendian := DatumGetBool val \<rparr>))
      | PARAM_BINARY_SIZEOF_DATUM \<Rightarrow>
          rbind (get_param_value S elem False OUTPUT_PARAM_TYPE_UINT32) (\<lambda>val.
            Inr (data\<lparr> client_binary_sizeofdatum := DatumGetUInt32 val \<rparr>))
      | PARAM_BINARY_SIZEOF_INT \<Rightarrow>
          rbind (get_param_value S elem False OUTPUT_PARAM_TYPE_UINT32) (\<lambda>val.
            Inr (data\<lparr> client_binary_sizeofint := DatumGetUInt32 val \<rparr>))
      | PARAM_BINARY_SIZEOF_LONG \<Rightarrow>
          rbind (get_param_value S elem False OUTPUT_PARAM_TYPE_UINT32) (\<lambda>val.
            Inr (data\<lparr> client_binary_sizeoflong := DatumGetUInt32 val \<rparr>))
      | PARAM_BINARY_FLOAT4BYVAL \<Rightarrow>
          rbind (get_param_value S elem False OUTPUT_PARAM_TYPE_BOOL) (\<lambda>val.
            Inr (data\<lparr> client_binary_float4byval_set := True,
                       client_binary_float4byval := DatumGetBool val \<rparr>))
      | PARAM_BINARY_FLOAT8BYVAL \<Rightarrow>
          rbind (get_param_value S elem False OUTPUT_PARAM_TYPE_BOOL) (\<lambda>val.
            Inr (data\<lparr> client_binary_float4byval_set := True,
                       client_binary_float4byval := DatumGetBool val \<rparr>))
      | PARAM_BINARY_INTEGER_DATETIMES \<Rightarrow>
          rbind (get_param_value S elem False OUTPUT_PARAM_TYPE_BOOL) (\<lambda>val.
            Inr (data\<lparr> client_binary_intdatetimes_set := True,
                       client_binary_intdatetimes := DatumGetBool val \<rparr>))
      | PARAM_PROTOCOL_FORMAT \<Rightarrow>
          rbind (get_param_value S elem False OUTPUT_PARAM_TYPE_STRING) (\<lambda>val.
            Inr (data\<lparr> client_protocol_format := DatumGetCString val \<rparr>))
      | PARAM_EXPECTED_ENCODING \<Rightarrow>
          rbind (get_param_value S elem False OUTPUT_PARAM_TYPE_STRING) (\<lambda>val.
            Inr (data\<lparr> client_expected_encoding := DatumGetCString val \<rparr>))
      | PARAM_PG_VERSION \<Rightarrow>
          rbind (get_param_value S elem False OUTPUT_PARAM_TYPE_UINT32) (\<lambda>val.
            Inr (data\<lparr> client_pg_version := DatumGetUInt32 val \<rparr>))
      | PARAM_BINARY_WANT_INTERNAL_BASETYPES \<Rightarrow>
          rbind (get_param_value S elem False OUTPUT_PARAM_TYPE_BOOL) (\<lambda>val.
            Inr (data\<lparr> client_want_internal_basetypes_set := True,
                       client_want_internal_basetypes := DatumGetBool val \<rparr>))
      | PARAM_BINARY_WANT_BINARY_BASETYPES \<Rightarrow>
          rbind (get_param_value S elem False OUTPUT_PARAM_TYPE_BOOL) (\<lambda>val.
            Inr (data\<lparr> client_want_binary_basetypes_set := True,
                       client_want_binary_basetypes := DatumGetBool val \<rparr>))
      | PARAM_BINARY_BASETYPES_MAJOR_VERSION \<Rightarrow>
          rbind (get_param_value S elem False OUTPUT_PARAM_TYPE_UINT32) (\<lambda>val.
            Inr (data\<lparr> client_binary_basetypes_major_version := DatumGetUInt32 val \<rparr>))
      | PARAM_HOOKS_SETUP_FUNCTION \<Rightarrow>
          rbind (get_param_value S elem False OUTPUT_PARAM_TYPE_QUALIFIED_NAME) (\<lambda>val.
            Inr (data\<lparr> hooks_setup_funcname := DatumGetQName val \<rparr>))
      | PARAM_NO_TXINFO \<Rightarrow>
          rbind (get_param_value S elem False OUTPUT_PARAM_TYPE_BOOL) (\<lambda>val.
            Inr (data\<lparr> client_no_txinfo := DatumGetBool val \<rparr>))
      | PARAM_MAX_PROTOCOL_VERSION \<Rightarrow> Inr data
      | PARAM_MIN_PROTOCOL_VERSION \<Rightarrow> Inr data
      | PARAM_UNRECOGNISED \<Rightarrow> Inr data)"

fun apply_params ::
  "server_env \<Rightarrow> defelem list \<Rightarrow> 'p PGLogicalOutputData \<Rightarrow> 'p PGLogicalOutputData result" where
  "apply_params S [] data = Inr data"
| "apply_params S (elem # options) data = rbind (apply_param S elem data) (apply_params S options)"

definition process_parameters_v1 ::
  "server_env \<Rightarrow> defelem list \<Rightarrow> 'p PGLogicalOutputData \<Rightarrow> 'p PGLogicalOutputData result" where
  "process_parameters_v1 S options data =
     rbind (get_param S options ''max_proto_version'' False False OUTPUT_PARAM_TYPE_UINT32)
       (\<lambda>(vmax, _).
     rbind (get_param S options ''min_proto_version'' False False OUTPUT_PARAM_TYPE_UINT32)
       (\<lambda>(vmin, _).
     apply_params S options
       (data\<lparr> client_max_proto_version := DatumGetUInt32 vmax,
              client_min_proto_version := DatumGetUInt32 vmin \<rparr>)))"

definition process_parameters ::
  "server_env \<Rightarrow> defelem list \<Rightarrow> 'p PGLogicalOutputData
     \<Rightarrow> ('p PGLogicalOutputData \<times> 32 word) result" where
  "process_parameters S options data =
     rbind (get_param S options ''startup_params_format'' False False OUTPUT_PARAM_TYPE_UINT32)
       (\<lambda>(val, _).
     let params_format = DatumGetUInt32 val
     in if params_format = PGLOGICAL_STARTUP_PARAM_FORMAT_FLAT
        then rbind (process_parameters_v1 S options data) (\<lambda>data. Inr (data, params_format))
        else ereport ERRCODE_FEATURE_NOT_SUPPORTED
               ''startup_params_format %d not supported, only version %d supported'')"

section \<open>The startup message\<close>

definition add_startup_msg_s :: "defelem list \<Rightarrow> string \<Rightarrow> string \<Rightarrow> defelem list" where
  "add_startup_msg_s l key val = l @ [\<lparr> defname = key, defarg = Some val \<rparr>]"

definition add_startup_msg_i :: "defelem list \<Rightarrow> string \<Rightarrow> int \<Rightarrow> defelem list" where
  "add_startup_msg_i l key val = l @ [\<lparr> defname = key, defarg = Some (dec_of_int val) \<rparr>]"

definition add_startup_msg_b :: "defelem list \<Rightarrow> string \<Rightarrow> bool \<Rightarrow> defelem list" where
  "add_startup_msg_b l key val =
     l @ [\<lparr> defname = key, defarg = Some (if val then ''t'' else ''f'') \<rparr>]"

definition prepare_startup_message ::
  "server_env \<Rightarrow> 'p PGLogicalOutputData \<Rightarrow> defelem list" where
  "prepare_startup_message S data =
     (let l = [];
          l = add_startup_msg_s l ''max_proto_version'' ''1'';
          l = add_startup_msg_s l ''min_proto_version'' ''1'';
          l = add_startup_msg_b l ''coltypes'' False;
          l = add_startup_msg_i l ''pg_version_num'' (PG_VERSION_NUM S);
          l = add_startup_msg_s l ''pg_version'' (PG_VERSION S);
          l = add_startup_msg_i l ''pg_catversion'' (CATALOG_VERSION_NO S);
          l = add_startup_msg_s l ''database_encoding'' (GetDatabaseEncodingName S);
          l = add_startup_msg_s l ''encoding'' (pg_encoding_to_char S (field_datum_encoding data));
          l = add_startup_msg_b l ''forward_changeset_origins'' (forward_changeset_origins data);
          l = add_startup_msg_i l ''walsender_pid'' (MyProcPid S);
          l = add_startup_msg_s l ''pglogical_output_version'' PGLOGICAL_OUTPUT_VERSION;
          l = add_startup_msg_i l ''pglogical_output_version'' PGLOGICAL_OUTPUT_VERSION_NUM;
          l = add_startup_msg_b l ''binary.internal_basetypes'' (allow_internal_basetypes data);
          l = add_startup_msg_b l ''binary.binary_basetypes'' (allow_binary_basetypes data);
          l = add_startup_msg_i l ''binary.basetypes_major_version'' (PG_VERSION_NUM S div 100);
          l = add_startup_msg_i l ''binary.sizeof_int'' (sizeof_int S);
          l = add_startup_msg_i l ''binary.sizeof_long'' (sizeof_long S);
          l = add_startup_msg_i l ''binary.sizeof_datum'' (sizeof_datum S);
          l = add_startup_msg_i l ''binary.maxalign'' (MAXIMUM_ALIGNOF S);
          l = add_startup_msg_b l ''binary.bigendian'' (server_bigendian S);
          l = add_startup_msg_b l ''binary.float4_byval'' (server_float4_byval S);
          l = add_startup_msg_b l ''binary.float8_byval'' (server_float8_byval S);
          l = add_startup_msg_b l ''binary.integer_datetimes'' (server_integer_datetimes S);
          l = add_startup_msg_i l ''binary.binary_pg_version'' (PG_VERSION_NUM S div 100);
          l = add_startup_msg_b l ''no_txinfo'' (client_no_txinfo data);
          l = add_startup_msg_b l ''hooks.startup_hook_enabled'' (startup_hook (hooks data) \<noteq> None);
          l = add_startup_msg_b l ''hooks.shutdown_hook_enabled'' (shutdown_hook (hooks data) \<noteq> None);
          l = add_startup_msg_b l ''hooks.row_filter_enabled'' (row_filter_hook (hooks data) \<noteq> None);
          l = add_startup_msg_b l ''hooks.transaction_filter_enabled''
                (txn_filter_hook (hooks data) \<noteq> None)
      in l @ extra_startup_params data)"

section \<open>Lemmas\<close>

text \<open>The fields that no startup parameter writes.\<close>

lemma apply_param_keeps:
  assumes "apply_param S elem data = Inr data'"
  shows "allow_internal_basetypes data' = allow_internal_basetypes data \<and>
    allow_binary_basetypes data' = allow_binary_basetypes data \<and>
    client_binary_float8byval_set data' = client_binary_float8byval_set data \<and>
    client_binary_float8byval data' = client_binary_float8byval data \<and>
    client_max_proto_version data' = client_max_proto_version data \<and>
    client_min_proto_version data' = client_min_proto_version data \<and>
    hooks data' = hooks data \<and> api data' = api data \<and>
    extra_startup_params data' = extra_startup_params data"
  using assms
  by (cases "get_param_key (defname elem)") (auto simp: apply_param_def rbind_eq_Inr)

lemma apply_params_keeps:
  assumes "apply_params S options data = Inr data'"
  shows "allow_internal_basetypes data' = allow_internal_basetypes data \<and>
    allow_binary_basetypes data' = allow_binary_basetypes data \<and>
    client_binary_float8byval_set data' = client_binary_float8byval_set data \<and>
    client_binary_float8byval data' = client_binary_float8byval data \<and>
    client_max_proto_version data' = client_max_proto_version data \<and>
    client_min_proto_version data' = client_min_proto_version data \<and>
    hooks data' = hooks data \<and> api data' = api data \<and>
    extra_startup_params data' = extra_startup_params data"
  using assms
  by (induction options arbitrary: data) (auto simp: rbind_eq_Inr dest!: apply_param_keeps)

text \<open>A successful parse is one of format 1 with both protocol versions given as numbers.\<close>

lemma process_parameters_Inr:
  assumes "process_parameters S options data = Inr (data', fmt)"
  obtains vmax vmin f1 f2 where "fmt = 1"
    "get_param S options ''max_proto_version'' False False OUTPUT_PARAM_TYPE_UINT32 = Inr (vmax, f1)"
    "get_param S options ''min_proto_version'' False False OUTPUT_PARAM_TYPE_UINT32 = Inr (vmin, f2)"
    "apply_params S options
       (data\<lparr> client_max_proto_version := DatumGetUInt32 vmax,
              client_min_proto_version := DatumGetUInt32 vmin \<rparr>) = Inr data'"
  using assms
  by (auto simp: process_parameters_def process_parameters_v1_def rbind_eq_Inr Let_def
      split: if_splits)

lemma scanned_uint32:
  "get_param_value S elem nok OUTPUT_PARAM_TYPE_UINT32 = Inr v \<Longrightarrow> defarg elem = Some s \<Longrightarrow>
   \<exists>n. scanint8 S s = Some n \<and> 0 \<le> n \<and> n < 2 ^ 32 \<and> v = PV_UInt32 (of_int n) \<and>
       uint (DatumGetUInt32 v) = n"
  by (auto simp: get_param_value_def parse_param_uint32_def rbind_eq_Inr unsigned_of_int
      take_bit_int_eq_self split: option.splits if_splits)

text \<open>The startup message does not depend on what a hook keeps behind its private pointer.\<close>

lemma startup_message_private [simp]:
  "prepare_startup_message S (set_private p d) = prepare_startup_message S d"
  by (simp add: prepare_startup_message_def)

text \<open>Every value of the startup message is present when the hook's extra parameters are.\<close>

lemma startup_message_args:
  assumes "list_all (\<lambda>p. defarg p \<noteq> None) (extra_startup_params data)"
  shows "list_all (\<lambda>p. defarg p \<noteq> None) (prepare_startup_message S data)"
  using assms
  by (simp add: prepare_startup_message_def add_startup_msg_s_def add_startup_msg_i_def
      add_startup_msg_b_def Let_def)

end
