(* ===== verification/Pgl_Output.thy ===== *)
theory Pgl_Output
  imports Pgl_Native Pgl_Json Pgl_Config
begin

text \<open>
  The logical decoding output plugin: \<open>src/pglogical_output/pglogical_output.c\<close> with the protocol
  table (\<open>pglogical_proto.c\<close>), the hook calls (\<open>pglogical_hooks.c\<close>) and the relation metadata cache
  (\<open>pglogical_relmetacache.c\<close>).  The state of a decoding session is a record; every message between
  \<open>OutputPluginPrepareWrite\<close> and \<open>OutputPluginWrite\<close> is appended to \<open>sent\<close> with its last-write flag.
\<close>

section \<open>Relation metadata cache\<close>

text \<open>The hash table is created with \<open>HASH_BLOBS\<close>: its keys are the oids.  \<open>None\<close> is the NULL table.\<close>

type_synonym relmetacache = "oid \<rightharpoonup> PGLRelMetaCacheEntry"

definition pglogical_init_relmetacache :: "relmetacache option \<Rightarrow> relmetacache option" where
  "pglogical_init_relmetacache c = (case c of None \<Rightarrow> Some Map.empty | Some t \<Rightarrow> Some t)"

definition relmeta_cache_callback :: "relmetacache \<Rightarrow> oid \<Rightarrow> relmetacache" where
  "relmeta_cache_callback t oid =
     (case t oid of None \<Rightarrow> t | Some hentry \<Rightarrow> t(oid \<mapsto> hentry\<lparr> is_valid := False \<rparr>))"

definition pglogical_cache_relmeta ::
  "relmetacache \<Rightarrow> relation \<Rightarrow> bool \<times> PGLRelMetaCacheEntry \<times> relmetacache" where
  "pglogical_cache_relmeta t rel =
     (let hentry = (case t (rd_id rel) of
                      Some e \<Rightarrow> e
                    | None \<Rightarrow> \<lparr> relid = rd_id rel, is_cached = False, is_valid = True \<rparr>)
      in (is_cached hentry, hentry, t(rd_id rel \<mapsto> hentry)))"

definition pglogical_destroy_relmetacache :: "relmetacache option \<Rightarrow> relmetacache option" where
  "pglogical_destroy_relmetacache c = (case c of None \<Rightarrow> None | Some t \<Rightarrow> Some Map.empty)"

definition pglogical_prune_relmetacache :: "relmetacache \<Rightarrow> relmetacache" where
  "pglogical_prune_relmetacache t =
     (\<lambda>k. case t k of None \<Rightarrow> None | Some hentry \<Rightarrow> if is_valid hentry then Some hentry else None)"

section \<open>Environment and session state\<close>

record 'p plugin_env =
  pqf :: pqformat
  tio :: typeio
  jio :: jsonio
  srv :: server_env
  get_namespace_name :: "oid \<Rightarrow> string option"
  replorigin_by_oid :: "16 word \<Rightarrow> string option"
  LookupFuncName :: "string list \<Rightarrow> oid result"
  get_func_rettype :: "oid \<Rightarrow> oid"
  pg_proc_aclcheck :: "oid \<Rightarrow> bool"
  hooks_setup_call :: "oid \<Rightarrow> 'p PGLogicalHooks \<Rightarrow> 'p PGLogicalHooks result"
  null_private :: 'p

datatype output_type = OUTPUT_PLUGIN_BINARY_OUTPUT | OUTPUT_PLUGIN_TEXTUAL_OUTPUT

record 'p decoding_ctx =
  output_plugin_private :: "'p PGLogicalOutputData"
  out_type :: output_type
  startup_message_sent :: bool
  RelMetaCache :: "relmetacache option"
  sent :: "(string \<times> bool) list"

definition plugin_write :: "bool \<Rightarrow> string \<Rightarrow> 'p decoding_ctx \<Rightarrow> 'p decoding_ctx" where
  "plugin_write last_write bytes ctx = ctx\<lparr> sent := sent ctx @ [(bytes, last_write)] \<rparr>"

section \<open>Protocol table\<close>

record 'p PGLogicalProtoAPI =
  api_write_rel :: "(relation \<Rightarrow> PGLRelMetaCacheEntry option \<Rightarrow> bitmapset option
                      \<Rightarrow> (string \<times> PGLRelMetaCacheEntry option) result) option"
  api_write_begin :: "'p PGLogicalOutputData \<Rightarrow> reorderbuffer_txn \<Rightarrow> string"
  api_write_commit :: "'p PGLogicalOutputData \<Rightarrow> reorderbuffer_txn \<Rightarrow> xlogrecptr \<Rightarrow> string"
  api_write_origin :: "(string \<Rightarrow> xlogrecptr \<Rightarrow> string) option"
  api_write_insert :: "'p PGLogicalOutputData \<Rightarrow> relation \<Rightarrow> heap_tuple \<Rightarrow> bitmapset option
                         \<Rightarrow> string result"
  api_write_update :: "'p PGLogicalOutputData \<Rightarrow> relation \<Rightarrow> heap_tuple option \<Rightarrow> heap_tuple
                         \<Rightarrow> bitmapset option \<Rightarrow> string result"
  api_write_delete :: "'p PGLogicalOutputData \<Rightarrow> relation \<Rightarrow> heap_tuple \<Rightarrow> bitmapset option
                         \<Rightarrow> string result"
  api_write_startup_message :: "defelem list \<Rightarrow> string"

definition pglogical_init_api :: "'p plugin_env \<Rightarrow> PGLogicalProtoType \<Rightarrow> 'p PGLogicalProtoAPI" where
  "pglogical_init_api E typ =
     (if typ = PGLogicalProtoJson
      then \<lparr> api_write_rel = None,
             api_write_begin = pglogical_json_write_begin (jio E) (have_replication_origins (srv E)),
             api_write_commit = pglogical_json_write_commit,
             api_write_origin = None,
             api_write_insert = (\<lambda>data rel new al.
               Inr (pglogical_json_write_insert (jio E) (get_namespace_name E) rel new al)),
             api_write_update = (\<lambda>data rel old new al.
               Inr (pglogical_json_write_update (jio E) (get_namespace_name E) rel old new al)),
             api_write_delete = (\<lambda>data rel old al.
               Inr (pglogical_json_write_delete (jio E) (get_namespace_name E) rel old al)),
             api_write_startup_message = json_write_startup_message (jio E) \<rparr>
      else \<lparr> api_write_rel = Some (pglogical_write_rel (pqf E) (get_namespace_name E)),
             api_write_begin = (\<lambda>data. pglogical_write_begin (pqf E)),
             api_write_commit = (\<lambda>data. pglogical_write_commit (pqf E)),
             api_write_origin = Some (pglogical_write_origin (pqf E)),
             api_write_insert = pglogical_write_insert (pqf E) (tio E),
             api_write_update = pglogical_write_update (pqf E) (tio E),
             api_write_delete = pglogical_write_delete (pqf E) (tio E),
             api_write_startup_message = write_startup_message (pqf E) \<rparr>)"

text \<open>
  \<open>data->api\<close> is set for every session that streams; the slot initialisation never calls the
  callbacks that use it.
\<close>

definition api_of :: "'p plugin_env \<Rightarrow> 'p decoding_ctx \<Rightarrow> 'p PGLogicalProtoAPI" where
  "api_of E ctx = pglogical_init_api E (the (api (output_plugin_private ctx)))"

section \<open>Hooks\<close>

abbreviation VOIDOID :: oid where
  "VOIDOID \<equiv> 2278"

definition get_hooks_function_oid :: "'p plugin_env \<Rightarrow> string list \<Rightarrow> oid result" where
  "get_hooks_function_oid E funcname =
     rbind (LookupFuncName E funcname) (\<lambda>funcid.
     if get_func_rettype E funcid \<noteq> VOIDOID
     then ereport ERRCODE_WRONG_OBJECT_TYPE ''function %s must return void''
     else if \<not> pg_proc_aclcheck E funcid
     then ereport ERRCODE_INSUFFICIENT_PRIVILEGE
            ''current user %s does not have permission to call function %s''
     else Inr funcid)"

definition load_hooks ::
  "'p plugin_env \<Rightarrow> 'p PGLogicalOutputData \<Rightarrow> 'p PGLogicalOutputData result" where
  "load_hooks E data =
     (if hooks_setup_funcname data \<noteq> []
      then rbind (get_hooks_function_oid E (hooks_setup_funcname data)) (\<lambda>hooks_func.
           rbind (hooks_setup_call E hooks_func (hooks data)) (\<lambda>h.
             Inr (data\<lparr> hooks := h \<rparr>)))
      else Inr data)"

definition call_startup_hook ::
  "'p PGLogicalOutputData \<Rightarrow> defelem list \<Rightarrow> 'p PGLogicalOutputData result" where
  "call_startup_hook data plugin_params =
     (case startup_hook (hooks data) of
        None \<Rightarrow> Inr data
      | Some hook \<Rightarrow>
          rbind (hook (hooks_private_data (hooks data)) plugin_params) (\<lambda>(out_params, priv).
            Inr (data\<lparr> extra_startup_params := out_params,
                       hooks := (hooks data)\<lparr> hooks_private_data := priv \<rparr> \<rparr>)))"

definition call_shutdown_hook :: "'p PGLogicalOutputData \<Rightarrow> 'p PGLogicalOutputData" where
  "call_shutdown_hook data =
     (case shutdown_hook (hooks data) of
        None \<Rightarrow> data
      | Some hook \<Rightarrow>
          data\<lparr> hooks := (hooks data)\<lparr> hooks_private_data :=
                  hook (hooks_private_data (hooks data)) \<rparr> \<rparr>)"

definition call_row_filter_hook ::
  "'p PGLogicalOutputData \<Rightarrow> reorderbuffer_txn \<Rightarrow> relation \<Rightarrow> reorderbuffer_change
     \<Rightarrow> (bool \<times> bitmapset option \<times> 'p PGLogicalOutputData) result" where
  "call_row_filter_hook data txn rel change =
     (case row_filter_hook (hooks data) of
        Some hook \<Rightarrow>
          rbind (hook (hooks_private_data (hooks data)) txn rel change) (\<lambda>(ret, att_list, priv).
            Inr (ret, att_list, set_private priv data))
      | None \<Rightarrow> Inr (True, None, data))"

definition call_txn_filter_hook :: "'p PGLogicalOutputData \<Rightarrow> 16 word \<Rightarrow> bool" where
  "call_txn_filter_hook data txn_origin =
     (case txn_filter_hook (hooks data) of
        Some hook \<Rightarrow> hook (hooks_private_data (hooks data)) txn_origin
      | None \<Rightarrow> True)"

section \<open>Startup\<close>

definition check_binary_compatibility :: "server_env \<Rightarrow> 'p PGLogicalOutputData \<Rightarrow> bool" where
  "check_binary_compatibility S data =
     (if client_binary_basetypes_major_version data \<noteq> of_int (PG_VERSION_NUM S div 100) then False
      else if client_binary_bigendian_set data
              \<and> client_binary_bigendian data \<noteq> server_bigendian S then False
      else if client_binary_sizeofdatum data \<noteq> 0
              \<and> client_binary_sizeofdatum data \<noteq> of_int (sizeof_datum S) then False
      else if client_binary_sizeofint data \<noteq> 0
              \<and> client_binary_sizeofint data \<noteq> of_int (sizeof_int S) then False
      else if client_binary_sizeoflong data \<noteq> 0
              \<and> client_binary_sizeoflong data \<noteq> of_int (sizeof_long S) then False
      else if client_binary_float4byval_set data
              \<and> client_binary_float4byval data \<noteq> server_float4_byval S then False
      else if client_binary_float8byval_set data
              \<and> client_binary_float8byval data \<noteq> server_float8_byval S then False
      else if client_binary_intdatetimes_set data
              \<and> client_binary_intdatetimes data \<noteq> server_integer_datetimes S then False
      else True)"

definition startup_protocol_format ::
  "'p PGLogicalOutputData \<Rightarrow> ('p PGLogicalOutputData \<times> output_type) result" where
  "startup_protocol_format data =
     (if client_protocol_format data = Some ''json''
      then Inr (data\<lparr> api := Some PGLogicalProtoJson \<rparr>, OUTPUT_PLUGIN_TEXTUAL_OUTPUT)
      else if client_protocol_format data = Some ''native'' \<or> client_protocol_format data = None
      then Inr ((if client_no_txinfo data
                 then data\<lparr> api := Some PGLogicalProtoNative, client_no_txinfo := False \<rparr>
                 else data\<lparr> api := Some PGLogicalProtoNative \<rparr>), OUTPUT_PLUGIN_BINARY_OUTPUT)
      else ereport ERRCODE_FEATURE_NOT_SUPPORTED
             ''client requested protocol %s but only json or native are supported'')"

definition startup_encoding ::
  "server_env \<Rightarrow> output_type \<Rightarrow> 'p PGLogicalOutputData \<Rightarrow> 'p PGLogicalOutputData result" where
  "startup_encoding S ot data =
     (case client_expected_encoding data of
        None \<Rightarrow> Inr data
      | Some enc \<Rightarrow>
          if enc = [] then Inr data
          else let wanted_encoding = pg_char_to_encoding S enc
               in if wanted_encoding = -1
                  then ereport ERRCODE_INVALID_PARAMETER_VALUE
                         ''unrecognised encoding name %s passed to expected_encoding''
                  else if ot = OUTPUT_PLUGIN_TEXTUAL_OUTPUT
                          \<and> wanted_encoding \<noteq> pg_get_client_encoding S
                  then ereport ERRCODE_INVALID_PARAMETER_VALUE
                         ''expected_encoding must be unset or match client_encoding in text protocols''
                  else if ot \<noteq> OUTPUT_PLUGIN_TEXTUAL_OUTPUT
                          \<and> wanted_encoding \<noteq> GetDatabaseEncoding S
                  then ereport ERRCODE_FEATURE_NOT_SUPPORTED
                         ''encoding conversion for binary datum not supported yet''
                  else Inr (data\<lparr> field_datum_encoding := wanted_encoding \<rparr>))"

definition startup_binary_modes ::
  "server_env \<Rightarrow> output_type \<Rightarrow> 'p PGLogicalOutputData \<Rightarrow> 'p PGLogicalOutputData" where
  "startup_binary_modes S ot data =
     (let data = (if ot = OUTPUT_PLUGIN_BINARY_OUTPUT \<and> client_want_internal_basetypes data
                  then data\<lparr> allow_internal_basetypes := check_binary_compatibility S data \<rparr>
                  else data);
          data = (if ot = OUTPUT_PLUGIN_BINARY_OUTPUT \<and> client_want_binary_basetypes data
                     \<and> client_binary_basetypes_major_version data = of_int (PG_VERSION_NUM S div 100)
                  then data\<lparr> allow_binary_basetypes := True \<rparr>
                  else data)
      in data\<lparr> forward_changeset_origins := (PG_VERSION_NUM S div 100 \<noteq> 904) \<rparr>)"

text \<open>The part of \<open>pg_decode_startup\<close> that runs when replication starts.\<close>

definition startup_stream ::
  "'p plugin_env \<Rightarrow> defelem list \<Rightarrow> 'p PGLogicalOutputData
     \<Rightarrow> ('p PGLogicalOutputData \<times> output_type) result" where
  "startup_stream E options data =
     rbind (process_parameters (srv E) options data) (\<lambda>(data, params_format).
     if params_format \<noteq> 1
     then ereport ERRCODE_FEATURE_NOT_SUPPORTED
            ''client sent startup parameters in format %d but we only support format 1''
     else if client_min_proto_version data > PGLOGICAL_PROTO_VERSION_NUM
     then ereport ERRCODE_FEATURE_NOT_SUPPORTED
            ''client sent min_proto_version=%d but we only support protocol %d or lower''
     else if client_max_proto_version data < PGLOGICAL_PROTO_MIN_VERSION_NUM
     then ereport ERRCODE_FEATURE_NOT_SUPPORTED
            ''client sent max_proto_version=%d but we only support protocol %d or higher''
     else rbind (startup_protocol_format data) (\<lambda>(data, ot).
          rbind (startup_encoding (srv E) ot data) (\<lambda>data.
          let data = startup_binary_modes (srv E) ot data
          in if hooks_setup_funcname data \<noteq> []
             then rbind (load_hooks E data) (\<lambda>data.
                  rbind (call_startup_hook data options) (\<lambda>data. Inr (data, ot)))
             else Inr (data, ot))))"

definition pg_decode_startup ::
  "'p plugin_env \<Rightarrow> defelem list \<Rightarrow> bool \<Rightarrow> 'p decoding_ctx \<Rightarrow> 'p decoding_ctx result" where
  "pg_decode_startup E options is_init ctx =
     (let data = palloc0_data (null_private E)
      in if is_init
         then Inr (ctx\<lparr> output_plugin_private := data \<rparr>)
         else rbind (startup_stream E options data) (\<lambda>(data, ot).
                Inr (ctx\<lparr> output_plugin_private := data, out_type := ot,
                          startup_message_sent := False,
                          RelMetaCache := pglogical_init_relmetacache (RelMetaCache ctx) \<rparr>)))"

section \<open>Callbacks\<close>

definition send_startup_message ::
  "'p plugin_env \<Rightarrow> bool \<Rightarrow> 'p decoding_ctx \<Rightarrow> 'p decoding_ctx" where
  "send_startup_message E last_message ctx =
     (let msg = prepare_startup_message (srv E) (output_plugin_private ctx)
      in (plugin_write last_message (api_write_startup_message (api_of E ctx) msg) ctx)
           \<lparr> startup_message_sent := True \<rparr>)"

definition pg_decode_begin_txn ::
  "'p plugin_env \<Rightarrow> reorderbuffer_txn \<Rightarrow> 'p decoding_ctx \<Rightarrow> 'p decoding_ctx" where
  "pg_decode_begin_txn E txn ctx =
     (let data = output_plugin_private ctx;
          ctx = (if \<not> startup_message_sent ctx then send_startup_message E False ctx else ctx);
          origins = have_replication_origins (srv E);
          send_replication_origin = (if origins
            then forward_changeset_origins data \<and> origin_id txn \<noteq> InvalidRepOriginId
            else forward_changeset_origins data);
          bytes = api_write_begin (api_of E ctx) data txn
      in if origins \<and> send_replication_origin
         then let ctx = plugin_write False bytes ctx;
                  origin_bytes = (case (api_write_origin (api_of E ctx),
                                        replorigin_by_oid E (origin_id txn)) of
                      (Some write_origin, Some origin) \<Rightarrow> write_origin origin (origin_lsn txn)
                    | _ \<Rightarrow> [])
              in plugin_write True origin_bytes ctx
         else plugin_write True bytes ctx)"

definition pg_decode_commit_txn ::
  "'p plugin_env \<Rightarrow> reorderbuffer_txn \<Rightarrow> xlogrecptr \<Rightarrow> 'p decoding_ctx \<Rightarrow> 'p decoding_ctx" where
  "pg_decode_commit_txn E txn commit_lsn ctx =
     (let data = output_plugin_private ctx;
          ctx = plugin_write True (api_write_commit (api_of E ctx) data txn commit_lsn) ctx
      in ctx\<lparr> RelMetaCache := map_option pglogical_prune_relmetacache (RelMetaCache ctx) \<rparr>)"

text \<open>Send the relation metadata unless the client has it; the entry in the table is marked.\<close>

definition change_send_relmeta ::
  "'p plugin_env \<Rightarrow> relation \<Rightarrow> bitmapset option \<Rightarrow> 'p decoding_ctx \<Rightarrow> 'p decoding_ctx result" where
  "change_send_relmeta E rel att_list ctx =
     (case api_write_rel (api_of E ctx) of
        None \<Rightarrow> Inr ctx
      | Some write_rel \<Rightarrow>
          (case pglogical_cache_relmeta (the (RelMetaCache ctx)) rel of (hit, hentry, t) \<Rightarrow>
             if hit then Inr (ctx\<lparr> RelMetaCache := Some t \<rparr>)
             else rbind (write_rel rel (Some hentry) att_list) (\<lambda>(bytes, hentry').
                    Inr ((plugin_write False bytes ctx)
                           \<lparr> RelMetaCache := Some (t(rd_id rel := hentry')) \<rparr>))))"

text \<open>
  The reorder buffer gives every insert and update its new tuple.  A delete without an old tuple is
  not sent.
\<close>

definition change_send_data ::
  "'p plugin_env \<Rightarrow> relation \<Rightarrow> reorderbuffer_change \<Rightarrow> bitmapset option \<Rightarrow> 'p decoding_ctx
     \<Rightarrow> 'p decoding_ctx result" where
  "change_send_data E rel change att_list ctx =
     (let data = output_plugin_private ctx
      in case action change of
           REORDER_BUFFER_CHANGE_INSERT \<Rightarrow>
             rbind (api_write_insert (api_of E ctx) data rel (the (newtuple change)) att_list)
               (\<lambda>bytes. Inr (plugin_write True bytes ctx))
         | REORDER_BUFFER_CHANGE_UPDATE \<Rightarrow>
             rbind (api_write_update (api_of E ctx) data rel (oldtuple change)
                      (the (newtuple change)) att_list)
               (\<lambda>bytes. Inr (plugin_write True bytes ctx))
         | REORDER_BUFFER_CHANGE_DELETE \<Rightarrow>
             (case oldtuple change of
                Some old \<Rightarrow> rbind (api_write_delete (api_of E ctx) data rel old att_list)
                              (\<lambda>bytes. Inr (plugin_write True bytes ctx))
              | None \<Rightarrow> Inr ctx))"

definition pg_decode_change ::
  "'p plugin_env \<Rightarrow> reorderbuffer_txn \<Rightarrow> relation \<Rightarrow> reorderbuffer_change \<Rightarrow> 'p decoding_ctx
     \<Rightarrow> 'p decoding_ctx result" where
  "pg_decode_change E txn rel change ctx =
     rbind (call_row_filter_hook (output_plugin_private ctx) txn rel change)
       (\<lambda>(pass, att_list, data).
     let ctx = ctx\<lparr> output_plugin_private := data \<rparr>
     in if \<not> pass then Inr ctx
        else rbind (change_send_relmeta E rel att_list ctx) (change_send_data E rel change att_list))"

definition pg_decode_origin_filter :: "'p decoding_ctx \<Rightarrow> 16 word \<Rightarrow> bool" where
  "pg_decode_origin_filter ctx oid =
     (if \<not> call_txn_filter_hook (output_plugin_private ctx) oid then True else False)"

definition pg_decode_shutdown :: "'p decoding_ctx \<Rightarrow> 'p decoding_ctx" where
  "pg_decode_shutdown ctx =
     ctx\<lparr> output_plugin_private := call_shutdown_hook (output_plugin_private ctx),
          RelMetaCache := pglogical_destroy_relmetacache (RelMetaCache ctx) \<rparr>"

section \<open>Decoding sessions\<close>

text \<open>
  What happens to a session once it has started: the decoding callbacks and the relation
  invalidations of the backend.  The reorder buffer hands over whole transactions one after the
  other, so the callbacks of a transaction stand between its begin and its commit.
\<close>

inductive session ::
  "'p plugin_env \<Rightarrow> defelem list \<Rightarrow> 'p decoding_ctx \<Rightarrow> bool \<Rightarrow> 'p decoding_ctx \<Rightarrow> bool"
  for E options ctx0 where
  start: "pg_decode_startup E options False ctx0 = Inr ctx \<Longrightarrow> session E options ctx0 False ctx"
| begin_txn: "session E options ctx0 False ctx \<Longrightarrow>
    session E options ctx0 True (pg_decode_begin_txn E txn ctx)"
| change: "session E options ctx0 True ctx \<Longrightarrow> pg_decode_change E txn rel chg ctx = Inr ctx' \<Longrightarrow>
    session E options ctx0 True ctx'"
| commit: "session E options ctx0 True ctx \<Longrightarrow>
    session E options ctx0 False (pg_decode_commit_txn E txn lsn ctx)"
| invalidate: "session E options ctx0 in_txn ctx \<Longrightarrow>
    session E options ctx0 in_txn
      (ctx\<lparr> RelMetaCache := map_option (\<lambda>t. relmeta_cache_callback t oid) (RelMetaCache ctx) \<rparr>)"

text \<open>What happens to a session inside one transaction: changes and invalidations, in any order.\<close>

inductive decode_step :: "'p plugin_env \<Rightarrow> 'p decoding_ctx \<Rightarrow> 'p decoding_ctx \<Rightarrow> bool" for E where
  change: "pg_decode_change E txn rel chg ctx = Inr ctx' \<Longrightarrow> decode_step E ctx ctx'"
| invalidate: "decode_step E ctx
    (ctx\<lparr> RelMetaCache := map_option (\<lambda>t. relmeta_cache_callback t oid) (RelMetaCache ctx) \<rparr>)"

text \<open>The relation is marked as described to the client and as invalid.\<close>

definition stale_in :: "oid \<Rightarrow> 'p decoding_ctx \<Rightarrow> bool" where
  "stale_in rid ctx \<longleftrightarrow> api (output_plugin_private ctx) = Some PGLogicalProtoNative \<and>
     (\<exists>t e. RelMetaCache ctx = Some t \<and> t rid = Some e \<and> is_cached e \<and> \<not> is_valid e)"

text \<open>A context no session has used: nothing sent and an empty metadata cache (or none).\<close>

definition fresh_ctx :: "'p decoding_ctx \<Rightarrow> bool" where
  "fresh_ctx ctx \<longleftrightarrow> sent ctx = [] \<and> (case RelMetaCache ctx of None \<Rightarrow> True | Some t \<Rightarrow> t = Map.empty)"

text \<open>The startup message of a session, and what it means that a relation has been described.\<close>

definition startup_bytes :: "'p plugin_env \<Rightarrow> 'p decoding_ctx \<Rightarrow> string" where
  "startup_bytes E ctx = api_write_startup_message (api_of E ctx)
     (prepare_startup_message (srv E) (output_plugin_private ctx))"

definition described :: "'p plugin_env \<Rightarrow> oid \<Rightarrow> (string \<times> bool) list \<Rightarrow> bool" where
  "described E k msgs \<longleftrightarrow> (\<exists>msg \<in> set msgs. \<exists>rel ce ce' al. rd_id rel = k \<and>
     pglogical_write_rel (pqf E) (get_namespace_name E) rel ce al = Inr (fst msg, ce'))"

definition no_startup :: "'p plugin_env \<Rightarrow> string \<times> bool \<Rightarrow> bool" where
  "no_startup E msg \<longleftrightarrow> (\<forall>m. pq_getmsgbyte (pqf E) (fst msg) \<noteq> Inr (CHR ''S'', m))"

definition metadata_known :: "'p plugin_env \<Rightarrow> 'p decoding_ctx \<Rightarrow> bool" where
  "metadata_known E ctx \<longleftrightarrow> (\<exists>t. RelMetaCache ctx = Some t \<and>
     (\<forall>k e. t k = Some e \<longrightarrow> is_cached e \<longrightarrow> described E k (sent ctx)))"

definition startup_once :: "'p plugin_env \<Rightarrow> 'p decoding_ctx \<Rightarrow> bool" where
  "startup_once E ctx \<longleftrightarrow>
     (if startup_message_sent ctx
      then \<exists>rest. sent ctx = (startup_bytes E ctx, False) # rest \<and> list_all (no_startup E) rest
      else sent ctx = [])"

text \<open>The invariant of a session in the native protocol.\<close>

definition session_inv :: "'p plugin_env \<Rightarrow> bool \<Rightarrow> 'p decoding_ctx \<Rightarrow> bool" where
  "session_inv E in_txn ctx \<longleftrightarrow>
     metadata_known E ctx \<and> startup_once E ctx \<and> (in_txn \<longrightarrow> startup_message_sent ctx)"

section \<open>An example\<close>

definition ex_server :: server_env where
  "ex_server = \<lparr>
     PG_VERSION_NUM = 90500, PG_VERSION = ''9.5.0'', CATALOG_VERSION_NO = 201510051,
     sizeof_datum = 8, sizeof_int = 4, sizeof_long = 8, MAXIMUM_ALIGNOF = 8,
     server_bigendian = False, server_float4_byval = True, server_float8_byval = True,
     server_integer_datetimes = True, have_replication_origins = True, MyProcPid = 4711,
     GetDatabaseEncoding = 6, GetDatabaseEncodingName = ''UTF8'', pg_get_client_encoding = 6,
     pg_char_to_encoding = (\<lambda>s. if s = ''UTF8'' then 6 else -1),
     pg_encoding_to_char = (\<lambda>_. ''UTF8''),
     parse_bool = (\<lambda>s. if s = ''1'' then Some True else if s = ''0'' then Some False else None),
     scanint8 = (\<lambda>s. if s = ''1'' then Some 1 else if s = ''905'' then Some 905 else None),
     pg_strcaseeq = (\<lambda>a b. a = b),
     textToQualifiedNameList = (\<lambda>s. Inr [s]) \<rparr>"

definition ex_option :: "string \<Rightarrow> string \<Rightarrow> defelem" where
  "ex_option key val = \<lparr> defname = key, defarg = Some val \<rparr>"

definition ex_options :: "defelem list" where
  "ex_options = [ex_option ''startup_params_format'' ''1'', ex_option ''max_proto_version'' ''1'',
     ex_option ''min_proto_version'' ''1'', ex_option ''expected_encoding'' ''UTF8'',
     ex_option ''binary.want_internal_basetypes'' ''1'',
     ex_option ''binary.basetypes_major_version'' ''905'',
     ex_option ''binary.float4_byval'' ''1'']"

definition ex_typeio_out :: typeio where
  "ex_typeio_out = \<lparr>
     search_type = (\<lambda>_. Some \<lparr> typtype = CHR ''b'', typelem = 0, typreceive = 2414, typsend = 2415,
                                typoutput = 47 \<rparr>),
     OidOutputFunctionCall = (\<lambda>_ d. datum_bytes d),
     OidSendFunctionCall = (\<lambda>_ d. datum_bytes d),
     store_att_byval = (\<lambda>_ _. []),
     OidInputFunctionCall = (\<lambda>_ _ s. Inr (DatumPtr s)),
     OidReceiveFunctionCall = (\<lambda>_ _ s. Inr (DatumPtr s, length s)),
     fetch_att = (\<lambda>_ _. elog ''unsupported byval length'') \<rparr>"

definition ex_env :: "unit plugin_env" where
  "ex_env = \<lparr>
     pqf = net_pqformat, tio = ex_typeio_out,
     jio = \<lparr> row_to_json = (\<lambda>_ _. ''{}''), escape_json = (\<lambda>s. DQ @ s @ DQ),
             timestamptz_to_str = (\<lambda>_. ''now'') \<rparr>,
     srv = ex_server, get_namespace_name = (\<lambda>_. Some ''public''), replorigin_by_oid = (\<lambda>_. None),
     LookupFuncName = (\<lambda>_. elog ''function does not exist''), get_func_rettype = (\<lambda>_. 0),
     pg_proc_aclcheck = (\<lambda>_. False), hooks_setup_call = (\<lambda>_ h. Inr h), null_private = () \<rparr>"

definition ex_ctx0 :: "unit decoding_ctx" where
  "ex_ctx0 = \<lparr> output_plugin_private = palloc0_data (), out_type = OUTPUT_PLUGIN_TEXTUAL_OUTPUT,
     startup_message_sent = False, RelMetaCache = None, sent = [] \<rparr>"

definition ex_data :: "unit PGLogicalOutputData" where
  "ex_data = (palloc0_data ())\<lparr>
     client_max_proto_version := 1, client_min_proto_version := 1,
     client_expected_encoding := Some ''UTF8'', client_want_internal_basetypes_set := True,
     client_want_internal_basetypes := True, client_binary_basetypes_major_version := 905,
     client_binary_float4byval_set := True, client_binary_float4byval := True,
     api := Some PGLogicalProtoNative, field_datum_encoding := 6,
     allow_internal_basetypes := True, forward_changeset_origins := True \<rparr>"

definition ex_ctx1 :: "unit decoding_ctx" where
  "ex_ctx1 = ex_ctx0\<lparr> output_plugin_private := ex_data, out_type := OUTPUT_PLUGIN_BINARY_OUTPUT,
     RelMetaCache := Some Map.empty \<rparr>"

definition ex_otxn :: reorderbuffer_txn where
  "ex_otxn = \<lparr> xid = 734, has_catalog_changes = False, first_lsn = 0x16B3700,
     final_lsn = 0x16B3748, end_lsn = 0x16B3778, commit_time = 5, origin_id = 0,
     origin_lsn = 0 \<rparr>"

definition ex_orel :: relation where
  "ex_orel = \<lparr> rd_id = 16385, relnamespace = 2200, relname = ''t'',
     relkind = CHR ''r'', rd_att = [\<lparr> attname = ''id'', atttypid = 25, attlen = -1, attnum = 1, atttypmod = -1,
                 attbyval = False, attisdropped = False \<rparr>],
     idkey_attrs = {9}, replidindex = 16390, rd_trigs = [], needs_wal = True \<rparr>"

definition ex_change :: reorderbuffer_change where
  "ex_change = \<lparr> action = REORDER_BUFFER_CHANGE_INSERT, oldtuple = None,
     newtuple = Some [Some (DatumPtr ''1'')] \<rparr>"

section \<open>Lemmas\<close>

lemma api_native [simp]:
  "api (output_plugin_private ctx) = Some PGLogicalProtoNative \<Longrightarrow>
   api_of E ctx = \<lparr> api_write_rel = Some (pglogical_write_rel (pqf E) (get_namespace_name E)),
             api_write_begin = (\<lambda>data. pglogical_write_begin (pqf E)),
             api_write_commit = (\<lambda>data. pglogical_write_commit (pqf E)),
             api_write_origin = Some (pglogical_write_origin (pqf E)),
             api_write_insert = pglogical_write_insert (pqf E) (tio E),
             api_write_update = pglogical_write_update (pqf E) (tio E),
             api_write_delete = pglogical_write_delete (pqf E) (tio E),
             api_write_startup_message = write_startup_message (pqf E) \<rparr>"
  by (simp add: api_of_def pglogical_init_api_def)

lemma plugin_write_simps [simp]:
  "sent (plugin_write l b ctx) = sent ctx @ [(b, l)]"
  "output_plugin_private (plugin_write l b ctx) = output_plugin_private ctx"
  "startup_message_sent (plugin_write l b ctx) = startup_message_sent ctx"
  "RelMetaCache (plugin_write l b ctx) = RelMetaCache ctx"
  by (simp_all add: plugin_write_def)

lemma described_append: "described E k msgs \<Longrightarrow> described E k (msgs @ msgs')"
  by (force simp: described_def)

lemma api_of_cong:
  "output_plugin_private ctx' = output_plugin_private ctx \<Longrightarrow> api_of E ctx' = api_of E ctx"
  by (simp add: api_of_def)

lemma startup_bytes_cong:
  "output_plugin_private ctx' = set_private p (output_plugin_private ctx) \<Longrightarrow>
   startup_bytes E ctx' = startup_bytes E ctx"
  by (simp add: startup_bytes_def api_of_def)

lemma startup_bytes_same:
  "output_plugin_private ctx' = output_plugin_private ctx \<Longrightarrow>
   startup_bytes E ctx' = startup_bytes E ctx"
  by (simp add: startup_bytes_def api_of_def)

lemma send_startup_simps [simp]:
  "output_plugin_private (send_startup_message E l ctx) = output_plugin_private ctx"
  "startup_message_sent (send_startup_message E l ctx)"
  "RelMetaCache (send_startup_message E l ctx) = RelMetaCache ctx"
  by (simp_all add: send_startup_message_def Let_def)

lemma relmeta_private:
  "change_send_relmeta E rel al ctx = Inr ctx' \<Longrightarrow>
   output_plugin_private ctx' = output_plugin_private ctx"
  by (auto simp: change_send_relmeta_def rbind_eq_Inr split: option.splits if_splits prod.splits)

lemma data_private:
  "change_send_data E rel chg al ctx = Inr ctx' \<Longrightarrow>
   output_plugin_private ctx' = output_plugin_private ctx"
  by (cases "action chg")
    (auto simp: change_send_data_def rbind_eq_Inr Let_def split: option.splits)

lemma row_filter_private:
  "call_row_filter_hook data txn rel chg = Inr (pass, al, data') \<Longrightarrow> \<exists>p. data' = set_private p data"
  by (auto simp: call_row_filter_hook_def rbind_eq_Inr split: option.splits)
    (metis set_private_same)

lemma change_private:
  "pg_decode_change E txn rel chg ctx = Inr ctx' \<Longrightarrow>
   \<exists>p. output_plugin_private ctx' = set_private p (output_plugin_private ctx)"
  by (auto simp: pg_decode_change_def rbind_eq_Inr Let_def
      dest!: relmeta_private data_private row_filter_private split: if_splits)

lemma begin_private [simp]:
  "output_plugin_private (pg_decode_begin_txn E txn ctx) = output_plugin_private ctx"
  "startup_message_sent (pg_decode_begin_txn E txn ctx)"
  "RelMetaCache (pg_decode_begin_txn E txn ctx) = RelMetaCache ctx"
  by (auto simp: pg_decode_begin_txn_def Let_def)

lemma commit_private [simp]:
  "output_plugin_private (pg_decode_commit_txn E txn lsn ctx) = output_plugin_private ctx"
  "startup_message_sent (pg_decode_commit_txn E txn lsn ctx) = startup_message_sent ctx"
  by (auto simp: pg_decode_commit_txn_def Let_def)

text \<open>
  What a change adds to the stream in the native protocol: nothing when the row filter rejects it,
  otherwise the relation description unless the client has it, then the data message unless it is a
  delete whose old tuple is missing.
\<close>

lemma relmeta_native:
  assumes "api (output_plugin_private ctx) = Some PGLogicalProtoNative" "metadata_known E ctx"
    and "change_send_relmeta E rel al ctx = Inr ctx'"
  shows "metadata_known E ctx' \<and> described E (rd_id rel) (sent ctx') \<and>
    output_plugin_private ctx' = output_plugin_private ctx \<and>
    startup_message_sent ctx' = startup_message_sent ctx \<and>
    (sent ctx' = sent ctx \<or> (\<exists>bytes ce ce'. sent ctx' = sent ctx @ [(bytes, False)] \<and>
       pglogical_write_rel (pqf E) (get_namespace_name E) rel ce al = Inr (bytes, ce')))"
proof -
  obtain t where t: "RelMetaCache ctx = Some t"
    "\<And>k e. t k = Some e \<Longrightarrow> is_cached e \<Longrightarrow> described E k (sent ctx)"
    using assms(2) by (auto simp: metadata_known_def)
  let ?e = "case t (rd_id rel) of Some e \<Rightarrow> e
            | None \<Rightarrow> \<lparr> relid = rd_id rel, is_cached = False, is_valid = True \<rparr>"
  show ?thesis
  proof (cases "is_cached ?e")
    case True
    then have "described E (rd_id rel) (sent ctx)"
      using t(2) by (auto split: option.splits)
    with True show ?thesis
      using assms(1,3) t
      by (auto simp: change_send_relmeta_def pglogical_cache_relmeta_def Let_def metadata_known_def
          split: option.splits if_splits)
  next
    case False
    then obtain bytes ce' where w:
      "pglogical_write_rel (pqf E) (get_namespace_name E) rel (Some ?e) al = Inr (bytes, ce')"
      and ctx': "ctx' = (plugin_write False bytes ctx)
                   \<lparr> RelMetaCache := Some (t(rd_id rel := ce')) \<rparr>"
      using assms(1,3) t(1)
      by (auto simp: change_send_relmeta_def pglogical_cache_relmeta_def Let_def rbind_eq_Inr)
    have "described E (rd_id rel) (sent ctx')"
      using w unfolding ctx' described_def by auto
    moreover have "metadata_known E ctx'"
      using t(2) calculation unfolding ctx' metadata_known_def
      by (auto intro: described_append)
    ultimately show ?thesis
      using w ctx' by auto
  qed
qed

lemma data_native:
  assumes "api (output_plugin_private ctx) = Some PGLogicalProtoNative"
    and "change_send_data E rel chg al ctx = Inr ctx'"
  shows "ctx' = ctx \<or> (\<exists>bytes. ctx' = plugin_write True bytes ctx \<and>
     ((\<exists>tup. pglogical_write_insert (pqf E) (tio E) (output_plugin_private ctx) rel tup al = Inr bytes) \<or>
      (\<exists>old tup. pglogical_write_update (pqf E) (tio E) (output_plugin_private ctx) rel old tup al
         = Inr bytes) \<or>
      (\<exists>tup. pglogical_write_delete (pqf E) (tio E) (output_plugin_private ctx) rel tup al
         = Inr bytes)))"
  using assms
  by (auto simp: change_send_data_def rbind_eq_Inr Let_def split: change_action.splits option.splits)

text \<open>No data, relation or transaction message can be taken for a startup message.\<close>

lemma first_bytes:
  assumes "pq_codec F"
  shows "pglogical_write_rel F ns rel ce al = Inr (b, ce') \<Longrightarrow> \<exists>r. pq_getmsgbyte F b = Inr (CHR ''R'', r)"
    and "pglogical_write_insert F T data rel tup al = Inr b \<Longrightarrow> \<exists>r. pq_getmsgbyte F b = Inr (CHR ''I'', r)"
    and "pglogical_write_update F T data rel old tup al = Inr b \<Longrightarrow>
      \<exists>r. pq_getmsgbyte F b = Inr (CHR ''U'', r)"
    and "pglogical_write_delete F T data rel tup al = Inr b \<Longrightarrow> \<exists>r. pq_getmsgbyte F b = Inr (CHR ''D'', r)"
    and "\<exists>r. pq_getmsgbyte F (pglogical_write_begin F txn) = Inr (CHR ''B'', r)"
    and "\<exists>r. pq_getmsgbyte F (pglogical_write_commit F txn lsn) = Inr (CHR ''C'', r)"
    and "\<exists>r. pq_getmsgbyte F (pglogical_write_origin F origin lsn) = Inr (CHR ''O'', r)"
  by (auto simp: pglogical_write_rel_def pglogical_write_insert_def pglogical_write_update_def
      pglogical_write_delete_def pglogical_write_begin_def pglogical_write_commit_def
      pglogical_write_origin_def Let_def rbind_eq_Inr pq_codec.getmsgbyte_send [OF assms]
      split: option.splits)

lemma no_startupI:
  "\<exists>r. pq_getmsgbyte (pqf E) b = Inr (c, r) \<Longrightarrow> c \<noteq> CHR ''S'' \<Longrightarrow> no_startup E (b, l)"
  by (auto simp: no_startup_def)

lemma no_startup_simps:
  assumes "pq_codec (pqf E)"
  shows "pglogical_write_rel (pqf E) ns rel ce al = Inr (b, ce') \<Longrightarrow> no_startup E (b, l)"
    and "pglogical_write_insert (pqf E) T data rel tup al = Inr b \<Longrightarrow> no_startup E (b, l)"
    and "pglogical_write_update (pqf E) T data rel old tup al = Inr b \<Longrightarrow> no_startup E (b, l)"
    and "pglogical_write_delete (pqf E) T data rel tup al = Inr b \<Longrightarrow> no_startup E (b, l)"
    and "no_startup E (pglogical_write_begin (pqf E) txn, l)"
    and "no_startup E (pglogical_write_commit (pqf E) txn lsn, l)"
    and "no_startup E (pglogical_write_origin (pqf E) origin lsn, l)"
    and "no_startup E ([], l)"
proof -
  note fb = first_bytes [OF assms]
  show "pglogical_write_rel (pqf E) ns rel ce al = Inr (b, ce') \<Longrightarrow> no_startup E (b, l)"
    by (rule no_startupI [OF fb(1)]) simp_all
  show "pglogical_write_insert (pqf E) T data rel tup al = Inr b \<Longrightarrow> no_startup E (b, l)"
    by (rule no_startupI [OF fb(2)]) simp_all
  show "pglogical_write_update (pqf E) T data rel old tup al = Inr b \<Longrightarrow> no_startup E (b, l)"
    by (rule no_startupI [OF fb(3)]) simp_all
  show "pglogical_write_delete (pqf E) T data rel tup al = Inr b \<Longrightarrow> no_startup E (b, l)"
    by (rule no_startupI [OF fb(4)]) simp_all
  show "no_startup E (pglogical_write_begin (pqf E) txn, l)"
    by (rule no_startupI [OF fb(5)]) simp
  show "no_startup E (pglogical_write_commit (pqf E) txn lsn, l)"
    by (rule no_startupI [OF fb(6)]) simp
  show "no_startup E (pglogical_write_origin (pqf E) origin lsn, l)"
    by (rule no_startupI [OF fb(7)]) simp
  show "no_startup E ([], l)"
    using pq_codec.getmsgbyte_nil [OF assms] by (auto simp: no_startup_def)
qed

text \<open>What the client knows stays known as the stream grows and the cache forgets.\<close>

lemma metadata_known_mono:
  assumes "metadata_known E ctx" "RelMetaCache ctx = Some t" "RelMetaCache ctx' = Some t'"
    and "sent ctx' = sent ctx @ msgs'"
    and "\<And>k e'. t' k = Some e' \<Longrightarrow> is_cached e' \<Longrightarrow> \<exists>e. t k = Some e \<and> is_cached e"
  shows "metadata_known E ctx'"
  unfolding metadata_known_def
proof (intro exI conjI allI impI)
  show "RelMetaCache ctx' = Some t'" by fact
  fix k e' assume "t' k = Some e'" "is_cached e'"
  with assms(5) obtain e where "t k = Some e" "is_cached e" by blast
  then have "described E k (sent ctx)"
    using assms(1,2) by (auto simp: metadata_known_def)
  then show "described E k (sent ctx')"
    unfolding assms(4) by (rule described_append)
qed

lemma startup_onceI:
  assumes "startup_once E ctx" "startup_message_sent ctx"
    and "sent ctx' = sent ctx @ msgs'" "startup_message_sent ctx'"
    and "startup_bytes E ctx' = startup_bytes E ctx" "list_all (no_startup E) msgs'"
  shows "startup_once E ctx'"
  using assms by (auto simp: startup_once_def)

text \<open>One change of a native session, whole.\<close>

lemma change_native:
  assumes "pq_codec (pqf E)" "api (output_plugin_private ctx) = Some PGLogicalProtoNative"
    and "metadata_known E ctx" and step: "pg_decode_change E txn rel chg ctx = Inr ctx'"
  obtains p where "ctx' = ctx\<lparr> output_plugin_private := set_private p (output_plugin_private ctx) \<rparr>"
  | rels dmls p where "sent ctx' = sent ctx @ rels @ dmls" "length rels \<le> 1" "length dmls \<le> 1"
    "list_all (no_startup E) (rels @ dmls)" "described E (rd_id rel) (sent ctx @ rels)"
    "metadata_known E ctx'"
    "output_plugin_private ctx' = set_private p (output_plugin_private ctx)"
    "startup_message_sent ctx' = startup_message_sent ctx"
proof -
  obtain pass al b where f0: "call_row_filter_hook (output_plugin_private ctx) txn rel chg =
      Inr (pass, al, b)"
    using step by (auto simp: pg_decode_change_def rbind_eq_Inr)
  then obtain p where f: "call_row_filter_hook (output_plugin_private ctx) txn rel chg =
      Inr (pass, al, set_private p (output_plugin_private ctx))"
    using row_filter_private by metis
  let ?c0 = "ctx\<lparr> output_plugin_private := set_private p (output_plugin_private ctx) \<rparr>"
  have c0: "api (output_plugin_private ?c0) = Some PGLogicalProtoNative" "metadata_known E ?c0"
    using assms(2,3) by (simp_all add: metadata_known_def)
  show ?thesis
  proof (cases pass)
    case False
    then show ?thesis using step f by (intro that(1) [of p]) (simp add: pg_decode_change_def Let_def)
  next
    case True
    then obtain c where c: "change_send_relmeta E rel al ?c0 = Inr c"
      "change_send_data E rel chg al c = Inr ctx'"
      using step f by (auto simp: pg_decode_change_def rbind_eq_Inr Let_def)
    note r = relmeta_native [OF c0 c(1)]
    have "\<exists>rels. sent c = sent ctx @ rels \<and> length rels \<le> 1 \<and> list_all (no_startup E) rels"
      using r no_startup_simps(1) [OF assms(1)] by auto
    then obtain rels where rels: "sent c = sent ctx @ rels" "length rels \<le> 1"
      "list_all (no_startup E) rels" by blast
    have "\<exists>dmls. sent ctx' = sent c @ dmls \<and> length dmls \<le> 1 \<and> list_all (no_startup E) dmls \<and>
        RelMetaCache ctx' = RelMetaCache c \<and>
        output_plugin_private ctx' = output_plugin_private c \<and>
        startup_message_sent ctx' = startup_message_sent c"
      using data_native [OF _ c(2)] r c0(1) no_startup_simps [OF assms(1)] by auto
    then obtain dmls where d: "sent ctx' = sent c @ dmls" "length dmls \<le> 1"
      "list_all (no_startup E) dmls" "RelMetaCache ctx' = RelMetaCache c"
      "output_plugin_private ctx' = output_plugin_private c"
      "startup_message_sent ctx' = startup_message_sent c" by blast
    obtain t where "RelMetaCache c = Some t"
      using r by (auto simp: metadata_known_def)
    then have "metadata_known E ctx'"
      using r d by (rule_tac metadata_known_mono [where ctx = c and msgs' = dmls]) auto
    then show ?thesis
      using r d rels by (intro that(2) [of rels dmls p]) auto
  qed
qed

text \<open>A relation that is marked as cached stays so until the commit, which prunes it when it is invalid.\<close>

lemma relmeta_keeps_stale:
  assumes "stale_in rid ctx" "change_send_relmeta E rel al ctx = Inr c"
  shows "stale_in rid c" "rd_id rel = rid \<Longrightarrow> sent c = sent ctx"
  using assms
  by (auto simp: stale_in_def change_send_relmeta_def pglogical_cache_relmeta_def rbind_eq_Inr Let_def
      split: option.splits if_splits)

lemma data_keeps_stale:
  assumes "stale_in rid ctx" "change_send_data E rel chg al ctx = Inr c"
  shows "stale_in rid c"
  using assms data_native [OF _ assms(2)] by (auto simp: stale_in_def)

lemma change_keeps_stale:
  assumes "stale_in rid ctx" "pg_decode_change E txn rel chg ctx = Inr ctx'"
  shows "stale_in rid ctx'"
proof -
  obtain pass al p where f: "call_row_filter_hook (output_plugin_private ctx) txn rel chg =
      Inr (pass, al, set_private p (output_plugin_private ctx))"
    using assms(2) row_filter_private by (fastforce simp: pg_decode_change_def rbind_eq_Inr)
  have "stale_in rid (ctx\<lparr> output_plugin_private := set_private p (output_plugin_private ctx) \<rparr>)"
    using assms(1) by (simp add: stale_in_def)
  then show ?thesis
    using assms(2) f relmeta_keeps_stale(1) data_keeps_stale
    by (fastforce simp: pg_decode_change_def rbind_eq_Inr Let_def split: if_splits)
qed

lemma invalidate_keeps_stale:
  assumes "stale_in rid ctx"
  shows "stale_in rid (ctx\<lparr> RelMetaCache := map_option (\<lambda>t. relmeta_cache_callback t oid) (RelMetaCache ctx) \<rparr>)"
proof -
  obtain t e where t: "RelMetaCache ctx = Some t" "t rid = Some e" "is_cached e" "\<not> is_valid e"
    using assms by (auto simp: stale_in_def)
  have "\<exists>e. relmeta_cache_callback t oid rid = Some e \<and> is_cached e \<and> \<not> is_valid e"
    using t by (cases "t oid") (auto simp: relmeta_cache_callback_def)
  then show ?thesis using assms t(1) by (simp add: stale_in_def)
qed

lemma run_keeps_stale: "(decode_step E)\<^sup>*\<^sup>* ctx ctx' \<Longrightarrow> stale_in rid ctx \<Longrightarrow> stale_in rid ctx'"
proof (induction rule: rtranclp_induct)
  case (step y z)
  from step.hyps(2) step.IH [OF step.prems] show ?case
    by (cases rule: decode_step.cases) (auto intro: change_keeps_stale invalidate_keeps_stale)
qed

lemma no_relation_byte:
  assumes "pq_codec F"
  shows "pglogical_write_insert F T data rel tup al = Inr b \<Longrightarrow> pq_getmsgbyte F b \<noteq> Inr (CHR ''R'', m)"
    and "pglogical_write_update F T data rel old tup al = Inr b \<Longrightarrow> pq_getmsgbyte F b \<noteq> Inr (CHR ''R'', m)"
    and "pglogical_write_delete F T data rel tup al = Inr b \<Longrightarrow> pq_getmsgbyte F b \<noteq> Inr (CHR ''R'', m)"
  by (auto dest: first_bytes(2-4) [OF assms])

lemma stale_change_sends:
  assumes "pq_codec (pqf E)" "stale_in (rd_id rel) ctx" "pg_decode_change E txn rel chg ctx = Inr ctx'"
  shows "\<exists>msgs. sent ctx' = sent ctx @ msgs \<and> length msgs \<le> 1 \<and>
    (\<forall>msg \<in> set msgs. \<forall>m. pq_getmsgbyte (pqf E) (fst msg) \<noteq> Inr (CHR ''R'', m))"
proof -
  obtain pass al p where f: "call_row_filter_hook (output_plugin_private ctx) txn rel chg =
      Inr (pass, al, set_private p (output_plugin_private ctx))"
    using assms(3) row_filter_private by (fastforce simp: pg_decode_change_def rbind_eq_Inr)
  let ?c0 = "ctx\<lparr> output_plugin_private := set_private p (output_plugin_private ctx) \<rparr>"
  have st: "stale_in (rd_id rel) ?c0" using assms(2) by (simp add: stale_in_def)
  show ?thesis
  proof (cases pass)
    case True
    then obtain c where c: "change_send_relmeta E rel al ?c0 = Inr c" "change_send_data E rel chg al c = Inr ctx'"
      using assms(3) f by (auto simp: pg_decode_change_def rbind_eq_Inr Let_def)
    have "api (output_plugin_private c) = Some PGLogicalProtoNative"
      using relmeta_keeps_stale(1) [OF st c(1)] by (simp add: stale_in_def)
    then consider "ctx' = c" | b where "ctx' = plugin_write True b c" "\<And>m. pq_getmsgbyte (pqf E) b \<noteq> Inr (CHR ''R'', m)"
      using data_native [OF _ c(2)] no_relation_byte [OF assms(1)] by metis
    moreover have "sent c = sent ctx" using relmeta_keeps_stale(2) [OF st c(1)] by simp
    ultimately show ?thesis by cases auto
  qed (use assms(3) f in \<open>auto simp: pg_decode_change_def Let_def\<close>)
qed

text \<open>Behind the commit, the next change of the relation that passes the filter describes it first.\<close>

lemma pruned_change_sends:
  assumes "stale_in (rd_id rel) ctx"
    and "c' = pg_decode_begin_txn E txn (pg_decode_commit_txn E txn0 lsn ctx)"
    and "pg_decode_change E txn rel chg c' = Inr ctx'"
  shows "(\<exists>al b. call_row_filter_hook (output_plugin_private ctx) txn rel chg = Inr (False, al, b) \<and> sent ctx' = sent c') \<or>
    (\<exists>al bytes ce rest. pglogical_write_rel (pqf E) (get_namespace_name E) rel
        (Some \<lparr> relid = rd_id rel, is_cached = False, is_valid = True \<rparr>) al = Inr (bytes, ce) \<and>
      sent ctx' = sent c' @ (bytes, False) # rest)"
proof -
  obtain t e where t: "RelMetaCache ctx = Some t" "t (rd_id rel) = Some e" "\<not> is_valid e"
    and api: "api (output_plugin_private ctx) = Some PGLogicalProtoNative"
    using assms(1) by (auto simp: stale_in_def)
  have gone: "RelMetaCache c' = Some (pglogical_prune_relmetacache t)" "pglogical_prune_relmetacache t (rd_id rel) = None"
    using t by (simp_all add: assms(2) pg_decode_commit_txn_def pglogical_prune_relmetacache_def Let_def)
  obtain pass al p where f: "call_row_filter_hook (output_plugin_private ctx) txn rel chg =
      Inr (pass, al, set_private p (output_plugin_private ctx))"
    using assms(3) row_filter_private by (fastforce simp: assms(2) pg_decode_change_def rbind_eq_Inr)
  let ?c0 = "c'\<lparr> output_plugin_private := set_private p (output_plugin_private ctx) \<rparr>"
  show ?thesis
  proof (cases pass)
    case True
    then obtain c where c: "change_send_relmeta E rel al ?c0 = Inr c" "change_send_data E rel chg al c = Inr ctx'"
      using assms(2,3) f by (auto simp: pg_decode_change_def rbind_eq_Inr Let_def)
    obtain bytes ce where w: "pglogical_write_rel (pqf E) (get_namespace_name E) rel
        (Some \<lparr> relid = rd_id rel, is_cached = False, is_valid = True \<rparr>) al = Inr (bytes, ce)"
      "sent c = sent c' @ [(bytes, False)]" "output_plugin_private c = set_private p (output_plugin_private ctx)"
      using c(1) api gone
      by (auto simp: change_send_relmeta_def pglogical_cache_relmeta_def rbind_eq_Inr Let_def)
    moreover have "\<exists>rest. sent ctx' = sent c @ rest"
      using data_native [OF _ c(2)] api w(3) by auto
    ultimately show ?thesis by fastforce
  qed (use assms(2,3) f in \<open>auto simp: pg_decode_change_def Let_def\<close>)
qed

lemma startup_session_inv:
  assumes "pg_decode_startup E options False ctx0 = Inr ctx" "fresh_ctx ctx0"
  shows "session_inv E False ctx"
  using assms
  by (auto simp: pg_decode_startup_def Let_def rbind_eq_Inr session_inv_def metadata_known_def
      startup_once_def fresh_ctx_def pglogical_init_relmetacache_def split: option.splits)

lemma change_session_inv:
  assumes "pq_codec (pqf E)" "api (output_plugin_private ctx) = Some PGLogicalProtoNative"
    and inv: "session_inv E True ctx" and step: "pg_decode_change E txn rel chg ctx = Inr ctx'"
  shows "session_inv E True ctx'"
proof -
  have m: "metadata_known E ctx" "startup_once E ctx" "startup_message_sent ctx"
    using inv by (auto simp: session_inv_def)
  show ?thesis
  proof (rule change_native [OF assms(1,2) m(1) step])
    fix p assume c: "ctx' = ctx\<lparr> output_plugin_private := set_private p (output_plugin_private ctx) \<rparr>"
    then have "startup_bytes E ctx' = startup_bytes E ctx"
      by (intro startup_bytes_cong) simp
    then show ?thesis
      using inv c by (simp add: session_inv_def metadata_known_def startup_once_def)
  next
    fix rels dmls p
    assume "sent ctx' = sent ctx @ rels @ dmls" "list_all (no_startup E) (rels @ dmls)"
      "metadata_known E ctx'" "startup_message_sent ctx' = startup_message_sent ctx"
      "output_plugin_private ctx' = set_private p (output_plugin_private ctx)"
    then show ?thesis
      using m startup_bytes_cong [of ctx' p ctx E]
      by (auto simp: session_inv_def intro!: startup_onceI [of E ctx ctx' "rels @ dmls"])
  qed
qed

lemma begin_session_inv:
  assumes "pq_codec (pqf E)" "api (output_plugin_private ctx) = Some PGLogicalProtoNative"
    and inv: "session_inv E False ctx"
  shows "session_inv E True (pg_decode_begin_txn E txn ctx)"
proof -
  let ?c = "if \<not> startup_message_sent ctx then send_startup_message E False ctx else ctx"
  have c: "startup_once E ?c" "startup_message_sent ?c"
    "output_plugin_private ?c = output_plugin_private ctx" "\<exists>m. sent ?c = sent ctx @ m"
    using inv by (auto simp: session_inv_def startup_once_def send_startup_message_def Let_def
        startup_bytes_def api_of_def)
  have "\<exists>msgs'. sent (pg_decode_begin_txn E txn ctx) = sent ?c @ msgs' \<and>
      list_all (no_startup E) msgs'"
    using assms(2) no_startup_simps(5,7,8) [OF assms(1)]
    by (cases "startup_message_sent ctx")
      (auto simp: pg_decode_begin_txn_def Let_def split: option.splits)
  then obtain msgs' where m: "sent (pg_decode_begin_txn E txn ctx) = sent ?c @ msgs'"
    "list_all (no_startup E) msgs'" by blast
  have "startup_once E (pg_decode_begin_txn E txn ctx)"
    using startup_onceI [OF c(1,2) m(1) _ _ m(2)] c(3)
    by (simp add: startup_bytes_same [of "pg_decode_begin_txn E txn ctx" ?c E])
  moreover have "metadata_known E (pg_decode_begin_txn E txn ctx)"
  proof -
    obtain t p where t: "RelMetaCache ctx = Some t" and p: "sent ?c = sent ctx @ p"
      using inv c(4) by (auto simp: session_inv_def metadata_known_def)
    show ?thesis
      using inv m(1) t p
      by (rule_tac metadata_known_mono [of E ctx t _ t "p @ msgs'"]) (simp_all add: session_inv_def)
  qed
  ultimately show ?thesis by (simp add: session_inv_def)
qed

lemma commit_session_inv:
  assumes "pq_codec (pqf E)" "api (output_plugin_private ctx) = Some PGLogicalProtoNative"
    and inv: "session_inv E True ctx"
  shows "session_inv E False (pg_decode_commit_txn E txn lsn ctx)"
proof -
  let ?c = "pg_decode_commit_txn E txn lsn ctx"
  have s: "sent ?c = sent ctx @ [(pglogical_write_commit (pqf E) txn lsn, True)]"
    using assms(2) by (simp add: pg_decode_commit_txn_def Let_def)
  have "startup_once E ?c"
    using inv no_startup_simps(6) [OF assms(1)]
    by (intro startup_onceI [OF _ _ s]) (auto simp: session_inv_def intro: startup_bytes_same)
  moreover have "metadata_known E ?c"
  proof -
    obtain t where t: "RelMetaCache ctx = Some t"
      using inv by (auto simp: session_inv_def metadata_known_def)
    then have "RelMetaCache ?c = Some (pglogical_prune_relmetacache t)"
      by (simp add: pg_decode_commit_txn_def Let_def)
    then show ?thesis
      using inv t s
      by (rule_tac metadata_known_mono [of E ctx t _ "pglogical_prune_relmetacache t"])
        (auto simp: session_inv_def pglogical_prune_relmetacache_def split: option.splits if_splits)
  qed
  ultimately show ?thesis by (simp add: session_inv_def)
qed

lemma invalidate_session_inv:
  assumes "session_inv E b ctx"
  shows "session_inv E b
    (ctx\<lparr> RelMetaCache := map_option (\<lambda>t. relmeta_cache_callback t oid) (RelMetaCache ctx) \<rparr>)"
    (is "session_inv E b ?c")
proof -
  obtain t where t: "RelMetaCache ctx = Some t"
    using assms by (auto simp: session_inv_def metadata_known_def)
  have "metadata_known E ?c"
    using assms t
    by (rule_tac metadata_known_mono [of E ctx t _ "relmeta_cache_callback t oid" "[]"])
      (auto simp: session_inv_def relmeta_cache_callback_def split: option.splits if_splits)
  moreover have "startup_once E ?c"
    using assms startup_bytes_same [of ?c ctx E] by (simp add: session_inv_def startup_once_def)
  ultimately show ?thesis
    using assms by (simp add: session_inv_def)
qed

lemma session_native:
  assumes "session E options ctx0 b ctx" "pq_codec (pqf E)" "fresh_ctx ctx0"
    and "api (output_plugin_private ctx) = Some PGLogicalProtoNative"
  shows "session_inv E b ctx"
  using assms
proof (induction rule: session.induct)
  case (change ctx txn rel chg ctx')
  then show ?case
    using change_private [OF change.hyps(2)]
    by (metis change_session_inv set_private_simps(1))
qed (auto intro: startup_session_inv begin_session_inv commit_session_inv invalidate_session_inv)

subsection \<open>Startup\<close>

lemma load_hooks_keeps:
  "load_hooks E data = Inr data' \<Longrightarrow> data' = data\<lparr> hooks := hooks data' \<rparr>"
  by (auto simp: load_hooks_def rbind_eq_Inr split: if_splits)

lemma call_startup_hook_keeps:
  "call_startup_hook data params = Inr data' \<Longrightarrow>
   data' = data\<lparr> hooks := hooks data', extra_startup_params := extra_startup_params data' \<rparr>"
  by (auto simp: call_startup_hook_def rbind_eq_Inr split: option.splits)

text \<open>The stages of a successful start.\<close>

lemma startup_stream_Inr:
  assumes "startup_stream E options data = Inr (d, ot)"
  obtains d1 d2 d3 fmt h x where "process_parameters (srv E) options data = Inr (d1, fmt)"
    "client_min_proto_version d1 \<le> 1" "1 \<le> client_max_proto_version d1"
    "startup_protocol_format d1 = Inr (d2, ot)"
    "startup_encoding (srv E) ot d2 = Inr d3"
    "d = (startup_binary_modes (srv E) ot d3)\<lparr> hooks := h, extra_startup_params := x \<rparr>"
proof -
  obtain d1 fmt d2 d3 where st: "process_parameters (srv E) options data = Inr (d1, fmt)"
    "\<not> client_min_proto_version d1 > 1" "\<not> client_max_proto_version d1 < 1"
    "startup_protocol_format d1 = Inr (d2, ot)" "startup_encoding (srv E) ot d2 = Inr d3"
    and d: "d = startup_binary_modes (srv E) ot d3 \<or>
      (\<exists>d4. load_hooks E (startup_binary_modes (srv E) ot d3) = Inr d4 \<and>
            call_startup_hook d4 options = Inr d)"
    using assms by (auto simp: startup_stream_def rbind_eq_Inr Let_def split: if_splits)
  have "\<exists>h x. d = (startup_binary_modes (srv E) ot d3)\<lparr> hooks := h, extra_startup_params := x \<rparr>"
    using d
  proof
    assume "d = startup_binary_modes (srv E) ot d3"
    then have "d = (startup_binary_modes (srv E) ot d3)\<lparr> hooks := hooks d,
        extra_startup_params := extra_startup_params d \<rparr>" by simp
    then show ?thesis by blast
  next
    assume "\<exists>d4. load_hooks E (startup_binary_modes (srv E) ot d3) = Inr d4 \<and>
            call_startup_hook d4 options = Inr d"
    then obtain d4 h4 h x where "d4 = (startup_binary_modes (srv E) ot d3)\<lparr> hooks := h4 \<rparr>"
      "d = d4\<lparr> hooks := h, extra_startup_params := x \<rparr>"
      by (metis load_hooks_keeps call_startup_hook_keeps)
    then show ?thesis by auto
  qed
  moreover have "client_min_proto_version d1 \<le> 1" "1 \<le> client_max_proto_version d1"
    using st(2,3) by (simp_all only: not_less)
  ultimately show ?thesis
    using st(1,4,5) that by blast
qed

lemma startup_protocol_format_Inr:
  assumes "startup_protocol_format d1 = Inr (d2, ot)"
  shows "(client_protocol_format d1 = Some ''json'' \<and> ot = OUTPUT_PLUGIN_TEXTUAL_OUTPUT \<and>
          d2 = d1\<lparr> api := Some PGLogicalProtoJson \<rparr>) \<or>
         (client_protocol_format d1 \<in> {None, Some ''native''} \<and> ot = OUTPUT_PLUGIN_BINARY_OUTPUT \<and>
          d2 = d1\<lparr> api := Some PGLogicalProtoNative, client_no_txinfo := False \<rparr>)"
proof (cases "client_no_txinfo d1")
  case False
  then have "d1\<lparr> api := a, client_no_txinfo := False \<rparr> = d1\<lparr> api := a \<rparr>" for a by simp
  with False show ?thesis
    using assms by (auto simp: startup_protocol_format_def split: if_splits)
qed (use assms in \<open>auto simp: startup_protocol_format_def split: if_splits\<close>)

lemma startup_protocol_format_keeps:
  assumes "startup_protocol_format d1 = Inr (d2, ot)"
  obtains a n where "d2 = d1\<lparr> api := Some a, client_no_txinfo := n \<rparr>"
proof (cases "client_protocol_format d1 = Some ''json''")
  case True
  then have "d2 = d1\<lparr> api := Some PGLogicalProtoJson, client_no_txinfo := client_no_txinfo d1 \<rparr>"
    using startup_protocol_format_Inr [OF assms] by simp
  then show ?thesis by (rule that)
next
  case False
  then have "d2 = d1\<lparr> api := Some PGLogicalProtoNative, client_no_txinfo := False \<rparr>"
    using startup_protocol_format_Inr [OF assms] by simp
  then show ?thesis by (rule that)
qed

lemma startup_encoding_Inr:
  assumes "startup_encoding S ot d2 = Inr d3"
  shows "d3 = d2\<lparr> field_datum_encoding := field_datum_encoding d3 \<rparr> \<and>
    (\<forall>enc. client_expected_encoding d2 = Some enc \<and> enc \<noteq> [] \<longrightarrow>
       field_datum_encoding d3 = pg_char_to_encoding S enc \<and> pg_char_to_encoding S enc \<noteq> -1 \<and>
       pg_char_to_encoding S enc =
         (if ot = OUTPUT_PLUGIN_TEXTUAL_OUTPUT then pg_get_client_encoding S
          else GetDatabaseEncoding S))"
  using assms by (auto simp: startup_encoding_def Let_def split: option.splits if_splits)

lemma startup_binary_modes_flags:
  "allow_internal_basetypes (startup_binary_modes S ot d) =
     (if ot = OUTPUT_PLUGIN_BINARY_OUTPUT \<and> client_want_internal_basetypes d
      then check_binary_compatibility S d else allow_internal_basetypes d)"
  "allow_binary_basetypes (startup_binary_modes S ot d) =
     (ot = OUTPUT_PLUGIN_BINARY_OUTPUT \<and> client_want_binary_basetypes d \<and>
      client_binary_basetypes_major_version d = of_int (PG_VERSION_NUM S div 100)
      \<or> allow_binary_basetypes d)"
  by (auto simp: startup_binary_modes_def Let_def)

text \<open>The session data against the parameters that were parsed.\<close>

text \<open>The comparison of the platforms, for parameters that were read: the \<open>float8\<close> field is never set.\<close>

lemma check_binary_terms:
  assumes "process_parameters S options (palloc0_data p) = Inr (d1, fmt)"
  shows "check_binary_compatibility S d1 \<longleftrightarrow>
    (client_binary_basetypes_major_version d1 = of_int (PG_VERSION_NUM S div 100) \<and>
       (client_binary_bigendian_set d1 \<longrightarrow> client_binary_bigendian d1 = server_bigendian S) \<and>
       client_binary_sizeofdatum d1 \<in> {0, of_int (sizeof_datum S)} \<and>
       client_binary_sizeofint d1 \<in> {0, of_int (sizeof_int S)} \<and>
       client_binary_sizeoflong d1 \<in> {0, of_int (sizeof_long S)} \<and>
       (client_binary_float4byval_set d1 \<longrightarrow> client_binary_float4byval d1 = server_float4_byval S) \<and>
       (client_binary_intdatetimes_set d1 \<longrightarrow> client_binary_intdatetimes d1 = server_integer_datetimes S))"
proof -
  have "\<not> client_binary_float8byval_set d1"
    using assms by (auto elim!: process_parameters_Inr dest!: apply_params_keeps simp: palloc0_data_def)
  then show ?thesis by (auto simp: check_binary_compatibility_def)
qed

lemma startup_summary:
  assumes "startup_stream E options (palloc0_data p) = Inr (d, ot)"
  obtains d1 where
    "process_parameters (srv E) options (palloc0_data p) = Inr (d1, 1)"
    "client_min_proto_version d1 \<le> 1" "1 \<le> client_max_proto_version d1"
    "client_protocol_format d1 \<in> {None, Some ''native'', Some ''json''}"
    "ot = OUTPUT_PLUGIN_TEXTUAL_OUTPUT \<longleftrightarrow> client_protocol_format d1 = Some ''json''"
    "api d = Some (if ot = OUTPUT_PLUGIN_TEXTUAL_OUTPUT then PGLogicalProtoJson
                   else PGLogicalProtoNative)"
    "\<forall>enc. client_expected_encoding d1 = Some enc \<and> enc \<noteq> [] \<longrightarrow>
       field_datum_encoding d = (if ot = OUTPUT_PLUGIN_TEXTUAL_OUTPUT
         then pg_get_client_encoding (srv E) else GetDatabaseEncoding (srv E))"
    "allow_internal_basetypes d \<longleftrightarrow> ot = OUTPUT_PLUGIN_BINARY_OUTPUT \<and>
       client_want_internal_basetypes d1 \<and>
       client_binary_basetypes_major_version d1 = of_int (PG_VERSION_NUM (srv E) div 100) \<and>
       (client_binary_bigendian_set d1 \<longrightarrow> client_binary_bigendian d1 = server_bigendian (srv E)) \<and>
       client_binary_sizeofdatum d1 \<in> {0, of_int (sizeof_datum (srv E))} \<and>
       client_binary_sizeofint d1 \<in> {0, of_int (sizeof_int (srv E))} \<and>
       client_binary_sizeoflong d1 \<in> {0, of_int (sizeof_long (srv E))} \<and>
       (client_binary_float4byval_set d1 \<longrightarrow> client_binary_float4byval d1 = server_float4_byval (srv E)) \<and>
       (client_binary_intdatetimes_set d1 \<longrightarrow> client_binary_intdatetimes d1 = server_integer_datetimes (srv E))"
    "allow_binary_basetypes d \<longleftrightarrow> ot = OUTPUT_PLUGIN_BINARY_OUTPUT \<and>
       client_want_binary_basetypes d1 \<and>
       client_binary_basetypes_major_version d1 = of_int (PG_VERSION_NUM (srv E) div 100)"
proof -
  obtain d1 d2 d3 fmt h x where st: "process_parameters (srv E) options (palloc0_data p) = Inr (d1, fmt)"
    "client_min_proto_version d1 \<le> 1" "1 \<le> client_max_proto_version d1"
    "startup_protocol_format d1 = Inr (d2, ot)" "startup_encoding (srv E) ot d2 = Inr d3"
    "d = (startup_binary_modes (srv E) ot d3)\<lparr> hooks := h, extra_startup_params := x \<rparr>"
    using startup_stream_Inr [OF assms] by metis
  have fmt: "fmt = 1"
    using st(1) by (rule process_parameters_Inr)
  have no: "\<not> allow_internal_basetypes d1" "\<not> allow_binary_basetypes d1"
    using st(1) by (auto elim!: process_parameters_Inr dest!: apply_params_keeps simp: palloc0_data_def)
  obtain enc where d3: "d3 = d2\<lparr> field_datum_encoding := enc \<rparr>"
    using startup_encoding_Inr [OF st(5)] by blast
  obtain a n where a: "d2 = d1\<lparr> api := Some a, client_no_txinfo := n \<rparr>"
    using st(4) by (rule startup_protocol_format_keeps)
  have cenc: "client_expected_encoding d2 = client_expected_encoding d1"
    by (simp add: a)
  have compat: "check_binary_compatibility (srv E) d3 = check_binary_compatibility (srv E) d1"
    unfolding d3 a check_binary_compatibility_def by simp
  have api: "api d = api d2" "field_datum_encoding d = field_datum_encoding d3"
    unfolding st(6) d3 by (simp_all add: startup_binary_modes_def Let_def)
  show ?thesis
  proof (rule that [OF _ st(2,3)])
    show "process_parameters (srv E) options (palloc0_data p) = Inr (d1, 1)"
      using st(1) fmt by simp
    show "client_protocol_format d1 \<in> {None, Some ''native'', Some ''json''}"
      "ot = OUTPUT_PLUGIN_TEXTUAL_OUTPUT \<longleftrightarrow> client_protocol_format d1 = Some ''json''"
      "api d = Some (if ot = OUTPUT_PLUGIN_TEXTUAL_OUTPUT then PGLogicalProtoJson
                     else PGLogicalProtoNative)"
      using startup_protocol_format_Inr [OF st(4)] api(1) by auto
    show "\<forall>enc. client_expected_encoding d1 = Some enc \<and> enc \<noteq> [] \<longrightarrow>
       field_datum_encoding d = (if ot = OUTPUT_PLUGIN_TEXTUAL_OUTPUT
         then pg_get_client_encoding (srv E) else GetDatabaseEncoding (srv E))"
      using conjunct2 [OF startup_encoding_Inr [OF st(5)]] api(2) cenc by auto
    show "allow_internal_basetypes d \<longleftrightarrow> ot = OUTPUT_PLUGIN_BINARY_OUTPUT \<and>
       client_want_internal_basetypes d1 \<and>
       client_binary_basetypes_major_version d1 = of_int (PG_VERSION_NUM (srv E) div 100) \<and>
       (client_binary_bigendian_set d1 \<longrightarrow> client_binary_bigendian d1 = server_bigendian (srv E)) \<and>
       client_binary_sizeofdatum d1 \<in> {0, of_int (sizeof_datum (srv E))} \<and>
       client_binary_sizeofint d1 \<in> {0, of_int (sizeof_int (srv E))} \<and>
       client_binary_sizeoflong d1 \<in> {0, of_int (sizeof_long (srv E))} \<and>
       (client_binary_float4byval_set d1 \<longrightarrow> client_binary_float4byval d1 = server_float4_byval (srv E)) \<and>
       (client_binary_intdatetimes_set d1 \<longrightarrow> client_binary_intdatetimes d1 = server_integer_datetimes (srv E))"
      using no compat check_binary_terms [OF st(1)] unfolding st(6) by (auto simp: startup_binary_modes_flags d3 a)
    show "allow_binary_basetypes d \<longleftrightarrow> ot = OUTPUT_PLUGIN_BINARY_OUTPUT \<and>
       client_want_binary_basetypes d1 \<and>
       client_binary_basetypes_major_version d1 = of_int (PG_VERSION_NUM (srv E) div 100)"
      using no unfolding st(6) by (auto simp: startup_binary_modes_flags d3 a)
  qed
qed

section \<open>The example session\<close>

lemma ex_apply_params:
  "process_parameters ex_server ex_options (palloc0_data ()) =
   Inr ((palloc0_data ())\<lparr>
     client_max_proto_version := 1, client_min_proto_version := 1,
     client_expected_encoding := Some ''UTF8'', client_want_internal_basetypes_set := True,
     client_want_internal_basetypes := True, client_binary_basetypes_major_version := 905,
     client_binary_float4byval_set := True, client_binary_float4byval := True \<rparr>, 1)"
  by (simp add: process_parameters_def process_parameters_v1_def ex_options_def ex_option_def
      apply_param_def get_param_key_def param_lookup_def get_param_value_def parse_param_uint32_def
      parse_param_bool_def ex_server_def Let_def)

lemma ex_env_simps [simp]:
  "srv ex_env = ex_server" "pqf ex_env = net_pqformat" "null_private ex_env = ()"
  "tio ex_env = ex_typeio_out" "get_namespace_name ex_env n = Some ''public''"
  "replorigin_by_oid ex_env k = None"
  by (simp_all add: ex_env_def)

lemma palloc0_simps [simp]:
  "client_protocol_format (palloc0_data p) = None" "client_no_txinfo (palloc0_data p) = False"
  "client_binary_bigendian_set (palloc0_data p) = False"
  "client_binary_sizeofdatum (palloc0_data p) = 0" "client_binary_sizeofint (palloc0_data p) = 0"
  "client_binary_sizeoflong (palloc0_data p) = 0"
  "client_binary_float8byval_set (palloc0_data p) = False"
  "client_binary_intdatetimes_set (palloc0_data p) = False"
  "client_want_binary_basetypes (palloc0_data p) = False"
  "hooks_setup_funcname (palloc0_data p) = []" "hooks (palloc0_data p) = palloc0_hooks p"
  "extra_startup_params (palloc0_data p) = []"
  by (simp_all add: palloc0_data_def)

lemma ex_stream: "startup_stream ex_env ex_options (palloc0_data ()) =
    Inr (ex_data, OUTPUT_PLUGIN_BINARY_OUTPUT)"
proof -
  have "check_binary_compatibility ex_server d \<longleftrightarrow> client_binary_basetypes_major_version d = 905 \<and>
      client_binary_float4byval d" if "\<not> client_binary_bigendian_set d"
    "client_binary_sizeofdatum d = 0" "client_binary_sizeofint d = 0"
    "client_binary_sizeoflong d = 0" "client_binary_float4byval_set d"
    "\<not> client_binary_float8byval_set d" "\<not> client_binary_intdatetimes_set d"
    for d :: "unit PGLogicalOutputData"
    using that by (simp add: check_binary_compatibility_def ex_server_def)
  moreover have "pg_char_to_encoding ex_server ''UTF8'' = 6" "GetDatabaseEncoding ex_server = 6"
    "PG_VERSION_NUM ex_server = 90500"
    by (simp_all add: ex_server_def)
  ultimately show ?thesis
    by (simp add: startup_stream_def ex_apply_params startup_protocol_format_def
        startup_encoding_def startup_binary_modes_def Let_def ex_data_def)
qed

lemma ex_startup: "pg_decode_startup ex_env ex_options False ex_ctx0 = Inr ex_ctx1"
  by (simp add: pg_decode_startup_def ex_stream Let_def ex_ctx1_def ex_ctx0_def
      pglogical_init_relmetacache_def)

lemma ex_session0: "session ex_env ex_options ex_ctx0 True (pg_decode_begin_txn ex_env ex_otxn ex_ctx1)"
  by (intro session.begin_txn session.start ex_startup)

lemma ex_begin:
  "pg_decode_begin_txn ex_env ex_otxn ex_ctx1 =
     ex_ctx1\<lparr> startup_message_sent := True,
       sent := [(startup_bytes ex_env ex_ctx1, False),
                (pglogical_write_begin net_pqformat ex_otxn, True)] \<rparr>"
  by (simp add: pg_decode_begin_txn_def Let_def send_startup_message_def startup_bytes_def
      api_of_def pglogical_init_api_def ex_ctx1_def ex_ctx0_def ex_data_def ex_otxn_def
      plugin_write_def)

section \<open>Properties\<close>

text \<open>
  C5.  In every session of the native protocol, whatever transactions are decoded and whatever
  relations are invalidated in between, the startup message is the first message on the wire and is
  sent exactly once: nothing is sent before it, every message behind it has another type byte, and it
  has been sent before the first change or commit of a transaction is.
\<close>

theorem startup_message_first_and_once:
  assumes "session E options ctx0 in_txn ctx" "pq_codec (pqf E)" "fresh_ctx ctx0"
    and "api (output_plugin_private ctx) = Some PGLogicalProtoNative"
  shows "(sent ctx = [] \<and> \<not> in_txn) \<or>
    (\<exists>rest. sent ctx = (write_startup_message (pqf E)
        (prepare_startup_message (srv E) (output_plugin_private ctx)), False) # rest \<and>
      (\<forall>msg \<in> set rest. \<forall>m. pq_getmsgbyte (pqf E) (fst msg) \<noteq> Inr (CHR ''S'', m)))"
  using session_native [OF assms] assms(4)
  by (auto simp: session_inv_def startup_once_def startup_bytes_def list_all_iff no_startup_def
      split: if_splits)

theorem startup_message_first_and_once_witness:
  "(sent (pg_decode_begin_txn ex_env ex_otxn ex_ctx1) = [] \<and> \<not> True) \<or>
    (\<exists>rest. sent (pg_decode_begin_txn ex_env ex_otxn ex_ctx1) = (write_startup_message (pqf ex_env)
        (prepare_startup_message (srv ex_env)
          (output_plugin_private (pg_decode_begin_txn ex_env ex_otxn ex_ctx1))), False) # rest \<and>
      (\<forall>msg \<in> set rest. \<forall>m. pq_getmsgbyte (pqf ex_env) (fst msg) \<noteq> Inr (CHR ''S'', m)))"
  by (rule startup_message_first_and_once [OF ex_session0])
    (simp_all add: net_codec fresh_ctx_def ex_ctx0_def ex_ctx1_def ex_data_def)

text \<open>
  C6.  Metadata precedes data.  A change that a native session decodes adds at most one relation
  message and at most one data message to the stream, in that order, and unless the row filter
  dropped the change (nothing is added then) the stream holds a relation message for the
  relation of the change in front of the data message.
\<close>

theorem relation_described_before_data:
  assumes "session E options ctx0 True ctx" "pq_codec (pqf E)" "fresh_ctx ctx0"
    and "api (output_plugin_private ctx) = Some PGLogicalProtoNative"
    and "pg_decode_change E txn rel chg ctx = Inr ctx'"
  shows "sent ctx' = sent ctx \<or>
    (\<exists>rels dmls. sent ctx' = sent ctx @ rels @ dmls \<and> length rels \<le> 1 \<and> length dmls \<le> 1 \<and>
       described E (rd_id rel) (sent ctx @ rels))"
proof -
  have "metadata_known E ctx"
    using session_native [OF assms(1-4)] by (simp add: session_inv_def)
  then show ?thesis
    by (rule change_native [OF assms(2,4) _ assms(5)]) (simp, blast)
qed

lemma ex_change_ok:
  "\<exists>ctx'. pg_decode_change ex_env ex_otxn ex_orel ex_change
     (pg_decode_begin_txn ex_env ex_otxn ex_ctx1) = Inr ctx'"
  by (simp add: pg_decode_change_def ex_begin change_send_relmeta_def call_row_filter_hook_def
      api_of_def pglogical_init_api_def pglogical_cache_relmeta_def ex_ctx1_def ex_ctx0_def
      ex_data_def palloc0_hooks_def pglogical_write_rel_def ex_orel_def change_send_data_def
      ex_change_def pglogical_write_insert_def pglogical_write_tuple_def att_sent_def
      write_column_def VARATT_IS_EXTERNAL_ONDISK_def ex_typeio_out_def decide_datum_transfer_def
      write_internal_def Let_def)

theorem relation_described_before_data_witness:
  "\<exists>ctx'. pg_decode_change ex_env ex_otxn ex_orel ex_change
      (pg_decode_begin_txn ex_env ex_otxn ex_ctx1) = Inr ctx' \<and>
    (sent ctx' = sent (pg_decode_begin_txn ex_env ex_otxn ex_ctx1) \<or>
     (\<exists>rels dmls. sent ctx' = sent (pg_decode_begin_txn ex_env ex_otxn ex_ctx1) @ rels @ dmls \<and>
       length rels \<le> 1 \<and> length dmls \<le> 1 \<and>
       described ex_env (rd_id ex_orel)
         (sent (pg_decode_begin_txn ex_env ex_otxn ex_ctx1) @ rels)))"
proof -
  obtain ctx' where ok: "pg_decode_change ex_env ex_otxn ex_orel ex_change
      (pg_decode_begin_txn ex_env ex_otxn ex_ctx1) = Inr ctx'"
    using ex_change_ok by blast
  have "pq_codec (pqf ex_env)" "fresh_ctx ex_ctx0"
    "api (output_plugin_private (pg_decode_begin_txn ex_env ex_otxn ex_ctx1)) =
       Some PGLogicalProtoNative"
    by (simp_all add: net_codec fresh_ctx_def ex_ctx0_def ex_ctx1_def ex_data_def)
  from relation_described_before_data [OF ex_session0 this ok] ok show ?thesis by blast
qed





text \<open>
  The platform check never rejects a client for its \<open>float8\<close> representation.  The parameter
  \<open>binary.float8_byval\<close> is stored into the fields of \<open>binary.float4_byval\<close>, so after parsing any options
  the \<open>float8\<close> flag is still unset, a session passes or fails the check whatever the server's
  \<open>float8\<close> setting is, and a client that states only its \<open>float8\<close> setting is compared with the
  server's \<open>float4\<close> setting.
\<close>

theorem float8_setting_never_checked:
  assumes "process_parameters S options (palloc0_data p) = Inr (d, fmt)"
  shows "\<not> client_binary_float8byval_set d \<and>
    check_binary_compatibility (S\<lparr> server_float8_byval := b \<rparr>) d = check_binary_compatibility S d \<and>
    (parse_bool S val = Some v \<longrightarrow>
     apply_param S \<lparr> defname = ''binary.float8_byval'', defarg = Some val \<rparr> d =
       Inr (d\<lparr> client_binary_float4byval_set := True, client_binary_float4byval := v \<rparr>))"
proof -
  have "\<not> client_binary_float8byval_set d"
    using assms by (auto elim!: process_parameters_Inr dest!: apply_params_keeps)
  moreover have "parse_bool S val = Some v \<Longrightarrow>
     apply_param S \<lparr> defname = ''binary.float8_byval'', defarg = Some val \<rparr> d =
       Inr (d\<lparr> client_binary_float4byval_set := True, client_binary_float4byval := v \<rparr>)"
    by (simp add: apply_param_def get_param_key_def param_lookup_def get_param_value_def
        parse_param_bool_def)
  ultimately show ?thesis
    by (simp add: check_binary_compatibility_def)
qed

theorem float8_setting_never_checked_witness:
  "\<exists>d :: unit PGLogicalOutputData. \<not> client_binary_float8byval_set d \<and>
    check_binary_compatibility (ex_server\<lparr> server_float8_byval := False \<rparr>) d =
      check_binary_compatibility ex_server d \<and>
    (parse_bool ex_server ''0'' = Some False \<longrightarrow>
     apply_param ex_server \<lparr> defname = ''binary.float8_byval'', defarg = Some ''0'' \<rparr> d =
       Inr (d\<lparr> client_binary_float4byval_set := True, client_binary_float4byval := False \<rparr>))"
proof -
  obtain d where "process_parameters ex_server ex_options (palloc0_data ()) = Inr (d, 1)"
    using ex_apply_params by blast
  from float8_setting_never_checked [OF this, of False "''0''" False] show ?thesis by blast
qed

text \<open>
  A transaction whose origin cannot be named is announced by an empty message.  When a session
  that forwards origins begins a transaction with an origin whose name is unknown (or speaks JSON, which
  has no origin message), it sends the begin message as not the last one and then a message with no
  bytes at all, from which no message type can be read.
\<close>

theorem unknown_origin_sends_empty_message:
  assumes "pq_codec (pqf E)" "startup_message_sent ctx" "have_replication_origins (srv E)"
    and "forward_changeset_origins (output_plugin_private ctx)"
    and "origin_id txn \<noteq> InvalidRepOriginId"
    and "replorigin_by_oid E (origin_id txn) = None \<or> api_write_origin (api_of E ctx) = None"
  shows "sent (pg_decode_begin_txn E txn ctx) = sent ctx @
      [(api_write_begin (api_of E ctx) (output_plugin_private ctx) txn, False), ([], True)] \<and>
    \<not> is_ok (pq_getmsgbyte (pqf E) [])"
proof -
  have "api_of E (plugin_write l b ctx) = api_of E ctx" for l b
    by (simp add: api_of_def)
  then show ?thesis
    using assms pq_codec.getmsgbyte_nil [OF assms(1)]
    by (auto simp: pg_decode_begin_txn_def Let_def split: option.splits)
qed

theorem unknown_origin_sends_empty_message_witness:
  "sent (pg_decode_begin_txn ex_env (ex_otxn\<lparr> origin_id := 3 \<rparr>) (ex_ctx1\<lparr> startup_message_sent := True \<rparr>)) =
     sent (ex_ctx1\<lparr> startup_message_sent := True \<rparr>) @
      [(api_write_begin (api_of ex_env (ex_ctx1\<lparr> startup_message_sent := True \<rparr>))
          (output_plugin_private (ex_ctx1\<lparr> startup_message_sent := True \<rparr>))
          (ex_otxn\<lparr> origin_id := 3 \<rparr>), False), ([], True)] \<and>
    \<not> is_ok (pq_getmsgbyte (pqf ex_env) [])"
  by (rule unknown_origin_sends_empty_message)
    (simp_all add: net_codec ex_server_def ex_ctx1_def ex_data_def ex_otxn_def)

end
