(* ===== verification/Pgl_RowFilter.thy ===== *)
theory Pgl_RowFilter
  imports Pgl_Types
begin

text \<open>
  Row filters as the executor sees them, \<open>pglogical_prepare_row_filter\<close> of \<open>src/pglogical_executor.c\<close>: a stored expression
  tree is cast to boolean and made executable.  The output hook and the copy function of the provider both use it.
\<close>

text \<open>
  \<open>coerce_to_target_type\<close> finds a cast to boolean for the expression and its type or none; \<open>expression_planner\<close> and
  \<open>ExecInitExpr\<close> make it executable; \<open>ExecEvalExpr\<close> evaluates it on a row of the given type.  All are PostgreSQL's.
\<close>

record ('n, 'e) filter_env =
  exprType :: "'n \<Rightarrow> oid"
  coerce_to_target_type :: "'n \<Rightarrow> oid \<Rightarrow> 'n option"
  plan_and_init :: "'n \<Rightarrow> 'e"
  eval_expr :: "'e \<Rightarrow> tupledesc \<Rightarrow> heap_tuple \<Rightarrow> bool option result"

definition pglogical_prepare_row_filter :: "('n, 'e) filter_env \<Rightarrow> 'n \<Rightarrow> 'e result" where
  "pglogical_prepare_row_filter X row_filter =
     (case coerce_to_target_type X row_filter (exprType X row_filter) of
        None \<Rightarrow> ereport ERRCODE_DATATYPE_MISMATCH ''cannot cast the row_filter to boolean''
      | Some expr \<Rightarrow> Inr (plan_and_init X expr))"

text \<open>The value of a filter on a row, NULL as \<open>None\<close>: prepared and evaluated.\<close>

definition filter_value :: "('n, 'e) filter_env \<Rightarrow> 'n \<Rightarrow> tupledesc \<Rightarrow> heap_tuple \<Rightarrow> bool option result" where
  "filter_value X f desc row = rbind (pglogical_prepare_row_filter X f) (\<lambda>e. eval_expr X e desc row)"

end
