(* ===== verification/Pgl_Hooks.thy ===== *)
theory Pgl_Hooks
  imports Pgl_Repset Pgl_Output Pgl_RowFilter
begin

text \<open>
  pglogical's own hooks for the output plugin, \<open>src/pglogical_hooks.c\<close>: they decide which transactions,
  rows and columns a subscriber gets.  The private data of the hooks is taken together with the state of
  the walsender process they read: the cache of table infos and the catalogs as the snapshot of the
  change being decoded shows them.

  Parameters are the backend's identifier splitting and case-insensitive comparison, schema oids, the
  access to the columns of catalog tuples in the change stream, and the planning and evaluation of row filters.
\<close>

section \<open>Data\<close>

record PGLogicalHooksPrivate =
  local_node_id :: oid
  replication_sets :: "PGLogicalRepSet list"
  replicate_only_table :: "(string \<times> string) option"
  forward_origins :: "string list"

record ('k, 'n) hook_world =
  hw_private :: "PGLogicalHooksPrivate option"
  hw_hash :: "('k, 'n) repset_hash"
  hw_nodes :: node_catalog
  hw_db :: provider_db

record ('k, 'n, 'j, 'e) hooks_env =
  he_repset :: "'n repset_env"
  he_keyof :: "oid \<Rightarrow> 'k"
  he_strcaseeq :: "string \<Rightarrow> string \<Rightarrow> bool"
  SplitIdentifierString :: "string \<Rightarrow> char \<Rightarrow> string list option"
  get_namespace_oid :: "string \<Rightarrow> oid"
  queue_table_oid :: oid
  he_queue :: "'j queue_env"
  queue_getstruct :: "heap_tuple \<Rightarrow> QueueTuple"
  repset_getstruct :: "heap_tuple \<Rightarrow> PGLogicalRepSet"
  he_filters :: "('n, 'e) filter_env"

abbreviation REPLICATION_ORIGIN_ALL :: string where
  "REPLICATION_ORIGIN_ALL \<equiv> ''all''"

section \<open>Startup\<close>

text \<open>
  One option of the client.  \<open>linitial\<close> and \<open>lsecond\<close> of a list that is too short follow a NULL
  pointer.
\<close>

definition startup_option ::
  "('k, 'n, 'j, 'e) hooks_env \<Rightarrow> provider_db \<Rightarrow> defelem \<Rightarrow> PGLogicalHooksPrivate
     \<Rightarrow> PGLogicalHooksPrivate result" where
  "startup_option H db elem private =
     (if he_strcaseeq H ''pglogical.forward_origins'' (defname elem)
      then (case defarg elem of
              None \<Rightarrow> elog ''pglogical.forward_origins may not be NULL''
            | Some arg \<Rightarrow>
                (case SplitIdentifierString H arg CHR '','' of
                   None \<Rightarrow> elog ''Could not parse forward origin name list %s''
                 | Some names \<Rightarrow>
                     if list_ex (\<lambda>n. n \<noteq> REPLICATION_ORIGIN_ALL) names
                     then elog ''Only \"%s\" is allowed in forward origin name list at the moment, found \"%s\"''
                     else Inr (private\<lparr> forward_origins := names \<rparr>)))
      else if he_strcaseeq H ''pglogical.replication_set_names'' (defname elem)
      then (case defarg elem of
              None \<Rightarrow> elog ''pglogical.replication_set_names may not be NULL''
            | Some arg \<Rightarrow>
                (case SplitIdentifierString H arg CHR '','' of
                   None \<Rightarrow> elog ''Could not parse replication set name list %s''
                 | Some names \<Rightarrow>
                     rbind (get_replication_sets (local_node_id private) names False db) (\<lambda>sets.
                     Inr (private\<lparr> replication_sets := sets \<rparr>))))
      else if he_strcaseeq H ''pglogical.replicate_only_table'' (defname elem)
      then (case defarg elem of
              None \<Rightarrow> elog ''pglogical.replicate_only_table may not be NULL''
            | Some arg \<Rightarrow>
                (case SplitIdentifierString H arg CHR ''.'' of
                   None \<Rightarrow> elog ''Could not parse replicate_only_table %s''
                 | Some (nsp # rel # _) \<Rightarrow> Inr (private\<lparr> replicate_only_table := Some (nsp, rel) \<rparr>)
                 | Some _ \<Rightarrow> Inl NullDereference))
      else Inr private)"

definition pglogical_startup_hook ::
  "('k, 'n, 'j, 'e) hooks_env \<Rightarrow> ('k, 'n) hook_world \<Rightarrow> defelem list
     \<Rightarrow> (defelem list \<times> ('k, 'n) hook_world) result" where
  "pglogical_startup_hook H W in_params =
     rbind (get_local_node False (hw_nodes W)) (\<lambda>node.
     rbind (foreach_row (startup_option H (hw_db W)) in_params
        \<lparr> local_node_id = node_id (ln_node (the node)), replication_sets = [],
          replicate_only_table = None, forward_origins = [] \<rparr>) (\<lambda>private.
     Inr ([], W\<lparr> hw_private := Some private \<rparr>)))"

section \<open>Row filter\<close>

text \<open>A queued message passes when it is global or one of its sets is subscribed to.\<close>

definition queue_message_passes :: "PGLogicalRepSet list \<Rightarrow> 'j QueuedMessage \<Rightarrow> bool" where
  "queue_message_passes sets q \<longleftrightarrow>
     qm_replication_sets q = [] \<or>
     list_ex (\<lambda>queue_set. list_ex (\<lambda>rs. queue_set = rs_name rs \<and>
        (qm_message_type q \<noteq> QUEUE_COMMAND_TYPE_TRUNCATE \<or> replicate_truncate rs)) sets)
       (qm_replication_sets q)"

text \<open>The first of our sets with the id of the changed one: an error on deletion, else its flags are taken.\<close>

definition update_flags :: "PGLogicalRepSet \<Rightarrow> PGLogicalRepSet \<Rightarrow> PGLogicalRepSet" where
  "update_flags new rs =
     rs\<lparr> replicate_insert := replicate_insert new, replicate_update := replicate_update new,
         replicate_delete := replicate_delete new, replicate_truncate := replicate_truncate new \<rparr>"

definition repset_changed ::
  "change_action \<Rightarrow> PGLogicalRepSet \<Rightarrow> PGLogicalRepSet list \<Rightarrow> PGLogicalRepSet list result" where
  "repset_changed act new sets =
     (if List.find (\<lambda>rs. rs_id rs = rs_id new) sets \<noteq> None \<and> act = REORDER_BUFFER_CHANGE_DELETE
      then elog ''replication set \"%s\" used by this connection was deleted, existing''
      else Inr (update_first (\<lambda>rs. rs_id rs = rs_id new) (update_flags new) sets))"

definition action_passes :: "change_action \<Rightarrow> 'n PGLogicalTableRepInfo \<Rightarrow> bool" where
  "action_passes act tblinfo =
     (case act of
        REORDER_BUFFER_CHANGE_INSERT \<Rightarrow> ti_insert tblinfo
      | REORDER_BUFFER_CHANGE_UPDATE \<Rightarrow> ti_update tblinfo
      | REORDER_BUFFER_CHANGE_DELETE \<Rightarrow> ti_delete tblinfo)"

text \<open>The loop over the filters: each is prepared, evaluated on the row, and must be true; NULL is the same as false.\<close>

fun row_filters_pass ::
  "('n, 'e) filter_env \<Rightarrow> tupledesc \<Rightarrow> heap_tuple \<Rightarrow> 'n list \<Rightarrow> bool result" where
  "row_filters_pass X desc tup [] = Inr True"
| "row_filters_pass X desc tup (row_filter # fs) =
     rbind (pglogical_prepare_row_filter X row_filter) (\<lambda>exprstate.
     rbind (eval_expr X exprstate desc tup) (\<lambda>res.
       if res \<noteq> Some True then Inr False else row_filters_pass X desc tup fs))"

text \<open>
  The tuples of a change: \<open>the\<close> stands for following the pointer, which the reorder buffer sets for
  inserts and updates (new tuple) and, for catalog tables with a primary key, for deletes (old tuple).
\<close>

definition pglogical_row_filter_hook ::
  "('k, 'n, 'j, 'e) hooks_env \<Rightarrow> ('k, 'n) hook_world \<Rightarrow> reorderbuffer_txn \<Rightarrow> relation \<Rightarrow> reorderbuffer_change
     \<Rightarrow> (bool \<times> bitmapset option \<times> ('k, 'n) hook_world) result" where
  "pglogical_row_filter_hook H W txn rel change =
     (let private = the (hw_private W)
      in case replicate_only_table private of
           Some (nsp, rname) \<Rightarrow>
             Inr (relname rel = rname \<and> relnamespace rel = get_namespace_oid H nsp, None, W)
         | None \<Rightarrow>
           if rd_id rel = queue_table_oid H
           then if action change = REORDER_BUFFER_CHANGE_INSERT
                then rbind (queued_message_from_tuple (he_queue H) (queue_getstruct H (the (newtuple change)))) (\<lambda>q.
                     Inr (queue_message_passes (replication_sets private) q, None, W))
                else Inr (False, None, W)
           else if rd_id rel = repset_table_oid (he_repset H)
           then if action change = REORDER_BUFFER_CHANGE_INSERT then Inr (False, None, W)
                else let tup = (if action change = REORDER_BUFFER_CHANGE_UPDATE
                                then the (newtuple change) else the (oldtuple change))
                     in rbind (repset_changed (action change)
                                 (replication_set_from_tuple (repset_getstruct H tup)) (replication_sets private))
                          (\<lambda>sets. Inr (False, None,
                             W\<lparr> hw_private := Some (private\<lparr> replication_sets := sets \<rparr>) \<rparr>))
           else rbind (get_table_replication_info (he_repset H) (he_keyof H) rel (replication_sets private)
                         (hw_db W) (hw_hash W)) (\<lambda>(tblinfo, hash).
                let W = W\<lparr> hw_hash := hash \<rparr>
                in if \<not> action_passes (action change) tblinfo then Inr (False, None, W)
                   else if length (ti_row_filter tblinfo) > 0
                   then (case (newtuple change, oldtuple change) of
                           (None, None) \<Rightarrow> Inr (False, None, W)
                         | (new, old) \<Rightarrow>
                             rbind (row_filters_pass (he_filters H) (rd_att rel)
                                      (case new of Some t \<Rightarrow> t | None \<Rightarrow> the old) (ti_row_filter tblinfo)) (\<lambda>pass.
                             Inr (pass, if pass then ti_att_list tblinfo else None, W)))
                   else Inr (True, ti_att_list tblinfo, W)))"

definition pglogical_txn_filter_hook :: "('k, 'n) hook_world \<Rightarrow> 16 word \<Rightarrow> bool" where
  "pglogical_txn_filter_hook W origin =
     (if origin = InvalidRepOriginId then True
      else length (forward_origins (the (hw_private W))) > 0)"

definition pglogical_hooks_setup ::
  "('k, 'n, 'j, 'e) hooks_env \<Rightarrow> ('k, 'n) hook_world PGLogicalHooks \<Rightarrow> ('k, 'n) hook_world PGLogicalHooks" where
  "pglogical_hooks_setup H h =
     h\<lparr> startup_hook := Some (pglogical_startup_hook H), shutdown_hook := None,
        row_filter_hook := Some (pglogical_row_filter_hook H),
        txn_filter_hook := Some pglogical_txn_filter_hook \<rparr>"

section \<open>Specification\<close>

text \<open>
  A row change of an ordinary table is wanted when a subscribed set of the table replicates the action
  and every row filter of the table's rows in the subscribed sets is true on the new row (the old one for a
  delete).
\<close>

definition set_replicates :: "change_action \<Rightarrow> PGLogicalRepSet \<Rightarrow> bool" where
  "set_replicates act s =
     (case act of
        REORDER_BUFFER_CHANGE_INSERT \<Rightarrow> replicate_insert s
      | REORDER_BUFFER_CHANGE_UPDATE \<Rightarrow> replicate_update s
      | REORDER_BUFFER_CHANGE_DELETE \<Rightarrow> replicate_delete s)"

definition filter_row :: "reorderbuffer_change \<Rightarrow> heap_tuple option" where
  "filter_row change = (case newtuple change of Some t \<Rightarrow> Some t | None \<Rightarrow> oldtuple change)"

definition wanted ::
  "('k, 'n, 'j, 'e) hooks_env \<Rightarrow> relation \<Rightarrow> PGLogicalRepSet list \<Rightarrow> provider_db \<Rightarrow> reorderbuffer_change \<Rightarrow> bool" where
  "wanted H rel sets db change \<longleftrightarrow>
     (\<exists>(t, s) \<in> subscribed rel sets db. set_replicates (action change) s) \<and>
     (\<forall>(t, s) \<in> subscribed rel sets db. \<forall>f. getattr_row_filter (he_repset H) (rd_att rel) t = Some f \<longrightarrow>
        (\<exists>row. filter_row change = Some row \<and>
           filter_value (he_filters H) (stringToNode (he_repset H) f) (rd_att rel) row = Inr (Some True)))"

text \<open>The filters of the table can be prepared, and evaluating them on the row raises no error.\<close>

definition filters_total ::
  "('k, 'n, 'j, 'e) hooks_env \<Rightarrow> relation \<Rightarrow> PGLogicalRepSet list \<Rightarrow> provider_db \<Rightarrow> reorderbuffer_change \<Rightarrow> bool" where
  "filters_total H rel sets db change \<longleftrightarrow>
     (\<forall>(t, s) \<in> subscribed rel sets db. \<forall>f row.
        getattr_row_filter (he_repset H) (rd_att rel) t = Some f \<and> filter_row change = Some row \<longrightarrow>
        is_ok (filter_value (he_filters H) (stringToNode (he_repset H) f) (rd_att rel) row))"

text \<open>
  An ordinary table of a session that is not catching up a single table.
\<close>

definition ordinary :: "('k, 'n, 'j, 'e) hooks_env \<Rightarrow> relation \<Rightarrow> ('k, 'n) hook_world \<Rightarrow> bool" where
  "ordinary H rel W \<longleftrightarrow> rd_id rel \<noteq> queue_table_oid H \<and> rd_id rel \<noteq> repset_table_oid (he_repset H) \<and>
     (\<exists>p. hw_private W = Some p \<and> replicate_only_table p = None) \<and>
     repset_table_exists (he_repset H) \<and> pg_class (hw_db W) (rd_id rel) = Some rel"

abbreviation our_sets :: "('k, 'n) hook_world \<Rightarrow> PGLogicalRepSet list" where
  "our_sets W \<equiv> replication_sets (the (hw_private W))"

text \<open>The cached table infos are those of the present catalogs and of our sets.\<close>

definition cache_current :: "('k, 'n, 'j, 'e) hooks_env \<Rightarrow> ('k, 'n) hook_world \<Rightarrow> bool" where
  "cache_current H W \<longleftrightarrow> info_ok (he_repset H) (he_keyof H) (our_sets W) (hw_db W) (hw_hash W)"

text \<open>The columns a wanted row is cut to: those listed, or all of them.\<close>

definition wanted_columns ::
  "('k, 'n, 'j, 'e) hooks_env \<Rightarrow> relation \<Rightarrow> PGLogicalRepSet list \<Rightarrow> provider_db \<Rightarrow> bitmapset option" where
  "wanted_columns H rel sets db =
     (if listed_columns (he_repset H) rel (subscribed rel sets db) = {} then None
      else Some (listed_columns (he_repset H) rel (subscribed rel sets db)))"

text \<open>The data message of a change in the native protocol; a delete without an old row has none.\<close>

definition native_data ::
  "'p plugin_env \<Rightarrow> 'p PGLogicalOutputData \<Rightarrow> relation \<Rightarrow> reorderbuffer_change \<Rightarrow> bitmapset option
     \<Rightarrow> string list result" where
  "native_data E data rel change cols =
     (case action change of
        REORDER_BUFFER_CHANGE_INSERT \<Rightarrow>
          rbind (pglogical_write_insert (pqf E) (tio E) data rel (the (newtuple change)) cols) (\<lambda>b. Inr [b])
      | REORDER_BUFFER_CHANGE_UPDATE \<Rightarrow>
          rbind (pglogical_write_update (pqf E) (tio E) data rel (oldtuple change) (the (newtuple change)) cols)
            (\<lambda>b. Inr [b])
      | REORDER_BUFFER_CHANGE_DELETE \<Rightarrow>
          (case oldtuple change of
             None \<Rightarrow> Inr []
           | Some old \<Rightarrow> rbind (pglogical_write_delete (pqf E) (tio E) data rel old cols) (\<lambda>b. Inr [b])))"

text \<open>What the options of a client can leave in the private data.\<close>

definition private_ok :: "oid \<Rightarrow> provider_db \<Rightarrow> PGLogicalHooksPrivate \<Rightarrow> bool" where
  "private_ok nodeid db p \<longleftrightarrow> local_node_id p = nodeid \<and> set (forward_origins p) \<subseteq> {REPLICATION_ORIGIN_ALL} \<and>
     (\<forall>s \<in> set (replication_sets p). s \<in> set (cat_repset db) \<and> rs_nodeid s = nodeid)"

section \<open>An example\<close>

definition ex_henv :: "(nat list, string, string, string) hooks_env" where
  "ex_henv = \<lparr> he_repset = ex_renv, he_keyof = string_key, he_strcaseeq = (\<lambda>a b. a = b),
     SplitIdentifierString = (\<lambda>s c. Some [s]), get_namespace_oid = (\<lambda>_. 2200), queue_table_oid = 16310,
     he_queue = \<lparr> GetCurrentTimestamp = 0, GetUserNameFromId = (\<lambda>_. Some ''postgres''), json_in = Inr,
                  jsonb_in = Inr \<rparr>,
     queue_getstruct = (\<lambda>_. \<lparr> qt_queued_at = 0, qt_role = ''postgres'', qt_replication_sets = None,
                             qt_message_type = QUEUE_COMMAND_TYPE_SQL, qt_message = [] \<rparr>),
     repset_getstruct = (\<lambda>_. ex_default\<lparr> replicate_insert := False \<rparr>),
     he_filters = \<lparr> exprType = (\<lambda>_. 16), coerce_to_target_type = (\<lambda>n _. Some n), plan_and_init = id,
       eval_expr = (\<lambda>f desc row. Inr (Some (row \<noteq> []))) \<rparr> \<rparr>"

definition ex_world :: "(nat list, string) hook_world" where
  "ex_world = \<lparr> hw_private = Some \<lparr> local_node_id = 7, replication_sets = [ex_default],
     replicate_only_table = None, forward_origins = [] \<rparr>, hw_hash = None, hw_nodes = ex_catalog,
     hw_db = ex_pdb1 \<rparr>"

definition ex_member :: relation where
  "ex_member = ex_rtable\<lparr> rd_trigs := [truncate_trigger 99] \<rparr>"

definition ex_row_insert :: reorderbuffer_change where
  "ex_row_insert = \<lparr> action = REORDER_BUFFER_CHANGE_INSERT, oldtuple = None,
     newtuple = Some [Some (DatumPtr ''1''), Some (DatumPtr ''x'')] \<rparr>"

definition ex_penv :: "(nat list, string) hook_world plugin_env" where
  "ex_penv = \<lparr> pqf = net_pqformat, tio = ex_typeio_out,
     jio = \<lparr> row_to_json = (\<lambda>_ _. ''{}''), escape_json = (\<lambda>s. DQ @ s @ DQ),
             timestamptz_to_str = (\<lambda>_. ''now'') \<rparr>,
     srv = ex_server, get_namespace_name = (\<lambda>_. Some ''public''), replorigin_by_oid = (\<lambda>_. None),
     LookupFuncName = (\<lambda>_. Inr 16320), get_func_rettype = (\<lambda>_. VOIDOID),
     pg_proc_aclcheck = (\<lambda>_. True), hooks_setup_call = (\<lambda>_ h. Inr (pglogical_hooks_setup ex_henv h)),
     null_private = ex_world \<rparr>"

definition ex_hctx :: "(nat list, string) hook_world decoding_ctx" where
  "ex_hctx = \<lparr> output_plugin_private = (palloc0_data ex_world)\<lparr> api := Some PGLogicalProtoNative,
       hooks := pglogical_hooks_setup ex_henv (palloc0_hooks ex_world) \<rparr>,
     out_type = OUTPUT_PLUGIN_BINARY_OUTPUT, startup_message_sent = True, RelMetaCache = Some Map.empty,
     sent = [] \<rparr>"

text \<open>The same world after the table has been looked up, and the change that turns off inserts in the set.\<close>

definition ex_world_cached :: "(nat list, string) hook_world" where
  "ex_world_cached = ex_world\<lparr> hw_hash := Some [string_key 16400 \<mapsto> fill_entry ex_renv ex_member [ex_default] ex_pdb1] \<rparr>"

definition ex_catalog_rel :: relation where
  "ex_catalog_rel = ex_rtable\<lparr> rd_id := 16300, relname := ''replication_set'' \<rparr>"

definition ex_set_update :: reorderbuffer_change where
  "ex_set_update = \<lparr> action = REORDER_BUFFER_CHANGE_UPDATE, oldtuple = None, newtuple = Some [] \<rparr>"

section \<open>Lemmas\<close>

lemma row_filters_pass_total:
  assumes "\<forall>f \<in> set fs. is_ok (filter_value X f desc tup)"
  shows "row_filters_pass X desc tup fs = Inr (\<forall>f \<in> set fs. filter_value X f desc tup = Inr (Some True))"
  using assms
proof (induction fs)
  case (Cons f fs)
  then obtain e v where "pglogical_prepare_row_filter X f = Inr e" "eval_expr X e desc tup = Inr v"
    by (auto simp: filter_value_def is_ok_iff rbind_eq_Inr)
  then show ?case using Cons by (auto simp: filter_value_def)
qed simp

lemma lookup_current:
  assumes "cache_current H W" "ordinary H rel W" "own_key (he_keyof H) (rd_id rel) (hw_db W)"
  shows "\<exists>entry hash'. get_table_replication_info (he_repset H) (he_keyof H) rel (our_sets W) (hw_db W) (hw_hash W) =
      Inr (entry, hash') \<and>
    info_spec (he_repset H) rel (subscribed rel (our_sets W) (hw_db W)) entry \<and>
    cache_current H (W\<lparr> hw_hash := hash' \<rparr>)"
proof -
  have ok: "info_ok (he_repset H) (he_keyof H) (our_sets W) (hw_db W) (hw_hash W)"
    using assms(1) by (simp add: cache_current_def)
  have rel: "pg_class (hw_db W) (rd_id rel) = Some rel" "repset_table_exists (he_repset H)"
    using assms(2) by (simp_all add: ordinary_def)
  from ok rel(2,1) obtain t entry hash' where look: "get_table_replication_info (he_repset H) (he_keyof H) rel (our_sets W)
      (hw_db W) (hw_hash W) = Inr (entry, hash')"
    and e: "entry = fill_entry (he_repset H) t (our_sets W) (hw_db W)" "t = rel"
    by (rule lookup_info_ok) (use assms(3) in blast)
  have "info_ok (he_repset H) (he_keyof H) (our_sets W) (hw_db W) hash'"
    by (rule info_step_ok [OF info_step.lookup [OF rel(1) look] ok(1)])
  moreover have "info_spec (he_repset H) rel (subscribed rel (our_sets W) (hw_db W)) entry"
    unfolding e by (rule fill_entry_spec)
  ultimately show ?thesis
    using look by (intro exI [of _ entry] exI [of _ hash'] conjI) (simp_all add: cache_current_def)
qed

lemma filters_of_spec:
  assumes "info_spec E rel (subscribed rel sets db) entry"
  shows "f \<in> set (ti_row_filter entry) \<longleftrightarrow>
    (\<exists>t s g. (t, s) \<in> subscribed rel sets db \<and> getattr_row_filter E (rd_att rel) t = Some g \<and> f = stringToNode E g)"
  using assms by (auto simp: info_spec_def)

lemma action_of_spec:
  "info_spec E rel (subscribed rel sets db) entry \<Longrightarrow>
   action_passes act entry \<longleftrightarrow> (\<exists>(t, s) \<in> subscribed rel sets db. set_replicates act s)"
  by (cases act) (auto simp: info_spec_def action_passes_def set_replicates_def)

text \<open>The verdict on an ordinary table, from the entry the lookup returns.\<close>

lemma verdict_of_spec:
  assumes spec: "info_spec (he_repset H) rel (subscribed rel sets db) entry"
    and total: "filters_total H rel sets db change"
  shows "(if \<not> action_passes (action change) entry then Inr (False, None, W)
     else if length (ti_row_filter entry) > 0
     then (case (newtuple change, oldtuple change) of
             (None, None) \<Rightarrow> Inr (False, None, W)
           | (new, old) \<Rightarrow>
               rbind (row_filters_pass (he_filters H) (rd_att rel)
                        (case new of Some t \<Rightarrow> t | None \<Rightarrow> the old) (ti_row_filter entry)) (\<lambda>pass.
               Inr (pass, if pass then ti_att_list entry else None, W)))
     else Inr (True, ti_att_list entry, W)) =
    (Inr (wanted H rel sets db change,
       if wanted H rel sets db change then wanted_columns H rel sets db else None, W) ::
       (bool \<times> bitmapset option \<times> 'w) result)"
proof -
  have cols: "ti_att_list entry = wanted_columns H rel sets db"
    using spec by (simp add: info_spec_def wanted_columns_def)
  have w: "wanted H rel sets db change \<longleftrightarrow> action_passes (action change) entry \<and>
      (\<forall>f \<in> set (ti_row_filter entry). \<exists>row. filter_row change = Some row \<and>
         filter_value (he_filters H) f (rd_att rel) row = Inr (Some True))"
    unfolding wanted_def action_of_spec [OF spec] using filters_of_spec [OF spec] by fastforce
  have run: "row_filters_pass (he_filters H) (rd_att rel) row (ti_row_filter entry) =
      Inr (\<forall>f \<in> set (ti_row_filter entry). filter_value (he_filters H) f (rd_att rel) row = Inr (Some True))"
    if "filter_row change = Some row" for row
    using total that filters_of_spec [OF spec]
    by (intro row_filters_pass_total) (fastforce simp: filters_total_def)
  show ?thesis
  proof (cases "filter_row change")
    case None
    then have "newtuple change = None" "oldtuple change = None"
      by (simp_all add: filter_row_def split: option.splits)
    then show ?thesis using None cols by (auto simp: w)
  next
    case (Some row)
    then have row: "(case newtuple change of Some t \<Rightarrow> t | None \<Rightarrow> the (oldtuple change)) = row"
      by (auto simp: filter_row_def split: option.splits)
    show ?thesis
      using Some cols run [OF Some] row
      by (auto simp: w filter_row_def split: option.splits)
  qed
qed

lemma row_filter_ordinary:
  assumes "cache_current H W" "ordinary H rel W" "own_key (he_keyof H) (rd_id rel) (hw_db W)"
    and "filters_total H rel (our_sets W) (hw_db W) change"
  shows "\<exists>hash'. pglogical_row_filter_hook H W txn rel change =
      Inr (wanted H rel (our_sets W) (hw_db W) change,
           if wanted H rel (our_sets W) (hw_db W) change then wanted_columns H rel (our_sets W) (hw_db W) else None,
           W\<lparr> hw_hash := hash' \<rparr>) \<and>
    cache_current H (W\<lparr> hw_hash := hash' \<rparr>)"
proof -
  obtain entry hash' where look: "get_table_replication_info (he_repset H) (he_keyof H) rel (our_sets W)
      (hw_db W) (hw_hash W) = Inr (entry, hash')"
    and spec: "info_spec (he_repset H) rel (subscribed rel (our_sets W) (hw_db W)) entry"
    and cur: "cache_current H (W\<lparr> hw_hash := hash' \<rparr>)"
    using lookup_current [OF assms(1-3)] by blast
  have o: "replicate_only_table (the (hw_private W)) = None" "rd_id rel \<noteq> queue_table_oid H"
    "rd_id rel \<noteq> repset_table_oid (he_repset H)"
    using assms(2) by (auto simp: ordinary_def)
  have "pglogical_row_filter_hook H W txn rel change =
      Inr (wanted H rel (our_sets W) (hw_db W) change,
           if wanted H rel (our_sets W) (hw_db W) change then wanted_columns H rel (our_sets W) (hw_db W) else None,
           W\<lparr> hw_hash := hash' \<rparr>)"
    using verdict_of_spec [OF spec assms(4), of "W\<lparr> hw_hash := hash' \<rparr>"] look o
    by (simp add: pglogical_row_filter_hook_def Let_def)
  then show ?thesis using cur by blast
qed

lemma relmeta_sent:
  assumes "change_send_relmeta E rel al ctx = Inr ctx'"
  shows "\<exists>rels. sent ctx' = sent ctx @ rels \<and> length rels \<le> 1 \<and>
    output_plugin_private ctx' = output_plugin_private ctx"
  using assms by (auto simp: change_send_relmeta_def rbind_eq_Inr plugin_write_def
      split: option.splits if_splits prod.splits)

lemma data_sent:
  assumes "api (output_plugin_private ctx) = Some PGLogicalProtoNative"
    and "change_send_data E rel change al ctx = Inr ctx'"
  shows "\<exists>bs. native_data E (output_plugin_private ctx) rel change al = Inr bs \<and>
    sent ctx' = sent ctx @ map (\<lambda>b. (b, True)) bs \<and> output_plugin_private ctx' = output_plugin_private ctx"
  using assms by (auto simp: change_send_data_def native_data_def api_of_def pglogical_init_api_def
      rbind_eq_Inr plugin_write_def Let_def split: change_action.splits option.splits)

lemma get_sets_members:
  "get_replication_sets nodeid names m db = Inr sets \<Longrightarrow> s \<in> set sets \<Longrightarrow>
   s \<in> set (cat_repset db) \<and> rs_nodeid s = nodeid \<and> (\<exists>n \<in> set names. nameeq (rs_name s) n)"
  by (induction names arbitrary: sets)
    (auto simp: rbind_eq_Inr split: option.splits if_splits dest!: find_Some_in)

lemma startup_option_ok:
  "startup_option H db elem p = Inr p' \<Longrightarrow> private_ok nodeid db p \<Longrightarrow> private_ok nodeid db p'"
  by (auto simp: startup_option_def private_ok_def list_ex_iff rbind_eq_Inr get_sets_members
      split: if_splits option.splits list.splits)

lemma startup_options_ok:
  "foreach_row (startup_option H db) params p = Inr p' \<Longrightarrow> private_ok nodeid db p \<Longrightarrow> private_ok nodeid db p'"
  by (induction params arbitrary: p) (auto simp: rbind_eq_Inr dest: startup_option_ok)

section \<open>Properties\<close>

text \<open>
  C23.  The row filter decides by replication set membership.  Take an ordinary table whose oid has a hash key of its own among
  the tables of the database, a cache that is current for the sets the session resolved, and row filters that can be prepared and evaluate
  without error.  A change passes exactly when a subscribed set that has the table replicates its action and every row filter the table has in a
  subscribed set is true on the new row, or the old one of a delete; a passing row is cut to the union of the columns the sets
  list, or not cut at all when no set lists any.  Filters and columns are those read from the membership rows with the descriptor of the table.
  The cache stays current.
\<close>

theorem row_filter_decides:
  assumes "cache_current H W" "ordinary H rel W" "own_key (he_keyof H) (rd_id rel) (hw_db W)"
    and "filters_total H rel (our_sets W) (hw_db W) change"
  shows "\<exists>W'. pglogical_row_filter_hook H W txn rel change =
      Inr (wanted H rel (our_sets W) (hw_db W) change,
           if wanted H rel (our_sets W) (hw_db W) change then wanted_columns H rel (our_sets W) (hw_db W) else None,
           W') \<and>
    cache_current H W' \<and> hw_private W' = hw_private W \<and> hw_db W' = hw_db W"
  using row_filter_ordinary [OF assms, of txn] by fastforce

lemma ex_world_ok:
  "cache_current ex_henv ex_world" "ordinary ex_henv ex_member ex_world"
  "own_key (he_keyof ex_henv) (rd_id ex_member) (hw_db ex_world)"
  "filters_total ex_henv ex_member (our_sets ex_world) (hw_db ex_world) ex_row_insert"
  by (auto simp: cache_current_def info_ok_def ex_henv_def ex_world_def ordinary_def ex_member_def own_key_def
      ex_rtable_def ex_renv_def ex_pdb1_def ex_pdb_def filters_total_def filter_value_def pglogical_prepare_row_filter_def)

lemma ex_subscribed:
  "subscribed ex_member (our_sets ex_world) (hw_db ex_world) =
   {(\<lparr> rt_setid = 1, rt_reloid = 16400, rt_att_list = Some [''id''], rt_row_filter = Some ''id > 5'' \<rparr>, ex_default)}"
  by (auto simp: subscribed_def ex_member_def ex_world_def ex_rtable_def ex_pdb1_def ex_pdb_def ex_default_def)

lemma ex_wanted:
  "wanted ex_henv ex_member (our_sets ex_world) (hw_db ex_world) ex_row_insert"
  "wanted_columns ex_henv ex_member (our_sets ex_world) (hw_db ex_world) = Some {9}"
  unfolding wanted_def wanted_columns_def listed_columns_def ex_subscribed
  by (simp_all add: set_replicates_def ex_row_insert_def ex_default_def filter_row_def ex_henv_def ex_renv_def
      ex_member_def ex_rtable_def ex_att_def filter_value_def pglogical_prepare_row_filter_def)

theorem row_filter_decides_witness:
  "\<exists>W'. pglogical_row_filter_hook ex_henv ex_world ex_otxn ex_member ex_row_insert = Inr (True, Some {9}, W') \<and>
     cache_current ex_henv W'"
  using row_filter_decides [OF ex_world_ok, of ex_otxn] ex_wanted by auto

text \<open>
  C24.  A subscriber is sent what it subscribed to.  In a native session with pglogical's row filter
  installed, for an ordinary table whose oid has a hash key of its own among the tables of the database, a current cache and filters that can
  be prepared and evaluate without error: a change that is not wanted adds nothing to the stream; a wanted change
  adds at most one relation message and then exactly its data message, written for the wanted columns.  The cache stays current.
\<close>

theorem session_sends_wanted_changes:
  assumes "api (output_plugin_private ctx) = Some PGLogicalProtoNative"
    and "row_filter_hook (hooks (output_plugin_private ctx)) = Some (pglogical_row_filter_hook H)"
    and "W = hooks_private_data (hooks (output_plugin_private ctx))"
    and "cache_current H W" "ordinary H rel W" "own_key (he_keyof H) (rd_id rel) (hw_db W)"
    and "filters_total H rel (our_sets W) (hw_db W) change"
    and "pg_decode_change E txn rel change ctx = Inr ctx'"
  shows "(\<not> wanted H rel (our_sets W) (hw_db W) change \<longrightarrow> sent ctx' = sent ctx) \<and>
    (wanted H rel (our_sets W) (hw_db W) change \<longrightarrow>
      (\<exists>rels bs. sent ctx' = sent ctx @ rels @ map (\<lambda>b. (b, True)) bs \<and> length rels \<le> 1 \<and>
         native_data E (output_plugin_private ctx') rel change (wanted_columns H rel (our_sets W) (hw_db W)) = Inr bs)) \<and>
    cache_current H (hooks_private_data (hooks (output_plugin_private ctx')))"
proof -
  let ?w = "wanted H rel (our_sets W) (hw_db W) change"
  let ?cols = "if ?w then wanted_columns H rel (our_sets W) (hw_db W) else None"
  obtain hash' where f: "pglogical_row_filter_hook H W txn rel change = Inr (?w, ?cols, W\<lparr> hw_hash := hash' \<rparr>)"
    and cur: "cache_current H (W\<lparr> hw_hash := hash' \<rparr>)"
    using row_filter_ordinary [OF assms(4-7)] by blast
  let ?c0 = "ctx\<lparr> output_plugin_private := set_private (W\<lparr> hw_hash := hash' \<rparr>) (output_plugin_private ctx) \<rparr>"
  have call: "call_row_filter_hook (output_plugin_private ctx) txn rel change =
      Inr (?w, ?cols, output_plugin_private ?c0)"
    using assms(2,3) f by (simp add: call_row_filter_hook_def)
  show ?thesis
  proof (cases ?w)
    case False
    then show ?thesis
      using assms(8) call cur by (auto simp: pg_decode_change_def Let_def)
  next
    case True
    then obtain c where c: "change_send_relmeta E rel ?cols ?c0 = Inr c"
      "change_send_data E rel change ?cols c = Inr ctx'"
      using assms(8) call by (auto simp: pg_decode_change_def rbind_eq_Inr Let_def)
    obtain rels where rels: "sent c = sent ctx @ rels" "length rels \<le> 1"
      "output_plugin_private c = output_plugin_private ?c0"
      using relmeta_sent [OF c(1)] by auto
    have "api (output_plugin_private c) = Some PGLogicalProtoNative"
      using rels(3) assms(1) by simp
    from data_sent [OF this c(2)] obtain bs where
      "native_data E (output_plugin_private c) rel change ?cols = Inr bs"
      "sent ctx' = sent c @ map (\<lambda>b. (b, True)) bs" "output_plugin_private ctx' = output_plugin_private c"
      by blast
    then show ?thesis
      using rels cur True by auto
  qed
qed

lemma ex_hchange:
  "\<exists>ctx'. pg_decode_change ex_penv ex_otxn ex_member ex_row_insert ex_hctx = Inr ctx'"
proof -
  obtain hash' where f: "pglogical_row_filter_hook ex_henv ex_world ex_otxn ex_member ex_row_insert =
      Inr (True, Some {9}, ex_world\<lparr> hw_hash := hash' \<rparr>)"
    using row_filter_ordinary [OF ex_world_ok, of ex_otxn] ex_wanted by auto
  have "call_row_filter_hook (output_plugin_private ex_hctx) ex_otxn ex_member ex_row_insert =
      Inr (True, Some {9}, set_private (ex_world\<lparr> hw_hash := hash' \<rparr>) (output_plugin_private ex_hctx))"
    using f by (simp add: call_row_filter_hook_def ex_hctx_def pglogical_hooks_setup_def palloc0_hooks_def)
  then show ?thesis
    by (simp add: pg_decode_change_def change_send_relmeta_def ex_hctx_def api_of_def pglogical_init_api_def
        pglogical_cache_relmeta_def pglogical_write_rel_def ex_penv_def change_send_data_def ex_row_insert_def
        pglogical_write_insert_def pglogical_write_tuple_def ex_member_def ex_rtable_def ex_att_def att_sent_def
        write_column_def VARATT_IS_EXTERNAL_ONDISK_def ex_typeio_out_def decide_datum_transfer_def
        set_private_def palloc0_data_def write_text_def Let_def)
qed

theorem session_sends_wanted_changes_witness:
  "\<exists>ctx' rels bs. pg_decode_change ex_penv ex_otxn ex_member ex_row_insert ex_hctx = Inr ctx' \<and>
     sent ctx' = rels @ map (\<lambda>b. (b, True)) bs \<and> length rels \<le> 1 \<and>
     native_data ex_penv (output_plugin_private ctx') ex_member ex_row_insert (Some {9}) = Inr bs"
proof -
  obtain ctx' where c: "pg_decode_change ex_penv ex_otxn ex_member ex_row_insert ex_hctx = Inr ctx'"
    using ex_hchange by blast
  have h: "api (output_plugin_private ex_hctx) = Some PGLogicalProtoNative"
    "row_filter_hook (hooks (output_plugin_private ex_hctx)) = Some (pglogical_row_filter_hook ex_henv)"
    "ex_world = hooks_private_data (hooks (output_plugin_private ex_hctx))" "sent ex_hctx = []"
    by (simp_all add: ex_hctx_def pglogical_hooks_setup_def palloc0_hooks_def)
  show ?thesis
    using session_sends_wanted_changes [OF h(1,2,3) ex_world_ok c] ex_wanted c h(4) by auto
qed

text \<open>
  A change of a replication set's flags does not reach tables that are already cached.  When the
  UPDATE of a row of the replication set catalog passes through the filter it is not sent and the
  flags of our copy of the set become the new ones, but for a table with a valid cache entry every later
  change gets the verdict and the columns it would have got before.
\<close>

theorem set_flags_ignored_for_cached_tables:
  assumes "hw_private W = Some p" "replicate_only_table p = None"
    and "rd_id catrel = repset_table_oid (he_repset H)" "rd_id catrel \<noteq> queue_table_oid H"
    and "action chg0 = REORDER_BUFFER_CHANGE_UPDATE"
    and "hw_hash W = Some h" "h (he_keyof H (rd_id rel)) = Some entry" "isvalid entry"
    and "rd_id rel \<noteq> queue_table_oid H" "rd_id rel \<noteq> repset_table_oid (he_repset H)"
  shows "\<exists>W1. pglogical_row_filter_hook H W txn catrel chg0 = Inr (False, None, W1) \<and>
    our_sets W1 = update_first (\<lambda>rs. rs_id rs = rs_id (repset_getstruct H (the (newtuple chg0))))
      (update_flags (repset_getstruct H (the (newtuple chg0)))) (our_sets W) \<and>
    (\<forall>txn' chg. rbind (pglogical_row_filter_hook H W1 txn' rel chg) (\<lambda>(pass, cols, _). Inr (pass, cols)) =
                rbind (pglogical_row_filter_hook H W txn' rel chg) (\<lambda>(pass, cols, _). Inr (pass, cols)))"
proof -
  let ?sets = "update_first (\<lambda>rs. rs_id rs = rs_id (repset_getstruct H (the (newtuple chg0))))
      (update_flags (repset_getstruct H (the (newtuple chg0)))) (replication_sets p)"
  let ?W1 = "W\<lparr> hw_private := Some (p\<lparr> replication_sets := ?sets \<rparr>) \<rparr>"
  have "pglogical_row_filter_hook H W txn catrel chg0 = Inr (False, None, ?W1)"
    using assms(1-5) by (simp add: pglogical_row_filter_hook_def repset_changed_def Let_def)
  moreover have "get_table_replication_info (he_repset H) (he_keyof H) rel sets (hw_db W) (Some h) =
      Inr (entry, Some h)" for sets
    using assms(7,8) by (simp add: get_table_replication_info_def Let_def)
  then have "rbind (pglogical_row_filter_hook H ?W1 txn' rel chg) (\<lambda>(pass, cols, _). Inr (pass, cols)) =
        rbind (pglogical_row_filter_hook H W txn' rel chg) (\<lambda>(pass, cols, _). Inr (pass, cols))" for txn' chg
    using assms(1,2,6,9,10) by (simp add: pglogical_row_filter_hook_def Let_def rbind_assoc rbind_if
        split: option.splits)
  ultimately show ?thesis
    using assms(1) by (intro exI [of _ ?W1]) simp
qed

lemma ex_world_cached_ok:
  "cache_current ex_henv ex_world_cached" "ordinary ex_henv ex_member ex_world_cached"
  "own_key (he_keyof ex_henv) (rd_id ex_member) (hw_db ex_world_cached)"
  "filters_total ex_henv ex_member (our_sets ex_world_cached) (hw_db ex_world_cached) ex_row_insert"
  "our_sets ex_world_cached = our_sets ex_world" "hw_db ex_world_cached = hw_db ex_world"
proof -
  have m: "pg_class ex_pdb1 (rd_id ex_member) = Some ex_member" "rd_id ex_member = 16400"
    by (simp_all add: ex_pdb1_def ex_member_def ex_rtable_def)
  show "cache_current ex_henv ex_world_cached"
    using m by (auto simp: cache_current_def info_ok_def ex_henv_def ex_world_cached_def ex_world_def ex_pdb1_def
        ex_pdb_def ex_rtable_def)
  show "our_sets ex_world_cached = our_sets ex_world" "hw_db ex_world_cached = hw_db ex_world"
    by (simp_all add: ex_world_cached_def)
  show "ordinary ex_henv ex_member ex_world_cached"
    "own_key (he_keyof ex_henv) (rd_id ex_member) (hw_db ex_world_cached)"
    "filters_total ex_henv ex_member (our_sets ex_world_cached) (hw_db ex_world_cached) ex_row_insert"
    using ex_world_ok(2-4) by (auto simp: ordinary_def ex_world_cached_def)
qed

theorem set_flags_ignored_for_cached_tables_witness:
  "\<exists>W1. pglogical_row_filter_hook ex_henv ex_world_cached ex_otxn ex_catalog_rel ex_set_update = Inr (False, None, W1) \<and>
     list_all (\<lambda>s. \<not> replicate_insert s) (our_sets W1) \<and>
     rbind (pglogical_row_filter_hook ex_henv W1 ex_otxn ex_member ex_row_insert) (\<lambda>(pass, cols, _). Inr (pass, cols)) =
       Inr (True, Some {9})"
proof -
  have pre: "hw_private ex_world_cached = Some \<lparr> local_node_id = 7, replication_sets = [ex_default],
       replicate_only_table = None, forward_origins = [] \<rparr>"
    "rd_id ex_catalog_rel = repset_table_oid (he_repset ex_henv)" "rd_id ex_catalog_rel \<noteq> queue_table_oid ex_henv"
    "action ex_set_update = REORDER_BUFFER_CHANGE_UPDATE"
    "hw_hash ex_world_cached = Some [string_key 16400 \<mapsto> fill_entry ex_renv ex_member [ex_default] ex_pdb1]"
    "[string_key 16400 \<mapsto> fill_entry ex_renv ex_member [ex_default] ex_pdb1] (he_keyof ex_henv (rd_id ex_member)) =
       Some (fill_entry ex_renv ex_member [ex_default] ex_pdb1)"
    "isvalid (fill_entry ex_renv ex_member [ex_default] ex_pdb1)"
    "rd_id ex_member \<noteq> queue_table_oid ex_henv" "rd_id ex_member \<noteq> repset_table_oid (he_repset ex_henv)"
    by (simp_all add: ex_world_cached_def ex_world_def ex_catalog_rel_def ex_henv_def ex_renv_def ex_set_update_def
        ex_member_def ex_rtable_def fill_entry_def)
  have "rbind (pglogical_row_filter_hook ex_henv ex_world_cached ex_otxn ex_member ex_row_insert)
      (\<lambda>(pass, cols, _). Inr (pass, cols)) = Inr (True, Some {9})"
    using row_filter_ordinary [OF ex_world_cached_ok(1-4), of ex_otxn] ex_wanted
    by (auto simp: ex_world_cached_ok(5,6))
  then show ?thesis
    using set_flags_ignored_for_cached_tables [OF pre(1) _ pre(2-9), of ex_otxn]
    by (auto simp: ex_world_cached_def ex_world_def ex_henv_def ex_default_def update_flags_def)
qed

text \<open>
  C26.  The catalogs that travel in the change stream are filtered by their meaning.  A queued message passes,
  with all its columns, exactly when it is inserted and either names no set or names a subscribed one
  (which for a TRUNCATE must replicate truncates); the deletion of a subscribed replication set raises an
  error and ends the connection, the deletion of another one is dropped without effect.
\<close>

theorem catalog_changes_filtered:
  assumes "hw_private W = Some p" "replicate_only_table p = None"
    and "repset_table_oid (he_repset H) \<noteq> queue_table_oid H"
  shows "(rd_id rel = queue_table_oid H \<and>
       queued_message_from_tuple (he_queue H) (queue_getstruct H (the (newtuple change))) = Inr q \<longrightarrow>
      pglogical_row_filter_hook H W txn rel change =
        Inr (action change = REORDER_BUFFER_CHANGE_INSERT \<and>
             (qm_replication_sets q = [] \<or>
              (\<exists>s \<in> set (replication_sets p). rs_name s \<in> set (qm_replication_sets q) \<and>
                 (qm_message_type q = QUEUE_COMMAND_TYPE_TRUNCATE \<longrightarrow> replicate_truncate s))), None, W)) \<and>
    (rd_id rel = repset_table_oid (he_repset H) \<and> action change = REORDER_BUFFER_CHANGE_DELETE \<longrightarrow>
      (if rs_id (repset_getstruct H (the (oldtuple change))) \<in> rs_id ` set (replication_sets p)
       then \<not> is_ok (pglogical_row_filter_hook H W txn rel change)
       else pglogical_row_filter_hook H W txn rel change = Inr (False, None, W)))"
proof -
  let ?new = "repset_getstruct H (the (oldtuple change))"
  have found: "List.find (\<lambda>rs. rs_id rs = rs_id ?new) (replication_sets p) = None \<longleftrightarrow>
      rs_id ?new \<notin> rs_id ` set (replication_sets p)"
    unfolding find_None_all by (metis imageE image_eqI)
  have none: "update_first (\<lambda>rs. rs_id rs = rs_id ?new) f (replication_sets p) = replication_sets p"
    if "rs_id ?new \<notin> rs_id ` set (replication_sets p)" for f
    using that found by (intro update_first_none) simp
  show ?thesis
    using assms found none
    by (auto simp: pglogical_row_filter_hook_def repset_changed_def Let_def queue_message_passes_def list_ex_iff)
qed

theorem catalog_changes_filtered_witness:
  "pglogical_row_filter_hook ex_henv ex_world ex_otxn (ex_rtable\<lparr> rd_id := 16310 \<rparr>) ex_row_insert =
     Inr (True, None, ex_world) \<and>
   \<not> is_ok (pglogical_row_filter_hook ex_henv ex_world ex_otxn ex_catalog_rel
     \<lparr> action = REORDER_BUFFER_CHANGE_DELETE, oldtuple = Some [], newtuple = None \<rparr>)"
proof -
  let ?p = "\<lparr> local_node_id = 7, replication_sets = [ex_default], replicate_only_table = None,
    forward_origins = [] \<rparr>"
  have p: "hw_private ex_world = Some ?p" "replicate_only_table ?p = None"
    "repset_table_oid (he_repset ex_henv) \<noteq> queue_table_oid ex_henv"
    by (simp_all add: ex_world_def ex_henv_def ex_renv_def)
  have q: "queued_message_from_tuple (he_queue ex_henv) (queue_getstruct ex_henv t) =
      Inr \<lparr> queued_at = 0, qm_role = ''postgres'', qm_replication_sets = [],
            qm_message_type = QUEUE_COMMAND_TYPE_SQL, qm_message = [] \<rparr>" for t
    by (simp add: ex_henv_def queued_message_from_tuple_def)
  show ?thesis
    using catalog_changes_filtered [OF p, of "ex_rtable\<lparr> rd_id := 16310 \<rparr>" ex_row_insert _ ex_otxn] q
      catalog_changes_filtered [OF p, of ex_catalog_rel
        "\<lparr> action = REORDER_BUFFER_CHANGE_DELETE, oldtuple = Some [], newtuple = None \<rparr>" _ ex_otxn]
    by (auto simp: ex_catalog_rel_def ex_henv_def ex_renv_def ex_row_insert_def ex_default_def)
qed

text \<open>
  C27.  A connection is set up for the local node, and origins are forwarded all or not at all.  When the
  startup hook succeeds there is a local node, every replication set of the connection is a set of that
  node, and the only origin that can be listed is \<open>all\<close>; the hook adds no startup parameters.  From then on a
  transaction is decoded exactly when it is local or the list of forwarded origins is not empty.
\<close>

theorem startup_and_origin_forwarding:
  assumes "pglogical_startup_hook H W in_params = Inr (out, W')"
    and "hooks_private_data (hooks (output_plugin_private ctx)) = W'"
    and "txn_filter_hook (hooks (output_plugin_private ctx)) = Some pglogical_txn_filter_hook"
  shows "\<exists>ln p. get_local_node False (hw_nodes W) = Inr (Some ln) \<and> W' = W\<lparr> hw_private := Some p \<rparr> \<and> out = [] \<and>
    local_node_id p = node_id (ln_node ln) \<and>
    (\<forall>s \<in> set (replication_sets p). s \<in> set (cat_repset (hw_db W)) \<and> rs_nodeid s = node_id (ln_node ln)) \<and>
    (forward_origins p = [] \<or> set (forward_origins p) = {''all''}) \<and>
    (\<forall>origin. pg_decode_origin_filter ctx origin \<longleftrightarrow> origin \<noteq> InvalidRepOriginId \<and> forward_origins p = [])"
proof -
  obtain node p where n: "get_local_node False (hw_nodes W) = Inr node"
    and p: "foreach_row (startup_option H (hw_db W)) in_params
        \<lparr> local_node_id = node_id (ln_node (the node)), replication_sets = [],
          replicate_only_table = None, forward_origins = [] \<rparr> = Inr p"
    and W': "W' = W\<lparr> hw_private := Some p \<rparr>" "out = []"
    using assms(1) by (auto simp: pglogical_startup_hook_def rbind_eq_Inr)
  obtain ln where ln: "node = Some ln"
    using n by (auto simp: get_local_node_def rbind_eq_Inr split: list.splits if_splits)
  have ok: "private_ok (node_id (ln_node ln)) (hw_db W) p"
    by (rule startup_options_ok [OF p]) (simp add: private_ok_def ln)
  then have "forward_origins p = [] \<or> set (forward_origins p) = {''all''}"
    unfolding private_ok_def by (metis set_empty subset_singletonD)
  then show ?thesis
    using n ln W' ok assms(2,3)
    by (auto simp: private_ok_def pg_decode_origin_filter_def call_txn_filter_hook_def
        pglogical_txn_filter_hook_def)
qed

theorem startup_and_origin_forwarding_witness:
  "\<exists>W' p. pglogical_startup_hook ex_henv ex_world [ex_option ''pglogical.forward_origins'' ''all''] = Inr ([], W') \<and>
     W' = ex_world\<lparr> hw_private := Some p \<rparr> \<and> local_node_id p = 2 \<and> set (forward_origins p) = {''all''}"
proof -
  let ?p = "\<lparr> local_node_id = 2, replication_sets = [], replicate_only_table = None, forward_origins = [''all''] \<rparr>"
  have s: "pglogical_startup_hook ex_henv ex_world [ex_option ''pglogical.forward_origins'' ''all''] =
      Inr ([], ex_world\<lparr> hw_private := Some ?p \<rparr>)"
    by (simp add: pglogical_startup_hook_def get_local_node_def get_node_def get_node_interface_def ex_world_def
        ex_catalog_def ex_node_def ex_if_def startup_option_def ex_henv_def ex_option_def)
  let ?ctx = "ex_hctx\<lparr> output_plugin_private :=
      set_private (ex_world\<lparr> hw_private := Some ?p \<rparr>) (output_plugin_private ex_hctx) \<rparr>"
  have c: "hooks_private_data (hooks (output_plugin_private ?ctx)) = ex_world\<lparr> hw_private := Some ?p \<rparr>"
    "txn_filter_hook (hooks (output_plugin_private ?ctx)) = Some pglogical_txn_filter_hook"
    by (simp_all add: ex_hctx_def pglogical_hooks_setup_def)
  show ?thesis
    using startup_and_origin_forwarding [OF s c] s
    by (auto simp: get_local_node_def get_node_def get_node_interface_def ex_world_def ex_catalog_def
        ex_node_def ex_if_def)
qed

end
