(* ===== verification/Pgl_Conflict.thy ===== *)
theory Pgl_Conflict
  imports Pgl_Proto Pgl_Catalog
begin

text \<open>
  Detection and resolution of conflicts on the subscriber, \<open>src/pglogical_conflict.c\<close>.  A local table is
  the list of its rows in the order an index scan meets them.  Indexes, operator lookups and the
  commit-timestamp data are PostgreSQL's: an index is described by the fields the code reads, the
  operators are parameters.

  Other sessions work on the table at the same time.  The parameter \<open>others\<close> says what a dirty scan sees at
  each moment: from the moment's number and the rows as they were last seen it gives the rows now, the
  transactions that hold them and what locking a row answers.  \<open>find_index_tuple\<close> scans again as long as it
  has to wait, which may be forever: it is a partial function, and \<open>None\<close> is the scan that never ends.
\<close>

section \<open>Rows, indexes and scan keys\<close>

text \<open>\<open>tid\<close> is the item pointer of the row.\<close>

record heap_row =
  tid :: nat
  t_xmin :: transaction_id
  t_data :: heap_tuple

text \<open>
  \<open>indkey\<close> has the attribute numbers of the key columns, from 1; indexes on system columns are left
  out (their numbers are negative and the code would read in front of the value array).
\<close>

record index_rel =
  indexrelid :: oid
  ii_Unique :: bool
  ii_Expressions :: bool
  ii_Predicate :: "heap_tuple \<Rightarrow> bool"
  indkey :: "nat list"
  indclass :: "oid list"

text \<open>
  \<open>equality_operator\<close> is the family member of the operator class for equality of its input type,
  \<open>get_opcode\<close> the function behind an operator and \<open>call_bool\<close> the call of that function.
\<close>

record index_am =
  equality_operator :: "oid \<Rightarrow> oid"
  get_opcode :: "oid \<Rightarrow> oid"
  call_bool :: "oid \<Rightarrow> datum \<Rightarrow> datum \<Rightarrow> bool"
  index_open :: "oid \<Rightarrow> index_rel result"
  ExecOpenIndices :: "oid \<Rightarrow> index_rel list"

record scankey =
  sk_attno :: nat
  sk_func :: oid
  sk_argument :: datum
  sk_isnull :: bool

datatype HTSU_Result =
    HeapTupleMayBeUpdated | HeapTupleInvisible | HeapTupleSelfUpdated | HeapTupleUpdated
  | HeapTupleBeingUpdated | HeapTupleWouldBlock

record moment =
  m_rows :: "heap_row list"
  snap_xmin :: "heap_row \<Rightarrow> transaction_id"
  snap_xmax :: "heap_row \<Rightarrow> transaction_id"
  heap_lock_tuple :: "heap_row \<Rightarrow> HTSU_Result"

type_synonym interference = "nat \<Rightarrow> heap_row list \<Rightarrow> moment"

section \<open>Searching an index\<close>

definition scan_key_column ::
  "index_am \<Rightarrow> PGLogicalTupleData \<Rightarrow> nat \<times> nat \<times> oid \<Rightarrow> scankey result" where
  "scan_key_column A tup = (\<lambda>(attoff, mainattno, opclass).
     if equality_operator A opclass = InvalidOid
     then elog ''could not lookup equality operator for type %u, optype %u in opfamily %u''
     else Inr \<lparr> sk_attno = attoff + 1, sk_func = get_opcode A (equality_operator A opclass),
                sk_argument = tvalues tup (mainattno - 1), sk_isnull = tnulls tup (mainattno - 1) \<rparr>)"

definition build_index_scan_key ::
  "index_am \<Rightarrow> index_rel \<Rightarrow> PGLogicalTupleData \<Rightarrow> (scankey list \<times> bool) result" where
  "build_index_scan_key A idxrel tup =
     rbind (rmap (scan_key_column A tup)
              (zip [0..<length (indkey idxrel)] (zip (indkey idxrel) (indclass idxrel)))) (\<lambda>skey.
     Inr (skey, list_ex sk_isnull skey))"

text \<open>
  \<open>index_getnext\<close>: the first row of the index whose columns all equal the key's; a NULL key or a
  NULL column equals nothing, and a partial index has only the rows of its predicate.
\<close>

definition key_column_matches :: "index_am \<Rightarrow> index_rel \<Rightarrow> heap_tuple \<Rightarrow> scankey \<Rightarrow> bool" where
  "key_column_matches A idxrel tup k =
     (\<not> sk_isnull k \<and>
      (let i = indkey idxrel ! (sk_attno k - 1) - 1 in
       i < length tup \<and>
       (case tup ! i of None \<Rightarrow> False | Some v \<Rightarrow> call_bool A (sk_func k) v (sk_argument k))))"

definition index_getnext ::
  "index_am \<Rightarrow> index_rel \<Rightarrow> scankey list \<Rightarrow> heap_row list \<Rightarrow> heap_row option" where
  "index_getnext A idxrel skey rows =
     List.find (\<lambda>r. ii_Predicate idxrel (t_data r) \<and>
                    list_all (key_column_matches A idxrel (t_data r)) skey) rows"

definition xwait :: "moment \<Rightarrow> heap_row \<Rightarrow> transaction_id" where
  "xwait m r = (if snap_xmin m r \<noteq> 0 then snap_xmin m r else snap_xmax m r)"

partial_function (option) find_index_tuple ::
  "index_am \<Rightarrow> interference \<Rightarrow> index_rel \<Rightarrow> scankey list \<Rightarrow> nat \<Rightarrow> heap_row list
     \<Rightarrow> (heap_row option \<times> nat \<times> heap_row list) result option" where
  "find_index_tuple A others idxrel skey now rows =
     (let m = others now rows in
      case index_getnext A idxrel skey (m_rows m) of
        None \<Rightarrow> Some (Inr (None, now + 1, m_rows m))
      | Some r \<Rightarrow>
          if xwait m r \<noteq> 0 then find_index_tuple A others idxrel skey (now + 1) (m_rows m)
          else (case heap_lock_tuple m r of
                  HeapTupleMayBeUpdated \<Rightarrow> Some (Inr (Some r, now + 1, m_rows m))
                | HeapTupleUpdated \<Rightarrow> find_index_tuple A others idxrel skey (now + 1) (m_rows m)
                | _ \<Rightarrow> Some (elog ''unexpected HTSU_Result after locking: %u'')))"

text \<open>Sequencing of searches: what follows a search that never ends is never reached.\<close>

definition obind :: "'a result option \<Rightarrow> ('a \<Rightarrow> 'b result option) \<Rightarrow> 'b result option" where
  "obind m f = (case m of None \<Rightarrow> None | Some (Inl e) \<Rightarrow> Some (Inl e) | Some (Inr x) \<Rightarrow> f x)"

abbreviation oreturn :: "'a result \<Rightarrow> 'a result option" where
  "oreturn r \<equiv> Some r"

definition pglogical_tuple_find_replidx ::
  "index_am \<Rightarrow> interference \<Rightarrow> relation \<Rightarrow> PGLogicalTupleData \<Rightarrow> nat \<Rightarrow> heap_row list
     \<Rightarrow> (heap_row option \<times> nat \<times> heap_row list) result option" where
  "pglogical_tuple_find_replidx A others rel tuple now rows =
     (if replidindex rel = InvalidOid
      then oreturn (elog ''could not find primary key for table with oid %u'')
      else obind (oreturn (index_open A (replidindex rel))) (\<lambda>idxrel.
           obind (oreturn (build_index_scan_key A idxrel tuple)) (\<lambda>(index_key, _).
           find_index_tuple A others idxrel index_key now rows)))"

text \<open>
  The loop over the indexes of the table; \<open>conflicting_tid\<close> is the item pointer of an earlier
  match.  The loop ends at the first match, so it never goes on with a valid \<open>conflicting_tid\<close> and
  the error for a second conflicting row is out of reach.
\<close>

fun find_conflict_loop ::
  "index_am \<Rightarrow> interference \<Rightarrow> PGLogicalTupleData \<Rightarrow> index_rel list \<Rightarrow> nat option \<Rightarrow> nat \<Rightarrow> heap_row list
     \<Rightarrow> ((oid \<times> heap_row) option \<times> nat \<times> heap_row list) result option" where
  "find_conflict_loop A others tuple [] conflicting_tid now rows = oreturn (Inr (None, now, rows))"
| "find_conflict_loop A others tuple (ii # idxs) conflicting_tid now rows =
     (if \<not> ii_Unique ii \<or> ii_Expressions ii
      then find_conflict_loop A others tuple idxs conflicting_tid now rows
      else obind (oreturn (build_index_scan_key A ii tuple)) (\<lambda>(index_key, hasnulls).
           if hasnulls then find_conflict_loop A others tuple idxs conflicting_tid now rows
           else obind (find_index_tuple A others ii index_key now rows) (\<lambda>(found, now, rows).
                case found of
                  None \<Rightarrow> find_conflict_loop A others tuple idxs conflicting_tid now rows
                | Some r \<Rightarrow>
                    if conflicting_tid \<noteq> None \<and> conflicting_tid \<noteq> Some (tid r)
                    then oreturn (ereport ERRCODE_UNIQUE_VIOLATION
                           ''multiple unique constraints violated by remote tuple'')
                    else oreturn (Inr (Some (indexrelid ii, r), now, rows)))))"

definition pglogical_tuple_find_conflict ::
  "index_am \<Rightarrow> interference \<Rightarrow> relation \<Rightarrow> PGLogicalTupleData \<Rightarrow> nat \<Rightarrow> heap_row list
     \<Rightarrow> ((oid \<times> heap_row) option \<times> nat \<times> heap_row list) result option" where
  "pglogical_tuple_find_conflict A others rel tuple now rows =
     find_conflict_loop A others tuple (ExecOpenIndices A (rd_id rel)) None now rows"

section \<open>Resolving a conflict\<close>

datatype PGLogicalConflictResolution =
    PGLogicalResolution_ApplyRemote | PGLogicalResolution_KeepLocal | PGLogicalResolution_Skip

datatype PGLogicalConflictType =
    CONFLICT_INSERT_INSERT | CONFLICT_UPDATE_UPDATE | CONFLICT_UPDATE_DELETE | CONFLICT_DELETE_DELETE

text \<open>The enumeration \<open>PGLogicalResolveOption\<close>; the setting itself is an \<open>int\<close>.\<close>

abbreviation PGLOGICAL_RESOLVE_ERROR :: int where "PGLOGICAL_RESOLVE_ERROR \<equiv> 0"
abbreviation PGLOGICAL_RESOLVE_APPLY_REMOTE :: int where "PGLOGICAL_RESOLVE_APPLY_REMOTE \<equiv> 1"
abbreviation PGLOGICAL_RESOLVE_KEEP_LOCAL :: int where "PGLOGICAL_RESOLVE_KEEP_LOCAL \<equiv> 2"
abbreviation PGLOGICAL_RESOLVE_LAST_UPDATE_WINS :: int where "PGLOGICAL_RESOLVE_LAST_UPDATE_WINS \<equiv> 3"
abbreviation PGLOGICAL_RESOLVE_FIRST_UPDATE_WINS :: int where "PGLOGICAL_RESOLVE_FIRST_UPDATE_WINS \<equiv> 4"

text \<open>
  The settings and session variables the resolution reads.  \<open>TransactionIdGetCommitTsData\<close> answers whether
  it knows the transaction, and the time and origin it stores in any case.
\<close>

record conflict_env =
  pglogical_conflict_resolver :: int
  track_commit_timestamp :: bool
  replorigin_session_origin :: "16 word"
  replorigin_session_origin_timestamp :: timestamptz
  TransactionIdGetCommitTsData :: "transaction_id \<Rightarrow> bool \<times> timestamptz \<times> 16 word"

definition timestamptz_cmp_internal :: "timestamptz \<Rightarrow> timestamptz \<Rightarrow> int" where
  "timestamptz_cmp_internal a b = (if sint a < sint b then - 1 else if sint a > sint b then 1 else 0)"

definition conflict_resolve_by_timestamp ::
  "16 word \<Rightarrow> 16 word \<Rightarrow> timestamptz \<Rightarrow> timestamptz \<Rightarrow> bool \<Rightarrow> bool \<times> PGLogicalConflictResolution" where
  "conflict_resolve_by_timestamp local_origin_id remote_origin_id local_ts remote_ts last_update_wins =
     (let cmp = timestamptz_cmp_internal remote_ts local_ts;
          cmp = (if \<not> last_update_wins then - cmp else cmp)
      in if cmp > 0 then (True, PGLogicalResolution_ApplyRemote)
         else if cmp < 0 then (False, PGLogicalResolution_KeepLocal)
         else (True, PGLogicalResolution_ApplyRemote))"

definition get_tuple_origin ::
  "conflict_env \<Rightarrow> heap_row \<Rightarrow> bool \<times> transaction_id \<times> 16 word \<times> timestamptz" where
  "get_tuple_origin E local_tuple =
     (if \<not> track_commit_timestamp E
      then (False, t_xmin local_tuple, replorigin_session_origin E,
            replorigin_session_origin_timestamp E)
      else case TransactionIdGetCommitTsData E (t_xmin local_tuple) of
             (known, ts, origin) \<Rightarrow> (known, t_xmin local_tuple, origin, ts))"

text \<open>Whether to apply the remote tuple, the tuple to be kept, and the resolution for the log.\<close>

definition try_resolve_conflict ::
  "conflict_env \<Rightarrow> heap_row \<Rightarrow> heap_tuple
     \<Rightarrow> (bool \<times> heap_tuple \<times> PGLogicalConflictResolution) result" where
  "try_resolve_conflict E localtuple remotetuple =
     (let by_timestamp = (\<lambda>last_update_wins.
            case get_tuple_origin E localtuple of
              (known, xmin, local_origin, local_ts) \<Rightarrow>
                Inr (conflict_resolve_by_timestamp local_origin (replorigin_session_origin E)
                       local_ts (replorigin_session_origin_timestamp E) last_update_wins))
      in rbind (if pglogical_conflict_resolver E = PGLOGICAL_RESOLVE_ERROR
                then elog ''cannot apply conflicting row''
                else if pglogical_conflict_resolver E = PGLOGICAL_RESOLVE_APPLY_REMOTE
                then Inr (True, PGLogicalResolution_ApplyRemote)
                else if pglogical_conflict_resolver E = PGLOGICAL_RESOLVE_KEEP_LOCAL
                then Inr (False, PGLogicalResolution_KeepLocal)
                else if pglogical_conflict_resolver E = PGLOGICAL_RESOLVE_LAST_UPDATE_WINS
                then by_timestamp True
                else if pglogical_conflict_resolver E = PGLOGICAL_RESOLVE_FIRST_UPDATE_WINS
                then by_timestamp False
                else elog ''unrecognized pglogical_conflict_resolver setting %d'')
           (\<lambda>(appl, resolution).
              Inr (appl, if appl then remotetuple else t_data localtuple, resolution)))"

fun conflict_type_to_string :: "PGLogicalConflictType \<Rightarrow> string" where
  "conflict_type_to_string CONFLICT_INSERT_INSERT = ''insert_insert''"
| "conflict_type_to_string CONFLICT_UPDATE_UPDATE = ''update_update''"
| "conflict_type_to_string CONFLICT_UPDATE_DELETE = ''update_delete''"
| "conflict_type_to_string CONFLICT_DELETE_DELETE = ''delete_delete''"

fun conflict_resolution_to_string :: "PGLogicalConflictResolution \<Rightarrow> string" where
  "conflict_resolution_to_string PGLogicalResolution_ApplyRemote = ''apply_remote''"
| "conflict_resolution_to_string PGLogicalResolution_KeepLocal = ''keep_local''"
| "conflict_resolution_to_string PGLogicalResolution_Skip = ''skip''"

text \<open>
  The two conditional expressions of the report test an enumeration constant, not the conflict type:
  the first is the constant 0 and the second the constant 2.
\<close>

definition enum_true :: "PGLogicalConflictType \<Rightarrow> bool" where
  "enum_true c = (case c of CONFLICT_INSERT_INSERT \<Rightarrow> False | _ \<Rightarrow> True)"

definition pglogical_report_conflict ::
  "(relation \<Rightarrow> string) \<Rightarrow> PGLogicalConflictType \<Rightarrow> relation \<Rightarrow> PGLogicalConflictResolution \<Rightarrow> string" where
  "pglogical_report_conflict quoted_name conflict_type rel resolution =
     (case conflict_type of
        CONFLICT_INSERT_INSERT \<Rightarrow>
          ''CONFLICT: remote '' @ (if enum_true CONFLICT_INSERT_INSERT then ''INSERT'' else ''UPDATE'') @
          '' on relation '' @ quoted_name rel @
          ''. Resolution: '' @ conflict_resolution_to_string resolution @ ''.''
      | CONFLICT_UPDATE_UPDATE \<Rightarrow>
          ''CONFLICT: remote '' @ (if enum_true CONFLICT_INSERT_INSERT then ''INSERT'' else ''UPDATE'') @
          '' on relation '' @ quoted_name rel @
          ''. Resolution: '' @ conflict_resolution_to_string resolution @ ''.''
      | CONFLICT_UPDATE_DELETE \<Rightarrow>
          ''CONFLICT: remote '' @ (if enum_true CONFLICT_UPDATE_DELETE then ''UPDATE'' else ''DELETE'') @
          '' on relation '' @ quoted_name rel @
          '' (tuple not found). Resolution: '' @ conflict_resolution_to_string resolution @ ''.''
      | CONFLICT_DELETE_DELETE \<Rightarrow>
          ''CONFLICT: remote '' @ (if enum_true CONFLICT_UPDATE_DELETE then ''UPDATE'' else ''DELETE'') @
          '' on relation '' @ quoted_name rel @
          '' (tuple not found). Resolution: '' @ conflict_resolution_to_string resolution @ ''.'')"

definition pglogical_conflict_resolver_check_hook :: "bool \<Rightarrow> int \<Rightarrow> bool" where
  "pglogical_conflict_resolver_check_hook track_ts newval =
     (if \<not> track_ts \<and> newval \<noteq> PGLOGICAL_RESOLVE_APPLY_REMOTE then False else True)"

section \<open>What the search promises\<close>

text \<open>
  A row matches a tuple on an index when the row is in the index and every key column of the tuple has
  a value that the operator of the column finds equal to the row's.
\<close>

definition index_match :: "index_am \<Rightarrow> index_rel \<Rightarrow> PGLogicalTupleData \<Rightarrow> heap_row \<Rightarrow> bool" where
  "index_match A ii tup r \<longleftrightarrow> ii_Predicate ii (t_data r) \<and>
     (\<forall>j < length (indkey ii).
        \<not> tnulls tup (indkey ii ! j - 1) \<and> indkey ii ! j - 1 < length (t_data r) \<and>
        (\<exists>v. t_data r ! (indkey ii ! j - 1) = Some v \<and>
             call_bool A (get_opcode A (equality_operator A (indclass ii ! j))) v
               (tvalues tup (indkey ii ! j - 1))))"

definition index_ok :: "index_am \<Rightarrow> index_rel \<Rightarrow> bool" where
  "index_ok A ii \<longleftrightarrow> length (indclass ii) = length (indkey ii) \<and>
     list_all (\<lambda>c. OidIsValid (equality_operator A c)) (indclass ii)"

definition usable_index :: "index_rel \<Rightarrow> PGLogicalTupleData \<Rightarrow> bool" where
  "usable_index ii tup \<longleftrightarrow> ii_Unique ii \<and> \<not> ii_Expressions ii \<and>
     list_all (\<lambda>k. \<not> tnulls tup (k - 1)) (indkey ii)"

text \<open>
  From the moment \<open>T\<close> on no other session holds a row, and locking a row never fails for another reason
  than a concurrent update; in a quiet database nobody else is working at all.
\<close>

definition settles :: "interference \<Rightarrow> nat \<Rightarrow> bool" where
  "settles others T \<longleftrightarrow>
     (\<forall>now rows r. heap_lock_tuple (others now rows) r \<in> {HeapTupleMayBeUpdated, HeapTupleUpdated} \<and>
        (T \<le> now \<longrightarrow> xwait (others now rows) r = 0 \<and>
           heap_lock_tuple (others now rows) r = HeapTupleMayBeUpdated))"

definition alone :: interference where
  "alone now rows = \<lparr> m_rows = rows, snap_xmin = (\<lambda>_. 0), snap_xmax = (\<lambda>_. 0),
     heap_lock_tuple = (\<lambda>_. HeapTupleMayBeUpdated) \<rparr>"

text \<open>The reference for the search: the first usable index with a matching row, and the first such row.\<close>

definition first_conflict ::
  "index_am \<Rightarrow> PGLogicalTupleData \<Rightarrow> index_rel list \<Rightarrow> heap_row list \<Rightarrow> (index_rel \<times> heap_row) option" where
  "first_conflict A tup idxs rows =
     List.find (\<lambda>(ii, r). usable_index ii tup \<and> index_match A ii tup r) (List.product idxs rows)"

text \<open>Two different rows of the table stand in the way of a tuple, each on a unique index of its own.\<close>

definition conflicts_twice ::
  "index_am \<Rightarrow> PGLogicalTupleData \<Rightarrow> index_rel list \<Rightarrow> heap_row list \<Rightarrow> bool" where
  "conflicts_twice A tup idxs rows \<longleftrightarrow>
     list_ex (\<lambda>(ii, r). usable_index ii tup \<and> index_match A ii tup r \<and>
       list_ex (\<lambda>(jj, q). usable_index jj tup \<and> index_match A jj tup q \<and> jj \<noteq> ii \<and> tid q \<noteq> tid r)
         (List.product idxs rows)) (List.product idxs rows)"

text \<open>
  An example: a table with columns \<open>id\<close> and \<open>note\<close>, a unique index on \<open>id\<close>, and a session that holds the
  row for two moments; a second table has a unique index on \<open>note\<close> too.
\<close>

definition ex_index :: index_rel where
  "ex_index = \<lparr> indexrelid = 16390, ii_Unique = True, ii_Expressions = False,
     ii_Predicate = (\<lambda>_. True), indkey = [1], indclass = [1994] \<rparr>"

definition ex_am :: index_am where
  "ex_am = \<lparr> equality_operator = (\<lambda>_. 98), get_opcode = (\<lambda>_. 67),
     call_bool = (\<lambda>_ a b. a = b), index_open = (\<lambda>_. Inr ex_index),
     ExecOpenIndices = (\<lambda>_. [ex_index]) \<rparr>"

definition ex_index2 :: index_rel where
  "ex_index2 = ex_index\<lparr> indexrelid := 16392, indkey := [2] \<rparr>"

definition ex_am2 :: index_am where
  "ex_am2 = ex_am\<lparr> ExecOpenIndices := (\<lambda>_. [ex_index, ex_index2]) \<rparr>"

definition ex_hrow2 :: heap_row where
  "ex_hrow2 = \<lparr> tid = 2, t_xmin = 701, t_data = [Some (DatumPtr ''2''), Some (DatumPtr ''new'')] \<rparr>"

definition ex_hrow :: heap_row where
  "ex_hrow = \<lparr> tid = 1, t_xmin = 700, t_data = [Some (DatumPtr ''1''), Some (DatumPtr ''old'')] \<rparr>"

definition ex_busy :: interference where
  "ex_busy now rows = \<lparr> m_rows = rows, snap_xmin = (\<lambda>_. 0), snap_xmax = (\<lambda>_. if now < 2 then 733 else 0),
     heap_lock_tuple = (\<lambda>_. HeapTupleMayBeUpdated) \<rparr>"

definition ex_newtup :: PGLogicalTupleData where
  "ex_newtup = \<lparr> tvalues = (\<lambda>i. if i = 0 then DatumPtr ''1'' else DatumPtr ''new''),
     tnulls = (\<lambda>_. False), tchanged = (\<lambda>_. True) \<rparr>"

definition ex_cenv :: "int \<Rightarrow> timestamptz \<Rightarrow> timestamptz \<Rightarrow> conflict_env" where
  "ex_cenv resolver remote_ts local_ts = \<lparr> pglogical_conflict_resolver = resolver,
     track_commit_timestamp = True, replorigin_session_origin = 1,
     replorigin_session_origin_timestamp = remote_ts,
     TransactionIdGetCommitTsData = (\<lambda>_. (True, local_ts, 0)) \<rparr>"

section \<open>Lemmas\<close>

lemma sint_eq_iff: "sint a = sint b \<longleftrightarrow> a = b"
  by (auto intro: signed_word_eqI)

lemma obind_simps [simp]:
  "obind None f = None" "obind (Some (Inl e)) f = Some (Inl e)" "obind (Some (Inr x)) f = f x"
  by (simp_all add: obind_def)

lemma obind_eq_Inr:
  "obind m f = Some (Inr y) \<longleftrightarrow> (\<exists>x. m = Some (Inr x) \<and> f x = Some (Inr y))"
  by (auto simp: obind_def split: option.splits sum.splits)

lemma build_key_ok:
  assumes "index_ok A ii"
  shows "\<exists>skey. build_index_scan_key A ii tup =
      Inr (skey, \<not> list_all (\<lambda>k. \<not> tnulls tup (k - 1)) (indkey ii)) \<and>
    length skey = length (indkey ii) \<and>
    (\<forall>j < length (indkey ii). skey ! j =
       \<lparr> sk_attno = j + 1, sk_func = get_opcode A (equality_operator A (indclass ii ! j)),
         sk_argument = tvalues tup (indkey ii ! j - 1), sk_isnull = tnulls tup (indkey ii ! j - 1) \<rparr>)"
proof -
  let ?cols = "zip [0..<length (indkey ii)] (zip (indkey ii) (indclass ii))"
  let ?key = "\<lambda>(attoff, k, c). \<lparr> sk_attno = attoff + 1, sk_func = get_opcode A (equality_operator A c),
     sk_argument = tvalues tup (k - 1), sk_isnull = tnulls tup (k - 1) \<rparr>"
  have len: "length (indclass ii) = length (indkey ii)"
    using assms by (simp add: index_ok_def)
  have "rmap (scan_key_column A tup) ?cols = Inr (map ?key ?cols)"
    using assms by (auto simp: rmap_Inr_iff list_all2_conv_all_nth scan_key_column_def index_ok_def
        list_all_length)
  moreover have "list_ex sk_isnull (map ?key ?cols) =
      (\<not> list_all (\<lambda>k. \<not> tnulls tup (k - 1)) (indkey ii))"
    using len by (auto simp: list_ex_length list_all_length)
  ultimately show ?thesis
    using len by (simp add: build_index_scan_key_def)
qed

lemma getnext_match:
  assumes "index_ok A ii" "build_index_scan_key A ii tup = Inr (skey, hasnulls)"
  shows "index_getnext A ii skey rows = List.find (index_match A ii tup) rows"
proof -
  have "(list_all (key_column_matches A ii (t_data r)) skey \<and> ii_Predicate ii (t_data r)) =
      index_match A ii tup r" for r
    using build_key_ok [OF assms(1), of tup] assms(2)
    by (auto simp: index_match_def list_all_length key_column_matches_def Let_def split: option.splits)
  then show ?thesis
    unfolding index_getnext_def by (metis (no_types, lifting) find_cong)
qed

lemma find_alone [simp]:
  "find_index_tuple A alone ii skey now rows =
   Some (Inr (index_getnext A ii skey rows, now + 1, rows))"
  by (subst find_index_tuple.simps) (simp add: alone_def xwait_def Let_def split: option.splits)

text \<open>A search ends when the other sessions settle, and then without an error.\<close>

lemma find_settles:
  assumes "settles others T"
  shows "\<exists>r. find_index_tuple A others ii skey now rows = Some (Inr r)"
proof (induction "T - now" arbitrary: now rows)
  case 0
  then show ?case
    using assms by (subst find_index_tuple.simps) (auto simp: settles_def Let_def split: option.splits)
next
  case (Suc n)
  then have next_ok: "\<exists>r. find_index_tuple A others ii skey (now + 1) rows' = Some (Inr r)" for rows'
    by simp
  show ?case
  proof (cases "index_getnext A ii skey (m_rows (others now rows))")
    case (Some r)
    then have "heap_lock_tuple (others now rows) r \<in> {HeapTupleMayBeUpdated, HeapTupleUpdated}"
      using assms by (simp add: settles_def)
    then show ?thesis
      using Some next_ok by (subst find_index_tuple.simps) (auto simp: Let_def)
  qed (subst find_index_tuple.simps, simp add: Let_def)
qed

text \<open>What it found is there at that moment.\<close>

lemma find_sound:
  assumes "find_index_tuple A others ii skey now rows = Some (Inr (found, now', rows'))"
  shows "found = index_getnext A ii skey rows'"
proof -
  have "case y of Inl e \<Rightarrow> True | Inr (found, now', rows') \<Rightarrow> found = index_getnext A ii skey rows'"
    if "find_index_tuple A others ii skey now rows = Some y" for y
    by (rule find_index_tuple.raw_induct [OF _ that])
      (auto simp: Let_def split: option.splits if_splits HTSU_Result.splits)
  then show ?thesis using assms by force
qed


lemma conflict_loop:
  assumes "settles others T" "\<forall>ii \<in> set idxs. index_ok A ii"
  shows "\<exists>c now' rows'. find_conflict_loop A others tup idxs None now rows =
      Some (Inr (c, now', rows')) \<and>
    (\<forall>ix r. c = Some (ix, r) \<longrightarrow> (\<exists>ii \<in> set idxs. usable_index ii tup \<and> indexrelid ii = ix \<and>
        r \<in> set rows' \<and> index_match A ii tup r))"
  using assms(2)
proof (induction idxs arbitrary: now rows)
  case (Cons ii idxs)
  obtain skey where key: "build_index_scan_key A ii tup =
      Inr (skey, \<not> list_all (\<lambda>k. \<not> tnulls tup (k - 1)) (indkey ii))"
    using build_key_ok [of A ii tup] Cons.prems by auto
  obtain found now1 rows1 where f: "find_index_tuple A others ii skey now rows =
      Some (Inr (found, now1, rows1))"
    using find_settles [OF assms(1), of A ii skey now rows] by auto
  have found: "found = List.find (index_match A ii tup) rows1"
    using find_sound [OF f] getnext_match [OF _ key] Cons.prems by simp
  show ?case
    using Cons.IH [of now rows] Cons.IH [of now1 rows1] Cons.prems key f found
    by (fastforce simp: usable_index_def find_Some_iff split: option.splits)
qed simp

text \<open>
  The only errors of a search are internal ones: a missing operator, or an unexpected answer to the
  attempt to lock the row.
\<close>

lemma find_error_internal:
  assumes "find_index_tuple A others ii skey now rows = Some (Inl e)"
  shows "\<exists>m. e = Ereport ERRCODE_INTERNAL_ERROR m"
proof -
  have "case y of Inl e \<Rightarrow> \<exists>m. e = Ereport ERRCODE_INTERNAL_ERROR m | Inr _ \<Rightarrow> True"
    if "find_index_tuple A others ii skey now rows = Some y" for y
    by (rule find_index_tuple.raw_induct [OF _ that])
      (auto simp: Let_def split: option.splits if_splits HTSU_Result.splits)
  then show ?thesis using assms by force
qed

lemma conflict_loop_error:
  assumes "\<forall>ii \<in> set idxs. index_ok A ii"
    and "find_conflict_loop A others tup idxs None now rows = Some (Inl e)"
  shows "\<exists>m. e = Ereport ERRCODE_INTERNAL_ERROR m"
  using assms
proof (induction idxs arbitrary: now rows)
  case (Cons ii idxs)
  obtain skey where key: "build_index_scan_key A ii tup =
      Inr (skey, \<not> list_all (\<lambda>k. \<not> tnulls tup (k - 1)) (indkey ii))"
    using build_key_ok [of A ii tup] Cons.prems(1) by auto
  show ?case
    using Cons.IH Cons.prems key find_error_internal [of A others ii skey now rows]
    by (auto simp: obind_def split: if_splits option.splits sum.splits)
qed simp

lemma first_conflict_exists:
  "conflicts_twice A tup idxs rows \<Longrightarrow> first_conflict A tup idxs rows \<noteq> None"
  by (auto simp: conflicts_twice_def first_conflict_def list_ex_iff find_None_iff)

lemma find_False: "List.find (\<lambda>y. False) ys = None"
  by (induction ys) auto

lemma find_map_Pair:
  "List.find P (map (Pair x) ys) = map_option (Pair x) (List.find (\<lambda>y. P (x, y)) ys)"
  by (induction ys) auto

lemma conflict_loop_alone:
  assumes "\<forall>ii \<in> set idxs. index_ok A ii"
  shows "\<exists>now'. find_conflict_loop A alone tup idxs None now rows =
    Some (Inr (map_option (\<lambda>(ii, r). (indexrelid ii, r)) (first_conflict A tup idxs rows), now', rows))"
  using assms
proof (induction idxs arbitrary: now)
  case (Cons ii idxs)
  obtain skey where key: "build_index_scan_key A ii tup =
      Inr (skey, \<not> list_all (\<lambda>k. \<not> tnulls tup (k - 1)) (indkey ii))"
    using build_key_ok [of A ii tup] Cons.prems by auto
  have get: "index_getnext A ii skey rows = List.find (index_match A ii tup) rows"
    using getnext_match [OF _ key] Cons.prems by simp
  have first: "first_conflict A tup (ii # idxs) rows =
      (if usable_index ii tup
       then case List.find (index_match A ii tup) rows of
              None \<Rightarrow> first_conflict A tup idxs rows | Some r \<Rightarrow> Some (ii, r)
       else first_conflict A tup idxs rows)"
    by (auto simp: first_conflict_def find_append find_map_Pair find_False
        split: option.splits)
  show ?case
    using Cons.IH [of now] Cons.IH [of "now + 1"] Cons.prems key
    by (auto simp: first get usable_index_def split: option.splits)
qed (simp add: first_conflict_def)

text \<open>
  Whatever the conflict was, the log says \<open>UPDATE\<close>: an insert that met an existing row and a delete that
  found no row are reported as updates.
\<close>

lemma report_always_says_update:
  "take 23 (pglogical_report_conflict q c rel res) = ''CONFLICT: remote UPDATE''"
  by (cases c) (simp_all add: pglogical_report_conflict_def enum_true_def)

text \<open>
  Without commit timestamps only one resolver is accepted, and every local row counts as written by
  the session's own origin.
\<close>

lemma hook_without_timestamps:
  assumes "pglogical_conflict_resolver_check_hook (track_commit_timestamp E)
      (pglogical_conflict_resolver E)" "\<not> track_commit_timestamp E"
  shows "try_resolve_conflict E r t = Inr (True, t, PGLogicalResolution_ApplyRemote)"
    and "fst (snd (snd (get_tuple_origin E r))) = replorigin_session_origin E"
  using assms
  by (auto simp: pglogical_conflict_resolver_check_hook_def try_resolve_conflict_def
      get_tuple_origin_def split: if_splits)

lemma resolve_by_timestamp:
  assumes "pglogical_conflict_resolver E \<in> {PGLOGICAL_RESOLVE_LAST_UPDATE_WINS,
      PGLOGICAL_RESOLVE_FIRST_UPDATE_WINS}" "track_commit_timestamp E"
    and "TransactionIdGetCommitTsData E (t_xmin r) = (known, local_ts, origin)"
    and "replorigin_session_origin_timestamp E = remote_ts"
  shows "try_resolve_conflict E r t =
    (if remote_ts = local_ts \<or>
        (pglogical_conflict_resolver E = PGLOGICAL_RESOLVE_LAST_UPDATE_WINS) = (sint local_ts < sint remote_ts)
     then Inr (True, t, PGLogicalResolution_ApplyRemote)
     else Inr (False, t_data r, PGLogicalResolution_KeepLocal))"
  using assms
  by (auto simp: try_resolve_conflict_def get_tuple_origin_def conflict_resolve_by_timestamp_def
      timestamptz_cmp_internal_def sint_eq_iff Let_def)

section \<open>Properties\<close>

text \<open>
  C28.  The search for a conflicting row ends, and it stops at the first conflict.  Whatever other
  sessions do to the table, once they settle the search returns without an error, provided that every
  index column has an equality operator; a conflict it reports is a row that is in the table at that
  moment and equals the remote tuple on all key columns of a unique index without expressions, none of
  them NULL.  When nobody else is working the search gives exactly the first such index and its first
  matching row, and reports none only if there is none.

  The code means to refuse a tuple that conflicts with two different rows on two indexes: its comment
  says that this situation cannot be handled and the loop has an \<open>ereport(ERROR)\<close> for it.  But the loop
  breaks at the first match, and the theorem states what follows: whatever other sessions do, settled or
  not, the only errors are internal ones and the error for several violated constraints is never raised;
  such a tuple is resolved against the row of the first index like any other, and the second
  conflicting row is left for the unique index to refuse when the row is written.
\<close>

theorem conflict_search_returns:
  assumes "settles others T" "\<forall>ii \<in> set (ExecOpenIndices A (rd_id rel)). index_ok A ii"
  shows "(\<exists>c now' rows'. pglogical_tuple_find_conflict A others rel tup now rows =
            Some (Inr (c, now', rows')) \<and>
          (\<forall>ix r. c = Some (ix, r) \<longrightarrow> (\<exists>ii \<in> set (ExecOpenIndices A (rd_id rel)).
             usable_index ii tup \<and> indexrelid ii = ix \<and> r \<in> set rows' \<and> index_match A ii tup r))) \<and>
    (\<exists>now'. pglogical_tuple_find_conflict A alone rel tup now rows =
       Some (Inr (map_option (\<lambda>(ii, r). (indexrelid ii, r))
                    (first_conflict A tup (ExecOpenIndices A (rd_id rel)) rows), now', rows))) \<and>
    (\<forall>e. pglogical_tuple_find_conflict A unsettled rel tup now rows = Some (Inl e) \<longrightarrow>
       (\<exists>m. e = Ereport ERRCODE_INTERNAL_ERROR m) \<and>
       e \<noteq> Ereport ERRCODE_UNIQUE_VIOLATION ''multiple unique constraints violated by remote tuple'') \<and>
    (conflicts_twice A tup (ExecOpenIndices A (rd_id rel)) rows \<longrightarrow>
       (\<exists>ii r now'. first_conflict A tup (ExecOpenIndices A (rd_id rel)) rows = Some (ii, r) \<and>
          pglogical_tuple_find_conflict A alone rel tup now rows =
            Some (Inr (Some (indexrelid ii, r), now', rows))))"
proof -
  have error: "\<exists>m. e = Ereport ERRCODE_INTERNAL_ERROR m"
    if "pglogical_tuple_find_conflict A unsettled rel tup now rows = Some (Inl e)" for e
    using conflict_loop_error [OF assms(2)] that by (simp add: pglogical_tuple_find_conflict_def)
  show ?thesis
    using conflict_loop [OF assms, of tup now rows] conflict_loop_alone [OF assms(2), of tup now rows]
      first_conflict_exists [of A tup "ExecOpenIndices A (rd_id rel)" rows] error
    by (fastforce simp: pglogical_tuple_find_conflict_def)
qed

lemma ex_index_ok: "index_ok ex_am2 ex_index" "index_ok ex_am2 ex_index2"
  by (simp_all add: index_ok_def ex_index_def ex_index2_def ex_am_def ex_am2_def)

lemmas ex_conflict_defs = usable_index_def index_match_def ex_index_def ex_index2_def ex_am_def ex_am2_def
  ex_hrow_def ex_hrow2_def ex_newtup_def

lemma ex_first_conflict:
  "first_conflict ex_am2 ex_newtup [ex_index, ex_index2] [ex_hrow2, ex_hrow] = Some (ex_index, ex_hrow)"
  by (simp add: first_conflict_def ex_conflict_defs)

lemma ex_conflicts_twice: "conflicts_twice ex_am2 ex_newtup [ex_index, ex_index2] [ex_hrow2, ex_hrow]"
  by (simp add: conflicts_twice_def ex_conflict_defs)

theorem conflict_search_returns_witness:
  "(\<exists>c now' rows'. pglogical_tuple_find_conflict ex_am2 ex_busy ex_lrel ex_newtup 0 [ex_hrow2, ex_hrow] =
      Some (Inr (c, now', rows'))) \<and>
   conflicts_twice ex_am2 ex_newtup (ExecOpenIndices ex_am2 (rd_id ex_lrel)) [ex_hrow2, ex_hrow] \<and>
   (\<exists>now'. pglogical_tuple_find_conflict ex_am2 alone ex_lrel ex_newtup 0 [ex_hrow2, ex_hrow] =
      Some (Inr (Some (16390, ex_hrow), now', [ex_hrow2, ex_hrow])))"
proof -
  have "settles ex_busy 2"
    by (simp add: settles_def ex_busy_def xwait_def)
  moreover have idxs: "ExecOpenIndices ex_am2 (rd_id ex_lrel) = [ex_index, ex_index2]"
    by (simp add: ex_am2_def)
  moreover have "indexrelid ex_index = 16390"
    by (simp add: ex_index_def)
  ultimately show ?thesis
    using conflict_search_returns [of ex_busy 2 ex_am2 ex_lrel ex_newtup 0 "[ex_hrow2, ex_hrow]" ex_busy]
    by (auto simp: ex_index_ok ex_first_conflict ex_conflicts_twice)
qed

text \<open>
  C29.  Resolution by timestamp converges except for ties.  Two nodes each hold a version of a row and
  receive the other's; both compare the same two commit timestamps, under the same rule.  When the
  timestamps differ both nodes end with the same version, the newer one if the last update wins and the
  older one if the first does.  When the timestamps are equal each node takes the version of the
  other, so the two versions are swapped and the nodes stay different.
\<close>

theorem timestamp_resolution_converges:
  assumes "track_commit_timestamp EA" "track_commit_timestamp EB"
    and "pglogical_conflict_resolver EA = rule" "pglogical_conflict_resolver EB = rule"
    and "rule \<in> {PGLOGICAL_RESOLVE_LAST_UPDATE_WINS, PGLOGICAL_RESOLVE_FIRST_UPDATE_WINS}"
    and "TransactionIdGetCommitTsData EA (t_xmin a) = (ka, ta, oa)"
    and "replorigin_session_origin_timestamp EB = ta"
    and "TransactionIdGetCommitTsData EB (t_xmin b) = (kb, tb, ob)"
    and "replorigin_session_origin_timestamp EA = tb"
  shows "\<exists>da db ra rb va vb.
    try_resolve_conflict EA a (t_data b) = Inr (da, va, ra) \<and>
    try_resolve_conflict EB b (t_data a) = Inr (db, vb, rb) \<and>
    (if ta = tb then va = t_data b \<and> vb = t_data a
     else va = vb \<and> va = (if (rule = PGLOGICAL_RESOLVE_LAST_UPDATE_WINS) = (sint ta < sint tb)
                          then t_data b else t_data a))"
proof -
  have "ta \<noteq> tb \<Longrightarrow> (sint tb < sint ta) = (\<not> sint ta < sint tb)"
    by (auto simp: not_less order_le_less sint_eq_iff)
  then show ?thesis
    using resolve_by_timestamp [OF _ assms(1,6,9), of "t_data b"]
      resolve_by_timestamp [OF _ assms(2,8,7), of "t_data a"] assms(3-5)
    by (cases "ta = tb") (simp_all add: ex_bool_eq)
qed

theorem timestamp_resolution_converges_witness:
  "\<exists>da db ra rb va vb.
    try_resolve_conflict (ex_cenv 3 20 10) ex_hrow [None] = Inr (da, va, ra) \<and>
    try_resolve_conflict (ex_cenv 3 10 20) (ex_hrow\<lparr> t_data := [None] \<rparr>) (t_data ex_hrow) = Inr (db, vb, rb) \<and>
    va = [None] \<and> vb = [None]"
  using timestamp_resolution_converges [of "ex_cenv 3 20 10" "ex_cenv 3 10 20" 3 ex_hrow True 10 0
      "ex_hrow\<lparr> t_data := [None] \<rparr>" True 20 0]
  by (auto simp: ex_cenv_def)

end
