(* ===== verification/Pgl_Worker.thy ===== *)
theory Pgl_Worker
  imports Pgl_Catalog
begin

text \<open>
  The worker slots in shared memory, \<open>src/pglogical_worker.c\<close>: the supervisor, the manager of each database,
  the apply and the sync workers register, attach and detach there.  A pointer to a slot is its
  index.  Processes are known by their pid.  What other processes do between two looks at the shared memory, the postmaster's
  answers and the clock are parameters; the loop that waits for a worker to start may never end
  and is a partial function.
\<close>

section \<open>Shared memory\<close>

datatype PGLogicalWorkerType =
    PGLOGICAL_WORKER_NONE | PGLOGICAL_WORKER_MANAGER | PGLOGICAL_WORKER_APPLY | PGLOGICAL_WORKER_SYNC

text \<open>The union of apply and sync data: the sync data starts with the apply data.\<close>

record PGLogicalWorker =
  worker_type :: PGLogicalWorkerType
  generation :: "16 word"
  proc :: "nat option"
  crashed_at :: timestamptz
  dboid :: oid
  w_subid :: oid
  sync_pending :: bool
  replay_stop_lsn :: xlogrecptr
  w_nspname :: string
  w_relname :: string

definition memset_worker :: PGLogicalWorker where
  "memset_worker = \<lparr> worker_type = PGLOGICAL_WORKER_NONE, generation = 0, proc = None, crashed_at = 0,
     dboid = InvalidOid, w_subid = InvalidOid, sync_pending = False, replay_stop_lsn = 0,
     w_nspname = [], w_relname = [] \<rparr>"

text \<open>
  \<open>signals\<close> is the record of the signals and latches that were set, in order.
\<close>

datatype signal = SIGTERM_to nat | SetLatch_of nat

fun is_SIGTERM :: "signal \<Rightarrow> bool" where
  "is_SIGTERM (SIGTERM_to pid) = True"
| "is_SIGTERM (SetLatch_of pid) = False"

record PGLogicalContext =
  supervisor :: "nat option"
  subscriptions_changed :: bool
  workers :: "PGLogicalWorker list"
  signals :: "signal list"

definition set_worker ::
  "nat \<Rightarrow> (PGLogicalWorker \<Rightarrow> PGLogicalWorker) \<Rightarrow> PGLogicalContext \<Rightarrow> PGLogicalContext" where
  "set_worker slot f ctx = ctx\<lparr> workers := (workers ctx)[slot := f (workers ctx ! slot)] \<rparr>"

definition SetLatch :: "nat \<Rightarrow> PGLogicalContext \<Rightarrow> PGLogicalContext" where
  "SetLatch pid ctx = ctx\<lparr> signals := signals ctx @ [SetLatch_of pid] \<rparr>"

section \<open>Registering a worker\<close>

fun first_slot :: "(PGLogicalWorker \<Rightarrow> bool) \<Rightarrow> nat \<Rightarrow> PGLogicalWorker list \<Rightarrow> nat option" where
  "first_slot P i [] = None"
| "first_slot P i (w # ws) = (if P w then Some i else first_slot P (Suc i) ws)"

definition find_empty_worker_slot :: "PGLogicalContext \<Rightarrow> nat option" where
  "find_empty_worker_slot ctx =
     first_slot (\<lambda>w. worker_type w = PGLOGICAL_WORKER_NONE \<or> crashed_at w \<noteq> 0) 0 (workers ctx)"

definition pglogical_worker_running :: "PGLogicalWorker option \<Rightarrow> bool" where
  "pglogical_worker_running worker = (case worker of None \<Rightarrow> False | Some w \<Rightarrow> proc w \<noteq> None)"

text \<open>The part of the registration that runs under the lock: the slot, and the context with it filled.\<close>

definition register_slot ::
  "PGLogicalWorker \<Rightarrow> PGLogicalContext \<Rightarrow> (nat \<times> PGLogicalContext) result" where
  "register_slot worker ctx =
     (case find_empty_worker_slot ctx of
        None \<Rightarrow> elog ''could not register pglogical worker: all background worker slots are already used''
      | Some slot \<Rightarrow>
          let next_generation = (if generation (workers ctx ! slot) = 65535 then 0
                                 else generation (workers ctx ! slot) + 1)
          in Inr (slot, set_worker slot (\<lambda>_. worker\<lparr> generation := next_generation, crashed_at := 0,
                                                     proc := None \<rparr>) ctx))"

abbreviation BGW_MAXLEN :: nat where
  "BGW_MAXLEN \<equiv> 64"

record BackgroundWorker =
  bgw_function_name :: string
  bgw_name :: string
  bgw_main_arg :: nat

definition snprintf :: "nat \<Rightarrow> string \<Rightarrow> string" where
  "snprintf n s = take (n - 1) s"

definition worker_bgw :: "PGLogicalWorker \<Rightarrow> nat \<Rightarrow> BackgroundWorker" where
  "worker_bgw worker slot =
     (if worker_type worker = PGLOGICAL_WORKER_MANAGER
      then \<lparr> bgw_function_name = snprintf BGW_MAXLEN ''pglogical_manager_main'',
             bgw_name = snprintf BGW_MAXLEN (''pglogical manager '' @ dec_of_nat (unat (dboid worker))),
             bgw_main_arg = slot \<rparr>
      else if worker_type worker = PGLOGICAL_WORKER_SYNC
      then \<lparr> bgw_function_name = snprintf BGW_MAXLEN ''pglogical_sync_main'',
             bgw_name = snprintf BGW_MAXLEN (''pglogical sync '' @ w_relname worker @ '' '' @
               dec_of_nat (unat (dboid worker)) @ '':'' @ dec_of_nat (unat (w_subid worker))),
             bgw_main_arg = slot \<rparr>
      else \<lparr> bgw_function_name = snprintf BGW_MAXLEN ''pglogical_apply_main'',
             bgw_name = snprintf BGW_MAXLEN (''pglogical apply '' @
               dec_of_nat (unat (dboid worker)) @ '':'' @ dec_of_nat (unat (w_subid worker))),
             bgw_main_arg = slot \<rparr>)"

datatype BgwHandleStatus = BGWH_STARTED | BGWH_NOT_YET_STARTED | BGWH_STOPPED | BGWH_POSTMASTER_DIED

text \<open>
  What the waiting process sees at its n-th look: whether it was told to stop, the status of the
  background worker, the shared memory, the clock, and whether the postmaster died in the wait.
\<close>

record startup_look =
  lk_sigterm :: bool
  lk_status :: BgwHandleStatus
  lk_ctx :: PGLogicalContext
  lk_now :: timestamptz
  lk_postmaster_death :: bool

text \<open>
  \<open>launched\<close> is the shared memory at the entry of \<open>wait_for_worker_startup\<close>: the lock was released before the
  background worker was registered, so other processes may have changed it by then.
\<close>

record bgw_env =
  RegisterDynamicBackgroundWorker :: "BackgroundWorker \<Rightarrow> PGLogicalContext \<Rightarrow> bool"
  register_now :: timestamptz
  launched :: "PGLogicalContext \<Rightarrow> PGLogicalContext"
  look :: "nat \<Rightarrow> PGLogicalContext \<Rightarrow> startup_look"

text \<open>The worker stopped: mark the slot when it is still that worker's and nobody reported a crash.\<close>

definition mark_premature_exit ::
  "nat \<Rightarrow> 16 word \<Rightarrow> timestamptz \<Rightarrow> PGLogicalContext \<Rightarrow> PGLogicalContext" where
  "mark_premature_exit slot gen now ctx =
     (let worker = workers ctx ! slot in
      if worker_type worker \<noteq> PGLOGICAL_WORKER_NONE \<and> generation worker = gen \<and> crashed_at worker = 0
      then set_worker slot (\<lambda>w. w\<lparr> crashed_at := now \<rparr>) ctx
      else ctx)"

partial_function (option) startup_loop ::
  "bgw_env \<Rightarrow> nat \<Rightarrow> 16 word \<Rightarrow> nat \<Rightarrow> PGLogicalContext
     \<Rightarrow> ((pg_error \<times> PGLogicalContext) + PGLogicalContext) option" where
  "startup_loop B slot gen n ctx =
     (let k = look B n ctx; ctx = lk_ctx k in
      if lk_sigterm k then Some (Inl (ProcExit 0, ctx))
      else if lk_status k = BGWH_STARTED \<and> pglogical_worker_running (Some (workers ctx ! slot))
      then Some (Inr ctx)
      else if lk_status k = BGWH_STOPPED
      then Some (Inr (mark_premature_exit slot gen (lk_now k) ctx))
      else if lk_postmaster_death k then Some (Inl (ProcExit 1, ctx))
      else startup_loop B slot gen (n + 1) ctx)"

text \<open>The generation to compare with is the one the slot has at entry, read without the lock.\<close>

definition wait_for_worker_startup ::
  "bgw_env \<Rightarrow> nat \<Rightarrow> PGLogicalContext \<Rightarrow> ((pg_error \<times> PGLogicalContext) + PGLogicalContext) option" where
  "wait_for_worker_startup B slot ctx =
     (let gen = generation (workers ctx ! slot) in startup_loop B slot gen 0 ctx)"

definition pglogical_worker_register ::
  "bgw_env \<Rightarrow> PGLogicalWorker \<Rightarrow> PGLogicalContext
     \<Rightarrow> ((pg_error \<times> PGLogicalContext) + (nat \<times> PGLogicalContext)) option" where
  "pglogical_worker_register B worker ctx =
     (case register_slot worker ctx of
        Inl e \<Rightarrow> Some (Inl (e, ctx))
      | Inr (slot, ctx) \<Rightarrow>
          if \<not> RegisterDynamicBackgroundWorker B (worker_bgw worker slot) ctx
          then Some (Inl (Ereport ERRCODE_CONFIGURATION_LIMIT_EXCEEDED
                  ''worker registration failed, you might want to increase max_worker_processes setting'',
                set_worker slot (\<lambda>w. w\<lparr> crashed_at := register_now B \<rparr>) ctx))
          else case wait_for_worker_startup B slot (launched B ctx) of
                 None \<Rightarrow> None
               | Some (Inl e) \<Rightarrow> Some (Inl e)
               | Some (Inr ctx) \<Rightarrow> Some (Inr (slot, ctx)))"

section \<open>Attaching and detaching\<close>

text \<open>\<open>MyPGLogicalWorker\<close> and \<open>MyPGLogicalWorkerGeneration\<close> of a process.\<close>

record my_worker =
  my_slot :: nat
  my_generation :: "16 word"

definition pglogical_worker_attach ::
  "nat \<Rightarrow> nat \<Rightarrow> PGLogicalContext \<Rightarrow> my_worker \<times> PGLogicalContext" where
  "pglogical_worker_attach pid slot ctx =
     (let ctx = set_worker slot (\<lambda>w. w\<lparr> proc := Some pid \<rparr>) ctx
      in (\<lparr> my_slot = slot, my_generation = generation (workers ctx ! slot) \<rparr>, ctx))"

definition pglogical_worker_detach ::
  "my_worker option \<Rightarrow> bool \<Rightarrow> timestamptz \<Rightarrow> PGLogicalContext \<Rightarrow> my_worker option \<times> PGLogicalContext" where
  "pglogical_worker_detach my crash now ctx =
     (case my of
        None \<Rightarrow> (None, ctx)
      | Some w \<Rightarrow>
          let ctx = set_worker (my_slot w) (\<lambda>w. w\<lparr> proc := None \<rparr>) ctx
          in (None,
              if crash
              then let ctx = set_worker (my_slot w) (\<lambda>w. w\<lparr> crashed_at := now \<rparr>) ctx
                   in if worker_type (workers ctx ! my_slot w) = PGLOGICAL_WORKER_MANAGER
                      then ctx\<lparr> subscriptions_changed := True \<rparr> else ctx
              else set_worker (my_slot w) (\<lambda>w. w\<lparr> worker_type := PGLOGICAL_WORKER_NONE,
                                                 dboid := InvalidOid \<rparr>) ctx))"

definition pglogical_worker_on_exit ::
  "nat \<Rightarrow> my_worker option \<Rightarrow> timestamptz \<Rightarrow> PGLogicalContext \<Rightarrow> my_worker option \<times> PGLogicalContext" where
  "pglogical_worker_on_exit code my now ctx = pglogical_worker_detach my (code \<noteq> 0) now ctx"

section \<open>Finding workers\<close>

definition pglogical_manager_find :: "oid \<Rightarrow> PGLogicalContext \<Rightarrow> nat option" where
  "pglogical_manager_find db ctx =
     first_slot (\<lambda>w. worker_type w = PGLOGICAL_WORKER_MANAGER \<and> db = dboid w) 0 (workers ctx)"

definition pglogical_apply_find :: "oid \<Rightarrow> oid \<Rightarrow> PGLogicalContext \<Rightarrow> nat option" where
  "pglogical_apply_find db subscriberid ctx =
     first_slot (\<lambda>w. worker_type w = PGLOGICAL_WORKER_APPLY \<and> db = dboid w \<and> subscriberid = w_subid w) 0
       (workers ctx)"

definition pglogical_apply_find_all :: "oid \<Rightarrow> PGLogicalContext \<Rightarrow> nat list" where
  "pglogical_apply_find_all db ctx =
     filter (\<lambda>i. worker_type (workers ctx ! i) = PGLOGICAL_WORKER_APPLY \<and> db = dboid (workers ctx ! i))
       [0..<length (workers ctx)]"

definition pglogical_sync_find :: "oid \<Rightarrow> oid \<Rightarrow> string \<Rightarrow> string \<Rightarrow> PGLogicalContext \<Rightarrow> nat option" where
  "pglogical_sync_find db subscriberid nspname rname ctx =
     first_slot (\<lambda>w. worker_type w = PGLOGICAL_WORKER_SYNC \<and> db = dboid w \<and> subscriberid = w_subid w \<and>
                     w_nspname w = nspname \<and> w_relname w = rname) 0 (workers ctx)"

definition pglogical_sync_find_all :: "oid \<Rightarrow> oid \<Rightarrow> PGLogicalContext \<Rightarrow> nat list" where
  "pglogical_sync_find_all db subscriberid ctx =
     filter (\<lambda>i. worker_type (workers ctx ! i) = PGLOGICAL_WORKER_SYNC \<and> db = dboid (workers ctx ! i) \<and>
                 subscriberid = w_subid (workers ctx ! i)) [0..<length (workers ctx)]"

definition worker_at :: "nat option \<Rightarrow> PGLogicalContext \<Rightarrow> PGLogicalWorker option" where
  "worker_at slot ctx = map_option (\<lambda>i. workers ctx ! i) slot"

definition pglogical_worker_kill :: "nat option \<Rightarrow> PGLogicalContext \<Rightarrow> PGLogicalContext" where
  "pglogical_worker_kill slot ctx =
     (case worker_at slot ctx of
        None \<Rightarrow> ctx
      | Some w \<Rightarrow> (case proc w of
                    None \<Rightarrow> ctx
                  | Some pid \<Rightarrow> ctx\<lparr> signals := signals ctx @ [SIGTERM_to pid] \<rparr>))"

fun pglogical_worker_type_name :: "PGLogicalWorkerType \<Rightarrow> string" where
  "pglogical_worker_type_name PGLOGICAL_WORKER_NONE = ''none''"
| "pglogical_worker_type_name PGLOGICAL_WORKER_MANAGER = ''manager''"
| "pglogical_worker_type_name PGLOGICAL_WORKER_APPLY = ''apply''"
| "pglogical_worker_type_name PGLOGICAL_WORKER_SYNC = ''sync''"

section \<open>Telling the workers about changed subscriptions\<close>

text \<open>
  The transaction callbacks of a backend: the flag \<open>xacthook_signal_workers\<close> and the argument of each
  callback registered so far (callbacks stay registered).
\<close>

record xact_hooks =
  xacthook_signal_workers :: bool
  xact_callbacks :: "oid option list"

definition subscription_changed :: "oid \<Rightarrow> xact_hooks \<Rightarrow> xact_hooks" where
  "subscription_changed subid h =
     (if \<not> xacthook_signal_workers h
      then \<lparr> xacthook_signal_workers = True,
             xact_callbacks = (if OidIsValid subid then Some subid else None) # xact_callbacks h \<rparr>
      else h)"

datatype XactEvent = XACT_EVENT_COMMIT | XACT_EVENT_ABORT | XACT_EVENT_OTHER

definition signal_worker_xact_callback ::
  "oid \<Rightarrow> XactEvent \<Rightarrow> oid option \<Rightarrow> xact_hooks \<times> PGLogicalContext \<Rightarrow> xact_hooks \<times> PGLogicalContext" where
  "signal_worker_xact_callback MyDatabaseId event arg = (\<lambda>(h, ctx).
     if event = XACT_EVENT_COMMIT \<and> xacthook_signal_workers h
     then let h = h\<lparr> xacthook_signal_workers := False \<rparr>;
              ctx = (case arg of
                       None \<Rightarrow> ctx
                     | Some subid \<Rightarrow>
                         pglogical_worker_kill (pglogical_apply_find MyDatabaseId subid ctx) ctx);
              ctx = ctx\<lparr> subscriptions_changed := True \<rparr>;
              w = pglogical_manager_find MyDatabaseId ctx
          in (h, case worker_at w ctx of
                   Some worker \<Rightarrow>
                     (case proc worker of
                        Some pid \<Rightarrow> SetLatch pid ctx
                      | None \<Rightarrow> (case supervisor ctx of None \<Rightarrow> ctx | Some pid \<Rightarrow> SetLatch pid ctx))
                 | None \<Rightarrow> (case supervisor ctx of None \<Rightarrow> ctx | Some pid \<Rightarrow> SetLatch pid ctx))
     else (h, ctx))"

text \<open>At the end of a transaction PostgreSQL calls every registered callback, the last one first.\<close>

definition CallXactCallbacks ::
  "oid \<Rightarrow> XactEvent \<Rightarrow> xact_hooks \<times> PGLogicalContext \<Rightarrow> xact_hooks \<times> PGLogicalContext" where
  "CallXactCallbacks MyDatabaseId event s =
     fold (signal_worker_xact_callback MyDatabaseId event) (xact_callbacks (fst s)) s"

section \<open>Shared memory at startup\<close>

definition pglogical_worker_shmem_startup :: "nat \<Rightarrow> PGLogicalContext option \<Rightarrow> PGLogicalContext" where
  "pglogical_worker_shmem_startup max_worker_processes found =
     (case found of
        Some ctx \<Rightarrow> ctx
      | None \<Rightarrow> \<lparr> supervisor = None, subscriptions_changed = False,
                  workers = replicate max_worker_processes memset_worker, signals = [] \<rparr>)"


text \<open>The manager forgets a crashed worker whose subscription is gone (end of \<open>manage_apply_workers\<close>).\<close>

definition clean_crashed_slot :: "nat \<Rightarrow> PGLogicalContext \<Rightarrow> PGLogicalContext" where
  "clean_crashed_slot slot ctx =
     (if crashed_at (workers ctx ! slot) \<noteq> 0
      then set_worker slot (\<lambda>w. w\<lparr> worker_type := PGLOGICAL_WORKER_NONE, crashed_at := 0 \<rparr>) ctx
      else ctx)"

section \<open>The life of the slots\<close>

text \<open>
  The shared memory together with what it does not record: how often each slot was registered;
  which processes exist, each with its slot, the number of its registration and, once it has attached,
  its own variables; and which registrations are still followed by the process that made them, by slot and number.
  Such a follower has not entered \<open>wait_for_worker_startup\<close> yet (\<open>None\<close>) or waits with the generation
  it read at entry.  It enters, finds that its worker stopped, or leaves for another reason at any time.
\<close>

record worker_system =
  shm :: PGLogicalContext
  regs :: "nat \<Rightarrow> nat"
  procs :: "nat \<rightharpoonup> nat \<times> nat \<times> my_worker option"
  waits :: "nat \<times> nat \<rightharpoonup> 16 word option"

inductive worker_step :: "worker_system \<Rightarrow> worker_system \<Rightarrow> bool" where
  registered: "register_slot w (shm s) = Inr (slot, ctx) \<Longrightarrow> worker_type w \<noteq> PGLOGICAL_WORKER_NONE \<Longrightarrow>
     procs s pid = None \<Longrightarrow>
     worker_step s \<lparr> shm = ctx, regs = (regs s)(slot := Suc (regs s slot)),
                     procs = (procs s)(pid \<mapsto> (slot, Suc (regs s slot), None)),
                     waits = (waits s)((slot, Suc (regs s slot)) \<mapsto> None) \<rparr>"
| not_started: "register_slot w (shm s) = Inr (slot, ctx) \<Longrightarrow> worker_type w \<noteq> PGLOGICAL_WORKER_NONE \<Longrightarrow>
     worker_step s \<lparr> shm = set_worker slot (\<lambda>w. w\<lparr> crashed_at := now \<rparr>) ctx,
                     regs = (regs s)(slot := Suc (regs s slot)), procs = procs s, waits = waits s \<rparr>"
| attached: "procs s pid = Some (slot, n, None) \<Longrightarrow>
     pglogical_worker_attach pid slot (shm s) = (my, ctx) \<Longrightarrow>
     worker_step s (s\<lparr> shm := ctx, procs := (procs s)(pid \<mapsto> (slot, n, Some my)) \<rparr>)"
| exited: "procs s pid = Some (slot, n, my) \<Longrightarrow>
     pglogical_worker_on_exit code my now (shm s) = (my', ctx) \<Longrightarrow>
     worker_step s (s\<lparr> shm := ctx, procs := (procs s)(pid := None) \<rparr>)"
| waiting: "waits s (slot, n) = Some None \<Longrightarrow>
     worker_step s (s\<lparr> waits := (waits s)((slot, n) \<mapsto> Some (generation (workers (shm s) ! slot))) \<rparr>)"
| marked: "waits s (slot, n) = Some (Some gen) \<Longrightarrow> (\<And>pid my. procs s pid \<noteq> Some (slot, n, my)) \<Longrightarrow>
     worker_step s (s\<lparr> shm := mark_premature_exit slot gen now (shm s),
                       waits := (waits s)((slot, n) := None) \<rparr>)"
| left: "worker_step s (s\<lparr> waits := (waits s)(k := None) \<rparr>)"
| cleaned: "slot < length (workers (shm s)) \<Longrightarrow>
     worker_step s (s\<lparr> shm := clean_crashed_slot slot (shm s) \<rparr>)"
| killed: "worker_step s (s\<lparr> shm := pglogical_worker_kill slot (shm s) \<rparr>)"

text \<open>
  The waits come in time: as long as a registrant has not entered its wait, its registration is the last one of
  the slot, and no slot is registered 65536 times during one wait.  A prompt run stays among such states.
\<close>

definition waits_in_time :: "worker_system \<Rightarrow> bool" where
  "waits_in_time s \<longleftrightarrow> (\<forall>slot n g. waits s (slot, n) = Some g \<longrightarrow>
     regs s slot < n + 65536 \<and> (g = None \<longrightarrow> regs s slot = n))"

definition prompt_step :: "worker_system \<Rightarrow> worker_system \<Rightarrow> bool" where
  "prompt_step s s' \<longleftrightarrow> worker_step s s' \<and> waits_in_time s'"

definition worker_start :: "nat \<Rightarrow> worker_system" where
  "worker_start max_worker_processes =
     \<lparr> shm = pglogical_worker_shmem_startup max_worker_processes None, regs = (\<lambda>_. 0), procs = Map.empty,
       waits = Map.empty \<rparr>"

text \<open>What a live process may rely on in its slot.\<close>

definition slot_of_process :: "nat \<Rightarrow> my_worker option \<Rightarrow> nat \<Rightarrow> nat \<Rightarrow> PGLogicalWorker \<Rightarrow> bool" where
  "slot_of_process pid my slot n w \<longleftrightarrow>
     worker_type w \<noteq> PGLOGICAL_WORKER_NONE \<and> crashed_at w = 0 \<and> generation w = of_nat n \<and>
     (case my of
        None \<Rightarrow> proc w = None
      | Some m \<Rightarrow> proc w = Some pid \<and> my_slot m = slot \<and> my_generation m = generation w)"

definition runs_in :: "worker_system \<Rightarrow> nat \<Rightarrow> nat \<Rightarrow> bool" where
  "runs_in s slot pid \<longleftrightarrow> (\<exists>n my. procs s pid = Some (slot, n, my))"

definition slot_ok :: "worker_system \<Rightarrow> nat \<Rightarrow> bool" where
  "slot_ok s i \<longleftrightarrow> generation (workers (shm s) ! i) = of_nat (regs s i) \<and>
     ((\<forall>pid. \<not> runs_in s i pid) \<and> proc (workers (shm s) ! i) = None \<or>
      (\<exists>pid my. procs s pid = Some (i, regs s i, my) \<and>
         slot_of_process pid my i (regs s i) (workers (shm s) ! i) \<and>
         (\<forall>q. runs_in s i q \<longrightarrow> q = pid)))"

definition slots_ok :: "worker_system \<Rightarrow> bool" where
  "slots_ok s \<longleftrightarrow> (\<forall>i < length (workers (shm s)). slot_ok s i) \<and>
     (\<forall>i pid. runs_in s i pid \<longrightarrow> i < length (workers (shm s)))"

text \<open>The registrations that are followed exist, and who waits has read the generation of his own.\<close>

definition waits_known :: "worker_system \<Rightarrow> bool" where
  "waits_known s \<longleftrightarrow> (\<forall>slot n g. waits s (slot, n) = Some g \<longrightarrow>
     slot < length (workers (shm s)) \<and> n \<le> regs s slot \<and> (\<forall>v. g = Some v \<longrightarrow> v = of_nat n))"

text \<open>An example: one slot; a worker registers, attaches and crashes.\<close>

definition ex_apply_worker :: "oid \<Rightarrow> PGLogicalWorker" where
  "ex_apply_worker subid = memset_worker\<lparr> worker_type := PGLOGICAL_WORKER_APPLY, dboid := 16384, w_subid := subid \<rparr>"

section \<open>Lemmas\<close>

lemma set_worker_simps [simp]:
  "length (workers (set_worker slot f ctx)) = length (workers ctx)"
  "signals (set_worker slot f ctx) = signals ctx"
  "supervisor (set_worker slot f ctx) = supervisor ctx"
  "subscriptions_changed (set_worker slot f ctx) = subscriptions_changed ctx"
  by (simp_all add: set_worker_def)

lemma nth_set_worker [simp]:
  "i < length (workers ctx) \<Longrightarrow>
   workers (set_worker slot f ctx) ! i = (if i = slot then f (workers ctx ! i) else workers ctx ! i)"
  by (simp add: set_worker_def nth_list_update)

lemma set_worker_twice:
  "set_worker slot f (set_worker slot g ctx) = set_worker slot (\<lambda>w. f (g w)) ctx"
  by (cases "slot < length (workers ctx)") (simp_all add: set_worker_def not_less list_update_beyond)

lemma first_slot_Some:
  "first_slot P k ws = Some i \<Longrightarrow> k \<le> i \<and> i < k + length ws \<and> P (ws ! (i - k))"
proof (induction ws arbitrary: k)
  case (Cons w ws)
  then show ?case
    by (cases "P w") (auto simp: Suc_diff_le dest!: Cons.IH simp flip: Suc_diff_Suc)
qed simp

lemma first_slot_None: "first_slot P k ws = None \<longleftrightarrow> (\<forall>w \<in> set ws. \<not> P w)"
  by (induction ws arbitrary: k) auto

lemma find_empty_Some:
  "find_empty_worker_slot ctx = Some slot \<Longrightarrow> slot < length (workers ctx) \<and>
   (worker_type (workers ctx ! slot) = PGLOGICAL_WORKER_NONE \<or> crashed_at (workers ctx ! slot) \<noteq> 0)"
  unfolding find_empty_worker_slot_def by (drule first_slot_Some) simp

text \<open>The generation counter goes up by one, modulo its 16 bits.\<close>

lemma register_slot_Inr:
  "register_slot w ctx = Inr (slot, ctx') \<longleftrightarrow> find_empty_worker_slot ctx = Some slot \<and>
   ctx' = set_worker slot (\<lambda>old. w\<lparr> generation := generation old + 1, crashed_at := 0, proc := None \<rparr>) ctx"
proof -
  have "(if g = 65535 then 0 else g + 1) = g + 1" for g :: "16 word"
    by simp
  then show ?thesis
    by (auto simp: register_slot_def set_worker_def Let_def split: option.splits)
qed

lemma of_nat_eq_word16:
  assumes "n \<le> m" "m < n + 65536" "(of_nat n :: 16 word) = of_nat m"
  shows "n = m"
proof -
  have "n mod 65536 = m mod 65536"
    using arg_cong [OF assms(3), of unat] by (simp add: unat_of_nat take_bit_eq_mod)
  then have "65536 dvd m - n"
    using mod_eq_dvd_iff_nat [OF assms(1), of 65536] by metis
  then show ?thesis
    using assms(1,2) by (cases "m - n = 0") (auto dest: dvd_imp_le)
qed

lemma slots_okD:
  assumes "slots_ok s" "procs s pid = Some (slot, n, my)"
  shows "slot < length (workers (shm s))" "n = regs s slot"
    "slot_of_process pid my slot n (workers (shm s) ! slot)"
    "runs_in s slot q \<Longrightarrow> q = pid"
proof -
  have r: "runs_in s slot pid" using assms(2) by (auto simp: runs_in_def)
  then show lt: "slot < length (workers (shm s))" using assms(1) by (auto simp: slots_ok_def)
  then have "slot_ok s slot" using assms(1) by (simp add: slots_ok_def)
  then obtain pid' my' where o: "procs s pid' = Some (slot, regs s slot, my')"
      "slot_of_process pid' my' slot (regs s slot) (workers (shm s) ! slot)"
      "\<And>q. runs_in s slot q \<Longrightarrow> q = pid'"
    using r unfolding slot_ok_def by metis
  then have "pid' = pid" using r by blast
  then show "n = regs s slot" "slot_of_process pid my slot n (workers (shm s) ! slot)"
    "runs_in s slot q \<Longrightarrow> q = pid"
    using o assms(2) by auto
qed

lemma empty_slot_unused:
  assumes "slots_ok s" "find_empty_worker_slot (shm s) = Some slot"
  shows "slot < length (workers (shm s))" "proc (workers (shm s) ! slot) = None" "\<not> runs_in s slot pid"
proof -
  note e = find_empty_Some [OF assms(2)]
  show "slot < length (workers (shm s))" using e by simp
  then have "slot_ok s slot" using assms(1) by (simp add: slots_ok_def)
  then show "proc (workers (shm s) ! slot) = None" "\<not> runs_in s slot pid"
    using e by (auto simp: slot_ok_def slot_of_process_def)
qed

text \<open>A step that changes one slot keeps the others as they are.\<close>

lemma slots_ok_one:
  assumes "slots_ok s" "slot < length (workers (shm s))" "shm s' = set_worker slot f (shm s)"
    "\<And>i. i \<noteq> slot \<Longrightarrow> regs s' i = regs s i"
    "\<And>pid i n my. i \<noteq> slot \<Longrightarrow> procs s' pid = Some (i, n, my) \<longleftrightarrow> procs s pid = Some (i, n, my)"
    "slot_ok s' slot"
  shows "slots_ok s'"
proof -
  have r: "runs_in s' i q \<longleftrightarrow> runs_in s i q" if "i \<noteq> slot" for i q
    using assms(5) that by (auto simp: runs_in_def)
  have "slot_ok s' i" if "i \<noteq> slot" "i < length (workers (shm s))" for i
    using assms(1,3,4,5) that by (auto simp: slots_ok_def slot_ok_def r)
  then show ?thesis
    using assms(1-3,6) r unfolding slots_ok_def by (metis set_worker_simps(1))
qed

lemma slots_ok_start: "slots_ok (worker_start n)"
  by (simp add: slots_ok_def slot_ok_def runs_in_def worker_start_def
      pglogical_worker_shmem_startup_def memset_worker_def)

lemma slots_ok_registered:
  assumes "slots_ok s" "register_slot w (shm s) = Inr (slot, ctx)"
    "worker_type w \<noteq> PGLOGICAL_WORKER_NONE" "procs s pid = None"
  shows "slots_ok \<lparr> shm = ctx, regs = (regs s)(slot := Suc (regs s slot)),
                    procs = (procs s)(pid \<mapsto> (slot, Suc (regs s slot), None)), waits = W \<rparr>"
proof -
  have e: "find_empty_worker_slot (shm s) = Some slot" and ctx: "ctx = set_worker slot
      (\<lambda>old. w\<lparr> generation := generation old + 1, crashed_at := 0, proc := None \<rparr>) (shm s)"
    using assms(2) by (auto simp: register_slot_Inr)
  note u = empty_slot_unused [OF assms(1) e]
  have "generation (workers (shm s) ! slot) = of_nat (regs s slot)"
    using assms(1) u(1) by (simp add: slots_ok_def slot_ok_def)
  then show ?thesis
    using u(1,3) assms(3,4)
    by (intro slots_ok_one [OF assms(1) u(1)])
      (auto simp: ctx slot_ok_def runs_in_def slot_of_process_def)
qed

lemma slots_ok_not_started:
  assumes "slots_ok s" "register_slot w (shm s) = Inr (slot, ctx)"
  shows "slots_ok \<lparr> shm = set_worker slot (\<lambda>w. w\<lparr> crashed_at := now \<rparr>) ctx,
                    regs = (regs s)(slot := Suc (regs s slot)), procs = procs s, waits = W \<rparr>"
proof -
  have e: "find_empty_worker_slot (shm s) = Some slot" and ctx: "ctx = set_worker slot
      (\<lambda>old. w\<lparr> generation := generation old + 1, crashed_at := 0, proc := None \<rparr>) (shm s)"
    using assms(2) by (auto simp: register_slot_Inr)
  note u = empty_slot_unused [OF assms(1) e]
  have "generation (workers (shm s) ! slot) = of_nat (regs s slot)"
    using assms(1) u(1) by (simp add: slots_ok_def slot_ok_def)
  then show ?thesis
    using u(1,3)
    by (intro slots_ok_one [OF assms(1) u(1)])
      (auto simp: ctx set_worker_twice slot_ok_def runs_in_def)
qed

lemma slots_ok_attached:
  assumes "slots_ok s" "procs s pid = Some (slot, n, None)"
    "pglogical_worker_attach pid slot (shm s) = (my, ctx)"
  shows "slots_ok (s\<lparr> shm := ctx, procs := (procs s)(pid \<mapsto> (slot, n, Some my)) \<rparr>)"
proof -
  let ?s = "s\<lparr> shm := ctx, procs := (procs s)(pid \<mapsto> (slot, n, Some my)) \<rparr>"
  note d = slots_okD [OF assms(1,2)]
  have ctx: "ctx = set_worker slot (\<lambda>w. w\<lparr> proc := Some pid \<rparr>) (shm s)"
    and my: "my = \<lparr> my_slot = slot, my_generation = generation (workers (shm s) ! slot) \<rparr>"
    using assms(3) d(1) by (auto simp: pglogical_worker_attach_def Let_def)
  have "q = pid" if "runs_in ?s slot q" for q
    using that d(4) [of q] by (auto simp: runs_in_def split: if_splits)
  moreover have "slot_of_process pid (Some my) slot (regs ?s slot) (workers (shm ?s) ! slot)"
    using d(1-3) by (simp add: ctx my slot_of_process_def)
  moreover have "generation (workers (shm ?s) ! slot) = of_nat (regs ?s slot)"
    using d(1-3) by (simp add: ctx slot_of_process_def)
  ultimately have "slot_ok ?s slot"
    using d(2) by (auto simp: slot_ok_def)
  then show ?thesis
    using assms(2) by (intro slots_ok_one [OF assms(1) d(1)]) (auto simp: ctx)
qed

text \<open>A slot without a process changes, but not its generation.\<close>

lemma slots_ok_update:
  assumes "slots_ok s" "slot < length (workers (shm s))" "\<And>pid. \<not> runs_in s slot pid"
    "\<And>w. generation (f w) = generation w" "\<And>w. proc (f w) = proc w"
  shows "slots_ok (s\<lparr> shm := set_worker slot f (shm s) \<rparr>)"
proof (rule slots_ok_one [OF assms(1,2)])
  have "slot_ok s slot" using assms(1,2) by (simp add: slots_ok_def)
  then show "slot_ok (s\<lparr> shm := set_worker slot f (shm s) \<rparr>) slot"
    using assms(2-5) by (auto simp: slot_ok_def runs_in_def)
qed simp_all

lemma slots_ok_more [simp]:
  "slots_ok (s\<lparr> shm := (shm s)\<lparr> signals := l \<rparr> \<rparr>) = slots_ok s"
  "slots_ok (s\<lparr> waits := W \<rparr>) = slots_ok s"
  by (simp_all add: slots_ok_def slot_ok_def runs_in_def)

lemma slots_ok_marked:
  assumes "slots_ok s" "\<And>pid my. procs s pid \<noteq> Some (slot, n, my)" "slot < length (workers (shm s))"
    "n \<le> regs s slot" "regs s slot < n + 65536"
  shows "slots_ok (s\<lparr> shm := mark_premature_exit slot (of_nat n) now (shm s), waits := W \<rparr>)"
proof (cases "generation (workers (shm s) ! slot) = of_nat n")
  case True
  then have "(of_nat n :: 16 word) = of_nat (regs s slot)"
    using assms(1,3) by (simp add: slots_ok_def slot_ok_def)
  then have "n = regs s slot"
    using of_nat_eq_word16 assms(4,5) by blast
  then have "\<not> runs_in s slot pid" for pid
    using assms(2) slots_okD(2) [OF assms(1)] by (metis runs_in_def)
  then show ?thesis
    using assms(1) slots_ok_update [OF assms(1,3), of "\<lambda>w. w\<lparr> crashed_at := now \<rparr>"]
    by (simp add: mark_premature_exit_def Let_def)
qed (use assms(1) in \<open>simp add: mark_premature_exit_def\<close>)

lemma slots_ok_cleaned:
  assumes "slots_ok s" "slot < length (workers (shm s))"
  shows "slots_ok (s\<lparr> shm := clean_crashed_slot slot (shm s) \<rparr>)"
proof (cases "crashed_at (workers (shm s) ! slot) = 0")
  case False
  then have "\<not> runs_in s slot pid" for pid
    using slots_okD(3) [OF assms(1), of pid slot] by (auto simp: slot_of_process_def runs_in_def)
  then show ?thesis
    using False slots_ok_update [OF assms, of
        "\<lambda>w. w\<lparr> worker_type := PGLOGICAL_WORKER_NONE, crashed_at := 0 \<rparr>"]
    by (simp add: clean_crashed_slot_def)
qed (use assms in \<open>simp add: clean_crashed_slot_def\<close>)

text \<open>A process that exits leaves its slot without a process.\<close>

lemma slots_ok_gone:
  assumes "slots_ok s" "procs s pid = Some (slot, n, my)" "shm s' = set_worker slot f (shm s)"
    "regs s' = regs s" "procs s' = (procs s)(pid := None)"
    "\<And>w. generation (f w) = generation w"
    "proc (f (workers (shm s) ! slot)) = None"
  shows "slots_ok s'"
proof -
  note d = slots_okD [OF assms(1,2)]
  have "generation (workers (shm s) ! slot) = of_nat (regs s slot)"
    using assms(1) d(1) by (simp add: slots_ok_def slot_ok_def)
  moreover have "\<not> runs_in s' slot q" for q
    using d(4) [of q] assms(5) by (auto simp: runs_in_def split: if_splits)
  ultimately have "slot_ok s' slot"
    using d(1) assms(3,4,6,7) by (simp add: slot_ok_def)
  then show ?thesis
    using assms(2,4,5) by (intro slots_ok_one [OF assms(1) d(1) assms(3)]) auto
qed

lemma slots_ok_exited:
  assumes "slots_ok s" "procs s pid = Some (slot, n, my)"
    "pglogical_worker_on_exit code my now (shm s) = (my', ctx)"
  shows "slots_ok (s\<lparr> shm := ctx, procs := (procs s)(pid := None) \<rparr>)"
proof (cases my)
  case None
  then have "proc (workers (shm s) ! slot) = None" "ctx = set_worker slot id (shm s)"
    using slots_okD(3) [OF assms(1,2)] assms(3)
    by (simp_all add: slot_of_process_def pglogical_worker_on_exit_def pglogical_worker_detach_def
        set_worker_def)
  then show ?thesis
    by (intro slots_ok_gone [OF assms(1,2), where f = id]) simp_all
next
  case (Some m)
  have slot: "my_slot m = slot"
    using slots_okD(3) [OF assms(1,2)] Some by (simp add: slot_of_process_def)
  let ?f = "\<lambda>w::PGLogicalWorker. if code = 0
     then w\<lparr> proc := None, worker_type := PGLOGICAL_WORKER_NONE, dboid := InvalidOid \<rparr>
     else w\<lparr> proc := None, crashed_at := now \<rparr>"
  have "workers ctx = workers (set_worker slot ?f (shm s))"
    using assms(3) Some slot
    by (auto simp: pglogical_worker_on_exit_def pglogical_worker_detach_def set_worker_twice Let_def
        split: if_splits)
  moreover have "slots_ok (s\<lparr> shm := set_worker slot ?f (shm s), procs := (procs s)(pid := None) \<rparr>)"
    by (rule slots_ok_gone [OF assms(1,2), where f = ?f]) auto
  ultimately show ?thesis
    by (auto simp: slots_ok_def slot_ok_def runs_in_def)
qed

lemma kill_signals:
  "signals (pglogical_worker_kill slot ctx) = signals ctx @
     (case worker_at slot ctx of None \<Rightarrow> [] | Some w \<Rightarrow> (case proc w of None \<Rightarrow> [] | Some pid \<Rightarrow> [SIGTERM_to pid]))"
  "workers (pglogical_worker_kill slot ctx) = workers ctx"
  "supervisor (pglogical_worker_kill slot ctx) = supervisor ctx"
  by (auto simp: pglogical_worker_kill_def split: option.splits)

lemma waits_known_step:
  assumes "worker_step s s'" "waits_known s" "waits_in_time s" "slots_ok s"
  shows "waits_known s'"
  using assms
proof (cases rule: worker_step.cases)
  case (waiting slot n)
  then have "slot < length (workers (shm s))" "regs s slot = n"
    using assms(2,3) by (auto simp: waits_known_def waits_in_time_def)
  moreover from this have "generation (workers (shm s) ! slot) = of_nat n"
    using assms(4) by (auto simp: slots_ok_def slot_ok_def)
  ultimately show ?thesis using waiting assms(2) by (auto simp: waits_known_def)
qed (auto simp: waits_known_def register_slot_Inr pglogical_worker_attach_def pglogical_worker_on_exit_def
    pglogical_worker_detach_def mark_premature_exit_def clean_crashed_slot_def kill_signals Let_def le_SucI
    split: option.splits if_splits dest: find_empty_Some)

lemma worker_step_ok:
  assumes "worker_step s s'" "slots_ok s" "waits_known s" "waits_in_time s"
  shows "slots_ok s'"
  using assms
proof (cases rule: worker_step.cases)
  case (marked slot n gen now)
  then have "slot < length (workers (shm s))" "n \<le> regs s slot" "gen = of_nat n" "regs s slot < n + 65536"
    using assms(3,4) by (auto simp: waits_known_def waits_in_time_def)
  then show ?thesis using slots_ok_marked [OF assms(2)] marked by simp
next
  case (killed slot)
  then show ?thesis using assms(2) by (auto simp: pglogical_worker_kill_def split: option.splits)
qed (auto intro: slots_ok_registered slots_ok_not_started slots_ok_attached slots_ok_exited slots_ok_cleaned)

lemma workers_reachable_ok:
  assumes "prompt_step\<^sup>*\<^sup>* (worker_start n) s"
  shows "slots_ok s"
proof -
  have "slots_ok s \<and> waits_known s \<and> waits_in_time s"
    using assms
  proof (induction rule: rtranclp_induct)
    case base
    show ?case using slots_ok_start by (simp add: waits_known_def waits_in_time_def worker_start_def)
  next
    case (step s s')
    then show ?case using worker_step_ok waits_known_step by (auto simp: prompt_step_def)
  qed
  then show ?thesis by simp
qed

text \<open>The signals sent on behalf of one subscription.\<close>

lemma callbacks_idle:
  "\<not> xacthook_signal_workers h \<Longrightarrow>
   fold (signal_worker_xact_callback db ev) cbs (h, ctx) = (h, ctx)"
  by (induction cbs) (simp_all add: signal_worker_xact_callback_def)

lemma callbacks_abort:
  "ev \<noteq> XACT_EVENT_COMMIT \<Longrightarrow> fold (signal_worker_xact_callback db ev) cbs s = s"
  by (induction cbs) (auto simp: signal_worker_xact_callback_def)

lemma changed_again:
  "xacthook_signal_workers h \<Longrightarrow> fold subscription_changed ss h = h"
  by (induction ss) (simp_all add: subscription_changed_def)

lemma callback_commit:
  assumes "xacthook_signal_workers h"
  shows "\<exists>ctx'. signal_worker_xact_callback db XACT_EVENT_COMMIT (Some subid) (h, ctx) =
      (h\<lparr> xacthook_signal_workers := False \<rparr>, ctx') \<and>
    subscriptions_changed ctx' \<and>
    filter is_SIGTERM (signals ctx') = filter is_SIGTERM (signals ctx) @
      (case worker_at (pglogical_apply_find db subid ctx) ctx of
         None \<Rightarrow> []
       | Some w \<Rightarrow> (case proc w of None \<Rightarrow> [] | Some pid \<Rightarrow> [SIGTERM_to pid]))"
  using assms
  by (auto simp: signal_worker_xact_callback_def Let_def SetLatch_def kill_signals
      split: option.splits)

section \<open>Properties\<close>

text \<open>
  C30.  A worker slot belongs to one process.  Let registrations, starts, clean exits, crashes, deaths before
  the process attached, late marking of such deaths, cleaning by the manager and kills interleave in any way in which
  no slot is registered again before the process that registered it last has entered its wait, and no slot is
  registered 65536 times during one wait:
  the slot that the next registration takes is not used by any process, and every live process finds
  its slot as it was registered, not free and not marked as crashed, with the generation of
  its own registration, with no process entered before it attaches and with itself entered after, and no
  second process shares the slot.
\<close>

theorem worker_slots_safe:
  assumes "prompt_step\<^sup>*\<^sup>* (worker_start max_worker_processes) s"
  shows "(\<forall>slot. find_empty_worker_slot (shm s) = Some slot \<longrightarrow>
            proc (workers (shm s) ! slot) = None \<and> (\<forall>pid. \<not> runs_in s slot pid)) \<and>
    (\<forall>pid slot n my. procs s pid = Some (slot, n, my) \<longrightarrow>
       slot_of_process pid my slot n (workers (shm s) ! slot) \<and> (\<forall>q. runs_in s slot q \<longrightarrow> q = pid))"
  using empty_slot_unused(2,3) [OF workers_reachable_ok [OF assms]]
    slots_okD(3,4) [OF workers_reachable_ok [OF assms]] by simp

text \<open>A run of one slot: the process 4711 is registered, its registrant enters the wait, the process attaches.\<close>

lemma ex_slot:
  "length (workers (shm (worker_start (Suc 0)))) = 1" "workers (shm (worker_start (Suc 0))) ! 0 = memset_worker"
  "find_empty_worker_slot (shm (worker_start (Suc 0))) = Some 0"
  by (simp_all add: worker_start_def pglogical_worker_shmem_startup_def find_empty_worker_slot_def
      memset_worker_def)

theorem worker_slots_safe_witness:
  "\<exists>s. prompt_step\<^sup>*\<^sup>* (worker_start 1) s \<and> runs_in s 0 4711 \<and> waits s (0, 1) = Some (Some 1) \<and>
     proc (workers (shm s) ! 0) = Some 4711 \<and> find_empty_worker_slot (shm s) = None \<and>
     (\<forall>q. runs_in s 0 q \<longrightarrow> q = 4711)"
proof -
  let ?w = "ex_apply_worker 5"
  let ?c1 = "set_worker 0 (\<lambda>old. ?w\<lparr> generation := generation old + 1, crashed_at := 0, proc := None \<rparr>)
    (shm (worker_start 1))"
  let ?s1 = "\<lparr> shm = ?c1, regs = (\<lambda>_. 0)(0 := 1), procs = [4711 \<mapsto> (0, 1, None)], waits = [(0, 1) \<mapsto> None] \<rparr>"
  let ?s2 = "?s1\<lparr> waits := [(0, 1) \<mapsto> Some 1] \<rparr>"
  let ?c2 = "set_worker 0 (\<lambda>w. w\<lparr> proc := Some 4711 \<rparr>) ?c1"
  let ?my = "\<lparr> my_slot = 0, my_generation = 1 \<rparr>"
  let ?s3 = "?s2\<lparr> shm := ?c2, procs := [4711 \<mapsto> (0, 1, Some ?my)] \<rparr>"
  have g: "generation (workers ?c1 ! 0) = 1" "length (workers ?c1) = 1"
    by (simp_all add: ex_slot memset_worker_def)
  have "worker_step (worker_start 1) ?s1"
    using worker_step.registered [of ?w "worker_start 1" 0 ?c1 4711]
    by (simp add: register_slot_Inr find_empty_worker_slot_def worker_start_def memset_worker_def
        pglogical_worker_shmem_startup_def ex_apply_worker_def)
  moreover have "worker_step ?s1 ?s2"
    using worker_step.waiting [of ?s1 0 1] g by simp
  moreover have "worker_step ?s2 ?s3"
    using worker_step.attached [of ?s2 4711 0 1 ?my ?c2] g by (simp add: pglogical_worker_attach_def Let_def)
  ultimately have "prompt_step (worker_start 1) ?s1" "prompt_step ?s1 ?s2" "prompt_step ?s2 ?s3"
    by (simp_all add: prompt_step_def waits_in_time_def)
  then have r: "prompt_step\<^sup>*\<^sup>* (worker_start 1) ?s3"
    by (meson converse_rtranclp_into_rtranclp rtranclp.rtrancl_refl)
  have p: "procs ?s3 4711 = Some (0, 1, Some ?my)" by simp
  have "find_empty_worker_slot (shm ?s3) = None"
    by (simp add: find_empty_worker_slot_def worker_start_def pglogical_worker_shmem_startup_def
        set_worker_def memset_worker_def ex_apply_worker_def)
  moreover have "runs_in ?s3 0 4711"
    using p unfolding runs_in_def by blast
  moreover note worker_slots_safe [OF r, THEN conjunct2, rule_format, OF p]
  ultimately have "runs_in ?s3 0 4711 \<and> waits ?s3 (0, 1) = Some (Some 1) \<and>
      proc (workers (shm ?s3) ! 0) = Some 4711 \<and>
      find_empty_worker_slot (shm ?s3) = None \<and> (\<forall>q. runs_in ?s3 0 q \<longrightarrow> q = 4711)"
    unfolding slot_of_process_def option.case by simp
  then show ?thesis using r by blast
qed

text \<open>
  Without that restriction the slots are not safe.  \<open>wait_for_worker_startup\<close> reads the generation at its entry, after the
  lock was released and the worker launched.  When the worker has finished and the slot was registered again by then, the
  waiting process takes the generation of the second registration for its own, finds its own worker stopped and marks the slot of the second,
  living worker as crashed: the next registration gets the slot of a running process.
\<close>

theorem late_wait_frees_live_slot:
  "\<exists>s my. worker_step\<^sup>*\<^sup>* (worker_start 1) s \<and> procs s 20 = Some (0, 2, Some my) \<and>
     proc (workers (shm s) ! 0) = Some 20 \<and> find_empty_worker_slot (shm s) = Some 0"
proof -
  let ?w = "ex_apply_worker 5"
  let ?slot = "\<lambda>w. \<lparr> supervisor = None, subscriptions_changed = False, workers = [w], signals = [] \<rparr>"
  let ?a = "?w\<lparr> generation := 1 \<rparr>" and ?b = "?w\<lparr> generation := 2 \<rparr>"
  let ?free = "?a\<lparr> worker_type := PGLOGICAL_WORKER_NONE, dboid := InvalidOid \<rparr>"
  let ?my = "\<lambda>g. \<lparr> my_slot = 0, my_generation = g \<rparr>"
  let ?S = "\<lambda>w n P W. \<lparr> shm = ?slot w, regs = (\<lambda>_. 0)(0 := n), procs = P, waits = W \<rparr>"
  let ?W = "[(0, 1) \<mapsto> None]" and ?W2 = "[(0, 1) \<mapsto> None, (0, 2) \<mapsto> None]"
  let ?W3 = "[(0, 1) \<mapsto> Some 2, (0, 2) \<mapsto> None]"
  let ?b' = "?b\<lparr> proc := Some 20 \<rparr>"
  note d = ex_apply_worker_def memset_worker_def set_worker_def
  have "worker_step (worker_start 1) (?S ?a 1 [10 \<mapsto> (0, 1, None)] ?W)"
    using worker_step.registered [of ?w "worker_start 1" 0 "?slot ?a" 10]
    by (simp add: register_slot_Inr ex_slot worker_start_def pglogical_worker_shmem_startup_def
        find_empty_worker_slot_def d)
  moreover have "worker_step (?S ?a 1 [10 \<mapsto> (0, 1, None)] ?W)
      (?S (?a\<lparr> proc := Some 10 \<rparr>) 1 [10 \<mapsto> (0, 1, Some (?my 1))] ?W)" (is "worker_step ?s _")
    using worker_step.attached [of ?s 10 0 1 "?my 1"] by (simp add: pglogical_worker_attach_def Let_def d)
  moreover have "worker_step (?S (?a\<lparr> proc := Some 10 \<rparr>) 1 [10 \<mapsto> (0, 1, Some (?my 1))] ?W)
      (?S ?free 1 Map.empty ?W)" (is "worker_step ?s _")
    using worker_step.exited [of ?s 10 0 1 "Some (?my 1)" 0 1 None]
    by (simp add: pglogical_worker_on_exit_def pglogical_worker_detach_def Let_def d)
  moreover have "worker_step (?S ?free 1 Map.empty ?W) (?S ?b 2 [20 \<mapsto> (0, 2, None)] ?W2)"
      (is "worker_step ?s _")
    using worker_step.registered [of ?w ?s 0 "?slot ?b" 20]
    by (simp add: register_slot_Inr find_empty_worker_slot_def d numeral_2_eq_2)
  moreover have "worker_step (?S ?b 2 [20 \<mapsto> (0, 2, None)] ?W2) (?S ?b' 2 [20 \<mapsto> (0, 2, Some (?my 2))] ?W2)"
      (is "worker_step ?s _")
    using worker_step.attached [of ?s 20 0 2 "?my 2"] by (simp add: pglogical_worker_attach_def Let_def d)
  moreover have "worker_step (?S ?b' 2 [20 \<mapsto> (0, 2, Some (?my 2))] ?W2)
      (?S ?b' 2 [20 \<mapsto> (0, 2, Some (?my 2))] ?W3)" (is "worker_step ?s _")
    using worker_step.waiting [of ?s 0 1] by (simp add: d fun_upd_twist)
  moreover have "worker_step (?S ?b' 2 [20 \<mapsto> (0, 2, Some (?my 2))] ?W3)
      (?S (?b'\<lparr> crashed_at := 1 \<rparr>) 2 [20 \<mapsto> (0, 2, Some (?my 2))] [(0, 2) \<mapsto> None])" (is "worker_step ?s ?last")
    using worker_step.marked [of ?s 0 1 2 1] by (simp add: mark_premature_exit_def d fun_upd_twist)
  ultimately have "worker_step\<^sup>*\<^sup>* (worker_start 1) ?last"
    by (meson converse_rtranclp_into_rtranclp rtranclp.rtrancl_refl)
  moreover have "procs ?last 20 = Some (0, 2, Some (?my 2)) \<and> proc (workers (shm ?last) ! 0) = Some 20 \<and>
      find_empty_worker_slot (shm ?last) = Some 0"
    by (simp add: find_empty_worker_slot_def)
  ultimately show ?thesis by blast
qed

text \<open>
  C31.  One transaction announces one subscription.  When a transaction changes several
  subscriptions, its commit tells the manager to look again, but only the apply worker of the first
  changed subscription is terminated.  When the transaction aborts nothing is sent and the request stays
  pending: the next transaction of the session cannot register its own subscription, and its commit
  terminates the apply worker of the subscription that the aborted transaction had changed.
\<close>

theorem subscription_changes_announced:
  assumes "\<not> xacthook_signal_workers h" "OidIsValid s1"
  shows "(\<exists>h' ctx'. CallXactCallbacks db XACT_EVENT_COMMIT (fold subscription_changed (s1 # ss) h, ctx) =
            (h', ctx') \<and> \<not> xacthook_signal_workers h' \<and> subscriptions_changed ctx' \<and>
          filter is_SIGTERM (signals ctx') = filter is_SIGTERM (signals ctx) @
            (case worker_at (pglogical_apply_find db s1 ctx) ctx of
               None \<Rightarrow> []
             | Some w \<Rightarrow> (case proc w of None \<Rightarrow> [] | Some pid \<Rightarrow> [SIGTERM_to pid]))) \<and>
    CallXactCallbacks db XACT_EVENT_ABORT (fold subscription_changed (s1 # ss) h, ctx) =
      (fold subscription_changed (s1 # ss) h, ctx) \<and>
    fold subscription_changed (s2 # ss') (fold subscription_changed (s1 # ss) h) =
      fold subscription_changed (s1 # ss) h"
proof -
  let ?h = "\<lparr> xacthook_signal_workers = True, xact_callbacks = Some s1 # xact_callbacks h \<rparr>"
  have h: "fold subscription_changed (s1 # ss) h = ?h"
    using assms changed_again [of ?h] by (simp add: subscription_changed_def)
  obtain ctx' where c: "signal_worker_xact_callback db XACT_EVENT_COMMIT (Some s1) (?h, ctx) =
      (?h\<lparr> xacthook_signal_workers := False \<rparr>, ctx')" "subscriptions_changed ctx'"
      "filter is_SIGTERM (signals ctx') = filter is_SIGTERM (signals ctx) @
        (case worker_at (pglogical_apply_find db s1 ctx) ctx of
           None \<Rightarrow> [] | Some w \<Rightarrow> (case proc w of None \<Rightarrow> [] | Some pid \<Rightarrow> [SIGTERM_to pid]))"
    using callback_commit [of ?h db s1 ctx] by auto
  moreover have "CallXactCallbacks db XACT_EVENT_ABORT (?h, ctx) = (?h, ctx)"
    by (simp only: CallXactCallbacks_def callbacks_abort XactEvent.distinct simp_thms)
  ultimately show ?thesis
    unfolding h using changed_again [of ?h "s2 # ss'"]
    by (simp add: CallXactCallbacks_def callbacks_idle)
qed

theorem subscription_changes_announced_witness:
  "\<exists>h' ctx'. CallXactCallbacks 16384 XACT_EVENT_COMMIT
      (fold subscription_changed [5, 6] \<lparr> xacthook_signal_workers = False, xact_callbacks = [] \<rparr>,
       \<lparr> supervisor = None, subscriptions_changed = False,
         workers = [(ex_apply_worker 5)\<lparr> proc := Some 100 \<rparr>, (ex_apply_worker 6)\<lparr> proc := Some 200 \<rparr>],
         signals = [] \<rparr>) = (h', ctx') \<and>
    filter is_SIGTERM (signals ctx') = [SIGTERM_to 100]"
  using subscription_changes_announced [of
      "\<lparr> xacthook_signal_workers = False, xact_callbacks = [] \<rparr>" 5 16384 "[6]"]
  by (fastforce simp: pglogical_apply_find_def worker_at_def ex_apply_worker_def)

end
