(* ===== verification/Pgl_Manager.thy ===== *)
theory Pgl_Manager
  imports Pgl_Worker Pgl_Sequences
begin

text \<open>
  The processes that keep the workers running: the manager of a database, \<open>src/pglogical_manager.c\<close>, which
  starts and stops the apply workers of its subscriptions, and the supervisor of the server,
  \<open>start_manager_workers\<close> and \<open>pglogical_supervisor_main\<close> of \<open>src/pglogical.c\<close>, which starts the managers.  The manager reads the
  slots of its workers without a lock between two registrations; they are taken as they were at the
  start of the loop over the subscriptions.  Each registration has its own environment \<open>B\<close>.
\<close>

section \<open>Managing the apply workers\<close>

abbreviation INITIAL_SLEEP :: int where "INITIAL_SLEEP \<equiv> 10000"
abbreviation MAX_SLEEP :: int where "MAX_SLEEP \<equiv> 180000"
abbreviation MIN_SLEEP :: int where "MIN_SLEEP \<equiv> 5000"

text \<open>
  The search for the worker of a subscription in the list of slots.  The variable \<open>appl\<close> holds the
  slot looked at last; it is not reset when the search ends without a match.
\<close>

fun search_workers ::
  "PGLogicalContext \<Rightarrow> oid \<Rightarrow> nat list \<Rightarrow> nat option \<Rightarrow> nat option \<times> nat list" where
  "search_workers ctx subid [] appl = (appl, [])"
| "search_workers ctx subid (slot # slots) appl =
     (if w_subid (workers ctx ! slot) = subid then (Some slot, slots)
      else let (a, rest) = search_workers ctx subid slots (Some slot) in (a, slot # rest))"

definition TimestampTzPlusMilliseconds :: "timestamptz \<Rightarrow> int \<Rightarrow> timestamptz" where
  "TimestampTzPlusMilliseconds tz ms = tz + of_int (ms * 1000)"

definition check_subscription ::
  "PGLogicalContext \<Rightarrow> timestamptz \<Rightarrow> PGLogicalSubscription
     \<Rightarrow> nat list \<times> PGLogicalSubscription list \<times> bool \<Rightarrow> nat list \<times> PGLogicalSubscription list \<times> bool" where
  "check_subscription ctx now sub = (\<lambda>(slots, subs_to_start, ret).
     if \<not> sub_enabled sub then (slots, subs_to_start, ret)
     else let (appl, slots) = search_workers ctx (sub_id sub) slots None in
          if pglogical_worker_running (worker_at appl ctx) then (slots, subs_to_start, ret)
          else case worker_at appl ctx of
                 Some w \<Rightarrow>
                   if crashed_at w \<noteq> 0
                   then if sint (TimestampTzPlusMilliseconds (crashed_at w) MIN_SLEEP) > sint now
                        then (slots, subs_to_start, False)
                        else (slots, subs_to_start @ [sub], ret)
                   else (slots, subs_to_start, False)
               | None \<Rightarrow> (slots, subs_to_start @ [sub], ret))"

definition new_apply_worker :: "oid \<Rightarrow> PGLogicalSubscription \<Rightarrow> PGLogicalWorker" where
  "new_apply_worker mydb sub =
     memset_worker\<lparr> worker_type := PGLOGICAL_WORKER_APPLY, dboid := mydb, w_subid := sub_id sub,
                    sync_pending := True, replay_stop_lsn := 0 \<rparr>"

fun start_workers ::
  "(PGLogicalWorker \<Rightarrow> bgw_env) \<Rightarrow> PGLogicalWorker list \<Rightarrow> PGLogicalContext
     \<Rightarrow> ((pg_error \<times> PGLogicalContext) + PGLogicalContext) option" where
  "start_workers B [] ctx = Some (Inr ctx)"
| "start_workers B (w # ws) ctx =
     (case pglogical_worker_register (B w) w ctx of
        None \<Rightarrow> None
      | Some (Inl e) \<Rightarrow> Some (Inl e)
      | Some (Inr (slot, ctx)) \<Rightarrow> start_workers B ws ctx)"

definition kill_remaining :: "nat list \<Rightarrow> PGLogicalContext \<Rightarrow> PGLogicalContext" where
  "kill_remaining slots ctx =
     fold (\<lambda>slot ctx. clean_crashed_slot slot (pglogical_worker_kill (Some slot) ctx)) slots ctx"

definition manage_apply_workers ::
  "(PGLogicalWorker \<Rightarrow> bgw_env) \<Rightarrow> oid \<Rightarrow> timestamptz \<Rightarrow> node_catalog \<Rightarrow> PGLogicalContext
     \<Rightarrow> ((pg_error \<times> PGLogicalContext) + (bool \<times> PGLogicalContext)) option" where
  "manage_apply_workers B mydb now cat ctx =
     (let slots = pglogical_apply_find_all mydb ctx in
      case rbind (get_local_node True cat) (\<lambda>node.
             case node of
               None \<Rightarrow> proc_exit 0
             | Some ln \<Rightarrow> get_node_subscriptions (node_id (ln_node ln)) False cat) of
        Inl e \<Rightarrow> Some (Inl (e, ctx))
      | Inr subscriptions \<Rightarrow>
          (case fold (check_subscription ctx now) subscriptions (slots, [], True) of
             (slots, subs_to_start, ret) \<Rightarrow>
               (case start_workers B (map (new_apply_worker mydb) subs_to_start) ctx of
                  None \<Rightarrow> None
                | Some (Inl e) \<Rightarrow> Some (Inl e)
                | Some (Inr ctx) \<Rightarrow> Some (Inr (ret, kill_remaining slots ctx)))))"

section \<open>The manager's loop\<close>

text \<open>One turn of the loop: the new timer, how long to wait, and what the turn changed.\<close>

definition next_sleep_timer :: "bool \<Rightarrow> int \<Rightarrow> int" where
  "next_sleep_timer all_synchronized sleep_timer =
     (if all_synchronized then min (sleep_timer * 2) MAX_SLEEP else max (sleep_timer div 2) MIN_SLEEP)"

definition manager_turn ::
  "'j seq_env \<Rightarrow> (PGLogicalWorker \<Rightarrow> bgw_env) \<Rightarrow> oid \<Rightarrow> timestamptz \<Rightarrow> node_catalog
     \<Rightarrow> int \<times> provider_db \<times> QueueTuple list \<times> PGLogicalContext
     \<Rightarrow> ((pg_error \<times> PGLogicalContext) +
          (int \<times> int \<times> provider_db \<times> QueueTuple list \<times> PGLogicalContext)) option" where
  "manager_turn S B mydb now cat = (\<lambda>(sleep_timer, db, queue, ctx).
     case synchronize_sequences S cat db queue of
       Inl e \<Rightarrow> Some (Inl (e, ctx))
     | Inr (synced, db, queue) \<Rightarrow>
         let sleep_timer = next_sleep_timer synced sleep_timer in
         (case manage_apply_workers B mydb now cat ctx of
            None \<Rightarrow> None
          | Some (Inl e) \<Rightarrow> Some (Inl e)
          | Some (Inr (processed_all, ctx)) \<Rightarrow>
              Some (Inr (if processed_all then sleep_timer else MIN_SLEEP, sleep_timer, db, queue, ctx))))"

section \<open>The supervisor\<close>

text \<open>A row of \<open>pg_database\<close>: its oid and whether it allows connections.\<close>

fun start_manager_workers ::
  "(PGLogicalWorker \<Rightarrow> bgw_env) \<Rightarrow> (oid \<times> bool) list \<Rightarrow> PGLogicalContext
     \<Rightarrow> ((pg_error \<times> PGLogicalContext) + PGLogicalContext) option" where
  "start_manager_workers B [] ctx = Some (Inr ctx)"
| "start_manager_workers B ((db, datallowconn) # dbs) ctx =
     (if \<not> datallowconn then start_manager_workers B dbs ctx
      else if pglogical_worker_running (worker_at (pglogical_manager_find db ctx) ctx)
      then start_manager_workers B dbs ctx
      else let w = memset_worker\<lparr> worker_type := PGLOGICAL_WORKER_MANAGER, dboid := db \<rparr> in
           (case pglogical_worker_register (B w) w ctx of
              None \<Rightarrow> None
            | Some (Inl e) \<Rightarrow> Some (Inl e)
            | Some (Inr (slot, ctx)) \<Rightarrow> start_manager_workers B dbs ctx))"

text \<open>The start of the supervisor and one turn of its loop.\<close>

definition supervisor_start :: "nat \<Rightarrow> PGLogicalContext \<Rightarrow> PGLogicalContext" where
  "supervisor_start pid ctx = ctx\<lparr> supervisor := Some pid, subscriptions_changed := True \<rparr>"

definition supervisor_turn ::
  "(PGLogicalWorker \<Rightarrow> bgw_env) \<Rightarrow> (oid \<times> bool) list \<Rightarrow> PGLogicalContext
     \<Rightarrow> ((pg_error \<times> PGLogicalContext) + PGLogicalContext) option" where
  "supervisor_turn B dbs ctx =
     (if subscriptions_changed ctx
      then start_manager_workers B dbs (ctx\<lparr> subscriptions_changed := False \<rparr>)
      else Some (Inr ctx))"

section \<open>Examples\<close>

text \<open>A worker that starts at once: at the first look it has attached as the process \<open>pid\<close>.\<close>

definition starts_at_once :: "nat \<Rightarrow> nat \<Rightarrow> bgw_env" where
  "starts_at_once pid slot = \<lparr> RegisterDynamicBackgroundWorker = (\<lambda>_ _. True), register_now = 1, launched = id,
     look = (\<lambda>n ctx. \<lparr> lk_sigterm = False, lk_status = BGWH_STARTED,
       lk_ctx = set_worker slot (\<lambda>w. w\<lparr> proc := Some pid \<rparr>) ctx, lk_now = 1,
       lk_postmaster_death = False \<rparr>) \<rparr>"

definition ex_subtuple :: "oid \<Rightarrow> string \<Rightarrow> SubscriptionTuple" where
  "ex_subtuple i n = \<lparr> st_id = i, st_name = n, st_origin = 1, st_target = 2, st_origin_if = 11,
     st_target_if = 12, st_enabled = True, st_slot_name = n, st_replication_sets = None,
     st_forward_origins = None, st_apply_delay = None \<rparr>"

definition ex_two_subs :: "oid \<Rightarrow> oid \<Rightarrow> node_catalog" where
  "ex_two_subs i j = ex_catalog\<lparr> cat_subscription := [ex_subtuple i ''a'', ex_subtuple j ''b''] \<rparr>"

definition ex_running :: PGLogicalContext where
  "ex_running = \<lparr> supervisor = None, subscriptions_changed = False,
     workers = [(ex_apply_worker 6)\<lparr> proc := Some 200 \<rparr>, memset_worker], signals = [] \<rparr>"

section \<open>Lemmas\<close>

lemma search_no_match:
  "\<forall>w \<in> set slots. w_subid (workers ctx ! w) \<noteq> subid \<Longrightarrow>
   search_workers ctx subid slots a = (if slots = [] then a else Some (last slots), slots)"
  by (induction slots arbitrary: a) auto

lemma search_match:
  "w_subid (workers ctx ! w) = subid \<Longrightarrow> \<forall>v \<in> set us. w_subid (workers ctx ! v) \<noteq> subid \<Longrightarrow>
   search_workers ctx subid (us @ w # vs) a = (Some w, us @ vs)"
  by (induction us arbitrary: a) auto

lemma next_sleep_bounds:
  "MIN_SLEEP \<le> t \<Longrightarrow> t \<le> MAX_SLEEP \<Longrightarrow>
   MIN_SLEEP \<le> next_sleep_timer b t \<and> next_sleep_timer b t \<le> MAX_SLEEP"
  by (auto simp: next_sleep_timer_def)

lemma find_all_in: "w \<in> set (pglogical_apply_find_all db ctx) \<Longrightarrow> w < length (workers ctx)"
  by (simp add: pglogical_apply_find_all_def)

text \<open>The context changes that a registration makes when the worker starts at once.\<close>

lemma register_at_once:
  assumes "find_empty_worker_slot ctx = Some slot"
  shows "pglogical_worker_register (starts_at_once pid slot) w ctx =
    Some (Inr (slot, set_worker slot (\<lambda>old. w\<lparr> generation := generation old + 1, crashed_at := 0,
                                              proc := Some pid \<rparr>) ctx))"
proof -
  have r: "register_slot w ctx = Inr (slot, set_worker slot
      (\<lambda>old. w\<lparr> generation := generation old + 1, crashed_at := 0, proc := None \<rparr>) ctx)"
    using assms by (simp add: register_slot_Inr)
  show ?thesis
    using find_empty_Some [OF assms]
    by (simp add: pglogical_worker_register_def r wait_for_worker_startup_def startup_loop.simps starts_at_once_def
        pglogical_worker_running_def set_worker_twice Let_def)
qed

text \<open>
  A slot that a crashed worker of a dropped subscription has left is used for the next worker and
  is still on the manager's list: the worker just started there is terminated at once.
\<close>

lemma new_worker_killed:
  assumes "get_local_node True cat = Inr (Some ln)"
    "get_node_subscriptions (node_id (ln_node ln)) False cat = Inr [sub]" "sub_enabled sub"
    "pglogical_apply_find_all mydb ctx = [slot]" "w_subid (workers ctx ! slot) \<noteq> sub_id sub"
    "find_empty_worker_slot ctx = Some slot" "proc (workers ctx ! slot) = None"
    "crashed_at (workers ctx ! slot) \<noteq> 0"
    "sint (TimestampTzPlusMilliseconds (crashed_at (workers ctx ! slot)) MIN_SLEEP) \<le> sint now"
    "B = (\<lambda>_. starts_at_once pid slot)"
  shows "\<exists>ctx'. manage_apply_workers B mydb now cat ctx = Some (Inr (True, ctx')) \<and>
    w_subid (workers ctx' ! slot) = sub_id sub \<and> proc (workers ctx' ! slot) = Some pid \<and>
    signals ctx' = signals ctx @ [SIGTERM_to pid]"
  using assms find_empty_Some [OF assms(6)]
  by (simp add: manage_apply_workers_def check_subscription_def search_no_match worker_at_def
      pglogical_worker_running_def register_at_once kill_remaining_def clean_crashed_slot_def
      kill_signals new_apply_worker_def memset_worker_def)

section \<open>Properties\<close>

text \<open>
  Whether an enabled subscription gets its worker depends on the order of the catalog.  Two subscriptions
  are enabled and only the second has a worker, which is running.  When the catalog lists the
  second one first, the manager starts a worker for the first.  When it lists the first one first,
  the search for its worker ends on the worker of the other subscription and takes it for its own: nothing
  is started, no slot changes, and the manager reports that everything is processed, at every turn
  for as long as that worker runs.
\<close>

theorem manager_depends_on_order:
  assumes "get_local_node True cat = Inr (Some ln)"
    and "sub_enabled s1" "sub_enabled s2" "sub_id s1 \<noteq> sub_id s2"
    and "pglogical_apply_find_all mydb ctx = [slot]" "w_subid (workers ctx ! slot) = sub_id s2"
    and "proc (workers ctx ! slot) \<noteq> None"
  shows "(get_node_subscriptions (node_id (ln_node ln)) False cat = Inr [s1, s2] \<longrightarrow>
            manage_apply_workers B mydb now cat ctx = Some (Inr (True, ctx))) \<and>
    (get_node_subscriptions (node_id (ln_node ln)) False cat = Inr [s2, s1] \<longrightarrow>
            manage_apply_workers B mydb now cat ctx =
              (case pglogical_worker_register (B (new_apply_worker mydb s1)) (new_apply_worker mydb s1) ctx of
                 None \<Rightarrow> None
               | Some (Inl e) \<Rightarrow> Some (Inl e)
               | Some (Inr (new_slot, ctx')) \<Rightarrow> Some (Inr (True, ctx'))))"
  using assms
  by (auto simp: manage_apply_workers_def check_subscription_def worker_at_def kill_remaining_def
      pglogical_worker_running_def split: option.splits sum.splits)

theorem manager_depends_on_order_witness:
  "manage_apply_workers (\<lambda>_. starts_at_once 300 1) 16384 1 (ex_two_subs 5 6) ex_running = Some (Inr (True, ex_running)) \<and>
   (\<exists>ctx'. manage_apply_workers (\<lambda>_. starts_at_once 300 1) 16384 1 (ex_two_subs 6 5) ex_running =
      Some (Inr (True, ctx')) \<and> proc (workers ctx' ! 1) = Some 300)"
proof -
  obtain ln where ln: "get_local_node True (ex_two_subs i j) = Inr (Some ln)"
      "node_id (ln_node ln) = 2" for i j
    by (simp add: ex_two_subs_def ex_catalog_def get_local_node_def get_node_def ex_node_def ex_if_def
        get_node_interface_def)
  obtain s5 s6 where s: "subscription_fromtuple (ex_subtuple 5 n) (ex_two_subs i j) = Inr (s5 n)"
      "subscription_fromtuple (ex_subtuple 6 n) (ex_two_subs i j) = Inr (s6 n)"
      "sub_enabled (s5 n)" "sub_enabled (s6 n)" "sub_id (s5 n) = 5" "sub_id (s6 n) = 6" for n i j
    by (simp add: subscription_fromtuple_def ex_two_subs_def ex_catalog_def ex_subtuple_def get_node_def
        get_node_interface_def ex_node_def ex_if_def)
  have subs: "get_node_subscriptions 2 False (ex_two_subs 5 6) = Inr [s5 ''a'', s6 ''b'']"
    "get_node_subscriptions 2 False (ex_two_subs 6 5) = Inr [s6 ''a'', s5 ''b'']"
    using s(1,2) by (simp_all add: get_node_subscriptions_def ex_two_subs_def ex_subtuple_def)
  have ctx: "pglogical_apply_find_all 16384 ex_running = [0]" "w_subid (workers ex_running ! 0) = 6"
    "proc (workers ex_running ! 0) \<noteq> None" "find_empty_worker_slot ex_running = Some 1"
    "length (workers ex_running) = 2"
    by (simp_all add: pglogical_apply_find_all_def ex_running_def ex_apply_worker_def memset_worker_def
        find_empty_worker_slot_def upt_rec)
  have "sub_id (s5 n) \<noteq> sub_id (s6 m)" "w_subid (workers ex_running ! 0) = sub_id (s6 m)" for n m
    using s(5,6) ctx(2) by simp_all
  note order = manager_depends_on_order [OF ln(1) s(3,4) this(1) ctx(1) this(2) ctx(3), unfolded ln(2)]
  have "manage_apply_workers (\<lambda>_. starts_at_once 300 1) 16384 1 (ex_two_subs 5 6) ex_running =
      Some (Inr (True, ex_running))"
    by (rule order [THEN conjunct1, rule_format, OF subs(1)])
  moreover have "\<exists>ctx'. manage_apply_workers (\<lambda>_. starts_at_once 300 1) 16384 1 (ex_two_subs 6 5)
      ex_running = Some (Inr (True, ctx')) \<and> proc (workers ctx' ! 1) = Some 300"
    using order [THEN conjunct2, rule_format, OF subs(2), of "\<lambda>_. starts_at_once 300 1" 1]
    by (simp add: register_at_once [OF ctx(4)] ctx(5) del: One_nat_def)
  ultimately show ?thesis by blast
qed

end
