(* ===== verification/Pgl_Rows.thy ===== *)
theory Pgl_Rows
  imports Pgl_Conflict
begin

text \<open>
  The changes of rows by the apply worker, \<open>src/pglogical_apply.c\<close>: what the INSERT, UPDATE and DELETE handlers do
  between opening and closing the table.  The executor is PostgreSQL's: triggers, constraints, default
  expressions, index insertion and the numbering of rows are fields of the parameter \<open>R\<close>, conflict search
  and resolution are those of the conflict theory.  A heap update puts the new version where the old one
  was.  Row triggers change the tuple they get or suppress the change; their effects on other tables are
  not part of the model.
\<close>

section \<open>The executor\<close>

text \<open>\<open>InitResultRelInfo\<close> takes the trigger description from the table whether or not it is asked for.\<close>

record trigger_desc =
  trig_insert_before_row :: bool
  trig_update_before_row :: bool

datatype after_event =
    ARInsert heap_tuple
  | ARUpdate nat heap_tuple
  | ARDelete nat

record executor =
  am :: index_am
  others :: interference
  build_column_default :: "relation \<Rightarrow> nat \<Rightarrow> datum option result option"
  trigdesc :: "relation \<Rightarrow> trigger_desc option"
  ExecBRInsertTriggers :: "relation \<Rightarrow> heap_tuple \<Rightarrow> heap_tuple option result"
  ExecBRUpdateTriggers :: "relation \<Rightarrow> nat \<Rightarrow> heap_tuple \<Rightarrow> heap_tuple option result"
  ExecBRDeleteTriggers :: "relation \<Rightarrow> nat \<Rightarrow> bool result"
  has_constr :: "relation \<Rightarrow> bool"
  ExecConstraints :: "relation \<Rightarrow> heap_tuple \<Rightarrow> unit result"
  ri_NumIndices :: "relation \<Rightarrow> nat"
  ExecInsertIndexTuples :: "relation \<Rightarrow> heap_row list \<Rightarrow> heap_row \<Rightarrow> oid list result"
  HeapTupleIsHeapOnly :: "heap_row \<Rightarrow> heap_row \<Rightarrow> bool"
  new_tid :: "heap_row list \<Rightarrow> nat"
  AfterTriggerEndQuery :: "relation \<Rightarrow> after_event list \<Rightarrow> unit result"
  quoted_name :: "relation \<Rightarrow> string"

definition heap_form_tuple :: "tupledesc \<Rightarrow> PGLogicalTupleData \<Rightarrow> heap_tuple" where
  "heap_form_tuple desc tup = map (\<lambda>i. if tnulls tup i then None else Some (tvalues tup i)) [0..<length desc]"

definition heap_modify_tuple :: "tupledesc \<Rightarrow> heap_tuple \<Rightarrow> PGLogicalTupleData \<Rightarrow> heap_tuple" where
  "heap_modify_tuple desc old tup =
     map (\<lambda>i. if tchanged tup i then (if tnulls tup i then None else Some (tvalues tup i))
              else heap_deform_tuple desc old ! i) [0..<length desc]"

definition simple_heap_update :: "nat \<Rightarrow> heap_row \<Rightarrow> heap_row list \<Rightarrow> heap_row list" where
  "simple_heap_update oldtid row rows = map (\<lambda>r. if tid r = oldtid then row else r) rows"

definition simple_heap_delete :: "nat \<Rightarrow> heap_row list \<Rightarrow> heap_row list" where
  "simple_heap_delete oldtid rows = filter (\<lambda>r. tid r \<noteq> oldtid) rows"

section \<open>Helpers of the handlers\<close>

definition UserTableUpdateOpenIndexes :: "executor \<Rightarrow> relation \<Rightarrow> heap_row list \<Rightarrow> heap_row \<Rightarrow> unit result" where
  "UserTableUpdateOpenIndexes R rel rows row =
     (if ri_NumIndices R rel > 0
      then rbind (ExecInsertIndexTuples R rel rows row) (\<lambda>recheckIndexes.
           if recheckIndexes \<noteq> []
           then ereport ERRCODE_FEATURE_NOT_SUPPORTED ''pglogical doesn't support index rechecks''
           else Inr ())
      else Inr ())"

text \<open>\<open>physatt_in_attmap\<close> of this file: whether a column of the table comes from the provider.\<close>

definition physatt_is_mapped :: "PGLogicalRelation \<Rightarrow> nat \<Rightarrow> bool" where
  "physatt_is_mapped rel attid = list_ex (\<lambda>a. a = attid) (take (natts rel) (attmap rel))"

fun fill_defaults ::
  "executor \<Rightarrow> PGLogicalRelation \<Rightarrow> relation \<Rightarrow> nat list \<Rightarrow> PGLogicalTupleData \<Rightarrow> PGLogicalTupleData result" where
  "fill_defaults R rel lrel [] tuple = Inr tuple"
| "fill_defaults R rel lrel (att # atts) tuple =
     (if attisdropped (rd_att lrel ! att) \<or> physatt_is_mapped rel att then fill_defaults R rel lrel atts tuple
      else case build_column_default R lrel (att + 1) of
             None \<Rightarrow> fill_defaults R rel lrel atts tuple
           | Some q \<Rightarrow> rbind q (\<lambda>v. fill_defaults R rel lrel atts
               (tuple\<lparr> tvalues := (tvalues tuple)(att := (case v of None \<Rightarrow> DatumByVal 0 | Some d \<Rightarrow> d)),
                       tnulls := (tnulls tuple)(att := (v = None)) \<rparr>)))"

definition fill_missing_defaults ::
  "executor \<Rightarrow> PGLogicalRelation \<Rightarrow> relation \<Rightarrow> PGLogicalTupleData \<Rightarrow> PGLogicalTupleData result" where
  "fill_missing_defaults R rel lrel tuple =
     (if length (rd_att lrel) = natts rel then Inr tuple
      else fill_defaults R rel lrel [0..<length (rd_att lrel)] tuple)"

text \<open>The BEFORE ROW triggers of the result relation, when it has any of the kind asked for.\<close>

definition before_row ::
  "(trigger_desc \<Rightarrow> bool) \<Rightarrow> executor \<Rightarrow> relation \<Rightarrow> (heap_tuple \<Rightarrow> heap_tuple option result)
     \<Rightarrow> heap_tuple \<Rightarrow> heap_tuple option result" where
  "before_row kind R rel fire tup =
     (case trigdesc R rel of
        None \<Rightarrow> Inr (Some tup)
      | Some d \<Rightarrow> if kind d then fire tup else Inr (Some tup))"

definition check_constraints :: "executor \<Rightarrow> relation \<Rightarrow> heap_tuple \<Rightarrow> unit result" where
  "check_constraints R rel tup = (if has_constr R rel then ExecConstraints R rel tup else Inr ())"

section \<open>The changes\<close>

text \<open>
  The rows afterwards, the lines for the server log, and the tuple in the slot, or \<open>None\<close> when a trigger
  suppressed the change and the handler returned early.
\<close>

record row_change =
  rc_rows :: "heap_row list"
  rc_log :: "string list"
  rc_slot :: "heap_tuple option"

text \<open>\<open>finish_apply_exec_state\<close> fires the queued AFTER triggers.\<close>

definition finish_change ::
  "executor \<Rightarrow> relation \<Rightarrow> after_event list \<Rightarrow> row_change \<Rightarrow> row_change result" where
  "finish_change R rel events change = rbind (AfterTriggerEndQuery R rel events) (\<lambda>_. Inr change)"

text \<open>The update of a row found locally: constraints, heap, indexes and the AFTER event.\<close>

definition update_found ::
  "executor \<Rightarrow> relation \<Rightarrow> transaction_id \<Rightarrow> heap_row \<Rightarrow> heap_tuple \<Rightarrow> heap_tuple \<Rightarrow> string list
     \<Rightarrow> heap_row list \<Rightarrow> row_change result" where
  "update_found R rel top_xid local slot applytuple log rows =
     rbind (check_constraints R rel slot) (\<lambda>_.
     let row = \<lparr> tid = new_tid R rows, t_xmin = top_xid, t_data = slot \<rparr>;
         rows' = simple_heap_update (tid local) row rows
     in rbind (if HeapTupleIsHeapOnly R local row then Inr ()
               else UserTableUpdateOpenIndexes R rel rows' row) (\<lambda>_.
        finish_change R rel [ARUpdate (tid local) applytuple]
          \<lparr> rc_rows = rows', rc_log = log, rc_slot = Some slot \<rparr>))"

text \<open>
  A conflicting INSERT.  When a trigger suppresses the update the code cleans up but goes on with the
  slot, which is NULL by then.
\<close>

definition insert_conflict ::
  "executor \<Rightarrow> conflict_env \<Rightarrow> relation \<Rightarrow> transaction_id \<Rightarrow> heap_row \<Rightarrow> heap_tuple \<Rightarrow> heap_row list
     \<Rightarrow> row_change result" where
  "insert_conflict R C rel top_xid local remotetuple rows =
     rbind (try_resolve_conflict C local remotetuple) (\<lambda>(appl, applytuple, resolution).
     let log = [pglogical_report_conflict (quoted_name R) CONFLICT_INSERT_INSERT rel resolution]
     in if appl
        then rbind (before_row trig_update_before_row R rel (ExecBRUpdateTriggers R rel (tid local))
                      applytuple) (\<lambda>slot.
             case slot of
               None \<Rightarrow> rbind (AfterTriggerEndQuery R rel []) (\<lambda>_. Inl NullDereference)
             | Some tup \<Rightarrow> update_found R rel top_xid local tup applytuple log rows)
        else finish_change R rel [] \<lparr> rc_rows = rows, rc_log = log, rc_slot = Some remotetuple \<rparr>)"

definition insert_new ::
  "executor \<Rightarrow> relation \<Rightarrow> transaction_id \<Rightarrow> heap_tuple \<Rightarrow> heap_row list \<Rightarrow> row_change result" where
  "insert_new R rel top_xid remotetuple rows =
     rbind (check_constraints R rel remotetuple) (\<lambda>_.
     let row = \<lparr> tid = new_tid R rows, t_xmin = top_xid, t_data = remotetuple \<rparr>; rows' = rows @ [row]
     in rbind (UserTableUpdateOpenIndexes R rel rows' row) (\<lambda>_.
        finish_change R rel [ARInsert remotetuple]
          \<lparr> rc_rows = rows', rc_log = [], rc_slot = Some remotetuple \<rparr>))"

definition insert_row ::
  "executor \<Rightarrow> conflict_env \<Rightarrow> PGLogicalRelation \<Rightarrow> transaction_id \<Rightarrow> PGLogicalTupleData \<Rightarrow> nat \<Rightarrow> heap_row list
     \<Rightarrow> (row_change \<times> nat) result option" where
  "insert_row R C rel top_xid newtup now rows =
     (let lrel = the (ent_rel rel) in
      obind (pglogical_tuple_find_conflict (am R) (others R) lrel newtup now rows) (\<lambda>(conflicts, now, rows).
      oreturn (rbind (fill_missing_defaults R rel lrel newtup) (\<lambda>newtup.
        rbind (before_row trig_insert_before_row R lrel (ExecBRInsertTriggers R lrel)
                 (heap_form_tuple (rd_att lrel) newtup)) (\<lambda>slot.
        rbind (case slot of
                 None \<Rightarrow> finish_change R lrel [] \<lparr> rc_rows = rows, rc_log = [], rc_slot = None \<rparr>
               | Some remotetuple \<Rightarrow>
                   (case conflicts of
                      Some (_, local) \<Rightarrow> insert_conflict R C lrel top_xid local remotetuple rows
                    | None \<Rightarrow> insert_new R lrel top_xid remotetuple rows)) (\<lambda>change.
        Inr (change, now)))))))"

text \<open>
  An UPDATE: a row last written by another transaction of another origin is a conflict.
\<close>

definition update_conflict ::
  "executor \<Rightarrow> conflict_env \<Rightarrow> relation \<Rightarrow> transaction_id \<Rightarrow> heap_row \<Rightarrow> heap_tuple
     \<Rightarrow> (bool \<times> heap_tuple \<times> string list) result" where
  "update_conflict R C rel top_xid local remotetuple =
     (case get_tuple_origin C local of
        (_, xmin, local_origin, _) \<Rightarrow>
          if xmin \<noteq> top_xid \<and> local_origin \<noteq> replorigin_session_origin C
          then rbind (try_resolve_conflict C local remotetuple) (\<lambda>(appl, applytuple, resolution).
               Inr (appl, applytuple,
                 [pglogical_report_conflict (quoted_name R) CONFLICT_UPDATE_UPDATE rel resolution]))
          else Inr (True, remotetuple, []))"

definition update_row ::
  "executor \<Rightarrow> conflict_env \<Rightarrow> PGLogicalRelation \<Rightarrow> transaction_id \<Rightarrow> PGLogicalTupleData option
     \<Rightarrow> PGLogicalTupleData \<Rightarrow> nat \<Rightarrow> heap_row list \<Rightarrow> (row_change \<times> nat) result option" where
  "update_row R C rel top_xid oldtup newtup now rows =
     (let lrel = the (ent_rel rel);
          searchtup = (case oldtup of None \<Rightarrow> newtup | Some t \<Rightarrow> t) in
      obind (pglogical_tuple_find_replidx (am R) (others R) lrel searchtup now rows) (\<lambda>(found, now, rows).
      oreturn (rbind (case found of
          None \<Rightarrow> finish_change R lrel []
            \<lparr> rc_rows = rows,
              rc_log = [pglogical_report_conflict (quoted_name R) CONFLICT_UPDATE_DELETE lrel
                          PGLogicalResolution_Skip],
              rc_slot = Some [] \<rparr>
        | Some local \<Rightarrow>
            rbind (fill_missing_defaults R rel lrel newtup) (\<lambda>newtup.
            rbind (before_row trig_update_before_row R lrel (ExecBRUpdateTriggers R lrel (tid local))
                     (heap_modify_tuple (rd_att lrel) (t_data local) newtup)) (\<lambda>slot.
            case slot of
              None \<Rightarrow> finish_change R lrel [] \<lparr> rc_rows = rows, rc_log = [], rc_slot = None \<rparr>
            | Some remotetuple \<Rightarrow>
                rbind (update_conflict R C lrel top_xid local remotetuple) (\<lambda>(appl, applytuple, log).
                if appl then update_found R lrel top_xid local applytuple applytuple log rows
                else finish_change R lrel [] \<lparr> rc_rows = rows, rc_log = log, rc_slot = Some applytuple \<rparr>))))
        (\<lambda>change. Inr (change, now)))))"

text \<open>A DELETE; the code asks for BEFORE ROW UPDATE triggers before it fires those for DELETE.\<close>

definition delete_row ::
  "executor \<Rightarrow> PGLogicalRelation \<Rightarrow> PGLogicalTupleData \<Rightarrow> nat \<Rightarrow> heap_row list
     \<Rightarrow> (row_change \<times> nat) result option" where
  "delete_row R rel oldtup now rows =
     (let lrel = the (ent_rel rel) in
      obind (pglogical_tuple_find_replidx (am R) (others R) lrel oldtup now rows) (\<lambda>(found, now, rows).
      oreturn (rbind (case found of
          None \<Rightarrow> finish_change R lrel []
            \<lparr> rc_rows = rows,
              rc_log = [pglogical_report_conflict (quoted_name R) CONFLICT_DELETE_DELETE lrel
                          PGLogicalResolution_Skip],
              rc_slot = Some [] \<rparr>
        | Some local \<Rightarrow>
            rbind (case trigdesc R lrel of
                     None \<Rightarrow> Inr True
                   | Some d \<Rightarrow> if trig_update_before_row d then ExecBRDeleteTriggers R lrel (tid local)
                               else Inr True) (\<lambda>dodelete.
            if \<not> dodelete
            then finish_change R lrel [] \<lparr> rc_rows = rows, rc_log = [], rc_slot = None \<rparr>
            else finish_change R lrel [ARDelete (tid local)]
                   \<lparr> rc_rows = simple_heap_delete (tid local) rows, rc_log = [], rc_slot = Some [] \<rparr>))
        (\<lambda>change. Inr (change, now)))))"

section \<open>The table as a map\<close>

text \<open>
  An operation of the stream and the table seen from its key: \<open>content ks rows\<close> maps the values of the key columns
  \<open>ks\<close> to the row, and \<open>spec_op\<close> is what the operation means for such a map.
\<close>

datatype row_op =
    RInsert PGLogicalTupleData
  | RUpdate "PGLogicalTupleData option" PGLogicalTupleData
  | RDelete PGLogicalTupleData

fun apply_op ::
  "executor \<Rightarrow> conflict_env \<Rightarrow> PGLogicalRelation \<Rightarrow> transaction_id \<Rightarrow> row_op \<Rightarrow> nat \<Rightarrow> heap_row list
     \<Rightarrow> (row_change \<times> nat) result option" where
  "apply_op R C rel top_xid (RInsert t) now rows = insert_row R C rel top_xid t now rows"
| "apply_op R C rel top_xid (RUpdate old t) now rows = update_row R C rel top_xid old t now rows"
| "apply_op R C rel top_xid (RDelete t) now rows = delete_row R rel t now rows"

definition row_key :: "nat list \<Rightarrow> heap_tuple \<Rightarrow> datum option list" where
  "row_key ks t = map (\<lambda>i. t ! i) ks"

definition tuple_key :: "nat list \<Rightarrow> PGLogicalTupleData \<Rightarrow> datum option list" where
  "tuple_key ks tup = map (\<lambda>i. if tnulls tup i then None else Some (tvalues tup i)) ks"

definition content :: "nat list \<Rightarrow> heap_row list \<Rightarrow> datum option list \<rightharpoonup> heap_tuple" where
  "content ks rows = map_of (map (\<lambda>r. (row_key ks (t_data r), t_data r)) rows)"

fun spec_op ::
  "nat list \<Rightarrow> tupledesc \<Rightarrow> row_op \<Rightarrow> (datum option list \<rightharpoonup> heap_tuple) \<Rightarrow> (datum option list \<rightharpoonup> heap_tuple)"
where
  "spec_op ks desc (RInsert t) m = m(tuple_key ks t \<mapsto> heap_form_tuple desc t)"
| "spec_op ks desc (RUpdate old t) m =
     (let k = tuple_key ks (case old of None \<Rightarrow> t | Some t' \<Rightarrow> t') in
      case m k of
        None \<Rightarrow> m
      | Some row \<Rightarrow> (let row' = heap_modify_tuple desc row t in (m(k := None))(row_key ks row' \<mapsto> row')))"
| "spec_op ks desc (RDelete t) m = m(tuple_key ks t := None)"

text \<open>The keys an operation writes are complete, and an update does not move a row onto another one.\<close>

fun op_ok :: "nat list \<Rightarrow> tupledesc \<Rightarrow> row_op \<Rightarrow> (datum option list \<rightharpoonup> heap_tuple) \<Rightarrow> bool" where
  "op_ok ks desc (RInsert t) m = (None \<notin> set (tuple_key ks t))"
| "op_ok ks desc (RUpdate old t) m =
     (let k = tuple_key ks (case old of None \<Rightarrow> t | Some t' \<Rightarrow> t') in
      case m k of
        None \<Rightarrow> True
      | Some row \<Rightarrow>
          (let k' = row_key ks (heap_modify_tuple desc row t) in
           None \<notin> set k' \<and> (k' = k \<or> m k' = None)))"
| "op_ok ks desc (RDelete t) m = True"

text \<open>Complete rows, with complete and different keys and different item pointers.\<close>

definition heap_rows_ok :: "nat list \<Rightarrow> nat \<Rightarrow> heap_row list \<Rightarrow> bool" where
  "heap_rows_ok ks n rows \<longleftrightarrow> distinct (map tid rows) \<and> distinct (map (\<lambda>r. row_key ks (t_data r)) rows) \<and>
     list_all (\<lambda>r. length (t_data r) = n \<and> None \<notin> set (row_key ks (t_data r))) rows"

text \<open>
  A plain table: no other session, no triggers, satisfied constraints, all columns replicated, and one unique
  index over the columns \<open>ks\<close>, which is the replica identity.  The equality operators are equality of values,
  a new row gets an unused item pointer, and index insertion fails only for duplicate keys.
\<close>

locale plain_table =
  fixes R :: executor and rel :: PGLogicalRelation and lrel :: relation and ii :: index_rel and ks :: "nat list"
  assumes rel: "ent_rel rel = Some lrel" "natts rel = length (rd_att lrel)"
    and index: "replidindex lrel \<noteq> InvalidOid" "index_open (am R) (replidindex lrel) = Inr ii"
      "ExecOpenIndices (am R) (rd_id lrel) = [ii]" "index_ok (am R) ii"
      "ii_Unique ii" "\<not> ii_Expressions ii" "ii_Predicate ii t" "indkey ii = map Suc ks"
    and keys: "k \<in> set ks \<Longrightarrow> k < length (rd_att lrel)"
    and equality: "c \<in> set (indclass ii) \<Longrightarrow>
      call_bool (am R) (get_opcode (am R) (equality_operator (am R) c)) v w \<longleftrightarrow> v = w"
    and quiet: "others R = alone" "trigdesc R lrel = None" "check_constraints R lrel t = Inr ()"
      "AfterTriggerEndQuery R lrel events = Inr ()"
    and heap: "new_tid R rows \<notin> tid ` set rows"
      "distinct (map (\<lambda>r. row_key ks (t_data r)) rows) \<Longrightarrow> ExecInsertIndexTuples R lrel rows row = Inr []"

text \<open>An example: the table of the conflict theory, alone and without triggers.\<close>

definition ex_exec :: executor where
  "ex_exec = \<lparr> am = ex_am, others = alone, build_column_default = (\<lambda>_ _. None), trigdesc = (\<lambda>_. None),
     ExecBRInsertTriggers = (\<lambda>_ t. Inr (Some t)), ExecBRUpdateTriggers = (\<lambda>_ _ t. Inr (Some t)),
     ExecBRDeleteTriggers = (\<lambda>_ _. Inr True), has_constr = (\<lambda>_. False), ExecConstraints = (\<lambda>_ _. Inr ()),
     ri_NumIndices = (\<lambda>_. 1), ExecInsertIndexTuples = (\<lambda>_ _ _. Inr []),
     HeapTupleIsHeapOnly = (\<lambda>_ _. False), new_tid = (\<lambda>rows. Suc (Max (insert 0 (tid ` set rows)))),
     AfterTriggerEndQuery = (\<lambda>_ _. Inr ()), quoted_name = relname \<rparr>"

definition ex_two_columns :: relation where
  "ex_two_columns = ex_relation 24577 [ex_att ''id'' 1 False, ex_att ''note'' 2 False]"

definition ex_entry :: PGLogicalRelation where
  "ex_entry = \<lparr> remoteid = 16385, ent_nspname = ''public'', ent_relname = ''t'', natts = 2,
     attnames = [''id'', ''note''], reloid = 24577, ent_rel = Some ex_two_columns, attmap = [0, 1],
     hasTriggers = False \<rparr>"

section \<open>Lemmas\<close>

lemma content_find: "content ks rows k = map_option t_data (List.find (\<lambda>r. row_key ks (t_data r) = k) rows)"
  by (induction rows) (auto simp: content_def)

lemma content_None: "content ks rows k = None \<longleftrightarrow> (\<forall>r \<in> set rows. row_key ks (t_data r) \<noteq> k)"
  by (induction rows) (auto simp: content_def)

lemma row_key_modify_length [simp]:
  "length (heap_modify_tuple desc old t) = length desc" "length (heap_form_tuple desc t) = length desc"
  by (simp_all add: heap_modify_tuple_def heap_form_tuple_def)

lemma content_append:
  "content ks rows (row_key ks (t_data r)) = None \<Longrightarrow>
   content ks (rows @ [r]) = (content ks rows)(row_key ks (t_data r) \<mapsto> t_data r)"
  by (induction rows) (auto simp: content_def fun_eq_iff)

lemma content_delete:
  assumes "heap_rows_ok ks n rows" "l \<in> set rows"
  shows "content ks (simple_heap_delete (tid l) rows) = (content ks rows)(row_key ks (t_data l) := None)"
proof -
  have same: "tid r = tid l \<longleftrightarrow> row_key ks (t_data r) = row_key ks (t_data l)" if "r \<in> set rows" for r
    using assms that by (auto simp: heap_rows_ok_def distinct_map inj_on_def)
  have "content ks (filter (\<lambda>r. row_key ks (t_data r) \<noteq> k) rows) = (content ks rows)(k := None)" for k
    by (induction rows) (auto simp: content_def fun_eq_iff)
  moreover have "simple_heap_delete (tid l) rows = filter (\<lambda>r. row_key ks (t_data r) \<noteq> row_key ks (t_data l)) rows"
    unfolding simple_heap_delete_def using same by (intro filter_cong) auto
  ultimately show ?thesis by simp
qed

lemma heap_rows_ok_delete: "heap_rows_ok ks n rows \<Longrightarrow> heap_rows_ok ks n (simple_heap_delete i rows)"
  by (auto simp: heap_rows_ok_def simple_heap_delete_def list_all_iff distinct_map_filter)

text \<open>A heap update is a deletion and an insertion at the same place.\<close>

lemma content_update:
  assumes "heap_rows_ok ks n rows" "l \<in> set rows"
    and "row_key ks (t_data r) = row_key ks (t_data l) \<or> content ks rows (row_key ks (t_data r)) = None"
  shows "content ks (simple_heap_update (tid l) r rows) =
    ((content ks rows)(row_key ks (t_data l) := None))(row_key ks (t_data r) \<mapsto> t_data r)"
  using assms
proof (induction rows)
  case (Cons x rows)
  have others: "row_key ks (t_data y) \<noteq> row_key ks (t_data x) \<and> tid y \<noteq> tid x" if "y \<in> set rows" for y
    using Cons.prems(1) that by (auto simp: heap_rows_ok_def image_iff)
  have ok: "heap_rows_ok ks n rows" using Cons.prems(1) by (simp add: heap_rows_ok_def)
  show ?case
  proof (cases "tid x = tid l")
    case True
    then have x: "x = l" using others Cons.prems(2) by force
    then have "simple_heap_update (tid l) r rows = rows"
      using others by (auto simp: simple_heap_update_def intro!: map_idI)
    moreover have "content ks rows (row_key ks (t_data l)) = None"
      using others x by (auto simp: content_None)
    ultimately show ?thesis using x by (auto simp: content_def simple_heap_update_def fun_eq_iff)
  next
    case False
    then have l: "l \<in> set rows" using Cons.prems(2) by auto
    have "row_key ks (t_data r) = row_key ks (t_data l) \<or> content ks rows (row_key ks (t_data r)) = None"
      "row_key ks (t_data r) \<noteq> row_key ks (t_data x)"
      using Cons.prems(3) others [OF l] by (auto simp: content_None)
    then show ?thesis
      using Cons.IH [OF ok l] False others [OF l]
      by (auto simp: content_def simple_heap_update_def fun_eq_iff)
  qed
qed simp


lemma heap_rows_ok_append:
  "heap_rows_ok ks n rows \<Longrightarrow> tid r \<notin> tid ` set rows \<Longrightarrow> content ks rows (row_key ks (t_data r)) = None \<Longrightarrow>
   length (t_data r) = n \<Longrightarrow> None \<notin> set (row_key ks (t_data r)) \<Longrightarrow> heap_rows_ok ks n (rows @ [r])"
  by (auto simp: heap_rows_ok_def content_None)

lemma heap_rows_ok_update:
  assumes "heap_rows_ok ks n rows" "l \<in> set rows" "tid r \<notin> tid ` set rows"
    and "row_key ks (t_data r) = row_key ks (t_data l) \<or> content ks rows (row_key ks (t_data r)) = None"
    and "length (t_data r) = n" "None \<notin> set (row_key ks (t_data r))"
  shows "heap_rows_ok ks n (simple_heap_update (tid l) r rows)"
proof -
  let ?f = "\<lambda>x. if tid x = tid l then r else x"
  have uniq: "x = y" if "x \<in> set rows" "y \<in> set rows" "tid x = tid y" for x y
    using assms(1) that by (auto simp: heap_rows_ok_def distinct_map inj_on_def)
  have keys: "x = y" if "x \<in> set rows" "y \<in> set rows" "row_key ks (t_data x) = row_key ks (t_data y)" for x y
    using assms(1) that by (auto simp: heap_rows_ok_def distinct_map inj_on_def)
  have "inj_on (\<lambda>x. tid (?f x)) (set rows)"
    using uniq assms(3) by (auto simp: inj_on_def image_iff split: if_splits)
  moreover have "inj_on (\<lambda>x. row_key ks (t_data (?f x))) (set rows)"
  proof (rule inj_onI)
    fix x y assume xy: "x \<in> set rows" "y \<in> set rows" "row_key ks (t_data (?f x)) = row_key ks (t_data (?f y))"
    have other: "row_key ks (t_data z) \<noteq> row_key ks (t_data r)" if "z \<in> set rows" "tid z \<noteq> tid l" for z
      using assms(4) keys [OF that(1) assms(2)] that by (auto simp: content_None)
    show "x = y" using xy keys uniq other [of x] other [of y] by (auto split: if_splits)
  qed
  moreover have "distinct rows"
    using assms(1) by (auto simp: heap_rows_ok_def distinct_map)
  ultimately show ?thesis
    using assms by (auto simp: heap_rows_ok_def simple_heap_update_def list_all_iff distinct_map comp_def)
qed

context plain_table
begin

lemma match_iff:
  assumes "length (t_data r) = length (rd_att lrel)" "None \<notin> set (row_key ks (t_data r))"
  shows "index_match (am R) ii t r \<longleftrightarrow> row_key ks (t_data r) = tuple_key ks t"
proof -
  have len: "length (indclass ii) = length ks"
    using index(4,8) by (simp add: index_ok_def)
  have "index_match (am R) ii t r \<longleftrightarrow>
      (\<forall>j < length ks. \<not> tnulls t (ks ! j) \<and> t_data r ! (ks ! j) = Some (tvalues t (ks ! j)))"
    using assms(1) keys len by (auto simp: index_match_def index(7,8) equality)
  also have "\<dots> \<longleftrightarrow> (\<forall>j < length ks. t_data r ! (ks ! j) =
      (if tnulls t (ks ! j) then None else Some (tvalues t (ks ! j))))"
  proof -
    have "t_data r ! (ks ! j) \<noteq> None" if "j < length ks" for j
      using assms(2) nth_mem [OF that] by (metis (no_types, lifting) image_eqI image_set row_key_def)
    then show ?thesis by (metis option.inject)
  qed
  finally show ?thesis by (simp add: list_eq_iff_nth_eq row_key_def tuple_key_def)
qed

lemma find_match:
  assumes "heap_rows_ok ks (length (rd_att lrel)) rows"
  shows "List.find (index_match (am R) ii t) rows = List.find (\<lambda>r. row_key ks (t_data r) = tuple_key ks t) rows"
  using assms by (intro find_cong) (auto simp: heap_rows_ok_def list_all_iff match_iff)

lemma replidx_search:
  assumes "heap_rows_ok ks (length (rd_att lrel)) rows"
  shows "pglogical_tuple_find_replidx (am R) (others R) lrel t now rows =
    Some (Inr (List.find (\<lambda>r. row_key ks (t_data r) = tuple_key ks t) rows, now + 1, rows))"
proof -
  obtain skey where key: "build_index_scan_key (am R) ii t =
      Inr (skey, \<not> list_all (\<lambda>k. \<not> tnulls t (k - 1)) (indkey ii))"
    using build_key_ok [OF index(4), of t] by auto
  show ?thesis
    using getnext_match [OF index(4) key, of rows] find_match [OF assms]
    by (simp add: pglogical_tuple_find_replidx_def index(1,2) key quiet(1))
qed

lemma conflict_search:
  assumes "heap_rows_ok ks (length (rd_att lrel)) rows" "None \<notin> set (tuple_key ks t)"
  shows "\<exists>now'. pglogical_tuple_find_conflict (am R) (others R) lrel t now rows =
    Some (Inr (map_option (Pair (indexrelid ii)) (List.find (\<lambda>r. row_key ks (t_data r) = tuple_key ks t) rows),
      now', rows))"
proof -
  have "usable_index ii t"
    using assms(2) by (auto simp: usable_index_def index(5,6,8) list_all_iff tuple_key_def split: if_splits)
  then have "first_conflict (am R) t [ii] rows =
      map_option (Pair ii) (List.find (\<lambda>r. row_key ks (t_data r) = tuple_key ks t) rows)"
    using find_match [OF assms(1)] by (simp add: first_conflict_def find_map_Pair)
  then show ?thesis
    using conflict_loop_alone [of "[ii]" "am R" t now rows] index(4)
    by (auto simp: pglogical_tuple_find_conflict_def index(3) quiet(1) option.map_comp comp_def)
qed

lemma indexes_ok:
  "heap_rows_ok ks n rows \<Longrightarrow> UserTableUpdateOpenIndexes R lrel rows row = Inr ()"
  by (simp add: UserTableUpdateOpenIndexes_def heap(2) heap_rows_ok_def)

lemma no_defaults: "fill_missing_defaults R rel lrel t = Inr t"
  by (simp add: fill_missing_defaults_def rel)

lemma no_triggers: "before_row kind R lrel fire t = Inr (Some t)"
  by (simp add: before_row_def quiet)

lemma finished: "finish_change R lrel events c = Inr c"
  by (simp add: finish_change_def quiet)

lemma find_key:
  assumes "List.find (\<lambda>r. row_key ks (t_data r) = k) rows = Some l"
  shows "l \<in> set rows" "row_key ks (t_data l) = k" "content ks rows k = Some (t_data l)"
  using assms by (auto simp: find_Some_iff content_find)

text \<open>The update of a row that is there, under the key of the new version.\<close>

lemma update_found_ok:
  assumes ok: "heap_rows_ok ks (length (rd_att lrel)) rows" and l: "l \<in> set rows"
    and k: "row_key ks t = row_key ks (t_data l) \<or> content ks rows (row_key ks t) = None"
    and t: "length t = length (rd_att lrel)" "None \<notin> set (row_key ks t)"
  shows "\<exists>change. update_found R lrel x l t t' log rows = Inr change \<and>
    heap_rows_ok ks (length (rd_att lrel)) (rc_rows change) \<and>
    content ks (rc_rows change) = ((content ks rows)(row_key ks (t_data l) := None))(row_key ks t \<mapsto> t)"
proof -
  let ?r = "\<lparr> tid = new_tid R rows, t_xmin = x, t_data = t \<rparr>"
  have ok': "heap_rows_ok ks (length (rd_att lrel)) (simple_heap_update (tid l) ?r rows)"
    using heap_rows_ok_update [OF ok l, of ?r] heap(1) k t by simp
  then show ?thesis
    using content_update [OF ok l, of ?r] k
    by (simp add: update_found_def quiet Let_def indexes_ok finished)
qed

end

text \<open>What the three operations do to the map.\<close>

context plain_table
begin

lemma insert_refines:
  assumes "pglogical_conflict_resolver C = PGLOGICAL_RESOLVE_APPLY_REMOTE"
    and ok: "heap_rows_ok ks (length (rd_att lrel)) rows" and t: "None \<notin> set (tuple_key ks t)"
  shows "\<exists>change now'. insert_row R C rel x t now rows = Some (Inr (change, now')) \<and>
    heap_rows_ok ks (length (rd_att lrel)) (rc_rows change) \<and>
    content ks (rc_rows change) = (content ks rows)(tuple_key ks t \<mapsto> heap_form_tuple (rd_att lrel) t)"
proof -
  let ?t = "heap_form_tuple (rd_att lrel) t"
  have key: "row_key ks ?t = tuple_key ks t"
    using keys by (simp add: row_key_def tuple_key_def heap_form_tuple_def)
  obtain now' where search: "pglogical_tuple_find_conflict (am R) (others R) lrel t now rows =
      Some (Inr (map_option (Pair (indexrelid ii))
        (List.find (\<lambda>r. row_key ks (t_data r) = tuple_key ks t) rows), now', rows))"
    using conflict_search [OF ok t] by blast
  show ?thesis
  proof (cases "List.find (\<lambda>r. row_key ks (t_data r) = tuple_key ks t) rows")
    case None
    let ?r = "\<lparr> tid = new_tid R rows, t_xmin = x, t_data = ?t \<rparr>"
    have free: "content ks rows (row_key ks ?t) = None" using None by (simp add: key content_find)
    then have "heap_rows_ok ks (length (rd_att lrel)) (rows @ [?r])"
      using heap_rows_ok_append [OF ok, of ?r] heap(1) t key by simp
    then show ?thesis
      using content_append [of ks rows ?r] free search None key
      by (simp add: insert_row_def rel no_defaults no_triggers insert_new_def quiet Let_def indexes_ok finished)
  next
    case (Some l)
    note l = find_key [OF Some]
    obtain change where "update_found R lrel x l ?t ?t [pglogical_report_conflict (quoted_name R)
        CONFLICT_INSERT_INSERT lrel PGLogicalResolution_ApplyRemote] rows = Inr change"
      "heap_rows_ok ks (length (rd_att lrel)) (rc_rows change)"
      "content ks (rc_rows change) = (content ks rows)(tuple_key ks t \<mapsto> ?t)"
      using update_found_ok [OF ok l(1), of ?t x ?t "[pglogical_report_conflict (quoted_name R)
        CONFLICT_INSERT_INSERT lrel PGLogicalResolution_ApplyRemote]"] key l(2) t by auto
    then show ?thesis
      using search Some assms(1)
      by (simp add: insert_row_def rel no_defaults no_triggers insert_conflict_def try_resolve_conflict_def Let_def)
  qed
qed

lemma update_refines:
  assumes "pglogical_conflict_resolver C = PGLOGICAL_RESOLVE_APPLY_REMOTE"
    and ok: "heap_rows_ok ks (length (rd_att lrel)) rows"
    and op: "op_ok ks (rd_att lrel) (RUpdate old t) (content ks rows)"
  shows "\<exists>change now'. update_row R C rel x old t now rows = Some (Inr (change, now')) \<and>
    heap_rows_ok ks (length (rd_att lrel)) (rc_rows change) \<and>
    content ks (rc_rows change) = spec_op ks (rd_att lrel) (RUpdate old t) (content ks rows)"
proof -
  let ?s = "case old of None \<Rightarrow> t | Some t' \<Rightarrow> t'"
  note search = replidx_search [OF ok, of ?s now]
  show ?thesis
  proof (cases "List.find (\<lambda>r. row_key ks (t_data r) = tuple_key ks ?s) rows")
    case None
    then show ?thesis
      using search ok by (simp add: update_row_def rel Let_def finished content_find)
  next
    case (Some l)
    note l = find_key [OF Some]
    let ?t = "heap_modify_tuple (rd_att lrel) (t_data l) t"
    have k: "None \<notin> set (row_key ks ?t)"
      "row_key ks ?t = row_key ks (t_data l) \<or> content ks rows (row_key ks ?t) = None"
      using op l(2,3) by (simp_all add: Let_def)
    have "try_resolve_conflict C l ?t = Inr (True, ?t, PGLogicalResolution_ApplyRemote)"
      using assms(1) by (simp add: try_resolve_conflict_def Let_def)
    then have "\<exists>log. update_conflict R C lrel x l ?t = Inr (True, ?t, log)"
      by (simp add: update_conflict_def split: prod.split)
    then obtain log where "update_conflict R C lrel x l ?t = Inr (True, ?t, log)" ..
    then show ?thesis
      using update_found_ok [OF ok l(1) k(2) _ k(1), of x ?t log] search Some l(2,3)
      by (auto simp: update_row_def rel Let_def no_defaults no_triggers)
  qed
qed

lemma delete_refines:
  assumes ok: "heap_rows_ok ks (length (rd_att lrel)) rows"
  shows "\<exists>change now'. delete_row R rel t now rows = Some (Inr (change, now')) \<and>
    heap_rows_ok ks (length (rd_att lrel)) (rc_rows change) \<and>
    content ks (rc_rows change) = (content ks rows)(tuple_key ks t := None)"
proof (cases "List.find (\<lambda>r. row_key ks (t_data r) = tuple_key ks t) rows")
  case None
  then have "content ks rows (tuple_key ks t) = None" by (simp add: content_find)
  then show ?thesis
    using replidx_search [OF ok, of t now] None ok
    by (simp add: delete_row_def rel Let_def finished fun_upd_idem)
next
  case (Some l)
  note l = find_key [OF Some]
  show ?thesis
    using replidx_search [OF ok, of t now] Some content_delete [OF ok l(1)] l(2) heap_rows_ok_delete [OF ok]
    by (simp add: delete_row_def rel Let_def finished quiet)
qed

end

text \<open>A conflicting INSERT whose update a trigger suppresses ends the worker.\<close>

lemma suppressed_conflict_crashes:
  assumes "try_resolve_conflict C local t = Inr (True, t, res)"
    and "trigdesc R lrel = Some d" "trig_update_before_row d"
    and "ExecBRUpdateTriggers R lrel (tid local) t = Inr None" "AfterTriggerEndQuery R lrel [] = Inr ()"
  shows "insert_conflict R C lrel x local t rows = Inl NullDereference"
  using assms by (simp add: insert_conflict_def before_row_def)

text \<open>Triggers that fire before DELETE only are not asked.\<close>

lemma delete_ignores_triggers:
  assumes "trigdesc R lrel = Some d" "\<not> trig_update_before_row d" "ent_rel rel = Some lrel"
  shows "delete_row (R\<lparr> ExecBRDeleteTriggers := f \<rparr>) rel t now rows = delete_row R rel t now rows"
  using assms by (simp add: delete_row_def finish_change_def Let_def obind_def split: option.split sum.split prod.split)

lemma ex_new_tid: "Suc (Max (insert 0 (tid ` set rows))) \<notin> tid ` set rows"
proof
  assume "Suc (Max (insert 0 (tid ` set rows))) \<in> tid ` set rows"
  then have "Suc (Max (insert 0 (tid ` set rows))) \<le> Max (insert 0 (tid ` set rows))"
    by (intro Max_ge) auto
  then show False by simp
qed

interpretation ex_table: plain_table ex_exec ex_entry ex_two_columns ex_index "[0]"
  by unfold_locales
    (auto simp: ex_exec_def ex_entry_def ex_two_columns_def ex_relation_def ex_index_def ex_am_def index_ok_def
      check_constraints_def simp del: Max_insert intro: notE [OF ex_new_tid])

section \<open>Properties\<close>

text \<open>C39. The changes of rows implement a map from keys to rows.  On a plain table, with conflicts resolved in favour of the
  provider, INSERT, UPDATE and DELETE return without error and wait for nobody, keep the rows complete with
  different keys, and do to the table seen from its key what the operation means: an insert sets
  the row of its key, whether or not there was one; an update changes the row of the old key, under the
  new key, and leaves the table alone when there is none; a delete removes the row.\<close>

theorem row_changes_refine_map:
  assumes "plain_table R rel lrel ii ks" "pglogical_conflict_resolver C = PGLOGICAL_RESOLVE_APPLY_REMOTE"
    and "heap_rows_ok ks (length (rd_att lrel)) rows" "op_ok ks (rd_att lrel) op (content ks rows)"
  shows "\<exists>change now'. apply_op R C rel x op now rows = Some (Inr (change, now')) \<and>
    heap_rows_ok ks (length (rd_att lrel)) (rc_rows change) \<and>
    content ks (rc_rows change) = spec_op ks (rd_att lrel) op (content ks rows)"
proof (cases op)
  case (RInsert t)
  then show ?thesis using plain_table.insert_refines [OF assms(1-3), of t x now] assms(4) by simp
next
  case (RUpdate old t)
  then show ?thesis using plain_table.update_refines [OF assms(1-3), of old t x now] assms(4) by simp
next
  case (RDelete t)
  then show ?thesis using plain_table.delete_refines [OF assms(1,3), of t now] by simp
qed

theorem row_changes_refine_map_witness:
  "\<exists>change now'. apply_op ex_exec (ex_cenv PGLOGICAL_RESOLVE_APPLY_REMOTE 5 4) ex_entry 734 (RInsert ex_newtup) 0
       [ex_hrow] = Some (Inr (change, now')) \<and>
     content [0] (rc_rows change) [Some (DatumPtr ''1'')] = Some [Some (DatumPtr ''1''), Some (DatumPtr ''new'')]"
proof -
  have "pglogical_conflict_resolver (ex_cenv PGLOGICAL_RESOLVE_APPLY_REMOTE 5 4) = PGLOGICAL_RESOLVE_APPLY_REMOTE"
    by (simp add: ex_cenv_def)
  moreover have "heap_rows_ok [0] (length (rd_att ex_two_columns)) [ex_hrow]"
    by (simp add: heap_rows_ok_def ex_hrow_def row_key_def ex_two_columns_def ex_relation_def)
  moreover have "op_ok [0] (rd_att ex_two_columns) (RInsert ex_newtup) (content [0] [ex_hrow])"
    by (simp add: tuple_key_def ex_newtup_def)
  ultimately obtain change now' where
    "apply_op ex_exec (ex_cenv PGLOGICAL_RESOLVE_APPLY_REMOTE 5 4) ex_entry 734 (RInsert ex_newtup) 0 [ex_hrow] =
       Some (Inr (change, now'))"
    "content [0] (rc_rows change) = spec_op [0] (rd_att ex_two_columns) (RInsert ex_newtup) (content [0] [ex_hrow])"
    using row_changes_refine_map [OF ex_table.plain_table_axioms, of _ "[ex_hrow]" "RInsert ex_newtup" 734 0]
    by blast
  then show ?thesis
    by (auto simp: tuple_key_def ex_newtup_def heap_form_tuple_def ex_two_columns_def ex_relation_def
        numeral_2_eq_2)
qed

end
