(* ===== verification/Pgl_Feedback.thy ===== *)
theory Pgl_Feedback
  imports Pgl_Pqformat
begin

text \<open>
  The positions the apply worker reports to the provider, \<open>src/pglogical_apply.c\<close>.  Every local commit of a remote
  transaction is remembered with the end of its local commit record and the end of the remote transaction;
  the provider may forget a transaction only when the local commit is on disk.  The position up to which
  the local log is on disk is an argument, and whether the connection takes the reply is a parameter.
\<close>

section \<open>Operations\<close>

record PGLFlushPosition =
  local_end :: xlogrecptr
  remote_end :: xlogrecptr

text \<open>The static variables of the reports: the mapping and what was reported last.\<close>

record feedback =
  lsn_mapping :: "PGLFlushPosition list"
  last_recvpos :: xlogrecptr
  last_writepos :: xlogrecptr
  last_flushpos :: xlogrecptr

fun flush_scan ::
  "xlogrecptr \<Rightarrow> PGLFlushPosition list \<Rightarrow> xlogrecptr \<Rightarrow> xlogrecptr
     \<Rightarrow> bool \<times> xlogrecptr \<times> xlogrecptr \<times> PGLFlushPosition list" where
  "flush_scan local_flush [] write flush = (True, write, flush, [])"
| "flush_scan local_flush (pos # rest) write flush =
     (if local_end pos \<le> local_flush
      then flush_scan local_flush rest (remote_end pos) (remote_end pos)
      else (False, remote_end (last (pos # rest)), flush, pos # rest))"

text \<open>Whether nothing is outstanding, the write and the flush position, and the entries that are left.\<close>

definition get_flush_position ::
  "xlogrecptr \<Rightarrow> PGLFlushPosition list \<Rightarrow> bool \<times> xlogrecptr \<times> xlogrecptr \<times> PGLFlushPosition list" where
  "get_flush_position local_flush mapping = flush_scan local_flush mapping 0 0"

text \<open>The standby status update; the fields are written, flushed and applied position.\<close>

definition reply_message ::
  "pqformat \<Rightarrow> xlogrecptr \<Rightarrow> xlogrecptr \<Rightarrow> xlogrecptr \<Rightarrow> timestamptz \<Rightarrow> string" where
  "reply_message F recvpos flushpos writepos now =
     pq_sendbyte F CHR ''r'' @ pq_sendint64 F recvpos @ pq_sendint64 F flushpos @ pq_sendint64 F writepos @
     pq_sendint64 F now @ pq_sendbyte F (uint8_of 0)"

definition send_feedback ::
  "pqformat \<Rightarrow> (string \<Rightarrow> bool) \<Rightarrow> xlogrecptr \<Rightarrow> xlogrecptr \<Rightarrow> timestamptz \<Rightarrow> bool \<Rightarrow> feedback
     \<Rightarrow> string option result \<times> feedback" where
  "send_feedback F put_flush local_flush recvpos now force fb =
     (let recvpos = (if recvpos < last_recvpos fb then last_recvpos fb else recvpos) in
      case get_flush_position local_flush (lsn_mapping fb) of
        (idle, writepos, flushpos, mapping) \<Rightarrow>
          let fb = fb\<lparr> lsn_mapping := mapping \<rparr>;
              writepos = (if idle then recvpos else writepos);
              flushpos = (if idle then recvpos else flushpos);
              writepos = (if writepos < last_writepos fb then last_writepos fb else writepos);
              flushpos = (if flushpos < last_flushpos fb then last_flushpos fb else flushpos);
              reply = reply_message F recvpos flushpos writepos now
          in if \<not> force \<and> writepos = last_writepos fb \<and> flushpos = last_flushpos fb
             then (Inr None, fb)
             else if \<not> put_flush reply
             then (ereport ERRCODE_CONNECTION_FAILURE ''could not send feedback packet: %s'', fb)
             else (Inr (Some reply),
                   fb\<lparr> last_recvpos := (if recvpos > last_recvpos fb then recvpos else last_recvpos fb),
                       last_writepos := (if writepos > last_writepos fb then writepos else last_writepos fb),
                       last_flushpos := (if flushpos > last_flushpos fb then flushpos else last_flushpos fb) \<rparr>))"

text \<open>What \<open>handle_commit\<close> remembers of a local commit.\<close>

definition track_commit :: "xlogrecptr \<Rightarrow> xlogrecptr \<Rightarrow> feedback \<Rightarrow> feedback" where
  "track_commit local_end_lsn end_lsn fb =
     fb\<lparr> lsn_mapping := lsn_mapping fb @ [\<lparr> local_end = local_end_lsn, remote_end = end_lsn \<rparr>] \<rparr>"

section \<open>A session\<close>

text \<open>
  The history of a session: the commits applied so far, the greatest position received, the position up to
  which the local log is on disk, and the replies sent.  The provider sends transactions in the order of
  their commits, so a transaction ends behind every position received before; the local log grows,
  so the end of a commit record is not before that of an earlier one.  Otherwise commits, messages,
  flushes of the local log and reports come in any order.

  There is a second kind of commit: when a queued command ended the transaction of the worker by itself,
  \<open>handle_insert\<close> commits the one that the command left open, and at the \<open>COMMIT\<close> message there is nothing left to
  commit and to track.  Such a transaction is in \<open>untracked\<close>.  A provider of this version never makes the worker
  do it: it runs a command in a transaction of its own, where such a command is refused, before it queues it.
\<close>

record session =
  fb :: feedback
  applied :: "PGLFlushPosition list"
  untracked :: "PGLFlushPosition list"
  received :: xlogrecptr
  on_disk :: xlogrecptr
  replies :: "string list"

definition session_start :: session where
  "session_start = \<lparr> fb = \<lparr> lsn_mapping = [], last_recvpos = 0, last_writepos = 0, last_flushpos = 0 \<rparr>,
     applied = [], untracked = [], received = 0, on_disk = 0, replies = [] \<rparr>"

inductive session_step :: "pqformat \<Rightarrow> session \<Rightarrow> session \<Rightarrow> bool" for F where
  commit: "session_step F w
     (w\<lparr> fb := track_commit l r (fb w), applied := applied w @ [\<lparr> local_end = l, remote_end = r \<rparr>],
         received := r \<rparr>)"
    if "received w < r" "list_all (\<lambda>p. local_end p \<le> l) (applied w)"
| queue_commit: "session_step F w
     (w\<lparr> untracked := untracked w @ [\<lparr> local_end = l, remote_end = r \<rparr>], received := r \<rparr>)"
    if "received w < r" "list_all (\<lambda>p. local_end p \<le> l) (applied w)"
| receive: "session_step F w (w\<lparr> received := lsn \<rparr>)" if "received w \<le> lsn"
| flush: "session_step F w (w\<lparr> on_disk := lsn \<rparr>)" if "on_disk w \<le> lsn"
| report: "session_step F w (w\<lparr> fb := fb', replies := replies w @ (case reply of None \<Rightarrow> [] | Some m \<Rightarrow> [m]) \<rparr>)"
    if "recvpos \<le> received w" "send_feedback F put_flush (on_disk w) recvpos now force (fb w) = (Inr reply, fb')"

text \<open>What the provider reads as the flushed position of a reply.\<close>

definition reply_flush :: "pqformat \<Rightarrow> string \<Rightarrow> xlogrecptr result" where
  "reply_flush F m =
     rbind (pq_getmsgbyte F m) (\<lambda>(_, m).
     rbind (pq_getmsgint64 F m) (\<lambda>(_, m).
     rbind (pq_getmsgint64 F m) (\<lambda>(flush, _). Inr flush)))"

text \<open>The invariant: \<open>hist\<close> is split into what is on disk and what is still outstanding.\<close>

definition session_ok :: "pqformat \<Rightarrow> session \<Rightarrow> bool" where
  "session_ok F w \<longleftrightarrow>
     (\<exists>durable. applied w = durable @ lsn_mapping (fb w) \<and> list_all (\<lambda>p. local_end p \<le> on_disk w) durable) \<and>
     sorted_wrt (<) (map remote_end (applied w)) \<and>
     list_all (\<lambda>p. remote_end p \<le> received w) (applied w) \<and>
     last_flushpos (fb w) \<le> received w \<and> last_recvpos (fb w) \<le> received w \<and>
     list_all (\<lambda>p. last_flushpos (fb w) < remote_end p) (lsn_mapping (fb w)) \<and>
     sorted (map (\<lambda>m. case reply_flush F m of Inl _ \<Rightarrow> 0 | Inr f \<Rightarrow> f) (replies w)) \<and>
     list_all (\<lambda>m. \<exists>f. reply_flush F m = Inr f \<and> f \<le> last_flushpos (fb w)) (replies w)"

text \<open>A session with one transaction: it is reported as received only before, and as flushed only after the flush.\<close>

definition ex_fb :: "PGLFlushPosition list \<Rightarrow> xlogrecptr \<Rightarrow> xlogrecptr \<Rightarrow> xlogrecptr \<Rightarrow> feedback" where
  "ex_fb ps r w f = \<lparr> lsn_mapping = ps, last_recvpos = r, last_writepos = w, last_flushpos = f \<rparr>"

definition ex_session :: session where
  "ex_session = \<lparr> fb = ex_fb [] 20 20 20,
     applied = [\<lparr> local_end = 7, remote_end = 20 \<rparr>], untracked = [], received = 20, on_disk = 9,
     replies = [reply_message net_pqformat 20 0 20 1, reply_message net_pqformat 20 20 20 2] \<rparr>"

section \<open>Lemmas\<close>

lemma flush_scan_prefix:
  assumes "flush_scan lf ps w f = (idle, w', f', rest)"
  shows "\<exists>done. ps = done @ rest \<and> list_all (\<lambda>p. local_end p \<le> lf) done \<and>
    (idle \<longleftrightarrow> rest = []) \<and> f' = (if done = [] then f else remote_end (last done))"
  using assms
proof (induction ps arbitrary: w f)
  case (Cons p ps)
  show ?case
  proof (cases "local_end p \<le> lf")
    case True
    then obtain d where "ps = d @ rest" "list_all (\<lambda>p. local_end p \<le> lf) d" "idle \<longleftrightarrow> rest = []"
      "f' = (if d = [] then remote_end p else remote_end (last d))"
      using Cons by auto
    then show ?thesis using True by (intro exI [of _ "p # d"]) auto
  next
    case False
    then show ?thesis using Cons.prems by auto
  qed
qed auto


lemma send_feedback_ok:
  assumes run: "send_feedback F pf lf recvpos now force f = (Inr reply, f')"
    and bounds: "recvpos \<le> R" "last_recvpos f \<le> R" "last_flushpos f \<le> R"
    and sorted: "sorted_wrt (<) (map remote_end (lsn_mapping f))"
    and mapping: "\<forall>p \<in> set (lsn_mapping f). last_flushpos f < remote_end p \<and> remote_end p \<le> R"
  shows "\<exists>done. lsn_mapping f = done @ lsn_mapping f' \<and> list_all (\<lambda>p. local_end p \<le> lf) done"
    and "last_flushpos f \<le> last_flushpos f'" "last_flushpos f' \<le> R" "last_recvpos f' \<le> R"
    and "\<forall>p \<in> set (lsn_mapping f'). last_flushpos f' < remote_end p"
    and "reply = Some m \<Longrightarrow> \<exists>rv w. m = reply_message F rv (last_flushpos f') w now"
proof -
  obtain idle w fl rest where scan: "flush_scan lf (lsn_mapping f) 0 0 = (idle, w, fl, rest)"
    by (metis prod_cases4)
  then obtain d where d: "lsn_mapping f = d @ rest" "list_all (\<lambda>p. local_end p \<le> lf) d"
    "idle \<longleftrightarrow> rest = []" "fl = (if d = [] then 0 else remote_end (last d))"
    using flush_scan_prefix by blast
  let ?rv = "if recvpos < last_recvpos f then last_recvpos f else recvpos"
  let ?fl = "if idle then ?rv else fl"
  let ?flush = "if ?fl < last_flushpos f then last_flushpos f else ?fl"
  have rest: "lsn_mapping f' = rest"
    and last: "last_flushpos f' = last_flushpos f \<and> reply = None \<or>
        last_flushpos f' = ?flush \<and> (\<exists>rv w. reply = Some (reply_message F rv ?flush w now))"
    and recv: "last_recvpos f' = last_recvpos f \<or> last_recvpos f' = ?rv"
    using run scan by (auto simp: send_feedback_def get_flush_position_def Let_def split: if_splits)
  have "0 < remote_end p" if "p \<in> set rest" for p
    using that mapping d(1) le_less_trans [OF word_zero_le, of "last_flushpos f"] by auto
  then have fl_R: "?fl \<le> R" and fl_rest: "\<forall>p \<in> set rest. ?fl < remote_end p"
    using bounds mapping sorted d by (auto simp: sorted_wrt_append)
  show "\<exists>done. lsn_mapping f = done @ lsn_mapping f' \<and> list_all (\<lambda>p. local_end p \<le> lf) done"
    using d rest by auto
  show "last_flushpos f \<le> last_flushpos f'" "last_flushpos f' \<le> R" "last_recvpos f' \<le> R"
    using last recv bounds fl_R by auto
  show "\<forall>p \<in> set (lsn_mapping f'). last_flushpos f' < remote_end p"
    using last fl_rest mapping d(1) rest by (auto split: if_splits)
  show "reply = Some m \<Longrightarrow> \<exists>rv w. m = reply_message F rv (last_flushpos f') w now"
    using last by auto
qed

lemma reply_flush_message:
  assumes "pq_codec F"
  shows "reply_flush F (reply_message F recvpos flushpos writepos now) = Inr flushpos"
  using pq_codec.codec_simps [OF assms] by (simp add: reply_flush_def reply_message_def)

lemma session_ok_start: "session_ok F session_start"
  by (simp add: session_ok_def session_start_def)

lemma session_ok_report:
  assumes codec: "pq_codec F" and ok: "session_ok F w" and "recvpos \<le> received w"
    and run: "send_feedback F pf (on_disk w) recvpos now force (fb w) = (Inr reply, f')"
  shows "session_ok F (w\<lparr> fb := f', replies := replies w @ (case reply of None \<Rightarrow> [] | Some m \<Rightarrow> [m]) \<rparr>)"
proof -
  let ?flush = "\<lambda>m. case reply_flush F m of Inl _ \<Rightarrow> 0 | Inr f \<Rightarrow> f"
  obtain durable where durable: "applied w = durable @ lsn_mapping (fb w)"
    "list_all (\<lambda>p. local_end p \<le> on_disk w) durable"
    using ok by (auto simp: session_ok_def)
  have "sorted_wrt (<) (map remote_end (lsn_mapping (fb w)))"
    "\<forall>p \<in> set (lsn_mapping (fb w)). last_flushpos (fb w) < remote_end p \<and> remote_end p \<le> received w"
    "last_recvpos (fb w) \<le> received w" "last_flushpos (fb w) \<le> received w"
    using ok durable by (auto simp: session_ok_def sorted_wrt_append list_all_iff)
  note sf = send_feedback_ok [OF run assms(3) this(3,4,1,2)]
  obtain d where d: "lsn_mapping (fb w) = d @ lsn_mapping f'" "list_all (\<lambda>p. local_end p \<le> on_disk w) d"
    using sf(1) by blast
  have old: "reply_flush F m = Inr (?flush m) \<and> ?flush m \<le> last_flushpos (fb w)" if "m \<in> set (replies w)" for m
    using ok that by (auto simp: session_ok_def list_all_iff)
  have new: "reply_flush F m = Inr (last_flushpos f')" if "reply = Some m" for m
    using sf(6) [OF that] reply_flush_message [OF codec] by auto
  have "sorted (map ?flush (replies w))"
    using ok by (simp add: session_ok_def)
  then have sorted': "sorted (map ?flush (replies w @ (case reply of None \<Rightarrow> [] | Some m \<Rightarrow> [m])))"
    using old new order_trans [OF _ sf(2)] by (auto simp: sorted_append split: option.split)
  have "applied w = (durable @ d) @ lsn_mapping f'" "list_all (\<lambda>p. local_end p \<le> on_disk w) (durable @ d)"
    using durable d by simp_all
  moreover have "list_all (\<lambda>m. \<exists>f. reply_flush F m = Inr f \<and> f \<le> last_flushpos f')
      (replies w @ (case reply of None \<Rightarrow> [] | Some m \<Rightarrow> [m]))"
    using old new order_trans [OF _ sf(2)] by (fastforce simp: list_all_iff split: option.split)
  ultimately show ?thesis
    using ok sorted' sf(3-5) by (auto simp: session_ok_def list_all_iff)
qed

lemma session_ok_step:
  assumes "pq_codec F" "session_step F w w'" "session_ok F w"
  shows "session_ok F w'"
  using assms(2)
proof cases
  case (commit r l)
  then show ?thesis
    using assms(3) by (fastforce simp: session_ok_def track_commit_def sorted_wrt_append list_all_iff)
next
  case (queue_commit r l)
  then show ?thesis
    using assms(3) by (fastforce simp: session_ok_def list_all_iff)
next
  case (receive lsn)
  then show ?thesis using assms(3) by (fastforce simp: session_ok_def list_all_iff)
next
  case (flush lsn)
  then show ?thesis using assms(3) by (fastforce simp: session_ok_def list_all_iff)
next
  case (report recvpos put_flush now force reply fb')
  then show ?thesis using session_ok_report [OF assms(1,3)] by simp
qed

lemma session_ok_reachable:
  "(session_step F)\<^sup>*\<^sup>* session_start w \<Longrightarrow> pq_codec F \<Longrightarrow> session_ok F w"
  by (induction rule: rtranclp_induct) (auto intro: session_ok_start session_ok_step)

text \<open>
  A commit that was not tracked may be reported as flushed before it is on disk: with nothing else outstanding
  the worker takes itself for idle and reports everything it has received.
\<close>

theorem untracked_commit_reported_early:
  assumes "pq_codec F"
  shows "\<exists>w m f p. (session_step F)\<^sup>*\<^sup>* session_start w \<and> m \<in> set (replies w) \<and> reply_flush F m = Inr f \<and>
    p \<in> set (untracked w) \<and> remote_end p \<le> f \<and> on_disk w < local_end p"
proof -
  let ?p = "\<lparr> local_end = 7, remote_end = 20 \<rparr>" and ?m = "reply_message F 20 20 20 1"
  define w where "w = session_start\<lparr> untracked := [?p], received := 20 \<rparr>"
  define w' where "w' = w\<lparr> fb := ex_fb [] 20 20 20, replies := [?m] \<rparr>"
  have "session_step F session_start w"
    using session_step.queue_commit [of session_start 20 7 F] by (simp add: session_start_def w_def)
  moreover have "session_step F w w'"
    using session_step.report [of 20 w F "\<lambda>_. True" 1 False "Some ?m" "ex_fb [] 20 20 20"]
    by (simp add: session_start_def w_def w'_def ex_fb_def send_feedback_def get_flush_position_def)
  ultimately have "(session_step F)\<^sup>*\<^sup>* session_start w'"
    by (meson converse_rtranclp_into_rtranclp rtranclp.rtrancl_refl)
  moreover have "?m \<in> set (replies w')" "?p \<in> set (untracked w')" "on_disk w' < local_end ?p"
    by (simp_all add: w'_def w_def session_start_def)
  moreover have "remote_end ?p \<le> 20" by simp
  ultimately show ?thesis using reply_flush_message [OF assms] by blast
qed

section \<open>Properties\<close>

text \<open>C38. The provider is never told too much.  However the commits, the flushes of the local log and the reports of a
  session interleave, every reply can be read, the flushed positions of the replies never
  decrease, and every applied transaction that ends at or before a reported position is on the local disk:
  a crash of the subscriber loses no transaction the provider was told it may forget.  The exception are
  the commits after a queued command that manages its own transactions, which the code does not track; they may
  happen between the others, but nothing is promised of them.\<close>

theorem feedback_never_ahead:
  assumes "pq_codec F" and "(session_step F)\<^sup>*\<^sup>* session_start w"
  shows "\<exists>flushes. list_all2 (\<lambda>m f. reply_flush F m = Inr f) (replies w) flushes \<and> sorted flushes \<and>
    (\<forall>f \<in> set flushes. \<forall>p \<in> set (applied w). remote_end p \<le> f \<longrightarrow> local_end p \<le> on_disk w)"
proof -
  let ?fl = "\<lambda>m. case reply_flush F m of Inl _ \<Rightarrow> 0 | Inr f \<Rightarrow> f"
  have ok: "session_ok F w" using session_ok_reachable assms by blast
  then have fl: "reply_flush F m = Inr (?fl m) \<and> ?fl m \<le> last_flushpos (fb w)" if "m \<in> set (replies w)" for m
    using that by (auto simp: session_ok_def list_all_iff)
  obtain durable where durable: "applied w = durable @ lsn_mapping (fb w)"
    "list_all (\<lambda>p. local_end p \<le> on_disk w) durable"
    using ok by (auto simp: session_ok_def)
  have "local_end p \<le> on_disk w" if "p \<in> set (applied w)" "remote_end p \<le> last_flushpos (fb w)" for p
    using that durable ok by (auto simp: session_ok_def list_all_iff leD)
  moreover have "list_all2 (\<lambda>m f. reply_flush F m = Inr f) (replies w) (map ?fl (replies w))"
    using fl by (simp add: list_all2_map2 list_all2_same)
  moreover have "sorted (map ?fl (replies w))" using ok by (simp add: session_ok_def)
  ultimately show ?thesis
    using fl by (intro exI [of _ "map ?fl (replies w)"]) (auto intro: order_trans)
qed

theorem feedback_never_ahead_witness:
  "(session_step net_pqformat)\<^sup>*\<^sup>* session_start ex_session \<and>
   (\<exists>flushes. list_all2 (\<lambda>m f. reply_flush net_pqformat m = Inr f) (replies ex_session) flushes \<and> sorted flushes) \<and>
   local_end (hd (applied ex_session)) \<le> on_disk ex_session"
proof -
  let ?F = net_pqformat and ?p = "\<lparr> local_end = 7, remote_end = 20 \<rparr>"
  let ?m1 = "reply_message ?F 20 0 20 1" and ?m2 = "reply_message ?F 20 20 20 2"
  define w1 where "w1 = \<lparr> fb = ex_fb [?p] 0 0 0, applied = [?p], untracked = [], received = 20, on_disk = 0, replies = [] \<rparr>"
  define w2 where "w2 = \<lparr> fb = ex_fb [?p] 20 20 0, applied = [?p], untracked = [], received = 20, on_disk = 0, replies = [?m1] \<rparr>"
  define w3 where "w3 = w2\<lparr> on_disk := 9 \<rparr>"
  have "session_step ?F session_start w1"
    using session_step.commit [of session_start 20 7 ?F]
    by (simp add: session_start_def w1_def ex_fb_def track_commit_def)
  moreover have "session_step ?F w1 w2"
    using session_step.report [of 20 w1 ?F "\<lambda>_. True" 1 False "Some ?m1" "ex_fb [?p] 20 20 0"]
    by (simp add: w1_def w2_def ex_fb_def send_feedback_def get_flush_position_def)
  moreover have "session_step ?F w2 w3"
    using session_step.flush [of w2 9 ?F] by (simp add: w2_def w3_def)
  moreover have "session_step ?F w3 ex_session"
    using session_step.report [of 20 w3 ?F "\<lambda>_. True" 2 False "Some ?m2" "ex_fb [] 20 20 20"]
    by (simp add: w2_def w3_def ex_session_def ex_fb_def send_feedback_def get_flush_position_def)
  ultimately have reach: "(session_step ?F)\<^sup>*\<^sup>* session_start ex_session"
    by (meson converse_rtranclp_into_rtranclp rtranclp.rtrancl_refl)
  then show ?thesis
    using feedback_never_ahead [OF net_codec reach] by (auto simp: ex_session_def)
qed

end
