(* ===== verification/Pgl_Messages.thy ===== *)
theory Pgl_Messages
  imports Pgl_Pqformat Pgl_Config
begin

text \<open>
  What the apply worker reads besides rows, \<open>src/pglogical_apply.c\<close>: the parameters of the startup message and the JSON
  documents of queued messages.  A JSON document is the parameter of PostgreSQL's \<open>jsonb\<close>: the kind of its
  root and the sequence of items its iterator delivers.
\<close>

section \<open>The startup message\<close>

definition parse_bool_param :: "server_env \<Rightarrow> string \<Rightarrow> bool result" where
  "parse_bool_param S val =
     (case parse_bool S val of
        None \<Rightarrow> ereport ERRCODE_INVALID_PARAMETER_VALUE ''couldn't parse value '%s' for key '%s' as boolean''
      | Some b \<Rightarrow> Inr b)"

definition require_hook :: "server_env \<Rightarrow> string \<Rightarrow> string \<Rightarrow> unit result" where
  "require_hook S val msg =
     rbind (parse_bool_param S val) (\<lambda>b.
     if \<not> b then ereport ERRCODE_OBJECT_NOT_IN_PREREQUISITE_STATE msg else Inr ())"

definition handle_startup_param :: "server_env \<Rightarrow> string \<Rightarrow> string \<Rightarrow> unit result" where
  "handle_startup_param S key val =
     (if key = ''encoding''
      then (if pg_char_to_encoding S val \<noteq> GetDatabaseEncoding S
            then ereport ERRCODE_OBJECT_NOT_IN_PREREQUISITE_STATE ''expected encoding=%s from upstream but got %s''
            else Inr ())
      else if key = ''forward_changeset_origins'' then rbind (parse_bool_param S val) (\<lambda>_. Inr ())
      else if key = ''hooks.startup_hook_enabled''
      then require_hook S val ''pglogical requested a startup hook, but it was not activated''
      else if key = ''hooks.row_filter_enabled''
      then require_hook S val ''pglogical requested a row filter hook, but it was not activated''
      else if key = ''hooks.transaction_filter_enabled''
      then require_hook S val ''pglogical requested a transaction filter hook, but it was not activated''
      else Inr ())"

definition getmsgisend :: "string \<Rightarrow> bool" where
  "getmsgisend inp \<longleftrightarrow> inp = []"

text \<open>The loop over the keys and values; the reading routines are parameters, so it may not end.\<close>

partial_function (option) startup_params :: "pqformat \<Rightarrow> server_env \<Rightarrow> string \<Rightarrow> unit result option" where
  "startup_params F S inp =
     (case pq_getmsgstring F inp of
        Inl e \<Rightarrow> Some (Inl e)
      | Inr (k, inp) \<Rightarrow>
          if k = [] then Some (ereport ERRCODE_PROTOCOL_VIOLATION ''invalid startup message: key has zero length'')
          else if getmsgisend inp
          then Some (ereport ERRCODE_PROTOCOL_VIOLATION
                 ''invalid startup message: key '%s' has no following value'')
          else case pq_getmsgstring F inp of
                 Inl e \<Rightarrow> Some (Inl e)
               | Inr (v, inp) \<Rightarrow>
                   (case handle_startup_param S k v of
                      Inl e \<Rightarrow> Some (Inl e)
                    | Inr _ \<Rightarrow> if getmsgisend inp then Some (Inr ()) else startup_params F S inp))"

definition handle_startup :: "pqformat \<Rightarrow> server_env \<Rightarrow> string \<Rightarrow> unit result option" where
  "handle_startup F S inp =
     (case pq_getmsgbyte F inp of
        Inl e \<Rightarrow> Some (Inl e)
      | Inr (msgver, inp) \<Rightarrow>
          if byte_val msgver \<noteq> 1 then Some (elog ''Expected startup message version 1, but got %u'')
          else startup_params F S inp)"

section \<open>Queued messages\<close>

datatype jsonb_value = jbvString string | jbvOther

datatype jsonb_item =
    WJB_KEY string
  | WJB_VALUE jsonb_value
  | WJB_ELEM jsonb_value
  | WJB_BEGIN_ARRAY | WJB_END_ARRAY | WJB_BEGIN_OBJECT | WJB_END_OBJECT

record jsonb =
  JB_ROOT_IS_OBJECT :: bool
  JB_ROOT_IS_SCALAR :: bool
  jsonb_items :: "jsonb_item list"

text \<open>
  The keys are compared over the length of the key in the document, which has no terminator: every prefix of a
  known key is taken for it, the empty key too.
\<close>

definition strncmp_key :: "string \<Rightarrow> string \<Rightarrow> bool" where
  "strncmp_key key literal \<longleftrightarrow> key = take (length key) literal"

datatype message_field = Field_schema_name | Field_relation_name | Field_last_value

definition relation_field :: "string \<Rightarrow> message_field option" where
  "relation_field key =
     (if strncmp_key key ''schema_name'' then Some Field_schema_name
      else if strncmp_key key ''table_name'' then Some Field_relation_name
      else None)"

definition sequence_field :: "string \<Rightarrow> message_field option" where
  "sequence_field key =
     (if strncmp_key key ''schema_name'' then Some Field_schema_name
      else if strncmp_key key ''sequence_name'' then Some Field_relation_name
      else if strncmp_key key ''last_value'' then Some Field_last_value
      else None)"

text \<open>The iteration both parsers share: \<open>in_object\<close> is the level, \<open>key\<close> the field the next value belongs to.\<close>

fun scan_message ::
  "(string \<Rightarrow> message_field option) \<Rightarrow> jsonb_item list \<Rightarrow> bool \<Rightarrow> message_field option
     \<Rightarrow> (message_field \<rightharpoonup> string) \<Rightarrow> (message_field \<rightharpoonup> string) result" where
  "scan_message field [] in_object key res = Inr res"
| "scan_message field (r # rs) in_object key res =
     (if \<not> in_object
      then (if r = WJB_BEGIN_OBJECT then scan_message field rs True key res
            else elog ''root element needs to be an object'')
      else case r of
             WJB_KEY k \<Rightarrow> (case field k of
                            None \<Rightarrow> elog ''unexpected key: %s''
                          | Some f \<Rightarrow> scan_message field rs True (Some f) res)
           | WJB_VALUE v \<Rightarrow> (case key of
                              None \<Rightarrow> elog ''in wrong state when parsing key''
                            | Some f \<Rightarrow> (case v of
                                jbvString x \<Rightarrow> scan_message field rs True key (res(f \<mapsto> x))
                              | jbvOther \<Rightarrow> elog ''unexpected type for key '%s': %u''))
           | WJB_END_OBJECT \<Rightarrow> scan_message field rs False None res
           | _ \<Rightarrow> elog ''unexpected content: %u at level %d'')"

definition required :: "string \<Rightarrow> string option \<Rightarrow> string result" where
  "required msg x = (case x of None \<Rightarrow> elog msg | Some v \<Rightarrow> Inr v)"

definition parse_relation_message :: "jsonb \<Rightarrow> (string \<times> string) result" where
  "parse_relation_message message =
     (if \<not> JB_ROOT_IS_OBJECT message
      then elog ''malformed message in queued message tuple: root is not object''
      else rbind (scan_message relation_field (jsonb_items message) False None Map.empty) (\<lambda>res.
           rbind (required ''missing schema_name in relation message'' (res Field_schema_name)) (\<lambda>nspname.
           rbind (required ''missing table_name in relation message'' (res Field_relation_name)) (\<lambda>rname.
           Inr (nspname, rname)))))"

definition parse_sequence_message :: "jsonb \<Rightarrow> (string \<times> string \<times> string) result" where
  "parse_sequence_message message =
     (if \<not> JB_ROOT_IS_OBJECT message
      then elog ''malformed message in queued message tuple: root is not object''
      else rbind (scan_message sequence_field (jsonb_items message) False None Map.empty) (\<lambda>res.
           rbind (required ''missing schema_name in sequence message'' (res Field_schema_name)) (\<lambda>nspname.
           rbind (required ''missing table_name in sequence message'' (res Field_relation_name)) (\<lambda>rname.
           rbind (required ''missing last_value in sequence message'' (res Field_last_value)) (\<lambda>last_value.
           Inr (nspname, rname, last_value))))))"

text \<open>The SQL message is a JSON scalar, which the iterator shows as an array with one element.\<close>

definition parse_sql_message :: "jsonb \<Rightarrow> string result" where
  "parse_sql_message message =
     (if \<not> JB_ROOT_IS_SCALAR message
      then elog ''malformed message in queued message tuple: root is not scalar''
      else case jsonb_items message of
             WJB_BEGIN_ARRAY # r2 \<Rightarrow>
               (case r2 of
                  WJB_ELEM v # r3 \<Rightarrow>
                    (case v of
                       jbvString sql \<Rightarrow>
                         if r3 = [WJB_END_ARRAY] then Inr sql
                         else elog ''malformed message in queued message tuple, item type %d expected %d''
                     | jbvOther \<Rightarrow>
                         elog ''malformed message in queued message tuple, expected value type %d got %d'')
                | _ \<Rightarrow> elog ''malformed message in queued message tuple, item type %d expected %d'')
           | _ \<Rightarrow> elog ''malformed message in queued message tuple, item type %d expected %d'')"

text \<open>The documents the provider writes.\<close>

definition relation_message :: "string \<Rightarrow> string \<Rightarrow> jsonb" where
  "relation_message nspname rname = \<lparr> JB_ROOT_IS_OBJECT = True, JB_ROOT_IS_SCALAR = False,
     jsonb_items = [WJB_BEGIN_OBJECT, WJB_KEY ''table_name'', WJB_VALUE (jbvString rname),
       WJB_KEY ''schema_name'', WJB_VALUE (jbvString nspname), WJB_END_OBJECT] \<rparr>"

definition sequence_message :: "string \<Rightarrow> string \<Rightarrow> string \<Rightarrow> jsonb" where
  "sequence_message nspname rname last_value = \<lparr> JB_ROOT_IS_OBJECT = True, JB_ROOT_IS_SCALAR = False,
     jsonb_items = [WJB_BEGIN_OBJECT, WJB_KEY ''last_value'', WJB_VALUE (jbvString last_value),
       WJB_KEY ''schema_name'', WJB_VALUE (jbvString nspname),
       WJB_KEY ''sequence_name'', WJB_VALUE (jbvString rname), WJB_END_OBJECT] \<rparr>"

definition sql_message :: "string \<Rightarrow> jsonb" where
  "sql_message sql = \<lparr> JB_ROOT_IS_OBJECT = False, JB_ROOT_IS_SCALAR = True,
     jsonb_items = [WJB_BEGIN_ARRAY, WJB_ELEM (jbvString sql), WJB_END_ARRAY] \<rparr>"

text \<open>The parameters as the provider writes them.\<close>

definition write_params :: "pqformat \<Rightarrow> (string \<times> string) list \<Rightarrow> string" where
  "write_params F ps = concat (map (\<lambda>(k, v). pq_sendstring F k @ pq_sendstring F v) ps)"

section \<open>Lemmas\<close>

lemma messages_parsed [simp]:
  "parse_relation_message (relation_message n r) = Inr (n, r)"
  "parse_sequence_message (sequence_message n r v) = Inr (n, r, v)"
  "parse_sql_message (sql_message sql) = Inr sql"
  by (simp_all add: parse_relation_message_def relation_message_def parse_sequence_message_def
      sequence_message_def parse_sql_message_def sql_message_def relation_field_def sequence_field_def
      strncmp_key_def required_def)

text \<open>A key that is cut off, or empty, is taken for the first one it is a prefix of.\<close>

lemma cut_off_keys:
  "relation_field [] = Some Field_schema_name" "relation_field ''t'' = Some Field_relation_name"
  "relation_field ''schema'' = Some Field_schema_name"
  by (simp_all add: relation_field_def strncmp_key_def)

text \<open>
  The startup message of the provider is read to its end: every list of parameters with nonempty keys that
  this node accepts.
\<close>

lemma startup_params_read:
  assumes codec: "pq_codec F" and nonempty: "\<And>x. nul_free x \<Longrightarrow> pq_sendstring F x \<noteq> []"
    and ps: "ps \<noteq> []" "list_all (\<lambda>(k, v). k \<noteq> [] \<and> nul_free k \<and> nul_free v \<and>
               is_ok (handle_startup_param S k v)) ps"
  shows "startup_params F S (write_params F ps) = Some (Inr ())"
  using ps
proof (induction ps)
  case (Cons p ps)
  obtain k v where p: "p = (k, v)" by (cases p)
  have kv: "k \<noteq> []" "nul_free k" "nul_free v" "is_ok (handle_startup_param S k v)"
    using Cons.prems by (auto simp: p)
  obtain u where u: "handle_startup_param S k v = Inr u" using kv(4) by (auto simp: is_ok_iff)
  have rest: "write_params F ps = [] \<longleftrightarrow> ps = []"
    using Cons.prems nonempty by (cases ps) (auto simp: write_params_def)
  have unfold: "startup_params F S (write_params F (p # ps)) =
      (if write_params F ps = [] then Some (Inr ()) else startup_params F S (write_params F ps))"
    using pq_codec.getmsgstring_send [OF codec] kv u nonempty
    by (subst startup_params.simps) (simp add: write_params_def p getmsgisend_def)
  show ?case
    using unfold rest Cons by (cases "ps = []") auto
qed simp

end
