(* ===== verification/Pgl_Monad.thy ===== *)
theory Pgl_Monad
  imports Pgl_Prelude
begin

text \<open>
  Computations of a background worker: they run in a state that survives errors, since what was done before an
  error stays done, and \<open>None\<close> is a computation that waits forever.
\<close>

type_synonym ('s, 'a) st_m = "'s \<Rightarrow> ('a result \<times> 's) option"

definition sret :: "'a \<Rightarrow> ('s, 'a) st_m" where
  "sret x s = Some (Inr x, s)"

definition sfail :: "pg_error \<Rightarrow> ('s, 'a) st_m" where
  "sfail e s = Some (Inl e, s)"

definition sbind :: "('s, 'a) st_m \<Rightarrow> ('a \<Rightarrow> ('s, 'b) st_m) \<Rightarrow> ('s, 'b) st_m" where
  "sbind m f s = (case m s of
      None \<Rightarrow> None
    | Some (Inl e, s') \<Rightarrow> Some (Inl e, s')
    | Some (Inr x, s') \<Rightarrow> f x s')"

abbreviation sthen :: "('s, unit) st_m \<Rightarrow> ('s, 'b) st_m \<Rightarrow> ('s, 'b) st_m" where
  "sthen m f \<equiv> sbind m (\<lambda>_. f)"

abbreviation selog :: "string \<Rightarrow> ('s, 'a) st_m" where
  "selog msg \<equiv> sfail (Ereport ERRCODE_INTERNAL_ERROR msg)"

definition slift :: "'a result \<Rightarrow> ('s, 'a) st_m" where
  "slift r s = Some (r, s)"

definition sget :: "('s \<Rightarrow> 'a) \<Rightarrow> ('s, 'a) st_m" where
  "sget f s = Some (Inr (f s), s)"

definition smodify :: "('s \<Rightarrow> 's) \<Rightarrow> ('s, unit) st_m" where
  "smodify f s = Some (Inr (), f s)"

definition swhen :: "bool \<Rightarrow> ('s, unit) st_m \<Rightarrow> ('s, unit) st_m" where
  "swhen b m = (if b then m else sret ())"

fun sforeach :: "('a \<Rightarrow> ('s, unit) st_m) \<Rightarrow> 'a list \<Rightarrow> ('s, unit) st_m" where
  "sforeach f [] = sret ()"
| "sforeach f (x # xs) = sthen (f x) (sforeach f xs)"

text \<open>A computation on a part of the state.\<close>

definition on_part :: "('s \<Rightarrow> 't) \<Rightarrow> ('t \<Rightarrow> 's \<Rightarrow> 's) \<Rightarrow> ('t, 'a) st_m \<Rightarrow> ('s, 'a) st_m" where
  "on_part get_part put_part m s = (case m (get_part s) of
      None \<Rightarrow> None
    | Some (r, t) \<Rightarrow> Some (r, put_part t s))"

text \<open>Operations on a part of the state that may raise: reading it, replacing it, and replacing it with a value.\<close>

definition part_read :: "('s \<Rightarrow> 't) \<Rightarrow> ('t \<Rightarrow> 'a result) \<Rightarrow> ('s, 'a) st_m" where
  "part_read get_part f s = Some (f (get_part s), s)"

definition part_do ::
  "('s \<Rightarrow> 't) \<Rightarrow> ('t \<Rightarrow> 's \<Rightarrow> 's) \<Rightarrow> ('t \<Rightarrow> ('a \<times> 't) result) \<Rightarrow> ('s, 'a) st_m" where
  "part_do get_part put_part f s = (case f (get_part s) of
      Inl e \<Rightarrow> Some (Inl e, s)
    | Inr (x, t) \<Rightarrow> Some (Inr x, put_part t s))"

definition part_write :: "('s \<Rightarrow> 't) \<Rightarrow> ('t \<Rightarrow> 's \<Rightarrow> 's) \<Rightarrow> ('t \<Rightarrow> 't result) \<Rightarrow> ('s, unit) st_m" where
  "part_write get_part put_part f s = (case f (get_part s) of
      Inl e \<Rightarrow> Some (Inl e, s)
    | Inr t \<Rightarrow> Some (Inr (), put_part t s))"

text \<open>\<open>PG_ENSURE_ERROR_CLEANUP\<close>: the cleanup runs when the block raises, and an error of its own replaces the first.\<close>

definition ensure_error_cleanup :: "('s, unit) st_m \<Rightarrow> ('s, unit) st_m \<Rightarrow> ('s, unit) st_m" where
  "ensure_error_cleanup cleanup body s = (case body s of
      None \<Rightarrow> None
    | Some (Inr x, s') \<Rightarrow> Some (Inr x, s')
    | Some (Inl e, s') \<Rightarrow> sthen cleanup (sfail e) s')"

text \<open>
  The weakest precondition of a computation for a postcondition on its successful results.  The rules compute it along the program, so
  that a property of a function becomes a fact about the operations it is made of.
\<close>

named_theorems wp_simps \<open>weakest preconditions\<close>

definition wp :: "('s, 'a) st_m \<Rightarrow> ('a \<Rightarrow> 's \<Rightarrow> bool) \<Rightarrow> 's \<Rightarrow> bool" where
  "wp m Q s \<longleftrightarrow> (\<forall>x s'. m s = Some (Inr x, s') \<longrightarrow> Q x s')"

lemma sbind_eq:
  "sbind m f s = Some (r, s') \<longleftrightarrow>
   (\<exists>e. m s = Some (Inl e, s') \<and> r = Inl e) \<or> (\<exists>x t. m s = Some (Inr x, t) \<and> f x t = Some (r, s'))"
  by (auto simp: sbind_def split: option.splits prod.splits sum.splits)

lemma on_part_eq:
  "on_part get_part put_part m s = Some (r, s') \<longleftrightarrow>
   (\<exists>t. m (get_part s) = Some (r, t) \<and> s' = put_part t s)"
  by (auto simp: on_part_def split: option.splits)

lemma sbind_simps:
  "sbind (smodify g) f1 s = f1 () (g s)" "sbind (sget h) f2 s = f2 (h s) s" "sbind (sret x) f3 s = f3 x s"
  "sbind (sfail e) f4 s = Some (Inl e, s)" "sbind (slift (Inr y)) f5 s = f5 y s"
  "sbind (slift (Inl e)) f6 s = Some (Inl e, s)"
  by (simp_all add: sbind_def smodify_def sget_def sret_def sfail_def slift_def)

lemma sbind_read: "f (g s) = Inr x \<Longrightarrow> sbind (part_read g f) k s = k x s"
  by (simp add: sbind_def part_read_def)

lemma sbind_write: "f (g s) = Inr t \<Longrightarrow> sbind (part_write g p f) k s = k () (p t s)"
  by (simp add: sbind_def part_write_def)

lemma sbind_do: "f (g s) = Inr (x, t) \<Longrightarrow> sbind (part_do g p f) k s = k x (p t s)"
  by (simp add: sbind_def part_do_def)

lemma swhen_True: "swhen True m = m"
  by (simp add: swhen_def)

lemma sbind_assoc: "sbind (sbind m f) g = sbind m (\<lambda>x. sbind (f x) g)"
  by (auto simp: sbind_def fun_eq_iff split: option.splits prod.splits sum.splits)

lemma wp_basic [wp_simps]:
  "wp (sret x) Q1 s \<longleftrightarrow> Q1 x s" "wp (sfail e) Q2 s \<longleftrightarrow> True" "wp (sget g) Q3 s \<longleftrightarrow> Q3 (g s) s"
  "wp (smodify h) Q4 s \<longleftrightarrow> Q4 () (h s)" "wp (slift r) Q5 s \<longleftrightarrow> (\<forall>x. r = Inr x \<longrightarrow> Q5 x s)"
  by (auto simp: wp_def sret_def sfail_def sget_def smodify_def slift_def)

lemma wp_bind [wp_simps]: "wp (sbind m f) Q s \<longleftrightarrow> wp m (\<lambda>x. wp (f x) Q) s"
  by (auto simp: wp_def sbind_eq)

text \<open>The same without the state, for the postconditions of earlier steps.\<close>

lemma wp_fun [wp_simps]:
  "wp (sret x) Q1 = Q1 x" "wp (sbind m f) Q2 = wp m (\<lambda>x. wp (f x) Q2)"
  by (simp_all add: fun_eq_iff wp_basic wp_bind)

lemma wp_part [wp_simps]:
  "wp (part_read g r) Q1 s \<longleftrightarrow> (\<forall>x. r (g s) = Inr x \<longrightarrow> Q1 x s)"
  "wp (part_do g p d) Q2 s \<longleftrightarrow> (\<forall>x t. d (g s) = Inr (x, t) \<longrightarrow> Q2 x (p t s))"
  "wp (part_write g p w) Q3 s \<longleftrightarrow> (\<forall>t. w (g s) = Inr t \<longrightarrow> Q3 () (p t s))"
  by (auto simp: wp_def part_read_def part_do_def part_write_def split: sum.splits prod.splits)

lemma wp_split [wp_simps]:
  "wp (if b then m else n) Q s \<longleftrightarrow> (if b then wp m Q s else wp n Q s)"
  "wp (swhen b u) Q' s \<longleftrightarrow> (if b then wp u Q' s else Q' () s)"
  "wp (case z of None \<Rightarrow> m | Some y \<Rightarrow> k y) Q s \<longleftrightarrow> (case z of None \<Rightarrow> wp m Q s | Some y \<Rightarrow> wp (k y) Q s)"
  "wp (case w of (a, b) \<Rightarrow> l a b) Q s \<longleftrightarrow> (case w of (a, b) \<Rightarrow> wp (l a b) Q s)"
  by (auto simp: swhen_def wp_basic split: option.splits prod.splits)

lemma wp_mono: "wp m Q s \<Longrightarrow> (\<And>x s'. Q x s' \<Longrightarrow> R x s') \<Longrightarrow> wp m R s"
  by (auto simp: wp_def)

lemma wp_foreach:
  assumes "\<And>x s. x \<in> set xs \<Longrightarrow> I s \<Longrightarrow> wp (f x) (\<lambda>_. I) s" "I s"
  shows "wp (sforeach f xs) (\<lambda>_. I) s"
  using assms by (induction xs arbitrary: s) (force simp: wp_simps intro: wp_mono)+

end
