(* ===== verification/Pgl_Util.thy ===== *)
theory Pgl_Util
  imports Pgl_Catalog
begin

text \<open>
  String utilities: \<open>shorten_hash\<close>, \<open>textarray_to_list\<close> and \<open>parsePGArray\<close> of \<open>src/pglogical.c\<close> and \<open>gen_slot_name\<close> of
  \<open>src/pglogical_functions.c\<close>.  C strings are read up to their terminator, which is the end of the list.  The
  hash function \<open>hash_any\<close> is PostgreSQL's and a parameter.
\<close>

section \<open>Shortened names\<close>

definition hex_digit :: "nat \<Rightarrow> char" where
  "hex_digit d = (if d < 10 then char_of (48 + d) else char_of (87 + d))"

text \<open>\<open>%08x\<close> of a 32-bit number.\<close>

fun hex_pad :: "nat \<Rightarrow> nat \<Rightarrow> string" where
  "hex_pad 0 v = []"
| "hex_pad (Suc n) v = hex_pad n (v div 16) @ [hex_digit (v mod 16)]"

definition shorten_hash :: "(string \<Rightarrow> 32 word) \<Rightarrow> string \<Rightarrow> nat \<Rightarrow> string" where
  "shorten_hash hash_any str maxlen =
     (if length str \<le> maxlen then str
      else take (maxlen - 1) (take (maxlen - 8) str @ hex_pad 8 (unat (hash_any str))))"

definition slot_name_char :: "char \<Rightarrow> bool" where
  "slot_name_char c \<longleftrightarrow>
     (byte_val CHR ''a'' \<le> byte_val c \<and> byte_val c \<le> byte_val CHR ''z'') \<or>
     (byte_val CHR ''0'' \<le> byte_val c \<and> byte_val c \<le> byte_val CHR ''9'') \<or> c = CHR ''_''"

definition gen_slot_name :: "(string \<Rightarrow> 32 word) \<Rightarrow> string \<Rightarrow> string \<Rightarrow> string \<Rightarrow> string" where
  "gen_slot_name hash_any dbname provider_node subscription_name =
     map (\<lambda>c. if slot_name_char c then c else CHR ''_'')
       (take (NAMEDATALEN - 1) (''pgl_'' @ shorten_hash hash_any dbname 16 @ ''_'' @
          shorten_hash hash_any provider_node 16 @ ''_'' @ shorten_hash hash_any subscription_name 16))"

section \<open>Arrays\<close>

text \<open>The elements of a text array; \<open>deconstruct_array\<close> is called without a place for null flags and refuses NULL.\<close>

definition textarray_to_list :: "string option list \<Rightarrow> string list result" where
  "textarray_to_list elems =
     rmap (\<lambda>e. case e of None \<Rightarrow> ereport ERRCODE_NULL_VALUE_NOT_ALLOWED
              ''null array element not allowed in this context'' | Some s \<Rightarrow> Inr s) elems"

text \<open>
  The scan of one item, up to the comma or brace that ends it; \<open>quoted\<close> says whether the scan is
  inside a quoted substring.
\<close>

fun scan_item :: "bool \<Rightarrow> string \<Rightarrow> (string \<times> string) option" where
  "scan_item quoted [] = None"
| "scan_item False (c # r) =
     (if c = CHR ''}'' \<or> c = CHR '','' then Some ([], c # r)
      else if c \<noteq> CHR 0x22 then map_option (\<lambda>(s, r). (c # s, r)) (scan_item False r)
      else scan_item True r)"
| "scan_item True (c # r) =
     (if c = CHR 0x22 then scan_item False r
      else if c = CHR 0x5C
      then (case r of
              [] \<Rightarrow> None
            | d # r' \<Rightarrow> map_option (\<lambda>(s, r). (d # s, r)) (scan_item True r'))
      else map_option (\<lambda>(s, r). (c # s, r)) (scan_item True r))"

text \<open>The scan never moves back, and moves on unless it stands at the end of an item.\<close>

lemma scan_item_length:
  "scan_item q xs = Some (i, r) \<Longrightarrow> length r \<le> length xs \<and>
     (r = [] \<or> hd r = CHR ''}'' \<or> hd r = CHR '','') \<and>
     (length r = length xs \<longrightarrow> r = xs)"
  by (induction q xs arbitrary: i r rule: scan_item.induct)
    (fastforce split: if_splits list.splits)+

function parse_items :: "string \<Rightarrow> (string list \<times> string) option" where
  "parse_items xs =
     (case xs of
        [] \<Rightarrow> None
      | c # _ \<Rightarrow>
          if c = CHR ''}'' then Some ([], xs)
          else (case scan_item False xs of
                  None \<Rightarrow> None
                | Some (i, r) \<Rightarrow>
                    (case parse_items (if r \<noteq> [] \<and> hd r = CHR '','' then tl r else r) of
                       None \<Rightarrow> None
                     | Some (items, rest) \<Rightarrow> Some (i # items, rest))))"
  by auto
termination
proof (relation "measure length", goal_cases)
  case (2 xs c cs p i r)
  then have "scan_item False xs = Some (i, r)" "xs \<noteq> []" "hd xs \<noteq> CHR ''}''"
    by auto
  then show ?case
    using scan_item_length [of False xs i r] by (cases r) fastforce+
qed simp

definition parsePGArray :: "string \<Rightarrow> string list option" where
  "parsePGArray atext =
     (if length atext < 2 \<or> atext ! 0 \<noteq> CHR ''{'' \<or> atext ! (length atext - 1) \<noteq> CHR ''}'' then None
      else case parse_items (tl atext) of
             None \<Rightarrow> None
           | Some (items, rest) \<Rightarrow> if tl rest \<noteq> [] then None else Some items)"

section \<open>The output of text arrays\<close>

text \<open>
  How PostgreSQL prints a one-dimensional text array (\<open>array_out\<close>): items separated by commas in
  braces, an item in double quotes with quotes and backslashes escaped when it is empty or contains a
  character the syntax uses.  Whether other items are quoted too is left open: \<open>q\<close> decides.
\<close>

definition array_special :: "char \<Rightarrow> bool" where
  "array_special c \<longleftrightarrow> c = CHR ''{'' \<or> c = CHR ''}'' \<or> c = CHR 0x22 \<or> c = CHR 0x5C \<or> c = CHR '',''"

fun escape_item :: "string \<Rightarrow> string" where
  "escape_item [] = []"
| "escape_item (c # s) = (if c = CHR 0x22 \<or> c = CHR 0x5C then CHR 0x5C # c # escape_item s
                          else c # escape_item s)"

definition item_out :: "(string \<Rightarrow> bool) \<Rightarrow> string \<Rightarrow> string" where
  "item_out q s = (if q s then CHR 0x22 # escape_item s @ [CHR 0x22] else s)"

fun join_items :: "string list \<Rightarrow> string" where
  "join_items [] = []"
| "join_items [s] = s"
| "join_items (s # t # r) = s @ CHR '','' # join_items (t # r)"

definition array_out :: "(string \<Rightarrow> bool) \<Rightarrow> string list \<Rightarrow> string" where
  "array_out q items = CHR ''{'' # join_items (map (item_out q) items) @ ''}''"

definition quoting_ok :: "(string \<Rightarrow> bool) \<Rightarrow> bool" where
  "quoting_ok q \<longleftrightarrow> (\<forall>s. s = [] \<or> list_ex array_special s \<longrightarrow> q s)"

section \<open>Lemmas\<close>

declare parse_items.simps [simp del]

lemma scan_escaped:
  "scan_item True (escape_item s @ CHR 0x22 # r) = map_option (\<lambda>(t, r). (s @ t, r)) (scan_item False r)"
  by (induction s) (auto simp: option.map_comp option.map_ident comp_def split: prod.splits
      intro!: option.map_cong)

lemma scan_plain:
  "list_all (\<lambda>c. \<not> array_special c) s \<Longrightarrow> c = CHR ''}'' \<or> c = CHR '','' \<Longrightarrow>
   scan_item False (s @ c # r) = Some (s, c # r)"
  by (induction s) (auto simp: array_special_def)

lemma scan_item_out:
  assumes "quoting_ok q" "c = CHR ''}'' \<or> c = CHR '',''"
  shows "scan_item False (item_out q s @ c # r) = Some (s, c # r)"
proof (cases "q s")
  case True
  then show ?thesis
    using assms(2) by (auto simp: item_out_def scan_escaped)
next
  case False
  then have "list_all (\<lambda>c. \<not> array_special c) s"
    using assms(1) by (auto simp: quoting_ok_def list_ex_iff list_all_iff)
  then show ?thesis
    using False assms(2) by (simp add: item_out_def scan_plain)
qed

lemma item_out_start:
  assumes "quoting_ok q"
  shows "\<exists>d t. item_out q s = d # t \<and> d \<noteq> CHR ''}''"
proof (cases "q s")
  case False
  then have "s \<noteq> []" "\<not> list_ex array_special s"
    using assms by (auto simp: quoting_ok_def)
  then show ?thesis
    using False by (cases s) (auto simp: item_out_def array_special_def)
qed (simp add: item_out_def)

lemma parse_items_brace: "parse_items (CHR ''}'' # r) = Some ([], CHR ''}'' # r)"
  by (simp add: parse_items.simps)

lemma parse_items_out:
  assumes "quoting_ok q"
  shows "parse_items (join_items (map (item_out q) items) @ ''}'') = Some (items, ''}'')"
proof (induction items rule: join_items.induct)
  case 1
  then show ?case by (simp add: parse_items_brace)
next
  case (2 s)
  obtain d t where "item_out q s = d # t" "d \<noteq> CHR ''}''"
    using item_out_start [OF assms] by blast
  then show ?case
    using scan_item_out [OF assms, of "CHR ''}''" s "[]"]
    by (subst parse_items.simps) (simp add: parse_items_brace)
next
  case (3 s t r)
  obtain d u where "item_out q s = d # u" "d \<noteq> CHR ''}''"
    using item_out_start [OF assms] by blast
  then show ?case
    using 3 scan_item_out [OF assms, of "CHR '',''" s "join_items (map (item_out q) (t # r)) @ ''}''"]
    by (subst parse_items.simps) simp
qed

lemma length_hex_pad [simp]: "length (hex_pad n v) = n"
  by (induction n v rule: hex_pad.induct) simp_all

lemma length_shorten_hash:
  "16 \<le> maxlen \<Longrightarrow> length (shorten_hash h s maxlen) = (if length s \<le> maxlen then length s else maxlen - 1)"
  by (simp add: shorten_hash_def)

section \<open>Properties\<close>

text \<open>
  C33.  What \<open>array_out\<close> prints \<open>parsePGArray\<close> reads back: for every list of items, and whatever items are
  quoted beyond those that must be, the parser returns exactly the items; in particular it always
  ends, and the column lists that the provider sends arrive as they are, with commas, braces,
  quotes, backslashes and empty names in them.
\<close>

theorem parse_array_roundtrip:
  assumes "quoting_ok q"
  shows "parsePGArray (array_out q items) = Some items"
  using parse_items_out [OF assms, of items]
  by (simp add: parsePGArray_def array_out_def nth_append)

theorem parse_array_roundtrip_witness:
  "quoting_ok (\<lambda>s. s = [] \<or> list_ex array_special s) \<and>
   parsePGArray (array_out (\<lambda>s. s = [] \<or> list_ex array_special s) [''id'', ''a,b'', []]) =
     Some [''id'', ''a,b'', []]"
  by (simp add: parse_array_roundtrip quoting_ok_def)

text \<open>
  C34.  A generated slot name is valid: for any database, node and subscription name it consists of
  lower-case letters, digits and underscores, begins with \<open>pgl_\<close> and has at most 54 characters, so
  that the 63 that a name can have are never reached and no part is cut off at the end.
\<close>

theorem generated_slot_name_valid:
  "list_all slot_name_char (gen_slot_name h db node sub) \<and>
   take 4 (gen_slot_name h db node sub) = ''pgl_'' \<and>
   length (gen_slot_name h db node sub) =
     6 + length (shorten_hash h db 16) + length (shorten_hash h node 16) + length (shorten_hash h sub 16) \<and>
   length (gen_slot_name h db node sub) \<le> 54"
proof -
  have "length (shorten_hash h s 16) \<le> 16" for s
    by (simp add: length_shorten_hash)
  from this [of db] this [of node] this [of sub]
  show ?thesis
    by (auto simp: gen_slot_name_def list_all_iff slot_name_char_def byte_val_def)
qed

end
