(* ===== verification/Pgl_Rpc.thy ===== *)
theory Pgl_Rpc
  imports Pgl_Util Pgl_Relcache Pgl_Output
begin

text \<open>
  The subscriber's side of the connections to the provider: the queries of \<open>src/pglogical_rpc.c\<close> and the
  connection, \<open>IDENTIFY_SYSTEM\<close> and \<open>START_REPLICATION\<close> functions of \<open>src/pglogical.c\<close>.  A connection is the record of what \<open>libpq\<close>
  answers on it; the strings that are sent are built as in the source.
\<close>

section \<open>libpq\<close>

datatype ExecStatusType =
    PGRES_TUPLES_OK | PGRES_COMMAND_OK | PGRES_COPY_OUT | PGRES_COPY_IN | PGRES_COPY_BOTH | PGRES_FATAL_ERROR

text \<open>A result: its status, its rows (\<open>None\<close> is NULL), the number of its fields and its error message.\<close>

record PGresult =
  PQresultStatus :: ExecStatusType
  res_rows :: "string option list list"
  PQnfields :: nat
  PQresultErrorMessage :: string

record PGconn =
  PQexec :: "string \<Rightarrow> PGresult"
  PQexecParams :: "string \<Rightarrow> string list \<Rightarrow> PGresult"
  PQescapeLiteral :: "string \<Rightarrow> string"
  PQescapeIdentifier :: "string \<Rightarrow> string"

definition PQntuples :: "PGresult \<Rightarrow> nat" where
  "PQntuples res = length (res_rows res)"

text \<open>A NULL field reads as the empty string; a row or field that is not there is a NULL pointer.\<close>

definition PQgetvalue :: "PGresult \<Rightarrow> nat \<Rightarrow> nat \<Rightarrow> string result" where
  "PQgetvalue res row field =
     (if row < length (res_rows res) \<and> field < length (res_rows res ! row)
      then Inr (case res_rows res ! row ! field of None \<Rightarrow> [] | Some s \<Rightarrow> s)
      else Inl NullDereference)"

definition PQgetisnull :: "PGresult \<Rightarrow> nat \<Rightarrow> nat \<Rightarrow> bool" where
  "PQgetisnull res row field =
     (row < length (res_rows res) \<and> field < length (res_rows res ! row) \<longrightarrow>
      res_rows res ! row ! field = None)"

text \<open>\<open>strtoul\<close> in base 10: blanks, a sign, digits; too large a number is the largest one.\<close>

definition is_digit :: "char \<Rightarrow> bool" where
  "is_digit c \<longleftrightarrow> 48 \<le> byte_val c \<and> byte_val c \<le> 57"

definition is_blank :: "char \<Rightarrow> bool" where
  "is_blank c \<longleftrightarrow> byte_val c = 32 \<or> (9 \<le> byte_val c \<and> byte_val c \<le> 13)"

definition digits_value :: "string \<Rightarrow> nat" where
  "digits_value s = foldl (\<lambda>v c. v * 10 + (byte_val c - 48)) 0 s"

definition strtoul10 :: "string \<Rightarrow> 64 word" where
  "strtoul10 s =
     (let s = dropWhile is_blank s;
          negative = (s \<noteq> [] \<and> hd s = CHR ''-'');
          s = (if s \<noteq> [] \<and> (hd s = CHR ''-'' \<or> hd s = CHR ''+'') then tl s else s);
          v = digits_value (takeWhile is_digit s)
      in if 18446744073709551615 < v then - 1
         else if negative then - of_nat v else of_nat v)"

definition atooid :: "string \<Rightarrow> oid" where
  "atooid s = ucast (strtoul10 s)"

section \<open>Queries\<close>

fun comma_join :: "string list \<Rightarrow> string" where
  "comma_join [] = []"
| "comma_join [s] = s"
| "comma_join (s # t # r) = s @ '','' @ comma_join (t # r)"

definition repset_array :: "PGconn \<Rightarrow> string list \<Rightarrow> string" where
  "repset_array conn replication_sets = comma_join (map (PQescapeLiteral conn) replication_sets)"

definition remote_rel :: "PGresult \<Rightarrow> nat \<Rightarrow> PGLogicalRemoteRel result" where
  "remote_rel res i =
     rbind (PQgetvalue res i 0) (\<lambda>relid.
     rbind (PQgetvalue res i 1) (\<lambda>nspname.
     rbind (PQgetvalue res i 2) (\<lambda>rname.
     rbind (PQgetvalue res i 3) (\<lambda>att_list.
     case parsePGArray att_list of
       None \<Rightarrow> elog ''could not parse column list for table''
     | Some atts \<Rightarrow>
         rbind (PQgetvalue res i 4) (\<lambda>filt.
           Inr \<lparr> rem_relid = atooid relid, rem_nspname = nspname, rem_relname = rname,
                 rem_attnames = atts, hasRowFilter = (filt = ''t'') \<rparr>)))))"

definition pg_logical_get_remote_repset_tables ::
  "PGconn \<Rightarrow> string list \<Rightarrow> PGLogicalRemoteRel list result" where
  "pg_logical_get_remote_repset_tables conn replication_sets =
     (let repsetarr = repset_array conn replication_sets;
          query = ''SELECT i.relid, i.nspname, i.relname, i.att_list,       i.has_row_filter'' @
            ''  FROM (SELECT DISTINCT relid FROM pglogical.tables WHERE set_name = ANY(ARRAY['' @ repsetarr @
            ''])) t,       LATERAL pglogical.show_repset_table_info(t.relid, ARRAY['' @ repsetarr @ '']) i'';
          res = PQexec conn query
      in if PQresultStatus res \<noteq> PGRES_TUPLES_OK then elog ''could not get table list''
         else rmap (remote_rel res) [0..<PQntuples res])"

definition qualified_name :: "PGconn \<Rightarrow> string \<Rightarrow> string \<Rightarrow> string" where
  "qualified_name conn nspname rname = PQescapeIdentifier conn nspname @ ''.'' @ PQescapeIdentifier conn rname"

definition pg_logical_get_remote_repset_table ::
  "PGconn \<Rightarrow> string \<Rightarrow> string \<Rightarrow> string list \<Rightarrow> PGLogicalRemoteRel result" where
  "pg_logical_get_remote_repset_table conn schemaname rname replication_sets =
     (let query = ''SELECT i.relid, i.nspname, i.relname, i.att_list,       i.has_row_filter'' @
            ''  FROM pglogical.show_repset_table_info('' @
            PQescapeLiteral conn (qualified_name conn schemaname rname) @ ''::regclass, ARRAY['' @
            repset_array conn replication_sets @ '']) i'';
          res = PQexec conn query
      in if PQresultStatus res \<noteq> PGRES_TUPLES_OK \<or> PQntuples res \<noteq> 1 then elog ''could not get table list''
         else remote_rel res 0)"

text \<open>The plugin of a slot row; a slot of another plugin is an error.\<close>

definition check_slot_plugin :: "PGresult \<Rightarrow> unit result" where
  "check_slot_plugin res =
     (if PQgetisnull res 0 0 then elog ''Unexpectedly null field %s''
      else rbind (PQgetvalue res 0 0) (\<lambda>plugin.
           if ''pglogical_output'' \<noteq> plugin
           then elog ''slot %s is not pglogical_output slot'' else Inr ()))"

definition pglogical_remote_slot_active :: "PGconn \<Rightarrow> string \<Rightarrow> bool result" where
  "pglogical_remote_slot_active conn slot_name =
     (let res = PQexecParams conn (''SELECT plugin, active FROM pg_catalog.pg_replication_slots '' @
            ''WHERE slot_name = $1'') [slot_name]
      in if PQresultStatus res \<noteq> PGRES_TUPLES_OK then elog ''getting remote slot info failed''
         else if PQntuples res = 0 then Inr False
         else rbind (check_slot_plugin res) (\<lambda>_.
              rbind (PQgetvalue res 0 1) (\<lambda>active. Inr (active = ''t''))))"

text \<open>The slot is dropped by the last query; the function returns whether that query was sent.\<close>

definition pglogical_drop_remote_slot :: "PGconn \<Rightarrow> string \<Rightarrow> bool result" where
  "pglogical_drop_remote_slot conn slot_name =
     (let res = PQexecParams conn (''SELECT plugin FROM pg_catalog.pg_replication_slots '' @
            ''WHERE slot_name = $1'') [slot_name]
      in if PQresultStatus res \<noteq> PGRES_TUPLES_OK then elog ''getting remote slot info failed''
         else if PQntuples res = 0 then Inr False
         else rbind (check_slot_plugin res) (\<lambda>_.
              let res = PQexecParams conn ''SELECT pg_drop_replication_slot($1)'' [slot_name]
              in if PQresultStatus res \<noteq> PGRES_TUPLES_OK then elog ''remote slot drop failed''
                 else Inr True))"

record remote_node_info =
  ri_nodeid :: oid
  ri_node_name :: string
  ri_sysid :: string
  ri_dbname :: string
  ri_replication_sets :: string

definition pglogical_remote_node_info :: "PGconn \<Rightarrow> remote_node_info result" where
  "pglogical_remote_node_info conn =
     (let res = PQexec conn
            ''SELECT node_id, node_name, sysid, dbname, replication_sets FROM pglogical.pglogical_node_info()''
      in if PQresultStatus res \<noteq> PGRES_TUPLES_OK then elog ''could fetch remote node info: %s''
         else if PQntuples res = 0
         then elog ''the remote database is not configured as a pglogical node.''
         else if PQntuples res > 1
         then elog ''the remote database has multiple nodes configured. That is not supported with current version of pglogical.''
         else rbind (PQgetvalue res 0 0) (\<lambda>nodeid.
              rbind (PQgetvalue res 0 1) (\<lambda>name.
              rbind (PQgetvalue res 0 2) (\<lambda>sysid.
              rbind (PQgetvalue res 0 3) (\<lambda>dbname.
              rbind (PQgetvalue res 0 4) (\<lambda>sets.
                Inr \<lparr> ri_nodeid = atooid nodeid, ri_node_name = name, ri_sysid = sysid,
                      ri_dbname = dbname, ri_replication_sets = sets \<rparr>))))))"

definition pglogical_remote_function_exists ::
  "PGconn \<Rightarrow> string \<Rightarrow> string \<Rightarrow> int \<Rightarrow> bool result" where
  "pglogical_remote_function_exists conn nspname rname nargs =
     (let res = PQexecParams conn (''SELECT oid   FROM pg_catalog.pg_proc  WHERE proname = $1 '' @
            ''  AND pronamespace =        (SELECT oid           FROM pg_catalog.pg_namespace '' @
            ''        WHERE nspname = $2)    AND pronargs = $3'')
            [rname, nspname, take 28 (dec_of_int nargs)]
      in if PQresultStatus res \<noteq> PGRES_TUPLES_OK then elog ''could fetch remote function info: %s''
         else Inr (PQntuples res > 0))"

section \<open>Connecting\<close>

text \<open>The connection parameters; \<open>None\<close> is a NULL value.  The extra options are used in the error detail only.\<close>

definition connection_params ::
  "(string \<Rightarrow> 32 word) \<Rightarrow> string \<Rightarrow> string \<Rightarrow> string option \<Rightarrow> bool \<Rightarrow> (string \<times> string option) list" where
  "connection_params hash_any connstr appname suffix replication =
     [(''dbname'', Some connstr),
      (''application_name'', Some (case suffix of
          None \<Rightarrow> appname
        | Some sfx \<Rightarrow> take (NAMEDATALEN - 1)
            (shorten_hash hash_any appname (NAMEDATALEN - length sfx - 2) @ ''_'' @ sfx))),
      (''connect_timeout'', Some ''30''),
      (''keepalives'', Some ''1''),
      (''keepalives_idle'', Some ''20''),
      (''keepalives_interval'', Some ''20''),
      (''keepalives_count'', Some ''5''),
      (''replication'', if replication then Some ''database'' else None)]"

text \<open>\<open>PQconnectdbParams\<close>: the connection, or none when its status is not \<open>CONNECTION_OK\<close>.\<close>

definition pglogical_connect_base ::
  "((string \<times> string option) list \<Rightarrow> PGconn option) \<Rightarrow> (string \<Rightarrow> 32 word) \<Rightarrow> string \<Rightarrow> string
     \<Rightarrow> string option \<Rightarrow> bool \<Rightarrow> PGconn result" where
  "pglogical_connect_base PQconnectdbParams hash_any connstr appname suffix replication =
     (case PQconnectdbParams (connection_params hash_any connstr appname suffix replication) of
        None \<Rightarrow> elog ''could not connect to the postgresql server%s: %s''
      | Some conn \<Rightarrow> Inr conn)"

definition pglogical_connect ::
  "((string \<times> string option) list \<Rightarrow> PGconn option) \<Rightarrow> (string \<Rightarrow> 32 word) \<Rightarrow> string \<Rightarrow> string
     \<Rightarrow> string option \<Rightarrow> PGconn result" where
  "pglogical_connect PQconnectdbParams hash_any connstring connname suffix =
     pglogical_connect_base PQconnectdbParams hash_any connstring connname suffix False"

definition pglogical_connect_replica ::
  "((string \<times> string option) list \<Rightarrow> PGconn option) \<Rightarrow> (string \<Rightarrow> 32 word) \<Rightarrow> string \<Rightarrow> string
     \<Rightarrow> string option \<Rightarrow> PGconn result" where
  "pglogical_connect_replica PQconnectdbParams hash_any connstring connname suffix =
     pglogical_connect_base PQconnectdbParams hash_any connstring connname suffix True"

section \<open>The replication commands\<close>

text \<open>\<open>sscanf\<close> of one number: the digits at the start, none of which is a failure.\<close>

definition is_hex :: "char \<Rightarrow> bool" where
  "is_hex c \<longleftrightarrow> is_digit c \<or> (65 \<le> byte_val c \<and> byte_val c \<le> 70) \<or> (97 \<le> byte_val c \<and> byte_val c \<le> 102)"

definition hex_value :: "char \<Rightarrow> nat" where
  "hex_value c = (if is_digit c then byte_val c - 48
                  else if byte_val c \<le> 70 then byte_val c - 55 else byte_val c - 87)"

definition scan_hex :: "string \<Rightarrow> (32 word \<times> string) option" where
  "scan_hex s = (case takeWhile is_hex s of
      [] \<Rightarrow> None
    | ds \<Rightarrow> Some (of_nat (foldl (\<lambda>v c. v * 16 + hex_value c) 0 ds), dropWhile is_hex s))"

definition scan_xlogpos :: "string \<Rightarrow> xlogrecptr option" where
  "scan_xlogpos s = (case scan_hex s of
      Some (hi, CHR ''/'' # r) \<Rightarrow>
        (case scan_hex r of
           Some (lo, _) \<Rightarrow> Some (push_bit 32 (ucast hi) + ucast lo)
         | None \<Rightarrow> None)
    | _ \<Rightarrow> None)"

definition scan_dec :: "string \<Rightarrow> nat option" where
  "scan_dec s = (case takeWhile is_digit (dropWhile is_blank s) of [] \<Rightarrow> None | ds \<Rightarrow> Some (digits_value ds))"

text \<open>
  Each output of \<open>pglogical_identify_system\<close> is filled in when the caller passes a pointer for it; \<open>None\<close> is an
  output that was not asked for.
\<close>

record system_identity =
  sys_id :: "64 word option"
  sys_timeline :: "32 word option"
  sys_xlogpos :: "xlogrecptr option"
  sys_dbname :: "string option"

definition output_field ::
  "PGresult \<Rightarrow> bool \<Rightarrow> nat \<Rightarrow> (string \<Rightarrow> 'a option) \<Rightarrow> string \<Rightarrow> 'a option result" where
  "output_field res wanted field scan msg =
     (if wanted
      then rbind (PQgetvalue res 0 field) (\<lambda>s. case scan s of None \<Rightarrow> elog msg | Some v \<Rightarrow> Inr (Some v))
      else Inr None)"

definition pglogical_identify_system ::
  "PGconn \<Rightarrow> bool \<Rightarrow> bool \<Rightarrow> bool \<Rightarrow> bool \<Rightarrow> system_identity result" where
  "pglogical_identify_system conn sysid timeline xlogpos dbname =
     (let res = PQexec conn ''IDENTIFY_SYSTEM'' in
      if PQresultStatus res \<noteq> PGRES_TUPLES_OK then elog ''could not send replication command %s: %s''
      else if PQntuples res \<noteq> 1 \<or> PQnfields res < 4
      then elog ''could not identify system: got %d rows and %d fields, expected %d rows and at least %d fields''
      else rbind (output_field res sysid 0 (\<lambda>s. map_option of_nat (scan_dec s)) ''could not parse remote sysid %s'')
             (\<lambda>i.
           rbind (output_field res timeline 1 (\<lambda>s. map_option of_nat (scan_dec s)) ''could not parse remote tlid %s'')
             (\<lambda>t.
           rbind (output_field res xlogpos 2 scan_xlogpos ''could not parse remote xlogpos %s'') (\<lambda>x.
           rbind (output_field res dbname 3 (\<lambda>s. Some (take (NAMEDATALEN - 1) s)) []) (\<lambda>n.
             Inr \<lparr> sys_id = i, sys_timeline = t, sys_xlogpos = x, sys_dbname = n \<rparr>)))))"

text \<open>
  An option of \<open>START_REPLICATION\<close>: whether its name is written in double quotes, its name, its value, and
  whether the value goes through \<open>quote_literal_cstr\<close> or is put between quotes as it is.
\<close>

record start_option =
  so_quoted :: bool
  so_name :: string
  so_value :: string
  so_literal :: bool

definition plain_option :: "bool \<Rightarrow> string \<Rightarrow> string \<Rightarrow> start_option" where
  "plain_option quoted name val = \<lparr> so_quoted = quoted, so_name = name, so_value = val, so_literal = False \<rparr>"

definition literal_option :: "string \<Rightarrow> string option \<Rightarrow> start_option list" where
  "literal_option name val = (case val of
      None \<Rightarrow> []
    | Some v \<Rightarrow> [\<lparr> so_quoted = True, so_name = name, so_value = v, so_literal = True \<rparr>])"

definition bool_digit :: "bool \<Rightarrow> string" where
  "bool_digit b = (if b then ''1'' else ''0'')"

definition start_replication_options ::
  "server_env \<Rightarrow> string option \<Rightarrow> string option \<Rightarrow> string option \<Rightarrow> start_option list" where
  "start_replication_options C forward_origins replication_sets replicate_only_table =
     [plain_option False ''expected_encoding'' (GetDatabaseEncodingName C),
      plain_option False ''min_proto_version'' ''1'',
      plain_option False ''max_proto_version'' ''1'',
      plain_option False ''startup_params_format'' ''1'',
      plain_option True ''binary.want_internal_basetypes'' ''1'',
      plain_option True ''binary.want_binary_basetypes'' ''1'',
      plain_option True ''binary.basetypes_major_version'' (dec_of_int (PG_VERSION_NUM C div 100)),
      plain_option True ''binary.sizeof_datum'' (dec_of_int (sizeof_datum C)),
      plain_option True ''binary.sizeof_int'' (dec_of_int (sizeof_int C)),
      plain_option True ''binary.sizeof_long'' (dec_of_int (sizeof_long C)),
      plain_option True ''binary.bigendian'' (bool_digit (server_bigendian C)),
      plain_option True ''binary.float4_byval'' (bool_digit (server_float4_byval C)),
      plain_option True ''binary.float8_byval'' (bool_digit (server_float8_byval C)),
      plain_option True ''binary.integer_datetimes'' (bool_digit (server_integer_datetimes C)),
      plain_option True ''hooks.setup_function'' ''pglogical.pglogical_hooks_setup''] @
     literal_option ''pglogical.forward_origins'' forward_origins @
     literal_option ''pglogical.replicate_only_table'' replicate_only_table @
     literal_option ''pglogical.replication_set_names'' replication_sets @
     [plain_option True ''relmeta_cache_size'' ''-1'',
      plain_option False ''pg_version'' (dec_of_int (PG_VERSION_NUM C)),
      plain_option False ''pglogical_version'' ''1.3.0'',
      plain_option False ''pglogical_version_num'' ''10300'',
      plain_option False ''pglogical_apply_pid'' (dec_of_int (MyProcPid C))]"

definition render_option :: "(string \<Rightarrow> string) \<Rightarrow> start_option \<Rightarrow> string" where
  "render_option quote_literal_cstr opt =
     (if so_quoted opt then CHR 0x22 # so_name opt @ [CHR 0x22] else so_name opt) @ '' '' @
     (if so_literal opt then quote_literal_cstr (so_value opt)
      else CHR 0x27 # so_value opt @ [CHR 0x27])"

fun render_options :: "(string \<Rightarrow> string) \<Rightarrow> start_option list \<Rightarrow> string" where
  "render_options q [] = []"
| "render_options q [opt] = render_option q opt"
| "render_options q (opt # opt' # r) = render_option q opt @ '', '' @ render_options q (opt' # r)"

definition start_replication_command ::
  "server_env \<Rightarrow> (string \<Rightarrow> string) \<Rightarrow> string \<Rightarrow> xlogrecptr \<Rightarrow> string option \<Rightarrow> string option \<Rightarrow> string option
     \<Rightarrow> string" where
  "start_replication_command C quote_literal_cstr slot_name start_pos origins sets only_table =
     ''START_REPLICATION SLOT '' @ CHR 0x22 # slot_name @ CHR 0x22 # '' LOGICAL '' @
     hex_of_nat (unat start_pos div 4294967296) @ ''/'' @ hex_of_nat (unat start_pos mod 4294967296) @ '' ('' @
     render_options quote_literal_cstr (start_replication_options C origins sets only_table) @ '')''"

definition pglogical_start_replication ::
  "server_env \<Rightarrow> (string \<Rightarrow> string) \<Rightarrow> PGconn \<Rightarrow> string \<Rightarrow> xlogrecptr \<Rightarrow> string option \<Rightarrow> string option
     \<Rightarrow> string option \<Rightarrow> unit result" where
  "pglogical_start_replication C quote_literal_cstr conn slot_name start_pos origins sets only_table =
     (let res = PQexec conn (start_replication_command C quote_literal_cstr slot_name start_pos origins
                               sets only_table)
      in if PQresultStatus res \<noteq> PGRES_COPY_BOTH
         then elog ''could not send replication command %s: %s, sqlstate: %s'' else Inr ())"

text \<open>What the replication grammar of the server makes of an option: a \<open>DefElem\<close> with its name and value.\<close>

definition option_defelem :: "start_option \<Rightarrow> defelem" where
  "option_defelem opt = \<lparr> defname = so_name opt, defarg = Some (so_value opt) \<rparr>"

section \<open>What the parameter functions of the provider promise\<close>

definition lower_char :: "char \<Rightarrow> char" where
  "lower_char c = (if 65 \<le> byte_val c \<and> byte_val c \<le> 90 then char_of (byte_val c + 32) else c)"

text \<open>
  The backend functions behind the parameters: numbers are read as they are printed, the digits 1 and 0
  are booleans, and names are compared without regard to case.
\<close>

locale server_text =
  fixes S :: server_env
  assumes scan_printed: "- (2 ^ 63) \<le> n \<Longrightarrow> n < 2 ^ 63 \<Longrightarrow> scanint8 S (dec_of_int n) = Some n"
    and bool_1: "parse_bool S ''1'' = Some True"
    and bool_0: "parse_bool S ''0'' = Some False"
    and caseeq: "pg_strcaseeq S a b \<longleftrightarrow> map lower_char a = map lower_char b"
    and hooks_name: "textToQualifiedNameList S ''pglogical.pglogical_hooks_setup'' =
      Inr [''pglogical'', ''pglogical_hooks_setup'']"
begin

lemma scan_1: "scanint8 S ''1'' = Some 1"
proof -
  have "char_of (49 :: nat) = CHR ''1''"
    by (simp add: char_of_eq_iff)
  then show ?thesis
    using scan_printed [of 1] by (simp add: dec_of_int_def dec_of_nat.simps digit_char_def)
qed

lemma bool_digit_read: "parse_bool S (bool_digit b) = Some b"
  by (simp add: bool_digit_def bool_1 bool_0)

lemma printed_uint32: "0 \<le> n \<Longrightarrow> n < 2 ^ 32 \<Longrightarrow> parse_param_uint32 S (dec_of_int n) = Inr (of_int n)"
  using scan_printed [of n] by (simp add: parse_param_uint32_def)

end

text \<open>The conversion in a form that evaluates: the bound is compared as an integer.\<close>

lemma strtoul10_code [code]:
  "strtoul10 s =
     (let s = dropWhile is_blank s;
          negative = (s \<noteq> [] \<and> hd s = CHR ''-'');
          s = (if s \<noteq> [] \<and> (hd s = CHR ''-'' \<or> hd s = CHR ''+'') then tl s else s);
          v = digits_value (takeWhile is_digit s)
      in if (18446744073709551615::int) < int v then - 1
         else if negative then - of_nat v else of_nat v)"
  by (simp add: strtoul10_def Let_def)

definition client_ok :: "server_env \<Rightarrow> bool" where
  "client_ok C \<longleftrightarrow> 0 \<le> PG_VERSION_NUM C \<and> PG_VERSION_NUM C < 2 ^ 31 \<and>
     0 \<le> sizeof_datum C \<and> sizeof_datum C < 2 ^ 31 \<and> 0 \<le> sizeof_int C \<and> sizeof_int C < 2 ^ 31 \<and>
     0 \<le> sizeof_long C \<and> sizeof_long C < 2 ^ 31"

text \<open>What the provider stores for a subscriber with the build constants \<open>C\<close>.\<close>

definition handshake_data :: "server_env \<Rightarrow> 'p \<Rightarrow> 'p PGLogicalOutputData" where
  "handshake_data C p = (palloc0_data p)\<lparr>
     client_max_proto_version := 1, client_min_proto_version := 1,
     client_expected_encoding := Some (GetDatabaseEncodingName C),
     client_want_internal_basetypes_set := True, client_want_internal_basetypes := True,
     client_want_binary_basetypes_set := True, client_want_binary_basetypes := True,
     client_binary_basetypes_major_version := of_int (PG_VERSION_NUM C div 100),
     client_binary_sizeofdatum := of_int (sizeof_datum C),
     client_binary_sizeofint := of_int (sizeof_int C),
     client_binary_sizeoflong := of_int (sizeof_long C),
     client_binary_bigendian_set := True, client_binary_bigendian := server_bigendian C,
     client_binary_float4byval_set := True, client_binary_float4byval := server_float8_byval C,
     client_binary_intdatetimes_set := True,
     client_binary_intdatetimes := server_integer_datetimes C,
     hooks_setup_funcname := [''pglogical'', ''pglogical_hooks_setup''],
     client_pg_version := of_int (PG_VERSION_NUM C) \<rparr>"

text \<open>An instance: the functions as documented, on the example server.\<close>

definition read_int :: "string \<Rightarrow> int option" where
  "read_int s = (let ds = (if s \<noteq> [] \<and> hd s = CHR ''-'' then tl s else s) in
     if ds = [] \<or> \<not> list_all is_digit ds then None
     else Some (if s \<noteq> [] \<and> hd s = CHR ''-'' then - int (digits_value ds) else int (digits_value ds)))"

definition text_server :: server_env where
  "text_server = ex_server\<lparr> scanint8 := read_int,
     pg_strcaseeq := (\<lambda>a b. map lower_char a = map lower_char b),
     textToQualifiedNameList := (\<lambda>s. if s = ''pglogical.pglogical_hooks_setup''
        then Inr [''pglogical'', ''pglogical_hooks_setup''] else Inr [s]) \<rparr>"

section \<open>Lemmas\<close>

lemma digits_value_snoc: "digits_value (s @ [c]) = digits_value s * 10 + (byte_val c - 48)"
  by (simp add: digits_value_def)

lemma digit_char_value: "d < 10 \<Longrightarrow> byte_val (digit_char d) = 48 + d"
  by (simp add: digit_char_def byte_val_def)

lemma dec_of_nat_digits:
  "dec_of_nat n \<noteq> [] \<and> list_all is_digit (dec_of_nat n) \<and> digits_value (dec_of_nat n) = n"
proof (induction n rule: dec_of_nat.induct)
  case (1 n)
  have d: "is_digit (digit_char k)" if "k < 10" for k
    using digit_char_value [OF that] that by (simp add: is_digit_def)
  show ?case
  proof (cases "n < 10")
    case True
    then show ?thesis
      using d [of n] by (simp add: dec_of_nat.simps [of n] digits_value_def digit_char_value)
  next
    case False
    then show ?thesis
      using 1 d [of "n mod 10"]
      by (simp add: dec_of_nat.simps [of n] digits_value_snoc digit_char_value)
  qed
qed

lemma read_printed: "read_int (dec_of_int n) = Some n"
proof -
  have "hd (dec_of_nat m) \<noteq> CHR ''-''" for m
    using dec_of_nat_digits [of m] by (cases "dec_of_nat m") (auto simp: is_digit_def byte_val_def)
  then show ?thesis
    using dec_of_nat_digits [of "nat n"] dec_of_nat_digits [of "nat (- n)"]
    by (auto simp: read_int_def dec_of_int_def Let_def)
qed

interpretation text_server: server_text text_server
  by unfold_locales (simp_all add: text_server_def read_printed ex_server_def)


context server_text
begin

lemma apply_simps:
  "parse_param_bool S ''1'' = Inr True" "parse_param_bool S (bool_digit b) = Inr b"
  "parse_param_uint32 S ''1'' = Inr 1"
  by (simp_all add: parse_param_bool_def bool_1 bool_digit_read parse_param_uint32_def scan_1)

lemma apply_literal: "apply_params S (map option_defelem (literal_option name v) @ rest) d =
    apply_params S rest d" if "get_param_key name = PARAM_UNRECOGNISED"
  using that by (cases v) (simp_all add: literal_option_def option_defelem_def apply_param_def)

lemma handshake_params:
  assumes "client_ok C"
  shows "apply_params S (map option_defelem (start_replication_options C fo rs ot))
      ((palloc0_data p)\<lparr> client_max_proto_version := 1, client_min_proto_version := 1 \<rparr>) =
    Inr (handshake_data C p)"
proof -
  have n: "0 \<le> PG_VERSION_NUM C div 100" "PG_VERSION_NUM C div 100 < 2 ^ 32"
    using assms by (auto simp: client_ok_def)
  show ?thesis
    using assms n
    by (simp add: start_replication_options_def apply_literal plain_option_def option_defelem_def
        apply_param_def get_param_key_def param_lookup_def get_param_value_def apply_simps
        printed_uint32 hooks_name client_ok_def handshake_data_def)
qed

lemma handshake_versions:
  "get_param S (map option_defelem (start_replication_options C fo rs ot)) ''startup_params_format'' False
     False OUTPUT_PARAM_TYPE_UINT32 = Inr (PV_UInt32 1, True)"
  "get_param S (map option_defelem (start_replication_options C fo rs ot)) ''max_proto_version'' False
     False OUTPUT_PARAM_TYPE_UINT32 = Inr (PV_UInt32 1, True)"
  "get_param S (map option_defelem (start_replication_options C fo rs ot)) ''min_proto_version'' False
     False OUTPUT_PARAM_TYPE_UINT32 = Inr (PV_UInt32 1, True)"
  by (simp_all add: start_replication_options_def plain_option_def option_defelem_def caseeq
      get_param_value_def apply_simps lower_char_def byte_val_def)

end


section \<open>Properties\<close>

text \<open>
  C35.  The provider accepts what the subscriber sends.  The options of \<open>START_REPLICATION\<close>, read by the
  provider's output plugin, pass the parameter parser for every subscriber whose build constants fit their
  fields, whatever sets, origins or table it asks for: format 1, protocol version 1 to 1, the
  subscriber's encoding, and the sizes and flags of its platform arrive as they are, except that the
  flag stored for \<open>float4\<close> is the subscriber's \<open>float8\<close> flag.  Between equal platforms the binary
  formats are therefore used exactly when the provider's \<open>float4\<close> flag equals that \<open>float8\<close> flag.
\<close>

theorem provider_accepts_subscriber:
  assumes "server_text S" "client_ok C"
  shows "\<exists>d. process_parameters S (map option_defelem (start_replication_options C fo rs ot))
      (palloc0_data p) = Inr (d, 1) \<and>
    client_min_proto_version d = 1 \<and> client_max_proto_version d = 1 \<and>
    client_protocol_format d = None \<and>
    client_expected_encoding d = Some (GetDatabaseEncodingName C) \<and>
    client_want_internal_basetypes d \<and> client_want_binary_basetypes d \<and>
    hooks_setup_funcname d = [''pglogical'', ''pglogical_hooks_setup''] \<and>
    client_binary_float4byval d = server_float8_byval C \<and>
    (PG_VERSION_NUM C = PG_VERSION_NUM S \<and> sizeof_datum C = sizeof_datum S \<and>
     sizeof_int C = sizeof_int S \<and> sizeof_long C = sizeof_long S \<and>
     server_bigendian C = server_bigendian S \<and>
     server_integer_datetimes C = server_integer_datetimes S \<longrightarrow>
     check_binary_compatibility S d = (server_float4_byval S = server_float8_byval C))"
proof -
  have "process_parameters S (map option_defelem (start_replication_options C fo rs ot))
      (palloc0_data p) = Inr (handshake_data C p, 1)"
    using server_text.handshake_params [OF assms, of fo rs ot p]
    by (simp add: process_parameters_def process_parameters_v1_def
        server_text.handshake_versions [OF assms(1)])
  then show ?thesis
    by (auto simp: handshake_data_def palloc0_data_def check_binary_compatibility_def)
qed

theorem provider_accepts_subscriber_witness:
  "\<exists>d. process_parameters text_server (map option_defelem (start_replication_options ex_server
        (Some ''all'') (Some ''default'') None)) (palloc0_data ()) = Inr (d, 1) \<and>
    client_expected_encoding d = Some ''UTF8'' \<and> check_binary_compatibility text_server d"
proof -
  have "client_ok ex_server"
    by (simp add: client_ok_def ex_server_def)
  from provider_accepts_subscriber [OF text_server.server_text_axioms this, of "Some ''all''"
      "Some ''default''" None "()"]
  show ?thesis
    by (auto simp: text_server_def ex_server_def)
qed

end
