(* ===== verification/Pgl_Sync.thy ===== *)
theory Pgl_Sync
  imports Pgl_Monad Pgl_Rpc Pgl_Worker Pgl_Node
begin

text \<open>
  The initial synchronization of subscriptions and tables, \<open>src/pglogical_sync.c\<close>: the status catalog, the copying of
  structure and data, and the sync worker.  The provider, the shell, the replication origins and the local
  database are outside; what the code asks of them is recorded as an action, and whether an action succeeds is
  up to the environment \<open>E\<close>.  The computations run in a state that survives errors, since what was
  committed before an error stays: \<open>committed\<close> are the rows of the status catalog and \<open>tx\<close> the rows as an open
  transaction sees them.  \<open>None\<close> is a computation that waits forever.
\<close>

section \<open>The status catalog\<close>

record PGLogicalSyncStatus =
  sync_kind :: char
  sync_subid :: oid
  sync_nspname :: "string option"
  sync_relname :: "string option"
  sync_status :: char

abbreviation SYNC_KIND_INIT :: char where "SYNC_KIND_INIT \<equiv> CHR ''i''"
abbreviation SYNC_KIND_FULL :: char where "SYNC_KIND_FULL \<equiv> CHR ''f''"
abbreviation SYNC_KIND_STRUCTURE :: char where "SYNC_KIND_STRUCTURE \<equiv> CHR ''s''"
abbreviation SYNC_KIND_DATA :: char where "SYNC_KIND_DATA \<equiv> CHR ''d''"

definition SyncKindData :: "char \<Rightarrow> bool" where
  "SyncKindData kind \<longleftrightarrow> kind = SYNC_KIND_FULL \<or> kind = SYNC_KIND_DATA"

definition SyncKindStructure :: "char \<Rightarrow> bool" where
  "SyncKindStructure kind \<longleftrightarrow> kind = SYNC_KIND_FULL \<or> kind = SYNC_KIND_STRUCTURE"

abbreviation SYNC_STATUS_INIT :: char where "SYNC_STATUS_INIT \<equiv> CHR ''i''"
abbreviation SYNC_STATUS_STRUCTURE :: char where "SYNC_STATUS_STRUCTURE \<equiv> CHR ''s''"
abbreviation SYNC_STATUS_DATA :: char where "SYNC_STATUS_DATA \<equiv> CHR ''d''"
abbreviation SYNC_STATUS_CONSTAINTS :: char where "SYNC_STATUS_CONSTAINTS \<equiv> CHR ''c''"
abbreviation SYNC_STATUS_SYNCWAIT :: char where "SYNC_STATUS_SYNCWAIT \<equiv> CHR ''w''"
abbreviation SYNC_STATUS_CATCHUP :: char where "SYNC_STATUS_CATCHUP \<equiv> CHR ''u''"
abbreviation SYNC_STATUS_READY :: char where "SYNC_STATUS_READY \<equiv> CHR ''r''"

text \<open>The unique index over subscription, schema and table; a NULL in the key never conflicts.\<close>

definition sync_conflicts :: "PGLogicalSyncStatus \<Rightarrow> PGLogicalSyncStatus \<Rightarrow> bool" where
  "sync_conflicts x y \<longleftrightarrow> sync_subid x = sync_subid y \<and>
     sync_nspname x \<noteq> None \<and> sync_nspname x = sync_nspname y \<and>
     sync_relname x \<noteq> None \<and> sync_relname x = sync_relname y"

definition create_local_sync_status ::
  "PGLogicalSyncStatus \<Rightarrow> PGLogicalSyncStatus list \<Rightarrow> PGLogicalSyncStatus list result" where
  "create_local_sync_status sync rows =
     catalog_insert sync_conflicts
       (sync\<lparr> sync_nspname := map_option namestrcpy (sync_nspname sync),
              sync_relname := map_option namestrcpy (sync_relname sync) \<rparr>) rows"

definition drop_subscription_sync_status :: "oid \<Rightarrow> PGLogicalSyncStatus list \<Rightarrow> PGLogicalSyncStatus list" where
  "drop_subscription_sync_status subid rows = delete_all (\<lambda>r. sync_subid r = subid) rows"

text \<open>The row of the subscription itself has neither schema nor table.\<close>

definition is_subscription_row :: "oid \<Rightarrow> PGLogicalSyncStatus \<Rightarrow> bool" where
  "is_subscription_row subid r \<longleftrightarrow> sync_subid r = subid \<and> sync_nspname r = None \<and> sync_relname r = None"

definition is_table_row :: "oid \<Rightarrow> string \<Rightarrow> string \<Rightarrow> PGLogicalSyncStatus \<Rightarrow> bool" where
  "is_table_row subid nspname rname r \<longleftrightarrow> sync_subid r = subid \<and>
     (\<exists>n. sync_nspname r = Some n \<and> nameeq n nspname) \<and>
     (\<exists>n. sync_relname r = Some n \<and> nameeq n rname)"

lemma is_table_row_code [code]:
  "is_table_row subid nspname rname r \<longleftrightarrow> sync_subid r = subid \<and>
     (case sync_nspname r of None \<Rightarrow> False | Some n \<Rightarrow> nameeq n nspname) \<and>
     (case sync_relname r of None \<Rightarrow> False | Some n \<Rightarrow> nameeq n rname)"
  by (auto simp: is_table_row_def split: option.splits)

definition get_subscription_sync_status ::
  "oid \<Rightarrow> bool \<Rightarrow> PGLogicalSyncStatus list \<Rightarrow> PGLogicalSyncStatus option result" where
  "get_subscription_sync_status subid missing_ok rows =
     (case List.find (is_subscription_row subid) rows of
        None \<Rightarrow> if missing_ok then Inr None else elog ''subscription %u status not found''
      | Some r \<Rightarrow> Inr (Some r))"

definition set_subscription_sync_status ::
  "oid \<Rightarrow> char \<Rightarrow> PGLogicalSyncStatus list \<Rightarrow> PGLogicalSyncStatus list result" where
  "set_subscription_sync_status subid status rows =
     (case List.find (is_subscription_row subid) rows of
        None \<Rightarrow> elog ''subscription %u status not found''
      | Some _ \<Rightarrow> Inr (update_first (is_subscription_row subid) (\<lambda>r. r\<lparr> sync_status := status \<rparr>) rows))"

definition drop_table_sync_status ::
  "string \<Rightarrow> string \<Rightarrow> PGLogicalSyncStatus list \<Rightarrow> PGLogicalSyncStatus list" where
  "drop_table_sync_status nspname rname rows =
     delete_all (\<lambda>r. is_table_row (sync_subid r) nspname rname r) rows"

definition get_table_sync_status ::
  "oid \<Rightarrow> string \<Rightarrow> string \<Rightarrow> bool \<Rightarrow> PGLogicalSyncStatus list \<Rightarrow> PGLogicalSyncStatus option result" where
  "get_table_sync_status subid nspname rname missing_ok rows =
     (case List.find (is_table_row subid nspname rname) rows of
        None \<Rightarrow> if missing_ok then Inr None else elog ''subscription %u table %s.%s status not found''
      | Some r \<Rightarrow> Inr (Some r))"

definition get_unsynced_tables ::
  "oid \<Rightarrow> PGLogicalSyncStatus list \<Rightarrow> (string option \<times> string option) list" where
  "get_unsynced_tables subid rows =
     map (\<lambda>r. (sync_nspname r, sync_relname r))
       (filter (\<lambda>r. sync_subid r = subid \<and> \<not> (sync_nspname r = None \<and> sync_relname r = None) \<and>
                    sync_status r \<noteq> SYNC_STATUS_READY) rows)"

definition set_table_sync_status ::
  "oid \<Rightarrow> string \<Rightarrow> string \<Rightarrow> char \<Rightarrow> PGLogicalSyncStatus list \<Rightarrow> PGLogicalSyncStatus list result" where
  "set_table_sync_status subid nspname rname status rows =
     (case List.find (is_table_row subid nspname rname) rows of
        None \<Rightarrow> elog ''subscription %u table %s.%s status not found''
      | Some _ \<Rightarrow> Inr (update_first (is_table_row subid nspname rname) (\<lambda>r. r\<lparr> sync_status := status \<rparr>) rows))"

section \<open>Waiting for a status\<close>

text \<open>
  What the waiting process sees at its n-th look, given the rows it saw last: a request to stop, the
  committed rows, the worker slots, and whether the postmaster died in the wait that follows.
\<close>

record status_look =
  sl_sigterm :: bool
  sl_rows :: "PGLogicalSyncStatus list"
  sl_ctx :: PGLogicalContext
  sl_postmaster_death :: bool

type_synonym status_looks = "nat \<Rightarrow> PGLogicalSyncStatus list \<Rightarrow> status_look"

partial_function (option) wait_for_sync_status_change ::
  "status_looks \<Rightarrow> oid \<Rightarrow> oid \<Rightarrow> string \<Rightarrow> string \<Rightarrow> char \<Rightarrow> nat \<Rightarrow> PGLogicalSyncStatus list
     \<Rightarrow> (bool \<times> PGLogicalSyncStatus list \<times> PGLogicalContext) result option" where
  "wait_for_sync_status_change looks mydb subid nspname rname desired_state n rows =
     (let k = looks n rows in
      if sl_sigterm k then Some (Inr (False, sl_rows k, sl_ctx k))
      else case List.find (is_table_row subid nspname rname) (sl_rows k) of
             None \<Rightarrow> Some (Inr (False, sl_rows k, sl_ctx k))
           | Some sync \<Rightarrow>
               if sync_status sync = desired_state then Some (Inr (True, sl_rows k, sl_ctx k))
               else if pglogical_sync_find mydb subid nspname rname (sl_ctx k) = None
               then Some (Inr (False, sl_rows k, sl_ctx k))
               else if sl_postmaster_death k then Some (proc_exit 1)
               else wait_for_sync_status_change looks mydb subid nspname rname desired_state (n + 1)
                      (sl_rows k))"

section \<open>Actions and the state of a synchronization\<close>

text \<open>
  A connection is named by its connection string; \<open>Connect\<close> has the suffix of the application name and whether
  the connection is for replication.
\<close>

datatype sync_action =
    Connect string string bool
  | Exec string string
  | CopyStream string string
  | CopyDone string
  | CopyEnd string
  | Shell string
  | Unlink string

text \<open>
  \<open>history\<close> has the rows after every transaction that the process has committed, the oldest first: what other
  sessions got to see in between.
\<close>

record 'k sync_state =
  committed :: "PGLogicalSyncStatus list"
  history :: "PGLogicalSyncStatus list list"
  tx :: "PGLogicalSyncStatus list option"
  actions :: "sync_action list"
  origins :: "string \<rightharpoonup> xlogrecptr"
  session_origin :: "string option"
  rcache :: "'k relcache"
  s_ctx :: PGLogicalContext

text \<open>
  The environment: which actions succeed, what the provider answers after the actions so far, the
  programs on disk, the slot's start position and snapshot, and the looks of the two waiting loops.
\<close>

record 'k sync_env =
  succeeds :: "sync_action list \<Rightarrow> sync_action \<Rightarrow> bool"
  provider :: "sync_action list \<Rightarrow> PGconn"
  slot_created :: "string \<Rightarrow> xlogrecptr \<times> string"
  snapshot_too_large :: "sync_action list \<Rightarrow> bool"
  find_other_exec_version :: "string \<Rightarrow> (nat \<times> string) option"
  sy_version_num :: nat
  has_pglogical_origin_schema :: bool
  temp_directory :: string
  sy_pid :: nat
  sy_hash_any :: "string \<Rightarrow> 32 word"
  quote_qualified_identifier :: "string \<Rightarrow> string \<Rightarrow> string"
  sy_keyof :: "oid \<Rightarrow> 'k"
  sy_db :: localdb
  sy_server :: server_env
  sy_quote_literal_cstr :: "string \<Rightarrow> string"
  slot_look :: "nat \<Rightarrow> bool \<times> PGconn \<times> bool"
  sy_looks :: status_looks
  sy_mydb :: oid

type_synonym ('k, 'a) sync_m = "('k sync_state, 'a) st_m"

definition act :: "'k sync_env \<Rightarrow> sync_action \<Rightarrow> string \<Rightarrow> ('k, unit) sync_m" where
  "act E a msg s =
     (let s' = s\<lparr> actions := actions s @ [a] \<rparr>
      in Some (if succeeds E (actions s) a then Inr () else elog msg, s'))"

text \<open>A transaction is open or not; starting one in an open one is an error of the backend.\<close>

definition StartTransactionCommand :: "('k, unit) sync_m" where
  "StartTransactionCommand s = (case tx s of
      None \<Rightarrow> Some (Inr (), s\<lparr> tx := Some (committed s) \<rparr>)
    | Some _ \<Rightarrow> Some (elog ''StartTransactionCommand: unexpected state %s'', s))"

definition CommitTransactionCommand :: "('k, unit) sync_m" where
  "CommitTransactionCommand s = (case tx s of
      None \<Rightarrow> Some (elog ''CommitTransactionCommand: unexpected state %s'', s)
    | Some rows \<Rightarrow> Some (Inr (), s\<lparr> committed := rows, history := history s @ [rows], tx := None \<rparr>))"

text \<open>Reading and changing the catalog in the open transaction.\<close>

definition tx_rows :: "'k sync_state \<Rightarrow> PGLogicalSyncStatus list" where
  "tx_rows s = (case tx s of None \<Rightarrow> committed s | Some rows \<Rightarrow> rows)"

definition catalog_read :: "(PGLogicalSyncStatus list \<Rightarrow> 'a result) \<Rightarrow> ('k, 'a) sync_m" where
  "catalog_read f s = Some (f (tx_rows s), s)"

definition catalog_write ::
  "(PGLogicalSyncStatus list \<Rightarrow> PGLogicalSyncStatus list result) \<Rightarrow> ('k, unit) sync_m" where
  "catalog_write f s = (case f (tx_rows s) of
      Inl e \<Rightarrow> Some (Inl e, s)
    | Inr rows \<Rightarrow> Some (Inr (), s\<lparr> tx := Some rows \<rparr>))"

definition in_transaction :: "('k, unit) sync_m \<Rightarrow> ('k, unit) sync_m" where
  "in_transaction m = sthen StartTransactionCommand (sthen m CommitTransactionCommand)"

section \<open>Structure\<close>

definition run_tool :: "'k sync_env \<Rightarrow> string \<Rightarrow> string \<Rightarrow> string \<Rightarrow> (string \<Rightarrow> string) \<Rightarrow> ('k, unit) sync_m" where
  "run_tool E binary not_found wrong_version command =
     (case find_other_exec_version E binary of
        None \<Rightarrow> selog not_found
      | Some (version, path) \<Rightarrow>
          if version div 100 \<noteq> sy_version_num E div 100 then selog wrong_version
          else act E (Shell (command path)) ''could not execute command %s'')"

abbreviation dq :: string where
  "dq \<equiv> [CHR 0x22]"

definition PGDUMP_BINARY :: "nat \<Rightarrow> string" where
  "PGDUMP_BINARY version_num = (if version_num < 90500 then ''pglogical_dump'' else ''pg_dump'')"

definition dump_structure :: "'k sync_env \<Rightarrow> PGLogicalSubscription \<Rightarrow> string \<Rightarrow> string \<Rightarrow> ('k, unit) sync_m" where
  "dump_structure E sub destfile snapshot =
     run_tool E (PGDUMP_BINARY (sy_version_num E))
       ''pglogical subscriber init failed to find pg_dump relative to binary %s''
       ''pglogical subscriber init found pg_dump with wrong major version %d.%d, expected %d.%d''
       (\<lambda>pg_dump. pg_dump @ '' --snapshot='' @ dq @ snapshot @ dq @ '' -N pglogical'' @
          (if has_pglogical_origin_schema E then '' -N pglogical_origin'' else []) @
          '' -s -F c -f '' @ dq @ destfile @ dq @ '' '' @ dq @ if_dsn (sub_origin_if sub) @ dq)"

definition restore_structure :: "'k sync_env \<Rightarrow> PGLogicalSubscription \<Rightarrow> string \<Rightarrow> string \<Rightarrow> ('k, unit) sync_m" where
  "restore_structure E sub srcfile sect =
     run_tool E ''pg_restore''
       ''pglogical subscriber init failed to find pg_restore relative to binary %s''
       ''pglogical subscriber init found pg_restore with wrong major version %d.%d, expected %d.%d''
       (\<lambda>pg_restore. pg_restore @ '' --section='' @ dq @ sect @ dq @ '' --exit-on-error -1 -d '' @
          dq @ if_dsn (sub_target_if sub) @ dq @ '' '' @ dq @ srcfile @ dq)"

section \<open>Slots and origins\<close>

definition create_slot_query :: "string \<Rightarrow> bool \<Rightarrow> string" where
  "create_slot_query slot_name use_failover_slot =
     ''CREATE_REPLICATION_SLOT '' @ dq @ slot_name @ dq @ '' LOGICAL pglogical_output'' @
     (if use_failover_slot then '' FAILOVER'' else [])"

definition ensure_replication_slot_snapshot ::
  "'k sync_env \<Rightarrow> string \<Rightarrow> string \<Rightarrow> bool \<Rightarrow> ('k, xlogrecptr \<times> string) sync_m" where
  "ensure_replication_slot_snapshot E dsn slot_name use_failover_slot s =
     sbind (act E (Exec dsn (create_slot_query slot_name use_failover_slot))
              (if snapshot_too_large E (actions s) then ''could not start synchronization, will retry later''
               else ''could not send replication command %s: status %s: %s'')) (\<lambda>_.
     sret (slot_created E slot_name)) s"

text \<open>The origin of a slot, made when it is missing, and set to the position where the slot starts.\<close>

definition ensure_replication_origin :: "string \<Rightarrow> ('k, unit) sync_m" where
  "ensure_replication_origin slot_name s =
     Some (Inr (), if origins s slot_name = None
                   then s\<lparr> origins := (origins s)(slot_name \<mapsto> 0) \<rparr> else s)"

definition replorigin_advance :: "string \<Rightarrow> xlogrecptr \<Rightarrow> ('k, unit) sync_m" where
  "replorigin_advance name lsn s = Some (Inr (), s\<lparr> origins := (origins s)(name \<mapsto> lsn) \<rparr>)"

section \<open>Copying tables\<close>

definition start_copy_origin_tx :: "'k sync_env \<Rightarrow> string \<Rightarrow> string option \<Rightarrow> ('k, unit) sync_m" where
  "start_copy_origin_tx E dsn snapshot =
     act E (Exec dsn (''BEGIN TRANSACTION ISOLATION LEVEL REPEATABLE READ, READ ONLY;\<newline>'' @
       ''SET DATESTYLE = ISO;\<newline>SET INTERVALSTYLE = POSTGRES;\<newline>SET extra_float_digits TO 3;\<newline>'' @
       ''SET statement_timeout = 0;\<newline>SET lock_timeout = 0;\<newline>'' @
       (case snapshot of None \<Rightarrow> [] | Some sn \<Rightarrow> ''SET TRANSACTION SNAPSHOT '' @ CHR 0x27 # sn @ CHR 0x27 # '';\<newline>'')))
       ''BEGIN on origin node failed: %s''"

definition start_copy_target_tx :: "'k sync_env \<Rightarrow> string \<Rightarrow> ('k, unit) sync_m" where
  "start_copy_target_tx E dsn =
     act E (Exec dsn (''BEGIN TRANSACTION ISOLATION LEVEL READ COMMITTED;\<newline>'' @
       ''SET session_replication_role = '' @ CHR 0x27 # ''replica'' @ CHR 0x27 # '';\<newline>'' @
       ''SET DATESTYLE = ISO;\<newline>SET INTERVALSTYLE = POSTGRES;\<newline>SET extra_float_digits TO 3;\<newline>'' @
       ''SET statement_timeout = 0;\<newline>SET lock_timeout = 0;\<newline>''))
       ''BEGIN on target node failed: %s''"

text \<open>A failed ROLLBACK on the origin is only a warning.\<close>

definition finish_copy_origin_tx :: "'k sync_env \<Rightarrow> string \<Rightarrow> ('k, unit) sync_m" where
  "finish_copy_origin_tx E dsn s = Some (Inr (), s\<lparr> actions := actions s @ [Exec dsn ''ROLLBACK''] \<rparr>)"

definition finish_copy_target_tx :: "'k sync_env \<Rightarrow> string \<Rightarrow> ('k, unit) sync_m" where
  "finish_copy_target_tx E dsn = act E (Exec dsn ''COMMIT'') ''COMMIT on target node failed: %s''"

fun attmap_index :: "nat \<Rightarrow> nat list \<Rightarrow> nat \<Rightarrow> nat option" where
  "attmap_index i [] attid = None"
| "attmap_index i (a # as) attid = (if a = attid then Some i else attmap_index (Suc i) as attid)"

definition physatt_in_attmap :: "PGLogicalRelation \<Rightarrow> nat \<Rightarrow> nat option" where
  "physatt_in_attmap rel attid = attmap_index 0 (take (natts rel) (attmap rel)) attid"

definition make_copy_attnamelist :: "PGLogicalRelation \<Rightarrow> string list" where
  "make_copy_attnamelist rel =
     (let desc = rd_att (the (ent_rel rel)) in
      concat (map (\<lambda>attnum.
        if attisdropped (desc ! attnum) then []
        else case physatt_in_attmap rel attnum of
               None \<Rightarrow> []
             | Some remoteattnum \<Rightarrow> [attnames rel ! remoteattnum]) [0..<length desc]))"

definition copy_to_query ::
  "PGconn \<Rightarrow> PGLogicalRemoteRel \<Rightarrow> string list \<Rightarrow> string list \<Rightarrow> string" where
  "copy_to_query conn remoterel attnamelist replication_sets =
     (let attlist = comma_join attnamelist;
          rname = qualified_name conn (rem_nspname remoterel) (rem_relname remoterel)
      in ''COPY '' @
         (if hasRowFilter remoterel
          then ''(SELECT '' @ (if attnamelist \<noteq> [] then attlist else ''*'') @
               '' FROM pglogical.table_data_filtered(NULL::'' @ rname @ '', '' @
               PQescapeLiteral conn rname @ ''::regclass, ARRAY['' @
               repset_array conn replication_sets @ ''])) ''
          else rname @ '' '' @ (if attnamelist \<noteq> [] then ''('' @ attlist @ '') '' else [])) @
         ''TO stdout'')"

definition copy_from_query :: "PGconn \<Rightarrow> PGLogicalRemoteRel \<Rightarrow> string" where
  "copy_from_query conn remoterel =
     ''COPY '' @ qualified_name conn (rem_nspname remoterel) (rem_relname remoterel) @ '' FROM stdin''"

text \<open>The relation map is built in a transaction of its own and the table closed again.\<close>

definition copy_columns :: "'k sync_env \<Rightarrow> PGLogicalRemoteRel \<Rightarrow> ('k, string list) sync_m" where
  "copy_columns E remoterel =
     sbind StartTransactionCommand (\<lambda>_.
     sbind (\<lambda>s. let cache = pglogical_relation_cache_updater (sy_keyof E) (rcache s) remoterel in
              (case pglogical_relation_open (sy_keyof E) (sy_db E) cache (rem_relid remoterel) of
                 Inl e \<Rightarrow> Some (Inl e, s\<lparr> rcache := cache \<rparr>)
               | Inr (rel, cache) \<Rightarrow>
                   Some (Inr (make_copy_attnamelist rel),
                         s\<lparr> rcache := pglogical_relation_close (sy_keyof E) cache (rem_relid remoterel) \<rparr>)))
       (\<lambda>attnamelist. sbind CommitTransactionCommand (\<lambda>_. sret attnamelist)))"

definition copy_stream :: "'k sync_env \<Rightarrow> string \<Rightarrow> string \<Rightarrow> string \<Rightarrow> string \<Rightarrow> ('k, unit) sync_m" where
  "copy_stream E origin_dsn target_dsn copy_to copy_from =
     sthen (act E (Exec origin_dsn copy_to) ''table copy failed'')
     (sthen (act E (Exec target_dsn copy_from) ''table copy failed'')
     (sthen (act E (CopyStream copy_to copy_from) ''writing to target table failed'')
     (sthen (act E (CopyDone origin_dsn) ''reading from origin table failed'')
       (act E (CopyEnd target_dsn)
          ''sending copy-completion to destination connection failed''))))"

definition copy_table_data ::
  "'k sync_env \<Rightarrow> string \<Rightarrow> string \<Rightarrow> PGLogicalRemoteRel \<Rightarrow> string list \<Rightarrow> ('k, unit) sync_m" where
  "copy_table_data E origin_dsn target_dsn remoterel replication_sets =
     sbind (copy_columns E remoterel) (\<lambda>attnamelist s.
       (let conn = provider E (actions s) in
        copy_stream E origin_dsn target_dsn (copy_to_query conn remoterel attnamelist replication_sets)
          (copy_from_query conn remoterel) s))"

definition connect :: "'k sync_env \<Rightarrow> string \<Rightarrow> string \<Rightarrow> bool \<Rightarrow> ('k, unit) sync_m" where
  "connect E dsn suffix replication =
     act E (Connect dsn suffix replication) ''could not connect to the postgresql server%s: %s''"

definition copy_tables_data ::
  "'k sync_env \<Rightarrow> string \<Rightarrow> string \<Rightarrow> string \<Rightarrow> (string \<times> string) list \<Rightarrow> string list \<Rightarrow> ('k, unit) sync_m" where
  "copy_tables_data E origin_dsn target_dsn origin_snapshot tables replication_sets =
     sthen (connect E origin_dsn ''copy'' False)
     (sthen (start_copy_origin_tx E origin_dsn (Some origin_snapshot))
     (sthen (connect E target_dsn ''copy'' False)
     (sthen (start_copy_target_tx E target_dsn)
     (sthen (sforeach (\<lambda>(nspname, rname) s.
               sbind (slift (pg_logical_get_remote_repset_table (provider E (actions s)) nspname rname
                               replication_sets))
                 (\<lambda>remoterel. copy_table_data E origin_dsn target_dsn remoterel replication_sets) s) tables)
     (sthen (finish_copy_origin_tx E origin_dsn) (finish_copy_target_tx E target_dsn))))))"

definition copy_replication_sets_data ::
  "'k sync_env \<Rightarrow> string \<Rightarrow> string \<Rightarrow> string \<Rightarrow> string list \<Rightarrow> ('k, PGLogicalRemoteRel list) sync_m" where
  "copy_replication_sets_data E origin_dsn target_dsn origin_snapshot replication_sets =
     sbind (connect E origin_dsn ''copy'' False) (\<lambda>_.
     sbind (start_copy_origin_tx E origin_dsn (Some origin_snapshot)) (\<lambda>_.
     sbind (\<lambda>s. slift (pg_logical_get_remote_repset_tables (provider E (actions s)) replication_sets) s)
       (\<lambda>tables.
     sbind (connect E target_dsn ''copy'' False) (\<lambda>_.
     sbind (start_copy_target_tx E target_dsn) (\<lambda>_.
     sbind (sforeach (\<lambda>remoterel. copy_table_data E origin_dsn target_dsn remoterel replication_sets) tables)
       (\<lambda>_.
     sbind (finish_copy_origin_tx E origin_dsn) (\<lambda>_.
     sbind (finish_copy_target_tx E target_dsn) (\<lambda>_.
     sret tables))))))))"


section \<open>Cleaning up\<close>

text \<open>\<open>slot_look n\<close>: a request to stop, the provider, and whether the postmaster died in the wait.\<close>

partial_function (option) wait_slot_free ::
  "(nat \<Rightarrow> bool \<times> PGconn \<times> bool) \<Rightarrow> string \<Rightarrow> nat \<Rightarrow> unit result option" where
  "wait_slot_free looks slot_name n =
     (case looks n of (sigterm, conn, postmaster_death) \<Rightarrow>
        if sigterm then Some (Inr ())
        else case pglogical_remote_slot_active conn slot_name of
               Inl e \<Rightarrow> Some (Inl e)
             | Inr active \<Rightarrow>
                 if \<not> active then Some (Inr ())
                 else if postmaster_death then Some (proc_exit 1)
                 else wait_slot_free looks slot_name (n + 1))"

definition drop_slot :: "'k sync_env \<Rightarrow> string \<Rightarrow> string \<Rightarrow> ('k, unit) sync_m" where
  "drop_slot E dsn slot_name s =
     (case pglogical_drop_remote_slot (provider E (actions s)) slot_name of
        Inl e \<Rightarrow> Some (Inl e, s)
      | Inr dropped \<Rightarrow>
          Some (Inr (), if dropped
                        then s\<lparr> actions := actions s @ [Exec dsn (''SELECT pg_drop_replication_slot($1)'' @ slot_name)] \<rparr>
                        else s))"

definition drop_session_origin :: "('k, unit) sync_m" where
  "drop_session_origin s = (case session_origin s of
      None \<Rightarrow> Some (Inr (), s)
    | Some name \<Rightarrow> Some (Inr (), s\<lparr> origins := (origins s)(name := None), session_origin := None \<rparr>))"

definition pglogical_sync_worker_cleanup ::
  "'k sync_env \<Rightarrow> PGLogicalSubscription \<Rightarrow> ('k, unit) sync_m" where
  "pglogical_sync_worker_cleanup E sub =
     sthen (connect E (if_dsn (sub_origin_if sub)) ''cleanup'' False)
     (sthen (\<lambda>s. map_option (\<lambda>r. (r, s)) (wait_slot_free (slot_look E) (sub_slot_name sub) 0))
     (sthen (drop_slot E (if_dsn (sub_origin_if sub)) (sub_slot_name sub)) drop_session_origin))"

definition pglogical_sync_tmpfile_cleanup_cb :: "string \<Rightarrow> ('k, unit) sync_m" where
  "pglogical_sync_tmpfile_cleanup_cb tmpfile s = Some (Inr (), s\<lparr> actions := actions s @ [Unlink tmpfile] \<rparr>)"

section \<open>Synchronizing a subscription\<close>

definition set_status :: "oid \<Rightarrow> char \<Rightarrow> ('k, unit) sync_m" where
  "set_status subid status = in_transaction (catalog_write (set_subscription_sync_status subid status))"

definition note_synced_table :: "oid \<Rightarrow> PGLogicalRemoteRel \<Rightarrow> ('k, unit) sync_m" where
  "note_synced_table subid remoterel =
     sbind (catalog_read (get_table_sync_status subid (rem_nspname remoterel) (rem_relname remoterel) True))
       (\<lambda>oldsync.
     case oldsync of
       Some _ \<Rightarrow> catalog_write (set_table_sync_status subid (rem_nspname remoterel) (rem_relname remoterel)
                                   SYNC_STATUS_READY)
     | None \<Rightarrow> catalog_write (create_local_sync_status
                  \<lparr> sync_kind = SYNC_KIND_FULL, sync_subid = subid,
                    sync_nspname = Some (rem_nspname remoterel), sync_relname = Some (rem_relname remoterel),
                    sync_status = SYNC_STATUS_READY \<rparr>))"

definition sync_data :: "'k sync_env \<Rightarrow> PGLogicalSubscription \<Rightarrow> string \<Rightarrow> ('k, unit) sync_m" where
  "sync_data E sub snapshot =
     sthen (set_status (sub_id sub) SYNC_STATUS_DATA)
     (sbind (copy_replication_sets_data E (if_dsn (sub_origin_if sub)) (if_dsn (sub_target_if sub)) snapshot
               (sub_replication_sets sub)) (\<lambda>tables.
      in_transaction (sforeach (note_synced_table (sub_id sub)) tables)))"

definition sync_steps ::
  "'k sync_env \<Rightarrow> PGLogicalSubscription \<Rightarrow> char \<Rightarrow> string \<Rightarrow> xlogrecptr \<Rightarrow> string \<Rightarrow> ('k, unit) sync_m" where
  "sync_steps E sub kind tmpfile lsn snapshot =
     sthen (in_transaction (sthen (ensure_replication_origin (sub_slot_name sub))
              (replorigin_advance (sub_slot_name sub) lsn)))
     (sthen (swhen (SyncKindStructure kind)
              (sthen (set_status (sub_id sub) SYNC_STATUS_STRUCTURE)
              (sthen (dump_structure E sub tmpfile snapshot) (restore_structure E sub tmpfile ''pre-data''))))
     (sthen (swhen (SyncKindData kind) (sync_data E sub snapshot))
       (swhen (SyncKindStructure kind)
          (sthen (set_status (sub_id sub) SYNC_STATUS_CONSTAINTS)
             (restore_structure E sub tmpfile ''post-data'')))))"

definition sync_tmpfile :: "'k sync_env \<Rightarrow> string" where
  "sync_tmpfile E = temp_directory E @ ''/pglogical-'' @ dec_of_nat (sy_pid E) @ ''.dump''"

definition sync_initialize :: "'k sync_env \<Rightarrow> PGLogicalSubscription \<Rightarrow> char \<Rightarrow> ('k, unit) sync_m" where
  "sync_initialize E sub kind =
     (let dsn = if_dsn (sub_origin_if sub); tmpfile = sync_tmpfile E in
      sbind (connect E dsn ''snap'' False) (\<lambda>_.
      sbind (\<lambda>s. slift (pglogical_remote_function_exists (provider E (actions s)) ''pg_catalog''
                          ''pg_create_logical_replication_slot'' 3) s) (\<lambda>use_failover_slot.
      sbind (connect E dsn ''snap'' True) (\<lambda>_.
      sbind (ensure_replication_slot_snapshot E dsn (sub_slot_name sub) use_failover_slot)
        (\<lambda>(lsn, snapshot).
      sthen (ensure_error_cleanup (pglogical_sync_worker_cleanup E sub)
               (sthen (ensure_error_cleanup (pglogical_sync_tmpfile_cleanup_cb tmpfile)
                         (sync_steps E sub kind tmpfile lsn snapshot))
                  (pglogical_sync_tmpfile_cleanup_cb tmpfile)))
        (set_status (sub_id sub) SYNC_STATUS_CATCHUP))))))"

definition pglogical_sync_subscription :: "'k sync_env \<Rightarrow> PGLogicalSubscription \<Rightarrow> ('k, unit) sync_m" where
  "pglogical_sync_subscription E sub =
     sbind StartTransactionCommand (\<lambda>_.
     sbind (catalog_read (get_subscription_sync_status (sub_id sub) False)) (\<lambda>found.
     sbind CommitTransactionCommand (\<lambda>_.
     let status = sync_status (the found) in
     if status = SYNC_STATUS_READY then sret ()
     else if status \<noteq> SYNC_STATUS_INIT \<and> status \<noteq> SYNC_STATUS_CATCHUP
     then selog ''subscriber %s initialization failed during nonrecoverable step (%c), please try the setup again''
     else sthen (swhen (status = SYNC_STATUS_INIT) (sync_initialize E sub (sync_kind (the found))))
            (set_status (sub_id sub) SYNC_STATUS_READY))))"

section \<open>Synchronizing a table\<close>

definition pglogical_sync_table ::
  "'k sync_env \<Rightarrow> PGLogicalSubscription \<Rightarrow> string \<Rightarrow> string \<Rightarrow> ('k, char) sync_m" where
  "pglogical_sync_table E sub nspname rname =
     sbind StartTransactionCommand (\<lambda>_.
     sbind (catalog_read (get_subscription_sync_status (sub_id sub) False)) (\<lambda>found.
     if sync_status (the found) \<noteq> SYNC_STATUS_READY
     then selog ''subscriber %s is not ready, cannot synchronzie individual tables''
     else
     sbind (catalog_read (get_table_sync_status (sub_id sub) nspname rname False)) (\<lambda>table.
     if sync_status (the table) = SYNC_STATUS_READY then sret SYNC_STATUS_READY
     else
     sbind (swhen (sync_status (the table) \<noteq> SYNC_STATUS_INIT)
              (catalog_write (set_table_sync_status (sub_id sub) nspname rname SYNC_STATUS_INIT))) (\<lambda>_.
     sbind CommitTransactionCommand (\<lambda>_.
     sbind (connect E (if_dsn (sub_origin_if sub)) ''copy'' True) (\<lambda>_.
     sbind (ensure_replication_slot_snapshot E (if_dsn (sub_origin_if sub)) (sub_slot_name sub) False)
       (\<lambda>(lsn, snapshot).
     sbind (ensure_error_cleanup (pglogical_sync_worker_cleanup E sub)
              (sthen (in_transaction
                 (sthen (ensure_replication_origin (sub_slot_name sub))
                 (sthen (replorigin_advance (sub_slot_name sub) lsn)
                   (catalog_write (set_table_sync_status (sub_id sub) nspname rname SYNC_STATUS_DATA)))))
                 (copy_tables_data E (if_dsn (sub_origin_if sub)) (if_dsn (sub_target_if sub)) snapshot
                    [(nspname, rname)] (sub_replication_sets sub)))) (\<lambda>_.
     sret SYNC_STATUS_SYNCWAIT))))))))"

text \<open>The end of a sync worker: the table is ready, the slot and the origin are gone, the apply worker is woken.\<close>

definition wake_apply_worker :: "oid \<Rightarrow> oid \<Rightarrow> ('k, unit) sync_m" where
  "wake_apply_worker db subid s =
     (case worker_at (pglogical_apply_find db subid (s_ctx s)) (s_ctx s) of
        None \<Rightarrow> Some (Inr (), s)
      | Some w \<Rightarrow> (case proc w of
                    None \<Rightarrow> Some (Inr (), s)
                  | Some pid \<Rightarrow> Some (Inr (), s\<lparr> s_ctx := SetLatch pid (s_ctx s) \<rparr>)))"

definition pglogical_sync_worker_finish ::
  "'k sync_env \<Rightarrow> PGLogicalWorker \<Rightarrow> PGLogicalSubscription \<Rightarrow> ('k, unit) sync_m" where
  "pglogical_sync_worker_finish E my sub =
     sthen (in_transaction
       (sthen (catalog_write (set_table_sync_status (w_subid my) (w_nspname my) (w_relname my) SYNC_STATUS_READY))
          (pglogical_sync_worker_cleanup E sub)))
     (wake_apply_worker (dboid my) (w_subid my))"

text \<open>
  The sync worker up to the stream: it finishes by itself, or returns the position from which it
  asks for the changes of its table and hands over to the apply loop.  \<open>slot\<close> is its own slot; \<open>sub\<close> is the
  subscription with the slot name of the table.
\<close>

definition table_slot_name :: "'k sync_env \<Rightarrow> string \<Rightarrow> string \<Rightarrow> string" where
  "table_slot_name E slot_name tablename =
     slot_name @ ''_'' @ hex_pad 8 (unat (sy_hash_any E tablename))"

definition exit_after :: "('k, unit) sync_m \<Rightarrow> nat \<Rightarrow> ('k, 'a) sync_m" where
  "exit_after m code = sbind m (\<lambda>_. sfail (ProcExit code))"

definition setup_session_origin :: "string \<Rightarrow> ('k, xlogrecptr) sync_m" where
  "setup_session_origin name s = (case origins s name of
      None \<Rightarrow> Some (elog ''replication origin does not exist'', s)
    | Some pos \<Rightarrow> Some (Inr pos, s\<lparr> session_origin := Some name \<rparr>))"

definition pglogical_sync_main ::
  "'k sync_env \<Rightarrow> nat \<Rightarrow> PGLogicalSubscription \<Rightarrow> ('k, xlogrecptr) sync_m" where
  "pglogical_sync_main E slot sub0 s0 =
     (let my = workers (s_ctx s0) ! slot; nspname = w_nspname my; rname = w_relname my;
          tablename = quote_qualified_identifier E nspname rname;
          sub = sub0\<lparr> sub_slot_name := table_slot_name E (sub_slot_name sub0) tablename \<rparr>
      in sbind (pglogical_sync_table E sub nspname rname) (\<lambda>status.
         if status = SYNC_STATUS_READY then exit_after (pglogical_sync_worker_finish E my sub) 0
         else
         sbind (in_transaction (catalog_write (set_table_sync_status (sub_id sub) nspname rname
                                                 SYNC_STATUS_SYNCWAIT))) (\<lambda>_.
         sbind (\<lambda>s. case wait_for_sync_status_change (sy_looks E) (sy_mydb E) (sub_id sub) nspname rname
                       SYNC_STATUS_CATCHUP 0 (committed s) of
                      None \<Rightarrow> None
                    | Some (Inl e) \<Rightarrow> Some (Inl e, s)
                    | Some (Inr (_, rows, ctx)) \<Rightarrow> Some (Inr (), s\<lparr> committed := rows, s_ctx := ctx \<rparr>)) (\<lambda>_.
         sbind StartTransactionCommand (\<lambda>_.
         sbind (setup_session_origin (sub_slot_name sub)) (\<lambda>origin_startpos.
         sbind CommitTransactionCommand (\<lambda>_ s.
         (if origin_startpos \<ge> replay_stop_lsn (workers (s_ctx s) ! slot)
          then exit_after (pglogical_sync_worker_finish E my sub) 0
          else sbind (connect E (if_dsn (sub_origin_if sub)) ''catchup'' True) (\<lambda>_.
               sbind (act E (Exec (if_dsn (sub_origin_if sub)) ''IDENTIFY_SYSTEM'')
                        ''could not send replication command %s: %s'') (\<lambda>_.
               sbind (act E (Exec (if_dsn (sub_origin_if sub))
                          (start_replication_command (sy_server E) (sy_quote_literal_cstr E)
                             (sub_slot_name sub) origin_startpos (Some ''all'') None (Some tablename)))
                        ''could not send replication command %s: %s, sqlstate: %s'') (\<lambda>_.
               sret origin_startpos)))) s)))))) s0)"


section \<open>What a synchronization may change\<close>

text \<open>
  \<open>obs\<close> is something to be seen in the rows of the catalog.  What is seen after one commit and the next goes \<open>along\<close> a
  path when it only stays where it is or takes the next step of the path.  A computation that starts
  outside a transaction \<open>moves\<close> along a path when every commit it makes goes along the path, however it ends, and when
  at its success it has gone to the end of the path and left no transaction open.
\<close>

inductive along :: "'o \<Rightarrow> 'o list \<Rightarrow> 'o list \<Rightarrow> bool" where
  along_done: "along a [] []"
| along_stay: "along a l q \<Longrightarrow> along a (a # l) q"
| along_step: "along b l q \<Longrightarrow> along a (b # l) (b # q)"

definition moves ::
  "(PGLogicalSyncStatus list \<Rightarrow> 'o) \<Rightarrow> 'o list \<Rightarrow> ('k, 'a) sync_m \<Rightarrow> bool" where
  "moves obs path m \<longleftrightarrow> (\<forall>s r s'. tx s = None \<longrightarrow> m s = Some (r, s') \<longrightarrow>
     (\<exists>h n. history s' = history s @ h \<and> committed s' = last (committed s # h) \<and>
        along (obs (committed s)) (map obs h) (take n path) \<and>
        (is_ok r \<longrightarrow> length path \<le> n \<and> tx s' = None)))"

text \<open>A computation that leaves the catalog alone, in or outside a transaction.\<close>

definition frozen :: "('k, 'a) sync_m \<Rightarrow> bool" where
  "frozen m \<longleftrightarrow> (\<forall>s r s'. m s = Some (r, s') \<longrightarrow>
     committed s' = committed s \<and> history s' = history s \<and> tx s' = tx s)"

text \<open>A computation inside a transaction that keeps what is seen.\<close>

definition keeps_in_tx :: "(PGLogicalSyncStatus list \<Rightarrow> 'o) \<Rightarrow> ('k, 'a) sync_m \<Rightarrow> bool" where
  "keeps_in_tx obs m \<longleftrightarrow> (\<forall>s rows r s'. tx s = Some rows \<longrightarrow> m s = Some (r, s') \<longrightarrow>
     committed s' = committed s \<and> history s' = history s \<and>
     (is_ok r \<longrightarrow> (\<exists>rows'. tx s' = Some rows' \<and> obs rows' = obs rows)))"

definition sub_status :: "oid \<Rightarrow> PGLogicalSyncStatus list \<Rightarrow> char option" where
  "sub_status subid rows = map_option sync_status (List.find (is_subscription_row subid) rows)"

definition table_status :: "oid \<Rightarrow> string \<Rightarrow> string \<Rightarrow> PGLogicalSyncStatus list \<Rightarrow> char option" where
  "table_status subid nspname rname rows =
     map_option sync_status (List.find (is_table_row subid nspname rname) rows)"

text \<open>
  The order of the statuses of a subscription, and the ones a synchronization of a kind still has to go
  through.
\<close>

definition status_rank :: "char \<Rightarrow> nat" where
  "status_rank st =
     (if st = SYNC_STATUS_INIT then 0 else if st = SYNC_STATUS_STRUCTURE then 1 else if st = SYNC_STATUS_DATA then 2
      else if st = SYNC_STATUS_CONSTAINTS then 3 else if st = SYNC_STATUS_CATCHUP then 4 else 5)"

definition init_path :: "char \<Rightarrow> char list" where
  "init_path kind =
     (if SyncKindStructure kind then [SYNC_STATUS_STRUCTURE] else []) @
     (if SyncKindData kind then [SYNC_STATUS_DATA] else []) @
     (if SyncKindStructure kind then [SYNC_STATUS_CONSTAINTS] else []) @ [SYNC_STATUS_CATCHUP]"

definition sync_path :: "char \<Rightarrow> char \<Rightarrow> char list" where
  "sync_path st kind = (if st = SYNC_STATUS_INIT then init_path kind else []) @ [SYNC_STATUS_READY]"

text \<open>An example: everything succeeds, or nothing does.\<close>

definition ex_conn :: PGconn where
  "ex_conn = (let r = \<lparr> PQresultStatus = PGRES_TUPLES_OK, res_rows = [], PQnfields = 0,
                       PQresultErrorMessage = [] \<rparr>
              in \<lparr> PQexec = (\<lambda>_. r), PQexecParams = (\<lambda>_ _. r), PQescapeLiteral = id,
                   PQescapeIdentifier = id \<rparr>)"

definition ex_sync_env :: "bool \<Rightarrow> oid sync_env" where
  "ex_sync_env ok = \<lparr> succeeds = (\<lambda>_ _. ok), provider = (\<lambda>_. ex_conn), slot_created = (\<lambda>_. (100, ''snap'')), snapshot_too_large = (\<lambda>_. False),
     find_other_exec_version = (\<lambda>b. Some (90500, b)), sy_version_num = 90500,
     has_pglogical_origin_schema = False, temp_directory = ''/tmp'', sy_pid = 1, sy_hash_any = (\<lambda>_. 0),
     quote_qualified_identifier = (\<lambda>n r. n @ ''.'' @ r), sy_keyof = id, sy_db = ex_local, sy_server = ex_server, sy_quote_literal_cstr = id,
     slot_look = (\<lambda>_. (True, ex_conn, False)),
     sy_looks = (\<lambda>_ rows. \<lparr> sl_sigterm = True, sl_rows = rows,
        sl_ctx = pglogical_worker_shmem_startup 1 None, sl_postmaster_death = False \<rparr>),
     sy_mydb = 16384 \<rparr>"

definition ex_status :: "char \<Rightarrow> (string \<times> string) option \<Rightarrow> PGLogicalSyncStatus" where
  "ex_status st tab = \<lparr> sync_kind = SYNC_KIND_FULL, sync_subid = 0, sync_nspname = map_option fst tab,
     sync_relname = map_option snd tab, sync_status = st \<rparr>"

definition ex_sync_state :: "PGLogicalSyncStatus list \<Rightarrow> oid sync_state" where
  "ex_sync_state rows = \<lparr> committed = rows, history = [], tx = None, actions = [], origins = Map.empty,
     session_origin = None, rcache = Map.empty,
     s_ctx = (pglogical_worker_shmem_startup 1 None)\<lparr> workers := [memset_worker\<lparr>
        worker_type := PGLOGICAL_WORKER_SYNC, w_nspname := ''public'', w_relname := ''t'' \<rparr>] \<rparr> \<rparr>"

section \<open>Lemmas\<close>

lemma tx_none [simp]: "tx s = None \<Longrightarrow> s\<lparr> tx := None \<rparr> = s"
  by (cases s) simp

lemma frozen_intros:
  "frozen (sret x)" "frozen (sfail e)" "frozen (slift q)" "frozen (act E a msg)"
  "frozen (ensure_replication_origin n)" "frozen (replorigin_advance n lsn)"
  "frozen (finish_copy_origin_tx E dsn)" "frozen (drop_slot E dsn n)" "frozen drop_session_origin"
  "frozen (pglogical_sync_tmpfile_cleanup_cb f)" "frozen (catalog_read g)"
  "frozen (setup_session_origin n)" "frozen (wake_apply_worker db i)"
  by (auto simp: frozen_def sret_def sfail_def slift_def act_def ensure_replication_origin_def
      replorigin_advance_def finish_copy_origin_tx_def drop_slot_def drop_session_origin_def
      pglogical_sync_tmpfile_cleanup_cb_def catalog_read_def setup_session_origin_def
      wake_apply_worker_def Let_def split: sum.splits option.splits)

lemma frozen_bind: "frozen m \<Longrightarrow> (\<And>x. frozen (f x)) \<Longrightarrow> frozen (sbind m f)"
  unfolding frozen_def sbind_eq by metis

lemma frozen_state: "(\<And>s. frozen (f s)) \<Longrightarrow> frozen (\<lambda>s. f s s)"
  unfolding frozen_def by blast

lemma frozen_slift: "frozen (\<lambda>s. slift (f s) s)"
  by (simp add: frozen_def slift_def)

lemma frozen_cleanup: "frozen (pglogical_sync_worker_cleanup E sub)"
proof -
  have "frozen (\<lambda>s. map_option (\<lambda>r. (r, s)) (wait_slot_free l n k))" for l n k
    by (auto simp: frozen_def)
  then show ?thesis
    unfolding pglogical_sync_worker_cleanup_def connect_def by (intro frozen_bind frozen_intros)
qed

lemma along_append: "along a l q \<Longrightarrow> along (last (a # l)) l' q' \<Longrightarrow> along a (l @ l') (q @ q')"
  by (induction rule: along.induct) (auto intro: along.intros split: if_splits)

lemma along_distinct: "along a l q \<Longrightarrow> distinct (a # q) \<Longrightarrow> remdups_adj (a # l) = a # q"
  by (induction rule: along.induct) auto

lemma moves_intro:
  assumes "\<And>s r s'. tx s = None \<Longrightarrow> m s = Some (r, s') \<Longrightarrow> \<exists>h n. history s' = history s @ h \<and>
    committed s' = last (committed s # h) \<and> along (obs (committed s)) (map obs h) (take n path) \<and>
    (is_ok r \<longrightarrow> length path \<le> n \<and> tx s' = None)"
  shows "moves obs path m"
  using assms unfolding moves_def by blast

lemma movesD:
  assumes "moves obs path m" "tx s = None" "m s = Some (r, s')"
  obtains h n where "history s' = history s @ h" "committed s' = last (committed s # h)"
    "along (obs (committed s)) (map obs h) (take n path)" "is_ok r \<longrightarrow> length path \<le> n \<and> tx s' = None"
  using assms unfolding moves_def by blast

lemma frozen_moves: "frozen m \<Longrightarrow> moves obs [] m"
  by (rule moves_intro) (auto simp: frozen_def intro: along_done)

lemma frozen_keeps: "frozen m \<Longrightarrow> keeps_in_tx obs m"
  by (auto simp: frozen_def keeps_in_tx_def)

lemma keeps_in_txD:
  assumes "keeps_in_tx obs m" "tx s = Some rows" "m s = Some (r, s')"
  shows "committed s' = committed s" "history s' = history s"
    "is_ok r \<Longrightarrow> \<exists>rows'. tx s' = Some rows' \<and> obs rows' = obs rows"
  using assms(1) [unfolded keeps_in_tx_def, rule_format, OF assms(2,3)] by simp_all

lemma moves_bind:
  assumes m: "moves obs p m" and f: "\<And>x. moves obs q (f x)"
  shows "moves obs (p @ q) (sbind m f)"
proof (rule moves_intro)
  fix s r s' assume s: "tx s = None" and run: "sbind m f s = Some (r, s')"
  show "\<exists>h n. history s' = history s @ h \<and> committed s' = last (committed s # h) \<and>
    along (obs (committed s)) (map obs h) (take n (p @ q)) \<and> (is_ok r \<longrightarrow> length (p @ q) \<le> n \<and> tx s' = None)"
  proof (cases "\<exists>e. m s = Some (Inl e, s') \<and> r = Inl e")
    case True
    then obtain h n where "history s' = history s @ h" "committed s' = last (committed s # h)"
      "along (obs (committed s)) (map obs h) (take n p)" using movesD [OF m s] by metis
    moreover have "take n p = take (min n (length p)) (p @ q)" by (simp add: min_def)
    ultimately show ?thesis using True by (intro exI [of _ h] exI [of _ "min n (length p)"]) auto
  next
    case False
    then obtain x t where t: "m s = Some (Inr x, t)" "f x t = Some (r, s')"
      using run by (auto simp: sbind_eq)
    obtain h n where h: "history t = history s @ h" "committed t = last (committed s # h)"
      "along (obs (committed s)) (map obs h) p" "tx t = None" by (rule movesD [OF m s t(1)]) simp
    obtain k j where k: "history s' = history t @ k" "committed s' = last (committed t # k)"
      "along (obs (committed t)) (map obs k) (take j q)" "is_ok r \<longrightarrow> length q \<le> j \<and> tx s' = None"
      by (rule movesD [OF f h(4) t(2)])
    have "obs (committed t) = last (obs (committed s) # map obs h)" by (simp add: h(2) last_map)
    then have "along (obs (committed s)) (map obs (h @ k)) (take (length p + j) (p @ q))"
      using along_append [OF h(3)] k(3) by simp
    then show ?thesis using h k by (intro exI [of _ "h @ k"] exI [of _ "length p + j"]) auto
  qed
qed

lemma moves_then: "moves obs [] m \<Longrightarrow> (\<And>x. moves obs p (f x)) \<Longrightarrow> moves obs p (sbind m f)"
  using moves_bind [of obs "[]" m p f] by simp

lemma keeps_bind:
  assumes m: "keeps_in_tx obs m" and f: "\<And>x. keeps_in_tx obs (f x)"
  shows "keeps_in_tx obs (sbind m f)"
proof -
  have "committed s' = committed s \<and> history s' = history s \<and>
      (is_ok r \<longrightarrow> (\<exists>rows'. tx s' = Some rows' \<and> obs rows' = obs rows))"
    if s: "tx s = Some rows" and run: "sbind m f s = Some (r, s')" for s rows r s'
  proof (cases "\<exists>e. m s = Some (Inl e, s') \<and> r = Inl e")
    case True
    then show ?thesis using keeps_in_txD(1,2) [OF m s] by auto
  next
    case False
    then obtain x t where t: "m s = Some (Inr x, t)" "f x t = Some (r, s')"
      using run by (auto simp: sbind_eq)
    obtain rows' where r': "tx t = Some rows'" "obs rows' = obs rows"
      using keeps_in_txD(3) [OF m s t(1)] by auto
    show ?thesis
      using keeps_in_txD(1,2) [OF m s t(1)] keeps_in_txD [OF f r'(1) t(2)] r'(2) by auto
  qed
  then show ?thesis unfolding keeps_in_tx_def by blast
qed

lemma keeps_foreach: "(\<And>x. keeps_in_tx obs (f x)) \<Longrightarrow> keeps_in_tx obs (sforeach f xs)"
  by (induction xs) (auto intro!: keeps_bind intro: frozen_keeps frozen_intros)

lemma moves_foreach: "(\<And>x. moves obs [] (f x)) \<Longrightarrow> moves obs [] (sforeach f xs)"
  by (induction xs) (auto intro!: moves_then intro: frozen_moves frozen_intros)

lemma moves_when: "(b \<Longrightarrow> moves obs p m) \<Longrightarrow> moves obs (if b then p else []) (swhen b m)"
  by (auto simp: swhen_def intro: frozen_moves frozen_intros)

text \<open>A transaction that keeps what is seen, and one that sets it.\<close>

lemma in_transaction_eq:
  "tx s = None \<Longrightarrow> in_transaction m s = Some (r, s') \<longleftrightarrow>
   (\<exists>e. m (s\<lparr> tx := Some (committed s) \<rparr>) = Some (Inl e, s') \<and> r = Inl e) \<or>
   (\<exists>t. m (s\<lparr> tx := Some (committed s) \<rparr>) = Some (Inr (), t) \<and> CommitTransactionCommand t = Some (r, s'))"
  by (simp add: in_transaction_def sbind_eq StartTransactionCommand_def)

lemma moves_transaction:
  assumes m: "keeps_in_tx obs m"
  shows "moves obs [] (in_transaction m)"
proof (rule moves_intro)
  fix s r s' assume s: "tx s = None" and run: "in_transaction m s = Some (r, s')"
  let ?s = "s\<lparr> tx := Some (committed s) \<rparr>"
  have tx: "tx ?s = Some (committed s)" by simp
  from run consider e where "m ?s = Some (Inl e, s')" "r = Inl e"
    | t where "m ?s = Some (Inr (), t)" "CommitTransactionCommand t = Some (r, s')"
    by (auto simp: in_transaction_eq [OF s])
  then show "\<exists>h n. history s' = history s @ h \<and> committed s' = last (committed s # h) \<and>
    along (obs (committed s)) (map obs h) (take n []) \<and> (is_ok r \<longrightarrow> length [] \<le> n \<and> tx s' = None)"
  proof cases
    case 1
    then show ?thesis using keeps_in_txD(1,2) [OF m tx] by (auto intro: along_done)
  next
    case 2
    obtain rows where "tx t = Some rows" "obs rows = obs (committed s)" "history t = history s"
      using keeps_in_txD [OF m tx 2(1)] by auto
    then show ?thesis
      using 2(2) along_stay [OF along_done [of "obs (committed s)"]]
      by (intro exI [of _ "[rows]"]) (auto simp: CommitTransactionCommand_def)
  qed
qed

lemma catalog_write_eq:
  "tx s = Some rows \<Longrightarrow> catalog_write f s =
   Some (case f rows of Inl e \<Rightarrow> (Inl e, s) | Inr rows' \<Rightarrow> (Inr (), s\<lparr> tx := Some rows' \<rparr>))"
  by (simp add: catalog_write_def tx_rows_def split: sum.splits)

text \<open>What one transaction with one write does.\<close>

lemma write_transaction:
  assumes "tx s = None"
  shows "in_transaction (catalog_write f) s =
    Some (case f (committed s) of
            Inl e \<Rightarrow> (Inl e, s\<lparr> tx := Some (committed s) \<rparr>)
          | Inr rows \<Rightarrow> (Inr (), s\<lparr> committed := rows, history := history s @ [rows] \<rparr>))"
  using assms
  by (auto simp: in_transaction_def sbind_def StartTransactionCommand_def catalog_write_def tx_rows_def
      CommitTransactionCommand_def split: sum.splits)

lemma keeps_write:
  "(\<And>rows rows'. f rows = Inr rows' \<Longrightarrow> obs rows' = obs rows) \<Longrightarrow> keeps_in_tx obs (catalog_write f)"
  by (auto simp: keeps_in_tx_def catalog_write_eq split: sum.splits)


text \<open>Reading what the rows tell without changing them, in a transaction of its own.\<close>

lemma frozenD:
  assumes "frozen m" "m s = Some (r, s')"
  shows "committed s' = committed s" "tx s' = tx s" "history s' = history s"
  using assms(1) [unfolded frozen_def, rule_format, OF assms(2)] by simp_all

lemma read_transaction:
  assumes g: "frozen g" and s: "tx s = None"
    and run: "sbind StartTransactionCommand (\<lambda>_. sbind g (\<lambda>x. sbind CommitTransactionCommand (\<lambda>_. sret x))) s =
        Some (r, s')"
  shows "committed s' = committed s \<and> (is_ok r \<longrightarrow> tx s' = None) \<and>
    history s' = history s @ (if is_ok r then [committed s] else [])"
proof -
  let ?s = "s\<lparr> tx := Some (committed s) \<rparr>"
  have run': "sbind g (\<lambda>x. sbind CommitTransactionCommand (\<lambda>_. sret x)) ?s = Some (r, s')"
    using run s by (simp add: sbind_def StartTransactionCommand_def)
  then obtain q t where q: "g ?s = Some (q, t)" by (auto simp: sbind_eq)
  note fr = frozenD [OF g q]
  show ?thesis
  proof (cases q)
    case (Inl e)
    then show ?thesis using run' q fr by (auto simp: sbind_def)
  next
    case (Inr x)
    then show ?thesis using run' q fr by (auto simp: sbind_def CommitTransactionCommand_def sret_def)
  qed
qed

lemma moves_read_transaction:
  assumes "frozen g"
  shows "moves obs [] (sbind StartTransactionCommand (\<lambda>_. sbind g (\<lambda>x. sbind CommitTransactionCommand (\<lambda>_. sret x))))"
  (is "moves obs [] ?m")
proof (rule moves_intro)
  fix s r s' assume "tx s = None" "?m s = Some (r, s')"
  from read_transaction [OF assms this] along_stay [OF along_done [of "obs (committed s)"]]
  show "\<exists>h n. history s' = history s @ h \<and> committed s' = last (committed s # h) \<and>
    along (obs (committed s)) (map obs h) (take n []) \<and> (is_ok r \<longrightarrow> length [] \<le> n \<and> tx s' = None)"
    by (intro exI [of _ "if is_ok r then [committed s] else []"]) (auto intro: along_done)
qed

lemma moves_cleanup:
  assumes c: "frozen c" and m: "moves obs p m"
  shows "moves obs p (ensure_error_cleanup c m)"
proof (rule moves_intro)
  fix s r s' assume s: "tx s = None" and run: "ensure_error_cleanup c m s = Some (r, s')"
  obtain q t where q: "m s = Some (q, t)"
    using run by (auto simp: ensure_error_cleanup_def split: option.splits)
  have "committed s' = committed t \<and> history s' = history t \<and> (is_ok r \<longrightarrow> is_ok q \<and> tx s' = tx t)"
  proof (cases q)
    case (Inl e)
    then have "sthen c (sfail e) t = Some (r, s')" using run q by (simp add: ensure_error_cleanup_def)
    then show ?thesis by (auto simp: sbind_eq sfail_def dest: frozenD [OF c])
  next
    case (Inr u)
    then show ?thesis using run q by (simp add: ensure_error_cleanup_def)
  qed
  then show "\<exists>h n. history s' = history s @ h \<and> committed s' = last (committed s # h) \<and>
    along (obs (committed s)) (map obs h) (take n p) \<and> (is_ok r \<longrightarrow> length p \<le> n \<and> tx s' = None)"
    using movesD [OF m s q] by metis
qed

lemma rows_disjoint: "is_table_row i n t r \<Longrightarrow> \<not> is_subscription_row j r"
  by (auto simp: is_table_row_def is_subscription_row_def)

lemma row_kind_set [simp]:
  "is_subscription_row i (r\<lparr> sync_status := v \<rparr>) = is_subscription_row i r"
  "is_table_row i n t (r\<lparr> sync_status := v \<rparr>) = is_table_row i n t r"
  by (simp_all add: is_table_row_def is_subscription_row_def)

lemma table_set_keeps_sub:
  assumes "set_table_sync_status i n t st rows = Inr rows'"
  shows "sub_status j rows' = sub_status j rows"
proof -
  have "rows' = update_first (is_table_row i n t) (\<lambda>r. r\<lparr> sync_status := st \<rparr>) rows"
    using assms by (simp add: set_table_sync_status_def split: option.splits)
  then show ?thesis
    using find_update_first_other [of "is_table_row i n t" "is_subscription_row j"] rows_disjoint
    by (simp add: sub_status_def)
qed

lemma table_create_keeps_sub:
  "create_local_sync_status x rows = Inr rows' \<Longrightarrow> sync_nspname x \<noteq> None \<Longrightarrow>
   sub_status j rows' = sub_status j rows"
  by (auto simp: create_local_sync_status_def catalog_insert_def sub_status_def find_append
      is_subscription_row_def split: if_splits option.splits)

lemma note_synced_keeps: "keeps_in_tx (sub_status j) (note_synced_table i rel)"
  unfolding note_synced_table_def
  by (rule keeps_bind, rule frozen_keeps, rule frozen_intros)
    (auto split: option.splits intro!: keeps_write dest: table_set_keeps_sub table_create_keeps_sub)

text \<open>Setting the status of a subscription.\<close>

lemma set_sub_status:
  assumes "set_subscription_sync_status i v rows = Inr rows'"
  shows "sub_status i rows' = Some v"
proof -
  obtain r where "List.find (is_subscription_row i) rows = Some r"
    "rows' = update_first (is_subscription_row i) (\<lambda>r. r\<lparr> sync_status := v \<rparr>) rows"
    using assms by (auto simp: set_subscription_sync_status_def split: option.splits)
  then show ?thesis
    using find_update_first [of "is_subscription_row i" "\<lambda>r. r\<lparr> sync_status := v \<rparr>" rows]
    by (simp add: sub_status_def)
qed

lemma set_status_eq:
  assumes "tx s = None" "set_status i v s = Some (r, s')"
  shows "if is_ok r then tx s' = None \<and> sub_status i (committed s') = Some v \<and> history s' = history s @ [committed s']
         else committed s' = committed s \<and> history s' = history s"
proof (cases "set_subscription_sync_status i v (committed s)")
  case (Inl e)
  then show ?thesis using assms by (auto simp: set_status_def write_transaction)
next
  case (Inr rows)
  then show ?thesis
    using assms set_sub_status [OF Inr] by (auto simp: set_status_def write_transaction)
qed

lemma moves_set_status: "moves (sub_status i) [Some v] (set_status i v)"
proof (rule moves_intro)
  fix s r s' assume "tx s = None" "set_status i v s = Some (r, s')"
  note eq = set_status_eq [OF this]
  show "\<exists>h n. history s' = history s @ h \<and> committed s' = last (committed s # h) \<and>
    along (sub_status i (committed s)) (map (sub_status i) h) (take n [Some v]) \<and>
    (is_ok r \<longrightarrow> length [Some v] \<le> n \<and> tx s' = None)"
  proof (cases "is_ok r")
    case True
    then show ?thesis
      using eq by (intro exI [of _ "[committed s']"] exI [of _ 1]) (auto intro: along_step along_done)
  next
    case False
    then show ?thesis using eq by (intro exI [of _ "[]"] exI [of _ 0]) (auto intro: along_done)
  qed
qed

lemma moves_copy_table: "moves obs [] (copy_table_data E a b rel sets)"
proof -
  have "frozen (\<lambda>s. let cache = pglogical_relation_cache_updater (sy_keyof E) (rcache s) rel in
      (case pglogical_relation_open (sy_keyof E) (sy_db E) cache (rem_relid rel) of
         Inl e \<Rightarrow> Some (Inl e, s\<lparr> rcache := cache \<rparr>)
       | Inr (rl, cache) \<Rightarrow>
           Some (Inr (make_copy_attnamelist rl),
                 s\<lparr> rcache := pglogical_relation_close (sy_keyof E) cache (rem_relid rel) \<rparr>)))"
    by (auto simp: frozen_def Let_def split: sum.splits)
  then have columns: "moves obs [] (copy_columns E rel)"
    unfolding copy_columns_def by (rule moves_read_transaction)
  have "frozen (copy_stream E a b q q')" for q q'
    unfolding copy_stream_def by (intro frozen_bind frozen_intros)
  then have "frozen (\<lambda>s. copy_stream E a b (q s) (q' s) s)" for q q'
    by (simp add: frozen_def)
  then show ?thesis
    unfolding copy_table_data_def Let_def by (intro moves_then columns frozen_moves)
qed

lemma moves_copy_sets: "moves obs [] (copy_replication_sets_data E a b sn sets)"
  unfolding copy_replication_sets_data_def connect_def start_copy_origin_tx_def start_copy_target_tx_def
    finish_copy_target_tx_def
  by (rule moves_then moves_foreach moves_copy_table frozen_slift [THEN frozen_moves]
      frozen_intros [THEN frozen_moves])+

lemma moves_tool: "moves obs [] (dump_structure E sub f sn)" "moves obs [] (restore_structure E sub f x)"
  unfolding dump_structure_def restore_structure_def run_tool_def
  by (auto intro!: frozen_moves frozen_intros split: option.splits)

lemma moves_sync_data: "moves (sub_status (sub_id sub)) [Some SYNC_STATUS_DATA] (sync_data E sub sn)"
proof -
  have "moves (sub_status (sub_id sub)) ([Some SYNC_STATUS_DATA] @ []) (sync_data E sub sn)"
    unfolding sync_data_def
    by (rule moves_bind [OF moves_set_status])
      (intro moves_then moves_copy_sets moves_transaction keeps_foreach note_synced_keeps)
  then show ?thesis by simp
qed

lemma moves_sync_steps:
  "moves (sub_status (sub_id sub))
     ((if SyncKindStructure kind then [Some SYNC_STATUS_STRUCTURE] else []) @
      (if SyncKindData kind then [Some SYNC_STATUS_DATA] else []) @
      (if SyncKindStructure kind then [Some SYNC_STATUS_CONSTAINTS] else []))
     (sync_steps E sub kind f lsn sn)"
proof -
  have step: "moves (sub_status (sub_id sub)) ([Some v] @ []) (sthen (set_status (sub_id sub) v) m)"
    if "moves (sub_status (sub_id sub)) [] m" for v and m :: "('a, unit) sync_m"
    by (rule moves_bind [OF moves_set_status that])
  show ?thesis
    unfolding sync_steps_def
    by (rule moves_then [OF moves_transaction], intro keeps_bind frozen_intros [THEN frozen_keeps])
      (intro moves_bind moves_when moves_sync_data step [simplified] moves_then moves_tool)
qed

lemma moves_slot: "moves obs [] (ensure_replication_slot_snapshot E dsn slot f)"
  by (rule frozen_moves)
    (auto simp: frozen_def ensure_replication_slot_snapshot_def sbind_eq act_def sret_def Let_def)

lemma moves_after: "moves obs p m \<Longrightarrow> moves obs [] k \<Longrightarrow> moves obs p (sthen m k)"
  using moves_bind [of obs p m "[]" "\<lambda>_. k"] by simp

lemma moves_sync_initialize:
  "moves (sub_status (sub_id sub)) (map Some (init_path kind)) (sync_initialize E sub kind)"
proof -
  let ?steps = "(if SyncKindStructure kind then [Some SYNC_STATUS_STRUCTURE] else []) @
      (if SyncKindData kind then [Some SYNC_STATUS_DATA] else []) @
      (if SyncKindStructure kind then [Some SYNC_STATUS_CONSTAINTS] else [])"
  have work: "moves (sub_status (sub_id sub)) (?steps @ [Some SYNC_STATUS_CATCHUP])
      (sthen (ensure_error_cleanup (pglogical_sync_worker_cleanup E sub)
               (sthen (ensure_error_cleanup (pglogical_sync_tmpfile_cleanup_cb f)
                         (sync_steps E sub kind f lsn sn))
                  (pglogical_sync_tmpfile_cleanup_cb f)))
        (set_status (sub_id sub) SYNC_STATUS_CATCHUP))" for f lsn sn
    by (intro moves_bind moves_set_status moves_cleanup moves_after moves_sync_steps frozen_cleanup
        frozen_intros(10) frozen_intros(10) [THEN frozen_moves])
  have path: "map Some (init_path kind) = ?steps @ [Some SYNC_STATUS_CATCHUP]"
    by (simp add: init_path_def)
  show ?thesis
    unfolding sync_initialize_def Let_def connect_def path
    by (intro moves_then moves_slot frozen_slift [THEN frozen_moves] frozen_intros(4) [THEN frozen_moves])
      (simp only: split_paired_all prod.case work)
qed

lemma read_sub_status:
  assumes "tx s = None"
  shows "sbind StartTransactionCommand (\<lambda>_.
      sbind (catalog_read (get_subscription_sync_status i False)) (\<lambda>found.
      sbind CommitTransactionCommand (\<lambda>_. k found))) s =
    (case List.find (is_subscription_row i) (committed s) of
       None \<Rightarrow> Some (elog ''subscription %u status not found'', s\<lparr> tx := Some (committed s) \<rparr>)
     | Some r \<Rightarrow> k (Some r) (s\<lparr> history := history s @ [committed s] \<rparr>))"
  using assms by (simp add: sbind_def StartTransactionCommand_def CommitTransactionCommand_def
      catalog_read_def tx_rows_def get_subscription_sync_status_def split: option.splits)

text \<open>
  The last part of a synchronization: the work, if there is any left, and the final status.  The commit of
  the transaction that read the status is the first of the history.
\<close>

lemma path_forward:
  "st \<in> {SYNC_STATUS_INIT, SYNC_STATUS_CATCHUP} \<Longrightarrow> sorted_wrt (<) (map status_rank (st # sync_path st kind))"
  by (auto simp: sync_path_def init_path_def status_rank_def)

lemma along_path:
  assumes "along (Some st) l (map Some (take n (sync_path st kind)))" "st \<in> {SYNC_STATUS_INIT, SYNC_STATUS_CATCHUP}"
  shows "remdups_adj (Some st # l) = map Some (take (Suc n) (st # sync_path st kind))"
proof -
  have "distinct (st # sync_path st kind)"
    using assms(2) by (auto simp: sync_path_def init_path_def)
  then have "distinct (Some st # map Some (take n (sync_path st kind)))"
    by (auto simp: distinct_map dest: in_set_takeD)
  from along_distinct [OF assms(1) this] show ?thesis by simp
qed

lemma sync_to_ready:
  assumes "tx s = None" "moves (sub_status i) (map Some p) m" "sub_status i (committed s) = Some st"
    and run: "sthen m (set_status i SYNC_STATUS_READY) (s\<lparr> history := history s @ [committed s] \<rparr>) = Some (r, s')"
  shows "\<exists>h n. history s' = history s @ h \<and> committed s' = last (committed s # h) \<and>
    along (Some st) (map (sub_status i) h) (map Some (take n (p @ [SYNC_STATUS_READY]))) \<and>
    (if is_ok r then length p < n \<and> tx s' = None else n \<le> length p)"
proof -
  let ?s = "s\<lparr> history := history s @ [committed s] \<rparr>"
  have stay: "along (Some st) (map (sub_status i) (committed s # h)) q"
    if "along (Some st) (map (sub_status i) h) q" for h q
    using along_stay [OF that] assms(3) by simp
  show ?thesis
  proof (cases "\<exists>e. m ?s = Some (Inl e, s') \<and> r = Inl e")
    case True
    then obtain e where e: "m ?s = Some (Inl e, s')" by blast
    have tx: "tx ?s = None" using assms(1) by simp
    obtain h n where "history s' = history ?s @ h" "committed s' = last (committed ?s # h)"
      "along (sub_status i (committed ?s)) (map (sub_status i) h) (take n (map Some p))"
      by (rule movesD [OF assms(2) tx e])
    then have h: "history s' = history ?s @ h" "committed s' = last (committed ?s # h)"
      "along (Some st) (map (sub_status i) h) (take n (map Some p))"
      using assms(3) by simp_all
    have "map Some (take (min n (length p)) (p @ [SYNC_STATUS_READY])) = take n (map Some p)"
      by (simp add: take_map min_def)
    then show ?thesis
      using h stay [OF h(3)] True
      by (intro exI [of _ "committed s # h"] exI [of _ "min n (length p)"]) auto
  next
    case False
    then obtain t where t: "m ?s = Some (Inr (), t)" "set_status i SYNC_STATUS_READY t = Some (r, s')"
      using run by (auto simp: sbind_eq)
    obtain h where h: "history t = history ?s @ h" "committed t = last (committed ?s # h)"
      "along (Some st) (map (sub_status i) h) (map Some p)" "tx t = None"
      using movesD [OF assms(2) _ t(1)] assms(1,3) by auto
    note eq = set_status_eq [OF h(4) t(2)]
    show ?thesis
    proof (cases "is_ok r")
      case True
      have "along (Some st) (map (sub_status i) h @ [Some SYNC_STATUS_READY]) (map Some p @ [Some SYNC_STATUS_READY])"
        by (rule along_append [OF h(3)]) (intro along_step along_done)
      then have "along (Some st) (map (sub_status i) (h @ [committed s'])) (map Some (p @ [SYNC_STATUS_READY]))"
        using True eq by simp
      from stay [OF this] show ?thesis
        using True eq h by (intro exI [of _ "committed s # h @ [committed s']"] exI [of _ "Suc (length p)"]) auto
    next
      case False
      then show ?thesis
        using eq h stay [OF h(3)] by (intro exI [of _ "committed s # h"] exI [of _ "length p"]) auto
    qed
  qed
qed

lemmas sync_eval = sbind_def sret_def sfail_def slift_def swhen_def in_transaction_def StartTransactionCommand_def
  CommitTransactionCommand_def catalog_read_def catalog_write_def tx_rows_def
  get_subscription_sync_status_def set_subscription_sync_status_def
  get_table_sync_status_def set_table_sync_status_def

section \<open>Properties\<close>

lemma ex_provider_answers:
  "pglogical_remote_function_exists ex_conn n f k = Inr False"
  "pg_logical_get_remote_repset_tables ex_conn sets = Inr []"
  by (simp_all add: pglogical_remote_function_exists_def pg_logical_get_remote_repset_tables_def ex_conn_def
      PQntuples_def Let_def)

lemma ex_act: "act (ex_sync_env True) a msg s = Some (Inr (), s\<lparr> actions := actions s @ [a] \<rparr>)"
  by (simp add: act_def ex_sync_env_def)

lemma ex_tool: "run_tool (ex_sync_env True) b e1 e2 c = act (ex_sync_env True) (Shell (c b)) ''could not execute command %s''"
  by (simp add: run_tool_def) (simp add: ex_sync_env_def)

lemma ex_sync_succeeds:
  "\<exists>t. pglogical_sync_subscription (ex_sync_env True) ex_sub
     (ex_sync_state [ex_status SYNC_STATUS_INIT None]) = Some (Inr (), t)"
proof -
  have E: "provider (ex_sync_env True) = (\<lambda>_. ex_conn)" "slot_created (ex_sync_env True) n = (100, ''snap'')" for n
    by (simp_all add: ex_sync_env_def)
  show ?thesis
    unfolding pglogical_sync_subscription_def sync_initialize_def sync_steps_def sync_data_def dump_structure_def
      restore_structure_def ex_tool copy_replication_sets_data_def connect_def start_copy_origin_tx_def
      start_copy_target_tx_def finish_copy_target_tx_def Let_def
    by (simp add: sync_eval set_status_def ex_act E ensure_replication_slot_snapshot_def ensure_error_cleanup_def
        ex_provider_answers finish_copy_origin_tx_def pglogical_sync_tmpfile_cleanup_cb_def ex_sync_state_def
        ensure_replication_origin_def replorigin_advance_def
        ex_status_def is_subscription_row_def ex_sub_def SyncKindStructure_def SyncKindData_def)
qed

text \<open>C36. The status of a subscription under its synchronization only moves forward.  Started outside a
  transaction, and whatever the provider, the tools and the connections do: a subscription without a status row
  is an error that commits nothing; a ready one is left as it is; one that was interrupted in a step that
  cannot be repeated is refused and nothing is changed.  From the initial status or from catchup, the
  statuses that the transactions of the run commit, one after the other and without repetitions, are a
  beginning of one path, which is increasing in the order of the steps: from the initial status the
  structure, the data and the constraints, as far as the kind of the synchronization asks for them, then catchup and
  ready, and from catchup only ready.  A run that succeeds has committed the whole path, so it ends with the
  status ready and no open transaction, and a run that fails ends with the last status it committed,
  which is one of the path and never ready.\<close>

theorem subscription_sync_status:
  assumes "tx s = None" and run: "pglogical_sync_subscription E sub s = Some (r, s')"
  shows "case List.find (is_subscription_row (sub_id sub)) (committed s) of
      None \<Rightarrow> \<not> is_ok r \<and> committed s' = committed s \<and> history s' = history s
    | Some row \<Rightarrow>
        if sync_status row = SYNC_STATUS_READY
        then r = Inr () \<and> s' = s\<lparr> history := history s @ [committed s] \<rparr>
        else if sync_status row \<noteq> SYNC_STATUS_INIT \<and> sync_status row \<noteq> SYNC_STATUS_CATCHUP
        then \<not> is_ok r \<and> s' = s\<lparr> history := history s @ [committed s] \<rparr>
        else let path = sync_status row # sync_path (sync_status row) (sync_kind row) in
          sorted_wrt (<) (map status_rank path) \<and>
          (\<exists>h n. history s' = history s @ h \<and> committed s' = last (committed s # h) \<and>
             remdups_adj (map (sub_status (sub_id sub)) (committed s # h)) = map Some (take (Suc n) path) \<and>
             sub_status (sub_id sub) (committed s') = Some (last (take (Suc n) path)) \<and>
             (if is_ok r then take (Suc n) path = path \<and> tx s' = None \<and>
                sub_status (sub_id sub) (committed s') = Some SYNC_STATUS_READY
              else SYNC_STATUS_READY \<notin> set (take (Suc n) path)))"
proof (cases "List.find (is_subscription_row (sub_id sub)) (committed s)")
  case None
  then show ?thesis
    using run by (auto simp: pglogical_sync_subscription_def Let_def read_sub_status [OF assms(1)])
next
  case (Some row)
  let ?st = "sync_status row" and ?kind = "sync_kind row"
  let ?init = "swhen (?st = SYNC_STATUS_INIT) (sync_initialize E sub ?kind)"
  let ?p = "if ?st = SYNC_STATUS_INIT then init_path ?kind else []"
  let ?s = "s\<lparr> history := history s @ [committed s] \<rparr>"
  have st: "sub_status (sub_id sub) (committed s) = Some ?st"
    using Some by (simp add: sub_status_def)
  have r: "(if ?st = SYNC_STATUS_READY then sret ()
     else if ?st \<noteq> SYNC_STATUS_INIT \<and> ?st \<noteq> SYNC_STATUS_CATCHUP
     then selog ''subscriber %s initialization failed during nonrecoverable step (%c), please try the setup again''
     else sthen ?init (set_status (sub_id sub) SYNC_STATUS_READY)) ?s = Some (r, s')"
    using run by (simp only: pglogical_sync_subscription_def Let_def read_sub_status [OF assms(1)] Some
        option.case option.sel)
  show ?thesis
  proof (cases "?st \<in> {SYNC_STATUS_INIT, SYNC_STATUS_CATCHUP}")
    case False
    then show ?thesis using r Some by (auto simp: sret_def sfail_def split: if_splits)
  next
    case True
    have m: "moves (sub_status (sub_id sub)) (map Some ?p) ?init"
      using moves_when [of "?st = SYNC_STATUS_INIT", OF moves_sync_initialize, of sub ?kind E]
      unfolding if_distrib [of "map Some"] list.map .
    have "sthen ?init (set_status (sub_id sub) SYNC_STATUS_READY) ?s = Some (r, s')"
      using r True by auto
    from sync_to_ready [OF assms(1) m st this]
    obtain h n where h: "history s' = history s @ h" "committed s' = last (committed s # h)"
      "along (Some ?st) (map (sub_status (sub_id sub)) h) (map Some (take n (sync_path ?st ?kind)))"
      "if is_ok r then length ?p < n \<and> tx s' = None else n \<le> length ?p"
      by (auto simp: sync_path_def)
    have ends: "if is_ok r then take n (sync_path ?st ?kind) = sync_path ?st ?kind
        else SYNC_STATUS_READY \<notin> set (take n (sync_path ?st ?kind))"
      using h(4) by (auto simp: sync_path_def init_path_def split: if_splits dest: in_set_takeD)
    have rem: "remdups_adj (map (sub_status (sub_id sub)) (committed s # h)) =
        map Some (take (Suc n) (?st # sync_path ?st ?kind))"
      using along_path [OF h(3) True] st by simp
    have "last (map (sub_status (sub_id sub)) (committed s # h)) = sub_status (sub_id sub) (committed s')"
      by (simp add: h(2) last_map)
    then have last: "sub_status (sub_id sub) (committed s') = Some (last (take (Suc n) (?st # sync_path ?st ?kind)))"
      using arg_cong [OF rem, of last] by (simp add: last_remdups_adj last_map del: remdups_adj.simps)
    have "last (?st # sync_path ?st ?kind) = SYNC_STATUS_READY" by (simp add: sync_path_def)
    then show ?thesis
      using True Some h rem last ends path_forward [OF True, of ?kind] by (auto simp: Let_def)
  qed
qed

theorem subscription_sync_status_witness:
  "(\<exists>s'. pglogical_sync_subscription (ex_sync_env True) ex_sub
            (ex_sync_state [ex_status SYNC_STATUS_INIT None]) = Some (Inr (), s') \<and>
          tx s' = None \<and> sub_status (sub_id ex_sub) (committed s') = Some SYNC_STATUS_READY \<and>
          remdups_adj (map (sub_status (sub_id ex_sub)) ([ex_status SYNC_STATUS_INIT None] # history s')) =
            map Some [SYNC_STATUS_INIT, SYNC_STATUS_STRUCTURE, SYNC_STATUS_DATA, SYNC_STATUS_CONSTAINTS,
                      SYNC_STATUS_CATCHUP, SYNC_STATUS_READY]) \<and>
   (\<exists>e s'. pglogical_sync_subscription (ex_sync_env False) ex_sub
            (ex_sync_state [ex_status SYNC_STATUS_INIT None]) = Some (Inl e, s') \<and>
          sub_status (sub_id ex_sub) (committed s') \<noteq> Some SYNC_STATUS_READY)"
proof -
  let ?i = "ex_sync_state [ex_status SYNC_STATUS_INIT None]"
  have st: "List.find (is_subscription_row (sub_id ex_sub)) (committed ?i) = Some (ex_status SYNC_STATUS_INIT None)"
    "tx ?i = None" "history ?i = []" "committed ?i = [ex_status SYNC_STATUS_INIT None]"
    by (simp_all add: ex_sync_state_def ex_status_def is_subscription_row_def ex_sub_def)
  obtain t where t: "pglogical_sync_subscription (ex_sync_env True) ex_sub ?i = Some (Inr (), t)"
    using ex_sync_succeeds by blast
  obtain e f where f: "pglogical_sync_subscription (ex_sync_env False) ex_sub ?i = Some (Inl e, f)"
    by (simp add: sync_eval pglogical_sync_subscription_def Let_def sync_initialize_def ex_sync_state_def
        connect_def act_def ex_sync_env_def ex_status_def is_subscription_row_def ex_sub_def)
  have path: "sync_path SYNC_STATUS_INIT SYNC_KIND_FULL = [SYNC_STATUS_STRUCTURE, SYNC_STATUS_DATA,
      SYNC_STATUS_CONSTAINTS, SYNC_STATUS_CATCHUP, SYNC_STATUS_READY]"
    by (simp add: sync_path_def init_path_def SyncKindStructure_def SyncKindData_def)
  have row: "sync_status (ex_status SYNC_STATUS_INIT None) = SYNC_STATUS_INIT"
    "sync_kind (ex_status SYNC_STATUS_INIT None) = SYNC_KIND_FULL"
    by (simp_all add: ex_status_def)
  have T: "tx t = None \<and> sub_status (sub_id ex_sub) (committed t) = Some SYNC_STATUS_READY \<and>
      remdups_adj (map (sub_status (sub_id ex_sub)) (committed ?i # history t)) =
        map Some (SYNC_STATUS_INIT # sync_path SYNC_STATUS_INIT SYNC_KIND_FULL)"
  proof -
    have "is_ok (Inr () :: unit result)" "SYNC_STATUS_INIT \<noteq> SYNC_STATUS_READY" by simp_all
    then show ?thesis
      using subscription_sync_status [OF st(2) t] unfolding st(1,3) option.case row Let_def append.simps
      by (simp only: if_True if_False simp_thms) metis
  qed
  have F: "sub_status (sub_id ex_sub) (committed f) \<noteq> Some SYNC_STATUS_READY"
  proof -
    let ?path = "SYNC_STATUS_INIT # sync_path SYNC_STATUS_INIT SYNC_KIND_FULL"
    have "\<not> is_ok (Inl e :: unit result)" "SYNC_STATUS_INIT \<noteq> SYNC_STATUS_READY" by simp_all
    then have "\<exists>n. sub_status (sub_id ex_sub) (committed f) = Some (last (take (Suc n) ?path)) \<and>
        SYNC_STATUS_READY \<notin> set (take (Suc n) ?path)"
      using subscription_sync_status [OF st(2) f] unfolding st(1,3) option.case row Let_def append.simps
      by (simp only: if_True if_False simp_thms) blast
    then obtain n where n: "sub_status (sub_id ex_sub) (committed f) = Some (last (take (Suc n) ?path))"
      "SYNC_STATUS_READY \<notin> set (take (Suc n) ?path)" by blast
    have "last (take (Suc n) ?path) \<in> set (take (Suc n) ?path)" by (rule last_in_set) simp
    with n show ?thesis by (metis option.inject)
  qed
  show ?thesis
    using t f T [unfolded path st(4)] F by (intro conjI exI [of _ t] exI [of _ e] exI [of _ f]) simp_all
qed

text \<open>A sync worker started for a table that is already synchronized does not finish: the check returns with its
  transaction open, so the transaction that would mark the table and drop the slot and the origin cannot
  start.  The worker ends with an error of the backend instead of exiting, the transaction is still open,
  nothing is committed, no action is taken on the provider, and the apply worker is not woken.\<close>

theorem ready_table_sync_fails:
  assumes "tx s = None"
    and "sub_status (sub_id sub) (committed s) = Some SYNC_STATUS_READY"
    and "table_status (sub_id sub) (w_nspname (workers (s_ctx s) ! slot)) (w_relname (workers (s_ctx s) ! slot))
           (committed s) = Some SYNC_STATUS_READY"
  shows "pglogical_sync_main E slot sub s =
    Some (elog ''StartTransactionCommand: unexpected state %s'', s\<lparr> tx := Some (committed s) \<rparr>)"
  using assms
  by (auto simp: pglogical_sync_main_def pglogical_sync_table_def pglogical_sync_worker_finish_def exit_after_def
      sync_eval sub_status_def table_status_def Let_def)

theorem ready_table_sync_fails_witness:
  "pglogical_sync_main (ex_sync_env True) 0 ex_sub
     (ex_sync_state [ex_status SYNC_STATUS_READY None, ex_status SYNC_STATUS_READY (Some (''public'', ''t''))]) =
   Some (elog ''StartTransactionCommand: unexpected state %s'',
     (ex_sync_state [ex_status SYNC_STATUS_READY None, ex_status SYNC_STATUS_READY (Some (''public'', ''t''))])
       \<lparr> tx := Some [ex_status SYNC_STATUS_READY None, ex_status SYNC_STATUS_READY (Some (''public'', ''t''))] \<rparr>)"
proof -
  let ?s = "ex_sync_state [ex_status SYNC_STATUS_READY None, ex_status SYNC_STATUS_READY (Some (''public'', ''t''))]"
  have "tx ?s = None" "sub_status (sub_id ex_sub) (committed ?s) = Some SYNC_STATUS_READY"
    "table_status (sub_id ex_sub) (w_nspname (workers (s_ctx ?s) ! 0)) (w_relname (workers (s_ctx ?s) ! 0))
       (committed ?s) = Some SYNC_STATUS_READY"
    by (simp_all add: ex_sync_state_def ex_status_def sub_status_def table_status_def is_subscription_row_def
        is_table_row_def ex_sub_def nameeq_def)
  from ready_table_sync_fails [OF this] show ?thesis by (simp add: ex_sync_state_def)
qed

end
