(* ===== verification/Pgl_Apply.thy ===== *)
theory Pgl_Apply
  imports Pgl_Rows Pgl_Feedback Pgl_Messages Pgl_Sync Pgl_Queue Pgl_Repset
begin

text \<open>
  The apply worker, \<open>src/pglogical_apply.c\<close>: the handlers of the replication messages, queued commands, the
  coordination with the sync workers, and the loop over the stream.  The state of the synchronization
  (status catalog, open transaction, origins, relation cache, worker slots) is the part \<open>syn\<close> of the state.
  \<open>tables\<close> are the rows as the worker's transaction sees them and \<open>stored\<close> the rows as committed.
\<close>

section \<open>State and environment\<close>

record 'k apply_state =
  syn :: "'k sync_state"
  in_remote_transaction :: bool
  remote_origin_lsn :: xlogrecptr
  remote_origin_id :: "16 word"
  session_origin_lsn :: xlogrecptr
  session_origin_timestamp :: timestamptz
  SyncingTables :: "(string \<times> string) list"
  fbk :: feedback
  tables :: "oid \<Rightarrow> heap_row list"
  stored :: "oid \<Rightarrow> heap_row list"
  sequences :: "oid \<rightharpoonup> int"
  cur_xid :: transaction_id
  XactLastCommitEnd :: xlogrecptr
  last_received :: xlogrecptr
  ticks :: nat
  server_log :: "string list"
  slept :: "int list"
  sent :: "string list"

text \<open>
  The environment.  What changes with time is a function of the tick: the clock, new transaction numbers, the end of
  the commit record and the position up to which the log is on disk.  \<open>run_command\<close> is the execution of
  one SQL command for a role: it may change tables and, when it is a command that manages its own
  transactions, the transaction number.
\<close>

record 'k apply_env =
  wire :: pqformat
  io :: typeio
  senv :: "'k sync_env"
  server :: server_env
  exec :: executor
  settings :: conflict_env
  bgw :: bgw_env
  my_slot_no :: nat
  my_sub :: PGLogicalSubscription
  apply_delay :: int
  QueueRelid :: oid
  own_origin :: "16 word"
  origin_named :: "string \<Rightarrow> 16 word"
  origin_name :: "16 word \<Rightarrow> string"
  origin_free :: "16 word \<Rightarrow> bool"
  clock :: "nat \<Rightarrow> timestamptz"
  new_xid :: "nat \<Rightarrow> transaction_id"
  commit_end :: "nat \<Rightarrow> xlogrecptr"
  GetFlushRecPtr :: "nat \<Rightarrow> xlogrecptr"
  put_flush :: "string \<Rightarrow> bool"
  stack_tuple :: PGLogicalTupleData
  qenv :: "jsonb queue_env"
  queue_columns :: "heap_tuple \<Rightarrow> QueueTuple"
  RangeVarGetRelid :: "string \<Rightarrow> string \<Rightarrow> oid"
  ExecuteTruncate :: "oid \<Rightarrow> unit result"
  get_namespace_oid :: "string \<Rightarrow> oid result"
  get_relname_relid :: "string \<Rightarrow> oid \<Rightarrow> oid"
  read_int8 :: "string \<Rightarrow> int result"
  setval_ok :: "oid \<Rightarrow> int \<Rightarrow> unit result"
  pg_parse_query :: "string \<Rightarrow> string list result"
  run_command :: "string \<Rightarrow> string \<Rightarrow> bool \<Rightarrow> (oid \<Rightarrow> heap_row list) \<Rightarrow> transaction_id
     \<Rightarrow> ((oid \<Rightarrow> heap_row list) \<times> transaction_id) result"

type_synonym ('k, 'a) apply_m = "('k apply_state, 'a) st_m"

definition lift_sync :: "('k, 'a) sync_m \<Rightarrow> ('k, 'a) apply_m" where
  "lift_sync m = on_part syn (\<lambda>t s. s\<lparr> syn := t \<rparr>) m"

definition me :: "'k apply_env \<Rightarrow> 'k apply_state \<Rightarrow> PGLogicalWorker" where
  "me E s = workers (s_ctx (syn s)) ! my_slot_no E"

abbreviation a_cache :: "'k apply_state \<Rightarrow> 'k relcache" where
  "a_cache s \<equiv> rcache (syn s)"

definition set_cache :: "'k relcache \<Rightarrow> 'k apply_state \<Rightarrow> 'k apply_state" where
  "set_cache c s = s\<lparr> syn := (syn s)\<lparr> rcache := c \<rparr> \<rparr>"

section \<open>Transactions\<close>

definition IsTransactionState :: "'k apply_state \<Rightarrow> bool" where
  "IsTransactionState s \<longleftrightarrow> tx (syn s) \<noteq> None"

definition check_syncing_relation :: "string \<Rightarrow> string \<Rightarrow> 'k apply_state \<Rightarrow> bool" where
  "check_syncing_relation nspname rname s \<longleftrightarrow> SyncingTables s \<noteq> [] \<and> (nspname, rname) \<in> set (SyncingTables s)"

definition ensure_transaction :: "'k apply_env \<Rightarrow> ('k, bool) apply_m" where
  "ensure_transaction E s =
     (if IsTransactionState s then Some (Inr False, s)
      else sbind (lift_sync StartTransactionCommand) (\<lambda>_.
           sbind (smodify (\<lambda>s. s\<lparr> cur_xid := new_xid E (ticks s), ticks := ticks s + 1 \<rparr>)) (\<lambda>_.
           sret True)) s)"

text \<open>
  The commit of the worker's transaction makes its rows durable and moves the end of the last commit.  The short
  transactions on the status catalog use the plain \<open>CommitTransactionCommand\<close>: they begin where no
  transaction is open, so there is no row of a user table to make durable.
\<close>

definition commit_transaction :: "'k apply_env \<Rightarrow> ('k, unit) apply_m" where
  "commit_transaction E =
     sthen (lift_sync CommitTransactionCommand)
       (smodify (\<lambda>s. s\<lparr> stored := tables s, XactLastCommitEnd := commit_end E (ticks s), ticks := ticks s + 1 \<rparr>))"

section \<open>Tables being synchronized\<close>

definition range_var :: "string option \<times> string option \<Rightarrow> (string \<times> string) result" where
  "range_var x = (case x of (Some n, Some r) \<Rightarrow> Inr (n, r) | _ \<Rightarrow> Inl NullDereference)"

definition reread_unsynced_tables :: "oid \<Rightarrow> ('k, unit) apply_m" where
  "reread_unsynced_tables subid s =
     sbind (slift (rmap range_var (get_unsynced_tables subid (tx_rows (syn s))))) (\<lambda>unsynced.
       smodify (\<lambda>s. s\<lparr> SyncingTables := unsynced \<rparr>)) s"

definition set_my_ctx :: "(PGLogicalContext \<Rightarrow> PGLogicalContext) \<Rightarrow> 'k apply_state \<Rightarrow> 'k apply_state" where
  "set_my_ctx f s = s\<lparr> syn := (syn s)\<lparr> s_ctx := f (s_ctx (syn s)) \<rparr> \<rparr>"

text \<open>
  One table of the list: its status, after handing over to its sync worker when that one waits for us.  The worker may
  be gone between the two looks at it, so the latch is set only when it still runs.
\<close>

definition hand_over ::
  "'k apply_env \<Rightarrow> xlogrecptr \<Rightarrow> string \<Rightarrow> string \<Rightarrow> nat \<Rightarrow> ('k, char) apply_m" where
  "hand_over E end_pos nspname rname i =
     sbind (smodify (set_my_ctx (set_worker i (\<lambda>w. w\<lparr> replay_stop_lsn := end_pos \<rparr>)))) (\<lambda>_.
     sbind (\<lambda>s. lift_sync (in_transaction (catalog_write
              (set_table_sync_status (w_subid (me E s)) nspname rname SYNC_STATUS_CATCHUP))) s) (\<lambda>_.
     sbind (smodify (\<lambda>s. set_my_ctx (\<lambda>ctx. case proc (workers ctx ! i) of
                       None \<Rightarrow> ctx | Some pid \<Rightarrow> SetLatch pid ctx) s)) (\<lambda>_ s.
     case wait_for_sync_status_change (sy_looks (senv E)) (sy_mydb (senv E)) (w_subid (me E s)) nspname rname
            SYNC_STATUS_READY 0 (committed (syn s)) of
       None \<Rightarrow> None
     | Some (Inl e) \<Rightarrow> Some (Inl e, s)
     | Some (Inr (done, rows, ctx)) \<Rightarrow>
         Some (Inr (if done then SYNC_STATUS_READY else SYNC_STATUS_SYNCWAIT),
               s\<lparr> syn := (syn s)\<lparr> committed := rows, s_ctx := ctx \<rparr> \<rparr>))))"

definition table_progress :: "'k apply_env \<Rightarrow> xlogrecptr \<Rightarrow> string \<times> string \<Rightarrow> ('k, char) apply_m" where
  "table_progress E end_pos = (\<lambda>(nspname, rname) s.
     sbind (lift_sync StartTransactionCommand) (\<lambda>_.
     sbind (\<lambda>s. lift_sync (catalog_read (get_table_sync_status (w_subid (me E s)) nspname rname True)) s) (\<lambda>sync.
     sbind (lift_sync CommitTransactionCommand) (\<lambda>_ s.
     let status = (case sync of None \<Rightarrow> SYNC_STATUS_READY | Some r \<Rightarrow> sync_status r);
         w = pglogical_sync_find (sy_mydb (senv E)) (w_subid (me E s)) nspname rname (s_ctx (syn s))
     in if status = SYNC_STATUS_SYNCWAIT
        then (case worker_at w (s_ctx (syn s)) of
                None \<Rightarrow> Some (Inr status, s)
              | Some worker \<Rightarrow>
                  if pglogical_worker_running (Some worker) \<and> end_pos \<ge> replay_stop_lsn worker
                  then hand_over E end_pos nspname rname (the w) s
                  else Some (Inr status, s))
        else Some (Inr status, s)))) s)"

fun tables_progress ::
  "'k apply_env \<Rightarrow> xlogrecptr \<Rightarrow> (string \<times> string) list \<Rightarrow> ('k, (string \<times> string) list) apply_m" where
  "tables_progress E end_pos [] = sret []"
| "tables_progress E end_pos (rv # rvs) =
     sbind (table_progress E end_pos rv) (\<lambda>status.
     sbind (tables_progress E end_pos rvs) (\<lambda>kept.
     sret (if status = SYNC_STATUS_READY then kept else rv # kept)))"

definition start_sync_worker :: "'k apply_env \<Rightarrow> string \<times> string \<Rightarrow> ('k, unit) apply_m" where
  "start_sync_worker E rv s =
     (let worker = memset_worker\<lparr> worker_type := PGLOGICAL_WORKER_SYNC, dboid := dboid (me E s),
            w_subid := w_subid (me E s), sync_pending := False, replay_stop_lsn := session_origin_lsn s,
            w_nspname := namestrcpy (fst rv), w_relname := namestrcpy (snd rv) \<rparr>
      in case pglogical_worker_register (bgw E) worker (s_ctx (syn s)) of
           None \<Rightarrow> None
         | Some (Inl (e, ctx)) \<Rightarrow> Some (Inl e, set_my_ctx (\<lambda>_. ctx) s)
         | Some (Inr (i, ctx)) \<Rightarrow> Some (Inr (), set_my_ctx (\<lambda>_. ctx) s))"

definition launch_sync :: "'k apply_env \<Rightarrow> ('k, unit) apply_m" where
  "launch_sync E s =
     (if SyncingTables s = [] then Some (Inr (), s)
      else let ctx = s_ctx (syn s);
               found = pglogical_sync_find_all (sy_mydb (senv E)) (w_subid (me E s)) ctx;
               nworkers = length (filter (\<lambda>i. pglogical_worker_running (Some (workers ctx ! i))) found)
           in if nworkers < 1 then start_sync_worker E (hd (SyncingTables s)) s else Some (Inr (), s))"

definition process_syncing_tables :: "'k apply_env \<Rightarrow> xlogrecptr \<Rightarrow> ('k, unit) apply_m" where
  "process_syncing_tables E end_pos =
     sthen (\<lambda>s. if sync_pending (me E s)
                then sthen (lift_sync StartTransactionCommand)
                     (sthen (smodify (set_my_ctx (set_worker (my_slot_no E) (\<lambda>w. w\<lparr> sync_pending := False \<rparr>))))
                     (sthen (\<lambda>s. reread_unsynced_tables (w_subid (me E s)) s)
                       (lift_sync CommitTransactionCommand))) s
                else Some (Inr (), s))
     (sthen (\<lambda>s. sbind (tables_progress E end_pos (SyncingTables s)) (\<lambda>kept.
                smodify (\<lambda>s. s\<lparr> SyncingTables := kept \<rparr>)) s)
       (launch_sync E))"

section \<open>Queued commands\<close>

definition truncate_rows ::
  "(string \<Rightarrow> string \<Rightarrow> oid) \<Rightarrow> (oid \<Rightarrow> unit result) \<Rightarrow> string \<Rightarrow> string \<Rightarrow> (oid \<Rightarrow> heap_row list)
     \<Rightarrow> (oid \<Rightarrow> heap_row list) result" where
  "truncate_rows get_relid execute nspname rname rows =
     (let rid = get_relid nspname rname in
      if rid = InvalidOid then Inr rows
      else rbind (execute rid) (\<lambda>_. Inr (rows(rid := []))))"

definition truncate_table :: "'k apply_env \<Rightarrow> string \<Rightarrow> string \<Rightarrow> ('k, unit) apply_m" where
  "truncate_table E nspname rname =
     part_write tables (\<lambda>t s. s\<lparr> tables := t \<rparr>)
       (truncate_rows (RangeVarGetRelid E) (ExecuteTruncate E) nspname rname)"

definition handle_truncate :: "'k apply_env \<Rightarrow> jsonb QueuedMessage \<Rightarrow> ('k, unit) apply_m" where
  "handle_truncate E queued_message =
     sbind (slift (parse_relation_message (qm_message queued_message))) (\<lambda>(nspname, rname) s.
     if check_syncing_relation nspname rname s then Some (Inr (), s)
     else truncate_table E nspname rname s)"

definition handle_table_sync :: "'k apply_env \<Rightarrow> jsonb QueuedMessage \<Rightarrow> ('k, unit) apply_m" where
  "handle_table_sync E queued_message =
     sbind (slift (parse_relation_message (qm_message queued_message))) (\<lambda>(nspname, rname) s.
     sbind (lift_sync (catalog_read (get_table_sync_status (w_subid (me E s)) nspname rname True))) (\<lambda>oldsync.
     case oldsync of
       Some _ \<Rightarrow> sret ()
     | None \<Rightarrow>
         sthen (lift_sync (catalog_write (create_local_sync_status
           \<lparr> sync_kind = SYNC_KIND_DATA, sync_subid = w_subid (me E s), sync_nspname = Some nspname,
             sync_relname = Some rname, sync_status = SYNC_STATUS_INIT \<rparr>)))
           (smodify (\<lambda>s. s\<lparr> SyncingTables := SyncingTables s @ [(nspname, rname)] \<rparr>))) s)"

definition handle_sequence :: "'k apply_env \<Rightarrow> jsonb QueuedMessage \<Rightarrow> ('k, unit) apply_m" where
  "handle_sequence E queued_message =
     sbind (slift (parse_sequence_message (qm_message queued_message))) (\<lambda>(nspname, rname, last_value_raw).
     sbind (slift (get_namespace_oid E nspname)) (\<lambda>nspoid.
     let rid = get_relname_relid E rname nspoid in
     sbind (slift (read_int8 E last_value_raw)) (\<lambda>last_value.
     sbind (slift (setval_ok E rid last_value)) (\<lambda>_.
     smodify (\<lambda>s. s\<lparr> sequences := (sequences s)(rid \<mapsto> last_value) \<rparr>)))))"

text \<open>Every command of the string runs for the role; only a single command can be at the top level.\<close>

definition run_one :: "'k apply_env \<Rightarrow> string \<Rightarrow> bool \<Rightarrow> string \<Rightarrow> ('k, unit) apply_m" where
  "run_one E role isTopLevel command s =
     (case run_command E command role isTopLevel (tables s) (cur_xid s) of
        Inl e \<Rightarrow> Some (Inl e, s)
      | Inr (tabs, x) \<Rightarrow>
          Some (Inr (), s\<lparr> tables := tabs, cur_xid := x,
            stored := (if x = cur_xid s then stored s else tabs) \<rparr>))"

definition execute_sql_commands ::
  "(string \<Rightarrow> string list result) \<Rightarrow> (bool \<Rightarrow> string \<Rightarrow> ('s, unit) st_m) \<Rightarrow> string \<Rightarrow> bool \<Rightarrow> ('s, unit) st_m" where
  "execute_sql_commands parse run cmdstr isTopLevel =
     sbind (slift (parse cmdstr)) (\<lambda>commands.
     let isTopLevel = (isTopLevel \<and> length commands = 1) in
     sforeach (run isTopLevel) commands)"

definition pglogical_execute_sql_command ::
  "'k apply_env \<Rightarrow> string \<Rightarrow> string \<Rightarrow> bool \<Rightarrow> ('k, unit) apply_m" where
  "pglogical_execute_sql_command E cmdstr role isTopLevel =
     execute_sql_commands (pg_parse_query E) (run_one E role) cmdstr isTopLevel"

definition handle_sql :: "'k apply_env \<Rightarrow> jsonb QueuedMessage \<Rightarrow> bool \<Rightarrow> ('k, unit) apply_m" where
  "handle_sql E queued_message tx_just_started =
     sbind (slift (parse_sql_message (qm_message queued_message))) (\<lambda>sql.
     pglogical_execute_sql_command E sql (qm_role queued_message) tx_just_started)"

definition handle_queued_message :: "'k apply_env \<Rightarrow> heap_tuple \<Rightarrow> bool \<Rightarrow> ('k, unit) apply_m" where
  "handle_queued_message E msgtup tx_just_started =
     sbind (slift (queued_message_from_tuple (qenv E) (queue_columns E msgtup))) (\<lambda>queued_message.
     if qm_message_type queued_message = QUEUE_COMMAND_TYPE_SQL then handle_sql E queued_message tx_just_started
     else if qm_message_type queued_message = QUEUE_COMMAND_TYPE_TRUNCATE then handle_truncate E queued_message
     else if qm_message_type queued_message = QUEUE_COMMAND_TYPE_TABLESYNC then handle_table_sync E queued_message
     else if qm_message_type queued_message = QUEUE_COMMAND_TYPE_SEQUENCE then handle_sequence E queued_message
     else selog ''unknown message type %c'')"

section \<open>The messages of the stream\<close>

definition begin_sleep :: "int \<Rightarrow> timestamptz \<Rightarrow> timestamptz \<Rightarrow> int option" where
  "begin_sleep delay current origin_ts =
     (if delay > 0 \<and> sint current > sint origin_ts
      then Some (max 0 (sint origin_ts - (sint current - delay * 1000))) else None)"

definition handle_begin :: "'k apply_env \<Rightarrow> string \<Rightarrow> ('k, unit) apply_m" where
  "handle_begin E inp =
     sbind (slift (pglogical_read_begin (wire E) inp)) (\<lambda>((commit_lsn, committime, remote_xid), inp).
     smodify (\<lambda>s. s\<lparr> session_origin_timestamp := committime, session_origin_lsn := commit_lsn,
       remote_origin_id := InvalidRepOriginId,
       slept := slept s @ (case begin_sleep (apply_delay E) (clock E (ticks s)) committime of
                             None \<Rightarrow> [] | Some usec \<Rightarrow> [usec]),
       ticks := ticks s + 1, in_remote_transaction := True \<rparr>))"

text \<open>\<open>replorigin_advance\<close> without going backwards; it fails when the origin is in use by another session.\<close>

definition advance_forwarded :: "'k apply_env \<Rightarrow> ('k, unit) apply_m" where
  "advance_forwarded E s =
     (if remote_origin_id s \<noteq> InvalidRepOriginId \<and> remote_origin_id s \<noteq> own_origin E
      then if \<not> origin_free E (remote_origin_id s)
           then Some (elog ''replication origin with OID %d is already active for PID %d'', s)
           else let name = origin_name E (remote_origin_id s);
                    pos = (case origins (syn s) name of None \<Rightarrow> 0 | Some p \<Rightarrow> p)
                in Some (Inr (), s\<lparr> syn := (syn s)\<lparr> origins := (origins (syn s))
                     (name \<mapsto> max pos (remote_origin_lsn s)) \<rparr> \<rparr>)
      else Some (Inr (), s))"

definition handle_commit :: "'k apply_env \<Rightarrow> string \<Rightarrow> ('k, unit) apply_m" where
  "handle_commit E inp =
     sbind (slift (pglogical_read_commit (wire E) inp)) (\<lambda>((commit_lsn, end_pos, committime), inp).
     sthen (\<lambda>s. if IsTransactionState s
                then sthen (commit_transaction E)
                       (smodify (\<lambda>s. s\<lparr> fbk := track_commit (XactLastCommitEnd s) end_pos (fbk s) \<rparr>)) s
                else Some (Inr (), s))
     (sthen (advance_forwarded E)
     (sthen (smodify (\<lambda>s. s\<lparr> in_remote_transaction := False \<rparr>))
       (\<lambda>s. if replay_stop_lsn (me E s) \<noteq> 0 \<and> replay_stop_lsn (me E s) \<le> end_pos
            then sthen (\<lambda>s. if worker_type (me E s) = PGLOGICAL_WORKER_SYNC
                            then lift_sync (pglogical_sync_worker_finish (senv E) (me E s) (my_sub E)) s
                            else Some (Inr (), s)) (sfail (ProcExit 0)) s
            else process_syncing_tables E end_pos s))))"

definition handle_origin :: "'k apply_env \<Rightarrow> string \<Rightarrow> ('k, unit) apply_m" where
  "handle_origin E inp s =
     (if \<not> in_remote_transaction s \<or> IsTransactionState s
      then Some (elog ''ORIGIN message sent out of order'', s)
      else sbind (ensure_transaction E) (\<lambda>_.
           sbind (slift (pglogical_read_origin (wire E) inp)) (\<lambda>((origin, lsn), inp).
           smodify (\<lambda>s. s\<lparr> remote_origin_lsn := lsn, remote_origin_id := origin_named E origin \<rparr>))) s)"

definition handle_relation :: "'k apply_env \<Rightarrow> string \<Rightarrow> ('k, unit) apply_m" where
  "handle_relation E inp s =
     (case pglogical_read_rel (wire E) (sy_keyof (senv E)) (a_cache s) inp of
        Inl e \<Rightarrow> Some (Inl e, s)
      | Inr (rid, c, inp) \<Rightarrow> Some (Inr (), set_cache c s))"

text \<open>Reading a change opens the table in the cache; \<open>close_relation\<close> gives it back.\<close>

definition close_relation :: "'k apply_env \<Rightarrow> PGLogicalRelation \<Rightarrow> ('k, unit) apply_m" where
  "close_relation E rel =
     smodify (\<lambda>s. set_cache (pglogical_relation_close (sy_keyof (senv E)) (a_cache s) (remoteid rel)) s)"

definition session_settings :: "'k apply_env \<Rightarrow> 'k apply_state \<Rightarrow> conflict_env" where
  "session_settings E s = (settings E)\<lparr> replorigin_session_origin := own_origin E,
     replorigin_session_origin_timestamp := session_origin_timestamp s \<rparr>"

text \<open>A change of rows in the worker's transaction; the result is the tuple in the slot.\<close>

definition change_rows ::
  "PGLogicalRelation \<Rightarrow> ('k apply_state \<Rightarrow> nat \<Rightarrow> heap_row list \<Rightarrow> (row_change \<times> nat) result option)
     \<Rightarrow> ('k, heap_tuple option) apply_m" where
  "change_rows rel f s =
     (let rid = rd_id (the (ent_rel rel)) in
      case f s (ticks s) (tables s rid) of
        None \<Rightarrow> None
      | Some (Inl e) \<Rightarrow> Some (Inl e, s)
      | Some (Inr (change, now)) \<Rightarrow>
          Some (Inr (rc_slot change), s\<lparr> tables := (tables s)(rid := rc_rows change),
            server_log := server_log s @ rc_log change, ticks := now \<rparr>))"

definition handle_insert :: "'k apply_env \<Rightarrow> string \<Rightarrow> ('k, unit) apply_m" where
  "handle_insert E inp =
     sbind (ensure_transaction E) (\<lambda>started_tx s.
     case pglogical_read_insert (wire E) (io E) (sy_keyof (senv E)) (sy_db (senv E)) (a_cache s) (stack_tuple E) inp of
       Inl e \<Rightarrow> Some (Inl e, s)
     | Inr (rel, newtup, c, inp) \<Rightarrow>
         (let s = set_cache c s in
          if check_syncing_relation (ent_nspname rel) (ent_relname rel) s then close_relation E rel s
          else sbind (change_rows rel (\<lambda>s. insert_row (exec E) (session_settings E s) rel (cur_xid s) newtup))
            (\<lambda>slot_tuple. case slot_tuple of
               None \<Rightarrow> close_relation E rel
             | Some ht \<Rightarrow>
                 if rd_id (the (ent_rel rel)) = QueueRelid E
                 then sbind (sget cur_xid) (\<lambda>oldxid.
                      sthen (close_relation E rel)
                      (sthen (handle_queued_message E ht started_tx)
                        (\<lambda>s. if oldxid \<noteq> cur_xid s then commit_transaction E s else Some (Inr (), s))))
                 else close_relation E rel) s))"

definition handle_update :: "'k apply_env \<Rightarrow> string \<Rightarrow> ('k, unit) apply_m" where
  "handle_update E inp =
     sbind (ensure_transaction E) (\<lambda>_ s.
     case pglogical_read_update (wire E) (io E) (sy_keyof (senv E)) (sy_db (senv E)) (a_cache s)
            (stack_tuple E) (stack_tuple E) inp of
       Inl e \<Rightarrow> Some (Inl e, s)
     | Inr (rel, hasoldtup, oldtup, newtup, c, inp) \<Rightarrow>
         (let s = set_cache c s in
          if check_syncing_relation (ent_nspname rel) (ent_relname rel) s then close_relation E rel s
          else sbind (change_rows rel (\<lambda>s. update_row (exec E) (session_settings E s) rel (cur_xid s)
                        (if hasoldtup then Some oldtup else None) newtup)) (\<lambda>_.
               close_relation E rel) s))"

definition handle_delete :: "'k apply_env \<Rightarrow> string \<Rightarrow> ('k, unit) apply_m" where
  "handle_delete E inp =
     sbind (ensure_transaction E) (\<lambda>_ s.
     case pglogical_read_delete (wire E) (io E) (sy_keyof (senv E)) (sy_db (senv E)) (a_cache s) (stack_tuple E) inp of
       Inl e \<Rightarrow> Some (Inl e, s)
     | Inr (rel, oldtup, c, inp) \<Rightarrow>
         (let s = set_cache c s in
          if check_syncing_relation (ent_nspname rel) (ent_relname rel) s then close_relation E rel s
          else sbind (change_rows rel (\<lambda>s. delete_row (exec E) rel oldtup)) (\<lambda>_. close_relation E rel) s))"

definition replication_handler :: "'k apply_env \<Rightarrow> string \<Rightarrow> ('k, unit) apply_m" where
  "replication_handler E inp =
     sbind (slift (pq_getmsgbyte (wire E) inp)) (\<lambda>(action, inp).
     if action = CHR ''B'' then handle_begin E inp
     else if action = CHR ''C'' then handle_commit E inp
     else if action = CHR ''O'' then handle_origin E inp
     else if action = CHR ''R'' then handle_relation E inp
     else if action = CHR ''I'' then handle_insert E inp
     else if action = CHR ''U'' then handle_update E inp
     else if action = CHR ''D'' then handle_delete E inp
     else if action = CHR ''S''
     then (\<lambda>s. map_option (\<lambda>r. (r, s)) (handle_startup (wire E) (server E) inp))
     else selog ''unknown action of type %c'')"

section \<open>The loop\<close>

definition feedback_turn :: "'k apply_env \<Rightarrow> xlogrecptr \<Rightarrow> bool \<Rightarrow> ('k, unit) apply_m" where
  "feedback_turn E recvpos force s =
     (case send_feedback (wire E) (put_flush E) (GetFlushRecPtr E (ticks s)) recvpos (clock E (ticks s)) force (fbk s) of
        (Inl e, fb') \<Rightarrow> Some (Inl e, s\<lparr> fbk := fb', ticks := ticks s + 1 \<rparr>)
      | (Inr reply, fb') \<Rightarrow>
          Some (Inr (), s\<lparr> fbk := fb', ticks := ticks s + 1,
            sent := sent s @ (case reply of None \<Rightarrow> [] | Some m \<Rightarrow> [m]) \<rparr>))"

text \<open>\<open>PQgetCopyData\<close>: a message, nothing yet, the end of the stream, or a failure.\<close>

datatype copy_data = CopyMessage string | CopyNothing | CopyStreamEnd | CopyFailure | CopyStatus int

definition handle_copy_message :: "'k apply_env \<Rightarrow> string \<Rightarrow> ('k, unit) apply_m" where
  "handle_copy_message E buf =
     sbind (slift (pq_getmsgbyte (wire E) buf)) (\<lambda>(c, buf).
     if c = CHR ''w''
     then sbind (slift (pq_getmsgint64 (wire E) buf)) (\<lambda>(start_lsn, buf).
          sbind (slift (pq_getmsgint64 (wire E) buf)) (\<lambda>(end_pos, buf).
          sbind (slift (pq_getmsgint64 (wire E) buf)) (\<lambda>(send_time, buf).
          sbind (smodify (\<lambda>s. s\<lparr> last_received := max (max (last_received s) start_lsn) end_pos \<rparr>)) (\<lambda>_.
          replication_handler E buf))))
     else if c = CHR ''k''
     then sbind (slift (pq_getmsgint64 (wire E) buf)) (\<lambda>(endpos, buf).
          sbind (slift (pq_getmsgint64 (wire E) buf)) (\<lambda>(timestamp, buf).
          sbind (slift (pq_getmsgbyte (wire E) buf)) (\<lambda>(reply_requested, buf).
          feedback_turn E endpos (byte_val reply_requested \<noteq> 0))))
     else sret ())"

fun read_stream :: "'k apply_env \<Rightarrow> copy_data list \<Rightarrow> ('k, unit) apply_m" where
  "read_stream E [] = sret ()"
| "read_stream E (d # ds) =
     (case d of
        CopyStreamEnd \<Rightarrow> selog ''data stream ended''
      | CopyFailure \<Rightarrow> selog ''could not read COPY data: %s''
      | CopyStatus r \<Rightarrow> selog ''invalid COPY status %d''
      | CopyNothing \<Rightarrow> sret ()
      | CopyMessage buf \<Rightarrow> sthen (handle_copy_message E buf) (read_stream E ds))"

text \<open>
  One turn of the loop: what the wait reported and what the connection delivers until there is nothing more or a
  request to stop (the end of the list).  The loop ends with the list of turns when the request comes.
\<close>

record turn =
  postmaster_death :: bool
  connection_bad :: bool
  delivered :: "copy_data list"

definition apply_turn :: "'k apply_env \<Rightarrow> turn \<Rightarrow> ('k, unit) apply_m" where
  "apply_turn E t =
     (if postmaster_death t then sfail (ProcExit 1)
      else if connection_bad t then selog ''connection to other side has died''
      else sthen (read_stream E (delivered t))
           (sthen (\<lambda>s. feedback_turn E (last_received s) False s)
             (\<lambda>s. if \<not> in_remote_transaction s then process_syncing_tables E (last_received s) s
                  else Some (Inr (), s))))"

definition apply_work :: "'k apply_env \<Rightarrow> turn list \<Rightarrow> ('k, unit) apply_m" where
  "apply_work E turns = sthen (smodify (\<lambda>s. s\<lparr> last_received := 0 \<rparr>)) (sforeach (apply_turn E) turns)"



section \<open>The worker\<close>

text \<open>Microseconds, with months of 30 days; the division of C drops the remainder.\<close>

definition interval_to_timeoffset :: "interval \<Rightarrow> int" where
  "interval_to_timeoffset i = itime i + imonth i * 30 * 86400000000 + iday i * 24 * 3600000000"

definition delay_of :: "PGLogicalSubscription \<Rightarrow> int" where
  "delay_of subscr = (case sub_apply_delay subscr of
      None \<Rightarrow> 0
    | Some i \<Rightarrow> sgn (interval_to_timeoffset i) * (\<bar>interval_to_timeoffset i\<bar> div 1000))"

text \<open>
  The life of an apply worker after it attached to its slot: \<open>cat\<close> are the catalogs, \<open>queue_oid\<close> the look-up of the queue
  table.  The worker never returns; it ends with an exit code or an error.
\<close>

definition pglogical_apply_main ::
  "'k apply_env \<Rightarrow> node_catalog \<Rightarrow> oid result \<Rightarrow> (string \<Rightarrow> string) \<Rightarrow> turn list \<Rightarrow> ('k, unit) apply_m" where
  "pglogical_apply_main E cat queue_oid quote_identifier turns =
     sbind (lift_sync StartTransactionCommand) (\<lambda>_.
     sbind (\<lambda>s. slift (get_subscription (w_subid (me E s)) cat) s) (\<lambda>subscr.
     sbind (lift_sync CommitTransactionCommand) (\<lambda>_.
     sbind (lift_sync (pglogical_sync_subscription (senv E) subscr)) (\<lambda>_.
     sbind (lift_sync StartTransactionCommand) (\<lambda>_.
     sbind (slift queue_oid) (\<lambda>q.
     sbind (lift_sync (setup_session_origin (sub_slot_name subscr))) (\<lambda>origin_startpos.
     let dsn = if_dsn (sub_origin_if subscr) in
     sbind (lift_sync (connect (senv E) dsn [] True)) (\<lambda>_.
     sbind (lift_sync (act (senv E) (Exec dsn ''IDENTIFY_SYSTEM'') ''could not send replication command %s: %s'')) (\<lambda>_.
     sbind (lift_sync (act (senv E) (Exec dsn
              (start_replication_command (sy_server (senv E)) (sy_quote_literal_cstr (senv E)) (sub_slot_name subscr)
                 origin_startpos (Some (stringlist_to_identifierstr quote_identifier (sub_forward_origins subscr)))
                 (Some (stringlist_to_identifierstr quote_identifier (sub_replication_sets subscr))) None))
              ''could not send replication command %s: %s, sqlstate: %s'')) (\<lambda>_.
     sbind (lift_sync CommitTransactionCommand) (\<lambda>_.
     sbind (apply_work (E\<lparr> my_sub := subscr, apply_delay := delay_of subscr, QueueRelid := q \<rparr>) turns) (\<lambda>_.
     sfail (ProcExit 0)))))))))))))"

section \<open>What a step keeps\<close>

text \<open>The outcome of a computation from \<open>s\<close> has the same committed rows and the same unreported commits.\<close>

definition kept :: "'k apply_state \<Rightarrow> ('a result \<times> 'k apply_state) option \<Rightarrow> bool" where
  "kept s out \<longleftrightarrow> (case out of None \<Rightarrow> True | Some (r, s') \<Rightarrow> stored s' = stored s \<and> fbk s' = fbk s)"

text \<open>No command that arrives through the queue manages its own transactions.\<close>

definition ordinary_commands :: "'k apply_env \<Rightarrow> bool" where
  "ordinary_commands E \<longleftrightarrow>
     (\<forall>c role top tabs x tabs' x'. run_command E c role top tabs x = Inr (tabs', x') \<longrightarrow> x' = x)"

text \<open>Without such commands a queued message leaves the transaction number alone.\<close>

definition same_xid :: "'k apply_state \<Rightarrow> ('a result \<times> 'k apply_state) option \<Rightarrow> bool" where
  "same_xid s out \<longleftrightarrow> (case out of None \<Rightarrow> True | Some (r, s') \<Rightarrow> cur_xid s' = cur_xid s)"

text \<open>COMMIT: the worker's transaction becomes durable and is remembered, and then nothing changes any more.\<close>

definition committed_by :: "'k apply_env \<Rightarrow> char \<Rightarrow> string \<Rightarrow> 'k apply_state \<Rightarrow> xlogrecptr option" where
  "committed_by E act_char inp s =
     (if act_char = CHR ''C'' \<and> IsTransactionState s
      then case pglogical_read_commit (wire E) inp of Inl _ \<Rightarrow> None | Inr ((_, end_pos, _), _) \<Rightarrow> Some end_pos
      else None)"

text \<open>An example: a worker with one changed row, and nothing else to do.\<close>

definition ex_apply_env :: "oid apply_env" where
  "ex_apply_env = \<lparr> wire = net_pqformat, io = ex_typeio, senv = ex_sync_env True, server = ex_server, exec = ex_exec,
     settings = ex_cenv PGLOGICAL_RESOLVE_APPLY_REMOTE 0 0,
     bgw = \<lparr> RegisterDynamicBackgroundWorker = (\<lambda>_ _. False), register_now = 0, launched = id,
             look = (\<lambda>_ ctx. \<lparr> lk_sigterm = True, lk_status = BGWH_STOPPED, lk_ctx = ctx, lk_now = 0,
                                lk_postmaster_death = False \<rparr>) \<rparr>,
     my_slot_no = 0, my_sub = ex_sub, apply_delay = 0, QueueRelid = 16500, own_origin = 1,
     origin_named = (\<lambda>_. 0), origin_name = (\<lambda>_. ''pgl''), origin_free = (\<lambda>_. True), clock = (\<lambda>_. 0),
     new_xid = (\<lambda>n. of_nat (n + 700)), commit_end = (\<lambda>n. of_nat (n + 100)), GetFlushRecPtr = (\<lambda>_. 0),
     put_flush = (\<lambda>_. True), stack_tuple = ex_tup0,
     qenv = \<lparr> GetCurrentTimestamp = 0, GetUserNameFromId = (\<lambda>_. None), json_in = Inr,
              jsonb_in = (\<lambda>x. Inr (sql_message x)) \<rparr>,
     queue_columns = (\<lambda>_. \<lparr> qt_queued_at = 0, qt_role = ''me'', qt_replication_sets = None,
                              qt_message_type = CHR ''Q'', qt_message = [] \<rparr>),
     RangeVarGetRelid = (\<lambda>_ _. 0), ExecuteTruncate = (\<lambda>_. Inr ()), get_namespace_oid = (\<lambda>_. Inr 2200),
     get_relname_relid = (\<lambda>_ _. 0), read_int8 = (\<lambda>_. Inr 0), setval_ok = (\<lambda>_ _. Inr ()),
     pg_parse_query = (\<lambda>c. Inr [c]), run_command = (\<lambda>_ _ _ tabs x. Inr (tabs, x)) \<rparr>"

definition ex_apply_state :: "oid apply_state" where
  "ex_apply_state = \<lparr> syn = (ex_sync_state [])\<lparr> tx := Some [] \<rparr>, in_remote_transaction = True,
     remote_origin_lsn = 0, remote_origin_id = 0, session_origin_lsn = 9, session_origin_timestamp = 5,
     SyncingTables = [], fbk = ex_fb [] 0 0 0, tables = (\<lambda>_. [ex_hrow]), stored = (\<lambda>_. []),
     sequences = Map.empty, cur_xid = 700, XactLastCommitEnd = 0, last_received = 9, ticks = 3,
     server_log = [], slept = [], sent = [] \<rparr>"

section \<open>Lemmas\<close>

lemma kept_simps [simp]:
  "kept s None" "kept s (Some (r, s')) \<longleftrightarrow> stored s' = stored s \<and> fbk s' = fbk s"
  "kept s (sret x s)" "kept s (sfail e s)" "kept s (slift q s)" "kept s (sget g s)"
  "kept s (lift_sync m s)" "kept s (map_option (\<lambda>r. (r, s)) z)"
  "kept s (smodify f s) \<longleftrightarrow> stored (f s) = stored s \<and> fbk (f s) = fbk s"
  by (auto simp: kept_def sret_def sfail_def slift_def sget_def lift_sync_def on_part_def smodify_def
      split: option.splits prod.splits)

lemma kept_trans: "kept s (Some (r, t)) \<Longrightarrow> kept t out \<Longrightarrow> kept s out"
  by (auto simp: kept_def split: option.splits)

lemma kept_bind: "kept s (m s) \<Longrightarrow> (\<And>x t. kept t (f x t)) \<Longrightarrow> kept s (sbind m f s)"
  by (fastforce simp: sbind_def kept_def split: option.splits sum.splits)

lemma kept_foreach: "(\<And>x s. kept s (f x s)) \<Longrightarrow> kept s (sforeach f xs s)"
  by (induction xs arbitrary: s) (auto intro: kept_bind)

lemma set_parts_stored [simp]:
  "stored (set_my_ctx f s) = stored s" "fbk (set_my_ctx f s) = fbk s"
  "stored (set_cache c s) = stored s" "fbk (set_cache c s) = fbk s"
  by (simp_all add: set_my_ctx_def set_cache_def)

lemma kept_syncing:
  "kept s (reread_unsynced_tables i s)" "kept s (hand_over E p n t k s)" "kept s (table_progress E p rv s)"
  "kept s (start_sync_worker E rv s)" "kept s (launch_sync E s)"
proof -
  show "kept s (reread_unsynced_tables i s)" for s :: "'a apply_state"
    unfolding reread_unsynced_tables_def by (rule kept_bind) simp_all
  show hand: "kept s (hand_over E p n t k s)" for p n t k and s :: "'a apply_state"
    unfolding hand_over_def
    by (intro kept_bind) (auto split: option.splits sum.splits)
  show "kept s (table_progress E p rv s)" for s :: "'a apply_state"
    unfolding table_progress_def Let_def case_prod_beta
    by (intro kept_bind) (auto split: option.splits intro: hand)
  show start: "kept s (start_sync_worker E rv s)" for rv and s :: "'a apply_state"
    by (auto simp: start_sync_worker_def Let_def split: option.splits sum.splits)
  show "kept s (launch_sync E s)" for s :: "'a apply_state"
    by (auto simp: launch_sync_def Let_def intro: start)
qed

lemma kept_tables_progress: "kept s (tables_progress E p rvs s)"
  by (induction rvs arbitrary: s) (auto intro!: kept_bind kept_syncing)

lemma kept_process: "kept s (process_syncing_tables E p s)"
  unfolding process_syncing_tables_def
  by (intro kept_bind) (auto intro!: kept_bind kept_syncing kept_tables_progress)


lemma kept_transaction: "kept s (ensure_transaction E s)"
  by (auto simp: ensure_transaction_def intro!: kept_bind)

lemma kept_queue_commands:
  "kept s (handle_truncate E q s)" "kept s (handle_table_sync E q s)" "kept s (handle_sequence E q s)"
  unfolding handle_truncate_def handle_table_sync_def handle_sequence_def truncate_table_def part_write_def Let_def
  by (auto intro!: kept_bind split: option.splits sum.splits)

lemma kept_sql:
  assumes "ordinary_commands E"
  shows "kept s (handle_sql E q istop s)"
proof -
  have "kept s (run_one E role t c s)" for role t c and s :: "'a apply_state"
    using assms by (auto simp: run_one_def ordinary_commands_def split: sum.splits)
  then show ?thesis
    unfolding handle_sql_def pglogical_execute_sql_command_def execute_sql_commands_def Let_def
    by (intro kept_bind kept_foreach) simp_all
qed

lemma kept_queued:
  assumes "ordinary_commands E"
  shows "kept s (handle_queued_message E ht istop s)"
  unfolding handle_queued_message_def
  by (auto intro!: kept_bind kept_sql [OF assms] kept_queue_commands)

lemma same_xid_simps [simp]:
  "same_xid s None" "same_xid s (Some (r, s')) \<longleftrightarrow> cur_xid s' = cur_xid s"
  "same_xid s (sret x s)" "same_xid s (sfail e s)" "same_xid s (slift q s)"
  "same_xid s (lift_sync m s)" "same_xid s (smodify f s) \<longleftrightarrow> cur_xid (f s) = cur_xid s"
  by (auto simp: same_xid_def sret_def sfail_def slift_def lift_sync_def on_part_def smodify_def
      split: option.splits prod.splits)

lemma same_xid_bind: "same_xid s (m s) \<Longrightarrow> (\<And>x t. same_xid t (f x t)) \<Longrightarrow> same_xid s (sbind m f s)"
  by (fastforce simp: sbind_def same_xid_def split: option.splits sum.splits)

lemma same_xid_foreach: "(\<And>x s. same_xid s (f x s)) \<Longrightarrow> same_xid s (sforeach f xs s)"
  by (induction xs arbitrary: s) (auto intro: same_xid_bind)

lemma same_xid_queued:
  assumes "ordinary_commands E"
  shows "same_xid s (handle_queued_message E ht istop s)"
proof -
  have "same_xid s (run_one E role t c s)" for role t c and s :: "'a apply_state"
    using assms by (auto simp: run_one_def ordinary_commands_def split: sum.splits)
  then have "same_xid s (handle_sql E q istop s)" for q and s :: "'a apply_state"
    unfolding handle_sql_def pglogical_execute_sql_command_def execute_sql_commands_def Let_def
    by (intro same_xid_bind same_xid_foreach) simp_all
  moreover have "same_xid s (handle_truncate E q s)" "same_xid s (handle_table_sync E q s)"
    "same_xid s (handle_sequence E q s)" for q and s :: "'a apply_state"
    unfolding handle_truncate_def handle_table_sync_def handle_sequence_def truncate_table_def part_write_def Let_def
    by (auto intro!: same_xid_bind split: option.splits sum.splits)
  ultimately show ?thesis
    unfolding handle_queued_message_def by (auto intro!: same_xid_bind)
qed

lemma kept_change_rows: "kept s (change_rows rel f s)"
  by (auto simp: change_rows_def Let_def split: option.splits sum.splits)

lemma kept_close: "kept s (close_relation E rel s)"
  by (simp add: close_relation_def)

lemma kept_cache: "kept (set_cache c s) out \<Longrightarrow> kept s out"
  by (auto simp: kept_def split: option.splits)

text \<open>The message of a row in the queue, up to the check for a new transaction.\<close>

lemma kept_checked:
  assumes "kept u (m u)" "same_xid u (m u)" "cur_xid u = x"
  shows "kept u (sthen m (\<lambda>t. if x \<noteq> cur_xid t then c t else Some (Inr (), t)) u)"
proof (cases "m u")
  case (Some p)
  obtain r t where p: "p = (r, t)" by (cases p)
  show ?thesis
    using assms by (cases r) (simp_all add: Some p sbind_def)
qed (simp add: sbind_def)

lemma kept_queue_insert:
  assumes "ordinary_commands E"
  shows "kept s (sbind (sget cur_xid) (\<lambda>oldxid.
      sthen (close_relation E rel)
      (sthen (handle_queued_message E ht istop)
        (\<lambda>s. if oldxid \<noteq> cur_xid s then commit_transaction E s else Some (Inr (), s)))) s)"
proof -
  let ?s = "set_cache (pglogical_relation_close (sy_keyof (senv E)) (a_cache s) (remoteid rel)) s"
  have x: "cur_xid ?s = cur_xid s" by (simp add: set_cache_def)
  have "kept ?s (sthen (handle_queued_message E ht istop)
      (\<lambda>t. if cur_xid s \<noteq> cur_xid t then commit_transaction E t else Some (Inr (), t)) ?s)"
    by (rule kept_checked, rule kept_queued [OF assms], rule same_xid_queued [OF assms], rule x)
  from kept_cache [OF this] show ?thesis
    by (simp add: sbind_simps close_relation_def)
qed

lemma kept_opened:
  "(\<And>x u. kept u (g x u)) \<Longrightarrow> kept s (sbind (change_rows rel f) g (set_cache c s))"
  "kept s (close_relation E rel (set_cache c s))"
  by (rule kept_cache, rule kept_bind, rule kept_change_rows, assumption) (rule kept_cache, rule kept_close)

lemma kept_rows:
  assumes "ordinary_commands E"
  shows "kept s (handle_insert E inp s)" "kept s (handle_update E inp s)" "kept s (handle_delete E inp s)"
proof -
  show "kept s (handle_insert E inp s)"
    unfolding handle_insert_def Let_def
    by (rule kept_bind, rule kept_transaction)
      (auto intro!: kept_opened kept_close kept_queue_insert [OF assms] split: sum.splits option.splits)
  show "kept s (handle_update E inp s)"
    unfolding handle_update_def Let_def
    by (rule kept_bind, rule kept_transaction) (auto intro!: kept_opened kept_close split: sum.splits)
  show "kept s (handle_delete E inp s)"
    unfolding handle_delete_def Let_def
    by (rule kept_bind, rule kept_transaction) (auto intro!: kept_opened kept_close split: sum.splits)
qed

lemma kept_after_commit:
  "kept s (sthen (advance_forwarded E)
     (sthen (smodify (\<lambda>s. s\<lparr> in_remote_transaction := False \<rparr>))
       (\<lambda>s. if replay_stop_lsn (me E s) \<noteq> 0 \<and> replay_stop_lsn (me E s) \<le> end_pos
            then sthen (\<lambda>s. if worker_type (me E s) = PGLOGICAL_WORKER_SYNC
                            then lift_sync (pglogical_sync_worker_finish (senv E) (me E s) (my_sub E)) s
                            else Some (Inr (), s)) (sfail (ProcExit 0)) s
            else process_syncing_tables E end_pos s)) s)"
  by (auto simp: advance_forwarded_def Let_def intro!: kept_bind kept_process)

lemma commit_effect:
  assumes "tx (syn s) \<noteq> None"
  shows "\<exists>t. sthen (commit_transaction E)
      (smodify (\<lambda>s. s\<lparr> fbk := track_commit (XactLastCommitEnd s) end_pos (fbk s) \<rparr>)) s = Some (Inr (), t) \<and>
    stored t = tables s \<and> fbk t = track_commit (commit_end E (ticks s)) end_pos (fbk s)"
  using assms
  by (auto simp: commit_transaction_def sbind_def lift_sync_def on_part_def CommitTransactionCommand_def smodify_def)

lemma handle_commit_effect:
  assumes run: "handle_commit E inp s = Some (r, s')"
  shows "case committed_by E CHR ''C'' inp s of
      None \<Rightarrow> stored s' = stored s \<and> fbk s' = fbk s
    | Some end_pos \<Rightarrow> stored s' = tables s \<and> fbk s' = track_commit (commit_end E (ticks s)) end_pos (fbk s)"
proof (cases "pglogical_read_commit (wire E) inp")
  case (Inl e)
  then show ?thesis
    using run by (auto simp: handle_commit_def committed_by_def sbind_def slift_def)
next
  case (Inr x)
  obtain a end_pos b i where x: "x = ((a, end_pos, b), i)" by (metis prod_cases3 surj_pair)
  let ?first = "\<lambda>s. if IsTransactionState s
     then sthen (commit_transaction E)
            (smodify (\<lambda>s. s\<lparr> fbk := track_commit (XactLastCommitEnd s) end_pos (fbk s) \<rparr>)) s
     else Some (Inr (), s)"
  obtain t where t: "?first s = Some (Inr (), t)"
    and eff: "if IsTransactionState s
      then stored t = tables s \<and> fbk t = track_commit (commit_end E (ticks s)) end_pos (fbk s)
      else t = s"
    using commit_effect [of s E end_pos] by (cases "IsTransactionState s") (auto simp: IsTransactionState_def)
  have "kept t (Some (r, s'))"
    using run kept_after_commit [of t E end_pos] t
    by (simp add: handle_commit_def Inr x sbind_simps sbind_def [of ?first])
  then show ?thesis
    using eff by (auto simp: committed_by_def Inr x split: if_splits)
qed


section \<open>Properties\<close>

text \<open>C40. Remote transactions are applied whole or not at all.  Unless a queued command manages its own transactions, a message
  of the stream, whether it is handled, raises an error or ends the worker, changes the committed rows only when it is a
  readable COMMIT that finds a transaction open; then the rows become exactly what the transaction made of
  them, and the transaction, with the end of its local commit record and its own end, is what the
  feedback has to wait for.\<close>

theorem transactions_atomic:
  assumes "ordinary_commands E" "pq_getmsgbyte (wire E) m = Inr (act_char, inp)"
    and "replication_handler E m s = Some (r, s')"
  shows "case committed_by E act_char inp s of
      None \<Rightarrow> stored s' = stored s \<and> fbk s' = fbk s
    | Some end_pos \<Rightarrow> stored s' = tables s \<and> fbk s' = track_commit (commit_end E (ticks s)) end_pos (fbk s)"
proof (cases "act_char = CHR ''C''")
  case True
  then have "handle_commit E inp s = Some (r, s')"
    using assms(2,3) by (simp add: replication_handler_def sbind_simps)
  from handle_commit_effect [OF this] show ?thesis by (simp add: True)
next
  case False
  have "kept s (handle_begin E inp s)" "kept s (handle_origin E inp s)" "kept s (handle_relation E inp s)"
    by (auto simp: handle_begin_def handle_origin_def handle_relation_def intro!: kept_bind kept_transaction
        split: sum.splits)
  then have "kept s (replication_handler E m s)"
    using False kept_rows [OF assms(1)] by (simp add: replication_handler_def assms(2) sbind_simps)
  then show ?thesis using False assms(3) by (simp add: committed_by_def)
qed

theorem transactions_atomic_witness:
  "\<exists>s'. replication_handler ex_apply_env (pglogical_write_commit net_pqformat ex_txn 9) ex_apply_state =
      Some (Inr (), s') \<and>
    stored s' = tables ex_apply_state \<and>
    lsn_mapping (fbk s') = [\<lparr> local_end = 103, remote_end = end_lsn ex_txn \<rparr>]"
proof -
  let ?m = "pglogical_write_commit net_pqformat ex_txn 9"
  obtain inp where inp: "pq_getmsgbyte net_pqformat ?m = Inr (CHR ''C'', inp)"
    using pq_codec.getmsgbyte_send [OF net_codec]
    by (auto simp: pglogical_write_commit_def Let_def)
  then have read: "pglogical_read_commit net_pqformat inp = Inr ((9, end_lsn ex_txn, commit_time ex_txn), [])"
    using pq_codec.read_write_commit [OF net_codec, of ex_txn 9 "[]"] by simp
  have "ordinary_commands ex_apply_env"
    by (simp add: ordinary_commands_def ex_apply_env_def)
  moreover have "pq_getmsgbyte (wire ex_apply_env) ?m = Inr (CHR ''C'', inp)"
    using inp by (simp add: ex_apply_env_def)
  moreover obtain s' where "replication_handler ex_apply_env ?m ex_apply_state = Some (Inr (), s')"
    using inp read
    by (simp add: replication_handler_def handle_commit_def sbind_def slift_def smodify_def commit_transaction_def
        lift_sync_def on_part_def CommitTransactionCommand_def advance_forwarded_def process_syncing_tables_def
        launch_sync_def me_def IsTransactionState_def sret_def ex_apply_env_def ex_apply_state_def
        ex_sync_state_def memset_worker_def)
  moreover have "committed_by ex_apply_env CHR ''C'' inp ex_apply_state = Some (end_lsn ex_txn)"
    using read by (simp add: committed_by_def IsTransactionState_def ex_apply_env_def ex_apply_state_def)
  ultimately show ?thesis
    using transactions_atomic [of ex_apply_env ?m "CHR ''C''" inp ex_apply_state "Inr ()"]
    by (auto simp: track_commit_def ex_apply_env_def ex_apply_state_def ex_fb_def)
qed

end
