(* ===== verification/Pgl_Functions.thy ===== *)
theory Pgl_Functions
  imports Pgl_Apply Pgl_Sequences
begin

text \<open>
  The SQL functions that manage nodes, interfaces and subscriptions, \<open>src/pglogical_functions.c\<close>.  A function
  runs in a transaction: \<open>f_cats\<close> is what the transaction reads and writes and what an error takes back; the worker
  slots, the replication slots and what was done on the provider stay as they are left.  PostgreSQL's
  functions are fields of the environment \<open>E\<close>.
\<close>

section \<open>State and environment\<close>

record ReplicationSlot =
  slot_in_use :: bool
  slot_database :: oid
  slot_plugin :: string
  slot_data_name :: string
  slot_active_pid :: nat

record sql_cats =
  f_nodes :: node_catalog
  f_db :: provider_db
  f_status :: "PGLogicalSyncStatus list"
  f_queue :: "QueueTuple list"
  f_origins :: "string \<rightharpoonup> xlogrecptr"
  f_rows :: "oid \<Rightarrow> heap_row list"

text \<open>
  \<open>f_remote_drops\<close> are the slots dropped on providers, with the connection string; \<open>f_truncated\<close> is
  \<open>pglogical_truncated_tables\<close>; \<open>f_log\<close> are the messages below the level of errors.
\<close>

record sql_state =
  f_cats :: sql_cats
  f_ctx :: PGLogicalContext
  f_slots :: "ReplicationSlot list"
  f_truncated :: "oid list"
  f_remote_drops :: "(string \<times> string) list"
  f_log :: "string list"

text \<open>
  The worker slots as the backend finds them after a wait, and an interrupt that ends the wait.
\<close>

record wait_look =
  wl_interrupt :: "pg_error option"
  wl_ctx :: PGLogicalContext

text \<open>
  \<open>fe_run_command\<close> runs one parsed command for a role; the flag says whether it is at the top level.
  \<open>fe_parse_filter\<close> is the parser applied to the query around a row filter.
\<close>

record ('j, 'n) fun_env =
  fe_rep :: "'n repset_env"
  fe_seq :: "'j seq_env"
  fe_database :: oid
  fe_dbname :: string
  fe_connect :: "(string \<times> string option) list \<Rightarrow> PGconn option"
  fe_in_block :: bool
  fe_looks :: "nat \<Rightarrow> PGLogicalContext \<Rightarrow> wait_look"
  fe_ReplicationSlotDrop :: "string \<Rightarrow> ReplicationSlot list \<Rightarrow> ReplicationSlot list result"
  fe_origin_in_use :: "string \<Rightarrow> bool"
  fe_RangeVarGetRelid :: "string \<Rightarrow> string \<Rightarrow> oid"
  fe_ExecuteTruncate :: "oid \<Rightarrow> unit result"

type_synonym 'a sql_m = "(sql_state, 'a) st_m"

definition put_nodes :: "node_catalog \<Rightarrow> sql_state \<Rightarrow> sql_state" where
  "put_nodes t s = s\<lparr> f_cats := (f_cats s)\<lparr> f_nodes := t \<rparr> \<rparr>"

definition put_db :: "provider_db \<Rightarrow> sql_state \<Rightarrow> sql_state" where
  "put_db t s = s\<lparr> f_cats := (f_cats s)\<lparr> f_db := t \<rparr> \<rparr>"

definition put_status :: "PGLogicalSyncStatus list \<Rightarrow> sql_state \<Rightarrow> sql_state" where
  "put_status t s = s\<lparr> f_cats := (f_cats s)\<lparr> f_status := t \<rparr> \<rparr>"

definition put_rows :: "(oid \<Rightarrow> heap_row list) \<Rightarrow> sql_state \<Rightarrow> sql_state" where
  "put_rows t s = s\<lparr> f_cats := (f_cats s)\<lparr> f_rows := t \<rparr> \<rparr>"

abbreviation the_nodes :: "sql_state \<Rightarrow> node_catalog" where
  "the_nodes s \<equiv> f_nodes (f_cats s)"

abbreviation the_db :: "sql_state \<Rightarrow> provider_db" where
  "the_db s \<equiv> f_db (f_cats s)"

abbreviation the_status :: "sql_state \<Rightarrow> PGLogicalSyncStatus list" where
  "the_status s \<equiv> f_status (f_cats s)"

abbreviation nodes_read :: "(node_catalog \<Rightarrow> 'a result) \<Rightarrow> 'a sql_m" where
  "nodes_read \<equiv> part_read the_nodes"

abbreviation nodes_do :: "(node_catalog \<Rightarrow> ('a \<times> node_catalog) result) \<Rightarrow> 'a sql_m" where
  "nodes_do \<equiv> part_do the_nodes put_nodes"

abbreviation nodes_write :: "(node_catalog \<Rightarrow> node_catalog result) \<Rightarrow> unit sql_m" where
  "nodes_write \<equiv> part_write the_nodes put_nodes"

abbreviation db_read :: "(provider_db \<Rightarrow> 'a result) \<Rightarrow> 'a sql_m" where
  "db_read \<equiv> part_read the_db"

abbreviation db_do :: "(provider_db \<Rightarrow> ('a \<times> provider_db) result) \<Rightarrow> 'a sql_m" where
  "db_do \<equiv> part_do the_db put_db"

abbreviation db_write :: "(provider_db \<Rightarrow> provider_db result) \<Rightarrow> unit sql_m" where
  "db_write \<equiv> part_write the_db put_db"

abbreviation status_read :: "(PGLogicalSyncStatus list \<Rightarrow> 'a result) \<Rightarrow> 'a sql_m" where
  "status_read \<equiv> part_read the_status"

abbreviation status_write :: "(PGLogicalSyncStatus list \<Rightarrow> PGLogicalSyncStatus list result) \<Rightarrow> unit sql_m" where
  "status_write \<equiv> part_write the_status put_status"

abbreviation fe_hash :: "('j, 'n) fun_env \<Rightarrow> string \<Rightarrow> oid" where
  "fe_hash E \<equiv> re_hash_any (fe_rep E)"

text \<open>One call in a transaction of its own: an error takes back what the transaction changed.\<close>

definition sql_call :: "'a sql_m \<Rightarrow> 'a sql_m" where
  "sql_call m s = (case m s of
      None \<Rightarrow> None
    | Some (Inl e, s') \<Rightarrow> Some (Inl e, s'\<lparr> f_cats := f_cats s \<rparr>)
    | Some (Inr x, s') \<Rightarrow> Some (Inr x, s'))"

section \<open>Nodes\<close>

definition check_local_node :: "node_catalog \<Rightarrow> PGLogicalLocalNode result" where
  "check_local_node cat =
     rbind (get_local_node True cat) (\<lambda>node.
     case node of
       None \<Rightarrow> ereport ERRCODE_OBJECT_NOT_IN_PREREQUISITE_STATE
                 ''current database is not configured as pglogical node''
     | Some ln \<Rightarrow> Inr ln)"

definition require_local_node :: "node_catalog \<Rightarrow> PGLogicalLocalNode result" where
  "require_local_node cat = rbind (get_local_node False cat) (\<lambda>node.
     case node of None \<Rightarrow> Inl NullDereference | Some ln \<Rightarrow> Inr ln)"

definition predefined_repset :: "oid \<Rightarrow> string \<Rightarrow> bool \<Rightarrow> bool \<Rightarrow> PGLogicalRepSet" where
  "predefined_repset nodeid name upd trunc =
     \<lparr> rs_id = InvalidOid, rs_nodeid = nodeid, rs_name = name, replicate_insert = True,
       replicate_update = upd, replicate_delete = upd, replicate_truncate = trunc \<rparr>"

abbreviation DEFAULT_REPSET_NAME :: string where
  "DEFAULT_REPSET_NAME \<equiv> ''default''"

abbreviation DEFAULT_INSONLY_REPSET_NAME :: string where
  "DEFAULT_INSONLY_REPSET_NAME \<equiv> ''default_insert_only''"

abbreviation DDL_SQL_REPSET_NAME :: string where
  "DDL_SQL_REPSET_NAME \<equiv> ''ddl_sql''"

definition pglogical_create_node :: "('j, 'n) fun_env \<Rightarrow> string \<Rightarrow> string \<Rightarrow> oid sql_m" where
  "pglogical_create_node E name dsn =
     sbind (nodes_do (create_node (fe_hash E) \<lparr> node_id = InvalidOid, node_name = name \<rparr>)) (\<lambda>node.
     sbind (nodes_do (create_node_interface (fe_hash E) (re_hash_pair (fe_rep E))
              \<lparr> if_id = InvalidOid, if_name = node_name node, if_nodeid = node_id node, if_dsn = dsn \<rparr>)) (\<lambda>nodeif.
     sbind (db_do (create_replication_set (fe_rep E)
              (predefined_repset (node_id node) DEFAULT_REPSET_NAME True True))) (\<lambda>_.
     sbind (db_do (create_replication_set (fe_rep E)
              (predefined_repset (node_id node) DEFAULT_INSONLY_REPSET_NAME False True))) (\<lambda>_.
     sbind (db_do (create_replication_set (fe_rep E)
              (predefined_repset (node_id node) DDL_SQL_REPSET_NAME False False))) (\<lambda>_.
     sthen (nodes_write (create_local_node (node_id node) (if_id nodeif))) (sret (node_id node)))))))"

text \<open>
  The slots of the database that the output plugin of pglogical decodes and whose names begin as those of
  subscriptions do.  Each is dropped at once, whatever becomes of the transaction.
\<close>

definition is_node_slot :: "oid \<Rightarrow> ReplicationSlot \<Rightarrow> bool" where
  "is_node_slot db slot \<longleftrightarrow> slot_in_use slot \<and> slot_database slot = db \<and>
     slot_plugin slot = ''pglogical_output'' \<and> take 4 (slot_data_name slot) = ''pgl_''"

definition drop_node_slot :: "('j, 'n) fun_env \<Rightarrow> nat \<Rightarrow> unit sql_m" where
  "drop_node_slot E slotno s =
     (let slot = f_slots s ! slotno in
      if \<not> is_node_slot (fe_database E) slot then Some (Inr (), s)
      else if slot_active_pid slot \<noteq> 0
      then Some (ereport ERRCODE_OBJECT_NOT_IN_PREREQUISITE_STATE
             ''cannot drop node \"%s\" because replication slot \"%s\" on the node is still active'', s)
      else part_write f_slots (\<lambda>t s. s\<lparr> f_slots := t \<rparr>) (fe_ReplicationSlotDrop E (slot_data_name slot)) s)"

definition drop_node_records :: "('j, 'n) fun_env \<Rightarrow> oid \<Rightarrow> PGLogicalLocalNode option \<Rightarrow> bool sql_m" where
  "drop_node_records E nodeid local_node =
     sthen (if (case local_node of None \<Rightarrow> False | Some ln \<Rightarrow> node_id (ln_node ln) = nodeid)
            then sthen (\<lambda>s. sforeach (drop_node_slot E) [0..<length (f_slots s)] s) (nodes_write drop_local_node)
            else sret ())
     (sthen (nodes_write (\<lambda>cat. Inr (drop_node_interfaces nodeid cat)))
     (sthen (db_write (drop_node_replication_sets (fe_rep E) nodeid))
     (sthen (nodes_write (drop_node nodeid))
       (sret True))))"

definition pglogical_drop_node :: "('j, 'n) fun_env \<Rightarrow> string \<Rightarrow> bool \<Rightarrow> bool sql_m" where
  "pglogical_drop_node E name ifexists =
     sbind (nodes_read (get_node_by_name name ifexists)) (\<lambda>found.
     case found of
       None \<Rightarrow> sret False
     | Some node \<Rightarrow>
         sbind (nodes_read (get_node_subscriptions (node_id node) True)) (\<lambda>osubs.
         sbind (nodes_read (get_node_subscriptions (node_id node) False)) (\<lambda>tsubs.
         if osubs \<noteq> [] \<or> tsubs \<noteq> []
         then sfail (Ereport ERRCODE_OBJECT_NOT_IN_PREREQUISITE_STATE
                ''cannot drop node \"%s\" because it still has subscriptions associated with it'')
         else sbind (nodes_read (get_local_node True)) (\<lambda>local_node.
              drop_node_records E (node_id node) local_node))))"

definition pglogical_alter_node_add_interface ::
  "('j, 'n) fun_env \<Rightarrow> string \<Rightarrow> string \<Rightarrow> string \<Rightarrow> oid sql_m" where
  "pglogical_alter_node_add_interface E name ifname dsn =
     sbind (nodes_read (get_node_by_name name False)) (\<lambda>found.
     case found of
       None \<Rightarrow> sfail (Ereport ERRCODE_INVALID_PARAMETER_VALUE ''node \"%s\" not found'')
     | Some node \<Rightarrow>
         sbind (nodes_read (get_node_interface_by_name (node_id node) ifname True)) (\<lambda>oldif.
         if oldif \<noteq> None
         then sfail (Ereport ERRCODE_INVALID_PARAMETER_VALUE
                ''node \"%s\" already has interface named \"%s\"'')
         else sbind (nodes_do (create_node_interface (fe_hash E) (re_hash_pair (fe_rep E))
                \<lparr> if_id = InvalidOid, if_name = ifname, if_nodeid = node_id node, if_dsn = dsn \<rparr>)) (\<lambda>newif.
              sret (if_id newif))))"

definition pglogical_alter_node_drop_interface :: "string \<Rightarrow> string \<Rightarrow> bool sql_m" where
  "pglogical_alter_node_drop_interface name ifname =
     sbind (nodes_read (get_node_by_name name False)) (\<lambda>found.
     case found of
       None \<Rightarrow> sfail (Ereport ERRCODE_INVALID_PARAMETER_VALUE ''node \"%s\" not found'')
     | Some node \<Rightarrow>
         sbind (nodes_read (get_node_interface_by_name (node_id node) ifname True)) (\<lambda>oldif.
         case oldif of
           None \<Rightarrow> sfail (Ereport ERRCODE_INVALID_PARAMETER_VALUE
                     ''interface \"%s\" for node node \"%s\" not found'')
         | Some nodeif \<Rightarrow> sthen (nodes_write (drop_node_interface (if_id nodeif))) (sret True)))"

section \<open>Creating and dropping subscriptions\<close>

text \<open>The local copy of the provider's node and its interface: created, or found with the same connection string.\<close>

definition origin_interface ::
  "('j, 'n) fun_env \<Rightarrow> PGLogicalNode \<Rightarrow> string \<Rightarrow> PGlogicalInterface sql_m" where
  "origin_interface E origin dsn =
     sbind (nodes_read (get_node_by_name (node_name origin) True)) (\<lambda>existing_origin.
     if existing_origin = None
     then sbind (nodes_do (create_node (fe_hash E) origin)) (\<lambda>origin.
          nodes_do (create_node_interface (fe_hash E) (re_hash_pair (fe_rep E))
            \<lparr> if_id = InvalidOid, if_name = node_name origin, if_nodeid = node_id origin, if_dsn = dsn \<rparr>))
     else sbind (nodes_read (get_node_interface_by_name (node_id origin) (node_name origin) False)) (\<lambda>existingif.
          case existingif of
            None \<Rightarrow> sfail NullDereference
          | Some existing \<Rightarrow>
              if if_dsn existing \<noteq> dsn
              then sfail (Ereport ERRCODE_INVALID_PARAMETER_VALUE
                     ''dsn \"%s\" points to existing node \"%s\" with different dsn \"%s\"'')
              else sret existing))"

definition sets_overlap :: "string list \<Rightarrow> PGLogicalSubscription list \<Rightarrow> bool" where
  "sets_overlap sets subs =
     list_ex (\<lambda>esub. list_ex (\<lambda>existingset. list_ex (\<lambda>newset. newset = existingset) sets)
       (sub_replication_sets esub)) subs"

definition create_sync_kind :: "bool \<Rightarrow> bool \<Rightarrow> char" where
  "create_sync_kind with_structure with_data =
     (if with_structure \<and> with_data then SYNC_KIND_FULL
      else if with_structure then SYNC_KIND_STRUCTURE
      else if with_data then SYNC_KIND_DATA
      else SYNC_KIND_INIT)"

text \<open>
  The name and connection string of the target interface and the two node pointers are not set by the source; \<open>create_subscription\<close>
  does not read them, and the values given to them here are arbitrary.
\<close>

definition new_subscription ::
  "('j, 'n) fun_env \<Rightarrow> string \<Rightarrow> PGLogicalNode \<Rightarrow> PGlogicalInterface \<Rightarrow> PGLogicalLocalNode \<Rightarrow> string list \<Rightarrow> string list
     \<Rightarrow> interval \<Rightarrow> PGLogicalSubscription" where
  "new_subscription E name origin originif localnode sets forward delay =
     \<lparr> sub_id = InvalidOid, sub_name = name, sub_origin = origin, sub_target = ln_node localnode,
       sub_origin_if = originif,
       sub_target_if = \<lparr> if_id = if_id (ln_node_if localnode), if_name = [],
                         if_nodeid = node_id (ln_node localnode), if_dsn = [] \<rparr>,
       sub_enabled = True, sub_apply_delay = Some delay,
       sub_slot_name = gen_slot_name (fe_hash E) (fe_dbname E) (node_name origin) name,
       sub_replication_sets = sets, sub_forward_origins = forward \<rparr>"

definition pglogical_create_subscription ::
  "('j, 'n) fun_env \<Rightarrow> string \<Rightarrow> string \<Rightarrow> string option list \<Rightarrow> bool \<Rightarrow> bool \<Rightarrow> string option list \<Rightarrow> interval
     \<Rightarrow> oid sql_m" where
  "pglogical_create_subscription E name provider_dsn rep_set_names with_structure with_data forward_names delay =
     sbind (nodes_read require_local_node) (\<lambda>localnode.
     sbind (slift (pglogical_connect (fe_connect E) (fe_hash E) provider_dsn name (Some ''create''))) (\<lambda>conn.
     sbind (slift (pglogical_remote_node_info conn)) (\<lambda>info.
     sbind (slift (pglogical_connect_replica (fe_connect E) (fe_hash E) provider_dsn name (Some ''create''))) (\<lambda>_.
     sbind (slift (pglogical_connect (fe_connect E) (fe_hash E) (if_dsn (ln_node_if localnode)) name
              (Some ''create''))) (\<lambda>_.
     let origin = \<lparr> node_id = ri_nodeid info, node_name = ri_node_name info \<rparr> in
     sbind (origin_interface E origin provider_dsn) (\<lambda>originif.
     sbind (slift (textarray_to_list rep_set_names)) (\<lambda>sets.
     sbind (nodes_read (get_node_subscriptions (if_nodeid originif) True)) (\<lambda>other_subs.
     if sets_overlap sets other_subs
     then sfail (Ereport ERRCODE_INVALID_PARAMETER_VALUE
            ''existing subscription \"%s\" to node \"%s\" already subscribes to replication set \"%s\"'')
     else sbind (slift (textarray_to_list forward_names)) (\<lambda>forward.
          sbind (nodes_do (create_subscription (fe_hash E)
                   (new_subscription E name origin originif localnode sets forward delay))) (\<lambda>sub.
          sthen (status_write (create_local_sync_status
                   \<lparr> sync_kind = create_sync_kind with_structure with_data, sync_subid = sub_id sub,
                     sync_nspname = None, sync_relname = None, sync_status = SYNC_STATUS_INIT \<rparr>))
            (sret (sub_id sub))))))))))))"

text \<open>The wait for the apply worker to go, which an interrupt can end.\<close>

partial_function (option) wait_apply_exit ::
  "(nat \<Rightarrow> PGLogicalContext \<Rightarrow> wait_look) \<Rightarrow> oid \<Rightarrow> oid \<Rightarrow> nat \<Rightarrow> PGLogicalContext \<Rightarrow> (unit result \<times> PGLogicalContext) option" where
  "wait_apply_exit looks db subid n ctx =
     (if \<not> pglogical_worker_running (worker_at (pglogical_apply_find db subid ctx) ctx) then Some (Inr (), ctx)
      else case wl_interrupt (looks n ctx) of
             Some e \<Rightarrow> Some (Inl e, ctx)
           | None \<Rightarrow> wait_apply_exit looks db subid (n + 1) (wl_ctx (looks n ctx)))"

definition kill_apply :: "('j, 'n) fun_env \<Rightarrow> oid \<Rightarrow> unit sql_m" where
  "kill_apply E subid =
     smodify (\<lambda>s. s\<lparr> f_ctx := pglogical_worker_kill (pglogical_apply_find (fe_database E) subid (f_ctx s)) (f_ctx s) \<rparr>)"

text \<open>The slot on the provider: a failure is only a warning.\<close>

definition drop_provider_slot :: "('j, 'n) fun_env \<Rightarrow> PGLogicalSubscription \<Rightarrow> unit sql_m" where
  "drop_provider_slot E sub s =
     (case rbind (pglogical_connect (fe_connect E) (fe_hash E) (if_dsn (sub_origin_if sub)) (sub_name sub)
                    (Some ''cleanup'')) (\<lambda>conn. pglogical_drop_remote_slot conn (sub_slot_name sub)) of
        Inl e \<Rightarrow> Some (Inr (), s\<lparr> f_log := f_log s @
          [''could not drop slot \"%s\" on provider, you will probably have to drop it manually''] \<rparr>)
      | Inr dropped \<Rightarrow> Some (Inr (), if dropped
          then s\<lparr> f_remote_drops := f_remote_drops s @ [(if_dsn (sub_origin_if sub), sub_slot_name sub)] \<rparr> else s))"

definition drop_origin :: "('j, 'n) fun_env \<Rightarrow> string \<Rightarrow> unit sql_m" where
  "drop_origin E name s =
     (if f_origins (f_cats s) name = None then Some (Inr (), s)
      else if fe_origin_in_use E name
      then Some (elog ''could not drop replication origin with OID %d, in use by PID %d'', s)
      else Some (Inr (), s\<lparr> f_cats := (f_cats s)\<lparr> f_origins := (f_origins (f_cats s))(name := None) \<rparr> \<rparr>))"

definition drop_on_subscriber :: "('j, 'n) fun_env \<Rightarrow> PGLogicalSubscription \<Rightarrow> unit sql_m" where
  "drop_on_subscriber E sub =
     sbind (nodes_read (get_node_subscriptions (node_id (sub_origin sub)) True)) (\<lambda>other_subs.
     sthen (swhen (other_subs = [])
              (sthen (nodes_write (\<lambda>cat. Inr (drop_node_interfaces (node_id (sub_origin sub)) cat)))
                     (nodes_write (drop_node (node_id (sub_origin sub))))))
     (sthen (kill_apply E (sub_id sub))
     (sthen (on_part f_ctx (\<lambda>t s. s\<lparr> f_ctx := t \<rparr>) (wait_apply_exit (fe_looks E) (fe_database E) (sub_id sub) 0))
     (sthen (drop_provider_slot E sub)
       (drop_origin E (sub_slot_name sub))))))"

definition pglogical_drop_subscription :: "('j, 'n) fun_env \<Rightarrow> string \<Rightarrow> bool \<Rightarrow> bool sql_m" where
  "pglogical_drop_subscription E name ifexists =
     sbind (nodes_read (get_subscription_by_name name ifexists)) (\<lambda>found.
     case found of
       None \<Rightarrow> sret False
     | Some sub \<Rightarrow>
         sbind (nodes_read require_local_node) (\<lambda>node.
         sthen (status_write (\<lambda>rows. Inr (drop_subscription_sync_status (sub_id sub) rows)))
         (sthen (nodes_write (drop_subscription (sub_id sub)))
         (sthen (swhen (node_id (sub_origin sub) \<noteq> node_id (ln_node node)) (drop_on_subscriber E sub))
           (sret True)))))"

section \<open>Altering subscriptions\<close>

definition named_subscription :: "string \<Rightarrow> PGLogicalSubscription sql_m" where
  "named_subscription name =
     nodes_read (\<lambda>cat. rbind (get_subscription_by_name name False cat) (\<lambda>found.
       case found of None \<Rightarrow> Inl NullDereference | Some sub \<Rightarrow> Inr sub))"

definition pglogical_alter_subscription_disable :: "('j, 'n) fun_env \<Rightarrow> string \<Rightarrow> bool \<Rightarrow> bool sql_m" where
  "pglogical_alter_subscription_disable E name immediate =
     sbind (named_subscription name) (\<lambda>sub.
     sbind (nodes_read require_local_node) (\<lambda>_.
     sthen (nodes_write (alter_subscription (sub\<lparr> sub_enabled := False \<rparr>)))
     (sthen (swhen immediate
              (if fe_in_block E
               then sfail (Ereport ERRCODE_ACTIVE_SQL_TRANSACTION
                      ''alter_subscription_disable with immediate = true cannot be run inside a transaction block'')
               else kill_apply E (sub_id sub)))
       (sret True))))"

definition pglogical_alter_subscription_enable :: "('j, 'n) fun_env \<Rightarrow> string \<Rightarrow> bool \<Rightarrow> bool sql_m" where
  "pglogical_alter_subscription_enable E name immediate =
     sbind (named_subscription name) (\<lambda>sub.
     sbind (nodes_read require_local_node) (\<lambda>_.
     sthen (nodes_write (alter_subscription (sub\<lparr> sub_enabled := True \<rparr>)))
     (sthen (swhen (immediate \<and> fe_in_block E)
              (sfail (Ereport ERRCODE_ACTIVE_SQL_TRANSACTION
                 ''alter_subscription_enable with immediate = true cannot be run inside a transaction block'')))
       (sret True))))"

definition pglogical_alter_subscription_interface :: "string \<Rightarrow> string \<Rightarrow> bool sql_m" where
  "pglogical_alter_subscription_interface name ifname =
     sbind (named_subscription name) (\<lambda>sub.
     sbind (nodes_read require_local_node) (\<lambda>_.
     sbind (nodes_read (get_node_interface_by_name (node_id (sub_origin sub)) ifname False)) (\<lambda>found.
     case found of
       None \<Rightarrow> sfail NullDereference
     | Some new_if \<Rightarrow>
         if if_id new_if = if_id (sub_origin_if sub) then sret False
         else sthen (nodes_write (alter_subscription (sub\<lparr> sub_origin_if := new_if \<rparr>))) (sret True))))"

definition pglogical_alter_subscription_add_replication_set :: "string \<Rightarrow> string \<Rightarrow> bool sql_m" where
  "pglogical_alter_subscription_add_replication_set name repset_name =
     sbind (named_subscription name) (\<lambda>sub.
     if list_ex (\<lambda>rs. rs = repset_name) (sub_replication_sets sub) then sret False
     else sthen (nodes_write (alter_subscription
            (sub\<lparr> sub_replication_sets := sub_replication_sets sub @ [repset_name] \<rparr>))) (sret True))"

definition pglogical_alter_subscription_remove_replication_set :: "string \<Rightarrow> string \<Rightarrow> bool sql_m" where
  "pglogical_alter_subscription_remove_replication_set name repset_name =
     sbind (named_subscription name) (\<lambda>sub.
     if list_ex (\<lambda>rs. rs = repset_name) (sub_replication_sets sub)
     then sthen (nodes_write (alter_subscription
            (sub\<lparr> sub_replication_sets := delete_first (\<lambda>rs. rs = repset_name) (sub_replication_sets sub) \<rparr>)))
            (sret True)
     else sret False)"

section \<open>Synchronizing tables on request\<close>

definition backend_truncate_table :: "('j, 'n) fun_env \<Rightarrow> string \<Rightarrow> string \<Rightarrow> unit sql_m" where
  "backend_truncate_table E nspname rname =
     part_write (\<lambda>s. f_rows (f_cats s)) put_rows
       (truncate_rows (fe_RangeVarGetRelid E) (fe_ExecuteTruncate E) nspname rname)"

definition new_table_sync :: "oid \<Rightarrow> string \<Rightarrow> string \<Rightarrow> PGLogicalSyncStatus" where
  "new_table_sync subid nspname rname =
     \<lparr> sync_kind = SYNC_KIND_DATA, sync_subid = subid, sync_nspname = Some nspname,
       sync_relname = Some rname, sync_status = SYNC_STATUS_INIT \<rparr>"

definition synchronize_missing ::
  "('j, 'n) fun_env \<Rightarrow> oid \<Rightarrow> bool \<Rightarrow> PGLogicalRemoteRel \<Rightarrow> unit sql_m" where
  "synchronize_missing E subid trunc remoterel =
     sbind (status_read (get_table_sync_status subid (rem_nspname remoterel) (rem_relname remoterel) True)) (\<lambda>oldsync.
     if oldsync \<noteq> None then sret ()
     else sthen (status_write (create_local_sync_status
                   (new_table_sync subid (rem_nspname remoterel) (rem_relname remoterel))))
            (swhen trunc (backend_truncate_table E (rem_nspname remoterel) (rem_relname remoterel))))"

definition tell_apply :: "('j, 'n) fun_env \<Rightarrow> oid \<Rightarrow> unit sql_m" where
  "tell_apply E subid s =
     (let found = pglogical_apply_find (fe_database E) subid (f_ctx s) in
      if pglogical_worker_running (worker_at found (f_ctx s))
      then Some (Inr (), s\<lparr> f_ctx := set_worker (the found) (\<lambda>w. w\<lparr> sync_pending := True \<rparr>) (f_ctx s) \<rparr>)
      else Some (Inr (), put_nodes (pglogical_subscription_changed subid (the_nodes s)) s))"

definition pglogical_alter_subscription_synchronize :: "('j, 'n) fun_env \<Rightarrow> string \<Rightarrow> bool \<Rightarrow> bool sql_m" where
  "pglogical_alter_subscription_synchronize E name trunc =
     sbind (named_subscription name) (\<lambda>sub.
     sbind (slift (pglogical_connect (fe_connect E) (fe_hash E) (if_dsn (sub_origin_if sub)) name
              (Some ''sync''))) (\<lambda>conn.
     sbind (slift (pg_logical_get_remote_repset_tables conn (sub_replication_sets sub))) (\<lambda>remoterels.
     sthen (sforeach (synchronize_missing E (sub_id sub) trunc) remoterels)
     (sthen (tell_apply E (sub_id sub))
       (sret True)))))"

abbreviation SYNC_STATUS_NONE :: char where
  "SYNC_STATUS_NONE \<equiv> NUL"

definition relation_name :: "('j, 'n) fun_env \<Rightarrow> oid \<Rightarrow> (string \<times> string) sql_m" where
  "relation_name E rid =
     sbind (db_read (heap_open_class rid)) (\<lambda>rel.
     case sq_namespace_name (fe_seq E) (relnamespace rel) of
       None \<Rightarrow> sfail NullDereference
     | Some nspname \<Rightarrow> sret (nspname, relname rel))"

definition pglogical_alter_subscription_resynchronize_table ::
  "('j, 'n) fun_env \<Rightarrow> string \<Rightarrow> oid \<Rightarrow> bool \<Rightarrow> bool sql_m" where
  "pglogical_alter_subscription_resynchronize_table E name rid trunc =
     sbind (named_subscription name) (\<lambda>sub.
     sbind (relation_name E rid) (\<lambda>(nspname, rname).
     sbind (status_read (get_table_sync_status (sub_id sub) nspname rname True)) (\<lambda>oldsync.
     sthen (case oldsync of
              Some old \<Rightarrow>
                if sync_status old \<noteq> SYNC_STATUS_READY \<and> sync_status old \<noteq> SYNC_STATUS_NONE
                then selog ''table %s.%s is already being synchronized''
                else status_write (set_table_sync_status (sub_id sub) nspname rname SYNC_STATUS_INIT)
            | None \<Rightarrow> status_write (create_local_sync_status (new_table_sync (sub_id sub) nspname rname)))
     (sthen (swhen trunc (backend_truncate_table E nspname rname))
     (sthen (tell_apply E (sub_id sub))
       (sret True))))))"

definition pglogical_synchronize_sequence :: "('j, 'n) fun_env \<Rightarrow> oid \<Rightarrow> bool sql_m" where
  "pglogical_synchronize_sequence E rid =
     sbind (nodes_read require_local_node) (\<lambda>_ s.
     case synchronize_sequence (fe_seq E) (the_nodes s) rid (the_db s) (f_queue (f_cats s)) of
       Inl e \<Rightarrow> Some (Inl e, s)
     | Inr (db, queue) \<Rightarrow> Some (Inr True, s\<lparr> f_cats := (f_cats s)\<lparr> f_db := db, f_queue := queue \<rparr> \<rparr>))"

section \<open>Showing subscriptions\<close>

definition sync_status_to_string :: "char \<Rightarrow> string" where
  "sync_status_to_string status =
     (if status = SYNC_STATUS_INIT then ''sync_init''
      else if status = SYNC_STATUS_STRUCTURE then ''sync_structure''
      else if status = SYNC_STATUS_DATA then ''sync_data''
      else if status = SYNC_STATUS_CONSTAINTS then ''sync_constraints''
      else if status = SYNC_STATUS_SYNCWAIT then ''sync_waiting''
      else if status = SYNC_STATUS_CATCHUP then ''catchup''
      else if status = SYNC_STATUS_READY then ''synchronized''
      else ''unknown'')"

text \<open>
  How a function that returns a set is called: whether there is a place for a set, whether it may be materialized,
  and whether the result type is a row type.
\<close>

record call_info =
  ci_resultinfo :: bool
  ci_materialize :: bool
  ci_composite :: bool

definition check_set_result :: "call_info \<Rightarrow> unit result" where
  "check_set_result fcinfo =
     (if \<not> ci_resultinfo fcinfo
      then ereport ERRCODE_FEATURE_NOT_SUPPORTED ''set-valued function called in context that cannot accept a set''
      else if \<not> ci_materialize fcinfo
      then ereport ERRCODE_FEATURE_NOT_SUPPORTED ''materialize mode required, but it is not allowed in this context''
      else Inr ())"

definition check_row_type :: "call_info \<Rightarrow> unit result" where
  "check_row_type fcinfo =
     (if ci_composite fcinfo then Inr () else elog ''return type must be a row type'')"

text \<open>A relation that is gone has neither schema nor name, and the conversion of the NULL pointer follows it.\<close>

definition pglogical_show_subscription_table ::
  "('j, 'n) fun_env \<Rightarrow> call_info \<Rightarrow> string \<Rightarrow> oid \<Rightarrow> (string \<times> string \<times> string) sql_m" where
  "pglogical_show_subscription_table E fcinfo name rid =
     sbind (named_subscription name) (\<lambda>sub.
     sbind (slift (check_set_result fcinfo)) (\<lambda>_.
     sbind (slift (check_row_type fcinfo)) (\<lambda>_.
     sbind (sget (\<lambda>s. pg_class (the_db s) rid)) (\<lambda>rel.
     case map_option (\<lambda>r. (sq_namespace_name (fe_seq E) (relnamespace r), relname r)) rel of
       Some (Some nspname, rname) \<Rightarrow>
         sbind (status_read (get_table_sync_status (sub_id sub) nspname rname True)) (\<lambda>sync.
         sret (nspname, rname, case sync of None \<Rightarrow> ''unknown'' | Some r \<Rightarrow> sync_status_to_string (sync_status r)))
     | _ \<Rightarrow> sfail NullDereference))))"

record subscription_status_row =
  ssr_name :: string
  ssr_status :: string
  ssr_provider_node :: string
  ssr_provider_dsn :: string
  ssr_slot_name :: string
  ssr_replication_sets :: "string list option"
  ssr_forward_origins :: "string list option"

definition subscription_status :: "('j, 'n) fun_env \<Rightarrow> PGLogicalSubscription \<Rightarrow> sql_state \<Rightarrow> string result" where
  "subscription_status E sub s =
     (if pglogical_worker_running (worker_at (pglogical_apply_find (fe_database E) (sub_id sub) (f_ctx s)) (f_ctx s))
      then rbind (get_subscription_sync_status (sub_id sub) True (the_status s)) (\<lambda>sync.
           Inr (case sync of
                  None \<Rightarrow> ''unknown''
                | Some r \<Rightarrow> if sync_status r = SYNC_STATUS_READY then ''replicating'' else ''initializing''))
      else Inr (if \<not> sub_enabled sub then ''disabled'' else ''down''))"

definition status_row ::
  "('j, 'n) fun_env \<Rightarrow> sql_state \<Rightarrow> PGLogicalSubscription \<Rightarrow> subscription_status_row result" where
  "status_row E s sub =
     rbind (subscription_status E sub s) (\<lambda>status.
     Inr \<lparr> ssr_name = sub_name sub, ssr_status = status, ssr_provider_node = node_name (sub_origin sub),
           ssr_provider_dsn = if_dsn (sub_origin_if sub), ssr_slot_name = sub_slot_name sub,
           ssr_replication_sets = list_or_null (sub_replication_sets sub),
           ssr_forward_origins = list_or_null (sub_forward_origins sub) \<rparr>)"

definition pglogical_show_subscription_status ::
  "('j, 'n) fun_env \<Rightarrow> call_info \<Rightarrow> string option \<Rightarrow> subscription_status_row list sql_m" where
  "pglogical_show_subscription_status E fcinfo name =
     sbind (slift (check_set_result fcinfo)) (\<lambda>_.
     sbind (nodes_read check_local_node) (\<lambda>node.
     sbind (case name of
              None \<Rightarrow> nodes_read (get_node_subscriptions (node_id (ln_node node)) False)
            | Some n \<Rightarrow> sbind (named_subscription n) (\<lambda>sub. sret [sub])) (\<lambda>subscriptions.
     sbind (slift (check_row_type fcinfo)) (\<lambda>_ s.
     Some (rmap (status_row E s) subscriptions, s)))))"

end
