(* ===== verification/Pgl_Executor.thy ===== *)
theory Pgl_Executor
  imports Pgl_Functions
begin

text \<open>
  The executor support and the utility hook of \<open>src/pglogical_executor.c\<close>, and the trigger function that notes
  truncated tables (\<open>pglogical_queue_truncate\<close> of \<open>src/pglogical_functions.c\<close>): a TRUNCATE statement on the provider becomes
  messages in the queue.  The statement itself is run by the next hook, a parameter.
\<close>

section \<open>Executor state for one relation\<close>

text \<open>
  What the executor state says of the relation: its range table entry, the triggers with one function and one
  WHEN expression slot for each, and whether a slot for trigger tuples was made.
\<close>

record estate =
  rte_relid :: oid
  rte_relkind :: char
  ri_TrigDesc :: "trigger list option"
  ri_TrigFunctions :: "nat option"
  ri_TrigWhenExprs :: "nat option"
  es_trig_tuple_slot :: bool

text \<open>The trigger descriptor of a relation without triggers is NULL.\<close>

definition create_estate_for_relation :: "relation \<Rightarrow> bool \<Rightarrow> estate" where
  "create_estate_for_relation rel has_triggers =
     (let trigdesc = (if has_triggers \<and> rd_trigs rel \<noteq> [] then Some (rd_trigs rel) else None) in
      \<lparr> rte_relid = rd_id rel, rte_relkind = relkind rel, ri_TrigDesc = trigdesc,
        ri_TrigFunctions = map_option length trigdesc, ri_TrigWhenExprs = map_option length trigdesc,
        es_trig_tuple_slot = (trigdesc \<noteq> None) \<rparr>)"

text \<open>
  The expression context of an executor state: the slot of its scan tuple has the given row type.  The fields are the ones
  later code uses.
\<close>

record expr_context =
  ecxt_estate :: estate
  ecxt_scantuple_desc :: tupledesc

definition prepare_per_tuple_econtext :: "estate \<Rightarrow> tupledesc \<Rightarrow> expr_context" where
  "prepare_per_tuple_econtext es desc = \<lparr> ecxt_estate = es, ecxt_scantuple_desc = desc \<rparr>"

section \<open>Messages for relations\<close>

definition relation_json :: "(string \<Rightarrow> string) \<Rightarrow> string \<Rightarrow> string \<Rightarrow> string" where
  "relation_json escape nspname rname =
     ''{\"schema_name\": '' @ escape nspname @ '',\"table_name\": '' @ escape rname @ ''}''"

definition put_queue :: "QueueTuple list \<Rightarrow> sql_state \<Rightarrow> sql_state" where
  "put_queue t s = s\<lparr> f_cats := (f_cats s)\<lparr> f_queue := t \<rparr> \<rparr>"

definition queue_for_sets :: "('j, 'n) fun_env \<Rightarrow> string list \<Rightarrow> char \<Rightarrow> string \<Rightarrow> unit sql_m" where
  "queue_for_sets E sets message_type message =
     part_write (\<lambda>s. f_queue (f_cats s)) put_queue
       (queue_message (sq_queue (fe_seq E)) sets (GetUserId (fe_seq E)) message_type message)"

section \<open>TRUNCATE\<close>

text \<open>How the trigger function is called; \<open>tg_relation\<close> is the oid of the relation.\<close>

record trigger_call =
  called_as_trigger :: bool
  fired_after :: bool
  fired_by_truncate :: bool
  tg_relation :: oid

definition pglogical_queue_truncate :: "bool \<Rightarrow> trigger_call \<Rightarrow> unit sql_m" where
  "pglogical_queue_truncate in_worker trig =
     (if in_worker then sret ()
      else if \<not> called_as_trigger trig
      then sfail (Ereport ERRCODE_E_R_I_E_TRIGGER_PROTOCOL_VIOLATED
             ''function \"%s\" was not called by trigger manager'')
      else if \<not> fired_after trig \<or> \<not> fired_by_truncate trig
      then sfail (Ereport ERRCODE_E_R_I_E_TRIGGER_PROTOCOL_VIOLATED
             ''function \"%s\" must be fired AFTER TRUNCATE'')
      else sbind (nodes_read (get_local_node True)) (\<lambda>local_node.
           if local_node = None then sret ()
           else smodify (\<lambda>s. s\<lparr> f_truncated := f_truncated s @ [tg_relation trig] \<rparr>)))"

definition pglogical_start_truncate :: "unit sql_m" where
  "pglogical_start_truncate = smodify (\<lambda>s. s\<lparr> f_truncated := [] \<rparr>)"

text \<open>One truncated table: a relation that is gone has no name to write.\<close>

definition queue_truncated :: "('j, 'n) fun_env \<Rightarrow> oid \<Rightarrow> oid \<Rightarrow> unit sql_m" where
  "queue_truncated E nodeid rid =
     sbind (sget (\<lambda>s. pg_class (the_db s) rid)) (\<lambda>rel.
     case map_option (\<lambda>r. (sq_namespace_name (fe_seq E) (relnamespace r), relname r)) rel of
       Some (Some nspname, rname) \<Rightarrow>
         sbind (db_read (get_table_replication_sets (fe_rep E) nodeid rid)) (\<lambda>repsets.
         swhen (repsets \<noteq> [])
           (queue_for_sets E (map rs_name repsets) QUEUE_COMMAND_TYPE_TRUNCATE
              (relation_json (sq_escape_json (fe_seq E)) nspname rname)))
     | _ \<Rightarrow> sfail NullDereference)"

definition pglogical_finish_truncate :: "('j, 'n) fun_env \<Rightarrow> unit sql_m" where
  "pglogical_finish_truncate E =
     sbind (nodes_read (get_local_node True)) (\<lambda>local_node.
     sbind (sget f_truncated) (\<lambda>truncated.
     case local_node of
       None \<Rightarrow> sret ()
     | Some ln \<Rightarrow>
         if truncated = [] then sret ()
         else sthen (sforeach (queue_truncated E (node_id (ln_node ln))) truncated)
                (smodify (\<lambda>s. s\<lparr> f_truncated := [] \<rparr>))))"

text \<open>
  The utility hook.  \<open>ProcessUtility_hook\<close> is the hook that was installed before, or none; then the standard function runs the
  statement.
\<close>

datatype 'p utility_stmt = TruncateStmt 'p | OtherStmt 'p

fun is_truncate_stmt :: "'p utility_stmt \<Rightarrow> bool" where
  "is_truncate_stmt (TruncateStmt p) = True"
| "is_truncate_stmt (OtherStmt p) = False"

type_synonym 'p utility_hook = "'p utility_stmt \<Rightarrow> unit sql_m"

definition pglogical_ProcessUtility ::
  "('j, 'n) fun_env \<Rightarrow> 'p utility_hook \<Rightarrow> 'p utility_hook option \<Rightarrow> 'p utility_hook" where
  "pglogical_ProcessUtility E standard_ProcessUtility next_hook parsetree =
     sthen (swhen (is_truncate_stmt parsetree) pglogical_start_truncate)
     (sthen ((case next_hook of None \<Rightarrow> standard_ProcessUtility | Some h \<Rightarrow> h) parsetree)
       (swhen (is_truncate_stmt parsetree) (pglogical_finish_truncate E)))"

definition pglogical_executor_init ::
  "('j, 'n) fun_env \<Rightarrow> 'p utility_hook \<Rightarrow> 'p utility_hook option \<Rightarrow> 'p utility_hook option" where
  "pglogical_executor_init E standard_ProcessUtility installed =
     Some (pglogical_ProcessUtility E standard_ProcessUtility installed)"

end
