(* ===== verification/Pgl_Lifecycle.thy ===== *)
theory Pgl_Lifecycle
  imports Pgl_Manager Pgl_Apply Pgl_Executor
begin

text \<open>
  From the start of the server to the end of its processes: \<open>_PG_init\<close>, \<open>pglogical_supervisor_main\<close>, \<open>pglogical_manage_extension\<close> and
  \<open>get_pglogical_table_oid\<close> of \<open>src/pglogical.c\<close>, the request for shared memory of \<open>src/pglogical_worker.c\<close>, the loop of the manager
  (\<open>src/pglogical_manager.c\<close>), and the entry of the apply and sync workers.  What other processes do while a process waits, and how the
  wait ends, is given by functions of the number of the turn.
\<close>

section \<open>Server start\<close>

datatype guc_value = GucEnum int | GucBool bool | GucString string
datatype guc_context = PGC_POSTMASTER | PGC_SIGHUP | PGC_SUSET

record custom_variable =
  cv_name :: string
  cv_boot :: guc_value
  cv_context :: guc_context
  cv_values :: "(string \<times> int) list"

definition PGLogicalConflictResolvers :: "(string \<times> int) list" where
  "PGLogicalConflictResolvers =
     [(''error'', PGLOGICAL_RESOLVE_ERROR), (''apply_remote'', PGLOGICAL_RESOLVE_APPLY_REMOTE),
      (''keep_local'', PGLOGICAL_RESOLVE_KEEP_LOCAL), (''last_update_wins'', PGLOGICAL_RESOLVE_LAST_UPDATE_WINS),
      (''first_update_wins'', PGLOGICAL_RESOLVE_FIRST_UPDATE_WINS)]"

text \<open>
  What the library leaves in the postmaster: the variables, the requests for shared memory and locks, the chain of startup hooks, the
  utility hook, and the registered workers with their restart time.  Shared memory is the context of the workers, once it is made, beside
  what other libraries keep there.
\<close>

record static_worker =
  sw_bgw :: BackgroundWorker
  sw_library :: string
  sw_start_after_recovery :: bool
  sw_restart_time :: nat

type_synonym 'm shared_memory = "'m \<times> PGLogicalContext option"

record ('p, 'm) postmaster =
  variables :: "custom_variable list"
  addin_shmem :: "nat list"
  lwlock_tranches :: "(string \<times> nat) list"
  shmem_startup_hook :: "('m shared_memory \<Rightarrow> 'm shared_memory) option"
  utility_hook :: "'p utility_hook option"
  static_workers :: "static_worker list"

record preload_env =
  process_shared_preload_libraries_in_progress :: bool
  IsBinaryUpgrade :: bool
  max_worker_processes :: nat
  offsetof_workers :: nat
  sizeof_PGLogicalWorker :: nat

definition worker_shmem_size :: "preload_env \<Rightarrow> nat" where
  "worker_shmem_size P = offsetof_workers P + sizeof_PGLogicalWorker P * max_worker_processes P"

text \<open>The startup hook calls the one before it, and makes the context when it is not there yet.\<close>

definition pglogical_worker_shmem_init :: "preload_env \<Rightarrow> ('p, 'm) postmaster \<Rightarrow> ('p, 'm) postmaster" where
  "pglogical_worker_shmem_init P pm =
     pm\<lparr> addin_shmem := addin_shmem pm @ [worker_shmem_size P],
         lwlock_tranches := lwlock_tranches pm @ [(''pglogical'', 1)],
         shmem_startup_hook := Some (\<lambda>mem.
           let (rest, found) = (case shmem_startup_hook pm of None \<Rightarrow> mem | Some prev \<Rightarrow> prev mem)
           in (rest, Some (pglogical_worker_shmem_startup (max_worker_processes P) found))) \<rparr>"

definition pglogical_variables :: "custom_variable list" where
  "pglogical_variables =
     [\<lparr> cv_name = ''pglogical.conflict_resolution'', cv_boot = GucEnum PGLOGICAL_RESOLVE_APPLY_REMOTE, cv_context = PGC_SUSET,
        cv_values = PGLogicalConflictResolvers \<rparr>,
      \<lparr> cv_name = ''pglogical.synchronous_commit'', cv_boot = GucBool False, cv_context = PGC_POSTMASTER, cv_values = [] \<rparr>,
      \<lparr> cv_name = ''pglogical.temp_directory'', cv_boot = GucString ''/tmp'', cv_context = PGC_SIGHUP, cv_values = [] \<rparr>,
      \<lparr> cv_name = ''pglogical.extra_connection_options'', cv_boot = GucString [], cv_context = PGC_SIGHUP, cv_values = [] \<rparr>]"

definition supervisor_bgw :: static_worker where
  "supervisor_bgw =
     \<lparr> sw_bgw = \<lparr> bgw_function_name = snprintf BGW_MAXLEN ''pglogical_supervisor_main'',
                 bgw_name = snprintf BGW_MAXLEN ''pglogical supervisor'', bgw_main_arg = 0 \<rparr>,
       sw_library = snprintf BGW_MAXLEN ''pglogical'', sw_start_after_recovery = True, sw_restart_time = 5 \<rparr>"

definition PG_init ::
  "preload_env \<Rightarrow> ('j, 'n) fun_env \<Rightarrow> 'p utility_hook \<Rightarrow> ('p, 'm) postmaster \<Rightarrow> ('p, 'm) postmaster result" where
  "PG_init P E standard_ProcessUtility pm =
     (if \<not> process_shared_preload_libraries_in_progress P then elog ''pglogical is not in shared_preload_libraries''
      else let pm = pm\<lparr> variables := variables pm @ pglogical_variables \<rparr>
           in if IsBinaryUpgrade P then Inr pm
              else let pm = pglogical_worker_shmem_init P pm;
                       pm = pm\<lparr> utility_hook := pglogical_executor_init E standard_ProcessUtility (utility_hook pm) \<rparr>
                   in Inr (pm\<lparr> static_workers := static_workers pm @ [supervisor_bgw] \<rparr>))"

section \<open>The extension\<close>

definition get_pglogical_table_oid ::
  "(string \<Rightarrow> oid result) \<Rightarrow> (string \<Rightarrow> oid \<Rightarrow> oid) \<Rightarrow> string \<Rightarrow> oid result" where
  "get_pglogical_table_oid namespace_oid relname_relid table =
     rbind (namespace_oid ''pglogical'') (\<lambda>nspoid.
     let rid = relname_relid table nspoid
     in if rid = InvalidOid then elog ''cache lookup failed for relation %s.%s'' else Inr rid)"

record pg_extension_row =
  ext_oid :: oid
  extversion :: "string option"

definition PGLOGICAL_VERSION :: string where
  "PGLOGICAL_VERSION = ''1.3.0''"

definition pglogical_manage_extension ::
  "bool \<Rightarrow> (pg_extension_row \<Rightarrow> pg_extension_row result) \<Rightarrow> pg_extension_row option \<Rightarrow> pg_extension_row option result" where
  "pglogical_manage_extension RecoveryInProgress ExecAlterExtensionStmt ext =
     (if RecoveryInProgress then Inr ext
      else case ext of
             None \<Rightarrow> Inr None
           | Some row \<Rightarrow>
               (case extversion row of
                  None \<Rightarrow> elog ''extversion is null''
                | Some version \<Rightarrow>
                    if version \<noteq> PGLOGICAL_VERSION then rbind (ExecAlterExtensionStmt row) (\<lambda>row. Inr (Some row))
                    else Inr (Some row)))"

section \<open>The manager\<close>

record manager_state =
  m_cat :: node_catalog
  m_db :: provider_db
  m_queue :: "QueueTuple list"
  m_ctx :: PGLogicalContext
  m_extension :: "pg_extension_row option"
  m_timer :: int
  m_waits :: "int list"

record 'j manager_env =
  mg_seq :: "nat \<Rightarrow> 'j seq_env"
  mg_bgw :: "nat \<Rightarrow> PGLogicalWorker \<Rightarrow> bgw_env"
  mg_now :: "nat \<Rightarrow> timestamptz"
  mg_mydb :: oid
  mg_sigterm :: "nat \<Rightarrow> bool"
  mg_postmaster_death :: "nat \<Rightarrow> bool"
  mg_interrupt :: "nat \<Rightarrow> pg_error option"
  mg_others :: "nat \<Rightarrow> manager_state \<Rightarrow> manager_state"
  mg_recovery :: bool
  mg_alter :: "pg_extension_row \<Rightarrow> pg_extension_row result"

text \<open>The wait at the end of a turn: other processes change the shared state, not the manager's own variables.\<close>

definition manager_wait :: "'j manager_env \<Rightarrow> nat \<Rightarrow> manager_state \<Rightarrow> manager_state" where
  "manager_wait E n s = (mg_others E n s)\<lparr> m_timer := m_timer s, m_waits := m_waits s \<rparr>"

partial_function (option) manager_loop :: "'j manager_env \<Rightarrow> nat \<Rightarrow> manager_state \<Rightarrow> (pg_error \<times> manager_state) option" where
  "manager_loop E n s =
     (if mg_sigterm E n then Some (ProcExit 1, s)
      else case manager_turn (mg_seq E n) (mg_bgw E n) (mg_mydb E) (mg_now E n) (m_cat s) (m_timer s, m_db s, m_queue s, m_ctx s) of
             None \<Rightarrow> None
           | Some (Inl (e, ctx)) \<Rightarrow> Some (e, s\<lparr> m_ctx := ctx \<rparr>)
           | Some (Inr (wait_ms, timer, db, queue, ctx)) \<Rightarrow>
               let s = manager_wait E n (s\<lparr> m_timer := timer, m_db := db, m_queue := queue, m_ctx := ctx,
                                            m_waits := m_waits s @ [wait_ms] \<rparr>)
               in if mg_postmaster_death E n then Some (ProcExit 1, s)
                  else case mg_interrupt E n of
                         Some e \<Rightarrow> Some (e, s)
                       | None \<Rightarrow> manager_loop E (n + 1) s)"

definition pglogical_manager_main :: "'j manager_env \<Rightarrow> manager_state \<Rightarrow> (pg_error \<times> manager_state) option" where
  "pglogical_manager_main E s =
     (case m_extension s of
        None \<Rightarrow> Some (ProcExit 0, s)
      | Some _ \<Rightarrow>
          (case pglogical_manage_extension (mg_recovery E) (mg_alter E) (m_extension s) of
             Inl e \<Rightarrow> Some (e, s)
           | Inr ext \<Rightarrow> manager_loop E 0 (s\<lparr> m_extension := ext, m_timer := INITIAL_SLEEP \<rparr>)))"

section \<open>The supervisor\<close>

record supervisor_env =
  sv_bgw :: "nat \<Rightarrow> PGLogicalWorker \<Rightarrow> bgw_env"
  sv_databases :: "nat \<Rightarrow> (oid \<times> bool) list"
  sv_sigterm :: "nat \<Rightarrow> bool"
  sv_postmaster_death :: "nat \<Rightarrow> bool"
  sv_others :: "nat \<Rightarrow> PGLogicalContext \<Rightarrow> PGLogicalContext"

partial_function (option) supervisor_loop ::
  "supervisor_env \<Rightarrow> nat \<Rightarrow> PGLogicalContext \<Rightarrow> (pg_error \<times> PGLogicalContext) option" where
  "supervisor_loop E n ctx =
     (if sv_sigterm E n then Some (ProcExit 1, ctx)
      else case supervisor_turn (sv_bgw E n) (sv_databases E n) ctx of
             None \<Rightarrow> None
           | Some (Inl (e, ctx)) \<Rightarrow> Some (e, ctx)
           | Some (Inr ctx) \<Rightarrow>
               if sv_postmaster_death E n then Some (ProcExit 1, sv_others E n ctx)
               else supervisor_loop E (n + 1) (sv_others E n ctx))"

definition pglogical_supervisor_main :: "supervisor_env \<Rightarrow> nat \<Rightarrow> PGLogicalContext \<Rightarrow> (pg_error \<times> PGLogicalContext) option" where
  "pglogical_supervisor_main E pid ctx = supervisor_loop E 0 (supervisor_start pid ctx)"

section \<open>Processes\<close>

text \<open>
  The life of a worker process: it attaches to its slot, runs, and on its way out the callback that attaching registered detaches it.  An
  error ends a background worker with exit code 1; a NULL pointer ends it without callbacks.
\<close>

fun exit_code :: "pg_error \<Rightarrow> nat option" where
  "exit_code (ProcExit code) = Some code"
| "exit_code (Ereport _ _) = Some 1"
| "exit_code NullDereference = None"

definition process_life ::
  "nat \<Rightarrow> nat \<Rightarrow> timestamptz \<Rightarrow> ('s \<Rightarrow> PGLogicalContext) \<Rightarrow> (PGLogicalContext \<Rightarrow> 's \<Rightarrow> 's)
     \<Rightarrow> ('s \<Rightarrow> (pg_error \<times> 's) option) \<Rightarrow> 's \<Rightarrow> (pg_error \<times> 's) option" where
  "process_life pid slot now get_ctx put_ctx body s =
     (let (my, ctx) = pglogical_worker_attach pid slot (get_ctx s)
      in case body (put_ctx ctx s) of
           None \<Rightarrow> None
         | Some (e, s') \<Rightarrow>
             Some (e, case exit_code e of
                        None \<Rightarrow> s'
                      | Some code \<Rightarrow> put_ctx (snd (pglogical_worker_on_exit code (Some my) now (get_ctx s'))) s'))"

text \<open>The settings of a session that replays changes, in the order they are made.\<close>

definition replay_settings :: "bool \<Rightarrow> (string \<times> string) list" where
  "replay_settings pglogical_synchronous_commit =
     [(''synchronous_commit'', if pglogical_synchronous_commit then ''local'' else ''off''),
      (''session_replication_role'', ''replica''), (''check_function_bodies'', ''off'')]"

record 'k worker_process =
  wp_settings :: "(string \<times> string) list"
  wp_state :: "'k apply_state"

definition wp_ctx :: "'k worker_process \<Rightarrow> PGLogicalContext" where
  "wp_ctx p = s_ctx (syn (wp_state p))"

definition put_wp_ctx :: "PGLogicalContext \<Rightarrow> 'k worker_process \<Rightarrow> 'k worker_process" where
  "put_wp_ctx ctx p = p\<lparr> wp_state := (wp_state p)\<lparr> syn := (syn (wp_state p))\<lparr> s_ctx := ctx \<rparr> \<rparr> \<rparr>"

text \<open>A computation of the worker as the body of its process; the workers never return normally.\<close>

definition as_body :: "('k apply_state \<Rightarrow> ('a result \<times> 'k apply_state) option) \<Rightarrow> nat
    \<Rightarrow> 'k worker_process \<Rightarrow> (pg_error \<times> 'k worker_process) option" where
  "as_body m code p =
     (case m (wp_state p) of
        None \<Rightarrow> None
      | Some (Inl e, s) \<Rightarrow> Some (e, p\<lparr> wp_state := s \<rparr>)
      | Some (Inr _, s) \<Rightarrow> Some (ProcExit code, p\<lparr> wp_state := s \<rparr>))"

definition apply_process ::
  "'k apply_env \<Rightarrow> bool \<Rightarrow> node_catalog \<Rightarrow> oid result \<Rightarrow> (string \<Rightarrow> string) \<Rightarrow> turn list \<Rightarrow> nat \<Rightarrow> timestamptz
     \<Rightarrow> 'k worker_process \<Rightarrow> (pg_error \<times> 'k worker_process) option" where
  "apply_process E sync_commit cat queue_oid quote_identifier turns pid now =
     process_life pid (my_slot_no E) now wp_ctx put_wp_ctx (\<lambda>p.
       as_body (pglogical_apply_main E cat queue_oid quote_identifier turns) 0
         (p\<lparr> wp_settings := wp_settings p @ replay_settings sync_commit \<rparr>))"

text \<open>The sync worker: after the table's own synchronization it catches up with the code of the apply worker.\<close>

definition sync_body :: "'k apply_env \<Rightarrow> node_catalog \<Rightarrow> turn list \<Rightarrow> ('k, unit) apply_m" where
  "sync_body E cat turns =
     sbind (lift_sync StartTransactionCommand) (\<lambda>_.
     sbind (\<lambda>s. slift (get_subscription (w_subid (me E s)) cat) s) (\<lambda>subscr.
     sbind (lift_sync CommitTransactionCommand) (\<lambda>_.
     sbind (sget (\<lambda>s. quote_qualified_identifier (senv E) (w_nspname (me E s)) (w_relname (me E s)))) (\<lambda>tablename.
     sbind (lift_sync (pglogical_sync_main (senv E) (my_slot_no E) subscr)) (\<lambda>_.
     apply_work (E\<lparr> my_sub := subscr\<lparr> sub_slot_name := table_slot_name (senv E) (sub_slot_name subscr) tablename \<rparr>,
                    apply_delay := 0, QueueRelid := InvalidOid \<rparr>) turns)))))"

definition sync_process ::
  "'k apply_env \<Rightarrow> bool \<Rightarrow> node_catalog \<Rightarrow> turn list \<Rightarrow> nat \<Rightarrow> timestamptz
     \<Rightarrow> 'k worker_process \<Rightarrow> (pg_error \<times> 'k worker_process) option" where
  "sync_process E sync_commit cat turns pid now =
     process_life pid (my_slot_no E) now wp_ctx put_wp_ctx (\<lambda>p.
       as_body (sync_body E cat turns) 1 (p\<lparr> wp_settings := wp_settings p @ replay_settings sync_commit \<rparr>))"

definition manager_process ::
  "'j manager_env \<Rightarrow> nat \<Rightarrow> nat \<Rightarrow> timestamptz \<Rightarrow> manager_state \<Rightarrow> (pg_error \<times> manager_state) option" where
  "manager_process E pid slot now =
     process_life pid slot now m_ctx (\<lambda>ctx s. s\<lparr> m_ctx := ctx \<rparr>) (pglogical_manager_main E)"

text \<open>The timer and the waits of a manager are within their bounds.\<close>

definition waits_ok :: "manager_state \<Rightarrow> bool" where
  "waits_ok s \<longleftrightarrow> MIN_SLEEP \<le> m_timer s \<and> m_timer s \<le> MAX_SLEEP \<and> (\<forall>t \<in> set (m_waits s). MIN_SLEEP \<le> t \<and> t \<le> MAX_SLEEP)"

text \<open>A look at which the wait for a starting worker, or for the status of a table, ends.\<close>

definition startup_ends :: "nat \<Rightarrow> startup_look \<Rightarrow> bool" where
  "startup_ends slot k \<longleftrightarrow> lk_sigterm k \<or> lk_postmaster_death k \<or> lk_status k = BGWH_STOPPED \<or>
     (lk_status k = BGWH_STARTED \<and> pglogical_worker_running (Some (workers (lk_ctx k) ! slot)))"

definition status_wait_ends :: "oid \<Rightarrow> oid \<Rightarrow> string \<Rightarrow> string \<Rightarrow> char \<Rightarrow> status_look \<Rightarrow> bool" where
  "status_wait_ends mydb subid nspname rname desired k \<longleftrightarrow> sl_sigterm k \<or> sl_postmaster_death k \<or>
     pglogical_sync_find mydb subid nspname rname (sl_ctx k) = None \<or>
     (case List.find (is_table_row subid nspname rname) (sl_rows k) of None \<Rightarrow> True | Some sync \<Rightarrow> sync_status sync = desired)"

section \<open>What holds of them\<close>

text \<open>
  The two waits for other processes return when some look ends them: a worker that was registered starts or stops, a table gets the
  status that is waited for or loses its row or its worker, or the waiting process is told to stop.
\<close>

theorem worker_startup_returns:
  assumes "\<And>ctx. startup_ends slot (look B N ctx)"
  shows "\<exists>r. wait_for_worker_startup B slot ctx = Some r"
proof -
  have "\<exists>r. startup_loop B slot gen n ctx = Some r" if "n \<le> N" for gen n ctx
    using that
  proof (induction "N - n" arbitrary: n ctx)
    case 0
    then have "n = N" by simp
    then show ?case using assms [of ctx] by (subst startup_loop.simps) (auto simp: Let_def startup_ends_def)
  next
    case (Suc k)
    have "\<exists>r. startup_loop B slot gen (n + 1) c = Some r" for c using Suc by (intro Suc(1)) auto
    then show ?case by (subst startup_loop.simps) (auto simp: Let_def)
  qed
  then show ?thesis by (simp add: wait_for_worker_startup_def)
qed

theorem status_wait_returns:
  assumes "\<And>rows. status_wait_ends mydb subid nspname rname desired (looks N rows)" "n \<le> N"
  shows "\<exists>r. wait_for_sync_status_change looks mydb subid nspname rname desired n rows = Some r"
  using assms(2)
proof (induction "N - n" arbitrary: n rows)
  case 0
  then have "n = N" by simp
  then show ?case using assms(1) [of rows]
    by (subst wait_for_sync_status_change.simps) (auto simp: Let_def status_wait_ends_def split: option.splits)
next
  case (Suc k)
  have "\<exists>r. wait_for_sync_status_change looks mydb subid nspname rname desired (n + 1) c = Some r" for c using Suc by (intro Suc(1)) auto
  then show ?case by (subst wait_for_sync_status_change.simps) (auto simp: Let_def split: option.splits)
qed


text \<open>
  After the start of the server every slot is empty and there is one for every worker process the server allows, whatever hooks were
  installed before; without preloading nothing is installed.
\<close>

theorem server_starts_with_empty_slots:
  assumes "PG_init P E standard pm = Inr pm'" "\<not> IsBinaryUpgrade P"
    "\<And>prev m. shmem_startup_hook pm = Some prev \<Longrightarrow> snd (prev (m, None)) = None"
  shows "\<exists>hook ctx. shmem_startup_hook pm' = Some hook \<and> snd (hook (m, None)) = Some ctx \<and>
    length (workers ctx) = max_worker_processes P \<and> (\<forall>w \<in> set (workers ctx). worker_type w = PGLOGICAL_WORKER_NONE \<and> proc w = None) \<and>
    worker_shmem_size P \<in> set (addin_shmem pm') \<and> process_shared_preload_libraries_in_progress P"
proof -
  have i: "process_shared_preload_libraries_in_progress P" using assms(1) by (auto simp: PG_init_def split: if_splits)
  with assms(1,2) have pm': "shmem_startup_hook pm' = shmem_startup_hook (pglogical_worker_shmem_init P pm)"
    "addin_shmem pm' = addin_shmem pm @ [worker_shmem_size P]"
    by (auto simp: PG_init_def Let_def pglogical_worker_shmem_init_def)
  show ?thesis
    unfolding pm' using i assms(3)
    by (auto simp: pglogical_worker_shmem_init_def pglogical_worker_shmem_startup_def memset_worker_def case_prod_unfold Let_def
        split: option.splits)
qed

lemma manager_turn_waits:
  assumes "manager_turn S B mydb now cat (t, db, q, ctx) = Some (Inr (w, t', db', q', ctx'))" "MIN_SLEEP \<le> t" "t \<le> MAX_SLEEP"
  shows "MIN_SLEEP \<le> t' \<and> t' \<le> MAX_SLEEP \<and> MIN_SLEEP \<le> w \<and> w \<le> MAX_SLEEP"
proof -
  obtain b where "t' = next_sleep_timer b t" "w = t' \<or> w = MIN_SLEEP"
    using assms(1) by (auto simp: manager_turn_def Let_def split: sum.splits option.splits prod.splits if_splits)
  with next_sleep_bounds [OF assms(2,3)] show ?thesis by force
qed

lemma manager_loop_waits: "manager_loop E n s = Some y \<Longrightarrow> waits_ok s \<Longrightarrow> waits_ok (snd y)"
proof (induction rule: manager_loop.raw_induct [rotated, consumes 1])
  case (1 loop E n s y)
  let ?turn = "manager_turn (mg_seq E n) (mg_bgw E n) (mg_mydb E) (mg_now E n) (m_cat s) (m_timer s, m_db s, m_queue s, m_ctx s)"
  show ?case
  proof (cases "mg_sigterm E n \<or> (\<forall>w t db q ctx. ?turn \<noteq> Some (Inr (w, t, db, q, ctx)))")
    case True
    then show ?thesis using 1(2,3) by (auto simp: waits_ok_def split: option.splits sum.splits prod.splits if_splits)
  next
    case False
    then obtain w t db q ctx where t: "?turn = Some (Inr (w, t, db, q, ctx))" by blast
    let ?s = "manager_wait E n (s\<lparr> m_timer := t, m_db := db, m_queue := q, m_ctx := ctx, m_waits := m_waits s @ [w] \<rparr>)"
    have ok: "waits_ok ?s" using manager_turn_waits [OF t] 1(3) by (auto simp: waits_ok_def manager_wait_def)
    then show ?thesis using 1(1) [of E "n + 1" ?s y] 1(2) False t by (auto simp: Let_def split: if_splits option.splits)
  qed
qed

text \<open>The manager never waits less than five seconds nor more than three minutes between two turns.\<close>

theorem manager_waits_bounded:
  assumes "pglogical_manager_main E s = Some (e, s')" "m_waits s = []" "t \<in> set (m_waits s')"
  shows "MIN_SLEEP \<le> t \<and> t \<le> MAX_SLEEP"
proof -
  have "m_waits s' = [] \<or> (\<exists>ext. manager_loop E 0 (s\<lparr> m_extension := ext, m_timer := INITIAL_SLEEP \<rparr>) = Some (e, s'))"
    using assms(1,2) by (auto simp: pglogical_manager_main_def split: option.splits sum.splits)
  then show ?thesis
  proof
    assume "\<exists>ext. manager_loop E 0 (s\<lparr> m_extension := ext, m_timer := INITIAL_SLEEP \<rparr>) = Some (e, s')"
    then obtain ext where l: "manager_loop E 0 (s\<lparr> m_extension := ext, m_timer := INITIAL_SLEEP \<rparr>) = Some (e, s')" by blast
    have "waits_ok s'" using manager_loop_waits [OF l] assms(2) by (simp add: waits_ok_def)
    with assms(3) show ?thesis by (simp add: waits_ok_def)
  qed (use assms(3) in simp)
qed

text \<open>A manager that is asked to end does so at its next turn, provided its turns return.\<close>

theorem manager_ends_on_sigterm:
  assumes "mg_sigterm E N"
    "\<And>n timer cat db q ctx. n < N \<Longrightarrow> manager_turn (mg_seq E n) (mg_bgw E n) (mg_mydb E) (mg_now E n) cat (timer, db, q, ctx) \<noteq> None"
  shows "\<exists>e s'. pglogical_manager_main E s = Some (e, s')"
proof -
  have "n \<le> N \<Longrightarrow> \<exists>y. manager_loop E n s = Some y" for n s
  proof (induction "N - n" arbitrary: n s)
    case 0 then show ?case using assms(1) by (simp add: manager_loop.simps)
  next
    case (Suc k)
    then have IH: "\<exists>e u. manager_loop E (Suc n) t = Some (e, u)" for t using Suc(1) [of "Suc n" t] by auto
    from Suc(2) have "n < N" by simp
    from assms(2) [OF this, of "m_cat s" "m_timer s" "m_db s" "m_queue s" "m_ctx s"] show ?case
      by (subst manager_loop.simps) (auto simp: Let_def IH split: option.splits sum.splits prod.splits)
  qed
  from this [of 0] show ?thesis by (auto simp: pglogical_manager_main_def split: option.splits sum.splits)
qed

text \<open>
  However a worker process ends, its slot has no process afterwards; the slot is free after a normal exit and marked as crashed otherwise.  Here
  the process runs any body that keeps the slot, such as those of the manager and of the apply and sync workers.
\<close>

theorem process_leaves_slot:
  assumes "process_life pid slot now get_ctx put_ctx body s = Some (e, s')" "exit_code e = Some code"
    and laws: "\<And>c t. get_ctx (put_ctx c t) = c"
    and keeps: "\<And>t e' t'. body t = Some (e', t') \<Longrightarrow> length (workers (get_ctx t')) = length (workers (get_ctx t))"
    and "slot < length (workers (get_ctx s))"
  shows "proc (workers (get_ctx s') ! slot) = None \<and>
    (if code = 0 then worker_type (workers (get_ctx s') ! slot) = PGLOGICAL_WORKER_NONE \<and> dboid (workers (get_ctx s') ! slot) = InvalidOid
     else crashed_at (workers (get_ctx s') ! slot) = now)"
proof -
  obtain my ctx where a: "pglogical_worker_attach pid slot (get_ctx s) = (my, ctx)" by fastforce
  then have my: "my_slot my = slot" "length (workers ctx) = length (workers (get_ctx s))"
    by (auto simp: pglogical_worker_attach_def Let_def set_worker_def)
  obtain t where b: "body (put_ctx ctx s) = Some (e, t)"
    and s': "s' = put_ctx (snd (pglogical_worker_on_exit code (Some my) now (get_ctx t))) t"
    using assms(1,2) a by (auto simp: process_life_def split: option.splits)
  have "slot < length (workers (get_ctx t))" using keeps [OF b] laws my assms(5) by simp
  then show ?thesis
    unfolding s' laws by (auto simp: pglogical_worker_on_exit_def pglogical_worker_detach_def my Let_def set_worker_def)
qed

text \<open>
  A manager that failed is started again: the callback tells the supervisor, whose next turn registers a manager of that database in a free
  slot, as the crashed slot no longer runs.
\<close>

theorem failed_manager_restarted:
  assumes "worker_type (workers ctx ! my_slot my) = PGLOGICAL_WORKER_MANAGER" "my_slot my < length (workers ctx)" "code \<noteq> 0"
    and ctx': "ctx' = snd (pglogical_worker_on_exit code (Some my) now ctx)"
    and "\<not> pglogical_worker_running (worker_at (pglogical_manager_find db ctx') ctx')"
    and empty: "find_empty_worker_slot ctx' = Some slot"
  shows "\<exists>ctx''. supervisor_turn (\<lambda>_. starts_at_once pid slot) [(db, True)] ctx' = Some (Inr ctx'') \<and>
    worker_type (workers ctx'' ! slot) = PGLOGICAL_WORKER_MANAGER \<and> dboid (workers ctx'' ! slot) = db \<and>
    pglogical_worker_running (Some (workers ctx'' ! slot)) \<and> \<not> subscriptions_changed ctx''"
proof -
  let ?c = "ctx'\<lparr> subscriptions_changed := False \<rparr>"
  have told: "subscriptions_changed ctx'"
    using assms(1-3) ctx' by (simp add: pglogical_worker_on_exit_def pglogical_worker_detach_def Let_def set_worker_def)
  have e: "find_empty_worker_slot ?c = Some slot" using empty by (simp add: find_empty_worker_slot_def)
  have len: "slot < length (workers ctx')" using find_empty_Some [OF empty] by simp
  have r: "\<not> pglogical_worker_running (worker_at (pglogical_manager_find db ?c) ?c)"
    using assms(5) by (simp add: pglogical_manager_find_def worker_at_def)
  show ?thesis
    using told r len
    by (simp add: supervisor_turn_def register_at_once [OF e] Let_def) (simp add: set_worker_def pglogical_worker_running_def memset_worker_def)
qed

end
