(* ===== verification/Pgl_Origin.thy ===== *)
theory Pgl_Origin
  imports Pgl_Catalog Pgl_Monad Pgl_Types
begin

text \<open>
  Replication origins on PostgreSQL 9.4, \<open>src/compat94/pglogical_compat.c\<close>: a table of the extension \<open>pglogical_origin\<close> keeps the position
  up to which each provider's changes were applied, and a transaction callback moves it along with every commit.  The rows are
  those a dirty snapshot shows while no other transaction has uncommitted changes in the table.  Namespaces, interrupts and the flushing of the
  log are the backend's and parameters.
\<close>

section \<open>State\<close>

record ReplicationOriginTuple =
  roident :: oid
  roname :: string
  roremote_lsn :: xlogrecptr

text \<open>The process that acquired the state is never set.\<close>

record ReplicationState =
  rep_roident :: "16 word"
  rep_remote_lsn :: xlogrecptr
  rep_local_lsn :: xlogrecptr

text \<open>
  The table, the static variables of the process with the oids found before, how often the transaction callback is registered, and the
  positions up to which the log was flushed.
\<close>

record origin_state =
  replication_origin :: "ReplicationOriginTuple list"
  ReplicationOriginRelationId :: oid
  ReplicationOriginIdentIndex :: oid
  ReplicationOriginNameIndex :: oid
  session_replication_state :: "ReplicationState option"
  XactLastCommitEnd :: xlogrecptr
  replorigin_session_origin :: "16 word"
  replorigin_session_origin_lsn :: xlogrecptr
  xact_callbacks :: nat
  flushed_to :: "xlogrecptr list"

record origin_env =
  oe_namespace_oid :: "string \<Rightarrow> oid"
  oe_relname_relid :: "string \<Rightarrow> oid \<Rightarrow> oid"
  oe_interrupt :: "nat \<Rightarrow> pg_error option"

type_synonym 'a origin_m = "(origin_state, 'a) st_m"

abbreviation DoNotReplicateId :: "16 word" where
  "DoNotReplicateId \<equiv> - 1"

abbreviation InvalidXLogRecPtr :: xlogrecptr where
  "InvalidXLogRecPtr \<equiv> 0"

abbreviation UINT16_MAX :: nat where
  "UINT16_MAX \<equiv> 65535"

definition origin_conflicts :: "ReplicationOriginTuple \<Rightarrow> ReplicationOriginTuple \<Rightarrow> bool" where
  "origin_conflicts x y \<longleftrightarrow> roident x = roident y \<or> roname x = roname y"

definition put_origins :: "ReplicationOriginTuple list \<Rightarrow> origin_state \<Rightarrow> origin_state" where
  "put_origins t s = s\<lparr> replication_origin := t \<rparr>"

section \<open>Finding the table\<close>

definition ensure_replication_origin_relid :: "origin_env \<Rightarrow> unit origin_m" where
  "ensure_replication_origin_relid E s =
     (if ReplicationOriginRelationId s = InvalidOid
      then let schema_oid = oe_namespace_oid E ''pglogical_origin'' in
           if schema_oid = InvalidOid
           then Some (ereport ERRCODE_OBJECT_NOT_IN_PREREQUISITE_STATE ''pglogical_origin extension not found'', s)
           else Some (Inr (), s\<lparr> ReplicationOriginRelationId := oe_relname_relid E ''replication_origin'' schema_oid,
                  ReplicationOriginIdentIndex := oe_relname_relid E ''replication_origin_roident_index'' schema_oid,
                  ReplicationOriginNameIndex := oe_relname_relid E ''replication_origin_roname_index'' schema_oid \<rparr>)
      else Some (Inr (), s))"

text \<open>Opening the table and one of its indexes: the backend refuses an oid that is not valid.\<close>

definition open_origins :: "(origin_state \<Rightarrow> oid) \<Rightarrow> unit origin_m" where
  "open_origins index s =
     (if ReplicationOriginRelationId s = InvalidOid \<or> index s = InvalidOid
      then Some (elog ''could not open relation with OID %u'', s) else Some (Inr (), s))"

definition scan_origins :: "origin_env \<Rightarrow> (origin_state \<Rightarrow> oid) \<Rightarrow> (ReplicationOriginTuple \<Rightarrow> bool) \<Rightarrow> ReplicationOriginTuple option origin_m" where
  "scan_origins E index P =
     sthen (ensure_replication_origin_relid E) (sthen (open_origins index)
       (sget (\<lambda>s. List.find P (replication_origin s))))"

section \<open>Origins\<close>

text \<open>The search for the first unused id.\<close>

function free_roident :: "origin_env \<Rightarrow> ReplicationOriginTuple list \<Rightarrow> nat \<Rightarrow> oid option result" where
  "free_roident E rows i =
     (if i < UINT16_MAX
      then case oe_interrupt E i of
             Some e \<Rightarrow> Inl e
           | None \<Rightarrow> if List.find (\<lambda>r. roident r = of_nat i) rows \<noteq> None then free_roident E rows (i + 1)
                     else Inr (Some (of_nat i))
      else Inr None)"
  by pat_completeness auto

termination
  by (relation "measure (\<lambda>(E, rows, i). UINT16_MAX - i)") auto

definition replorigin_create :: "origin_env \<Rightarrow> string \<Rightarrow> (16 word) origin_m" where
  "replorigin_create E name =
     sthen (ensure_replication_origin_relid E) (sthen (open_origins ReplicationOriginIdentIndex)
     (sbind (part_read replication_origin (\<lambda>rows. free_roident E rows 1)) (\<lambda>free.
      case free of
        None \<Rightarrow> sfail (Ereport ERRCODE_PROGRAM_LIMIT_EXCEEDED ''could not find free replication origin OID'')
      | Some i \<Rightarrow>
          sthen (part_write replication_origin put_origins
                   (catalog_insert origin_conflicts \<lparr> roident = i, roname = name, roremote_lsn = InvalidXLogRecPtr \<rparr>))
            (sret (ucast i)))))"

definition replorigin_drop :: "origin_env \<Rightarrow> 16 word \<Rightarrow> unit origin_m" where
  "replorigin_drop E node =
     sbind (scan_origins E ReplicationOriginIdentIndex (\<lambda>r. roident r = ucast node)) (\<lambda>tuple.
     swhen (tuple \<noteq> None)
       (smodify (\<lambda>s. put_origins (delete_first (\<lambda>r. roident r = ucast node) (replication_origin s)) s)))"

definition replorigin_by_name :: "origin_env \<Rightarrow> string \<Rightarrow> bool \<Rightarrow> (16 word) origin_m" where
  "replorigin_by_name E name missing_ok =
     sbind (scan_origins E ReplicationOriginNameIndex (\<lambda>r. roname r = name)) (\<lambda>tuple.
     case tuple of
       Some r \<Rightarrow> sret (ucast (roident r))
     | None \<Rightarrow> if missing_ok then sret InvalidRepOriginId
               else selog ''cache lookup failed for replication origin named %s'')"

section \<open>The origin of the session\<close>

definition replorigin_session_setup :: "origin_env \<Rightarrow> 16 word \<Rightarrow> unit origin_m" where
  "replorigin_session_setup E node =
     sbind (sget session_replication_state) (\<lambda>state.
     if state \<noteq> None
     then sfail (Ereport ERRCODE_OBJECT_NOT_IN_PREREQUISITE_STATE ''cannot setup replication origin when one is already setup'')
     else sbind (scan_origins E ReplicationOriginIdentIndex (\<lambda>r. roident r = ucast node)) (\<lambda>tuple.
          smodify (\<lambda>s. s\<lparr>
            session_replication_state := Some \<lparr> rep_roident = node,
              rep_remote_lsn = (case tuple of Some r \<Rightarrow> roremote_lsn r | None \<Rightarrow> InvalidXLogRecPtr),
              rep_local_lsn = (case tuple of Some r \<Rightarrow> XactLastCommitEnd s | None \<Rightarrow> InvalidXLogRecPtr) \<rparr>,
            xact_callbacks := xact_callbacks s + 1 \<rparr>)))"

definition replorigin_session_reset :: "unit origin_m" where
  "replorigin_session_reset =
     sbind (sget session_replication_state) (\<lambda>state.
     if state = None
     then sfail (Ereport ERRCODE_OBJECT_NOT_IN_PREREQUISITE_STATE ''no replication origin is configured'')
     else smodify (\<lambda>s. s\<lparr> session_replication_state := None, xact_callbacks := xact_callbacks s - 1 \<rparr>))"

definition replorigin_session_get_progress :: "bool \<Rightarrow> xlogrecptr origin_m" where
  "replorigin_session_get_progress flush =
     sbind (sget session_replication_state) (\<lambda>state.
     case state of
       None \<Rightarrow> sfail NullDereference
     | Some st \<Rightarrow>
         sthen (swhen (flush \<and> rep_local_lsn st \<noteq> InvalidXLogRecPtr)
                  (smodify (\<lambda>s. s\<lparr> flushed_to := flushed_to s @ [rep_local_lsn st] \<rparr>)))
           (sret (rep_remote_lsn st)))"

text \<open>The flag that would forbid to move backward is not looked at.\<close>

definition replorigin_advance :: "origin_env \<Rightarrow> 16 word \<Rightarrow> xlogrecptr \<Rightarrow> xlogrecptr \<Rightarrow> bool \<Rightarrow> bool \<Rightarrow> unit origin_m" where
  "replorigin_advance E node remote_commit local_commit go_backward wal_log =
     (if node = DoNotReplicateId then sret ()
      else sbind (scan_origins E ReplicationOriginIdentIndex (\<lambda>r. roident r = ucast node)) (\<lambda>tuple.
           swhen (tuple \<noteq> None)
             (smodify (\<lambda>s. put_origins (update_first (\<lambda>r. roident r = ucast node)
                (\<lambda>r. r\<lparr> roremote_lsn := remote_commit \<rparr>) (replication_origin s)) s))))"

definition replorigin_session_advance :: "origin_env \<Rightarrow> xlogrecptr \<Rightarrow> xlogrecptr \<Rightarrow> unit origin_m" where
  "replorigin_session_advance E remote_commit local_commit =
     sbind (sget session_replication_state) (\<lambda>state.
     case state of
       None \<Rightarrow> sfail NullDereference
     | Some st \<Rightarrow>
         sthen (smodify (\<lambda>s. s\<lparr> session_replication_state := Some (st
                  \<lparr> rep_local_lsn := max (rep_local_lsn st) local_commit, rep_remote_lsn := max (rep_remote_lsn st) remote_commit \<rparr>) \<rparr>))
           (replorigin_advance E (rep_roident st) remote_commit local_commit False True))"

datatype XactEvent = XACT_EVENT_COMMIT | XACT_EVENT_ABORT | XACT_EVENT_PREPARE | XACT_EVENT_PRE_COMMIT | XACT_EVENT_PRE_PREPARE

definition session_origin_xact_cb :: "origin_env \<Rightarrow> XactEvent \<Rightarrow> unit origin_m" where
  "session_origin_xact_cb E event =
     sbind (sget id) (\<lambda>s.
     swhen (event = XACT_EVENT_PRE_COMMIT \<and> session_replication_state s \<noteq> None \<and>
            replorigin_session_origin s \<noteq> InvalidRepOriginId \<and> replorigin_session_origin s \<noteq> DoNotReplicateId)
       (replorigin_session_advance E (replorigin_session_origin_lsn s) (XactLastCommitEnd s)))"

section \<open>Other functions\<close>

text \<open>\<open>InitPostgres\<close> connects to the database or raises; afterwards the process must still be in its initial mode.\<close>

definition BackgroundWorkerInitializeConnectionByOid :: "bool \<Rightarrow> (oid \<Rightarrow> unit result) \<Rightarrow> bool \<Rightarrow> oid \<Rightarrow> oid \<Rightarrow> unit result" where
  "BackgroundWorkerInitializeConnectionByOid wants_connection InitPostgres IsInitProcessingMode dbid userid =
     (if \<not> wants_connection
      then ereport ERRCODE_PROGRAM_LIMIT_EXCEEDED ''database connection requirement not indicated during registration''
      else rbind (InitPostgres dbid) (\<lambda>_.
           if \<not> IsInitProcessingMode then elog ''invalid processing mode in background worker'' else Inr ()))"

definition TransactionIdGetCommitTsData :: "transaction_id \<Rightarrow> (timestamptz \<times> 16 word) result" where
  "TransactionIdGetCommitTsData xact = elog ''TransactionIdGetCommitTsData is not implemented yet''"

definition strlist_to_textarray :: "string list \<Rightarrow> string option list" where
  "strlist_to_textarray names = map Some names"

section \<open>Commits and restarts\<close>

text \<open>
  A commit of the apply worker: the position of the remote commit is set, the registered callbacks run before the commit, then the end of the
  commit record is known.  A new process starts with the table alone.
\<close>

definition origin_commit :: "origin_env \<Rightarrow> xlogrecptr \<times> xlogrecptr \<Rightarrow> unit origin_m" where
  "origin_commit E commit =
     sthen (smodify (\<lambda>s. s\<lparr> replorigin_session_origin_lsn := fst commit \<rparr>))
     (sbind (sget xact_callbacks) (\<lambda>n.
      sthen (sforeach (\<lambda>_. session_origin_xact_cb E XACT_EVENT_PRE_COMMIT) (replicate n ()))
        (smodify (\<lambda>s. s\<lparr> XactLastCommitEnd := snd commit \<rparr>))))"

definition new_process :: "origin_state \<Rightarrow> origin_state" where
  "new_process s = \<lparr> replication_origin = replication_origin s, ReplicationOriginRelationId = InvalidOid,
     ReplicationOriginIdentIndex = InvalidOid, ReplicationOriginNameIndex = InvalidOid, session_replication_state = None,
     XactLastCommitEnd = InvalidXLogRecPtr, replorigin_session_origin = InvalidRepOriginId,
     replorigin_session_origin_lsn = InvalidXLogRecPtr, xact_callbacks = 0, flushed_to = [] \<rparr>"

definition origins_ok :: "origin_state \<Rightarrow> bool" where
  "origins_ok s \<longleftrightarrow> rows_ok origin_conflicts (replication_origin s) \<and>
     (\<forall>r \<in> set (replication_origin s). 0 < roident r \<and> roident r < 65535)"

definition extension_there :: "origin_env \<Rightarrow> bool" where
  "extension_there E \<longleftrightarrow> (let schema = oe_namespace_oid E ''pglogical_origin'' in schema \<noteq> InvalidOid \<and>
     list_all (\<lambda>rel. oe_relname_relid E rel schema \<noteq> InvalidOid)
       [''replication_origin'', ''replication_origin_roident_index'', ''replication_origin_roname_index''])"

text \<open>The oids are the ones found, or not looked up yet.\<close>

definition oids_ok :: "origin_state \<Rightarrow> bool" where
  "oids_ok s \<longleftrightarrow> ReplicationOriginRelationId s = InvalidOid \<or>
     ReplicationOriginIdentIndex s \<noteq> InvalidOid \<and> ReplicationOriginNameIndex s \<noteq> InvalidOid"

text \<open>A session that applies changes of a node: it is set up once, for an origin that exists.\<close>

definition applying :: "16 word \<Rightarrow> origin_state \<Rightarrow> bool" where
  "applying node s \<longleftrightarrow> (\<exists>st. session_replication_state s = Some st \<and> rep_roident st = node) \<and> xact_callbacks s = 1 \<and>
     replorigin_session_origin s = node \<and> ucast node \<in> roident ` set (replication_origin s)"

text \<open>Two states that differ in the oids only.\<close>

definition same_but_oids :: "origin_state \<Rightarrow> origin_state \<Rightarrow> bool" where
  "same_but_oids s s' \<longleftrightarrow> oids_ok s' \<and> (\<exists>a b c. s' = s\<lparr> ReplicationOriginRelationId := a, ReplicationOriginIdentIndex := b,
     ReplicationOriginNameIndex := c \<rparr>)"

text \<open>An example: the extension is installed, and nothing interrupts.\<close>

definition ex_oenv :: origin_env where
  "ex_oenv = \<lparr> oe_namespace_oid = (\<lambda>_. 2201), oe_relname_relid = (\<lambda>n s. of_nat (16000 + length n)), oe_interrupt = (\<lambda>_. None) \<rparr>"

definition ex_origins :: origin_state where
  "ex_origins = \<lparr> replication_origin = [\<lparr> roident = 1, roname = ''pgl_a'', roremote_lsn = 100 \<rparr>],
     ReplicationOriginRelationId = InvalidOid, ReplicationOriginIdentIndex = InvalidOid, ReplicationOriginNameIndex = InvalidOid,
     session_replication_state = Some \<lparr> rep_roident = 1, rep_remote_lsn = 100, rep_local_lsn = 0 \<rparr>, XactLastCommitEnd = 0,
     replorigin_session_origin = 1, replorigin_session_origin_lsn = 0, xact_callbacks = 1, flushed_to = [] \<rparr>"

section \<open>Lemmas\<close>

declare free_roident.simps [simp del]

interpretation origin_by_id: unique_table origin_conflicts roident
  by unfold_locales (simp add: origin_conflicts_def)

interpretation origin_by_name: unique_table origin_conflicts roname
  by unfold_locales (simp add: origin_conflicts_def)

lemma ensure_run:
  assumes "extension_there E" "oids_ok s"
  obtains a b c where "ensure_replication_origin_relid E s = Some (Inr (), s\<lparr> ReplicationOriginRelationId := a,
      ReplicationOriginIdentIndex := b, ReplicationOriginNameIndex := c \<rparr>)"
    "a \<noteq> InvalidOid" "b \<noteq> InvalidOid" "c \<noteq> InvalidOid"
proof (cases "ReplicationOriginRelationId s = InvalidOid")
  case True
  then show ?thesis
    using that assms(1) by (auto simp: ensure_replication_origin_relid_def extension_there_def Let_def)
next
  case False
  moreover have "s = s\<lparr> ReplicationOriginRelationId := ReplicationOriginRelationId s,
      ReplicationOriginIdentIndex := ReplicationOriginIdentIndex s, ReplicationOriginNameIndex := ReplicationOriginNameIndex s \<rparr>"
    by simp
  ultimately show ?thesis
    using that [of "ReplicationOriginNameIndex s" "ReplicationOriginIdentIndex s" "ReplicationOriginRelationId s"] assms(2)
    by (simp add: ensure_replication_origin_relid_def oids_ok_def)
qed

lemma scan_run:
  assumes "extension_there E" "oids_ok s" "index = ReplicationOriginIdentIndex \<or> index = ReplicationOriginNameIndex"
  obtains s' where "scan_origins E index P s = Some (Inr (List.find P (replication_origin s)), s')" "same_but_oids s s'"
    "ensure_replication_origin_relid E s = Some (Inr (), s')" "open_origins index s' = Some (Inr (), s')"
proof -
  obtain a b c where e: "ensure_replication_origin_relid E s = Some (Inr (), s\<lparr> ReplicationOriginRelationId := a,
      ReplicationOriginIdentIndex := b, ReplicationOriginNameIndex := c \<rparr>)" (is "_ = Some (_, ?s)")
    "a \<noteq> InvalidOid" "b \<noteq> InvalidOid" "c \<noteq> InvalidOid"
    using assms(1,2) by (rule ensure_run)
  have "open_origins index ?s = Some (Inr (), ?s)"
    using assms(3) e(2-4) by (auto simp: open_origins_def)
  moreover have "same_but_oids s ?s"
    using e(3,4) by (auto simp: same_but_oids_def oids_ok_def)
  ultimately show ?thesis
    using that [of ?s] e(1) by (simp add: scan_origins_def sbind_def sget_def)
qed

lemma find_node:
  assumes "rows_ok origin_conflicts rows" "r \<in> set rows"
  shows "List.find (\<lambda>x. roident x = roident r) rows = Some r"
  using origin_by_id.lookup_in [OF assms] .

lemma update_lsn_ids:
  "roident ` set (update_first P (\<lambda>r. r\<lparr> roremote_lsn := l \<rparr>) rows) = roident ` set rows"
  by (induction rows) auto

lemma update_lsn_ok:
  "rows_ok origin_conflicts rows \<Longrightarrow> rows_ok origin_conflicts (update_first P (\<lambda>r. r\<lparr> roremote_lsn := l \<rparr>) rows)"
  by (rule rows_ok_update_first) (auto simp: origin_conflicts_def)

lemma find_updated:
  "i \<in> roident ` set rows \<Longrightarrow>
   \<exists>r. List.find (\<lambda>r. roident r = i) (update_first (\<lambda>r. roident r = i) (\<lambda>r. r\<lparr> roremote_lsn := l \<rparr>) rows) = Some r \<and> roremote_lsn r = l"
  by (induction rows) auto

text \<open>One commit: the session's positions grow, the row gets the position of the commit.\<close>

lemma commit_run:
  assumes "extension_there E" "oids_ok s" "applying node s" "session_replication_state s = Some st"
    "node \<noteq> InvalidRepOriginId" "node \<noteq> DoNotReplicateId"
  obtains s' where "origin_commit E (lsn, e) s = Some (Inr (), s')" "oids_ok s'" "applying node s'"
    "session_replication_state s' = Some (st\<lparr> rep_local_lsn := max (rep_local_lsn st) (XactLastCommitEnd s),
       rep_remote_lsn := max (rep_remote_lsn st) lsn \<rparr>)"
    "replication_origin s' = update_first (\<lambda>r. roident r = ucast node) (\<lambda>r. r\<lparr> roremote_lsn := lsn \<rparr>) (replication_origin s)"
proof -
  have st: "rep_roident st = node" "xact_callbacks s = 1" "replorigin_session_origin s = node"
    and row: "ucast node \<in> roident ` set (replication_origin s)"
    using assms(3,4) by (auto simp: applying_def)
  let ?st = "st\<lparr> rep_local_lsn := max (rep_local_lsn st) (XactLastCommitEnd s), rep_remote_lsn := max (rep_remote_lsn st) lsn \<rparr>"
  let ?s1 = "s\<lparr> replorigin_session_origin_lsn := lsn, session_replication_state := Some ?st \<rparr>"
  have "oids_ok ?s1"
    using assms(2) by (simp add: oids_ok_def)
  from scan_run [OF assms(1) this disjI1 [OF refl]]
  obtain s2 where s2: "scan_origins E ReplicationOriginIdentIndex (\<lambda>r. roident r = ucast node) ?s1 =
      Some (Inr (List.find (\<lambda>r. roident r = ucast node) (replication_origin ?s1)), s2)" "same_but_oids ?s1 s2"
    by blast
  have "List.find (\<lambda>r. roident r = ucast node) (replication_origin s) \<noteq> None"
    using row by (auto simp: find_None_iff)
  then have "origin_commit E (lsn, e) s = Some (Inr (), (put_origins (update_first (\<lambda>r. roident r = ucast node)
      (\<lambda>r. r\<lparr> roremote_lsn := lsn \<rparr>) (replication_origin s2)) s2)\<lparr> XactLastCommitEnd := e \<rparr>)"
    using s2(1) st assms(4-6)
    by (simp add: origin_commit_def sbind_simps session_origin_xact_cb_def replorigin_session_advance_def swhen_def
        replorigin_advance_def sbind_def [of "scan_origins _ _ _"] sbind_assoc smodify_def)
  then show ?thesis
    using that s2(2) row st by (auto simp: same_but_oids_def oids_ok_def put_origins_def applying_def update_lsn_ids)
qed

lemma commits_run:
  assumes "extension_there E" "node \<noteq> InvalidRepOriginId" "node \<noteq> DoNotReplicateId"
    "oids_ok s" "applying node s" "session_replication_state s = Some st" "commits \<noteq> []"
  shows "\<exists>s' st' r. sforeach (origin_commit E) commits s = Some (Inr (), s') \<and> applying node s' \<and> oids_ok s' \<and>
    session_replication_state s' = Some st' \<and> rep_remote_lsn st' = fold max (map fst commits) (rep_remote_lsn st) \<and>
    List.find (\<lambda>r. roident r = ucast node) (replication_origin s') = Some r \<and> roremote_lsn r = fst (last commits)"
  using assms(4-7)
proof (induction commits arbitrary: s st)
  case (Cons c commits)
  obtain lsn e where c: "c = (lsn, e)"
    by fastforce
  obtain s1 where s1: "origin_commit E (lsn, e) s = Some (Inr (), s1)" "oids_ok s1" "applying node s1"
    "session_replication_state s1 = Some (st\<lparr> rep_local_lsn := max (rep_local_lsn st) (XactLastCommitEnd s),
       rep_remote_lsn := max (rep_remote_lsn st) lsn \<rparr>)"
    "replication_origin s1 = update_first (\<lambda>r. roident r = ucast node) (\<lambda>r. r\<lparr> roremote_lsn := lsn \<rparr>) (replication_origin s)"
    using commit_run [OF assms(1) Cons.prems(1-3) assms(2,3)] .
  show ?case
  proof (cases "commits = []")
    case True
    have "ucast node \<in> roident ` set (replication_origin s)"
      using Cons.prems(2) by (simp add: applying_def)
    then show ?thesis
      using find_updated [of "ucast node" "replication_origin s" lsn] s1 True
      by (auto simp: c sbind_def sret_def max.commute)
  next
    case False
    then show ?thesis
      using Cons.IH [OF s1(2,3,4)] s1(1) by (auto simp: c sbind_def max.commute)
  qed
qed simp

section \<open>Properties\<close>

text \<open>
  C14.  The position of a provider survives with the data.  Whatever transactions a session applies, after each commit the stored position of
  its origin is the position of the last committed transaction: a new process that sets up the origin resumes exactly there, with nothing
  to flush.  The position the running session reports is the greatest one it has seen, so the two differ when positions go backward.
\<close>

theorem origin_resumes_after_last_commit:
  assumes "extension_there E" "node \<noteq> InvalidRepOriginId" "node \<noteq> DoNotReplicateId"
    and "oids_ok s" "applying node s" "session_replication_state s = Some st" "commits \<noteq> []"
  shows "\<exists>s' s'' s3. sforeach (origin_commit E) commits s = Some (Inr (), s') \<and>
    replorigin_session_get_progress False s' = Some (Inr (fold max (map fst commits) (rep_remote_lsn st)), s') \<and>
    replorigin_session_setup E node (new_process s') = Some (Inr (), s'') \<and>
    replorigin_session_get_progress True s'' = Some (Inr (fst (last commits)), s3) \<and> flushed_to s3 = []"
proof -
  obtain s' st' r where run: "sforeach (origin_commit E) commits s = Some (Inr (), s')"
    and st': "session_replication_state s' = Some st'" "rep_remote_lsn st' = fold max (map fst commits) (rep_remote_lsn st)"
    and r: "List.find (\<lambda>r. roident r = ucast node) (replication_origin s') = Some r" "roremote_lsn r = fst (last commits)"
    using commits_run [OF assms] by blast
  have ok: "oids_ok (new_process s')" and rows: "replication_origin (new_process s') = replication_origin s'"
    by (simp_all add: oids_ok_def new_process_def)
  from scan_run [OF assms(1) ok disjI1 [OF refl]]
  obtain t where t: "scan_origins E ReplicationOriginIdentIndex (\<lambda>r. roident r = ucast node) (new_process s') = Some (Inr (Some r), t)"
    "same_but_oids (new_process s') t"
    using r(1) rows by metis
  have "XactLastCommitEnd t = InvalidXLogRecPtr" "flushed_to t = []"
    using t(2) by (auto simp: same_but_oids_def new_process_def)
  moreover have "session_replication_state (new_process s') = None"
    by (simp add: new_process_def)
  ultimately show ?thesis
    using run st' r(2) t(1)
    by (simp add: replorigin_session_setup_def replorigin_session_get_progress_def sbind_simps sbind_def [of "scan_origins _ _ _"]
        smodify_def swhen_def sret_def)
qed

theorem origin_resumes_after_last_commit_witness:
  "\<exists>s' s'' s3. sforeach (origin_commit ex_oenv) [(200, 10), (150, 20)] ex_origins = Some (Inr (), s') \<and>
    replorigin_session_get_progress False s' = Some (Inr 200, s') \<and>
    replorigin_session_setup ex_oenv 1 (new_process s') = Some (Inr (), s'') \<and>
    replorigin_session_get_progress True s'' = Some (Inr 150, s3)"
proof -
  have "extension_there ex_oenv"
    by (simp add: extension_there_def ex_oenv_def)
  moreover have "oids_ok ex_origins" "applying 1 ex_origins"
    "session_replication_state ex_origins = Some \<lparr> rep_roident = 1, rep_remote_lsn = 100, rep_local_lsn = 0 \<rparr>"
    by (simp_all add: oids_ok_def applying_def ex_origins_def)
  moreover have "fold max (map fst [(200, 10), (150, 20)]) (100 :: xlogrecptr) = 200"
    by simp
  ultimately show ?thesis
    using origin_resumes_after_last_commit [of ex_oenv 1 ex_origins _ "[(200, 10), (150, 20)]"] by fastforce
qed

text \<open>
  Creating an origin takes the first id that is free and fails only when all are taken or the name is; afterwards the name is found, and
  dropping it undoes the creation.
\<close>

lemma free_roident_spec:
  assumes "\<And>i. oe_interrupt E i = None" "i \<le> UINT16_MAX"
  shows "\<exists>j \<ge> i. (\<forall>k \<in> {i ..< j}. of_nat k \<in> roident ` set rows) \<and>
    (if j < UINT16_MAX then of_nat j \<notin> roident ` set rows \<and> free_roident E rows i = Inr (Some (of_nat j))
     else j = UINT16_MAX \<and> free_roident E rows i = Inr None)"
  using assms(2)
proof (induction "UINT16_MAX - i" arbitrary: i)
  case 0
  then show ?case
    by (subst (1 2) free_roident.simps) auto
next
  case (Suc n)
  show ?case
  proof (cases "of_nat i \<in> roident ` set rows")
    case True
    then have "List.find (\<lambda>r. roident r = of_nat i) rows \<noteq> None"
      by (auto simp: find_None_iff)
    then have step: "free_roident E rows i = free_roident E rows (i + 1)"
      using Suc.hyps(2) assms(1) by (subst free_roident.simps) auto
    have "n = UINT16_MAX - (i + 1)" "i + 1 \<le> UINT16_MAX"
      using Suc.hyps(2) by auto
    from Suc.hyps(1) [OF this] obtain j where j: "i + 1 \<le> j" "\<forall>k \<in> {i + 1 ..< j}. of_nat k \<in> roident ` set rows"
      "if j < UINT16_MAX then of_nat j \<notin> roident ` set rows \<and> free_roident E rows (i + 1) = Inr (Some (of_nat j))
       else j = UINT16_MAX \<and> free_roident E rows (i + 1) = Inr None"
      by blast
    have "\<forall>k \<in> {i ..< j}. of_nat k \<in> roident ` set rows"
      using j(2) True by (metis Suc_eq_plus1 Suc_leI atLeastLessThan_iff le_neq_implies_less)
    then show ?thesis
      using j step by (intro exI [of _ j]) auto
  next
    case False
    then have "List.find (\<lambda>r. roident r = of_nat i) rows = None"
      by (auto simp: find_None_iff image_iff)
    then have "free_roident E rows i = Inr (Some (of_nat i))"
      using Suc.hyps(2) assms(1) by (subst free_roident.simps) auto
    then show ?thesis
      using False Suc.hyps(2) by (intro exI [of _ i]) auto
  qed
qed

lemma same_rows: "same_but_oids s s' \<Longrightarrow> replication_origin s' = replication_origin s \<and> oids_ok s'"
  by (auto simp: same_but_oids_def)

lemma ucast_16_32: "n < UINT16_MAX \<Longrightarrow> ucast (ucast (of_nat n :: 32 word) :: 16 word) = (of_nat n :: 32 word)"
  by (simp add: word_eq_iff_unsigned unsigned_ucast_eq unsigned_of_nat take_bit_nat_eq_self)

lemma node_ids_apart:
  assumes "0 < j" "j < UINT16_MAX"
  shows "(ucast (of_nat j :: oid) :: 16 word) \<noteq> InvalidRepOriginId" "(ucast (of_nat j :: oid) :: 16 word) \<noteq> DoNotReplicateId"
proof -
  have "unat (ucast (of_nat j :: oid) :: 16 word) = j"
    using assms(2) by (simp add: unsigned_ucast_eq unsigned_of_nat take_bit_nat_eq_self)
  moreover have "unat DoNotReplicateId = 65535"
    by (simp add: unsigned_minus_1_eq_mask mask_eq_exp_minus_1)
  ultimately show "(ucast (of_nat j :: oid) :: 16 word) \<noteq> InvalidRepOriginId" "(ucast (of_nat j :: oid) :: 16 word) \<noteq> DoNotReplicateId"
    using assms by (metis neq0_conv unsigned_0, metis less_irrefl)
qed

lemma delete_first_last: "\<forall>x \<in> set xs. \<not> P x \<Longrightarrow> P y \<Longrightarrow> delete_first P (xs @ [y]) = xs"
  by (induction xs) auto

theorem origin_create_lookup_drop:
  assumes "extension_there E" "oids_ok s" "rows_ok origin_conflicts (replication_origin s)"
    and "\<And>i. oe_interrupt E i = None" "name \<notin> roname ` set (replication_origin s)"
    and "\<exists>i \<in> {1 ..< UINT16_MAX}. of_nat i \<notin> roident ` set (replication_origin s)"
  shows "\<exists>node s1 s2 s3. replorigin_create E name s = Some (Inr node, s1) \<and> node \<noteq> InvalidRepOriginId \<and> node \<noteq> DoNotReplicateId \<and>
    rows_ok origin_conflicts (replication_origin s1) \<and> replorigin_by_name E name False s1 = Some (Inr node, s2) \<and>
    replorigin_drop E node s2 = Some (Inr (), s3) \<and> replication_origin s3 = replication_origin s"
proof -
  let ?rows = "replication_origin s"
  obtain j where j: "1 \<le> j" "j < UINT16_MAX" "of_nat j \<notin> roident ` set ?rows" "free_roident E ?rows 1 = Inr (Some (of_nat j))"
    using free_roident_spec [OF assms(4), of 1 ?rows] assms(6) by (auto split: if_splits)
  let ?node = "ucast (of_nat j :: oid) :: 16 word" and ?new = "\<lparr> roident = of_nat j, roname = name, roremote_lsn = InvalidXLogRecPtr \<rparr>"
  have id: "ucast ?node = (of_nat j :: oid)"
    using ucast_16_32 [OF j(2)] .
  have ins: "catalog_insert origin_conflicts ?new ?rows = Inr (?rows @ [?new])"
    using j(3) assms(5) by (auto simp: catalog_insert_def list_ex_iff origin_conflicts_def image_iff)
  obtain t where t: "ensure_replication_origin_relid E s = Some (Inr (), t)" "open_origins ReplicationOriginIdentIndex t = Some (Inr (), t)"
    "same_but_oids s t"
    using scan_run [OF assms(1,2) disjI1 [OF refl]] by blast
  define s1 where "s1 = put_origins (?rows @ [?new]) t"
  have create: "replorigin_create E name s = Some (Inr ?node, s1)"
    using t same_rows [OF t(3)] j(4) ins
    by (simp add: replorigin_create_def sbind_def [of "ensure_replication_origin_relid _"] sbind_def [of "open_origins _"]
        sbind_read sbind_write sret_def s1_def)
  have ok1: "oids_ok s1" and rows1: "replication_origin s1 = ?rows @ [?new]"
    using same_rows [OF t(3)] by (simp_all add: s1_def put_origins_def oids_ok_def)
  have fresh: "\<forall>x \<in> set ?rows. roident x \<noteq> of_nat j"
    using j(3) by force
  have "List.find (\<lambda>r. roname r = name) (?rows @ [?new]) = Some ?new"
    using assms(5) by (auto simp: find_append find_None_iff image_iff split: option.splits dest!: find_Some_in)
  then obtain s2 where s2: "scan_origins E ReplicationOriginNameIndex (\<lambda>r. roname r = name) s1 = Some (Inr (Some ?new), s2)" "same_but_oids s1 s2"
    using scan_run [OF assms(1) ok1 disjI2 [OF refl]] rows1 by metis
  have "List.find (\<lambda>r. roident r = of_nat j) (?rows @ [?new]) = Some ?new"
    using j(3) by (auto simp: find_append find_None_iff image_iff split: option.splits dest!: find_Some_in)
  then obtain s3 where s3: "scan_origins E ReplicationOriginIdentIndex (\<lambda>r. roident r = of_nat j) s2 = Some (Inr (Some ?new), s3)"
    "same_but_oids s2 s3"
    using scan_run [OF assms(1) _ disjI1 [OF refl]] same_rows [OF s2(2)] rows1 by metis
  have "replication_origin (put_origins (delete_first (\<lambda>r. roident r = of_nat j) (replication_origin s3)) s3) = ?rows"
    using same_rows [OF s3(2)] same_rows [OF s2(2)] rows1 fresh
      delete_first_last [of ?rows "\<lambda>r. roident r = of_nat j" ?new] by (auto simp: put_origins_def)
  moreover have "?node \<noteq> InvalidRepOriginId" "?node \<noteq> DoNotReplicateId"
    using node_ids_apart [of j] j(1,2) by auto
  ultimately show ?thesis
    using create s2(1) s3(1) rows_ok_insert [OF assms(3) ins] rows1 id
    by (fastforce simp: replorigin_by_name_def replorigin_drop_def sbind_def [of "scan_origins _ _ _"] sret_def smodify_def swhen_def)
qed

end
