(* ===== verification/Pgl_RepsetFunctions.thy ===== *)
theory Pgl_RepsetFunctions
  imports Pgl_Executor Pgl_Hooks
begin

text \<open>
  The SQL functions on replication sets, the replication of DDL commands, the event trigger that watches dropped
  tables, and the functions a subscriber calls on the provider: the rest of \<open>src/pglogical_functions.c\<close>.
\<close>

section \<open>Environment\<close>

text \<open>
  What the parser makes of a query.  \<open>plain_select\<close> says that a SELECT has no clause besides its target list
  and FROM: no DISTINCT, INTO, WHERE, GROUP BY, HAVING, WINDOW, VALUES, ORDER BY, OFFSET, LIMIT, locking or WITH
  clause and no set operation.
\<close>

record select_clauses =
  distinctClause :: bool
  intoClause :: bool
  whereClause :: bool
  groupClause :: bool
  havingClause :: bool
  windowClause :: bool
  valuesLists :: bool
  sortClause :: bool
  limitOffset :: bool
  limitCount :: bool
  lockingClause :: bool
  withClause :: bool
  setop :: bool

datatype 'x target_item = NullTarget | OtherTarget | ResTarget "string option" bool "'x option"

datatype 'x raw_stmt = NullStmt | NonSelectStmt | SelectStmt select_clauses "'x target_item list"

text \<open>
  \<open>transformExpr\<close> gives the checked expression and the number of range table entries afterwards.  \<open>class_scan\<close> lists the oids
  of the relations of a schema in the order of the index.  \<open>struct_cstring\<close> is the string one reads at the address of a replication
  set's structure.  \<open>run_command\<close> runs one command for a role.
\<close>

record ('j, 'n, 'x) ddl_env =
  de_fun :: "('j, 'n) fun_env"
  quote_qualified :: "string \<Rightarrow> string \<Rightarrow> string"
  raw_parse :: "string \<Rightarrow> 'x raw_stmt list result"
  transformExpr :: "relation \<Rightarrow> 'x \<Rightarrow> ('n \<times> nat) result"
  coerce_to_boolean :: "'n \<Rightarrow> 'n result"
  assign_expr_collations :: "'n \<Rightarrow> 'n"
  LookupExplicitNamespace :: "string \<Rightarrow> oid result"
  class_scan :: "provider_db \<Rightarrow> oid \<Rightarrow> oid list"
  IsSystemClass :: "oid \<Rightarrow> relation \<Rightarrow> bool"
  session_is_replica :: bool
  quote_ident :: "string \<Rightarrow> string"
  struct_cstring :: "PGLogicalRepSet \<Rightarrow> string"
  system_identifier :: "64 word"
  parse_commands :: "string \<Rightarrow> string list result"
  run_backend_command :: "string \<Rightarrow> bool \<Rightarrow> string \<Rightarrow> unit sql_m"

abbreviation de_rep :: "('j, 'n, 'x) ddl_env \<Rightarrow> 'n repset_env" where
  "de_rep D \<equiv> fe_rep (de_fun D)"

section \<open>Creating, altering and dropping sets\<close>

definition pglogical_create_replication_set ::
  "('j, 'n) fun_env \<Rightarrow> string \<Rightarrow> bool \<Rightarrow> bool \<Rightarrow> bool \<Rightarrow> bool \<Rightarrow> oid sql_m" where
  "pglogical_create_replication_set E name ins upd del trunc =
     sbind (nodes_read check_local_node) (\<lambda>node.
     sbind (db_do (create_replication_set (fe_rep E)
              \<lparr> rs_id = InvalidOid, rs_nodeid = node_id (ln_node node), rs_name = name, replicate_insert = ins,
                replicate_update = upd, replicate_delete = del, replicate_truncate = trunc \<rparr>)) (\<lambda>repset.
     sret (rs_id repset)))"

definition named_repset :: "PGLogicalLocalNode \<Rightarrow> string \<Rightarrow> PGLogicalRepSet sql_m" where
  "named_repset node name =
     db_read (\<lambda>db. rbind (get_replication_set_by_name (node_id (ln_node node)) name False db) (\<lambda>found.
       case found of None \<Rightarrow> Inl NullDereference | Some repset \<Rightarrow> Inr repset))"

text \<open>\<open>None\<close> is a NULL argument, which leaves the setting as it is.\<close>

definition or_keep :: "bool option \<Rightarrow> bool \<Rightarrow> bool" where
  "or_keep arg old = (case arg of None \<Rightarrow> old | Some b \<Rightarrow> b)"

definition pglogical_alter_replication_set ::
  "string option \<Rightarrow> bool option \<Rightarrow> bool option \<Rightarrow> bool option \<Rightarrow> bool option \<Rightarrow> oid sql_m" where
  "pglogical_alter_replication_set name ins upd del trunc =
     (case name of
        None \<Rightarrow> sfail (Ereport ERRCODE_INVALID_PARAMETER_VALUE ''set_name cannot be NULL'')
      | Some n \<Rightarrow>
          sbind (nodes_read check_local_node) (\<lambda>node.
          sbind (named_repset node n) (\<lambda>repset.
          sthen (db_write (alter_replication_set
                   (repset\<lparr> replicate_insert := or_keep ins (replicate_insert repset),
                            replicate_update := or_keep upd (replicate_update repset),
                            replicate_delete := or_keep del (replicate_delete repset),
                            replicate_truncate := or_keep trunc (replicate_truncate repset) \<rparr>)))
            (sret (rs_id repset)))))"

definition pglogical_drop_replication_set :: "('j, 'n) fun_env \<Rightarrow> string \<Rightarrow> bool \<Rightarrow> bool sql_m" where
  "pglogical_drop_replication_set E name ifexists =
     sbind (nodes_read check_local_node) (\<lambda>node.
     sbind (db_read (get_replication_set_by_name (node_id (ln_node node)) name ifexists)) (\<lambda>found.
     case found of
       None \<Rightarrow> sret False
     | Some repset \<Rightarrow> sthen (db_write (drop_replication_set (fe_rep E) (rs_id repset))) (sret True)))"

section \<open>Row filters\<close>

definition plain_select :: "select_clauses \<Rightarrow> bool" where
  "plain_select c \<longleftrightarrow> \<not> (distinctClause c \<or> intoClause c \<or> whereClause c \<or> groupClause c \<or> havingClause c \<or>
     windowClause c \<or> valuesLists c \<or> sortClause c \<or> limitOffset c \<or> limitCount c \<or> lockingClause c \<or>
     withClause c \<or> setop c)"

text \<open>The expression of a query that is a single plain SELECT of one unnamed expression.\<close>

definition single_target :: "'x raw_stmt list \<Rightarrow> 'x option" where
  "single_target stmts =
     (case stmts of
        [SelectStmt clauses [ResTarget None False (Some x)]] \<Rightarrow> if plain_select clauses then Some x else None
      | _ \<Rightarrow> None)"

definition parse_row_filter :: "('j, 'n, 'x) ddl_env \<Rightarrow> string \<Rightarrow> relation \<Rightarrow> string \<Rightarrow> 'n result" where
  "parse_row_filter D nspname rel row_filter_str =
     rbind (raw_parse D (''SELECT '' @ row_filter_str @ '' FROM '' @ quote_qualified D nspname (relname rel))) (\<lambda>stmts.
     case single_target stmts of
       None \<Rightarrow> ereport ERRCODE_SYNTAX_ERROR ''invalid row_filter expression \"%s\"''
     | Some x \<Rightarrow>
         rbind (transformExpr D rel x) (\<lambda>(row_filter, rtable).
         rbind (coerce_to_boolean D row_filter) (\<lambda>row_filter.
         let row_filter = assign_expr_collations D row_filter
         in if rtable \<noteq> 1
            then ereport ERRCODE_INVALID_COLUMN_REFERENCE ''only table \"%s\" can be referenced in row_filter''
            else Inr row_filter)))"

section \<open>Members of sets\<close>

text \<open>The listed columns exist; each is taken out of the set of identity columns.\<close>

fun remove_listed :: "tupledesc \<Rightarrow> bitmapset \<Rightarrow> string list \<Rightarrow> bitmapset result" where
  "remove_listed desc idattrs [] = Inr idattrs"
| "remove_listed desc idattrs (name # names) =
     (let num = get_att_num_by_name desc name in
      if num < 0 then ereport ERRCODE_SYNTAX_ERROR ''table %s does not have column %s''
      else remove_listed desc (idattrs - {num - FirstLowInvalidHeapAttributeNumber}) names)"

definition check_att_list :: "relation \<Rightarrow> string option list option \<Rightarrow> string list result" where
  "check_att_list rel att_names =
     (case att_names of
        None \<Rightarrow> Inr []
      | Some elems \<Rightarrow>
          rbind (textarray_to_list elems) (\<lambda>att_list.
          rbind (remove_listed (rd_att rel) (idkey_attrs rel) att_list) (\<lambda>idattrs.
          if idattrs \<noteq> {} then ereport ERRCODE_SYNTAX_ERROR ''REPLICA IDENTITY columns must be replicated''
          else Inr att_list)))"

definition check_row_filter ::
  "('j, 'n, 'x) ddl_env \<Rightarrow> string \<Rightarrow> relation \<Rightarrow> string option \<Rightarrow> 'n option result" where
  "check_row_filter D nspname rel row_filter =
     (case row_filter of
        None \<Rightarrow> Inr None
      | Some str \<Rightarrow> rbind (parse_row_filter D nspname rel str) (\<lambda>n. Inr (Some n)))"

definition pglogical_replication_set_add_table ::
  "('j, 'n, 'x) ddl_env \<Rightarrow> string option \<Rightarrow> oid option \<Rightarrow> bool option \<Rightarrow> string option list option
     \<Rightarrow> string option \<Rightarrow> bool sql_m" where
  "pglogical_replication_set_add_table D repset_name rel_arg sync_arg att_names row_filter_arg =
     (case repset_name of
        None \<Rightarrow> sfail (Ereport ERRCODE_INVALID_PARAMETER_VALUE ''set_name cannot be NULL'')
      | Some setname \<Rightarrow>
      (case rel_arg of
        None \<Rightarrow> sfail (Ereport ERRCODE_INVALID_PARAMETER_VALUE ''relation cannot be NULL'')
      | Some rid \<Rightarrow>
      (case sync_arg of
        None \<Rightarrow> sfail (Ereport ERRCODE_INVALID_PARAMETER_VALUE ''synchronize_data cannot be NULL'')
      | Some synchronize \<Rightarrow>
          sbind (nodes_read check_local_node) (\<lambda>node.
          sbind (named_repset node setname) (\<lambda>repset.
          sbind (db_read (heap_open_class rid)) (\<lambda>rel.
          sbind (relation_name (de_fun D) rid) (\<lambda>(nspname, rname).
          sbind (slift (check_att_list rel att_names)) (\<lambda>att_list.
          sbind (slift (check_row_filter D nspname rel row_filter_arg)) (\<lambda>row_filter.
          sthen (db_write (replication_set_add_table (de_rep D) (rs_id repset) rid att_list row_filter))
          (sthen (swhen synchronize
                   (queue_for_sets (de_fun D) [rs_name repset] QUEUE_COMMAND_TYPE_TABLESYNC
                      (relation_json (sq_escape_json (fe_seq (de_fun D))) nspname rname)))
            (sret True)))))))))))"

definition queue_sequence :: "('j, 'n) fun_env \<Rightarrow> PGLogicalRepSet \<Rightarrow> oid \<Rightarrow> string \<Rightarrow> string \<Rightarrow> unit sql_m" where
  "queue_sequence E repset rid nspname rname =
     sbind (db_read (sequence_get_last_value rid)) (\<lambda>last_value.
     queue_for_sets E [rs_name repset] QUEUE_COMMAND_TYPE_SEQUENCE
       (sequence_json (sq_escape_json (fe_seq E)) nspname rname last_value))"

definition pglogical_replication_set_add_sequence ::
  "('j, 'n, 'x) ddl_env \<Rightarrow> string \<Rightarrow> oid \<Rightarrow> bool \<Rightarrow> bool sql_m" where
  "pglogical_replication_set_add_sequence D setname rid synchronize =
     sbind (nodes_read check_local_node) (\<lambda>node.
     sbind (named_repset node setname) (\<lambda>repset.
     sbind (db_read (heap_open_class rid)) (\<lambda>_.
     sthen (db_write (replication_set_add_seq (rs_id repset) rid))
     (sthen (swhen synchronize
              (sbind (relation_name (de_fun D) rid) (\<lambda>(nspname, rname).
                 queue_sequence (de_fun D) repset rid nspname rname)))
       (sret True)))))"

text \<open>
  One relation of a schema.  Relations of another kind, that are not permanent (not logged), of the system or already in the set are
  passed over.
\<close>

definition add_one_relation ::
  "('j, 'n, 'x) ddl_env \<Rightarrow> PGLogicalRepSet \<Rightarrow> oid list \<Rightarrow> string \<Rightarrow> bool \<Rightarrow> char \<Rightarrow> oid \<Rightarrow> unit sql_m" where
  "add_one_relation D repset existing_relations nspname synchronize kind rid =
     sbind (db_read (heap_open_class rid)) (\<lambda>reltup.
     if relkind reltup \<noteq> kind \<or> \<not> needs_wal reltup \<or> IsSystemClass D rid reltup then sret ()
     else if rid \<in> set existing_relations then sret ()
     else sthen (if kind = RELKIND_RELATION
                 then db_write (replication_set_add_table (de_rep D) (rs_id repset) rid [] None)
                 else db_write (replication_set_add_seq (rs_id repset) rid))
            (swhen synchronize
               (if kind = RELKIND_RELATION
                then queue_for_sets (de_fun D) [rs_name repset] QUEUE_COMMAND_TYPE_TABLESYNC
                       (relation_json (sq_escape_json (fe_seq (de_fun D))) nspname (relname reltup))
                else if kind = RELKIND_SEQUENCE
                then queue_sequence (de_fun D) repset rid nspname (relname reltup)
                else selog (''unsupported relkind '' @ [CHR 0x27] @ ''%c'' @ [CHR 0x27]))))"

definition add_schema_relations ::
  "('j, 'n, 'x) ddl_env \<Rightarrow> PGLogicalRepSet \<Rightarrow> oid list \<Rightarrow> bool \<Rightarrow> char \<Rightarrow> string \<Rightarrow> unit sql_m" where
  "add_schema_relations D repset existing_relations synchronize kind nspname =
     sbind (slift (LookupExplicitNamespace D nspname)) (\<lambda>nspoid.
     sbind (sget (\<lambda>s. class_scan D (the_db s) nspoid)) (\<lambda>rids.
     sforeach (add_one_relation D repset existing_relations nspname synchronize kind) rids))"

definition pglogical_replication_set_add_all_relations ::
  "('j, 'n, 'x) ddl_env \<Rightarrow> string \<Rightarrow> string option list \<Rightarrow> bool \<Rightarrow> char \<Rightarrow> bool sql_m" where
  "pglogical_replication_set_add_all_relations D setname nsp_names synchronize kind =
     sbind (nodes_read check_local_node) (\<lambda>node.
     sbind (named_repset node setname) (\<lambda>repset.
     sbind (sget (\<lambda>s. replication_set_get_tables (rs_id repset) (the_db s) @
                      replication_set_get_seqs (rs_id repset) (the_db s))) (\<lambda>existing_relations.
     sbind (slift (textarray_to_list nsp_names)) (\<lambda>nspnames.
     sthen (sforeach (add_schema_relations D repset existing_relations synchronize kind) nspnames)
       (sret True)))))"

definition pglogical_replication_set_add_all_tables ::
  "('j, 'n, 'x) ddl_env \<Rightarrow> string \<Rightarrow> string option list \<Rightarrow> bool \<Rightarrow> bool sql_m" where
  "pglogical_replication_set_add_all_tables D setname nsp_names synchronize =
     pglogical_replication_set_add_all_relations D setname nsp_names synchronize RELKIND_RELATION"

definition pglogical_replication_set_add_all_sequences ::
  "('j, 'n, 'x) ddl_env \<Rightarrow> string \<Rightarrow> string option list \<Rightarrow> bool \<Rightarrow> bool sql_m" where
  "pglogical_replication_set_add_all_sequences D setname nsp_names synchronize =
     pglogical_replication_set_add_all_relations D setname nsp_names synchronize RELKIND_SEQUENCE"

definition pglogical_replication_set_remove_table :: "string \<Rightarrow> oid \<Rightarrow> bool sql_m" where
  "pglogical_replication_set_remove_table setname rid =
     sbind (nodes_read check_local_node) (\<lambda>node.
     sbind (named_repset node setname) (\<lambda>repset.
     sthen (db_write (replication_set_remove_table (rs_id repset) rid False)) (sret True)))"

definition pglogical_replication_set_remove_sequence :: "string \<Rightarrow> oid \<Rightarrow> bool sql_m" where
  "pglogical_replication_set_remove_sequence setname seqoid =
     sbind (nodes_read check_local_node) (\<lambda>node.
     sbind (named_repset node setname) (\<lambda>repset.
     sthen (db_write (replication_set_remove_seq (rs_id repset) seqoid False)) (sret True)))"

section \<open>DDL\<close>

text \<open>
  The function runs the command with an empty search path, a setting of the session that is restored afterwards and is not part of the
  state.  \<open>None\<close> stands for a call with one argument.
\<close>

definition pglogical_replicate_ddl_command ::
  "('j, 'n, 'x) ddl_env \<Rightarrow> string \<Rightarrow> string option list option \<Rightarrow> bool sql_m" where
  "pglogical_replicate_ddl_command D query rep_set_names =
     sbind (nodes_read check_local_node) (\<lambda>node.
     sbind (slift (case rep_set_names of
                     None \<Rightarrow> Inr [DDL_SQL_REPSET_NAME] | Some elems \<Rightarrow> textarray_to_list elems)) (\<lambda>sets.
     sthen (sforeach (\<lambda>setname. sbind (named_repset node setname) (\<lambda>_. sret ())) sets)
     (sthen (queue_for_sets (de_fun D) sets QUEUE_COMMAND_TYPE_SQL (sq_escape_json (fe_seq (de_fun D)) query))
     (sbind (slift (case GetUserNameFromId (sq_queue (fe_seq (de_fun D))) (GetUserId (fe_seq (de_fun D))) of
                      None \<Rightarrow> ereport ERRCODE_UNDEFINED_OBJECT ''invalid role OID: %u'' | Some r \<Rightarrow> Inr r)) (\<lambda>role.
     sthen (execute_sql_commands (parse_commands D) (run_backend_command D role) query False)
       (sret True))))))"

text \<open>
  The event trigger.  \<open>dropped\<close> are the tables and sequences the command dropped; \<open>cascade\<close> is what the
  code reads as the behavior of the DROP statement.
\<close>

record dropped_object =
  do_objid :: oid
  do_schema :: string
  do_name :: string
  do_istable :: bool

definition object_type :: "dropped_object \<Rightarrow> string" where
  "object_type obj = (if do_istable obj then ''table'' else ''sequence'')"

definition drop_membership :: "dropped_object \<Rightarrow> PGLogicalRepSet \<Rightarrow> unit sql_m" where
  "drop_membership obj repset =
     db_write (if do_istable obj then replication_set_remove_table (rs_id repset) (do_objid obj) True
               else replication_set_remove_seq (rs_id repset) (do_objid obj) True)"

definition dependency_detail :: "('j, 'n, 'x) ddl_env \<Rightarrow> dropped_object \<Rightarrow> PGLogicalRepSet \<Rightarrow> string" where
  "dependency_detail D obj repset =
     object_type obj @ '' '' @ quote_qualified D (do_schema obj) (do_name obj) @
     '' in replication set '' @ rs_name repset"

definition check_dropped_object ::
  "('j, 'n, 'x) ddl_env \<Rightarrow> oid \<Rightarrow> bool \<Rightarrow> dropped_object \<Rightarrow> string list sql_m" where
  "check_dropped_object D nodeid removing obj =
     sbind (db_read (if do_istable obj then get_table_replication_sets (de_rep D) nodeid (do_objid obj)
                     else get_seq_replication_sets nodeid (do_objid obj))) (\<lambda>repsets.
     sthen (swhen removing (sforeach (drop_membership obj) repsets))
     (sthen (status_write (\<lambda>rows. Inr (drop_table_sync_status (do_schema obj) (do_name obj) rows)))
       (sret (map (dependency_detail D obj) repsets))))"

fun check_dropped_objects ::
  "('j, 'n, 'x) ddl_env \<Rightarrow> oid \<Rightarrow> bool \<Rightarrow> dropped_object list \<Rightarrow> string list sql_m" where
  "check_dropped_objects D nodeid removing [] = sret []"
| "check_dropped_objects D nodeid removing (obj # objs) =
     sbind (check_dropped_object D nodeid removing obj) (\<lambda>details.
     sbind (check_dropped_objects D nodeid removing objs) (\<lambda>more_details.
     sret (details @ more_details)))"

definition pglogical_dependency_check_trigger ::
  "('j, 'n, 'x) ddl_env \<Rightarrow> bool \<Rightarrow> bool \<Rightarrow> dropped_object list \<Rightarrow> unit sql_m" where
  "pglogical_dependency_check_trigger D called_as_event_trigger cascade dropped =
     (if \<not> called_as_event_trigger
      then sfail (Ereport ERRCODE_E_R_I_E_TRIGGER_PROTOCOL_VIOLATED
             ''function \"%s\" was not called by event trigger manager'')
      else sbind (nodes_read (get_local_node True)) (\<lambda>node.
           case node of
             None \<Rightarrow> sret ()
           | Some ln \<Rightarrow>
               sbind (check_dropped_objects D (node_id (ln_node ln)) (cascade \<or> session_is_replica D) dropped) (\<lambda>details.
               if details = [] then sret ()
               else if \<not> cascade \<and> \<not> session_is_replica D
               then sfail (Ereport ERRCODE_DEPENDENT_OBJECTS_STILL_EXIST
                      ''cannot drop desired object(s) because other objects depend on them'')
               else smodify (\<lambda>s. s\<lparr> f_log := f_log s @ [''drop cascades to %d other objects''] \<rparr>))))"

section \<open>What subscribers ask the provider\<close>

record node_info_row =
  ni_node_id :: oid
  ni_node_name :: string
  ni_sysid :: string
  ni_dbname :: string
  ni_replication_sets :: string

text \<open>The list that is printed as names is a list of the structures of the sets.\<close>

definition pglogical_node_info :: "('j, 'n, 'x) ddl_env \<Rightarrow> call_info \<Rightarrow> node_info_row sql_m" where
  "pglogical_node_info D fcinfo =
     sbind (slift (check_row_type fcinfo)) (\<lambda>_.
     sbind (nodes_read require_local_node) (\<lambda>node.
     sbind (db_read (get_node_replication_sets (node_id (ln_node node)))) (\<lambda>repsets.
     sret \<lparr> ni_node_id = node_id (ln_node node), ni_node_name = node_name (ln_node node),
            ni_sysid = take 31 (dec_of_nat (unat (system_identifier D))), ni_dbname = fe_dbname (de_fun D),
            ni_replication_sets = stringlist_to_identifierstr (quote_ident D) (map (struct_cstring D) repsets) \<rparr>)))"

record table_info_row =
  tr_relid :: oid
  tr_nspname :: string
  tr_relname :: string
  tr_att_list :: "string list"
  tr_has_row_filter :: bool

text \<open>The session's cache of the replication info is passed in and out.\<close>

definition table_info_of ::
  "('j, 'n, 'x) ddl_env \<Rightarrow> (oid \<Rightarrow> 'k) \<Rightarrow> PGLogicalLocalNode \<Rightarrow> relation \<Rightarrow> string option list \<Rightarrow> ('k, 'n) repset_hash
     \<Rightarrow> provider_db \<Rightarrow> ('n PGLogicalTableRepInfo \<times> ('k, 'n) repset_hash) result" where
  "table_info_of D keyof node rel rep_set_names hash db =
     rbind (textarray_to_list rep_set_names) (\<lambda>names.
     rbind (get_replication_sets (node_id (ln_node node)) names False db) (\<lambda>sets.
     get_table_replication_info (de_rep D) keyof rel sets db hash))"

definition shown_columns :: "tupledesc \<Rightarrow> bitmapset option \<Rightarrow> string list" where
  "shown_columns desc att_list =
     map attname (filter (\<lambda>att. case att_list of
        None \<Rightarrow> True | Some b \<Rightarrow> attnum att - FirstLowInvalidHeapAttributeNumber \<in> b) desc)"

definition pglogical_show_repset_table_info ::
  "('j, 'n, 'x) ddl_env \<Rightarrow> (oid \<Rightarrow> 'k) \<Rightarrow> call_info \<Rightarrow> oid \<Rightarrow> string option list \<Rightarrow> ('k, 'n) repset_hash
     \<Rightarrow> (table_info_row \<times> ('k, 'n) repset_hash) sql_m" where
  "pglogical_show_repset_table_info D keyof fcinfo rid rep_set_names hash =
     sbind (nodes_read require_local_node) (\<lambda>node.
     sbind (slift (check_row_type fcinfo)) (\<lambda>_.
     sbind (db_read (heap_open_class rid)) (\<lambda>rel.
     sbind (db_read (table_info_of D keyof node rel rep_set_names hash)) (\<lambda>(tableinfo, hash).
     sbind (relation_name (de_fun D) rid) (\<lambda>(nspname, rname).
     sret (\<lparr> tr_relid = rd_id rel, tr_nspname = nspname, tr_relname = rname,
             tr_att_list = shown_columns (rd_att rel) (ti_att_list tableinfo),
             tr_has_row_filter = (length (ti_row_filter tableinfo) > 0) \<rparr>, hash))))))"

text \<open>Whether a row passes all prepared filters; a NULL is a failure.\<close>

fun filter_tuple :: "('n, 'e) filter_env \<Rightarrow> tupledesc \<Rightarrow> heap_tuple \<Rightarrow> 'e list \<Rightarrow> bool result" where
  "filter_tuple X desc htup [] = Inr True"
| "filter_tuple X desc htup (exprstate # row_filter_list) =
     rbind (eval_expr X exprstate desc htup) (\<lambda>res.
     case res of
       None \<Rightarrow> Inr False
     | Some b \<Rightarrow> if \<not> b then Inr False else filter_tuple X desc htup row_filter_list)"

fun scan_filtered :: "('n, 'e) filter_env \<Rightarrow> tupledesc \<Rightarrow> 'e list \<Rightarrow> heap_tuple list \<Rightarrow> heap_tuple list result" where
  "scan_filtered X desc exprs [] = Inr []"
| "scan_filtered X desc exprs (htup # rows) =
     rbind (filter_tuple X desc htup exprs) (\<lambda>pass.
     rbind (scan_filtered X desc exprs rows) (\<lambda>rest.
     Inr (if pass then htup # rest else rest)))"

text \<open>
  The call: the type of the first argument, and the row type the caller expects.  \<open>None\<close> is a NULL argument.
\<close>

record filtered_call =
  fc_is_rowtype :: bool
  fc_resultinfo :: bool
  fc_composite :: bool
  fc_desc :: tupledesc

definition pglogical_table_data_filtered ::
  "('j, 'n, 'x) ddl_env \<Rightarrow> ('n, 'e) filter_env \<Rightarrow> (oid \<Rightarrow> 'k) \<Rightarrow> filtered_call \<Rightarrow> oid option \<Rightarrow> string option list option
     \<Rightarrow> ('k, 'n) repset_hash \<Rightarrow> (heap_tuple list \<times> ('k, 'n) repset_hash) sql_m" where
  "pglogical_table_data_filtered D X keyof fcall rel_arg sets_arg hash =
     sbind (nodes_read require_local_node) (\<lambda>node.
     (case rel_arg of
        None \<Rightarrow> sfail (Ereport ERRCODE_INVALID_PARAMETER_VALUE ''relation cannot be NULL'')
      | Some rid \<Rightarrow>
     (case sets_arg of
        None \<Rightarrow> sfail (Ereport ERRCODE_INVALID_PARAMETER_VALUE ''repsets cannot be NULL'')
      | Some rep_set_names \<Rightarrow>
          if \<not> fc_is_rowtype fcall
          then sfail (Ereport ERRCODE_DATATYPE_MISMATCH ''first argument of %s must be a row type'')
          else if \<not> fc_resultinfo fcall
          then sfail (Ereport ERRCODE_FEATURE_NOT_SUPPORTED
                 ''set-valued function called in context that cannot accept a set'')
          else if \<not> fc_composite fcall
          then sfail (Ereport ERRCODE_FEATURE_NOT_SUPPORTED
                 ''function returning record called in context that cannot accept type record'')
          else sbind (db_read (heap_open_class rid)) (\<lambda>rel.
               if fc_desc fcall \<noteq> rd_att rel
               then sfail (Ereport ERRCODE_DATATYPE_MISMATCH
                      ''return type of %s must be same as row type of the relation'')
               else sbind (db_read (table_info_of D keyof node rel rep_set_names hash)) (\<lambda>(tableinfo, hash).
                    sbind (slift (rmap (pglogical_prepare_row_filter X) (ti_row_filter tableinfo))) (\<lambda>exprs.
                    sbind (sget (\<lambda>s. map t_data (f_rows (f_cats s) rid))) (\<lambda>rows.
                    sbind (slift (scan_filtered X (rd_att rel) exprs rows)) (\<lambda>passed.
                    sret (passed, hash)))))))))"

definition pglogical_gen_slot_name :: "(string \<Rightarrow> 32 word) \<Rightarrow> string \<Rightarrow> string \<Rightarrow> string \<Rightarrow> string" where
  "pglogical_gen_slot_name hash dbname provider_node_name subscription_name =
     gen_slot_name hash dbname provider_node_name subscription_name"

section \<open>Versions\<close>

definition pglogical_version :: string where
  "pglogical_version = ''1.3.0''"

definition pglogical_version_num :: int where
  "pglogical_version_num = 10300"

definition pglogical_max_proto_version :: int where
  "pglogical_max_proto_version = 1"

definition pglogical_min_proto_version :: int where
  "pglogical_min_proto_version = 1"

end
