(* ===== verification/Pgl_Consistency.thy ===== *)
theory Pgl_Consistency
  imports Pgl_RepsetFunctions
begin

text \<open>
  The catalogs as the SQL functions leave them: every reference of one catalog to another resolves, replication sets belong to the local
  node, and every subscription has its status row.  The functions are the steps of the database; each runs in a transaction of its own.
\<close>

section \<open>The invariant\<close>

definition node_ids :: "node_catalog \<Rightarrow> oid set" where
  "node_ids N = node_id ` set (cat_node N)"

definition if_keys :: "node_catalog \<Rightarrow> (oid \<times> oid) set" where
  "if_keys N = (\<lambda>i. (if_id i, if_nodeid i)) ` set (cat_node_interface N)"

definition local_ids :: "node_catalog \<Rightarrow> oid set" where
  "local_ids N = ln_id ` set (cat_local_node N)"

text \<open>
  An interface belongs to a node that exists; the local node and the two ends of a subscription have an
  interface of theirs; the target of a subscription is the local node; the delay of a subscription is not NULL.
\<close>

definition sub_refs_ok :: "node_catalog \<Rightarrow> SubscriptionTuple \<Rightarrow> bool" where
  "sub_refs_ok N r \<longleftrightarrow> (st_origin_if r, st_origin r) \<in> if_keys N \<and> (st_target_if r, st_target r) \<in> if_keys N \<and>
     st_target r \<in> local_ids N \<and> st_apply_delay r \<noteq> None"

definition node_refs_ok :: "node_catalog \<Rightarrow> bool" where
  "node_refs_ok N \<longleftrightarrow> snd ` if_keys N \<subseteq> node_ids N \<and>
     (\<forall>l \<in> set (cat_local_node N). (ln_if l, ln_id l) \<in> if_keys N) \<and>
     (\<forall>r \<in> set (cat_subscription N). sub_refs_ok N r)"

definition sets_local :: "node_catalog \<Rightarrow> provider_db \<Rightarrow> bool" where
  "sets_local N db \<longleftrightarrow> rs_nodeid ` set (cat_repset db) \<subseteq> local_ids N"

text \<open>Status rows are of subscriptions that exist, and each subscription has one row of its own.\<close>

definition status_ok :: "node_catalog \<Rightarrow> PGLogicalSyncStatus list \<Rightarrow> bool" where
  "status_ok N rows \<longleftrightarrow> sync_subid ` set rows \<subseteq> st_id ` set (cat_subscription N) \<and>
     (\<forall>i \<in> st_id ` set (cat_subscription N). length (filter (is_subscription_row i) rows) = 1)"

definition cats_ok :: "sql_cats \<Rightarrow> bool" where
  "cats_ok C \<longleftrightarrow> node_catalog_ok (f_nodes C) \<and> node_refs_ok (f_nodes C) \<and> repset_catalog_ok (f_db C) \<and>
     sets_local (f_nodes C) (f_db C) \<and> status_ok (f_nodes C) (f_status C)"

abbreviation ok :: "'a \<Rightarrow> sql_state \<Rightarrow> bool" where
  "ok x s \<equiv> cats_ok (f_cats s)"

section \<open>The functions as steps\<close>

datatype sql_function =
    F_create_node string string
  | F_drop_node string bool
  | F_alter_node_add_interface string string string
  | F_alter_node_drop_interface string string
  | F_create_subscription string string "string option list" bool bool "string option list" interval
  | F_drop_subscription string bool
  | F_alter_subscription_disable string bool
  | F_alter_subscription_enable string bool
  | F_alter_subscription_interface string string
  | F_alter_subscription_add_replication_set string string
  | F_alter_subscription_remove_replication_set string string
  | F_alter_subscription_synchronize string bool
  | F_alter_subscription_resynchronize_table string oid bool
  | F_synchronize_sequence oid
  | F_create_replication_set string bool bool bool bool
  | F_alter_replication_set "string option" "bool option" "bool option" "bool option" "bool option"
  | F_drop_replication_set string bool
  | F_replication_set_add_table "string option" "oid option" "bool option" "string option list option" "string option"
  | F_replication_set_add_sequence string oid bool
  | F_replication_set_add_all_tables string "string option list" bool
  | F_replication_set_add_all_sequences string "string option list" bool
  | F_replication_set_remove_table string oid
  | F_replication_set_remove_sequence string oid

abbreviation sdrop :: "'a sql_m \<Rightarrow> unit sql_m" where
  "sdrop m \<equiv> sbind m (\<lambda>_. sret ())"

fun run_function :: "('j, 'n, 'x) ddl_env \<Rightarrow> sql_function \<Rightarrow> unit sql_m" where
  "run_function D (F_create_node n d) = sdrop (pglogical_create_node (de_fun D) n d)"
| "run_function D (F_drop_node n b) = sdrop (pglogical_drop_node (de_fun D) n b)"
| "run_function D (F_alter_node_add_interface n i d) = sdrop (pglogical_alter_node_add_interface (de_fun D) n i d)"
| "run_function D (F_alter_node_drop_interface n i) = sdrop (pglogical_alter_node_drop_interface n i)"
| "run_function D (F_create_subscription n d sets st da fw delay) =
     sdrop (pglogical_create_subscription (de_fun D) n d sets st da fw delay)"
| "run_function D (F_drop_subscription n b) = sdrop (pglogical_drop_subscription (de_fun D) n b)"
| "run_function D (F_alter_subscription_disable n b) = sdrop (pglogical_alter_subscription_disable (de_fun D) n b)"
| "run_function D (F_alter_subscription_enable n b) = sdrop (pglogical_alter_subscription_enable (de_fun D) n b)"
| "run_function D (F_alter_subscription_interface n i) = sdrop (pglogical_alter_subscription_interface n i)"
| "run_function D (F_alter_subscription_add_replication_set n r) =
     sdrop (pglogical_alter_subscription_add_replication_set n r)"
| "run_function D (F_alter_subscription_remove_replication_set n r) =
     sdrop (pglogical_alter_subscription_remove_replication_set n r)"
| "run_function D (F_alter_subscription_synchronize n b) =
     sdrop (pglogical_alter_subscription_synchronize (de_fun D) n b)"
| "run_function D (F_alter_subscription_resynchronize_table n t b) =
     sdrop (pglogical_alter_subscription_resynchronize_table (de_fun D) n t b)"
| "run_function D (F_synchronize_sequence t) = sdrop (pglogical_synchronize_sequence (de_fun D) t)"
| "run_function D (F_create_replication_set n a b c d) =
     sdrop (pglogical_create_replication_set (de_fun D) n a b c d)"
| "run_function D (F_alter_replication_set n a b c d) = sdrop (pglogical_alter_replication_set n a b c d)"
| "run_function D (F_drop_replication_set n b) = sdrop (pglogical_drop_replication_set (de_fun D) n b)"
| "run_function D (F_replication_set_add_table n t b cols flt) =
     sdrop (pglogical_replication_set_add_table D n t b cols flt)"
| "run_function D (F_replication_set_add_sequence n t b) =
     sdrop (pglogical_replication_set_add_sequence D n t b)"
| "run_function D (F_replication_set_add_all_tables n l b) =
     sdrop (pglogical_replication_set_add_all_tables D n l b)"
| "run_function D (F_replication_set_add_all_sequences n l b) =
     sdrop (pglogical_replication_set_add_all_sequences D n l b)"
| "run_function D (F_replication_set_remove_table n t) = sdrop (pglogical_replication_set_remove_table n t)"
| "run_function D (F_replication_set_remove_sequence n t) = sdrop (pglogical_replication_set_remove_sequence n t)"

text \<open>Dropping an interface that the local node or a subscription uses is not refused by the code.\<close>

definition interface_in_use :: "PGlogicalInterface \<Rightarrow> node_catalog \<Rightarrow> bool" where
  "interface_in_use i N \<longleftrightarrow> list_ex (\<lambda>l. ln_if l = if_id i) (cat_local_node N) \<or>
     list_ex (\<lambda>r. st_origin_if r = if_id i \<or> st_target_if r = if_id i) (cat_subscription N)"

fun drops_used_interface :: "sql_function \<Rightarrow> node_catalog \<Rightarrow> bool" where
  "drops_used_interface (F_alter_node_drop_interface n i) N =
     (case get_node_by_name n False N of
        Inr (Some node) \<Rightarrow>
          (case get_node_interface_by_name (node_id node) i True N of
             Inr (Some nodeif) \<Rightarrow> interface_in_use nodeif N
           | _ \<Rightarrow> False)
      | _ \<Rightarrow> False)"
| "drops_used_interface f N = False"

inductive sql_step :: "('j, 'n, 'x) ddl_env \<Rightarrow> sql_state \<Rightarrow> sql_state \<Rightarrow> bool" for D where
  call: "sql_call (run_function D f) s = Some (r, s') \<Longrightarrow> \<not> drops_used_interface f (the_nodes s) \<Longrightarrow> sql_step D s s'"

text \<open>Nothing that was there goes away when the copy of the provider's node is made.\<close>

definition grown :: "node_catalog \<Rightarrow> node_catalog \<Rightarrow> bool" where
  "grown N N' \<longleftrightarrow> if_keys N \<subseteq> if_keys N' \<and> local_ids N' = local_ids N"

text \<open>The invariant, and that a subscription is there.\<close>

definition ok_with :: "oid \<Rightarrow> sql_state \<Rightarrow> bool" where
  "ok_with i s \<longleftrightarrow> cats_ok (f_cats s) \<and> i \<in> st_id ` set (cat_subscription (the_nodes s))"

text \<open>An example: an empty database, and a provider that answers the queries of a subscriber.\<close>

definition ex_name_hash :: "string \<Rightarrow> oid" where
  "ex_name_hash name = of_nat (foldl (\<lambda>h c. (h * 31 + of_char c) mod 65521) 7 name)"

definition ex_provider :: PGconn where
  "ex_provider = \<lparr> PQexec = (\<lambda>q. \<lparr> PQresultStatus = PGRES_TUPLES_OK,
       res_rows = [[Some ''77'', Some ''prov'', Some ''1'', Some ''pdb'', Some []]], PQnfields = 5,
       PQresultErrorMessage = [] \<rparr>),
     PQexecParams = (\<lambda>q params. \<lparr> PQresultStatus = PGRES_TUPLES_OK, res_rows = [[Some ''pglogical_output'']],
       PQnfields = 1, PQresultErrorMessage = [] \<rparr>),
     PQescapeLiteral = id, PQescapeIdentifier = id \<rparr>"

definition ex_fun :: "(string, string) fun_env" where
  "ex_fun = \<lparr> fe_rep = ex_renv\<lparr> re_hash_any := ex_name_hash \<rparr>, fe_seq = ex_senv, fe_database = 16384, fe_dbname = ''db'',
     fe_connect = (\<lambda>_. Some ex_provider), fe_in_block = False,
     fe_looks = (\<lambda>n ctx. \<lparr> wl_interrupt = None, wl_ctx = ctx\<lparr> workers := [] \<rparr> \<rparr>),
     fe_ReplicationSlotDrop = (\<lambda>name t. Inr (map (\<lambda>x. if slot_data_name x = name then x\<lparr> slot_in_use := False \<rparr> else x) t)),
     fe_origin_in_use = (\<lambda>_. False), fe_RangeVarGetRelid = (\<lambda>_ _. 0), fe_ExecuteTruncate = (\<lambda>_. Inr ()) \<rparr>"

definition ex_ddl :: "(string, string, string) ddl_env" where
  "ex_ddl = \<lparr> de_fun = ex_fun, quote_qualified = (\<lambda>a b. a @ ''.'' @ b), raw_parse = (\<lambda>q. Inr []),
     transformExpr = (\<lambda>r x. Inr (x, 1)), coerce_to_boolean = Inr, assign_expr_collations = id,
     LookupExplicitNamespace = (\<lambda>_. Inr 2200), class_scan = (\<lambda>_ _. [16400]), IsSystemClass = (\<lambda>_ _. False),
     session_is_replica = False, quote_ident = id, struct_cstring = rs_name, system_identifier = 1,
     parse_commands = (\<lambda>c. Inr [c]), run_backend_command = (\<lambda>_ _ _. sret ()) \<rparr>"

definition ex_sql_state :: sql_state where
  "ex_sql_state = \<lparr> f_cats = \<lparr> f_nodes = \<lparr> cat_node = [], cat_local_node = [], cat_node_interface = [], cat_subscription = [],
       sub_changed = [] \<rparr>, f_db = ex_pdb\<lparr> cat_repset := [] \<rparr>, f_status = [], f_queue = [],
       f_origins = Map.empty, f_rows = (\<lambda>_. []) \<rparr>,
     f_ctx = \<lparr> supervisor = None, subscriptions_changed = False, workers = [], signals = [] \<rparr>,
     f_slots = [], f_truncated = [], f_remote_drops = [], f_log = [] \<rparr>"

text \<open>A subscriber: its node has a replication set and a subscription.\<close>

definition ex_subscribed :: sql_state where
  "ex_subscribed = ex_sql_state\<lparr> f_cats := (f_cats ex_sql_state)\<lparr> f_nodes := ex_catalog1,
     f_db := ex_pdb\<lparr> cat_repset := [ex_default\<lparr> rs_nodeid := 2 \<rparr>] \<rparr>,
     f_status := [\<lparr> sync_kind = SYNC_KIND_FULL, sync_subid = 21, sync_nspname = None, sync_relname = None,
                    sync_status = SYNC_STATUS_READY \<rparr>] \<rparr> \<rparr>"

section \<open>Effects of the catalog operations\<close>

lemma put_simps [simp]:
  "f_nodes (f_cats (put_nodes N s)) = N" "f_db (f_cats (put_nodes N s)) = f_db (f_cats s)"
  "f_status (f_cats (put_nodes N s)) = f_status (f_cats s)"
  "f_nodes (f_cats (put_db d s)) = f_nodes (f_cats s)" "f_db (f_cats (put_db d s)) = d"
  "f_status (f_cats (put_db d s)) = f_status (f_cats s)"
  "f_nodes (f_cats (put_status t s)) = f_nodes (f_cats s)" "f_db (f_cats (put_status t s)) = f_db (f_cats s)"
  "f_status (f_cats (put_status t s)) = t"
  "f_nodes (f_cats (put_rows w s)) = f_nodes (f_cats s)" "f_db (f_cats (put_rows w s)) = f_db (f_cats s)"
  "f_status (f_cats (put_rows w s)) = f_status (f_cats s)"
  "f_nodes (f_cats (put_queue q s)) = f_nodes (f_cats s)" "f_db (f_cats (put_queue q s)) = f_db (f_cats s)"
  "f_status (f_cats (put_queue q s)) = f_status (f_cats s)"
  by (simp_all add: put_nodes_def put_db_def put_status_def put_rows_def put_queue_def)

lemma cats_okD:
  assumes "cats_ok C"
  shows "node_catalog_ok (f_nodes C)" "node_refs_ok (f_nodes C)" "repset_catalog_ok (f_db C)"
    "sets_local (f_nodes C) (f_db C)" "status_ok (f_nodes C) (f_status C)"
  using assms by (simp_all add: cats_ok_def)

lemma nodes_okD:
  assumes "node_catalog_ok N"
  shows "rows_ok node_conflicts (cat_node N)" "rows_ok interface_conflicts (cat_node_interface N)"
    "rows_ok subscription_conflicts (cat_subscription N)" "length (cat_local_node N) \<le> 1"
  using assms by (simp_all add: node_catalog_ok_def)

lemma changed_keys [simp]:
  "node_ids (pglogical_subscription_changed i N) = node_ids N"
  "if_keys (pglogical_subscription_changed i N) = if_keys N"
  "local_ids (pglogical_subscription_changed i N) = local_ids N"
  "sub_refs_ok (pglogical_subscription_changed i N) = sub_refs_ok N"
  "node_refs_ok (pglogical_subscription_changed i N) = node_refs_ok N"
  "sets_local (pglogical_subscription_changed i N) = sets_local N"
  "status_ok (pglogical_subscription_changed i N) = status_ok N"
  by (auto simp: node_ids_def if_keys_def local_ids_def node_refs_ok_def sets_local_def status_ok_def
      sub_refs_ok_def fun_eq_iff)

lemma catalog_insert_Inr: "catalog_insert c r t = Inr t' \<longleftrightarrow> \<not> list_ex (\<lambda>x. c x r) t \<and> t' = t @ [r]"
  by (auto simp: catalog_insert_def)

lemma create_node_eq:
  assumes "create_node h node N = Inr (n, N')"
  shows "cat_node N' = cat_node N @ [\<lparr> node_id = node_id n, node_name = namestrcpy (node_name n) \<rparr>]"
    "cat_node_interface N' = cat_node_interface N" "cat_local_node N' = cat_local_node N"
    "cat_subscription N' = cat_subscription N" "node_name n = node_name node"
    "node_id node \<noteq> InvalidOid \<Longrightarrow> n = node"
  using assms
  by (auto simp: create_node_def Let_def catalog_insert_Inr rbind_eq_Inr split: if_splits)

lemma create_interface_eq:
  assumes "create_node_interface h p nodeif N = Inr (i, N')"
  shows "cat_node N' = cat_node N" "cat_local_node N' = cat_local_node N"
    "cat_subscription N' = cat_subscription N" "if_nodeid i = if_nodeid nodeif"
    "cat_node_interface N' = cat_node_interface N @ [i\<lparr> if_name := namestrcpy (if_name i) \<rparr>]"
  using assms by (auto simp: create_node_interface_def Let_def catalog_insert_Inr rbind_eq_Inr split: if_splits)

lemma create_node_refs:
  assumes "create_node h node N = Inr (n, N')" "node_refs_ok N"
  shows "node_refs_ok N'" "node_id n \<in> node_ids N'" "sets_local N' = sets_local N" "status_ok N' = status_ok N"
    "local_ids N' = local_ids N"
  using create_node_eq [OF assms(1)] assms(2)
  by (auto simp: node_refs_ok_def node_ids_def if_keys_def local_ids_def sub_refs_ok_def sets_local_def
      status_ok_def fun_eq_iff)

lemma create_interface_refs:
  assumes "create_node_interface h p nodeif N = Inr (i, N')" "node_refs_ok N" "if_nodeid nodeif \<in> node_ids N"
  shows "node_refs_ok N'" "(if_id i, if_nodeid nodeif) \<in> if_keys N'" "sets_local N' = sets_local N"
    "status_ok N' = status_ok N" "node_ids N' = node_ids N" "local_ids N' = local_ids N"
    "cat_local_node N' = cat_local_node N"
  using create_interface_eq [OF assms(1)] assms(2,3)
  by (auto simp: node_refs_ok_def node_ids_def if_keys_def local_ids_def sub_refs_ok_def sets_local_def
      status_ok_def fun_eq_iff)

lemma create_local_refs:
  assumes "create_local_node n i N = Inr N'" "node_refs_ok N" "(i, n) \<in> if_keys N"
  shows "node_refs_ok N'" "local_ids N' = insert n (local_ids N)" "status_ok N' = status_ok N"
proof -
  have "cat_local_node N' = cat_local_node N @ [\<lparr> ln_id = n, ln_if = i \<rparr>]" "cat_node N' = cat_node N"
    "cat_node_interface N' = cat_node_interface N" "cat_subscription N' = cat_subscription N"
    using assms(1) by (auto simp: create_local_node_def catalog_insert_Inr rbind_eq_Inr split: if_splits)
  then show "node_refs_ok N'" "local_ids N' = insert n (local_ids N)" "status_ok N' = status_ok N"
    using assms(2,3)
    by (auto simp: node_refs_ok_def node_ids_def if_keys_def local_ids_def sub_refs_ok_def status_ok_def fun_eq_iff)
qed

lemma create_set_eq:
  assumes "create_replication_set E repset db = Inr (s, db')"
  shows "rs_nodeid ` set (cat_repset db') = insert (rs_nodeid repset) (rs_nodeid ` set (cat_repset db))"
  using assms
  by (auto simp: create_replication_set_def Let_def catalog_insert_Inr rbind_eq_Inr split: if_splits)

text \<open>A new node: the replication sets are those of the node that becomes the local one.\<close>

lemma create_node_wp:
  assumes "ok () s"
  shows "wp (pglogical_create_node E name dsn) ok s"
proof -
  have "cats_ok (f_cats s')"
    if s': "s' = put_nodes N3 (put_db d3 (put_db d2 (put_db d1 (put_nodes N2 (put_nodes N1 s)))))"
      and c1: "create_node (fe_hash E) \<lparr> node_id = InvalidOid, node_name = name \<rparr> (the_nodes s) = Inr (n, N1)"
      and c2: "create_node_interface (fe_hash E) (re_hash_pair (fe_rep E)) (iface n) N1 = Inr (i, N2)"
      and n: "if_nodeid (iface n) = node_id n"
      and d1: "create_replication_set (fe_rep E) (predefined_repset (node_id n) r1 u1 t1) (the_db s) = Inr (x1, d1)"
      and d2: "create_replication_set (fe_rep E) (predefined_repset (node_id n) r2 u2 t2) d1 = Inr (x2, d2)"
      and d3: "create_replication_set (fe_rep E) (predefined_repset (node_id n) r3 u3 t3) d2 = Inr (x3, d3)"
      and c3: "create_local_node (node_id n) (if_id i) N2 = Inr N3"
    for s' n i N1 N2 N3 iface d1 d2 d3 x1 x2 x3 r1 r2 r3 u1 u2 u3 t1 t2 t3
  proof -
    note ok = cats_okD [OF assms]
    note n1 = create_node_refs [OF c1 ok(2)]
    note n2 = create_interface_refs [OF c2 n1(1), unfolded n, OF n1(2)]
    note n3 = create_local_refs [OF c3 n2(1,2)]
    have "node_catalog_ok N3"
      using create_node_ok [OF ok(1) c1] create_interface_ok [OF _ c2] create_local_ok [OF _ c3] by blast
    moreover have "repset_catalog_ok d3"
      using create_set_ok [OF ok(3) d1] create_set_ok [OF _ d2] create_set_ok [OF _ d3] by blast
    moreover have "sets_local N3 d3"
      using ok(4) n1(5) n2(6) n3(2) create_set_eq [OF d1] create_set_eq [OF d2] create_set_eq [OF d3]
      by (auto simp: sets_local_def predefined_repset_def)
    ultimately show ?thesis
      using ok(5) n1(4) n2(4) n3(1,3) s' by (simp add: cats_ok_def)
  qed
  then show ?thesis
    by (auto simp: pglogical_create_node_def wp_simps)
qed

lemma drop_interfaces_ok: "node_catalog_ok N \<Longrightarrow> node_catalog_ok (drop_node_interfaces i N)"
  by (auto simp: node_catalog_ok_def drop_node_interfaces_def)

lemma drop_node_refs:
  assumes "drop_node i (drop_node_interfaces i N) = Inr N'" "node_catalog_ok N" "node_refs_ok N"
    and "i \<notin> local_ids N" "\<And>r. r \<in> set (cat_subscription N) \<Longrightarrow> st_origin r \<noteq> i"
  shows "node_catalog_ok N'" "node_refs_ok N'" "sets_local N' = sets_local N" "status_ok N' = status_ok N"
    "local_ids N' = local_ids N"
proof -
  have eq: "cat_node N' = filter (\<lambda>n. node_id n \<noteq> i) (cat_node N)" "cat_local_node N' = cat_local_node N"
    "cat_node_interface N' = filter (\<lambda>x. if_nodeid x \<noteq> i) (cat_node_interface N)"
    "cat_subscription N' = cat_subscription N"
    using assms(1,2) node_by_id.delete_first_filter [of "cat_node N" i]
    by (auto simp: drop_node_def drop_node_interfaces_def node_catalog_ok_def delete_all_def split: if_splits)
  show "node_catalog_ok N'"
    using drop_ok(1) [OF drop_interfaces_ok [OF assms(2)] assms(1)] .
  show "sets_local N' = sets_local N" "status_ok N' = status_ok N" and l: "local_ids N' = local_ids N"
    by (auto simp: sets_local_def status_ok_def local_ids_def eq fun_eq_iff)
  have ids: "node_ids N' = node_ids N - {i}" and ifs: "if_keys N' = {k \<in> if_keys N. snd k \<noteq> i}"
    by (auto simp: node_ids_def if_keys_def eq)
  have "sub_refs_ok N' r" if "r \<in> set (cat_subscription N)" for r
    using that assms(3-5) by (auto simp: node_refs_ok_def sub_refs_ok_def ifs l)
  moreover have "ln_id x \<noteq> i" if "x \<in> set (cat_local_node N)" for x
    using that assms(4) by (auto simp: local_ids_def)
  ultimately show "node_refs_ok N'"
    using assms(3) by (auto simp: node_refs_ok_def ids ifs eq)
qed

lemma local_node_Some:
  assumes "get_local_node m N = Inr (Some ln)"
  obtains l where "l \<in> set (cat_local_node N)" "cat_local_node N \<noteq> []" "node_id (ln_node ln) = ln_id l"
    "if_id (ln_node_if ln) = ln_if l" "l = hd (cat_local_node N)"
  using assms
  by (auto simp: get_local_node_def get_node_def get_node_interface_def rbind_eq_Inr
      split: list.splits option.splits if_splits dest!: find_Some_in)

lemma local_ids_eq:
  assumes "get_local_node m N = Inr found" "node_catalog_ok N"
  shows "local_ids N = (case found of None \<Rightarrow> {} | Some ln \<Rightarrow> {node_id (ln_node ln)})"
proof (cases "cat_local_node N")
  case Nil
  then show ?thesis using assms(1) by (auto simp: get_local_node_def local_ids_def split: if_splits)
next
  case (Cons l ls)
  then have "ls = []" using assms(2) by (simp add: node_catalog_ok_def)
  moreover have "\<exists>ln. found = Some ln \<and> node_id (ln_node ln) = ln_id l"
    using assms(1) Cons
    by (auto simp: get_local_node_def get_node_def rbind_eq_Inr split: option.splits dest!: find_Some_in)
  ultimately show ?thesis using Cons by (auto simp: local_ids_def)
qed

lemma require_local_Inr: "require_local_node N = Inr ln \<longleftrightarrow> get_local_node False N = Inr (Some ln)"
  by (auto simp: require_local_node_def rbind_eq_Inr split: option.splits)

lemma check_local_Inr: "check_local_node N = Inr ln \<longleftrightarrow> get_local_node True N = Inr (Some ln)"
  by (auto simp: check_local_node_def rbind_eq_Inr split: option.splits)

lemma node_subscriptions_Nil:
  "get_node_subscriptions i b N = Inr [] \<longleftrightarrow>
   (\<forall>r \<in> set (cat_subscription N). (if b then st_origin r else st_target r) \<noteq> i)"
proof -
  have "rmap f xs = Inr [] \<longleftrightarrow> xs = []" for f :: "SubscriptionTuple \<Rightarrow> PGLogicalSubscription result" and xs
    by (cases xs) (auto simp: rbind_eq_Inr)
  then show ?thesis
    by (auto simp: get_node_subscriptions_def filter_empty_conv)
qed

lemma foreach_keeps:
  assumes "foreach_row f rs s = Inr s'" "\<And>r s s'. f r s = Inr s' \<Longrightarrow> g s' = g s"
  shows "g s' = g s"
  using assms by (induction rs arbitrary: s) (auto simp: rbind_eq_Inr)

lemma remove_members_sets:
  "replication_set_remove_tables i n db = Inr db' \<Longrightarrow> cat_repset db' = cat_repset db"
  "replication_set_remove_seqs i n db = Inr db' \<Longrightarrow> cat_repset db' = cat_repset db"
  by (auto simp: replication_set_remove_tables_def replication_set_remove_seqs_def Let_def invalidate_Inr
      pglogical_drop_sequence_state_record_def elim!: foreach_keeps split: if_splits)

lemma set_delete_each:
  "distinct xs \<Longrightarrow> set (fold (\<lambda>s. delete_first (\<lambda>x. x = s)) rs xs) = set xs - set rs"
  by (induction rs arbitrary: xs) (auto simp: delete_row)

text \<open>The sets of a node are gone when they have been dropped; the others keep their node.\<close>

lemma drop_node_sets_eq:
  assumes "drop_node_replication_sets E i db = Inr db'" "repset_catalog_ok db"
  shows "rs_nodeid ` set (cat_repset db') \<subseteq> rs_nodeid ` set (cat_repset db) - {i}"
proof -
  let ?f = "\<lambda>repset db. rbind (replication_set_remove_tables (rs_id repset) (rs_nodeid repset) db) (\<lambda>db.
          rbind (replication_set_remove_seqs (rs_id repset) (rs_nodeid repset) db) (\<lambda>db.
          Inr (db\<lparr> cat_repset := delete_first (\<lambda>x. x = repset) (cat_repset db) \<rparr>)))"
  have "cat_repset d' = fold (\<lambda>s. delete_first (\<lambda>x. x = s)) rs (cat_repset d)"
    if "foreach_row ?f rs d = Inr d'" for rs d d'
    using that
  proof (induction rs arbitrary: d)
    case (Cons r rs)
    obtain d1 d2 where d: "replication_set_remove_tables (rs_id r) (rs_nodeid r) d = Inr d1"
      "replication_set_remove_seqs (rs_id r) (rs_nodeid r) d1 = Inr d2"
      and rest: "foreach_row ?f rs (d2\<lparr> cat_repset := delete_first (\<lambda>x. x = r) (cat_repset d2) \<rparr>) = Inr d'"
      using Cons.prems by (auto simp: rbind_eq_Inr)
    show ?case
      using Cons.IH [OF rest] remove_members_sets(1) [OF d(1)] remove_members_sets(2) [OF d(2)] by simp
  qed simp
  then have "cat_repset db' = fold (\<lambda>s. delete_first (\<lambda>x. x = s)) (filter (\<lambda>r. rs_nodeid r = i) (cat_repset db))
      (cat_repset db)"
    using assms(1) by (auto simp: drop_node_replication_sets_def rbind_eq_Inr)
  moreover have "distinct (cat_repset db)"
    using repset_okD(1) [OF assms(2)] by (rule rows_ok_distinct) (simp add: repset_conflicts_def)
  ultimately show ?thesis
    by (auto simp: set_delete_each)
qed

lemma drop_slots_wp: "wp (sforeach (drop_node_slot E) is) (\<lambda>_ s'. f_cats s' = C) s" if "f_cats s = C"
  using that
  by (intro wp_foreach)
    (auto simp: wp_def drop_node_slot_def part_write_def Let_def split: if_splits sum.splits)

lemma drop_local_refs:
  assumes "drop_local_node N = Inr N'" "node_catalog_ok N" "node_refs_ok N"
    and "\<And>r. r \<in> set (cat_subscription N) \<Longrightarrow> st_target r \<notin> local_ids N"
  shows "node_catalog_ok N'" "node_refs_ok N'" "local_ids N' = {}" "status_ok N' = status_ok N"
    "cat_subscription N' = []"
proof -
  have eq: "cat_local_node N' = []" "cat_node N' = cat_node N" "cat_node_interface N' = cat_node_interface N"
    "cat_subscription N' = cat_subscription N"
    using assms(1,2) by (auto simp: drop_local_node_def node_catalog_ok_def split: list.splits)
  have none: "cat_subscription N = []"
    using assms(3,4) by (cases "cat_subscription N") (auto simp: node_refs_ok_def sub_refs_ok_def)
  show "node_catalog_ok N'" "node_refs_ok N'" "local_ids N' = {}" "status_ok N' = status_ok N"
    "cat_subscription N' = []"
    using assms(2,3) none eq
    by (simp_all add: node_catalog_ok_def node_refs_ok_def local_ids_def status_ok_def if_keys_def node_ids_def
        fun_eq_iff)
qed

lemma drop_node_tail:
  assumes "node_catalog_ok (the_nodes s)" "node_refs_ok (the_nodes s)" "repset_catalog_ok (the_db s)"
    and "status_ok (the_nodes s) (the_status s)" "i \<notin> local_ids (the_nodes s)"
    and "\<And>r. r \<in> set (cat_subscription (the_nodes s)) \<Longrightarrow> st_origin r \<noteq> i"
    and "rs_nodeid ` set (cat_repset (the_db s)) \<subseteq> insert i (local_ids (the_nodes s))"
  shows "wp (sthen (nodes_write (\<lambda>cat. Inr (drop_node_interfaces i cat)))
          (sthen (db_write (drop_node_replication_sets (fe_rep E) i))
          (sthen (nodes_write (drop_node i)) (sret True)))) ok s"
proof -
  have "cats_ok (f_cats (put_nodes N' (put_db d (put_nodes (drop_node_interfaces i (the_nodes s)) s))))"
    if n: "drop_node i (drop_node_interfaces i (the_nodes s)) = Inr N'"
      and d: "drop_node_replication_sets (fe_rep E) i (the_db s) = Inr d" for N' d
    using drop_node_refs [OF n assms(1,2,5,6)] drop_sets_ok(2) [OF assms(3) d] assms(4,7)
      drop_node_sets_eq [OF d assms(3)]
    by (simp add: cats_ok_def sets_local_def) blast
  then show ?thesis
    by (simp add: wp_simps)
qed

lemma drop_node_records_wp:
  assumes "ok () s" and l: "get_local_node True (the_nodes s) = Inr local_node"
    and o: "\<And>r. r \<in> set (cat_subscription (the_nodes s)) \<Longrightarrow> st_origin r \<noteq> i \<and> st_target r \<noteq> i"
  shows "wp (drop_node_records E i local_node) ok s"
proof -
  note ok = cats_okD [OF assms(1)]
  let ?tail = "sthen (nodes_write (\<lambda>cat. Inr (drop_node_interfaces i cat)))
             (sthen (db_write (drop_node_replication_sets (fe_rep E) i))
             (sthen (nodes_write (drop_node i)) (sret True)))"
  show ?thesis
  proof (cases "\<exists>ln. local_node = Some ln \<and> node_id (ln_node ln) = i")
    case False
    have "i \<notin> local_ids (the_nodes s)"
      using local_ids_eq [OF l ok(1)] False by (auto split: option.splits)
    then have "wp ?tail ok s"
      using ok o by (intro drop_node_tail) (auto simp: sets_local_def)
    moreover have "\<not> (case local_node of None \<Rightarrow> False | Some ln \<Rightarrow> node_id (ln_node ln) = i)"
      using False by (auto split: option.splits)
    ultimately show ?thesis
      by (simp add: drop_node_records_def wp_bind wp_basic)
  next
    case True
    then obtain ln where ln: "local_node = Some ln" "node_id (ln_node ln) = i" by blast
    have loc: "local_ids (the_nodes s) = {i}"
      using local_ids_eq [OF l ok(1)] ln by simp
    have "wp ?tail ok (put_nodes N' s')"
      if "f_cats s' = f_cats s" and d: "drop_local_node (the_nodes s) = Inr N'" for s' N'
    proof -
      have "st_target r \<notin> local_ids (the_nodes s)" if "r \<in> set (cat_subscription (the_nodes s))" for r
        using o [OF that] loc by simp
      note r = drop_local_refs [OF d ok(1,2) this]
      show ?thesis
        using that(1) r ok(3-5) loc by (intro drop_node_tail) (simp_all add: sets_local_def)
    qed
    then have "wp (nodes_write drop_local_node) (\<lambda>_. wp ?tail ok) s'" if "f_cats s' = f_cats s" for s'
      using that by (simp add: wp_part)
    then have "wp (sforeach (drop_node_slot E) [0..<length (f_slots s)])
        (\<lambda>_. wp (nodes_write drop_local_node) (\<lambda>_. wp ?tail ok)) s"
      by (rule wp_mono [OF drop_slots_wp [OF refl]])
    then have "wp (\<lambda>s. sforeach (drop_node_slot E) [0..<length (f_slots s)] s)
        (\<lambda>_. wp (nodes_write drop_local_node) (\<lambda>_. wp ?tail ok)) s"
      by (simp only: wp_def)
    then show ?thesis
      using ln by (simp add: drop_node_records_def wp_bind)
  qed
qed

lemma drop_node_wp:
  assumes "ok () s"
  shows "wp (pglogical_drop_node E name ifexists) ok s"
  by (auto simp: pglogical_drop_node_def wp_simps assms node_subscriptions_Nil
      intro: drop_node_records_wp split: option.splits)

lemma node_by_name_in: "get_node_by_name n b N = Inr (Some node) \<Longrightarrow> node_id node \<in> node_ids N"
  by (auto simp: get_node_by_name_def node_ids_def split: option.splits if_splits dest!: find_Some_in)

lemma interface_by_name_in:
  "get_node_interface_by_name i n b N = Inr (Some nodeif) \<Longrightarrow>
   nodeif \<in> set (cat_node_interface N) \<and> if_nodeid nodeif = i"
  by (auto simp: get_node_interface_by_name_def split: option.splits if_splits dest!: find_Some_in)

lemma interface_in_keys: "i \<in> set (cat_node_interface N) \<Longrightarrow> (if_id i, if_nodeid i) \<in> if_keys N"
  by (auto simp: if_keys_def)

lemma interface_by_name_key:
  "get_node_interface_by_name i n b N = Inr (Some nodeif) \<Longrightarrow> (if_id nodeif, if_nodeid nodeif) \<in> if_keys N"
  by (blast dest: interface_by_name_in intro: interface_in_keys)

lemma create_interface_cats:
  assumes "ok () s" "create_node_interface h p nodeif (the_nodes s) = Inr (i, N')" "if_nodeid nodeif \<in> node_ids (the_nodes s)"
  shows "cats_ok (f_cats (put_nodes N' s))"
  using cats_okD [OF assms(1)] create_interface_ok [OF _ assms(2)] create_interface_refs [OF assms(2) _ assms(3)]
  by (simp add: cats_ok_def)

lemma add_interface_wp:
  assumes "ok () s"
  shows "wp (pglogical_alter_node_add_interface E name ifname dsn) ok s"
  by (auto simp: pglogical_alter_node_add_interface_def wp_simps split: option.splits
      intro!: create_interface_cats [OF assms] dest: node_by_name_in)

lemma drop_interface_refs:
  assumes "drop_node_interface (if_id i) N = Inr N'" "node_catalog_ok N" "node_refs_ok N" "\<not> interface_in_use i N"
  shows "node_refs_ok N'" "sets_local N' = sets_local N" "status_ok N' = status_ok N"
proof -
  have eq: "cat_node N' = cat_node N" "cat_local_node N' = cat_local_node N" "cat_subscription N' = cat_subscription N"
    "cat_node_interface N' = filter (\<lambda>x. if_id x \<noteq> if_id i) (cat_node_interface N)"
    using assms(1) if_by_id.delete_first_filter [of "cat_node_interface N" "if_id i"] nodes_okD(2) [OF assms(2)]
    by (auto simp: drop_node_interface_def split: if_splits)
  have ifs: "if_keys N' = {k \<in> if_keys N. fst k \<noteq> if_id i}"
    unfolding if_keys_def eq(4) set_filter by (safe; simp)
  have ids: "node_ids N' = node_ids N" and l: "local_ids N' = local_ids N"
    by (simp_all only: node_ids_def local_ids_def eq)
  show "sets_local N' = sets_local N" "status_ok N' = status_ok N"
    by (simp_all add: sets_local_def status_ok_def eq l fun_eq_iff)
  have unused: "\<forall>x \<in> set (cat_local_node N). ln_if x \<noteq> if_id i"
    "\<forall>r \<in> set (cat_subscription N). st_origin_if r \<noteq> if_id i \<and> st_target_if r \<noteq> if_id i"
    using assms(4) by (simp_all add: interface_in_use_def list_ex_iff)
  then have "sub_refs_ok N' r" if "r \<in> set (cat_subscription N)" for r
    using that assms(3) by (simp add: node_refs_ok_def sub_refs_ok_def ifs l)
  moreover have "(ln_if x, ln_id x) \<in> if_keys N'" if "x \<in> set (cat_local_node N)" for x
    using that assms(3) unused by (simp add: node_refs_ok_def ifs)
  ultimately show "node_refs_ok N'"
    using assms(3) by (auto simp: node_refs_ok_def eq ids ifs)
qed

lemma drop_interface_cats:
  assumes "ok () s" "drop_node_interface (if_id i) (the_nodes s) = Inr N'" "\<not> interface_in_use i (the_nodes s)"
  shows "cats_ok (f_cats (put_nodes N' s))"
  using cats_okD [OF assms(1)] drop_ok(2) [OF _ assms(2)] drop_interface_refs [OF assms(2) _ _ assms(3)]
  by (simp add: cats_ok_def)

lemma drop_interface_wp:
  assumes "ok () s" "\<not> drops_used_interface (F_alter_node_drop_interface name ifname) (the_nodes s)"
  shows "wp (pglogical_alter_node_drop_interface name ifname) ok s"
  using assms(2)
  by (auto simp: pglogical_alter_node_drop_interface_def wp_simps split: option.splits
      intro!: drop_interface_cats [OF assms(1)])

lemma create_node_cats:
  assumes "ok () s" "create_node h node (the_nodes s) = Inr (n, N')"
  shows "cats_ok (f_cats (put_nodes N' s))"
  using cats_okD [OF assms(1)] create_node_ok [OF _ assms(2)] create_node_refs [OF assms(2)]
  by (simp add: cats_ok_def)

lemma origin_interface_wp:
  assumes "ok () s"
  shows "wp (origin_interface E origin dsn) (\<lambda>i s'. cats_ok (f_cats s') \<and> grown (the_nodes s) (the_nodes s') \<and>
    (if_id i, if_nodeid i) \<in> if_keys (the_nodes s')) s"
proof -
  have "cats_ok (f_cats (put_nodes N2 (put_nodes N1 s))) \<and> grown (the_nodes s) N2 \<and> (if_id i, if_nodeid i) \<in> if_keys N2"
    if c1: "create_node h node (the_nodes s) = Inr (n, N1)" and c2: "create_node_interface h p (iface n) N1 = Inr (i, N2)"
      and n: "if_nodeid (iface n) = node_id n" for h p node n N1 N2 i iface
  proof -
    note n1 = create_node_refs [OF c1 cats_okD(2) [OF assms]]
    note n2 = create_interface_refs [OF c2 n1(1), unfolded n, OF n1(2)]
    have "cats_ok (f_cats (put_nodes N2 (put_nodes N1 s)))"
      by (rule create_interface_cats [OF create_node_cats [OF assms c1]]) (use c2 n n1(2) in auto)
    moreover have "if_keys (the_nodes s) \<subseteq> if_keys N2"
      using create_node_eq [OF c1] create_interface_eq [OF c2] by (auto simp: if_keys_def)
    ultimately show ?thesis
      using n1(5) n2(2,6) create_interface_eq(4) [OF c2] n by (simp add: grown_def)
  qed
  then show ?thesis
    using assms by (auto simp: origin_interface_def wp_simps grown_def split: option.splits intro: interface_by_name_key)
qed

lemma create_sub_refs:
  assumes c: "create_subscription h sub N = Inr (x, N')" and "node_refs_ok N"
    and "(if_id (sub_origin_if sub), if_nodeid (sub_origin_if sub)) \<in> if_keys N"
    and "(if_id (sub_target_if sub), if_nodeid (sub_target_if sub)) \<in> if_keys N"
    and "if_nodeid (sub_target_if sub) \<in> local_ids N" "sub_apply_delay sub \<noteq> None"
  shows "node_refs_ok N'" "sets_local N' = sets_local N"
    "st_id ` set (cat_subscription N') = insert (sub_id x) (st_id ` set (cat_subscription N))"
    "sub_id x \<notin> st_id ` set (cat_subscription N)"
proof -
  obtain row where eq: "cat_subscription N' = cat_subscription N @ [row]" "cat_node N' = cat_node N"
    "cat_local_node N' = cat_local_node N" "cat_node_interface N' = cat_node_interface N"
    and row: "st_id row = sub_id x" "st_origin_if row = if_id (sub_origin_if sub)"
      "st_origin row = if_nodeid (sub_origin_if sub)" "st_target_if row = if_id (sub_target_if sub)"
      "st_target row = if_nodeid (sub_target_if sub)" "st_apply_delay row = sub_apply_delay sub"
    and fresh: "sub_id x \<notin> st_id ` set (cat_subscription N)"
    using c by (rule create_subscription_Inr)
      (fastforce simp: catalog_insert_Inr list_ex_iff subscription_conflicts_def)
  have keys: "if_keys N' = if_keys N" "node_ids N' = node_ids N" "local_ids N' = local_ids N"
    by (simp_all add: if_keys_def node_ids_def local_ids_def eq)
  then show "sets_local N' = sets_local N"
    by (simp add: sets_local_def fun_eq_iff)
  have "sub_refs_ok N' = sub_refs_ok N"
    by (simp add: sub_refs_ok_def keys fun_eq_iff)
  moreover have "sub_refs_ok N row"
    using assms(3-6) row by (simp add: sub_refs_ok_def)
  ultimately show "node_refs_ok N'"
    using assms(2) by (auto simp: node_refs_ok_def keys eq)
  show "st_id ` set (cat_subscription N') = insert (sub_id x) (st_id ` set (cat_subscription N))"
    "sub_id x \<notin> st_id ` set (cat_subscription N)"
    using fresh by (simp_all add: eq row)
qed

text \<open>A new subscription gets its status row.\<close>

lemma new_status_ok:
  assumes "status_ok N rows" "create_local_sync_status st rows = Inr rows'"
    and "st_id ` set (cat_subscription N') = insert (sync_subid st) (st_id ` set (cat_subscription N))"
    and "sync_subid st \<notin> st_id ` set (cat_subscription N)" "sync_nspname st = None" "sync_relname st = None"
  shows "status_ok N' rows'"
proof -
  have rows': "rows' = rows @ [st]"
    using assms(2,5,6) by (auto simp: create_local_sync_status_def catalog_insert_Inr)
  have "sync_subid r \<noteq> sync_subid st" if "r \<in> set rows" for r
    using that assms(1,4) unfolding status_ok_def by (metis image_eqI subsetD)
  then have none: "filter (is_subscription_row (sync_subid st)) rows = []"
    by (auto simp: is_subscription_row_def filter_empty_conv)
  have "length (filter (is_subscription_row i) rows') = 1" if "i \<in> st_id ` set (cat_subscription N')" for i
    using that assms none by (cases "i = sync_subid st") (auto simp: status_ok_def rows' is_subscription_row_def)
  then show ?thesis
    using assms(1,3) rows' by (auto simp: status_ok_def)
qed

lemma create_subscription_cats:
  assumes "ok () s" and c: "create_subscription h (new_subscription E name origin oif ln sets fwd delay) (the_nodes s) = Inr (x, N')"
    and "create_local_sync_status \<lparr> sync_kind = k, sync_subid = sub_id x, sync_nspname = None, sync_relname = None,
      sync_status = SYNC_STATUS_INIT \<rparr> (the_status s) = Inr rows'"
    and "(if_id oif, if_nodeid oif) \<in> if_keys (the_nodes s)"
    and "(if_id (ln_node_if ln), node_id (ln_node ln)) \<in> if_keys (the_nodes s)" "node_id (ln_node ln) \<in> local_ids (the_nodes s)"
  shows "cats_ok (f_cats (put_status rows' (put_nodes N' s)))"
proof -
  note ok = cats_okD [OF assms(1)]
  have refs: "node_refs_ok N'" "sets_local N' = sets_local (the_nodes s)"
    "st_id ` set (cat_subscription N') = insert (sub_id x) (st_id ` set (cat_subscription (the_nodes s)))"
    "sub_id x \<notin> st_id ` set (cat_subscription (the_nodes s))"
    using create_sub_refs [OF c ok(2)] assms(4-6) by (simp_all add: new_subscription_def)
  have "status_ok N' rows'"
    by (rule new_status_ok [OF ok(5) assms(3)]) (simp_all add: refs)
  then show ?thesis
    using ok refs(1,2) create_subscription_ok [OF ok(1) c] by (simp add: cats_ok_def)
qed

lemma local_node_keys:
  assumes "get_local_node m N = Inr (Some ln)" "node_refs_ok N"
  shows "(if_id (ln_node_if ln), node_id (ln_node ln)) \<in> if_keys N" "node_id (ln_node ln) \<in> local_ids N"
  using assms by (auto elim!: local_node_Some simp: node_refs_ok_def local_ids_def)

lemma create_subscription_wp:
  assumes "ok () s"
  shows "wp (pglogical_create_subscription E name dsn sets st da fwd delay) ok s"
proof -
  have origin: "wp (origin_interface E origin dsn) R s"
    if "get_local_node False (the_nodes s) = Inr (Some ln)"
      and "\<And>i s'. cats_ok (f_cats s') \<Longrightarrow> (if_id i, if_nodeid i) \<in> if_keys (the_nodes s') \<Longrightarrow>
        (if_id (ln_node_if ln), node_id (ln_node ln)) \<in> if_keys (the_nodes s') \<Longrightarrow>
        node_id (ln_node ln) \<in> local_ids (the_nodes s') \<Longrightarrow> R i s'" for ln origin R
    by (rule wp_mono [OF origin_interface_wp [OF assms]])
      (use local_node_keys [OF that(1) cats_okD(2) [OF assms]] that(2) in \<open>auto simp: grown_def\<close>)
  show ?thesis
    by (auto simp: pglogical_create_subscription_def Let_def wp_simps require_local_Inr
        intro!: origin create_subscription_cats)
qed

text \<open>A subscription as it is read: its parts are those its row refers to.\<close>

lemma sub_named:
  assumes "get_subscription_by_name n b N = Inr (Some sub)" "node_catalog_ok N" "node_refs_ok N"
  obtains r where "r \<in> set (cat_subscription N)" "sub_id sub = st_id r" "node_id (sub_origin sub) = st_origin r"
    "(if_id (sub_origin_if sub), if_nodeid (sub_origin_if sub)) \<in> if_keys N"
    "(if_id (sub_target_if sub), if_nodeid (sub_target_if sub)) \<in> if_keys N"
    "if_nodeid (sub_target_if sub) \<in> local_ids N" "sub_apply_delay sub \<noteq> None"
    "sub_replication_sets sub = (case st_replication_sets r of None \<Rightarrow> [] | Some l \<Rightarrow> l)"
proof -
  obtain r where r: "r \<in> set (cat_subscription N)" and f: "subscription_fromtuple r N = Inr sub"
    using assms(1)
    by (auto simp: get_subscription_by_name_def rbind_eq_Inr split: option.splits if_splits dest!: find_Some_in)
  have refs: "sub_refs_ok N r"
    using assms(3) r by (simp add: node_refs_ok_def)
  have parts: "sub_id sub = st_id r" "node_id (sub_origin sub) = st_origin r" "sub_apply_delay sub = st_apply_delay r"
    "sub_origin_if sub \<in> set (cat_node_interface N)" "sub_target_if sub \<in> set (cat_node_interface N)"
    "if_id (sub_target_if sub) = st_target_if r"
    "sub_replication_sets sub = (case st_replication_sets r of None \<Rightarrow> [] | Some l \<Rightarrow> l)"
    using f by (auto simp: subscription_fromtuple_def rbind_eq_Inr get_node_def get_node_interface_def
        split: option.splits dest!: find_Some_in)
  obtain t where t: "t \<in> set (cat_node_interface N)" "if_id t = st_target_if r" "if_nodeid t = st_target r"
    using refs by (auto simp: sub_refs_ok_def if_keys_def)
  have "sub_target_if sub = t"
    using if_by_id.key_inj [OF nodes_okD(2) [OF assms(2)] parts(5) t(1)] parts(6) t(2) by simp
  then show ?thesis
    using that [OF r parts(1,2)] parts refs t by (auto simp: sub_refs_ok_def intro: interface_in_keys)
qed

lemma alter_refs:
  assumes "alter_subscription sub N = Inr N'" "node_refs_ok N"
    and "(if_id (sub_origin_if sub), if_nodeid (sub_origin_if sub)) \<in> if_keys N"
    and "(if_id (sub_target_if sub), if_nodeid (sub_target_if sub)) \<in> if_keys N"
    and "if_nodeid (sub_target_if sub) \<in> local_ids N"
  shows "node_refs_ok N'" "sets_local N' = sets_local N" "status_ok N' = status_ok N"
proof -
  let ?f = "\<lambda>oldtup. oldtup\<lparr> st_origin := if_nodeid (sub_origin_if sub), st_target := if_nodeid (sub_target_if sub),
      st_origin_if := if_id (sub_origin_if sub), st_target_if := if_id (sub_target_if sub),
      st_enabled := sub_enabled sub, st_slot_name := namestrcpy (sub_slot_name sub),
      st_replication_sets := list_or_null (sub_replication_sets sub),
      st_forward_origins := list_or_null (sub_forward_origins sub), st_apply_delay := sub_apply_delay sub \<rparr>"
  have eq: "cat_subscription N' = update_first (\<lambda>r. st_id r = sub_id sub) ?f (cat_subscription N)"
    "cat_node N' = cat_node N" "cat_local_node N' = cat_local_node N" "cat_node_interface N' = cat_node_interface N"
    and delay: "sub_apply_delay sub \<noteq> None"
    using assms(1) by (auto simp: alter_subscription_def split: if_splits)
  have keys: "if_keys N' = if_keys N" "node_ids N' = node_ids N" "local_ids N' = local_ids N"
    by (simp_all only: if_keys_def node_ids_def local_ids_def eq)
  have ids: "st_id ` set (cat_subscription N') = st_id ` set (cat_subscription N)"
    unfolding eq by (rule update_first_image) simp
  show "sets_local N' = sets_local N" "status_ok N' = status_ok N"
    by (simp_all add: sets_local_def status_ok_def keys ids fun_eq_iff)
  have refs: "sub_refs_ok N' = sub_refs_ok N"
    by (simp add: sub_refs_ok_def keys fun_eq_iff)
  have "sub_refs_ok N r" if "r \<in> set (cat_subscription N')" for r
    using that [unfolded eq, THEN in_update_first] assms(2-5) delay
    by (auto simp: node_refs_ok_def) (simp add: sub_refs_ok_def)
  then show "node_refs_ok N'"
    using assms(2) by (simp add: node_refs_ok_def keys eq refs)
qed

lemma alter_cats:
  assumes "ok () s" "get_subscription_by_name n b (the_nodes s) = Inr (Some sub)"
    and a: "alter_subscription sub' (the_nodes s) = Inr N'"
    and "sub_target_if sub' = sub_target_if sub"
    and "sub_origin_if sub' = sub_origin_if sub \<or> sub_origin_if sub' \<in> set (cat_node_interface (the_nodes s))"
  shows "cats_ok (f_cats (put_nodes N' s))"
proof -
  note ok = cats_okD [OF assms(1)]
  from assms(2) ok(1,2) have "(if_id (sub_origin_if sub'), if_nodeid (sub_origin_if sub')) \<in> if_keys (the_nodes s)"
    "(if_id (sub_target_if sub'), if_nodeid (sub_target_if sub')) \<in> if_keys (the_nodes s)"
    "if_nodeid (sub_target_if sub') \<in> local_ids (the_nodes s)"
    by (rule sub_named; use assms(4,5) in \<open>auto intro: interface_in_keys\<close>)+
  from alter_refs [OF a ok(2) this] show ?thesis
    using ok alter_subscription_ok [OF ok(1) a] by (simp add: cats_ok_def)
qed

lemma named_subscription_wp [wp_simps]:
  "wp (named_subscription n) Q s \<longleftrightarrow>
   (\<forall>sub. get_subscription_by_name n False (the_nodes s) = Inr (Some sub) \<longrightarrow> Q sub s)"
  unfolding named_subscription_def wp_part
  by (cases "get_subscription_by_name n False (the_nodes s)") (auto split: option.splits)

lemma named_repset_wp [wp_simps]:
  "wp (named_repset node n) Q s \<longleftrightarrow>
   (\<forall>r. get_replication_set_by_name (node_id (ln_node node)) n False (the_db s) = Inr (Some r) \<longrightarrow> Q r s)"
  unfolding named_repset_def wp_part
  by (cases "get_replication_set_by_name (node_id (ln_node node)) n False (the_db s)") (auto split: option.splits)

lemma other_parts [simp]:
  "f_cats (s\<lparr> f_ctx := c \<rparr>) = f_cats s" "f_cats (s\<lparr> f_log := l \<rparr>) = f_cats s"
  "f_cats (s\<lparr> f_remote_drops := d \<rparr>) = f_cats s"
  by simp_all

lemma kill_apply_wp [wp_simps]: "wp (kill_apply E i) ok s \<longleftrightarrow> ok () s"
  by (simp add: kill_apply_def wp_basic)

lemma alter_functions_wp:
  assumes "ok () s"
  shows "wp (pglogical_alter_subscription_disable E n immediate) ok s"
    "wp (pglogical_alter_subscription_enable E n immediate) ok s"
    "wp (pglogical_alter_subscription_interface n ifname) ok s"
    "wp (pglogical_alter_subscription_add_replication_set n setname) ok s"
    "wp (pglogical_alter_subscription_remove_replication_set n setname) ok s"
  using assms
  by (auto simp: pglogical_alter_subscription_disable_def pglogical_alter_subscription_enable_def
      pglogical_alter_subscription_interface_def pglogical_alter_subscription_add_replication_set_def
      pglogical_alter_subscription_remove_replication_set_def wp_simps kill_apply_def split: option.splits
      intro!: alter_cats dest: interface_by_name_in)

text \<open>Status rows of tables.\<close>

lemma table_status_ok:
  assumes "status_ok N rows" "i \<in> st_id ` set (cat_subscription N)"
  shows "create_local_sync_status (new_table_sync i nsp t) rows = Inr rows' \<Longrightarrow> status_ok N rows'"
    and "set_table_sync_status i nsp t st rows = Inr rows' \<Longrightarrow> status_ok N rows'"
proof -
  assume "create_local_sync_status (new_table_sync i nsp t) rows = Inr rows'"
  then obtain r where "rows' = rows @ [r]" "sync_subid r = i" "sync_nspname r \<noteq> None"
    by (auto simp: create_local_sync_status_def new_table_sync_def catalog_insert_Inr)
  then show "status_ok N rows'"
    using assms by (auto simp: status_ok_def is_subscription_row_def)
next
  assume "set_table_sync_status i nsp t st rows = Inr rows'"
  then have r: "rows' = update_first (is_table_row i nsp t) (\<lambda>r. r\<lparr> sync_status := st \<rparr>) rows"
    by (auto simp: set_table_sync_status_def split: option.splits)
  have "length (filter (is_subscription_row j) (update_first Q (\<lambda>r. r\<lparr> sync_status := st \<rparr>) xs)) =
      length (filter (is_subscription_row j) xs)" for j Q and xs :: "PGLogicalSyncStatus list"
    by (induction xs) (auto simp: is_subscription_row_def)
  moreover have "sync_subid ` set (update_first Q (\<lambda>r. r\<lparr> sync_status := st \<rparr>) xs) = sync_subid ` set xs"
    for Q and xs :: "PGLogicalSyncStatus list"
    by (rule update_first_image) simp
  ultimately show "status_ok N rows'"
    using assms(1) by (simp add: status_ok_def r)
qed

lemma put_status_cats: "ok () s \<Longrightarrow> status_ok (the_nodes s) rows \<Longrightarrow> cats_ok (f_cats (put_status rows s))"
  by (simp add: cats_ok_def)

lemma put_other_cats [simp]:
  "cats_ok (f_cats (put_rows w s)) = cats_ok (f_cats s)" "cats_ok (f_cats (put_queue q s)) = cats_ok (f_cats s)"
  "cats_ok (f_cats (put_nodes (pglogical_subscription_changed i (the_nodes s)) s)) = cats_ok (f_cats s)"
  by (auto simp: cats_ok_def node_catalog_ok_def)

lemma tell_apply_wp [wp_simps]: "wp (tell_apply E i) ok s \<longleftrightarrow> ok () s"
  by (simp add: wp_def tell_apply_def Let_def)

lemma synchronize_missing_wp:
  "ok_with i s \<Longrightarrow> wp (synchronize_missing E i trunc rel) (\<lambda>_. ok_with i) s"
  by (auto simp: synchronize_missing_def backend_truncate_table_def wp_simps ok_with_def
      intro!: put_status_cats table_status_ok(1) [OF cats_okD(5)])

lemma sub_named_id:
  "get_subscription_by_name n b (the_nodes s) = Inr (Some sub) \<Longrightarrow> ok () s \<Longrightarrow> ok_with (sub_id sub) s"
  using sub_named [OF _ cats_okD(1,2)] unfolding ok_with_def by (metis image_eqI)

lemma synchronize_functions_wp:
  assumes "ok () s"
  shows "wp (pglogical_alter_subscription_synchronize E n trunc) ok s"
    "wp (pglogical_alter_subscription_resynchronize_table E n rid trunc) ok s"
proof -
  have loop: "wp (sforeach (synchronize_missing E i trunc) rels) R s"
    if "ok_with i s" "\<And>s'. ok_with i s' \<Longrightarrow> R () s'" for i rels s R
    by (rule wp_mono [OF wp_foreach [OF synchronize_missing_wp that(1)]]) (auto intro: that(2))
  show "wp (pglogical_alter_subscription_synchronize E n trunc) ok s"
    using assms
    by (auto simp: pglogical_alter_subscription_synchronize_def wp_simps ok_with_def
        intro!: loop dest: sub_named_id)
  show "wp (pglogical_alter_subscription_resynchronize_table E n rid trunc) ok s"
    using assms
    by (auto simp: pglogical_alter_subscription_resynchronize_table_def relation_name_def backend_truncate_table_def
        wp_simps ok_with_def split: option.splits dest!: sub_named_id
        intro!: put_status_cats intro: table_status_ok [OF cats_okD(5)])
qed

lemma drop_sub_cats:
  assumes "ok () s" "drop_subscription i (the_nodes s) = Inr N'"
  shows "cats_ok (f_cats (put_nodes N' (put_status (drop_subscription_sync_status i (the_status s)) s)))"
proof -
  note ok = cats_okD [OF assms(1)]
  have eq: "cat_subscription N' = filter (\<lambda>r. st_id r \<noteq> i) (cat_subscription (the_nodes s))"
    "cat_node N' = cat_node (the_nodes s)" "cat_local_node N' = cat_local_node (the_nodes s)"
    "cat_node_interface N' = cat_node_interface (the_nodes s)"
    using assms(2) sub_by_id.delete_first_filter [OF nodes_okD(3) [OF ok(1)], of i]
    by (auto simp: drop_subscription_def split: if_splits)
  have keys: "if_keys N' = if_keys (the_nodes s)" "node_ids N' = node_ids (the_nodes s)"
    "local_ids N' = local_ids (the_nodes s)"
    by (simp_all only: if_keys_def node_ids_def local_ids_def eq)
  have "node_refs_ok N'"
    using ok(2) by (auto simp: node_refs_ok_def sub_refs_ok_def keys eq)
  moreover have "filter (is_subscription_row j) (delete_all (\<lambda>r. sync_subid r = i) rows) =
      filter (is_subscription_row j) rows" if "j \<noteq> i" for j rows
    using that by (induction rows) (auto simp: delete_all_def is_subscription_row_def)
  then have "status_ok N' (drop_subscription_sync_status i (the_status s))"
    using ok(5) by (fastforce simp: status_ok_def drop_subscription_sync_status_def eq)
  ultimately show ?thesis
    using ok(3,4) drop_ok(3) [OF ok(1) assms(2)] by (simp add: cats_ok_def sets_local_def keys)
qed

lemma drop_origin_wp: "ok () s \<Longrightarrow> wp (drop_origin E n) ok s"
  by (auto simp: wp_def drop_origin_def cats_ok_def split: if_splits)

lemma drop_provider_slot_wp:
  "(\<And>s'. f_cats s' = f_cats s \<Longrightarrow> R () s') \<Longrightarrow> wp (drop_provider_slot E sub) R s"
  by (auto simp: wp_def drop_provider_slot_def split: sum.splits if_splits)

lemma drop_on_subscriber_wp:
  assumes "ok () s" "node_id (sub_origin sub) \<notin> local_ids (the_nodes s)"
  shows "wp (drop_on_subscriber E sub) ok s"
proof -
  note ok = cats_okD [OF assms(1)]
  let ?i = "node_id (sub_origin sub)"
  let ?rest = "sthen (kill_apply E (sub_id sub))
     (sthen (on_part f_ctx (\<lambda>t s. s\<lparr> f_ctx := t \<rparr>) (wait_apply_exit (fe_looks E) (fe_database E) (sub_id sub) 0))
     (sthen (drop_provider_slot E sub) (drop_origin E (sub_slot_name sub))))"
  have rest: "wp ?rest ok s'" if "ok () s'" for s'
    using that
    by (auto simp: wp_simps kill_apply_def wp_def [of "on_part _ _ _"] on_part_eq
        intro!: drop_provider_slot_wp drop_origin_wp)
  have "cats_ok (f_cats (put_nodes N' (put_nodes (drop_node_interfaces ?i (the_nodes s)) s)))"
    if "drop_node ?i (drop_node_interfaces ?i (the_nodes s)) = Inr N'"
      and "get_node_subscriptions ?i True (the_nodes s) = Inr []" for N'
    using drop_node_refs [OF that(1) ok(1,2) assms(2)] that(2) ok(3-5)
    by (simp add: cats_ok_def node_subscriptions_Nil)
  then show ?thesis
    using rest assms(1) by (auto simp: drop_on_subscriber_def wp_bind wp_part wp_split)
qed

lemma drop_subscription_wp:
  assumes "ok () s"
  shows "wp (pglogical_drop_subscription E name ifexists) ok s"
proof -
  have "wp (drop_on_subscriber E sub) ok (put_nodes N' (put_status (drop_subscription_sync_status i (the_status s)) s))"
    if d: "drop_subscription i (the_nodes s) = Inr N'" and l: "get_local_node False (the_nodes s) = Inr (Some ln)"
      and n: "node_id (sub_origin sub) \<noteq> node_id (ln_node ln)" for sub i N' ln
  proof (rule drop_on_subscriber_wp [OF drop_sub_cats [OF assms d]])
    have "local_ids N' = local_ids (the_nodes s)"
      using d by (auto simp: drop_subscription_def local_ids_def split: if_splits)
    then show "node_id (sub_origin sub) \<notin> local_ids (the_nodes (put_nodes N' (put_status (drop_subscription_sync_status i (the_status s)) s)))"
      using local_ids_eq [OF l cats_okD(1) [OF assms]] n by simp
  qed
  then show ?thesis
    using assms drop_sub_cats [OF assms]
    by (auto simp: pglogical_drop_subscription_def wp_simps require_local_Inr split: option.splits)
qed

section \<open>The functions on replication sets keep the invariant\<close>

lemma rows_ok_seq_state: "rows_ok seq_state_conflicts t \<longleftrightarrow> distinct (map ss_seqoid t)"
  by (induction t) (auto simp: rows_ok_def seq_state_conflicts_def)

lemma state_row_ok:
  assumes "repset_catalog_ok db" "cache_size_ok n"
  shows "repset_catalog_ok (db\<lparr> cat_sequence_state :=
    update_first (\<lambda>r. ss_seqoid r = ss_seqoid n) (\<lambda>_. n) (cat_sequence_state db) \<rparr>)"
proof -
  let ?u = "update_first (\<lambda>r. ss_seqoid r = ss_seqoid n) (\<lambda>_. n)"
  have ids: "map ss_seqoid (?u t) = map ss_seqoid t" for t
    by (induction t) auto
  then have "ss_seqoid ` set (?u t) = ss_seqoid ` set t" for t
    by (metis list.set_map)
  moreover have "list_all cache_size_ok (?u (cat_sequence_state db))"
    using assms by (auto simp: repset_catalog_ok_def list_all_iff dest!: in_update_first)
  ultimately show ?thesis
    unfolding list_all_iff
    using assms(1) by (simp add: repset_catalog_ok_def rows_ok_seq_state ids identity_ok_def)
qed

lemma put_db_cats:
  assumes "ok () s" "repset_catalog_ok d" "rs_nodeid ` set (cat_repset d) \<subseteq> local_ids (the_nodes s)"
  shows "cats_ok (f_cats (put_db d s))"
  using assms by (simp add: cats_ok_def sets_local_def)

lemma alter_set_nodes:
  assumes "alter_replication_set r db = Inr db'"
  shows "rs_nodeid ` set (cat_repset db') = rs_nodeid ` set (cat_repset db)"
proof -
  obtain Q f where "cat_repset db' = update_first Q f (cat_repset db)" "\<And>x. rs_nodeid (f x) = rs_nodeid x"
    using assms by (auto simp: alter_replication_set_def rbind_eq_Inr split: if_splits)
  then show ?thesis by (simp add: update_first_image)
qed

lemma drop_set_nodes:
  assumes "repset_catalog_ok db" "drop_replication_set E i db = Inr db'"
  shows "rs_nodeid ` set (cat_repset db') \<subseteq> rs_nodeid ` set (cat_repset db)"
  using assms by (rule drop_set_Inr) (auto simp: without_set_def)

lemma member_sets:
  "replication_set_add_table E i rid atts flt db = Inr db' \<Longrightarrow> cat_repset db' = cat_repset db"
  "replication_set_add_seq i rid db = Inr db' \<Longrightarrow> cat_repset db' = cat_repset db"
  "replication_set_remove_table i rid b db = Inr db' \<Longrightarrow> cat_repset db' = cat_repset db"
  "replication_set_remove_seq i rid b db = Inr db' \<Longrightarrow> cat_repset db' = cat_repset db"
  by (auto simp: replication_set_add_table_def replication_set_add_seq_def replication_set_remove_table_def
      replication_set_remove_seq_def pglogical_create_sequence_state_record_def pglogical_drop_sequence_state_record_def
      rbind_eq_Inr Let_def invalidate_Inr split: if_splits)

text \<open>A change of the replication set catalogs that keeps their invariant and the nodes of the sets.\<close>

lemma set_change_cats:
  assumes "ok () s"
  shows "alter_replication_set r (the_db s) = Inr d \<Longrightarrow> cats_ok (f_cats (put_db d s))"
    "drop_replication_set E i (the_db s) = Inr d \<Longrightarrow> cats_ok (f_cats (put_db d s))"
    "replication_set_add_table E i rid atts flt (the_db s) = Inr d \<Longrightarrow> cats_ok (f_cats (put_db d s))"
    "replication_set_add_seq i rid (the_db s) = Inr d \<Longrightarrow> cats_ok (f_cats (put_db d s))"
    "replication_set_remove_table i rid False (the_db s) = Inr d \<Longrightarrow> cats_ok (f_cats (put_db d s))"
    "replication_set_remove_seq i rid False (the_db s) = Inr d \<Longrightarrow> cats_ok (f_cats (put_db d s))"
proof -
  note ok = cats_okD(3) [OF assms]
  have keep: "cats_ok (f_cats (put_db d s))"
    if "repset_catalog_ok d" "rs_nodeid ` set (cat_repset d) \<subseteq> rs_nodeid ` set (cat_repset (the_db s))" for d
    using put_db_cats [OF assms that(1)] that(2) cats_okD(4) [OF assms] by (metis sets_local_def subset_trans)
  show "alter_replication_set r (the_db s) = Inr d \<Longrightarrow> cats_ok (f_cats (put_db d s))"
    by (frule alter_set_nodes) (auto intro!: keep alter_set_ok [OF ok])
  show "drop_replication_set E i (the_db s) = Inr d \<Longrightarrow> cats_ok (f_cats (put_db d s))"
    by (rule keep [OF drop_sets_ok(1) [OF ok] drop_set_nodes [OF ok]])
  show "replication_set_add_table E i rid atts flt (the_db s) = Inr d \<Longrightarrow> cats_ok (f_cats (put_db d s))"
    by (frule member_sets) (auto intro!: keep add_table_ok [OF ok])
  show "replication_set_add_seq i rid (the_db s) = Inr d \<Longrightarrow> cats_ok (f_cats (put_db d s))"
    by (frule member_sets) (auto intro!: keep add_seq_ok [OF ok])
  show "replication_set_remove_table i rid False (the_db s) = Inr d \<Longrightarrow> cats_ok (f_cats (put_db d s))"
    by (frule member_sets) (auto intro!: keep remove_table_ok [OF ok])
  show "replication_set_remove_seq i rid False (the_db s) = Inr d \<Longrightarrow> cats_ok (f_cats (put_db d s))"
    by (frule member_sets) (auto intro!: keep remove_seq_ok [OF ok])
qed

lemma queue_ok: "ok () s \<Longrightarrow> wp (queue_for_sets E sets ty msg) ok s"
  by (auto simp: queue_for_sets_def wp_part)

lemma simple_set_functions_wp:
  assumes "ok () s"
  shows "wp (pglogical_alter_replication_set sn a b c d) ok s"
    "wp (pglogical_drop_replication_set E n ifexists) ok s"
    "wp (pglogical_replication_set_remove_table n rid) ok s"
    "wp (pglogical_replication_set_remove_sequence n rid) ok s"
  using assms
  by (auto simp: pglogical_alter_replication_set_def pglogical_drop_replication_set_def
      pglogical_replication_set_remove_table_def pglogical_replication_set_remove_sequence_def wp_simps
      split: option.splits intro: set_change_cats)

lemma create_set_wp:
  assumes "ok () s"
  shows "wp (pglogical_create_replication_set E n a b c d) ok s"
proof -
  note ok = cats_okD [OF assms]
  have "cats_ok (f_cats (put_db d s))"
    if "create_replication_set (fe_rep E) r (the_db s) = Inr (x, d)" "rs_nodeid r = node_id (ln_node ln)"
      and "get_local_node True (the_nodes s) = Inr (Some ln)" for r x d ln
    using that ok(4) create_set_eq [OF that(1)] create_set_ok [OF ok(3) that(1)] local_node_keys(2) [OF that(3) ok(2)]
    by (intro put_db_cats [OF assms]) (auto simp: sets_local_def)
  then show ?thesis
    by (auto simp: pglogical_create_replication_set_def wp_simps check_local_Inr)
qed

lemma add_table_wp:
  assumes "ok () s"
  shows "wp (pglogical_replication_set_add_table D sn rel sy cols flt) ok s"
  using assms
  by (auto simp: pglogical_replication_set_add_table_def relation_name_def wp_simps split: option.splits
      intro!: queue_ok intro: set_change_cats)

lemma queue_sequence_ok: "ok () s \<Longrightarrow> wp (queue_sequence E r rid nsp rn) ok s"
  by (auto simp: queue_sequence_def wp_simps intro!: queue_ok)

lemma add_sequence_wp:
  assumes "ok () s"
  shows "wp (pglogical_replication_set_add_sequence D sn rid sy) ok s"
  using assms
  by (auto simp: pglogical_replication_set_add_sequence_def relation_name_def wp_simps split: option.splits
      intro!: queue_sequence_ok intro: set_change_cats)

lemma add_all_wp:
  assumes "ok () s"
  shows "wp (pglogical_replication_set_add_all_relations D sn nsps sy kind) ok s"
proof -
  have one: "wp (add_one_relation D r ex nsp sy kind rid) ok s" if "ok () s" for r ex nsp rid s
    using that
    by (auto simp: add_one_relation_def wp_simps intro!: queue_sequence_ok queue_ok intro: set_change_cats)
  have "wp (add_schema_relations D r ex sy kind nsp) ok s" if "ok () s" for r ex nsp s
    using that wp_foreach [of _ "ok ()" "add_one_relation D r ex nsp sy kind"] one
    by (auto simp: add_schema_relations_def wp_simps)
  then show ?thesis
    using assms by (auto simp: pglogical_replication_set_add_all_relations_def wp_simps intro!: wp_foreach)
qed

lemma synchronize_sequence_wp:
  assumes "ok () s"
  shows "wp (pglogical_synchronize_sequence E rid) ok s"
proof -
  have seq: "repset_catalog_ok db' \<and> cat_repset db' = cat_repset (the_db s)"
    if sy: "synchronize_sequence S N rid (the_db s) q = Inr (db', q')" for S N q db' q'
  proof -
    obtain t v where t: "List.find (\<lambda>r. ss_seqoid r = rid) (cat_sequence_state (the_db s)) = Some t"
      and db': "db' = (the_db s)\<lparr> cat_sequence_state := update_first (\<lambda>r. ss_seqoid r = ss_seqoid (t\<lparr> ss_last_value := v \<rparr>))
        (\<lambda>_. t\<lparr> ss_last_value := v \<rparr>) (cat_sequence_state (the_db s)) \<rparr>"
      using sy by (auto simp: synchronize_sequence_def store_and_queue_def Let_def rbind_eq_Inr
          split: if_splits option.splits)
    have "cache_size_ok (t\<lparr> ss_last_value := v \<rparr>)"
      using find_Some_in [OF t] cats_okD(3) [OF assms] by (auto simp: repset_catalog_ok_def cache_size_ok_def)
    then show ?thesis
      unfolding db' by (simp only: state_row_ok [OF cats_okD(3) [OF assms]]) simp
  qed
  show ?thesis
    using assms
    by (auto simp: pglogical_synchronize_sequence_def wp_def sbind_eq part_read_def cats_ok_def sets_local_def
        split: sum.splits dest!: seq)
qed

section \<open>Properties\<close>

lemma run_function_wp:
  assumes "ok () s" "\<not> drops_used_interface f (the_nodes s)"
  shows "wp (run_function D f) ok s"
  using assms
  by (cases f) (simp_all add: wp_fun create_node_wp drop_node_wp add_interface_wp drop_interface_wp create_subscription_wp
      drop_subscription_wp alter_functions_wp synchronize_functions_wp synchronize_sequence_wp create_set_wp
      simple_set_functions_wp add_table_wp add_sequence_wp pglogical_replication_set_add_all_tables_def
      pglogical_replication_set_add_all_sequences_def add_all_wp)

lemma sql_step_ok:
  assumes "sql_step D s s'" "ok () s"
  shows "ok () s'"
  using assms(1)
proof (cases rule: sql_step.cases)
  case (call f r)
  then show ?thesis
    using run_function_wp [OF assms(2) call(2), of D] assms(2)
    by (auto simp: sql_call_def wp_def split: option.splits prod.splits sum.splits)
qed


text \<open>With the invariant every reference resolves.\<close>

lemma get_node_ok: "i \<in> node_ids N \<Longrightarrow> \<exists>n. get_node i N = Inr n"
  by (auto simp: get_node_def node_ids_def find_None_iff split: option.splits)

lemma get_node_interface_ok: "(i, n) \<in> if_keys N \<Longrightarrow> \<exists>x. get_node_interface i N = Inr x"
  by (auto simp: get_node_interface_def if_keys_def find_None_iff split: option.splits)

lemma local_node_ok:
  assumes "node_refs_ok N"
  shows "is_ok (get_local_node True N)"
proof (cases "cat_local_node N")
  case Nil
  then show ?thesis by (simp add: get_local_node_def)
next
  case (Cons l ls)
  then have "(ln_if l, ln_id l) \<in> if_keys N" "ln_id l \<in> node_ids N"
    using assms by (auto simp: node_refs_ok_def image_subset_iff)
  then obtain n x where "get_node (ln_id l) N = Inr n" "get_node_interface (ln_if l) N = Inr x"
    using get_node_ok get_node_interface_ok by meson
  then show ?thesis
    using Cons by (simp add: get_local_node_def)
qed

lemma sub_refs_nodes:
  assumes "node_refs_ok N" "r \<in> set (cat_subscription N)"
  shows "(st_origin_if r, st_origin r) \<in> if_keys N" "(st_target_if r, st_target r) \<in> if_keys N"
    "st_origin r \<in> node_ids N" "st_target r \<in> node_ids N"
proof -
  show k: "(st_origin_if r, st_origin r) \<in> if_keys N" "(st_target_if r, st_target r) \<in> if_keys N"
    using assms by (auto simp: node_refs_ok_def sub_refs_ok_def)
  have "snd ` if_keys N \<subseteq> node_ids N"
    using assms(1) by (simp add: node_refs_ok_def)
  then show "st_origin r \<in> node_ids N" "st_target r \<in> node_ids N"
    using k by (auto simp: image_subset_iff)
qed

lemma subscription_readable:
  assumes "node_refs_ok N" "r \<in> set (cat_subscription N)"
  shows "is_ok (subscription_fromtuple r N)"
proof -
  obtain on t oi ti where "get_node (st_origin r) N = Inr on" "get_node (st_target r) N = Inr t"
    "get_node_interface (st_origin_if r) N = Inr oi" "get_node_interface (st_target_if r) N = Inr ti"
    using sub_refs_nodes [OF assms] get_node_ok get_node_interface_ok by meson
  then show ?thesis
    by (simp add: subscription_fromtuple_def)
qed

text \<open>
  C9.  However the SQL functions are called, in whatever order and with whatever arguments and outcomes, the catalogs stay consistent: unique ids and
  names, every interface, local node, subscription, replication set and status row refers to rows that exist, replication sets and
  subscriptions belong to the local node, and each subscription has exactly one status row.  So the local node and every
  subscription can be read in every state.  The one exception are calls that drop an interface in use, which the code allows.
\<close>

theorem sql_functions_keep_references:
  assumes "(sql_step D)\<^sup>*\<^sup>* s s'" "cats_ok (f_cats s)"
  shows "cats_ok (f_cats s') \<and> is_ok (get_local_node True (the_nodes s')) \<and>
    list_all (\<lambda>r. is_ok (subscription_fromtuple r (the_nodes s'))) (cat_subscription (the_nodes s'))"
proof -
  have "cats_ok (f_cats s')"
    using assms by (induction rule: rtranclp_induct) (auto intro: sql_step_ok)
  then show ?thesis
    using cats_okD(2) by (auto simp: list_all_iff intro: local_node_ok subscription_readable)
qed

lemma ex_subscribed_ok: "cats_ok (f_cats ex_subscribed)"
proof -
  have "node_catalog_ok ex_catalog1"
    using create_subscription_ok [OF ex_catalog_ok ex_create] .
  then show ?thesis
    by (simp add: cats_ok_def ex_subscribed_def node_refs_ok_def sub_refs_ok_def if_keys_def node_ids_def local_ids_def
        repset_catalog_ok_def sets_local_def status_ok_def is_subscription_row_def ex_sql_state_def ex_pdb_def rows_ok_def
        ex_catalog1_def ex_catalog_def ex_node_def ex_if_def ex_default_def)
qed

theorem sql_functions_keep_references_witness:
  "case sql_call (run_function ex_ddl (F_alter_subscription_disable ''sub1'' False)) ex_subscribed of
     Some (Inr u, s') \<Rightarrow> cats_ok (f_cats s') \<and> map st_enabled (cat_subscription (the_nodes s')) = [False]
   | _ \<Rightarrow> False"
proof -
  let ?f = "F_alter_subscription_disable ''sub1'' False"
  have "case sql_call (run_function ex_ddl ?f) ex_subscribed of
     Some (Inr u, s') \<Rightarrow> map st_enabled (cat_subscription (the_nodes s')) = [False] | _ \<Rightarrow> False"
    by code_simp
  moreover have "cats_ok (f_cats s')" if "sql_call (run_function ex_ddl ?f) ex_subscribed = Some (Inr u, s')" for u s'
    using sql_functions_keep_references [OF _ ex_subscribed_ok, of ex_ddl s'] sql_step.call [OF that]
    by (simp add: r_into_rtranclp)
  ultimately show ?thesis
    by (auto split: option.splits prod.splits sum.splits)
qed

text \<open>
  The exception is real: dropping the interface of the local node succeeds, and then the node cannot be read any more.
\<close>

lemma dropping_used_interface_breaks_node:
  "case pglogical_alter_node_drop_interface ''subscriber'' ''default'' ex_subscribed of
     Some (Inr u, s') \<Rightarrow> u \<and> \<not> is_ok (get_local_node True (the_nodes s')) | _ \<Rightarrow> False"
  by code_simp

end
