(* ===== verification/Pgl_SubscriptionLife.thy ===== *)
theory Pgl_SubscriptionLife
  imports Pgl_Consistency
begin

text \<open>
  The life of a subscription through the SQL functions: what creating it adds and refuses, when dropping it returns, and that dropping takes
  everything away that creating added.
\<close>

section \<open>Definitions\<close>

text \<open>The worker slots as they are at the n-th look of the wait, and whether the apply worker of the subscription runs.\<close>

primrec ctx_at :: "(nat \<Rightarrow> PGLogicalContext \<Rightarrow> wait_look) \<Rightarrow> nat \<Rightarrow> PGLogicalContext \<Rightarrow> PGLogicalContext" where
  "ctx_at looks 0 ctx = ctx"
| "ctx_at looks (Suc n) ctx = wl_ctx (looks n (ctx_at looks n ctx))"

definition apply_runs :: "oid \<Rightarrow> oid \<Rightarrow> PGLogicalContext \<Rightarrow> bool" where
  "apply_runs db subid ctx \<longleftrightarrow> pglogical_worker_running (worker_at (pglogical_apply_find db subid ctx) ctx)"

definition wait_ends_at :: "(nat \<Rightarrow> PGLogicalContext \<Rightarrow> wait_look) \<Rightarrow> oid \<Rightarrow> oid \<Rightarrow> nat \<Rightarrow> PGLogicalContext \<Rightarrow> bool" where
  "wait_ends_at looks db subid n ctx \<longleftrightarrow> \<not> apply_runs db subid (ctx_at looks n ctx) \<or>
     wl_interrupt (looks n (ctx_at looks n ctx)) \<noteq> None"

definition killed_ctx :: "('j, 'n) fun_env \<Rightarrow> oid \<Rightarrow> sql_state \<Rightarrow> PGLogicalContext" where
  "killed_ctx E subid s = pglogical_worker_kill (pglogical_apply_find (fe_database E) subid (f_ctx s)) (f_ctx s)"

text \<open>The node catalogs without a subscription, and without the node of its provider when no other subscription needs it.\<close>

definition without_sub :: "oid \<Rightarrow> node_catalog \<Rightarrow> node_catalog" where
  "without_sub subid N = N\<lparr> cat_subscription := filter (\<lambda>r. st_id r \<noteq> subid) (cat_subscription N) \<rparr>"

definition without_provider :: "oid \<Rightarrow> node_catalog \<Rightarrow> node_catalog" where
  "without_provider nodeid N =
     (if list_ex (\<lambda>r. st_origin r = nodeid) (cat_subscription N) then N
      else N\<lparr> cat_node := filter (\<lambda>n. node_id n \<noteq> nodeid) (cat_node N),
              cat_node_interface := filter (\<lambda>i. if_nodeid i \<noteq> nodeid) (cat_node_interface N) \<rparr>)"

definition same_tables :: "node_catalog \<Rightarrow> node_catalog \<Rightarrow> bool" where
  "same_tables N N' \<longleftrightarrow> cat_node N = cat_node N' \<and> cat_local_node N = cat_local_node N' \<and>
     cat_node_interface N = cat_node_interface N' \<and> cat_subscription N = cat_subscription N'"

text \<open>What the provider says of itself when a subscription is created.\<close>

definition provider_info :: "('j, 'n) fun_env \<Rightarrow> string \<Rightarrow> string \<Rightarrow> remote_node_info result" where
  "provider_info E name dsn =
     rbind (pglogical_connect (fe_connect E) (fe_hash E) dsn name (Some ''create'')) pglogical_remote_node_info"

text \<open>An example: the subscriber with a running apply worker, which is gone at the second look.\<close>

definition ex_running :: sql_state where
  "ex_running = ex_subscribed\<lparr> f_ctx := \<lparr> supervisor = None, subscriptions_changed = False,
     workers = [memset_worker\<lparr> worker_type := PGLOGICAL_WORKER_APPLY, dboid := 16384, w_subid := 21, proc := Some 500 \<rparr>],
     signals = [] \<rparr> \<rparr>"

text \<open>An example: the subscriber before and while a subscription to a new provider is created.\<close>

definition ex_zero :: interval where
  "ex_zero = \<lparr> itime = 0, iday = 0, imonth = 0 \<rparr>"

definition ex_before :: sql_state where
  "ex_before = ex_sql_state\<lparr> f_cats := (f_cats ex_sql_state)\<lparr> f_nodes :=
     \<lparr> cat_node = [ex_node 2 ''subscriber''], cat_local_node = [\<lparr> ln_id = 2, ln_if = 12 \<rparr>],
       cat_node_interface = [ex_if 12 2], cat_subscription = [], sub_changed = [] \<rparr> \<rparr> \<rparr>"

definition ex_this_node :: PGLogicalLocalNode where
  "ex_this_node = \<lparr> ln_node = ex_node 2 ''subscriber'', ln_node_if = ex_if 12 2 \<rparr>"

definition ex_info :: remote_node_info where
  "ex_info = \<lparr> ri_nodeid = 77, ri_node_name = ''prov'', ri_sysid = ''1'', ri_dbname = ''pdb'', ri_replication_sets = [] \<rparr>"

definition ex_new_if :: PGlogicalInterface where
  "ex_new_if = \<lparr> if_id = 20758, if_name = ''prov'', if_nodeid = 77, if_dsn = ''dbname=pdb'' \<rparr>"

definition ex_with_node :: node_catalog where
  "ex_with_node = (the_nodes ex_before)
     \<lparr> cat_node := [ex_node 2 ''subscriber'', ex_node 77 ''prov''], sub_changed := [InvalidOid] \<rparr>"

definition ex_with_if :: node_catalog where
  "ex_with_if = ex_with_node\<lparr> cat_node_interface := [ex_if 12 2, ex_new_if] \<rparr>"

definition ex_new_sub :: PGLogicalSubscription where
  "ex_new_sub = new_subscription ex_fun ''s1'' (ex_node 77 ''prov'') ex_new_if ex_this_node [''default''] [] ex_zero"

definition ex_status_row :: PGLogicalSyncStatus where
  "ex_status_row = \<lparr> sync_kind = SYNC_KIND_FULL, sync_subid = 10341, sync_nspname = None, sync_relname = None,
     sync_status = SYNC_STATUS_INIT \<rparr>"

section \<open>Waiting for the apply worker\<close>

lemma wait_from:
  "wait_ends_at looks db i (k + m) c \<Longrightarrow> \<exists>r. wait_apply_exit looks db i k (ctx_at looks k c) = Some r"
proof (induction m arbitrary: k)
  case 0
  then show ?case
    by (subst wait_apply_exit.simps) (auto simp: wait_ends_at_def apply_runs_def split: option.splits)
next
  case (Suc m)
  then have "\<exists>r. wait_apply_exit looks db i (Suc k) (ctx_at looks (Suc k) c) = Some r"
    by (intro Suc.IH) simp
  then show ?case
    by (subst wait_apply_exit.simps) (auto split: option.splits)
qed

lemma wait_result:
  assumes "wait_apply_exit looks db i k ctx = Some (r, ctx')" "ctx = ctx_at looks k c"
  shows "\<exists>n. wait_ends_at looks db i n c \<and> ctx' = ctx_at looks n c \<and>
    (r = Inr () \<longrightarrow> \<not> apply_runs db i ctx')"
proof -
  have "\<forall>c. ctx = ctx_at looks k c \<longrightarrow> (\<exists>n. wait_ends_at looks db i n c \<and> snd y = ctx_at looks n c \<and>
      (fst y = Inr () \<longrightarrow> \<not> apply_runs db i (snd y)))"
    if "wait_apply_exit looks db i k ctx = Some y" for y
    using that
  proof (rule wait_apply_exit.raw_induct [rotated])
    fix wait looks db i k ctx y
    assume IH: "\<And>looks db i k ctx y. wait looks db i k ctx = Some y \<Longrightarrow>
        \<forall>c. ctx = ctx_at looks k c \<longrightarrow> (\<exists>n. wait_ends_at looks db i n c \<and> snd y = ctx_at looks n c \<and>
          (fst y = Inr () \<longrightarrow> \<not> apply_runs db i (snd y)))"
      and step: "(if \<not> pglogical_worker_running (worker_at (pglogical_apply_find db i ctx) ctx) then Some (Inr (), ctx)
        else case wl_interrupt (looks k ctx) of None \<Rightarrow> wait looks db i (k + 1) (wl_ctx (looks k ctx))
             | Some e \<Rightarrow> Some (Inl e, ctx)) = Some y"
    show "\<forall>c. ctx = ctx_at looks k c \<longrightarrow> (\<exists>n. wait_ends_at looks db i n c \<and> snd y = ctx_at looks n c \<and>
          (fst y = Inr () \<longrightarrow> \<not> apply_runs db i (snd y)))"
    proof (intro allI impI)
      fix c
      assume c: "ctx = ctx_at looks k c"
      show "\<exists>n. wait_ends_at looks db i n c \<and> snd y = ctx_at looks n c \<and>
          (fst y = Inr () \<longrightarrow> \<not> apply_runs db i (snd y))"
      proof (cases "wait_ends_at looks db i k c")
        case True
        then show ?thesis
          using step c by (auto simp: wait_ends_at_def apply_runs_def intro!: exI [of _ k] split: if_splits)
      next
        case False
        then have "wait looks db i (k + 1) (wl_ctx (looks k ctx)) = Some y"
          using step c by (auto simp: wait_ends_at_def apply_runs_def)
        from IH [OF this] show ?thesis
          using c by simp
      qed
    qed
  qed
  then show ?thesis
    using assms by fastforce
qed

lemma wait_returns_iff:
  "wait_apply_exit looks db i 0 ctx \<noteq> None \<longleftrightarrow> (\<exists>n. wait_ends_at looks db i n ctx)"
  using wait_from [of looks db i 0 _ ctx] wait_result [of looks db i 0 ctx _ _ ctx] by fastforce

section \<open>Running the functions\<close>

lemma local_node_of_subscription:
  assumes "ok () s" "get_subscription_by_name name b (the_nodes s) = Inr (Some sub)"
  obtains ln where "require_local_node (the_nodes s) = Inr ln" "local_ids (the_nodes s) = {node_id (ln_node ln)}"
proof -
  note okn = cats_okD [OF assms(1)]
  obtain r where "r \<in> set (cat_subscription (the_nodes s))"
    using assms(2) okn(1,2) by (rule sub_named)
  then have ne: "local_ids (the_nodes s) \<noteq> {}"
    using okn(2) by (auto simp: node_refs_ok_def sub_refs_ok_def)
  obtain found where f: "get_local_node True (the_nodes s) = Inr found"
    using local_node_ok [OF okn(2)] by (auto simp: is_ok_def split: sum.splits)
  note ids = local_ids_eq [OF f okn(1)]
  then obtain ln where "found = Some ln"
    using ne by (cases found) auto
  then show ?thesis
    using that f ids
    by (auto simp: require_local_Inr get_local_node_def split: list.splits)
qed

lemma drop_subscription_tables:
  assumes "ok () s" "i \<in> st_id ` set (cat_subscription (the_nodes s))"
  obtains N' where "drop_subscription i (the_nodes s) = Inr N'" "same_tables N' (without_sub i (the_nodes s))"
proof -
  have "List.find (\<lambda>r. st_id r = i) (cat_subscription (the_nodes s)) \<noteq> None"
    using assms(2) by (auto simp: find_None_iff)
  then show ?thesis
    using that sub_by_id.delete_first_filter [OF nodes_okD(3) [OF cats_okD(1) [OF assms(1)]], of i]
    by (auto simp: drop_subscription_def same_tables_def without_sub_def)
qed

lemma rmap_ok: "\<forall>x \<in> set xs. is_ok (f x) \<Longrightarrow> \<exists>ys. rmap f xs = Inr ys \<and> length ys = length xs"
  by (induction xs) (auto simp: is_ok_def split: sum.splits)

lemma drop_provider_part:
  assumes "node_catalog_ok (the_nodes s)" "node_refs_ok (the_nodes s)" "i \<in> node_ids (the_nodes s)"
  obtains N' where "same_tables N' (without_provider i (the_nodes s))"
    "\<And>k. sbind (nodes_read (get_node_subscriptions i True)) (\<lambda>other_subs.
        sthen (swhen (other_subs = []) (sthen (nodes_write (\<lambda>cat. Inr (drop_node_interfaces i cat)))
          (nodes_write (drop_node i)))) k) s = k (put_nodes N' s)"
proof (cases "list_ex (\<lambda>r. st_origin r = i) (cat_subscription (the_nodes s))")
  case True
  have "\<forall>r \<in> set (filter (\<lambda>r. st_origin r = i) (cat_subscription (the_nodes s))). is_ok (subscription_fromtuple r (the_nodes s))"
    using subscription_readable [OF assms(2)] by simp
  from rmap_ok [OF this] obtain os where os: "get_node_subscriptions i True (the_nodes s) = Inr os"
    "length os = length (filter (\<lambda>r. st_origin r = i) (cat_subscription (the_nodes s)))"
    by (auto simp: get_node_subscriptions_def)
  then have "os \<noteq> []"
    using True by (auto simp: list_ex_iff filter_empty_conv)
  moreover have "put_nodes (the_nodes s) s = s"
    by (simp add: put_nodes_def)
  ultimately show ?thesis
    using that [of "the_nodes s"] os(1) True
    by (simp add: sbind_read swhen_def sbind_simps same_tables_def without_provider_def)
next
  case False
  have none: "get_node_subscriptions i True (the_nodes s) = Inr []"
    using False by (auto simp: node_subscriptions_Nil list_ex_iff)
  have "List.find (\<lambda>n. node_id n = i) (cat_node (the_nodes s)) \<noteq> None"
    using assms(3) by (auto simp: node_ids_def find_None_iff)
  then obtain N' where d: "drop_node i (drop_node_interfaces i (the_nodes s)) = Inr N'"
    and N': "same_tables N' (without_provider i (the_nodes s))"
    using False node_by_id.delete_first_filter [OF nodes_okD(1) [OF assms(1)], of i]
    by (auto simp: drop_node_def drop_node_interfaces_def delete_all_def same_tables_def without_provider_def)
  have "put_nodes N' (put_nodes M s) = put_nodes N' s" for M
    by (simp add: put_nodes_def)
  then show ?thesis
    using that [OF N'] none d by (simp add: sbind_read sbind_write swhen_def sbind_assoc)
qed

text \<open>What dropping a subscription does up to the wait.\<close>

lemma drop_subscription_run:
  assumes "ok () s" "get_subscription_by_name name b (the_nodes s) = Inr (Some sub)"
    and "node_id (sub_origin sub) \<notin> local_ids (the_nodes s)"
  obtains N' where
    "same_tables N' (without_provider (node_id (sub_origin sub)) (without_sub (sub_id sub) (the_nodes s)))"
    "pglogical_drop_subscription E name b s =
       sthen (on_part f_ctx (\<lambda>t s. s\<lparr> f_ctx := t \<rparr>) (wait_apply_exit (fe_looks E) (fe_database E) (sub_id sub) 0))
       (sthen (drop_provider_slot E sub) (sthen (drop_origin E (sub_slot_name sub)) (sret True)))
       ((put_nodes N' (put_status (drop_subscription_sync_status (sub_id sub) (the_status s)) s))
          \<lparr> f_ctx := killed_ctx E (sub_id sub) s \<rparr>)"
proof -
  note okn = cats_okD [OF assms(1)]
  obtain r where r: "r \<in> set (cat_subscription (the_nodes s))" "sub_id sub = st_id r" "node_id (sub_origin sub) = st_origin r"
    using assms(2) okn(1,2) by (rule sub_named)
  obtain ln where ln: "require_local_node (the_nodes s) = Inr ln" "local_ids (the_nodes s) = {node_id (ln_node ln)}"
    using assms(1,2) by (rule local_node_of_subscription)
  obtain N1 where N1: "drop_subscription (sub_id sub) (the_nodes s) = Inr N1"
    "same_tables N1 (without_sub (sub_id sub) (the_nodes s))"
    using drop_subscription_tables [OF assms(1)] r(1,2) by (metis image_eqI)
  let ?s1 = "put_nodes N1 (put_status (drop_subscription_sync_status (sub_id sub) (the_status s)) s)"
  have "st_origin r \<in> node_ids (the_nodes s)"
    using sub_refs_nodes(3) [OF okn(2) r(1)] .
  then have "node_id (sub_origin sub) \<in> node_ids (the_nodes ?s1)"
    using N1(2) r(3) by (simp add: same_tables_def without_sub_def node_ids_def)
  then obtain N' where N': "same_tables N' (without_provider (node_id (sub_origin sub)) N1)"
    and run: "\<And>k :: bool sql_m. sbind (nodes_read (get_node_subscriptions (node_id (sub_origin sub)) True)) (\<lambda>other_subs.
        sthen (swhen (other_subs = []) (sthen (nodes_write (\<lambda>cat. Inr (drop_node_interfaces (node_id (sub_origin sub)) cat)))
          (nodes_write (drop_node (node_id (sub_origin sub)))))) k) ?s1 = k (put_nodes N' ?s1)"
    using drop_provider_part [OF cats_okD(1,2) [OF drop_sub_cats [OF assms(1) N1(1)]]] by auto
  have same: "same_tables N' (without_provider (node_id (sub_origin sub)) (without_sub (sub_id sub) (the_nodes s)))"
    using N' N1(2) by (auto simp: same_tables_def without_provider_def)
  have "f_ctx (put_nodes N' ?s1) = f_ctx s" "put_nodes N' ?s1 =
      put_nodes N' (put_status (drop_subscription_sync_status (sub_id sub) (the_status s)) s)"
    by (simp_all add: put_nodes_def put_status_def)
  then show ?thesis
    using that [OF same] ln assms(2,3) N1(1)
    by (simp add: pglogical_drop_subscription_def drop_on_subscriber_def sbind_read sbind_write swhen_True sbind_assoc run
        sbind_simps kill_apply_def killed_ctx_def)
qed

lemma after_wait:
  "\<exists>r s'. sthen (drop_provider_slot E sub) (sthen (drop_origin E n) (sret True)) s = Some (r, s') \<and> f_ctx s' = f_ctx s"
  by (auto simp: sbind_def drop_provider_slot_def drop_origin_def sret_def split: sum.splits)

lemma on_wait:
  "sthen (on_part f_ctx (\<lambda>t s. s\<lparr> f_ctx := t \<rparr>) w) k s =
   (case w (f_ctx s) of
      None \<Rightarrow> None | Some (Inl e, t) \<Rightarrow> Some (Inl e, s\<lparr> f_ctx := t \<rparr>) | Some (Inr u, t) \<Rightarrow> k (s\<lparr> f_ctx := t \<rparr>))"
  by (auto simp: sbind_def on_part_def split: option.splits sum.splits)

section \<open>Properties\<close>

text \<open>
  C16.  Dropping a subscription on the subscriber returns exactly when, at some look after the apply worker was told to stop, the worker has left
  its slot or an interrupt came; and when it returns normally, no apply worker of the subscription runs any more.
\<close>

theorem drop_subscription_terminates:
  assumes "cats_ok (f_cats s)" "get_subscription_by_name name ifexists (the_nodes s) = Inr (Some sub)"
    and "node_id (sub_origin sub) \<notin> local_ids (the_nodes s)"
  shows "(pglogical_drop_subscription E name ifexists s \<noteq> None \<longleftrightarrow>
      (\<exists>n. wait_ends_at (fe_looks E) (fe_database E) (sub_id sub) n (killed_ctx E (sub_id sub) s))) \<and>
    (\<forall>u s'. pglogical_drop_subscription E name ifexists s = Some (Inr u, s') \<longrightarrow>
      \<not> apply_runs (fe_database E) (sub_id sub) (f_ctx s'))"
proof -
  let ?w = "wait_apply_exit (fe_looks E) (fe_database E) (sub_id sub) 0 (killed_ctx E (sub_id sub) s)"
  obtain s0 where run: "pglogical_drop_subscription E name ifexists s =
      (case ?w of None \<Rightarrow> None | Some (Inl e, t) \<Rightarrow> Some (Inl e, s0\<lparr> f_ctx := t \<rparr>)
       | Some (Inr u, t) \<Rightarrow> sthen (drop_provider_slot E sub) (sthen (drop_origin E (sub_slot_name sub)) (sret True))
           (s0\<lparr> f_ctx := t \<rparr>))"
    using assms by (rule drop_subscription_run) (auto simp: on_wait)
  have total: "\<exists>r s'. sthen (drop_provider_slot E sub) (sthen (drop_origin E (sub_slot_name sub)) (sret True)) s1 =
      Some (r, s') \<and> f_ctx s' = f_ctx s1" for s1
    by (rule after_wait)
  have "pglogical_drop_subscription E name ifexists s \<noteq> None \<longleftrightarrow> ?w \<noteq> None"
    using run by (auto split: option.splits sum.splits prod.splits) (metis total)
  moreover have "\<not> apply_runs (fe_database E) (sub_id sub) (f_ctx s')"
    if r: "pglogical_drop_subscription E name ifexists s = Some (Inr u, s')" for u s'
  proof -
    obtain t where t: "?w = Some (Inr (), t)"
      and k: "sthen (drop_provider_slot E sub) (sthen (drop_origin E (sub_slot_name sub)) (sret True))
        (s0\<lparr> f_ctx := t \<rparr>) = Some (Inr u, s')"
      using r run by (auto split: option.splits sum.splits prod.splits)
    have "f_ctx s' = t"
      using k total [of "s0\<lparr> f_ctx := t \<rparr>"] by auto
    then show ?thesis
      using wait_result [OF t, of "killed_ctx E (sub_id sub) s"] by auto
  qed
  ultimately show ?thesis
    using wait_returns_iff by blast
qed

lemma ex_found: "get_subscription_by_name ''sub1'' False (the_nodes ex_running) = Inr (Some (ex_sub\<lparr> sub_id := 21 \<rparr>))"
  by code_simp

lemma ex_running_ok: "cats_ok (f_cats ex_running)"
  using ex_subscribed_ok by (simp add: ex_running_def)

theorem drop_subscription_terminates_witness:
  "apply_runs 16384 21 (f_ctx ex_running) \<and> pglogical_drop_subscription ex_fun ''sub1'' False ex_running \<noteq> None"
proof -
  have "wait_ends_at (fe_looks ex_fun) 16384 21 1 (killed_ctx ex_fun 21 ex_running)"
    by code_simp
  moreover have "node_id (sub_origin (ex_sub\<lparr> sub_id := 21 \<rparr>)) \<notin> local_ids (the_nodes ex_running)"
    by code_simp
  moreover have "apply_runs 16384 21 (f_ctx ex_running)"
    by code_simp
  moreover have "fe_database ex_fun = 16384"
    by (simp add: ex_fun_def)
  ultimately show ?thesis
    using drop_subscription_terminates [OF ex_running_ok ex_found, of ex_fun] by auto
qed

text \<open>What creating the first subscription to a provider adds.\<close>

lemma wp_elim: "m s = Some (Inr x, s') \<Longrightarrow> wp m Q s \<Longrightarrow> Q x s'"
  by (simp add: wp_def)

lemma success_eqs:
  "part_read g f s = Some (Inr x, s') \<longleftrightarrow> f (g s) = Inr x \<and> s' = s"
  "part_do g p d s = Some (Inr y, s') \<longleftrightarrow> (\<exists>t. d (g s) = Inr (y, t) \<and> s' = p t s)"
  "part_write g p w s = Some (Inr u, s') \<longleftrightarrow> (\<exists>t. w (g s) = Inr t \<and> s' = p t s)"
  "slift r s = Some (Inr z, s') \<longleftrightarrow> r = Inr z \<and> s' = s" "sret v s = Some (Inr z, s') \<longleftrightarrow> z = v \<and> s' = s"
  "sfail e s \<noteq> Some (Inr z, s')"
  by (auto simp: part_read_def part_do_def part_write_def slift_def sret_def sfail_def split: sum.splits prod.splits)

lemma new_provider_created:
  assumes "pglogical_create_subscription E name dsn sets st da fwd delay s = Some (Inr subid, s1)"
    and "provider_info E name dsn = Inr info" "get_node_by_name (ri_node_name info) True (the_nodes s) = Inr None"
  obtains n i x ln N1 N2 N3 l1 l2 where
    "create_node (fe_hash E) \<lparr> node_id = ri_nodeid info, node_name = ri_node_name info \<rparr> (the_nodes s) = Inr (n, N1)"
    "create_node_interface (fe_hash E) (re_hash_pair (fe_rep E))
       \<lparr> if_id = InvalidOid, if_name = node_name n, if_nodeid = node_id n, if_dsn = dsn \<rparr> N1 = Inr (i, N2)"
    "create_subscription (fe_hash E)
       (new_subscription E name \<lparr> node_id = ri_nodeid info, node_name = ri_node_name info \<rparr> i ln l1 l2 delay) N2 = Inr (x, N3)"
    "subid = sub_id x" "the_nodes s1 = N3" "the_db s1 = the_db s" "f_queue (f_cats s1) = f_queue (f_cats s)"
    "f_rows (f_cats s1) = f_rows (f_cats s)"
  using assms
  by (auto simp: pglogical_create_subscription_def origin_interface_def provider_info_def Let_def sbind_eq rbind_eq_Inr
      success_eqs put_nodes_def put_status_def split: if_splits option.splits)

lemma filter_own_row: "(\<And>x. x \<in> set xs \<Longrightarrow> P x) \<Longrightarrow> \<not> P y \<Longrightarrow> filter P (xs @ [y]) = xs"
  by simp

lemma created_tables:
  assumes "node_catalog_ok N" "node_refs_ok N"
    and c1: "create_node h node N = Inr (n, N1)"
    and c2: "create_node_interface h p iface N1 = Inr (i, N2)" and "if_nodeid iface = node_id n"
    and c3: "create_subscription h (new_subscription E name origin i ln l1 l2 delay) N2 = Inr (x, N3)"
  obtains row where "cat_subscription N3 = cat_subscription N @ [row]" "st_id row = sub_id x" "st_name row = name"
    "st_origin row = node_id n" "node_id n \<notin> node_ids N" "node_id n \<notin> local_ids N3"
    "st_slot_name row = namestrcpy (sub_slot_name (new_subscription E name origin i ln l1 l2 delay))"
    "same_tables (without_provider (node_id n) (without_sub (sub_id x) N3)) N"
proof -
  note e1 = create_node_eq [OF c1] and e2 = create_interface_eq [OF c2]
  obtain row where eq: "cat_subscription N3 = cat_subscription N2 @ [row]" "cat_node N3 = cat_node N2"
    "cat_local_node N3 = cat_local_node N2" "cat_node_interface N3 = cat_node_interface N2"
    and row: "st_id row = sub_id x" "st_name row = name" "st_origin row = if_nodeid i"
      "st_slot_name row = namestrcpy (sub_slot_name (new_subscription E name origin i ln l1 l2 delay))"
    and fresh: "sub_id x \<notin> st_id ` set (cat_subscription N2)"
    using c3 by (rule create_subscription_Inr)
      (fastforce simp: catalog_insert_Inr list_ex_iff subscription_conflicts_def new_subscription_def)
  have new: "node_id n \<notin> node_ids N"
    using c1 by (auto simp: create_node_def Let_def rbind_eq_Inr catalog_insert_Inr list_ex_iff node_conflicts_def
        node_ids_def split: if_splits)
  have "local_ids N \<subseteq> node_ids N" "snd ` if_keys N \<subseteq> node_ids N"
    using assms(2) by (auto simp: node_refs_ok_def local_ids_def image_subset_iff) fastforce
  then have loc: "node_id n \<notin> local_ids N3" and ifs: "\<forall>j \<in> set (cat_node_interface N). if_nodeid j \<noteq> node_id n"
    using new by (auto simp: local_ids_def eq e1 e2 if_keys_def image_subset_iff)
  have "\<forall>r \<in> set (cat_subscription N). st_origin r \<noteq> node_id n" "\<forall>m \<in> set (cat_node N). node_id m \<noteq> node_id n"
    using sub_refs_nodes(3) [OF assms(2)] new unfolding node_ids_def by (metis, metis image_eqI)
  moreover have "\<forall>r \<in> set (cat_subscription N). st_id r \<noteq> sub_id x"
    using fresh e1(4) e2(3) by (metis image_eqI)
  ultimately have "same_tables (without_provider (node_id n) (without_sub (sub_id x) N3)) N"
    using ifs assms(5) row(1,3) e1 e2
    by (simp add: same_tables_def without_provider_def without_sub_def eq list_ex_iff)
  then show ?thesis
    using that [of row] eq row e1 e2 assms(5) new loc by simp
qed

lemma wait_gone:
  assumes "\<not> apply_runs db i (ctx_at looks k c)" "\<And>n c. wl_interrupt (looks n c) = None"
  shows "\<exists>c'. wait_apply_exit looks db i 0 c = Some (Inr (), c')"
proof -
  have "\<exists>c'. wait_apply_exit looks db i j (ctx_at looks j c) = Some (Inr (), c')" if "j + m = k" for j m
    using that
  proof (induction m arbitrary: j)
    case 0
    then show ?case
      using assms(1) by (subst wait_apply_exit.simps) (simp add: apply_runs_def)
  next
    case (Suc m)
    then have "\<exists>c'. wait_apply_exit looks db i (Suc j) (ctx_at looks (Suc j) c) = Some (Inr (), c')"
      by (intro Suc.IH) simp
    then show ?case
      by (subst wait_apply_exit.simps) (auto simp: assms(2))
  qed
  from this [of 0 k] show ?thesis by simp
qed

lemma after_wait_cats:
  assumes "\<And>n. \<not> fe_origin_in_use E n"
  shows "\<exists>s'. sthen (drop_provider_slot E sub) (sthen (drop_origin E slot) (sret True)) s = Some (Inr True, s') \<and>
    the_nodes s' = the_nodes s \<and> the_db s' = the_db s \<and> the_status s' = the_status s \<and>
    f_queue (f_cats s') = f_queue (f_cats s) \<and> f_rows (f_cats s') = f_rows (f_cats s) \<and>
    f_origins (f_cats s') = (f_origins (f_cats s))(slot := None)"
  using assms by (auto simp: sbind_def drop_provider_slot_def drop_origin_def sret_def split: sum.splits)

lemma created_subscription:
  assumes "cats_ok (f_cats s)"
    and c: "pglogical_create_subscription E name dsn sets st da fwd delay s = Some (Inr subid, s1)"
    and "provider_info E name dsn = Inr info" "get_node_by_name (ri_node_name info) True (the_nodes s) = Inr None"
  obtains sub where "get_subscription_by_name name False (the_nodes s1) = Inr (Some sub)" "sub_id sub = subid"
    "cats_ok (f_cats s1)" "node_id (sub_origin sub) \<notin> local_ids (the_nodes s1)"
    "same_tables (without_provider (node_id (sub_origin sub)) (without_sub subid (the_nodes s1))) (the_nodes s)"
    "the_db s1 = the_db s" "f_queue (f_cats s1) = f_queue (f_cats s)" "f_rows (f_cats s1) = f_rows (f_cats s)"
proof -
  note okn = cats_okD [OF assms(1)]
  from c assms(3,4) obtain n i x ln N1 N2 N3 l1 l2 where
    cs: "create_node (fe_hash E) \<lparr> node_id = ri_nodeid info, node_name = ri_node_name info \<rparr> (the_nodes s) = Inr (n, N1)"
      "create_node_interface (fe_hash E) (re_hash_pair (fe_rep E))
         \<lparr> if_id = InvalidOid, if_name = node_name n, if_nodeid = node_id n, if_dsn = dsn \<rparr> N1 = Inr (i, N2)"
      "create_subscription (fe_hash E) (new_subscription E name \<lparr> node_id = ri_nodeid info, node_name = ri_node_name info \<rparr>
         i ln l1 l2 delay) N2 = Inr (x, N3)"
    and s1: "subid = sub_id x" "the_nodes s1 = N3" "the_db s1 = the_db s" "f_queue (f_cats s1) = f_queue (f_cats s)"
      "f_rows (f_cats s1) = f_rows (f_cats s)"
    by (rule new_provider_created)
  obtain row where row: "cat_subscription N3 = cat_subscription (the_nodes s) @ [row]"
    "st_id row = sub_id x" "st_name row = name" "st_origin row = node_id n" "node_id n \<notin> local_ids N3"
    and restored: "same_tables (without_provider (node_id n) (without_sub (sub_id x) N3)) (the_nodes s)"
    by (rule created_tables [OF okn(1,2) cs(1,2) _ cs(3)]) simp_all
  have ok1: "cats_ok (f_cats s1)"
    using wp_elim [OF c create_subscription_wp [OF assms(1)]] .
  obtain sub where sub: "subscription_fromtuple row N3 = Inr sub"
    using subscription_readable [OF cats_okD(2) [OF ok1], of row] row(1) s1(2) by (auto simp: is_ok_def split: sum.splits)
  have found: "get_subscription_by_name name False (the_nodes s1) = Inr (Some sub)"
    using subscription_row_lookup(2) [of N3 row sub False] cats_okD(1) [OF ok1] row(1,3) s1(2) sub by simp
  have parts: "sub_id sub = subid" "node_id (sub_origin sub) = node_id n"
    using sub row s1(1) by (auto simp: subscription_fromtuple_def rbind_eq_Inr get_node_def split: option.splits dest!: find_Some_in)
  show ?thesis
    using that [OF found parts(1) ok1] restored row(5) s1 unfolding parts(2) by simp
qed

text \<open>
  C10.  Dropping a subscription undoes creating it.  When the first subscription to a provider was created and its workers have run (they may
  have moved its status rows, the replication origins and the worker slots), dropping it returns once the apply worker is gone, and
  leaves the node, interface, subscription and status catalogs, the replication sets and the queue as they were before, without the
  subscription's replication origin.
\<close>

theorem create_then_drop_restores:
  assumes "cats_ok (f_cats s)"
    and c: "pglogical_create_subscription E name dsn sets st da fwd delay s = Some (Inr subid, s1)"
    and "provider_info E name dsn = Inr info" "get_node_by_name (ri_node_name info) True (the_nodes s) = Inr None"
    and s2: "s2 = s1\<lparr> f_ctx := ctx, f_cats := (f_cats s1)\<lparr> f_status := rows, f_origins := og \<rparr> \<rparr>"
    and "status_ok (the_nodes s1) rows" "filter (\<lambda>r. sync_subid r \<noteq> subid) rows = the_status s"
    and "\<And>n. \<not> fe_origin_in_use E n"
    and "\<not> apply_runs (fe_database E) subid (ctx_at (fe_looks E) k (killed_ctx E subid s2))"
    and "\<And>n c. wl_interrupt (fe_looks E n c) = None"
  shows "\<exists>s3 sub. get_subscription_by_name name False (the_nodes s1) = Inr (Some sub) \<and>
    pglogical_drop_subscription E name False s2 = Some (Inr True, s3) \<and>
    same_tables (the_nodes s3) (the_nodes s) \<and> the_db s3 = the_db s \<and> the_status s3 = the_status s \<and>
    f_queue (f_cats s3) = f_queue (f_cats s) \<and> f_rows (f_cats s3) = f_rows (f_cats s) \<and>
    f_origins (f_cats s3) = og(sub_slot_name sub := None)"
proof -
  from assms(1-4) obtain sub where found: "get_subscription_by_name name False (the_nodes s1) = Inr (Some sub)"
    and sub: "sub_id sub = subid" "node_id (sub_origin sub) \<notin> local_ids (the_nodes s1)" and ok1: "cats_ok (f_cats s1)"
    and undo: "same_tables (without_provider (node_id (sub_origin sub)) (without_sub subid (the_nodes s1))) (the_nodes s)"
    and s1: "the_db s1 = the_db s" "f_queue (f_cats s1) = f_queue (f_cats s)" "f_rows (f_cats s1) = f_rows (f_cats s)"
    by (rule created_subscription)
  have ok2: "cats_ok (f_cats s2)" and nodes2: "the_nodes s2 = the_nodes s1"
    using ok1 assms(6) by (simp_all add: s2 cats_ok_def)
  obtain N' where N': "same_tables N' (without_provider (node_id (sub_origin sub)) (without_sub subid (the_nodes s1)))"
    and run: "pglogical_drop_subscription E name False s2 =
       sthen (on_part f_ctx (\<lambda>t s. s\<lparr> f_ctx := t \<rparr>) (wait_apply_exit (fe_looks E) (fe_database E) subid 0))
       (sthen (drop_provider_slot E sub) (sthen (drop_origin E (sub_slot_name sub)) (sret True)))
       ((put_nodes N' (put_status (drop_subscription_sync_status subid rows) s2))\<lparr> f_ctx := killed_ctx E subid s2 \<rparr>)"
    by (rule drop_subscription_run [OF ok2, where E = E]) (use found sub nodes2 in \<open>auto simp: s2\<close>)
  obtain ctx' where w: "wait_apply_exit (fe_looks E) (fe_database E) subid 0 (killed_ctx E subid s2) = Some (Inr (), ctx')"
    using wait_gone [OF assms(9,10)] by blast
  let ?t = "put_nodes N' (put_status (drop_subscription_sync_status subid rows) s2)\<lparr> f_ctx := ctx' \<rparr>"
  have run': "pglogical_drop_subscription E name False s2 =
      sthen (drop_provider_slot E sub) (sthen (drop_origin E (sub_slot_name sub)) (sret True)) ?t"
    by (simp add: run on_wait w)
  obtain s3 where s3: "pglogical_drop_subscription E name False s2 = Some (Inr True, s3)"
    "the_nodes s3 = N'" "the_db s3 = the_db s2" "the_status s3 = drop_subscription_sync_status subid rows"
    "f_queue (f_cats s3) = f_queue (f_cats s2)" "f_rows (f_cats s3) = f_rows (f_cats s2)"
    "f_origins (f_cats s3) = og(sub_slot_name sub := None)"
    using after_wait_cats [OF assms(8), of sub "sub_slot_name sub" ?t] unfolding run'
    by (auto simp: s2 put_nodes_def put_status_def)
  have "same_tables N' (the_nodes s)"
    using N' undo by (auto simp: same_tables_def)
  then show ?thesis
    using found s3 assms(7) s1 by (auto simp: s2 drop_subscription_sync_status_def delete_all_def)
qed

lemma ex_create_reads:
  "require_local_node (the_nodes ex_before) = Inr ex_this_node"
  "get_node_by_name ''prov'' True (the_nodes ex_before) = Inr None"
  "get_node_subscriptions 77 True ex_with_if = Inr []"
  "textarray_to_list [Some ''default''] = Inr [''default'']" "textarray_to_list [] = Inr []"
  "validate_subscription_name ''s1'' = Inr ()"
  by code_simp+

lemma ex_info_read: "provider_info ex_fun ''s1'' ''dbname=pdb'' = Inr ex_info"
  by code_simp

lemma ex_node_created:
  "create_node (fe_hash ex_fun) \<lparr> node_id = 77, node_name = ''prov'' \<rparr> (the_nodes ex_before) =
   Inr (\<lparr> node_id = 77, node_name = ''prov'' \<rparr>, ex_with_node)"
  by code_simp

lemma ex_hashes: "ex_name_hash ''prov'' = 20681" "ex_name_hash ''s1'' = 10341"
  by (simp_all add: ex_name_hash_def of_char_def)

lemma ex_fun_hash:
  "fe_hash ex_fun = ex_name_hash" "re_hash_pair (fe_rep ex_fun) = (\<lambda>a b. a + b)" "fe_connect ex_fun = (\<lambda>_. Some ex_provider)"
  by (simp_all add: ex_fun_def ex_renv_def)

lemma ex_if_created:
  "create_node_interface (fe_hash ex_fun) (re_hash_pair (fe_rep ex_fun))
     \<lparr> if_id = InvalidOid, if_name = ''prov'', if_nodeid = 77, if_dsn = ''dbname=pdb'' \<rparr> ex_with_node = Inr (ex_new_if, ex_with_if)"
  by (simp add: create_node_interface_def ex_hashes ex_fun_hash catalog_insert_def interface_conflicts_def ex_with_node_def
      ex_with_if_def ex_before_def ex_if_def ex_new_if_def namestrcpy_def Let_def)

lemma ex_sub_created:
  "\<exists>N. create_subscription (fe_hash ex_fun) ex_new_sub ex_with_if = Inr (ex_new_sub\<lparr> sub_id := 10341 \<rparr>, N)"
  by (simp add: create_subscription_def ex_new_sub_def new_subscription_def ex_hashes ex_fun_hash ex_create_reads
      get_subscription_by_name_def ex_with_if_def ex_with_node_def ex_before_def catalog_insert_def)

lemma ex_status_created: "create_local_sync_status ex_status_row [] = Inr [ex_status_row]"
  by code_simp

lemma ex_created:
  "\<exists>N. pglogical_create_subscription ex_fun ''s1'' ''dbname=pdb'' [Some ''default''] True True [] ex_zero ex_before =
     Some (Inr 10341, put_status [ex_status_row] (put_nodes N ex_before))"
proof -
  obtain N where N: "create_subscription (fe_hash ex_fun) ex_new_sub ex_with_if = Inr (ex_new_sub\<lparr> sub_id := 10341 \<rparr>, N)"
    using ex_sub_created by blast
  have ri: "pglogical_remote_node_info ex_provider = Inr ex_info"
    using ex_info_read by (simp add: provider_info_def pglogical_connect_def pglogical_connect_base_def ex_fun_hash)
  have put: "put_nodes N (put_nodes M s) = put_nodes N s" for N M s
    by (simp add: put_nodes_def)
  have sub: "new_subscription ex_fun ''s1'' \<lparr> node_id = 77, node_name = ''prov'' \<rparr> ex_new_if ex_this_node [''default''] [] ex_zero =
      ex_new_sub" and nid: "if_nodeid ex_new_if = 77"
    by (simp_all add: ex_new_sub_def ex_node_def ex_new_if_def)
  have "status_write (create_local_sync_status \<lparr> sync_kind = create_sync_kind True True, sync_subid = 10341,
                     sync_nspname = None, sync_relname = None, sync_status = SYNC_STATUS_INIT \<rparr>) (put_nodes N ex_before) =
     Some (Inr (), put_status [ex_status_row] (put_nodes N ex_before))"
    using ex_status_created by (simp add: part_write_def ex_status_row_def create_sync_kind_def ex_before_def ex_sql_state_def)
  then show ?thesis
    by (intro exI [of _ N])
      (simp add: pglogical_create_subscription_def sbind_read ex_create_reads pglogical_connect_def pglogical_connect_replica_def
       pglogical_connect_base_def ex_fun_hash(3) sbind_simps ri ex_info_def origin_interface_def sbind_assoc sbind_do
       ex_node_created ex_if_created put nid sets_overlap_def sub N Let_def sbind_def [of "part_write _ _ _"] sret_def)
qed

lemma ex_before_ok: "cats_ok (f_cats ex_before)"
  by (simp add: cats_ok_def ex_before_def node_refs_ok_def sub_refs_ok_def if_keys_def node_ids_def local_ids_def
      repset_catalog_ok_def sets_local_def status_ok_def ex_sql_state_def ex_pdb_def rows_ok_def node_catalog_ok_def
      ex_node_def ex_if_def)

theorem create_then_drop_restores_witness:
  "\<exists>s1 s3. pglogical_create_subscription ex_fun ''s1'' ''dbname=pdb'' [Some ''default''] True True [] ex_zero ex_before =
     Some (Inr 10341, s1) \<and> cat_subscription (the_nodes s1) \<noteq> [] \<and>
     pglogical_drop_subscription ex_fun ''s1'' False s1 = Some (Inr True, s3) \<and> same_tables (the_nodes s3) (the_nodes ex_before)"
proof -
  obtain N where c: "pglogical_create_subscription ex_fun ''s1'' ''dbname=pdb'' [Some ''default''] True True [] ex_zero ex_before =
      Some (Inr 10341, put_status [ex_status_row] (put_nodes N ex_before))" (is "_ = Some (_, ?s1)")
    using ex_created by blast
  have ok: "cats_ok (f_cats ?s1)"
    using wp_elim [OF c create_subscription_wp [OF ex_before_ok]] .
  have e: "f_ctx ex_before = \<lparr> supervisor = None, subscriptions_changed = False, workers = [], signals = [] \<rparr>"
    "the_status ex_before = []"
    by (simp_all add: ex_before_def ex_sql_state_def)
  have run: "\<not> apply_runs (fe_database ex_fun) 10341 (killed_ctx ex_fun 10341 ?s1)"
    by (simp add: apply_runs_def killed_ctx_def put_status_def put_nodes_def e) code_simp
  have "\<exists>s3 sub. get_subscription_by_name ''s1'' False (the_nodes ?s1) = Inr (Some sub) \<and>
    pglogical_drop_subscription ex_fun ''s1'' False ?s1 = Some (Inr True, s3) \<and>
    same_tables (the_nodes s3) (the_nodes ex_before) \<and> the_db s3 = the_db ex_before \<and> the_status s3 = the_status ex_before \<and>
    f_queue (f_cats s3) = f_queue (f_cats ex_before) \<and> f_rows (f_cats s3) = f_rows (f_cats ex_before) \<and>
    f_origins (f_cats s3) = (f_origins (f_cats ?s1))(sub_slot_name sub := None)"
  proof (rule create_then_drop_restores [OF ex_before_ok c ex_info_read, where k = 0 and ctx = "f_ctx ?s1" and rows = "the_status ?s1"])
  qed (use ex_create_reads(2) ok run in \<open>simp_all add: ex_info_def cats_ok_def ex_fun_def e ex_status_row_def\<close>)
  moreover have "cat_subscription (the_nodes ?s1) \<noteq> []"
    if "get_subscription_by_name ''s1'' False (the_nodes ?s1) = Inr (Some sub)" for sub
    using that by (auto simp: get_subscription_by_name_def)
  ultimately show ?thesis
    using c by blast
qed

end
