(* ===== verification/Pgl_Provider.thy ===== *)
theory Pgl_Provider
  imports Pgl_SubscriptionLife
begin

text \<open>
  What the functions and triggers of the provider guarantee of the members of its replication sets: which column lists are accepted, what becomes of
  dropped tables and sequences, and which messages a TRUNCATE statement queues.
\<close>

section \<open>Definitions\<close>

definition in_a_set :: "provider_db \<Rightarrow> dropped_object \<Rightarrow> bool" where
  "in_a_set db obj = (if do_istable obj then list_ex (\<lambda>t. rt_reloid t = do_objid obj) (cat_repset_table db)
                      else list_ex (\<lambda>t. rq_seqoid t = do_objid obj) (cat_repset_seq db))"

definition names_object :: "bool \<Rightarrow> oid \<Rightarrow> dropped_object \<Rightarrow> bool" where
  "names_object istable i obj \<longleftrightarrow> do_istable obj = istable \<and> do_objid obj = i"

text \<open>The members and the sequence states that are left, and the status rows that are left.\<close>

definition without_objects :: "dropped_object list \<Rightarrow> provider_db \<Rightarrow> provider_db" where
  "without_objects objs db =
     db\<lparr> cat_repset_table := filter (\<lambda>t. \<not> list_ex (names_object True (rt_reloid t)) objs) (cat_repset_table db),
         cat_repset_seq := filter (\<lambda>t. \<not> list_ex (names_object False (rq_seqoid t)) objs) (cat_repset_seq db),
         cat_sequence_state := filter (\<lambda>t. \<not> list_ex (names_object False (ss_seqoid t)) objs) (cat_sequence_state db) \<rparr>"

definition without_statuses :: "dropped_object list \<Rightarrow> PGLogicalSyncStatus list \<Rightarrow> PGLogicalSyncStatus list" where
  "without_statuses objs rows =
     filter (\<lambda>r. \<not> list_ex (\<lambda>obj. is_table_row (sync_subid r) (do_schema obj) (do_name obj) r) objs) rows"

text \<open>
  How PostgreSQL runs a TRUNCATE of tables that carry the trigger: the tables are emptied, then the trigger fires
  once for each.
\<close>

definition truncate_call :: "oid \<Rightarrow> trigger_call" where
  "truncate_call rid = \<lparr> called_as_trigger = True, fired_after = True, fired_by_truncate = True, tg_relation = rid \<rparr>"

definition truncate_statement :: "bool \<Rightarrow> oid list \<Rightarrow> unit sql_m" where
  "truncate_statement in_worker rids =
     sthen (smodify (\<lambda>s. put_rows (\<lambda>i. if i \<in> set rids then [] else f_rows (f_cats s) i) s))
       (sforeach (\<lambda>rid. pglogical_queue_truncate in_worker (truncate_call rid)) rids)"

definition table_in_sets :: "provider_db \<Rightarrow> oid \<Rightarrow> string set" where
  "table_in_sets db rid =
     rs_name ` {r \<in> set (cat_repset db). \<exists>t \<in> set (cat_repset_table db). rt_reloid t = rid \<and> rt_setid t = rs_id r}"

text \<open>The message for a truncated table: it names the table and is addressed to the sets the table is in.\<close>

definition truncate_message :: "('j, 'n) fun_env \<Rightarrow> provider_db \<Rightarrow> oid \<Rightarrow> QueueTuple \<Rightarrow> bool" where
  "truncate_message E db rid m \<longleftrightarrow> qt_message_type m = QUEUE_COMMAND_TYPE_TRUNCATE \<and>
     (\<exists>rel nsp names. pg_class db rid = Some rel \<and> sq_namespace_name (fe_seq E) (relnamespace rel) = Some nsp \<and>
        json_in (sq_queue (fe_seq E)) (relation_json (sq_escape_json (fe_seq E)) nsp (relname rel)) = Inr (qt_message m) \<and>
        qt_replication_sets m = Some names \<and> set names = table_in_sets db rid)"

text \<open>What the backend must provide: the role, the JSON input, and the relations with their schemas.\<close>

definition truncate_env_ok :: "('j, 'n) fun_env \<Rightarrow> provider_db \<Rightarrow> oid list \<Rightarrow> bool" where
  "truncate_env_ok E db rids \<longleftrightarrow> GetUserNameFromId (sq_queue (fe_seq E)) (GetUserId (fe_seq E)) \<noteq> None \<and>
     (\<forall>j. is_ok (json_in (sq_queue (fe_seq E)) j)) \<and>
     list_all (\<lambda>i. case pg_class db i of None \<Rightarrow> False
        | Some r \<Rightarrow> sq_namespace_name (fe_seq E) (relnamespace r) \<noteq> None) rids"

text \<open>
  A row type as PostgreSQL keeps it: the numbers are positive and no two columns that are not dropped have the same name.
  A list of names lists a column when it names it.
\<close>

definition live_columns :: "tupledesc \<Rightarrow> form_pg_attribute list" where
  "live_columns desc = filter (\<lambda>att. \<not> attisdropped att) desc"

definition rowtype_ok :: "tupledesc \<Rightarrow> bool" where
  "rowtype_ok desc \<longleftrightarrow> (\<forall>att \<in> set desc. 0 < attnum att \<and> length (attname att) < NAMEDATALEN) \<and>
     distinct (map attname (live_columns desc))"

definition listed :: "string list \<Rightarrow> form_pg_attribute \<Rightarrow> bool" where
  "listed names att \<longleftrightarrow> list_ex (nameeq (attname att)) names"

definition listed_keys :: "tupledesc \<Rightarrow> string list \<Rightarrow> bitmapset" where
  "listed_keys desc names =
     set (map (\<lambda>att. attnum att - FirstLowInvalidHeapAttributeNumber) (filter (listed names) (live_columns desc)))"

text \<open>The insertion of a row, and the verdict of the row filter hook on a change.\<close>

definition insert_of :: "heap_tuple \<Rightarrow> reorderbuffer_change" where
  "insert_of row = \<lparr> action = REORDER_BUFFER_CHANGE_INSERT, oldtuple = None, newtuple = Some row \<rparr>"

definition hook_passes ::
  "('k, 'n, 'j, 'e) hooks_env \<Rightarrow> ('k, 'n) hook_world \<Rightarrow> reorderbuffer_txn \<Rightarrow> relation \<Rightarrow> reorderbuffer_change \<Rightarrow> bool" where
  "hook_passes H W txn rel change = (case pglogical_row_filter_hook H W txn rel change of
      Inl e \<Rightarrow> False | Inr (pass, cols, W') \<Rightarrow> pass)"

text \<open>An example: the table is a member of the subscriber's own set.\<close>

definition ex_member_state :: sql_state where
  "ex_member_state = ex_subscribed\<lparr> f_cats := (f_cats ex_subscribed)
     \<lparr> f_db := ex_pdb1\<lparr> cat_repset := [ex_default\<lparr> rs_nodeid := 2 \<rparr>] \<rparr>,
       f_rows := (\<lambda>_. [\<lparr> tid = 1, t_xmin = 700, t_data = [Some (DatumPtr ''1''), None] \<rparr>]) \<rparr> \<rparr>"

definition ex_dropped :: dropped_object where
  "ex_dropped = \<lparr> do_objid = 16400, do_schema = ''public'', do_name = ''t'', do_istable = True \<rparr>"

definition ex_hooks :: "(nat list, string, string, string) hooks_env" where
  "ex_hooks = ex_henv\<lparr> he_repset := de_rep ex_ddl \<rparr>"

definition ex_session :: "(nat list, string) hook_world" where
  "ex_session = ex_world\<lparr> hw_private := Some \<lparr> local_node_id = 2, replication_sets = [ex_default\<lparr> rs_nodeid := 2 \<rparr>],
     replicate_only_table = None, forward_origins = [] \<rparr>, hw_db := the_db ex_member_state \<rparr>"

definition ex_fcall :: filtered_call where
  "ex_fcall = \<lparr> fc_is_rowtype = True, fc_resultinfo = True, fc_composite = True, fc_desc = rd_att ex_member \<rparr>"

section \<open>The sets of a relation\<close>

lemma rmap_sets:
  assumes "f ` set rows \<subseteq> rs_id ` set (cat_repset db)"
  shows "\<exists>sets. rmap (\<lambda>t. get_replication_set (f t) db) rows = Inr sets \<and> map rs_id sets = map f rows \<and>
    set sets \<subseteq> set (cat_repset db)"
  using assms
proof (induction rows)
  case (Cons t rows)
  have "f t \<in> rs_id ` set (cat_repset db)"
    using Cons.prems by simp
  then have "List.find (\<lambda>r. rs_id r = f t) (cat_repset db) \<noteq> None"
    unfolding find_None_iff by (metis imageE)
  then obtain s where s: "List.find (\<lambda>r. rs_id r = f t) (cat_repset db) = Some s"
    by blast
  then have "rs_id s = f t" "s \<in> set (cat_repset db)"
    by (auto dest: find_Some_in)
  then show ?case
    using Cons s by (auto simp: get_replication_set_def)
qed simp

lemma all_local: "sets_local N db \<Longrightarrow> local_ids N = {i} \<Longrightarrow> set sets \<subseteq> set (cat_repset db) \<Longrightarrow>
    filter (\<lambda>s. rs_nodeid s = i) sets = sets"
  by (auto simp: sets_local_def intro!: filter_True)

text \<open>In a consistent catalog the sets of a table or sequence are the sets of its rows, in their order.\<close>

lemma sets_of_relation:
  assumes "repset_catalog_ok db" "sets_local N db" "local_ids N = {i}" "repset_table_exists E"
  shows "\<exists>sets. get_table_replication_sets E i q db = Inr sets \<and>
      map rs_id sets = map rt_setid (filter (\<lambda>t. rt_reloid t = q) (cat_repset_table db)) \<and> set sets \<subseteq> set (cat_repset db)"
    and "\<exists>sets. get_seq_replication_sets i q db = Inr sets \<and>
      map rs_id sets = map rq_setid (filter (\<lambda>t. rq_seqoid t = q) (cat_repset_seq db)) \<and> set sets \<subseteq> set (cat_repset db)"
proof -
  have "rt_setid ` set (filter (\<lambda>t. rt_reloid t = q) (cat_repset_table db)) \<subseteq> rs_id ` set (cat_repset db)"
    "rq_setid ` set (filter (\<lambda>t. rq_seqoid t = q) (cat_repset_seq db)) \<subseteq> rs_id ` set (cat_repset db)"
    using assms(1) by (auto simp: repset_catalog_ok_def)
  from this [THEN rmap_sets] assms(4)
  show "\<exists>sets. get_table_replication_sets E i q db = Inr sets \<and>
      map rs_id sets = map rt_setid (filter (\<lambda>t. rt_reloid t = q) (cat_repset_table db)) \<and> set sets \<subseteq> set (cat_repset db)"
    "\<exists>sets. get_seq_replication_sets i q db = Inr sets \<and>
      map rs_id sets = map rq_setid (filter (\<lambda>t. rq_seqoid t = q) (cat_repset_seq db)) \<and> set sets \<subseteq> set (cat_repset db)"
    by (auto simp: get_table_replication_sets_def get_seq_replication_sets_def all_local [OF assms(2,3)])
qed

section \<open>Dropped objects\<close>

lemma remove_dropped_table:
  assumes "rows_ok repset_table_conflicts (cat_repset_table db)"
  shows "replication_set_remove_table i q True db =
    Inr (db\<lparr> cat_repset_table := filter (\<lambda>t. \<not> (rt_setid t = i \<and> rt_reloid t = q)) (cat_repset_table db) \<rparr>)"
  using member_table.delete_first_filter [OF assms, of "(i, q)"] by (simp add: replication_set_remove_table_def Let_def)

lemma remove_dropped_seq:
  assumes "rows_ok repset_seq_conflicts (cat_repset_seq db)" "rows_ok seq_state_conflicts (cat_sequence_state db)"
    and "i \<in> rs_id ` set (cat_repset db)"
  shows "replication_set_remove_seq i q True db =
    Inr (db\<lparr> cat_repset_seq := filter (\<lambda>t. \<not> (rq_setid t = i \<and> rq_seqoid t = q)) (cat_repset_seq db),
             cat_sequence_state := filter (\<lambda>t. ss_seqoid t \<noteq> q) (cat_sequence_state db) \<rparr>)"
proof -
  obtain s where "get_replication_set i db = Inr s"
    using rmap_sets [of id "[i]" db] assms(3) by (auto simp: rbind_eq_Inr)
  then show ?thesis
    using member_seq.delete_first_filter [OF assms(1), of "(i, q)"] seq_state.delete_first_filter [OF assms(2), of q]
    by (simp add: replication_set_remove_seq_def Let_def pglogical_drop_sequence_state_record_def)
qed

lemma put_db_id: "put_db (the_db s) s = s" "put_db d (put_db d' s) = put_db d s"
  by (simp_all add: put_db_def)

lemma drop_memberships_table:
  assumes "rows_ok repset_table_conflicts (cat_repset_table (the_db s))" "do_istable obj"
  shows "sforeach (drop_membership obj) sets s = Some (Inr (), put_db ((the_db s)\<lparr> cat_repset_table :=
    filter (\<lambda>t. \<not> (rt_setid t \<in> rs_id ` set sets \<and> rt_reloid t = do_objid obj)) (cat_repset_table (the_db s)) \<rparr>) s)"
  using assms
proof (induction sets arbitrary: s)
  case (Cons r sets)
  show ?case
    using Cons.prems Cons.IH [of "put_db _ s"]
    by (simp add: drop_membership_def sbind_write remove_dropped_table rows_ok_filter put_db_id)
      (auto intro!: arg_cong [where f = "\<lambda>t. put_db ((the_db s)\<lparr> cat_repset_table := t \<rparr>) s"] filter_cong)
qed (simp add: sret_def put_db_def)

lemma drop_memberships_seq:
  assumes "rows_ok repset_seq_conflicts (cat_repset_seq (the_db s))"
    "rows_ok seq_state_conflicts (cat_sequence_state (the_db s))" "\<not> do_istable obj"
    "rs_id ` set sets \<subseteq> rs_id ` set (cat_repset (the_db s))"
  shows "sforeach (drop_membership obj) sets s = Some (Inr (), put_db ((the_db s)\<lparr> cat_repset_seq :=
      filter (\<lambda>t. \<not> (rq_setid t \<in> rs_id ` set sets \<and> rq_seqoid t = do_objid obj)) (cat_repset_seq (the_db s)),
    cat_sequence_state := filter (\<lambda>t. sets \<noteq> [] \<longrightarrow> ss_seqoid t \<noteq> do_objid obj) (cat_sequence_state (the_db s)) \<rparr>) s)"
  using assms
proof (induction sets arbitrary: s)
  case (Cons r sets)
  show ?case
    using Cons.prems Cons.IH [of "put_db _ s"]
    by (simp add: drop_membership_def sbind_write remove_dropped_seq rows_ok_filter put_db_id)
      (auto intro!: arg_cong2 [where f = "\<lambda>t u. put_db ((the_db s)\<lparr> cat_repset_seq := t, cat_sequence_state := u \<rparr>) s"] filter_cong)
qed (simp add: sret_def put_db_def)

lemma without_objects_parts [simp]:
  "cat_repset (without_objects objs db) = cat_repset db" "pg_class (without_objects objs db) = pg_class db"
  by (simp_all add: without_objects_def)

lemma without_objects_ok:
  assumes "repset_catalog_ok db"
  shows "repset_catalog_ok (without_objects objs db)"
proof -
  let ?P = "\<lambda>i. \<not> list_ex (names_object False i) objs"
  have img: "f ` {x \<in> A. ?P (f x)} = {y \<in> f ` A. ?P y}" for f :: "'a \<Rightarrow> oid" and A
    by auto
  have img_seq: "f ` {x \<in> A. ?P (f x)} = {y \<in> f ` A. ?P y}" for f :: "'b \<Rightarrow> oid" and A
    by auto
  have "identity_ok (without_objects objs db) t x = identity_ok db t x" for t x
    by (simp add: identity_ok_def)
  moreover have "ss_seqoid ` set (cat_sequence_state (without_objects objs db)) =
      rq_seqoid ` set (cat_repset_seq (without_objects objs db))"
    using repset_okD(8) [OF assms] by (simp add: without_objects_def img img_seq)
  ultimately show ?thesis
    using assms by (auto simp: repset_catalog_ok_def) (auto simp: without_objects_def rows_ok_filter)
qed

lemma without_objects_Cons: "without_objects objs (without_objects [obj] db) = without_objects (obj # objs) db"
  by (simp add: without_objects_def conj_commute)

lemma without_statuses_Cons: "without_statuses objs (without_statuses [obj] rows) = without_statuses (obj # objs) rows"
  by (simp add: without_statuses_def conj_commute)

lemma in_a_set_without:
  "in_a_set (without_objects [obj] db) obj' \<longleftrightarrow> in_a_set db obj' \<and> \<not> names_object (do_istable obj') (do_objid obj') obj"
  by (auto simp: in_a_set_def without_objects_def list_ex_iff names_object_def)

lemma without_Nil: "without_objects [] db = db" "without_statuses [] rows = rows"
  by (simp_all add: without_objects_def without_statuses_def)

lemma sets_Nil_iff: "map rs_id sets = map f (filter P rows) \<Longrightarrow> sets = [] \<longleftrightarrow> \<not> list_ex P rows"
  by (metis filter_empty_conv list_ex_iff map_is_Nil_conv)

lemma sets_image:
  assumes "map rs_id sets = map f (filter P rows)"
  shows "t \<in> set rows \<Longrightarrow> P t \<Longrightarrow> f t \<in> rs_id ` set sets"
  using arg_cong [OF assms, of set] by simp

lemma check_dropped_table:
  assumes "repset_catalog_ok (the_db s)" "sets_local (the_nodes s) (the_db s)" "local_ids (the_nodes s) = {i}"
    "repset_table_exists (de_rep D)" "do_istable obj"
  shows "\<exists>details. check_dropped_object D i removing obj s = Some (Inr details,
      put_status (without_statuses [obj] (the_status s))
        (put_db (if removing then without_objects [obj] (the_db s) else the_db s) s)) \<and>
    (details = [] \<longleftrightarrow> \<not> in_a_set (the_db s) obj)"
proof -
  obtain sets where sets: "get_table_replication_sets (de_rep D) i (do_objid obj) (the_db s) = Inr sets"
    "map rs_id sets = map rt_setid (filter (\<lambda>t. rt_reloid t = do_objid obj) (cat_repset_table (the_db s)))"
    using sets_of_relation(1) [OF assms(1-4)] by blast
  have "without_objects [obj] (the_db s) = (the_db s)\<lparr> cat_repset_table :=
      filter (\<lambda>t. \<not> (rt_setid t \<in> rs_id ` set sets \<and> rt_reloid t = do_objid obj)) (cat_repset_table (the_db s)) \<rparr>"
    using sets_image [OF sets(2)] assms(5)
    by (auto simp: without_objects_def names_object_def intro!: arg_cong [where f = "\<lambda>t. (the_db s)\<lparr> cat_repset_table := t \<rparr>"] filter_cong)
  then have run: "swhen removing (sforeach (drop_membership obj) sets) s =
      Some (Inr (), put_db (if removing then without_objects [obj] (the_db s) else the_db s) s)"
    using drop_memberships_table [OF repset_okD(2) [OF assms(1)] assms(5)] by (simp add: swhen_def put_db_id sret_def)
  show ?thesis
    using sets_Nil_iff [OF sets(2)] assms(5)
    by (simp add: check_dropped_object_def sbind_read sets(1) sbind_def [of "swhen _ _"] run sbind_write sret_def
        drop_table_sync_status_def delete_all_def without_statuses_def in_a_set_def)
qed

lemma check_dropped_seq:
  assumes "repset_catalog_ok (the_db s)" "sets_local (the_nodes s) (the_db s)" "local_ids (the_nodes s) = {i}"
    "repset_table_exists (de_rep D)" "\<not> do_istable obj"
  shows "\<exists>details. check_dropped_object D i removing obj s = Some (Inr details,
      put_status (without_statuses [obj] (the_status s))
        (put_db (if removing then without_objects [obj] (the_db s) else the_db s) s)) \<and>
    (details = [] \<longleftrightarrow> \<not> in_a_set (the_db s) obj)"
proof -
  let ?db = "the_db s"
  obtain sets where sets: "get_seq_replication_sets i (do_objid obj) ?db = Inr sets"
    "map rs_id sets = map rq_setid (filter (\<lambda>t. rq_seqoid t = do_objid obj) (cat_repset_seq ?db))" "set sets \<subseteq> set (cat_repset ?db)"
    using sets_of_relation(2) [OF assms(1-4)] by blast
  have state: "sets \<noteq> [] \<or> ss_seqoid t \<noteq> do_objid obj" if "t \<in> set (cat_sequence_state ?db)" for t
    using that sets_Nil_iff [OF sets(2)] repset_okD(8) [OF assms(1)] unfolding list_ex_iff by (metis imageE image_eqI)
  have "without_objects [obj] ?db = ?db\<lparr> cat_repset_seq :=
      filter (\<lambda>t. \<not> (rq_setid t \<in> rs_id ` set sets \<and> rq_seqoid t = do_objid obj)) (cat_repset_seq ?db),
      cat_sequence_state := filter (\<lambda>t. sets \<noteq> [] \<longrightarrow> ss_seqoid t \<noteq> do_objid obj) (cat_sequence_state ?db) \<rparr>"
    using sets_image [OF sets(2)] assms(5)
    by (auto dest: state simp: without_objects_def names_object_def
        intro!: arg_cong2 [where f = "\<lambda>t u. ?db\<lparr> cat_repset_seq := t, cat_sequence_state := u \<rparr>"] filter_cong)
  then have run: "swhen removing (sforeach (drop_membership obj) sets) s =
      Some (Inr (), put_db (if removing then without_objects [obj] ?db else ?db) s)"
    using drop_memberships_seq [OF repset_okD(3,4) [OF assms(1)] assms(5)] sets(3)
    by (auto simp: swhen_def put_db_id sret_def)
  show ?thesis
    using sets_Nil_iff [OF sets(2)] assms(5)
    by (simp add: check_dropped_object_def sbind_read sets(1) sbind_def [of "swhen _ _"] run sbind_write sret_def
        drop_table_sync_status_def delete_all_def without_statuses_def in_a_set_def)
qed

lemma in_a_set_same: "names_object (do_istable obj') (do_objid obj') obj \<Longrightarrow> in_a_set db obj = in_a_set db obj'"
  by (simp add: names_object_def in_a_set_def)

lemma put_after: "put_status r' (put_db d' (put_status r (put_db d s))) = put_status r' (put_db d' s)"
  by (simp add: put_status_def put_db_def)

lemma check_dropped_list:
  assumes "repset_catalog_ok (the_db s)" "sets_local (the_nodes s) (the_db s)" "local_ids (the_nodes s) = {i}"
    "repset_table_exists (de_rep D)"
  shows "\<exists>details. check_dropped_objects D i removing objs s = Some (Inr details,
      put_status (without_statuses objs (the_status s))
        (put_db (if removing then without_objects objs (the_db s) else the_db s) s)) \<and>
    (details = [] \<longleftrightarrow> \<not> list_ex (in_a_set (the_db s)) objs)"
  using assms(1-3)
proof (induction objs arbitrary: s)
  case Nil
  then show ?case
    by (simp add: sret_def without_Nil put_db_def put_status_def)
next
  case (Cons obj objs)
  let ?db = "if removing then without_objects [obj] (the_db s) else the_db s"
  let ?s = "put_status (without_statuses [obj] (the_status s)) (put_db ?db s)"
  obtain d1 where d1: "check_dropped_object D i removing obj s = Some (Inr d1, ?s)" "d1 = [] \<longleftrightarrow> \<not> in_a_set (the_db s) obj"
    using check_dropped_table [OF Cons.prems assms(4)] check_dropped_seq [OF Cons.prems assms(4)] by blast
  have "repset_catalog_ok (the_db ?s)" "sets_local (the_nodes ?s) (the_db ?s)" "local_ids (the_nodes ?s) = {i}"
    using Cons.prems by (auto simp: without_objects_ok sets_local_def)
  from Cons.IH [OF this] obtain d2 where d2: "check_dropped_objects D i removing objs ?s = Some (Inr d2,
      put_status (without_statuses objs (the_status ?s))
        (put_db (if removing then without_objects objs (the_db ?s) else the_db ?s) ?s))"
    "d2 = [] \<longleftrightarrow> \<not> list_ex (in_a_set (the_db ?s)) objs"
    by blast
  have "in_a_set ?db obj' \<longleftrightarrow> in_a_set (the_db s) obj'" if "\<not> in_a_set (the_db s) obj" for obj'
    using that in_a_set_same [of obj' obj "the_db s"] by (auto simp: in_a_set_without)
  then have "d1 @ d2 = [] \<longleftrightarrow> \<not> list_ex (in_a_set (the_db s)) (obj # objs)"
    using d1(2) d2(2) by (auto simp: list_ex_iff)
  then show ?case
    using d1(1) d2(1) by (auto simp: sbind_def sret_def put_after without_objects_Cons without_statuses_Cons)
qed

lemma local_node_read:
  assumes "cats_ok (f_cats s)" "cat_local_node (the_nodes s) \<noteq> []"
  obtains ln where "get_local_node True (the_nodes s) = Inr (Some ln)" "local_ids (the_nodes s) = {node_id (ln_node ln)}"
proof -
  obtain found where f: "get_local_node True (the_nodes s) = Inr found"
    using local_node_ok [OF cats_okD(2) [OF assms(1)]] by (auto simp: is_ok_def split: sum.splits)
  with local_ids_eq [OF f cats_okD(1) [OF assms(1)]] assms(2) that show ?thesis
    by (cases found) (auto simp: local_ids_def)
qed

lemma without_statuses_ok:
  assumes "status_ok N rows"
  shows "status_ok N (without_statuses objs rows)"
proof -
  have "filter (is_subscription_row i) (without_statuses objs rows) = filter (is_subscription_row i) rows" for i
    by (auto simp: without_statuses_def is_subscription_row_def is_table_row_def list_ex_iff intro!: filter_cong)
  then show ?thesis
    using assms by (auto simp: status_ok_def) (auto simp: without_statuses_def)
qed

section \<open>Properties\<close>

text \<open>
  C17.  No dropped table or sequence stays a member of a replication set.  The event trigger refuses a command that drops a member, unless
  it says CASCADE or the session applies changes; then exactly the dropped objects leave the sets, a dropped sequence leaves its state record
  too, and the catalogs stay consistent.  In both cases the status rows of the dropped tables are removed (a refusal aborts the
  command, which undoes that).
\<close>

theorem dropped_objects_leave_sets:
  assumes "cats_ok (f_cats s)" "cat_local_node (the_nodes s) \<noteq> []" "repset_table_exists (de_rep D)"
  shows "\<exists>s'. pglogical_dependency_check_trigger D True cascade dropped s =
      Some (if list_ex (in_a_set (the_db s)) dropped \<and> \<not> cascade \<and> \<not> session_is_replica D
            then ereport ERRCODE_DEPENDENT_OBJECTS_STILL_EXIST ''cannot drop desired object(s) because other objects depend on them''
            else Inr (), s') \<and>
    f_cats s' = (f_cats s)\<lparr> f_db := if cascade \<or> session_is_replica D then without_objects dropped (the_db s) else the_db s,
                            f_status := without_statuses dropped (the_status s) \<rparr> \<and>
    cats_ok (f_cats s')"
proof -
  note okc = cats_okD [OF assms(1)]
  obtain ln where ln: "get_local_node True (the_nodes s) = Inr (Some ln)" "local_ids (the_nodes s) = {node_id (ln_node ln)}"
    using local_node_read [OF assms(1,2)] .
  let ?db = "if cascade \<or> session_is_replica D then without_objects dropped (the_db s) else the_db s"
  let ?s = "put_status (without_statuses dropped (the_status s)) (put_db ?db s)"
  obtain details where d: "check_dropped_objects D (node_id (ln_node ln)) (cascade \<or> session_is_replica D) dropped s =
      Some (Inr details, ?s)" "details = [] \<longleftrightarrow> \<not> list_ex (in_a_set (the_db s)) dropped"
    using check_dropped_list [OF okc(3,4) ln(2) assms(3)] by blast
  have "cats_ok (f_cats ?s)"
    using assms(1) without_statuses_ok [OF okc(5)]
    by (auto simp: cats_ok_def without_objects_ok sets_local_def)
  moreover have "f_cats ?s = (f_cats s)\<lparr> f_db := ?db, f_status := without_statuses dropped (the_status s) \<rparr>"
    by (simp add: put_status_def put_db_def)
  ultimately show ?thesis
    using d by (auto simp: pglogical_dependency_check_trigger_def sbind_read ln(1) sbind_def [of "check_dropped_objects _ _ _ _"]
        sret_def sfail_def smodify_def)
qed

lemma ex_member_ok: "cats_ok (f_cats ex_member_state)"
proof -
  have "node_catalog_ok ex_catalog1"
    using create_subscription_ok [OF ex_catalog_ok ex_create] .
  then show ?thesis
    by (simp add: cats_ok_def ex_member_state_def ex_subscribed_def node_refs_ok_def sub_refs_ok_def if_keys_def node_ids_def
        local_ids_def repset_catalog_ok_def sets_local_def status_ok_def is_subscription_row_def ex_sql_state_def ex_pdb_def
        ex_pdb1_def rows_ok_def ex_catalog1_def ex_catalog_def ex_node_def ex_if_def ex_default_def identity_ok_def ex_rtable_def)
qed

lemma ex_member_env: "cat_local_node (the_nodes ex_member_state) \<noteq> []" "repset_table_exists (de_rep ex_ddl)"
  by (simp_all add: ex_member_state_def ex_subscribed_def ex_catalog1_def ex_catalog_def ex_ddl_def ex_fun_def ex_renv_def)

theorem dropped_objects_leave_sets_witness:
  "\<exists>s'. pglogical_dependency_check_trigger ex_ddl True True [ex_dropped] ex_member_state = Some (Inr (), s') \<and>
     cat_repset_table (the_db ex_member_state) \<noteq> [] \<and> cat_repset_table (the_db s') = []"
  using dropped_objects_leave_sets [OF ex_member_ok ex_member_env, of True "[ex_dropped]"]
  by (auto simp: without_objects_def names_object_def ex_dropped_def ex_member_state_def ex_pdb1_def)

section \<open>TRUNCATE\<close>

lemma fire_triggers:
  assumes "get_local_node True (the_nodes s) = Inr (Some ln)"
  shows "sforeach (\<lambda>rid. pglogical_queue_truncate in_worker (truncate_call rid)) rids s =
    Some (Inr (), s\<lparr> f_truncated := if in_worker then f_truncated s else f_truncated s @ rids \<rparr>)"
  using assms
proof (induction rids arbitrary: s)
  case (Cons i rids)
  show ?case
    using Cons.prems Cons.IH [of "s\<lparr> f_truncated := f_truncated s @ [i] \<rparr>"] Cons.IH [of s]
    by (auto simp: pglogical_queue_truncate_def truncate_call_def sbind_simps sbind_read sbind_assoc)
qed (simp add: sret_def)

lemma queue_one_truncated:
  assumes "repset_catalog_ok (the_db s)" "sets_local (the_nodes s) (the_db s)" "local_ids (the_nodes s) = {i}"
    "repset_table_exists (fe_rep E)" "truncate_env_ok E (the_db s) [rid]"
  shows "\<exists>msgs. queue_truncated E i rid s = Some (Inr (), put_queue (f_queue (f_cats s) @ msgs) s) \<and>
    list_all2 (truncate_message E (the_db s)) (filter (\<lambda>i. table_in_sets (the_db s) i \<noteq> {}) [rid]) msgs"
proof -
  obtain rel nsp where rel: "pg_class (the_db s) rid = Some rel" "sq_namespace_name (fe_seq E) (relnamespace rel) = Some nsp"
    using assms(5) by (auto simp: truncate_env_ok_def split: option.splits)
  let ?json = "relation_json (sq_escape_json (fe_seq E)) nsp (relname rel)"
  obtain sets where sets: "get_table_replication_sets (fe_rep E) i rid (the_db s) = Inr sets"
    "map rs_id sets = map rt_setid (filter (\<lambda>t. rt_reloid t = rid) (cat_repset_table (the_db s)))" "set sets \<subseteq> set (cat_repset (the_db s))"
    using sets_of_relation(1) [OF assms(1-4)] by blast
  have "rs_id ` set sets = rt_setid ` {t \<in> set (cat_repset_table (the_db s)). rt_reloid t = rid}"
    using arg_cong [OF sets(2), of set] by simp
  moreover have "inj_on rs_id (set (cat_repset (the_db s)))"
    using set_by_id.key_inj [OF repset_okD(1) [OF assms(1)]] by (auto simp: inj_on_def)
  ultimately have names: "rs_name ` set sets = table_in_sets (the_db s) rid"
    unfolding table_in_sets_def using sets(3) by (fastforce simp: inj_on_def image_iff)
  obtain role j where "GetUserNameFromId (sq_queue (fe_seq E)) (GetUserId (fe_seq E)) = Some role"
    "json_in (sq_queue (fe_seq E)) ?json = Inr j"
    using assms(5) by (fastforce simp: truncate_env_ok_def is_ok_iff)
  then have q: "\<exists>m. queue_message (sq_queue (fe_seq E)) (map rs_name sets) (GetUserId (fe_seq E)) QUEUE_COMMAND_TYPE_TRUNCATE ?json q =
      Inr (q @ [m]) \<and> truncate_message E (the_db s) rid m" if "sets \<noteq> []" for q
    using that names rel by (auto simp: queue_message_def truncate_message_def)
  have "sets = [] \<longleftrightarrow> table_in_sets (the_db s) rid = {}"
    using names by auto
  moreover have "put_queue (f_queue (f_cats s)) s = s"
    by (simp add: put_queue_def)
  ultimately show ?thesis
    using q [of "f_queue (f_cats s)"] by (cases "sets = []")
      (auto simp: queue_truncated_def sbind_simps rel sbind_read sets(1) swhen_def sret_def queue_for_sets_def part_write_def)
qed

lemma put_queue_simps [simp]:
  "f_queue (f_cats (put_queue q s)) = q" "f_db (f_cats (put_queue q s)) = f_db (f_cats s)"
  "f_nodes (f_cats (put_queue q s)) = f_nodes (f_cats s)" "f_rows (f_cats (put_queue q s)) = f_rows (f_cats s)"
  "put_queue q' (put_queue q s) = put_queue q' s"
  by (simp_all add: put_queue_def)

lemma queue_all_truncated:
  assumes "repset_catalog_ok (the_db s)" "sets_local (the_nodes s) (the_db s)" "local_ids (the_nodes s) = {i}"
    "repset_table_exists (fe_rep E)" "truncate_env_ok E (the_db s) rids"
  shows "\<exists>msgs. sforeach (queue_truncated E i) rids s = Some (Inr (), put_queue (f_queue (f_cats s) @ msgs) s) \<and>
    list_all2 (truncate_message E (the_db s)) (filter (\<lambda>i. table_in_sets (the_db s) i \<noteq> {}) rids) msgs"
  using assms
proof (induction rids arbitrary: s)
  case (Cons rid rids)
  have env: "truncate_env_ok E (the_db s) [rid]" "truncate_env_ok E (the_db s) rids"
    using Cons.prems(5) by (auto simp: truncate_env_ok_def)
  obtain m1 where m1: "queue_truncated E i rid s = Some (Inr (), put_queue (f_queue (f_cats s) @ m1) s)"
    "list_all2 (truncate_message E (the_db s)) (filter (\<lambda>i. table_in_sets (the_db s) i \<noteq> {}) [rid]) m1"
    using queue_one_truncated [OF Cons.prems(1-4) env(1)] by blast
  obtain m2 where m2: "sforeach (queue_truncated E i) rids (put_queue (f_queue (f_cats s) @ m1) s) =
      Some (Inr (), put_queue ((f_queue (f_cats s) @ m1) @ m2) s)"
    "list_all2 (truncate_message E (the_db s)) (filter (\<lambda>i. table_in_sets (the_db s) i \<noteq> {}) rids) m2"
    using Cons.IH [of "put_queue (f_queue (f_cats s) @ m1) s"] Cons.prems env(2) by auto
  show ?case
    using list_all2_appendI [OF m1(2) m2(2)] m1(1) m2(1)
    by (intro exI [of _ "m1 @ m2"]) (simp add: sbind_def split: if_splits)
qed (auto simp: sret_def put_queue_def)

text \<open>
  C25.  A TRUNCATE statement on a provider is queued for exactly the right sets.  When PostgreSQL has run a TRUNCATE of tables that
  carry the trigger, the queue has one TRUNCATE message for each of them that is in a replication set, in their order, each naming
  the table and addressed to exactly the sets the table is in; nothing is queued in an apply worker, and the list of truncated tables is
  empty again.
\<close>

theorem truncate_is_queued:
  assumes "cats_ok (f_cats s)" "cat_local_node (the_nodes s) \<noteq> []" "repset_table_exists (fe_rep E)"
    and "truncate_env_ok E (the_db s) rids" "standard (TruncateStmt p) = truncate_statement in_worker rids"
  shows "\<exists>s' msgs. pglogical_ProcessUtility E standard None (TruncateStmt p) s = Some (Inr (), s') \<and>
    f_cats s' = (f_cats s)\<lparr> f_queue := f_queue (f_cats s) @ msgs, f_rows := f_rows (f_cats s') \<rparr> \<and>
    (\<forall>i \<in> set rids. f_rows (f_cats s') i = []) \<and> f_truncated s' = [] \<and>
    list_all2 (truncate_message E (the_db s))
      (if in_worker then [] else filter (\<lambda>i. table_in_sets (the_db s) i \<noteq> {}) rids) msgs"
proof -
  note okc = cats_okD [OF assms(1)]
  obtain ln where ln: "get_local_node True (the_nodes s) = Inr (Some ln)" "local_ids (the_nodes s) = {node_id (ln_node ln)}"
    using local_node_read [OF assms(1,2)] .
  define s1 where "s1 = put_rows (\<lambda>i. if i \<in> set rids then [] else f_rows (f_cats (s\<lparr> f_truncated := [] \<rparr>)) i)
    (s\<lparr> f_truncated := [] \<rparr>)"
  have s1: "f_nodes (f_cats s1) = f_nodes (f_cats s)" "f_db (f_cats s1) = f_db (f_cats s)" "f_queue (f_cats s1) = f_queue (f_cats s)"
    "f_truncated s1 = []"
    by (simp_all add: s1_def put_rows_def)
  define s2 where "s2 = s1\<lparr> f_truncated := if in_worker then [] else rids \<rparr>"
  have run: "pglogical_ProcessUtility E standard None (TruncateStmt p) s = pglogical_finish_truncate E s2"
    using fire_triggers [of s1 ln in_worker rids] ln(1) s1
    by (simp add: pglogical_ProcessUtility_def swhen_True pglogical_start_truncate_def sbind_simps assms(5) truncate_statement_def
        sbind_assoc s1_def [symmetric] s2_def sbind_def [of "sforeach _ _"])
  obtain msgs where m: "sforeach (queue_truncated E (node_id (ln_node ln))) rids s2 =
      Some (Inr (), put_queue (f_queue (f_cats s) @ msgs) s2)"
    "list_all2 (truncate_message E (the_db s)) (filter (\<lambda>i. table_in_sets (the_db s) i \<noteq> {}) rids) msgs"
    using queue_all_truncated [of s2 "node_id (ln_node ln)" E rids] okc(3,4) ln(2) assms(3,4) s1 by (auto simp: s2_def)
  have finish: "pglogical_finish_truncate E s2 = (if in_worker \<or> rids = [] then Some (Inr (), s2)
      else Some (Inr (), (put_queue (f_queue (f_cats s) @ msgs) s2)\<lparr> f_truncated := [] \<rparr>))"
    using ln(1) s1 m(1)
    by (auto simp: pglogical_finish_truncate_def sbind_read s2_def sbind_simps sret_def smodify_def sbind_def [of "sforeach _ _"])
  show ?thesis
  proof (cases "in_worker \<or> rids = []")
    case True
    then show ?thesis
      using run finish by (intro exI [of _ s2] exI [of _ "[]"]) (auto simp: s2_def s1_def put_rows_def)
  next
    case False
    then show ?thesis
      using run finish m(2) by (intro exI [of _ "(put_queue (f_queue (f_cats s) @ msgs) s2)\<lparr> f_truncated := [] \<rparr>"] exI [of _ msgs])
        (auto simp: s2_def s1_def put_rows_def put_queue_def)
  qed
qed

lemma ex_truncate_env: "truncate_env_ok ex_fun (the_db ex_member_state) [16400]" "repset_table_exists (fe_rep ex_fun)"
  by (simp_all add: truncate_env_ok_def ex_fun_def ex_senv_def ex_member_state_def ex_pdb1_def ex_renv_def)

lemma ex_table_in_sets: "table_in_sets (the_db ex_member_state) 16400 = {''default''}"
proof -
  have "cat_repset (the_db ex_member_state) = [ex_default\<lparr> rs_nodeid := 2 \<rparr>]"
    "cat_repset_table (the_db ex_member_state) = [\<lparr> rt_setid = 1, rt_reloid = 16400, rt_att_list = Some [''id''],
       rt_row_filter = Some ''id > 5'' \<rparr>]"
    by (simp_all add: ex_member_state_def ex_pdb1_def)
  then show ?thesis
    by (simp add: table_in_sets_def ex_default_def Collect_conv_if)
qed

theorem truncate_is_queued_witness:
  "\<exists>s' m. pglogical_ProcessUtility ex_fun (\<lambda>_. truncate_statement False [16400]) None (TruncateStmt ()) ex_member_state =
      Some (Inr (), s') \<and> f_queue (f_cats s') = [m] \<and> qt_message_type m = QUEUE_COMMAND_TYPE_TRUNCATE \<and>
    f_rows (f_cats ex_member_state) 16400 \<noteq> [] \<and> f_rows (f_cats s') 16400 = []"
proof -
  from truncate_is_queued [where standard = "\<lambda>_. truncate_statement False [16400]" and p = "()" and in_worker = False,
      OF ex_member_ok ex_member_env(1) ex_truncate_env(2,1) refl]
  obtain s' msgs where run: "pglogical_ProcessUtility ex_fun (\<lambda>_. truncate_statement False [16400]) None (TruncateStmt ())
      ex_member_state = Some (Inr (), s')"
    and cats: "f_cats s' = (f_cats ex_member_state)\<lparr> f_queue := f_queue (f_cats ex_member_state) @ msgs, f_rows := f_rows (f_cats s') \<rparr>"
    and rows: "\<forall>i \<in> set [16400]. f_rows (f_cats s') i = []"
    and msgs: "list_all2 (truncate_message ex_fun (the_db ex_member_state))
      (if False then [] else filter (\<lambda>i. table_in_sets (the_db ex_member_state) i \<noteq> {}) [16400]) msgs"
    by (elim exE conjE)
  have "f_queue (f_cats s') = msgs"
    using arg_cong [OF cats, of f_queue] by (simp add: ex_member_state_def ex_subscribed_def ex_sql_state_def)
  moreover obtain m where "msgs = [m]" "truncate_message ex_fun (the_db ex_member_state) 16400 m"
    using msgs by (simp only: ex_table_in_sets if_False filter.simps) (simp add: list_all2_Cons1, blast)
  moreover have "f_rows (f_cats ex_member_state) 16400 \<noteq> []" "f_rows (f_cats s') 16400 = []"
    using rows by (simp_all add: ex_member_state_def)
  ultimately show ?thesis
    using run unfolding truncate_message_def by blast
qed

section \<open>Column lists\<close>

lemma att_num_unknown:
  "get_att_num_by_name desc name = FirstLowInvalidHeapAttributeNumber"
  if "\<forall>att \<in> set (live_columns desc). \<not> nameeq (attname att) name"
  using that by (induction desc) (auto simp: live_columns_def)

lemma att_num_known:
  assumes "rowtype_ok desc" "att \<in> set (live_columns desc)" "nameeq (attname att) name"
  shows "get_att_num_by_name desc name = attnum att"
  using assms
proof (induction desc)
  case (Cons a desc)
  then have "attname a \<noteq> attname att" if "\<not> attisdropped a" "att \<in> set (live_columns desc)"
    using that by (auto simp: rowtype_ok_def live_columns_def image_iff)
  moreover have "rowtype_ok desc"
    using Cons.prems(1) by (auto simp: rowtype_ok_def live_columns_def split: if_splits)
  moreover have "attname a = attname att" if "nameeq (attname a) name"
    using that Cons.prems nameeq_short [of "attname a" "attname att"] by (auto simp: rowtype_ok_def live_columns_def nameeq_def split: if_splits)
  ultimately show ?case
    using Cons.prems(2,3) Cons.IH by (auto simp: live_columns_def split: if_splits)
qed (simp add: live_columns_def)

lemma textarray_elems:
  "textarray_to_list elems =
     (if None \<in> set elems then ereport ERRCODE_NULL_VALUE_NOT_ALLOWED ''null array element not allowed in this context''
      else Inr (map the elems))"
  by (induction elems) (auto simp: textarray_to_list_def split: option.splits)

lemma const_image: "(\<And>x. x \<in> A \<Longrightarrow> f x = c) \<Longrightarrow> y \<in> A \<Longrightarrow> f ` A = {c}"
  by auto

lemma listed_keys_Cons:
  assumes "rowtype_ok desc" "att \<in> set (live_columns desc)" "nameeq (attname att) name"
  shows "listed_keys desc (name # names) = insert (attnum att - FirstLowInvalidHeapAttributeNumber) (listed_keys desc names)"
proof -
  have one: "(\<lambda>a. attnum a - FirstLowInvalidHeapAttributeNumber) ` {a \<in> set (live_columns desc). nameeq (attname a) name} =
      {attnum att - FirstLowInvalidHeapAttributeNumber}"
  proof (rule const_image)
    fix a
    assume "a \<in> {a \<in> set (live_columns desc). nameeq (attname a) name}"
    then have "get_att_num_by_name desc name = attnum a"
      using att_num_known [OF assms(1)] by blast
    then show "attnum a - FirstLowInvalidHeapAttributeNumber = attnum att - FirstLowInvalidHeapAttributeNumber"
      using att_num_known [OF assms] by linarith
  qed (use assms(2,3) in blast)
  have "{a \<in> set (live_columns desc). listed (name # names) a} =
      {a \<in> set (live_columns desc). nameeq (attname a) name} \<union> {a \<in> set (live_columns desc). listed names a}"
    by (auto simp: listed_def)
  then show ?thesis
    unfolding listed_keys_def set_map set_filter by (simp only: image_Un one) simp
qed

lemma remove_listed_spec:
  assumes "rowtype_ok desc"
  shows "remove_listed desc ids names =
    (if \<forall>name \<in> set names. \<exists>att \<in> set (live_columns desc). nameeq (attname att) name
     then Inr (ids - listed_keys desc names)
     else ereport ERRCODE_SYNTAX_ERROR ''table %s does not have column %s'')"
proof (induction names arbitrary: ids)
  case (Cons name names)
  show ?case
  proof (cases "\<exists>att \<in> set (live_columns desc). nameeq (attname att) name")
    case True
    then obtain att where att: "att \<in> set (live_columns desc)" "nameeq (attname att) name"
      by blast
    have "0 < attnum att"
      using assms att(1) by (auto simp: rowtype_ok_def live_columns_def)
    moreover have "ids - {k} - listed_keys desc names = ids - insert k (listed_keys desc names)" for k
      by blast
    ultimately show ?thesis
      using True att_num_known [OF assms att] listed_keys_Cons [OF assms att] Cons.IH by (simp add: Let_def)
  next
    case False
    then show ?thesis
      using att_num_unknown [of desc name] by (simp add: Let_def)
  qed
qed (simp add: listed_keys_def listed_def)

text \<open>
  C37.  A column list is accepted exactly when it makes sense: no element is NULL, every name is a column of the table that is not
  dropped, and every column of the replica identity is listed; an accepted list is stored as it was given.  The two
  mistakes are told apart: an unknown column is reported first.
\<close>

theorem column_list_accepted_iff:
  assumes "rowtype_ok (rd_att rel)"
  shows "check_att_list rel (Some elems) =
    (if None \<in> set elems then ereport ERRCODE_NULL_VALUE_NOT_ALLOWED ''null array element not allowed in this context''
     else if \<exists>name. Some name \<in> set elems \<and> (\<forall>att \<in> set (live_columns (rd_att rel)). \<not> nameeq (attname att) name)
     then ereport ERRCODE_SYNTAX_ERROR ''table %s does not have column %s''
     else if \<not> idkey_attrs rel \<subseteq> listed_keys (rd_att rel) (map the elems)
     then ereport ERRCODE_SYNTAX_ERROR ''REPLICA IDENTITY columns must be replicated''
     else Inr (map the elems))"
proof (cases "None \<in> set elems")
  case True
  then show ?thesis
    by (simp add: check_att_list_def textarray_elems)
next
  case False
  then have all: "elems = map Some (map the elems)"
    by (induction elems) auto
  have named: "(\<exists>name. Some name \<in> set elems \<and> P name) \<longleftrightarrow> (\<exists>name \<in> set (map the elems). P name)" for P
    by (subst all) auto
  show ?thesis
    unfolding named using False
    by (auto simp: check_att_list_def textarray_elems remove_listed_spec [OF assms] simp del: set_map)
qed

theorem column_list_accepted_iff_witness:
  "check_att_list ex_rtable (Some [Some ''id'']) = Inr [''id''] \<and>
   check_att_list ex_rtable (Some [Some ''v'']) =
     ereport ERRCODE_SYNTAX_ERROR ''REPLICA IDENTITY columns must be replicated''"
proof -
  have "rowtype_ok (rd_att ex_rtable)"
    by (simp add: rowtype_ok_def live_columns_def ex_rtable_def ex_att_def)
  note iff = column_list_accepted_iff [OF this]
  have "idkey_attrs ex_rtable \<subseteq> listed_keys (rd_att ex_rtable) (map the [Some ''id''])"
    "\<not> idkey_attrs ex_rtable \<subseteq> listed_keys (rd_att ex_rtable) (map the [Some ''v''])"
    "list_ex (\<lambda>att. nameeq (attname att) ''id'') (live_columns (rd_att ex_rtable))"
    "list_ex (\<lambda>att. nameeq (attname att) ''v'') (live_columns (rd_att ex_rtable))"
    by code_simp+
  then show ?thesis
    unfolding iff [of "[Some ''id'']"] iff [of "[Some ''v'']"] by (simp add: list_ex_iff)
qed

section \<open>Copied rows\<close>

lemma prepared_filters:
  assumes "\<forall>f \<in> set fs. is_ok (pglogical_prepare_row_filter X f)"
  shows "\<exists>es. rmap (pglogical_prepare_row_filter X) fs = Inr es \<and>
    (\<forall>desc row. (\<lambda>e. eval_expr X e desc row) ` set es = (\<lambda>f. filter_value X f desc row) ` set fs)"
  using assms
proof (induction fs)
  case (Cons f fs)
  then obtain e es where "pglogical_prepare_row_filter X f = Inr e" "rmap (pglogical_prepare_row_filter X) fs = Inr es"
    "\<forall>desc row. (\<lambda>e. eval_expr X e desc row) ` set es = (\<lambda>f. filter_value X f desc row) ` set fs"
    by (auto simp: is_ok_iff)
  then show ?case
    by (intro exI [of _ "e # es"]) (simp add: filter_value_def)
qed simp

lemma filter_tuple_total:
  assumes "\<forall>e \<in> set es. is_ok (eval_expr X e desc row)"
  shows "filter_tuple X desc row es = Inr (\<forall>e \<in> set es. eval_expr X e desc row = Inr (Some True))"
  using assms by (induction es) (auto simp: is_ok_iff split: option.splits)

lemma scan_filtered_total:
  assumes "\<forall>row \<in> set rows. \<forall>e \<in> set es. is_ok (eval_expr X e desc row)"
  shows "scan_filtered X desc es rows = Inr (filter (\<lambda>row. \<forall>e \<in> set es. eval_expr X e desc row = Inr (Some True)) rows)"
  using assms by (induction rows) (simp_all add: filter_tuple_total)

lemma wanted_of_entry:
  assumes "info_spec (he_repset H) rel (subscribed rel sets db) entry" "filter_row change = Some row"
    "\<exists>(t, s) \<in> subscribed rel sets db. set_replicates (action change) s"
  shows "wanted H rel sets db change \<longleftrightarrow> (\<forall>f \<in> set (ti_row_filter entry). filter_value (he_filters H) f (rd_att rel) row = Inr (Some True))"
  using assms(2,3) filters_of_spec [OF assms(1)] unfolding wanted_def by fastforce

text \<open>
  C32.  The initial copy of a table and the stream agree on its rows.  Take an ordinary table in a subscribed set that replicates inserts, whose oid
  has a hash key of its own among the tables of the database, caches of the session and of the copying backend that are current for
  the same sets, and row filters that can be prepared and evaluate without error on the rows of the table.  The rows that
  \<open>pglogical_table_data_filtered\<close> returns for the copy are exactly the rows whose insertion the row filter hook of the session would let pass,
  in their order.
\<close>

theorem copied_rows_are_streamed_rows:
  assumes "cache_current H W" "ordinary H rel W" "own_key (he_keyof H) (rd_id rel) (hw_db W)" "hw_db W = the_db s"
    and "info_ok (he_repset H) (he_keyof H) (our_sets W) (the_db s) hash"
    and "he_repset H = de_rep D" "rd_id rel = rid" "require_local_node (the_nodes s) = Inr node"
    and "textarray_to_list set_names = Inr names" "get_replication_sets (node_id (ln_node node)) names False (the_db s) = Inr (our_sets W)"
    and "fc_is_rowtype fcall" "fc_resultinfo fcall" "fc_composite fcall" "fc_desc fcall = rd_att rel"
    and "\<exists>(t, x) \<in> subscribed rel (our_sets W) (the_db s). replicate_insert x"
    and prep: "\<forall>(t, x) \<in> subscribed rel (our_sets W) (the_db s). \<forall>f. getattr_row_filter (de_rep D) (rd_att rel) t = Some f \<longrightarrow>
      is_ok (pglogical_prepare_row_filter (he_filters H) (stringToNode (de_rep D) f))"
    and total: "\<forall>row \<in> set (map t_data (f_rows (f_cats s) rid)). filters_total H rel (our_sets W) (the_db s) (insert_of row)"
  shows "\<exists>hash'. pglogical_table_data_filtered D (he_filters H) (he_keyof H) fcall (Some rid) (Some set_names) hash s =
    Some (Inr (filter (\<lambda>row. hook_passes H W txn rel (insert_of row)) (map t_data (f_rows (f_cats s) rid)), hash'), s)"
proof -
  let ?X = "he_filters H" and ?rows = "map t_data (f_rows (f_cats s) rid)"
  have "cache_current H (W\<lparr> hw_hash := hash \<rparr>)" "ordinary H rel (W\<lparr> hw_hash := hash \<rparr>)"
    using assms(2,4,5) by (simp_all add: cache_current_def ordinary_def)
  then obtain entry hash' where look: "get_table_replication_info (de_rep D) (he_keyof H) rel (our_sets W) (the_db s) hash =
      Inr (entry, hash')"
    and spec: "info_spec (he_repset H) rel (subscribed rel (our_sets W) (the_db s)) entry"
    using lookup_current [of H "W\<lparr> hw_hash := hash \<rparr>" rel] assms(3,4,6) by auto
  note filters = filters_of_spec [OF spec]
  have "\<forall>f \<in> set (ti_row_filter entry). is_ok (pglogical_prepare_row_filter ?X f)"
    using prep filters assms(6) by fastforce
  from prepared_filters [OF this] obtain es where es: "rmap (pglogical_prepare_row_filter ?X) (ti_row_filter entry) = Inr es"
    "\<And>desc row. (\<lambda>e. eval_expr ?X e desc row) ` set es = (\<lambda>f. filter_value ?X f desc row) ` set (ti_row_filter entry)"
    by blast
  have ev: "(\<forall>e \<in> set es. P (eval_expr ?X e desc row)) \<longleftrightarrow> (\<forall>f \<in> set (ti_row_filter entry). P (filter_value ?X f desc row))"
    for P desc row
    using arg_cong [OF es(2) [of desc row], of "\<lambda>V. \<forall>v \<in> V. P v"] by simp
  have row: "filter_row (insert_of row) = Some row" for row
    by (simp add: filter_row_def insert_of_def)
  have "\<forall>row \<in> set ?rows. \<forall>f \<in> set (ti_row_filter entry). is_ok (filter_value ?X f (rd_att rel) row)"
    using total row filters unfolding filters_total_def by fastforce
  then have scan: "scan_filtered ?X (rd_att rel) es ?rows =
      Inr (filter (\<lambda>row. \<forall>f \<in> set (ti_row_filter entry). filter_value ?X f (rd_att rel) row = Inr (Some True)) ?rows)"
    using scan_filtered_total [of ?rows es ?X "rd_att rel"] ev [of is_ok] ev [of "\<lambda>v. v = Inr (Some True)"] by simp
  have "\<exists>(t, x) \<in> subscribed rel (our_sets W) (the_db s). set_replicates (action (insert_of row)) x" for row
    using assms(15) by (simp add: set_replicates_def insert_of_def)
  then have "hook_passes H W txn rel (insert_of row) \<longleftrightarrow>
      (\<forall>f \<in> set (ti_row_filter entry). filter_value ?X f (rd_att rel) row = Inr (Some True))" if "row \<in> set ?rows" for row
    using row_filter_ordinary [OF assms(1-3), of "insert_of row" txn] total that wanted_of_entry [OF spec row]
    by (auto simp: hook_passes_def assms(4))
  then have "filter (\<lambda>row. hook_passes H W txn rel (insert_of row)) ?rows =
      filter (\<lambda>row. \<forall>f \<in> set (ti_row_filter entry). filter_value ?X f (rd_att rel) row = Inr (Some True)) ?rows"
    by (rule filter_cong [OF refl])
  moreover have "heap_open_class rid (the_db s) = Inr rel"
    using assms(2,4,7) by (auto simp: ordinary_def heap_open_Inr)
  ultimately show ?thesis
    using assms(8-14) look es(1) scan
    by (simp add: pglogical_table_data_filtered_def sbind_read table_info_of_def sbind_simps sret_def)
qed

lemma ex_member_db:
  "pg_class (the_db ex_member_state) = [16400 \<mapsto> ex_member]" "cat_repset (the_db ex_member_state) = [ex_default\<lparr> rs_nodeid := 2 \<rparr>]"
  "cat_repset_table (the_db ex_member_state) = [\<lparr> rt_setid = 1, rt_reloid = 16400, rt_att_list = Some [''id''],
     rt_row_filter = Some ''id > 5'' \<rparr>]"
  by (simp_all add: ex_member_state_def ex_pdb1_def ex_member_def)

lemma ex_session_ok:
  "cache_current ex_hooks ex_session" "ordinary ex_hooks ex_member ex_session"
  "own_key (he_keyof ex_hooks) (rd_id ex_member) (hw_db ex_session)" "hw_db ex_session = the_db ex_member_state"
  "info_ok (he_repset ex_hooks) (he_keyof ex_hooks) (our_sets ex_session) (the_db ex_member_state) None"
  "he_repset ex_hooks = de_rep ex_ddl" "rd_id ex_member = 16400"
  by (auto simp: cache_current_def info_ok_def ex_hooks_def ex_henv_def ex_session_def ex_world_def ordinary_def ex_member_db
      ex_ddl_def ex_fun_def ex_renv_def own_key_def) (simp_all add: ex_member_def ex_rtable_def)

lemma ex_session_sets:
  "require_local_node (the_nodes ex_member_state) = Inr ex_this_node"
  "textarray_to_list [Some ''default''] = Inr [''default'']"
  "get_replication_sets (node_id (ln_node ex_this_node)) [''default''] False (the_db ex_member_state) = Inr (our_sets ex_session)"
proof -
  show "require_local_node (the_nodes ex_member_state) = Inr ex_this_node"
    by (simp add: ex_member_state_def ex_subscribed_def) code_simp
  show "textarray_to_list [Some ''default''] = Inr [''default'']"
    by code_simp
  show "get_replication_sets (node_id (ln_node ex_this_node)) [''default''] False (the_db ex_member_state) = Inr (our_sets ex_session)"
    by (simp add: ex_member_db ex_this_node_def ex_node_def ex_default_def ex_session_def)
qed

lemma ex_session_filters:
  "\<exists>(t, x) \<in> subscribed ex_member (our_sets ex_session) (the_db ex_member_state). replicate_insert x"
  "\<forall>(t, x) \<in> subscribed ex_member (our_sets ex_session) (the_db ex_member_state). \<forall>f.
     getattr_row_filter (de_rep ex_ddl) (rd_att ex_member) t = Some f \<longrightarrow>
     is_ok (pglogical_prepare_row_filter (he_filters ex_hooks) (stringToNode (de_rep ex_ddl) f))"
  "\<forall>row \<in> set rows. filters_total ex_hooks ex_member (our_sets ex_session) (the_db ex_member_state) (insert_of row)"
  by (auto simp: subscribed_def ex_member_db ex_session_def ex_default_def ex_member_def ex_rtable_def filters_total_def ex_hooks_def
      ex_henv_def pglogical_prepare_row_filter_def filter_value_def)

theorem copied_rows_are_streamed_rows_witness:
  "\<exists>hash'. pglogical_table_data_filtered ex_ddl (he_filters ex_hooks) (he_keyof ex_hooks) ex_fcall (Some 16400) (Some [Some ''default''])
      None ex_member_state =
    Some (Inr (filter (\<lambda>row. hook_passes ex_hooks ex_session ex_otxn ex_member (insert_of row))
      [[Some (DatumPtr ''1''), None]], hash'), ex_member_state)"
proof -
  have "map t_data (f_rows (f_cats ex_member_state) 16400) = [[Some (DatumPtr ''1''), None]]"
    by (simp add: ex_member_state_def)
  then show ?thesis
    using copied_rows_are_streamed_rows [OF ex_session_ok ex_session_sets _ _ _ _ ex_session_filters, of ex_fcall ex_otxn]
    by (simp add: ex_fcall_def)
qed

end
