(* ===== verification/Pgl_CreateSubscriber.thy ===== *)
theory Pgl_CreateSubscriber
  imports Pgl_Rpc Pgl_Monad Pgl_Catalog
begin

text \<open>
  The command line tool \<open>src/pglogical_create_subscriber.c\<close>, which makes a new subscriber from a physical copy of the provider, and
  \<open>src/pglogical_fe.c\<close>.  The tool runs in a state of its static variables, the files of the machine and the trace of what it asked of
  others; \<open>libpq\<close>, the shell, the other processes and the file system's failures are the functions of \<open>'w host\<close>.  \<open>die\<close> is a
  computation too, since it stops the server; a run that never ends is \<open>None\<close>.  The asynchronous delivery of \<open>SIGINT\<close> is left out.
\<close>

section \<open>The machine\<close>

text \<open>The files by their path, and everything else (servers, processes, the network).\<close>

record 'w machine =
  files :: "string \<rightharpoonup> string"
  outside :: 'w

datatype wait_status = WIFEXITED nat | WIFSIGNALED nat | WUNKNOWN

datatype PGPing = PQPING_OK | PQPING_REJECT | PQPING_NO_RESPONSE | PQPING_NO_ATTEMPT

datatype errno = ENOENT | EACCES | EOTHER

text \<open>The calls on files that may fail.\<close>

datatype io_call = OpenRead string | OpenCreate string | ReadFile string nat | WriteFile string nat | CloseFile string

record 'w host =
  PQconnectdb :: "string \<Rightarrow> 'w machine \<Rightarrow> nat \<times> 'w machine"
  conn_status_ok :: "nat \<Rightarrow> 'w machine \<Rightarrow> bool"
  exec_on :: "nat \<Rightarrow> string \<Rightarrow> 'w machine \<Rightarrow> PGresult \<times> 'w machine"
  PQfinish :: "nat \<Rightarrow> 'w machine \<Rightarrow> 'w machine"
  PQping :: "string \<Rightarrow> 'w machine \<Rightarrow> PGPing \<times> 'w machine"
  escape_literal :: "string \<Rightarrow> string"
  escape_identifier :: "string \<Rightarrow> string"
  PQconninfoParse :: "string \<Rightarrow> (string \<times> string option) list option"
  escape_single_quotes_ascii :: "string \<Rightarrow> string"
  shell :: "string \<Rightarrow> 'w machine \<Rightarrow> wait_status \<times> 'w machine"
  popen_fgets :: "string \<Rightarrow> 'w machine \<Rightarrow> string option"
  find_my_exec :: "string \<Rightarrow> string option"
  canonicalize_path :: "string \<Rightarrow> string"
  pg_check_dir :: "string \<Rightarrow> 'w machine \<Rightarrow> int"
  stat :: "string \<Rightarrow> 'w machine \<Rightarrow> errno option"
  io_ok :: "io_call \<Rightarrow> 'w machine \<Rightarrow> bool"
  usleep :: "'w machine \<Rightarrow> 'w machine"
  getpid :: int
  getppid :: int
  kill0 :: "int \<Rightarrow> 'w machine \<Rightarrow> bool"
  getopt_long :: "string list \<Rightarrow> (int \<times> string) list"
  sizeof_ControlFileData :: nat
  system_identifier :: "string \<Rightarrow> 64 word"
  version_num :: nat

text \<open>What the tool asked of others, in order.\<close>

datatype call = Connected string nat | Queried nat string | Ran string | Wrote string string

datatype VerbosityLevelEnum = VERBOSITY_NORMAL | VERBOSITY_VERBOSE | VERBOSITY_DEBUG

fun verbosity_level :: "VerbosityLevelEnum \<Rightarrow> nat" where
  "verbosity_level VERBOSITY_NORMAL = 0"
| "verbosity_level VERBOSITY_VERBOSE = 1"
| "verbosity_level VERBOSITY_DEBUG = 2"

record 'w cs_state =
  c_argv0 :: string
  c_data_dir :: "string option"
  c_pid_file :: string
  c_verbosity :: nat
  c_subscriber_conn :: "nat option"
  c_provider_conn :: "nat option"
  c_stdout :: "string list"
  c_stderr :: "string list"
  c_trace :: "call list"
  c_machine :: "'w machine"

type_synonym ('w, 'a) cs_m = "('w cs_state, 'a) st_m"

record RemoteInfo =
  nodeid :: oid
  ri_node_name :: string
  ri_sysid :: string
  ri_dbname :: string
  ri_replication_sets :: string

abbreviation MAXPGPATH :: nat where
  "MAXPGPATH \<equiv> 1024"

definition c_snprintf :: "nat \<Rightarrow> string \<Rightarrow> string" where
  "c_snprintf n s = take (n - 1) s"

definition print_msg :: "VerbosityLevelEnum \<Rightarrow> string \<Rightarrow> 'w cs_state \<Rightarrow> 'w cs_state" where
  "print_msg level fmt s =
     (if verbosity_level level \<le> c_verbosity s then s\<lparr> c_stdout := c_stdout s @ [fmt] \<rparr> else s)"

definition usage :: "'w cs_state \<Rightarrow> 'w cs_state" where
  "usage s = s\<lparr> c_stdout := c_stdout s @
     [''%s create new pglogical subscriber from basebackup of provider.'', ''Usage:'', ''  %s [OPTION]...'', ''General options:'',
      ''  -D, --pgdata=DIRECTORY      data directory to be used for new node,'',
      ''                              can be either empty/non-existing directory,'',
      ''                              or directory populated using'',
      ''                              pg_basebackup -X stream command'',
      ''  -n, --subscriber-name=NAME  name of the newly created subscrber'',
      ''  --subscriber-dsn=CONNSTR    connection string to the newly created subscriber'',
      ''  --provider-dsn=CONNSTR      connection string to the provider'',
      ''  --replication-sets=SETS     comma separated list of replication set names'',
      ''  --drop-slot-if-exists       drop replication slot of conflicting name'',
      ''  -s, --stop                  stop the server once the initialization is done'',
      ''  -v                          increase logging verbosity'',
      ''Configuration files override:'',
      ''  --hba-conf              path to the new pg_hba.conf'',
      ''  --postgresql-conf       path to the new postgresql.conf'',
      ''  --recovery-conf         path to the template recovery.conf''] \<rparr>"

section \<open>Files and processes\<close>

text \<open>Opening a file for reading: there is none at the empty path.\<close>

definition open_read :: "'w host \<Rightarrow> string \<Rightarrow> 'w machine \<Rightarrow> string option" where
  "open_read H path m = (if path = [] \<or> \<not> io_ok H (OpenRead path) m then None else files m path)"

text \<open>\<open>%ld\<close> of \<open>fscanf\<close>: blanks, a sign, digits, within the range of \<open>long\<close>.\<close>

definition scan_long :: "string \<Rightarrow> (int \<times> string) option" where
  "scan_long t =
     (let t = dropWhile is_blank t;
          negative = (t \<noteq> [] \<and> hd t = CHR ''-'');
          t = (if t \<noteq> [] \<and> (hd t = CHR ''-'' \<or> hd t = CHR ''+'') then tl t else t);
          ds = takeWhile is_digit t;
          v = (if negative then - int (digits_value ds) else int (digits_value ds))
      in if ds = [] then None else Some (max (- (2 ^ 63)) (min (2 ^ 63 - 1) v), dropWhile is_digit t))"

definition get_pgpid :: "'w host \<Rightarrow> 'w cs_state \<Rightarrow> int" where
  "get_pgpid H s =
     (case open_read H (c_pid_file s) (c_machine s) of
        None \<Rightarrow> 0
      | Some contents \<Rightarrow> (case scan_long contents of None \<Rightarrow> 0 | Some (pid, _) \<Rightarrow> pid))"

definition postmaster_is_alive :: "'w host \<Rightarrow> int \<Rightarrow> 'w machine \<Rightarrow> bool" where
  "postmaster_is_alive H pid m =
     (if pid = getpid H then False
      else if pid = getppid H then False
      else if kill0 H pid m then True
      else False)"

definition file_exists :: "'w host \<Rightarrow> string \<Rightarrow> 'w machine \<Rightarrow> bool" where
  "file_exists H path m = (if stat H path m \<noteq> None then False else True)"

definition the_data_dir :: "'w cs_state \<Rightarrow> string" where
  "the_data_dir s = (case c_data_dir s of None \<Rightarrow> ''(null)'' | Some d \<Rightarrow> d)"

definition is_pg_dir :: "'w host \<Rightarrow> string \<Rightarrow> 'w cs_state \<Rightarrow> bool" where
  "is_pg_dir H path s =
     (if stat H path (c_machine s) \<noteq> None then False
      else let version_file = c_snprintf MAXPGPATH (the_data_dir s @ ''/PG_VERSION'')
           in if stat H version_file (c_machine s) = Some ENOENT then False else True)"

text \<open>
  Finding another program beside this one: the status of the C function is \<open>Inl\<close>, success its version and path.
  \<open>scan_version\<close> is the format \<open>%*s %*s %d.%d\<close>.
\<close>

definition scan_word :: "string \<Rightarrow> string option" where
  "scan_word t =
     (let t = dropWhile is_blank t in if t = [] then None else Some (dropWhile (\<lambda>c. \<not> is_blank c) t))"

definition scan_version :: "string \<Rightarrow> (int \<times> int) option" where
  "scan_version t =
     (case scan_word t of None \<Rightarrow> None | Some t \<Rightarrow>
      case scan_word t of None \<Rightarrow> None | Some t \<Rightarrow>
      case scan_long t of None \<Rightarrow> None | Some (pre_dot, t) \<Rightarrow>
      if t \<noteq> [] \<and> hd t = CHR ''.''
      then (case scan_long (tl t) of None \<Rightarrow> None | Some (post_dot, _) \<Rightarrow> Some (pre_dot, post_dot))
      else None)"

definition dir_of :: "string \<Rightarrow> string option" where
  "dir_of path =
     (if CHR ''/'' \<in> set path then Some (rev (tl (dropWhile (\<lambda>c. c \<noteq> CHR ''/'') (rev path)))) else None)"

definition find_other_exec_version_fe ::
  "'w host \<Rightarrow> string \<Rightarrow> string \<Rightarrow> 'w machine \<Rightarrow> (int + (32 word \<times> string)) result" where
  "find_other_exec_version_fe H argv0 target m =
     (case find_my_exec H argv0 of
        None \<Rightarrow> Inr (Inl (-1))
      | Some my_path \<Rightarrow>
          (case dir_of my_path of
             None \<Rightarrow> Inl NullDereference
           | Some dir \<Rightarrow>
               let retpath = c_snprintf MAXPGPATH (canonicalize_path H dir @ ''/'' @ target);
                   cmd = c_snprintf MAXPGPATH ([CHR 0x22] @ retpath @ [CHR 0x22] @ '' -V'')
               in case popen_fgets H cmd m of
                    None \<Rightarrow> Inr (Inl (-1))
                  | Some cmd_output \<Rightarrow>
                      (case scan_version cmd_output of
                         None \<Rightarrow> Inr (Inl (-2))
                       | Some (pre_dot, post_dot) \<Rightarrow>
                           Inr (Inr ((of_int pre_dot * 100 + of_int post_dot) * 100, retpath)))))"

text \<open>
  The part of \<open>find_other_exec_or_die\<close> before it dies: \<open>Inl\<close> is the message it dies with.
\<close>

definition find_other_exec ::
  "'w host \<Rightarrow> string \<Rightarrow> string \<Rightarrow> 'w machine \<Rightarrow> (string + string) result" where
  "find_other_exec H argv0 target m =
     rbind (find_other_exec_version_fe H argv0 target m) (\<lambda>r. case r of
         Inl ret \<Rightarrow>
           if ret = -1 then Inr (Inl ''The program %s is needed by %s but was not found in the same directory as %s. Check your installation.'')
           else Inr (Inl ''The program %s was found by %s but was not the same version as %s. Check your installation.'')
       | Inr (bin_version, found_path) \<Rightarrow>
           if unat bin_version div 100 \<noteq> version_num H div 100
           then Inr (Inl ''The program %s was found by %s but was not the same version as %s. Check your installation.'')
           else Inr (Inr found_path))"

text \<open>\<open>system\<close>: the command is in the trace.\<close>

definition c_system :: "'w host \<Rightarrow> string \<Rightarrow> 'w cs_state \<Rightarrow> wait_status \<times> 'w cs_state" where
  "c_system H cmd s =
     (let (ret, m) = shell H cmd (c_machine s)
      in (ret, s\<lparr> c_machine := m, c_trace := c_trace s @ [Ran cmd] \<rparr>))"

text \<open>\<open>run_pg_ctl\<close> up to where it dies.\<close>

definition pg_ctl_cmd :: "string \<Rightarrow> string \<Rightarrow> 'w cs_state \<Rightarrow> string" where
  "pg_ctl_cmd exec_path arg s =
     exec_path @ '' '' @ arg @ '' -D '' @ [CHR 0x22] @ the_data_dir s @ [CHR 0x22] @ '' -s'' @
     (if c_verbosity s < verbosity_level VERBOSITY_DEBUG then '' -s'' else [])"

definition try_pg_ctl :: "'w host \<Rightarrow> string \<Rightarrow> 'w cs_state \<Rightarrow> (string + nat) result \<times> 'w cs_state" where
  "try_pg_ctl H arg s =
     (case find_other_exec H (c_argv0 s) ''pg_ctl'' (c_machine s) of
        Inl e \<Rightarrow> (Inl e, s)
      | Inr (Inl msg) \<Rightarrow> (Inr (Inl msg), s)
      | Inr (Inr exec_path) \<Rightarrow>
          let s1 = print_msg VERBOSITY_DEBUG ''Running pg_ctl: %s.'' s;
              (ret, s2) = c_system H (pg_ctl_cmd exec_path arg s) s1
          in (Inr (case ret of
                WIFEXITED code \<Rightarrow> Inr code
              | WIFSIGNALED _ \<Rightarrow> Inl ''pg_ctl exited with signal %d''
              | WUNKNOWN \<Rightarrow> Inl ''pg_ctl exited for an unknown reason (system() returned %d)''), s2))"

section \<open>Dying\<close>

text \<open>
  \<open>die\<close> closes the connections, without forgetting them, and stops the server when its pid file is there, which may die again.
\<close>

definition finish_opt :: "'w host \<Rightarrow> nat option \<Rightarrow> 'w cs_state \<Rightarrow> 'w cs_state" where
  "finish_opt H c s = (case c of None \<Rightarrow> s | Some conn \<Rightarrow> s\<lparr> c_machine := PQfinish H conn (c_machine s) \<rparr>)"

definition die_report :: "'w host \<Rightarrow> string \<Rightarrow> 'w cs_state \<Rightarrow> 'w cs_state" where
  "die_report H msg s =
     (let s = s\<lparr> c_stderr := c_stderr s @ [msg] \<rparr>
      in finish_opt H (c_provider_conn s) (finish_opt H (c_subscriber_conn s) s))"

partial_function (option) die_loop :: "'w host \<Rightarrow> string \<Rightarrow> 'w cs_state \<Rightarrow> (pg_error \<times> 'w cs_state) option" where
  "die_loop H msg s =
     (if get_pgpid H (die_report H msg s) = 0 then Some (ProcExit 1, die_report H msg s)
      else case try_pg_ctl H ''stop -s'' (die_report H msg s) of
             (Inl e, s') \<Rightarrow> Some (e, s')
           | (Inr (Inl msg'), s') \<Rightarrow> die_loop H msg' s'
           | (Inr (Inr ret), s') \<Rightarrow>
               Some (ProcExit 1,
                 if ret = 0
                 then s'\<lparr> c_stderr := c_stderr s' @ [''WARNING: postgres seems to be running, but could not be stopped''] \<rparr>
                 else s'))"

definition die :: "'w host \<Rightarrow> string \<Rightarrow> ('w, 'a) cs_m" where
  "die H msg s = (case die_loop H msg s of None \<Rightarrow> None | Some (e, s') \<Rightarrow> Some (Inl e, s'))"

definition SIGINT :: nat where
  "SIGINT = 2"

definition signal_handler :: "'w host \<Rightarrow> nat \<Rightarrow> ('w, unit) cs_m" where
  "signal_handler H sig = (if sig = SIGINT then die H ''Canceling...'' else sret ())"

definition say :: "VerbosityLevelEnum \<Rightarrow> string \<Rightarrow> ('w, unit) cs_m" where
  "say level fmt = smodify (print_msg level fmt)"

definition die_or :: "'w host \<Rightarrow> (string + 'a) result \<Rightarrow> ('w, 'a) cs_m" where
  "die_or H r = (case r of Inl e \<Rightarrow> sfail e | Inr (Inl msg) \<Rightarrow> die H msg | Inr (Inr x) \<Rightarrow> sret x)"

definition run_pg_ctl :: "'w host \<Rightarrow> string \<Rightarrow> ('w, nat) cs_m" where
  "run_pg_ctl H arg s = (case try_pg_ctl H arg s of (r, s') \<Rightarrow> die_or H r s')"

definition find_other_exec_or_die :: "'w host \<Rightarrow> string \<Rightarrow> ('w, string) cs_m" where
  "find_other_exec_or_die H target s = die_or H (find_other_exec H (c_argv0 s) target (c_machine s)) s"

definition run_basebackup :: "'w host \<Rightarrow> string \<Rightarrow> string \<Rightarrow> ('w, unit) cs_m" where
  "run_basebackup H provider_connstr data_dir =
     sbind (find_other_exec_or_die H ''pg_basebackup'') (\<lambda>exec_path.
     sbind (sget c_verbosity) (\<lambda>verbosity.
     let cmd = exec_path @ '' -D '' @ [CHR 0x22] @ data_dir @ [CHR 0x22] @ '' -d '' @ [CHR 0x22] @ provider_connstr @ [CHR 0x22] @
               '' -X s -P'' @ (if verbosity_level VERBOSITY_VERBOSE \<le> verbosity then '' -v'' else [])
     in sthen (say VERBOSITY_DEBUG ''Running pg_basebackup: %s.'')
       (sbind (\<lambda>s. case c_system H cmd s of (ret, s') \<Rightarrow> Some (Inr ret, s')) (\<lambda>ret. case ret of
          WIFEXITED code \<Rightarrow>
            if code = 0 then sret () else die H ''pg_basebackup failed with exit status %d, cannot continue.''
        | WIFSIGNALED _ \<Rightarrow> die H ''pg_basebackup exited with signal %d, cannot continue''
        | WUNKNOWN \<Rightarrow> die H ''pg_basebackup exited for an unknown reason (system() returned %d)''))))"

section \<open>Connections and queries\<close>

definition connectdb :: "'w host \<Rightarrow> string \<Rightarrow> ('w, nat) cs_m" where
  "connectdb H connstr s =
     (let (conn, m) = PQconnectdb H connstr (c_machine s);
          s' = s\<lparr> c_machine := m, c_trace := c_trace s @ [Connected connstr conn] \<rparr>
      in if \<not> conn_status_ok H conn m
         then die H ''Connection to database failed: %s, connection string was: %s'' s'
         else Some (Inr conn, s'))"

definition finish_conn :: "'w host \<Rightarrow> nat \<Rightarrow> ('w, unit) cs_m" where
  "finish_conn H conn = smodify (\<lambda>s. s\<lparr> c_machine := PQfinish H conn (c_machine s) \<rparr>)"

definition c_exec :: "'w host \<Rightarrow> nat \<Rightarrow> string \<Rightarrow> ('w, PGresult) cs_m" where
  "c_exec H conn query s =
     (let (res, m) = exec_on H conn query (c_machine s)
      in Some (Inr res, s\<lparr> c_machine := m, c_trace := c_trace s @ [Queried conn query] \<rparr>))"

text \<open>A query whose status must be the expected one.\<close>

definition exec_or_die :: "'w host \<Rightarrow> nat \<Rightarrow> ExecStatusType \<Rightarrow> string \<Rightarrow> string \<Rightarrow> ('w, PGresult) cs_m" where
  "exec_or_die H conn status msg query =
     sbind (c_exec H conn query) (\<lambda>res. if PQresultStatus res \<noteq> status then die H msg else sret res)"

definition extension_exists :: "'w host \<Rightarrow> nat \<Rightarrow> string \<Rightarrow> ('w, bool) cs_m" where
  "extension_exists H conn extname =
     sbind (exec_or_die H conn PGRES_TUPLES_OK ''Could not read extension info: %s''
              (''SELECT 1 FROM pg_catalog.pg_extension WHERE extname = '' @ escape_literal H extname @ '';''))
       (\<lambda>res. sret (PQntuples res = 1))"

definition install_extension :: "'w host \<Rightarrow> nat \<Rightarrow> string \<Rightarrow> ('w, unit) cs_m" where
  "install_extension H conn extname =
     sbind (exec_or_die H conn PGRES_COMMAND_OK ''Could not install %s extension: %s''
              (''CREATE EXTENSION IF NOT EXISTS '' @ escape_identifier H extname @ '';''))
       (\<lambda>_. sret ())"

definition get_remote_info :: "'w host \<Rightarrow> nat \<Rightarrow> ('w, RemoteInfo) cs_m" where
  "get_remote_info H conn =
     sbind (extension_exists H conn ''pglogical'') (\<lambda>there.
     if \<not> there then die H ''The remote node is not configured as a pglogical provider.''
     else sbind (exec_or_die H conn PGRES_TUPLES_OK ''could fetch remote node info: %s''
            ''SELECT node_id, node_name, sysid, dbname, replication_sets FROM pglogical.pglogical_node_info()'') (\<lambda>res.
     if PQntuples res = 0 then die H ''The remote database is not configured as a pglogical node.''
     else if 1 < PQntuples res
     then die H ''The remote database has multiple nodes configured. That is not supported with current version of pglogical.''
     else sbind (slift (PQgetvalue res 0 0)) (\<lambda>node_id.
          sbind (slift (PQgetvalue res 0 1)) (\<lambda>name.
          sbind (slift (PQgetvalue res 0 2)) (\<lambda>sysid.
          sbind (slift (PQgetvalue res 0 3)) (\<lambda>dbname.
          sbind (slift (PQgetvalue res 0 4)) (\<lambda>sets.
            sret \<lparr> nodeid = atooid node_id, ri_node_name = name, ri_sysid = sysid, ri_dbname = dbname,
                   ri_replication_sets = sets \<rparr>)))))))"

text \<open>The slot: its name comes from the provider, one of that name is an error or dropped, and it is created.\<close>

definition gen_slot_name_query :: "'w host \<Rightarrow> string \<Rightarrow> string \<Rightarrow> string \<Rightarrow> string" where
  "gen_slot_name_query H dbname node sub =
     ''SELECT pglogical.pglogical_gen_slot_name('' @ escape_literal H dbname @ '', '' @ escape_literal H node @ '', '' @
     escape_literal H sub @ '')''"

definition new_slot_query :: "'w host \<Rightarrow> string \<Rightarrow> string" where
  "new_slot_query H slot_name =
     ''SELECT pg_create_logical_replication_slot('' @ escape_literal H slot_name @ '', '' @
     [CHR 0x27] @ ''pglogical_output'' @ [CHR 0x27] @ '');''"

definition drop_existing_slot :: "'w host \<Rightarrow> nat \<Rightarrow> string \<Rightarrow> bool \<Rightarrow> ('w, unit) cs_m" where
  "drop_existing_slot H conn slot_name drop_slot_if_exists =
     sbind (exec_or_die H conn PGRES_TUPLES_OK ''Could fetch existing slot information: %s''
              (''SELECT 1 FROM pg_catalog.pg_replication_slots WHERE slot_name = '' @ escape_literal H slot_name)) (\<lambda>res.
     swhen (0 < PQntuples res)
       (if \<not> drop_slot_if_exists
        then die H ''Slot %s already exists, drop it or use --drop-slot-if-exists drop it automatically.''
        else sthen (say VERBOSITY_VERBOSE ''Droping existing slot %s ...'')
               (sbind (exec_or_die H conn PGRES_TUPLES_OK ''Could not drop existing slot %s: %s''
                  (''SELECT pg_catalog.pg_drop_replication_slot('' @ escape_literal H slot_name @ '')''))
                  (\<lambda>_. sret ()))))"

definition initialize_replication_slot ::
  "'w host \<Rightarrow> nat \<Rightarrow> string \<Rightarrow> string \<Rightarrow> string \<Rightarrow> bool \<Rightarrow> ('w, string) cs_m" where
  "initialize_replication_slot H conn dbname provider_node_name subscription_name drop_slot_if_exists =
     sbind (exec_or_die H conn PGRES_TUPLES_OK ''Could generate slot name: %s''
              (gen_slot_name_query H dbname provider_node_name subscription_name)) (\<lambda>res.
     sbind (slift (PQgetvalue res 0 0)) (\<lambda>slot_name.
     sthen (drop_existing_slot H conn slot_name drop_slot_if_exists)
     (sbind (exec_or_die H conn PGRES_TUPLES_OK ''Could not create replication slot, status %s: %s''
               (new_slot_query H slot_name)) (\<lambda>_. sret slot_name))))"

definition remove_unwanted_data :: "'w host \<Rightarrow> nat \<Rightarrow> ('w, unit) cs_m" where
  "remove_unwanted_data H conn =
     sbind (exec_or_die H conn PGRES_TUPLES_OK ''Could not remove existing replication origins: %s''
              ''SELECT pg_replication_origin_drop(external_id) FROM pg_replication_origin_status;'') (\<lambda>_.
     sbind (exec_or_die H conn PGRES_COMMAND_OK ''Could not clean the pglogical extension, status %s: %s''
              ''DROP EXTENSION pglogical CASCADE;'') (\<lambda>_. sret ()))"

definition origin_create_query :: "'w host \<Rightarrow> string \<Rightarrow> string" where
  "origin_create_query H origin_name = ''SELECT pg_replication_origin_create('' @ escape_literal H origin_name @ '')''"

definition origin_advance_query :: "'w host \<Rightarrow> string \<Rightarrow> string \<Rightarrow> string" where
  "origin_advance_query H origin_name remote_lsn =
     ''SELECT pg_replication_origin_advance('' @ escape_literal H origin_name @ '', '' @
     [CHR 0x27] @ remote_lsn @ [CHR 0x27] @ '')''"

definition initialize_replication_origin :: "'w host \<Rightarrow> nat \<Rightarrow> string \<Rightarrow> string option \<Rightarrow> ('w, unit) cs_m" where
  "initialize_replication_origin H conn origin_name remote_lsn =
     sbind (exec_or_die H conn PGRES_TUPLES_OK ''Could not create replication origin %s: status %s: %s''
              (origin_create_query H origin_name)) (\<lambda>_.
     case remote_lsn of
       None \<Rightarrow> sret ()
     | Some lsn \<Rightarrow>
         sbind (exec_or_die H conn PGRES_TUPLES_OK ''Could not advance replication origin %s: status %s: %s''
                  (origin_advance_query H origin_name lsn)) (\<lambda>_. sret ()))"

definition restore_point_query :: "string \<Rightarrow> string" where
  "restore_point_query restore_point_name =
     ''SELECT pg_create_restore_point('' @ [CHR 0x27] @ restore_point_name @ [CHR 0x27] @ '')''"

definition create_restore_point :: "'w host \<Rightarrow> nat \<Rightarrow> string \<Rightarrow> ('w, string) cs_m" where
  "create_restore_point H conn restore_point_name =
     sbind (exec_or_die H conn PGRES_TUPLES_OK ''Could not create restore point, status %s: %s''
              (restore_point_query restore_point_name)) (\<lambda>res. slift (PQgetvalue res 0 0))"

definition create_node_query :: "'w host \<Rightarrow> string \<Rightarrow> string \<Rightarrow> string" where
  "create_node_query H subscriber_name subscriber_dsn =
     ''SELECT pglogical.create_node(node_name := '' @ escape_literal H subscriber_name @ '', dsn := '' @
     escape_literal H subscriber_dsn @ '');''"

definition create_subscription_query :: "'w host \<Rightarrow> string \<Rightarrow> string \<Rightarrow> string \<Rightarrow> string" where
  "create_subscription_query H subscriber_name provider_dsn replication_sets =
     ''SELECT pglogical.create_subscription('' @
     ''subscription_name := '' @ escape_literal H subscriber_name @ '', provider_dsn := '' @ escape_literal H provider_dsn @ '', '' @
     ''replication_sets := '' @ escape_literal H (''{'' @ replication_sets @ ''}'') @ '', '' @
     ''synchronize_structure := false, '' @
     ''synchronize_data := false);''"

definition sync_status_query :: string where
  "sync_status_query = ''UPDATE pglogical.local_sync_status SET sync_status = '' @ [CHR 0x27] @ ''r'' @ [CHR 0x27]"

definition pglogical_subscribe :: "'w host \<Rightarrow> nat \<Rightarrow> string \<Rightarrow> string \<Rightarrow> string \<Rightarrow> string \<Rightarrow> ('w, unit) cs_m" where
  "pglogical_subscribe H conn subscriber_name subscriber_dsn provider_dsn replication_sets =
     sbind (exec_or_die H conn PGRES_TUPLES_OK ''Could not create local node, status %s: %s''
              (create_node_query H subscriber_name subscriber_dsn)) (\<lambda>_.
     sbind (exec_or_die H conn PGRES_TUPLES_OK ''Could not create subscription, status %s: %s''
              (create_subscription_query H subscriber_name provider_dsn replication_sets)) (\<lambda>_.
     sbind (exec_or_die H conn PGRES_COMMAND_OK ''Could not update subscription, status %s: %s'' sync_status_query)
       (\<lambda>_. sret ())))"


section \<open>Replication sets and connection strings\<close>

text \<open>The tokens \<open>strtok\<close> returns one after the other.\<close>

function strtok_all :: "(char \<Rightarrow> bool) \<Rightarrow> string \<Rightarrow> string list" where
  "strtok_all sep s =
     (case dropWhile sep s of
        [] \<Rightarrow> []
      | c # r \<Rightarrow> (c # takeWhile (\<lambda>x. \<not> sep x) r) # strtok_all sep (dropWhile (\<lambda>x. \<not> sep x) r))"
  by pat_completeness auto

termination
proof (relation "measure (\<lambda>(sep, s). length s)")
  fix sep :: "char \<Rightarrow> bool" and s c r
  assume "dropWhile sep s = c # r"
  then have "length (c # r) \<le> length s" by (metis length_dropWhile_le)
  moreover have "length (dropWhile (\<lambda>x. \<not> sep x) r) \<le> length r" by (rule length_dropWhile_le)
  ultimately show "((sep, dropWhile (\<lambda>x. \<not> sep x) r), sep, s) \<in> measure (\<lambda>(sep, s). length s)" by simp
qed simp

declare strtok_all.simps [simp del]

definition set_sep :: "char \<Rightarrow> bool" where
  "set_sep c \<longleftrightarrow> c = CHR '' '' \<or> c = CHR '',''"

definition set_name_char :: "char \<Rightarrow> bool" where
  "set_name_char c \<longleftrightarrow>
     (byte_val (CHR ''a'') \<le> byte_val c \<and> byte_val c \<le> byte_val (CHR ''z'')) \<or>
     (byte_val (CHR ''0'') \<le> byte_val c \<and> byte_val c \<le> byte_val (CHR ''9'')) \<or> c = CHR ''_'' \<or> c = CHR ''-''"

fun validate_names :: "string list \<Rightarrow> bool \<Rightarrow> string \<Rightarrow> string + string" where
  "validate_names [] _ retbuf = Inr retbuf"
| "validate_names (name # names) is_first retbuf =
     (if length name = 0 then Inl ''Replication set name %s is too short''
      else if NAMEDATALEN < length name then Inl ''Replication set name %s is too long''
      else if \<not> list_all set_name_char name then Inl ''Replication set name %s contains invalid character''
      else validate_names names False (retbuf @ (if is_first then [] else '', '') @ name))"

definition validate_replication_set_input :: "string option \<Rightarrow> string + string option" where
  "validate_replication_set_input replication_sets =
     (case replication_sets of
        None \<Rightarrow> Inr None
      | Some sets \<Rightarrow>
          (case validate_names (strtok_all set_sep sets) True [] of Inl msg \<Rightarrow> Inl msg | Inr ret \<Rightarrow> Inr (Some ret)))"

definition plain_char :: "char \<Rightarrow> bool" where
  "plain_char c \<longleftrightarrow>
     (byte_val (CHR ''a'') \<le> byte_val c \<and> byte_val c \<le> byte_val (CHR ''z'')) \<or>
     (byte_val (CHR ''A'') \<le> byte_val c \<and> byte_val c \<le> byte_val (CHR ''Z'')) \<or>
     (byte_val (CHR ''0'') \<le> byte_val c \<and> byte_val c \<le> byte_val (CHR ''9'')) \<or> c = CHR ''_'' \<or> c = CHR ''.''"

fun escape_value :: "string \<Rightarrow> string" where
  "escape_value [] = []"
| "escape_value (c # str) =
     (if c = CHR 0x27 \<or> c = CHR 0x5C then [CHR 0x5C] else []) @ [c] @ escape_value str"

definition appendPQExpBufferConnstrValue :: "string \<Rightarrow> string \<Rightarrow> string" where
  "appendPQExpBufferConnstrValue buf str =
     (if list_ex (\<lambda>c. \<not> plain_char c) str
      then buf @ [CHR 0x27] @ escape_value str @ [CHR 0x27]
      else buf @ str)"

fun params_to_connstr :: "nat \<Rightarrow> (string \<times> string) list \<Rightarrow> string \<Rightarrow> string" where
  "params_to_connstr i [] retbuf = retbuf"
| "params_to_connstr i ((keyword, val) # params) retbuf =
     params_to_connstr (i + 1) params
       (appendPQExpBufferConnstrValue ((if i > 0 then retbuf @ '' '' else retbuf) @ keyword @ ''='') val)"

definition PQconninfoParamsToConnstr :: "(string \<times> string) list \<Rightarrow> string" where
  "PQconninfoParamsToConnstr params = params_to_connstr 0 params []"

definition starts_with :: "string \<Rightarrow> string \<Rightarrow> bool" where
  "starts_with p s \<longleftrightarrow> take (length p) s = p"

definition is_connstr :: "string \<Rightarrow> bool" where
  "is_connstr connstr \<longleftrightarrow>
     starts_with ''postgresql://'' connstr \<or> starts_with ''postgres://'' connstr \<or> CHR ''='' \<in> set connstr"

text \<open>The options that are set and not empty, less the database when one is given beside the string.\<close>

fun used_options :: "string option \<Rightarrow> (string \<times> string option) list \<Rightarrow> (string \<times> string) list" where
  "used_options dbname [] = []"
| "used_options dbname ((keyword, v) # opts) =
     (if dbname \<noteq> None \<and> keyword = ''dbname'' then used_options dbname opts
      else case v of
             None \<Rightarrow> used_options dbname opts
           | Some val \<Rightarrow> if val = [] then used_options dbname opts else (keyword, val) # used_options dbname opts)"

definition get_connstr :: "'w host \<Rightarrow> string option \<Rightarrow> string option \<Rightarrow> string + string" where
  "get_connstr H connstr dbname =
     (let finish = (\<lambda>params dbname.
            PQconninfoParamsToConnstr (params @ (case dbname of None \<Rightarrow> [] | Some d \<Rightarrow> [(''dbname'', d)])))
      in case connstr of
           None \<Rightarrow> Inr (finish [] dbname)
         | Some c \<Rightarrow>
             if is_connstr c
             then (case PQconninfoParse H c of
                     None \<Rightarrow> Inl ''Invalid connection string: %s''
                   | Some conn_opts \<Rightarrow> Inr (finish (used_options dbname conn_opts) dbname))
             else Inr (finish [] (case dbname of None \<Rightarrow> connstr | Some d \<Rightarrow> Some d)))"

section \<open>Data directory\<close>

text \<open>Whether the directory is there already; an unusable one ends the run.\<close>

definition check_data_dir :: "'w host \<Rightarrow> string \<Rightarrow> ('w, bool) cs_m" where
  "check_data_dir H data_dir =
     sbind (sget (\<lambda>s. pg_check_dir H data_dir (c_machine s))) (\<lambda>r.
     if r = 0 \<or> r = 1 then sret False
     else if r = 2 \<or> r = 3 \<or> r = 4
     then sbind (sget (is_pg_dir H data_dir)) (\<lambda>ok.
            if \<not> ok then die H ''Directory %s exists but is not valid postgres data directory.'' else sret True)
     else if r = -1 then die H ''Could not access directory %s: %s.''
     else die H ''Unexpected result from pg_check_dir() call'')"

definition read_sysid :: "'w host \<Rightarrow> string \<Rightarrow> ('w, string) cs_m" where
  "read_sysid H data_dir =
     (let path = c_snprintf MAXPGPATH (data_dir @ ''/global/pg_control'')
      in sbind (sget (\<lambda>s. open_read H path (c_machine s))) (\<lambda>f. case f of
           None \<Rightarrow> die H ''%s: could not open file %s for reading: %s''
         | Some contents \<Rightarrow>
             sbind (sget (\<lambda>s. io_ok H (ReadFile path 0) (c_machine s))) (\<lambda>ok.
             if \<not> ok \<or> length contents < sizeof_ControlFileData H then die H ''%s: could not read file %s: %s''
             else sret (c_snprintf 33 (dec_of_nat (unat (system_identifier H (take (sizeof_ControlFileData H) contents))))))))"

definition put_file :: "string \<Rightarrow> string \<Rightarrow> 'w cs_state \<Rightarrow> 'w cs_state" where
  "put_file path contents s = s\<lparr> c_machine := (c_machine s)\<lparr> files := (files (c_machine s))(path \<mapsto> contents) \<rparr> \<rparr>"

definition file_contents :: "string \<Rightarrow> 'w cs_state \<Rightarrow> string" where
  "file_contents path s = (case files (c_machine s) path of None \<Rightarrow> [] | Some c \<Rightarrow> c)"

definition WriteRecoveryConf :: "'w host \<Rightarrow> string \<Rightarrow> ('w, unit) cs_m" where
  "WriteRecoveryConf H contents s =
     (let filename = the_data_dir s @ ''/recovery.conf''
      in if \<not> io_ok H (OpenCreate filename) (c_machine s) then die H ''%s: could not create file %s: %s'' s
         else let s = put_file filename [] s
              in if \<not> io_ok H (WriteFile filename (length contents)) (c_machine s)
                 then die H ''%s: could not write to file %s: %s'' s
                 else let s = put_file filename contents s
                      in Some (Inr (), s\<lparr> c_trace := c_trace s @ [Wrote filename contents] \<rparr>))"

abbreviation COPY_BUF_SIZE :: nat where
  "COPY_BUF_SIZE \<equiv> 8 * 8192"

text \<open>The copying loop reads what the source file holds at that moment, since both paths may name one file.\<close>

partial_function (option) copy_loop ::
  "'w host \<Rightarrow> string \<Rightarrow> string \<Rightarrow> nat \<Rightarrow> 'w cs_state \<Rightarrow> (unit result \<times> 'w cs_state) option" where
  "copy_loop H fromfile tofile pos s =
     (if \<not> io_ok H (ReadFile fromfile pos) (c_machine s) then die H ''could not read file %s'' s
      else let buffer = take COPY_BUF_SIZE (drop pos (file_contents fromfile s))
           in if buffer = [] then Some (Inr (), s)
              else if \<not> io_ok H (WriteFile tofile (length buffer)) (c_machine s) then die H ''could not write to file %s'' s
              else copy_loop H fromfile tofile (pos + length buffer)
                     (put_file tofile (file_contents tofile s @ buffer) s))"

definition copy_file :: "'w host \<Rightarrow> string \<Rightarrow> string \<Rightarrow> ('w, unit) cs_m" where
  "copy_file H fromfile tofile =
     sbind (sget (\<lambda>s. open_read H fromfile (c_machine s))) (\<lambda>src. case src of
       None \<Rightarrow> die H ''could not open file %s''
     | Some _ \<Rightarrow>
         sbind (sget (\<lambda>s. io_ok H (OpenCreate tofile) (c_machine s))) (\<lambda>ok.
         if \<not> ok then die H ''could not create file %s''
         else sthen (smodify (put_file tofile []))
             (sthen (copy_loop H fromfile tofile 0)
             (sbind (sget (\<lambda>s. io_ok H (CloseFile tofile) (c_machine s))) (\<lambda>ok.
               if \<not> ok then die H ''could not close file %s'' else sret ())))))"

definition CopyConfFile :: "'w host \<Rightarrow> string \<Rightarrow> string \<Rightarrow> ('w, unit) cs_m" where
  "CopyConfFile H fromfile tofile =
     sbind (sget (\<lambda>s. the_data_dir s @ ''/'' @ tofile)) (\<lambda>filename.
     sthen (say VERBOSITY_DEBUG ''Copying %s to %s.'') (copy_file H fromfile filename))"

definition initialize_data_dir :: "'w host \<Rightarrow> string \<Rightarrow> string option \<Rightarrow> string option \<Rightarrow> string option \<Rightarrow> ('w, unit) cs_m" where
  "initialize_data_dir H data_dir connstr postgresql_conf pg_hba_conf =
     sthen (case connstr of
              None \<Rightarrow> sret ()
            | Some c \<Rightarrow> sthen (say VERBOSITY_NORMAL ''Creating base backup of the remote node...'') (run_basebackup H c data_dir))
    (sthen (case postgresql_conf of None \<Rightarrow> sret () | Some f \<Rightarrow> CopyConfFile H f ''postgresql.conf'')
           (case pg_hba_conf of None \<Rightarrow> sret () | Some f \<Rightarrow> CopyConfFile H f ''pg_hba.conf''))"

section \<open>Waiting for the server\<close>

definition one_second :: "'w host \<Rightarrow> VerbosityLevelEnum \<Rightarrow> 'w cs_state \<Rightarrow> 'w cs_state" where
  "one_second H level s = print_msg level ''.'' (s\<lparr> c_machine := usleep H (c_machine s) \<rparr>)"

partial_function (option) wait_postmaster_up :: "'w host \<Rightarrow> 'w cs_state \<Rightarrow> (int result \<times> 'w cs_state) option" where
  "wait_postmaster_up H s =
     (if get_pgpid H s \<noteq> 0 \<and> postmaster_is_alive H (get_pgpid H s) (c_machine s) then Some (Inr (get_pgpid H s), s)
      else wait_postmaster_up H (one_second H VERBOSITY_VERBOSE s))"

partial_function (option) wait_postmaster_ping ::
  "'w host \<Rightarrow> string \<Rightarrow> int \<Rightarrow> 'w cs_state \<Rightarrow> (unit result \<times> 'w cs_state) option" where
  "wait_postmaster_ping H connstr pmpid s =
     (case PQping H connstr (c_machine s) of (res, m) \<Rightarrow>
        let s = s\<lparr> c_machine := m \<rparr>
        in if res = PQPING_OK then Some (Inr (), s)
           else if res = PQPING_NO_ATTEMPT then Some (Inr (), s)
           else if \<not> postmaster_is_alive H pmpid (c_machine s) then Some (Inr (), s)
           else wait_postmaster_ping H connstr pmpid (one_second H VERBOSITY_VERBOSE s))"

definition wait_postmaster_connection :: "'w host \<Rightarrow> string \<Rightarrow> ('w, unit) cs_m" where
  "wait_postmaster_connection H connstr =
     sthen (say VERBOSITY_VERBOSE ''Waiting for PostgreSQL to accept connections ...'')
    (sbind (wait_postmaster_up H) (\<lambda>pmpid.
     sthen (wait_postmaster_ping H connstr pmpid) (say VERBOSITY_VERBOSE [CHR 0x0A])))"

text \<open>A turn of the loop that waits for the end of recovery: reconnect when needed, ask.\<close>

definition reconnect :: "'w host \<Rightarrow> string \<Rightarrow> nat option \<Rightarrow> ('w, nat) cs_m" where
  "reconnect H connstr conn =
     sbind (sget (\<lambda>s. case conn of None \<Rightarrow> False | Some c \<Rightarrow> conn_status_ok H c (c_machine s))) (\<lambda>ok.
     case conn of
       Some c \<Rightarrow>
         if ok then sret c
         else sthen (finish_conn H c) (sthen (wait_postmaster_connection H connstr) (connectdb H connstr))
     | None \<Rightarrow> sthen (wait_postmaster_connection H connstr) (connectdb H connstr))"

definition answers_primary :: "PGresult \<Rightarrow> bool result" where
  "answers_primary res =
     (if PQresultStatus res = PGRES_TUPLES_OK \<and> PQntuples res = 1
      then rbind (PQgetvalue res 0 0) (\<lambda>v. Inr (v \<noteq> [] \<and> hd v = CHR ''f''))
      else Inr False)"

definition ask_primary :: "'w host \<Rightarrow> string \<Rightarrow> nat option \<Rightarrow> ('w, nat \<times> bool) cs_m" where
  "ask_primary H connstr conn =
     sbind (reconnect H connstr conn) (\<lambda>c.
     sbind (c_exec H c ''SELECT pg_is_in_recovery()'') (\<lambda>res.
     sbind (slift (answers_primary res)) (\<lambda>ispri. sret (c, ispri))))"

partial_function (option) wait_primary_loop ::
  "'w host \<Rightarrow> string \<Rightarrow> nat option \<Rightarrow> 'w cs_state \<Rightarrow> (nat result \<times> 'w cs_state) option" where
  "wait_primary_loop H connstr conn s =
     (case ask_primary H connstr conn s of
        None \<Rightarrow> None
      | Some (Inl e, s') \<Rightarrow> Some (Inl e, s')
      | Some (Inr (c, ispri), s') \<Rightarrow>
          if ispri then Some (Inr c, s')
          else wait_primary_loop H connstr (Some c) (one_second H VERBOSITY_VERBOSE s'))"

definition wait_primary_connection :: "'w host \<Rightarrow> string \<Rightarrow> ('w, unit) cs_m" where
  "wait_primary_connection H connstr =
     sthen (wait_postmaster_connection H connstr)
    (sthen (say VERBOSITY_VERBOSE ''Waiting for PostgreSQL to become primary...'')
    (sbind (wait_primary_loop H connstr None) (\<lambda>conn.
     sthen (finish_conn H conn) (say VERBOSITY_VERBOSE [CHR 0x0A]))))"

partial_function (option) wait_shutdown_loop :: "'w host \<Rightarrow> 'w cs_state \<Rightarrow> (unit result \<times> 'w cs_state) option" where
  "wait_shutdown_loop H s =
     (if get_pgpid H s \<noteq> 0 then wait_shutdown_loop H (one_second H VERBOSITY_NORMAL s) else Some (Inr (), s))"

definition wait_postmaster_shutdown :: "'w host \<Rightarrow> ('w, unit) cs_m" where
  "wait_postmaster_shutdown H =
     sthen (say VERBOSITY_VERBOSE ''Waiting for PostgreSQL to shutdown ...'')
    (sthen (wait_shutdown_loop H) (say VERBOSITY_VERBOSE [CHR 0x0A]))"


section \<open>The program\<close>

record cs_options =
  op_stop :: bool
  op_drop_slot_if_exists :: bool
  op_subscriber_name :: "string option"
  op_subscriber_connstr :: "string option"
  op_provider_connstr :: "string option"
  op_replication_sets :: "string option"
  op_postgresql_conf :: "string option"
  op_pg_hba_conf :: "string option"
  op_recovery_conf :: "string option"

definition no_options :: cs_options where
  "no_options = \<lparr> op_stop = False, op_drop_slot_if_exists = False, op_subscriber_name = None, op_subscriber_connstr = None,
     op_provider_connstr = None, op_replication_sets = None, op_postgresql_conf = None, op_pg_hba_conf = None,
     op_recovery_conf = None \<rparr>"

text \<open>Messages on \<open>stderr\<close> and \<open>exit(1)\<close>, without \<open>die\<close>.\<close>

definition usage_exit :: "string \<Rightarrow> ('w, 'a) cs_m" where
  "usage_exit msg =
     sthen (smodify (\<lambda>s. s\<lparr> c_stderr := c_stderr s @ [msg, ''Try %s --help for more information.''] \<rparr>)) (sfail (ProcExit 1))"

definition conf_option :: "'w host \<Rightarrow> string \<Rightarrow> string \<Rightarrow> cs_options \<Rightarrow> ('w, cs_options) cs_m" where
  "conf_option H path msg opts =
     sbind (sget (\<lambda>s. file_exists H path (c_machine s))) (\<lambda>there. if \<not> there then die H msg else sret opts)"

definition parse_option :: "'w host \<Rightarrow> int \<times> string \<Rightarrow> cs_options \<Rightarrow> ('w, cs_options) cs_m" where
  "parse_option H opt opts =
     (let (c, optarg) = opt
      in if c = of_char (CHR ''D'') then sthen (smodify (\<lambda>s. s\<lparr> c_data_dir := Some optarg \<rparr>)) (sret opts)
         else if c = of_char (CHR ''n'') then sret (opts\<lparr> op_subscriber_name := Some optarg \<rparr>)
         else if c = 1 then sret (opts\<lparr> op_provider_connstr := Some optarg \<rparr>)
         else if c = 2 then sret (opts\<lparr> op_subscriber_connstr := Some optarg \<rparr>)
         else if c = 3 then
           sbind (die_or H (Inr (validate_replication_set_input (Some optarg)))) (\<lambda>sets.
             sret (opts\<lparr> op_replication_sets := sets \<rparr>))
         else if c = 4 then
           conf_option H optarg ''The specified postgresql.conf file does not exist.'' (opts\<lparr> op_postgresql_conf := Some optarg \<rparr>)
         else if c = 5 then
           conf_option H optarg ''The specified pg_hba.conf file does not exist.'' (opts\<lparr> op_pg_hba_conf := Some optarg \<rparr>)
         else if c = 6 then
           conf_option H optarg ''The specified recovery.conf file does not exist.'' (opts\<lparr> op_recovery_conf := Some optarg \<rparr>)
         else if c = of_char (CHR ''v'') then sthen (smodify (\<lambda>s. s\<lparr> c_verbosity := c_verbosity s + 1 \<rparr>)) (sret opts)
         else if c = of_char (CHR ''s'') then sret (opts\<lparr> op_stop := True \<rparr>)
         else if c = 7 then sret (opts\<lparr> op_drop_slot_if_exists := True \<rparr>)
         else usage_exit ''Unknown option'')"

fun parse_options :: "'w host \<Rightarrow> (int \<times> string) list \<Rightarrow> cs_options \<Rightarrow> ('w, cs_options) cs_m" where
  "parse_options H [] opts = sret opts"
| "parse_options H (opt # rest) opts = sbind (parse_option H opt opts) (\<lambda>opts. parse_options H rest opts)"

text \<open>What the rest of the run works with, once the options are checked.\<close>

record cs_plan =
  pl_data_dir :: string
  pl_subscriber_name :: string
  pl_provider_connstr :: string
  pl_subscriber_connstr :: string
  pl_replication_sets :: string

definition sanity_checks :: "'w host \<Rightarrow> cs_options \<Rightarrow> ('w, cs_plan) cs_m" where
  "sanity_checks H opts =
     sbind (sget c_data_dir) (\<lambda>data_dir.
     case data_dir of
       None \<Rightarrow> usage_exit ''No data directory specified''
     | Some dir \<Rightarrow>
     case op_subscriber_name opts of
       None \<Rightarrow> usage_exit ''No subscriber name specified''
     | Some subscriber_name \<Rightarrow>
         sbind (die_or H (Inr (get_connstr H (op_provider_connstr opts) None))) (\<lambda>provider_connstr.
         sbind (die_or H (Inr (get_connstr H (op_subscriber_connstr opts) None))) (\<lambda>subscriber_connstr.
         if provider_connstr = [] then die H ''Provider connection must be specified.''
         else if subscriber_connstr = [] then die H ''Subscriber connection must be specified.''
         else sret \<lparr> pl_data_dir = dir, pl_subscriber_name = subscriber_name, pl_provider_connstr = provider_connstr,
                pl_subscriber_connstr = subscriber_connstr,
                pl_replication_sets = (case op_replication_sets opts of
                    None \<Rightarrow> ''default,default_insert_only,ddl_sql''
                  | Some sets \<Rightarrow> if sets = [] then ''default,default_insert_only,ddl_sql'' else sets) \<rparr>)))"

definition log_file :: string where
  "log_file = ''pglogical_create_subscriber_postgres.log''"

definition open_log :: "'w host \<Rightarrow> ('w, unit) cs_m" where
  "open_log H =
     sbind (sget (\<lambda>s. io_ok H (OpenCreate log_file) (c_machine s))) (\<lambda>ok.
     if \<not> ok then die H ''Creating pglogical_create_subscriber_postgres.log failed: %s''
     else smodify (\<lambda>s. if files (c_machine s) log_file = None then put_file log_file [] s else s))"

text \<open>The provider's part: identification, slot, base backup, restore point.  The result is the slot's name and the position.\<close>

definition identify_provider :: "'w host \<Rightarrow> cs_plan \<Rightarrow> ('w, nat \<times> RemoteInfo \<times> bool) cs_m" where
  "identify_provider H plan =
     sthen (say VERBOSITY_NORMAL ''Getting remote server identification ...'')
    (sbind (connectdb H (pl_provider_connstr plan)) (\<lambda>conn.
     sthen (smodify (\<lambda>s. s\<lparr> c_provider_conn := Some conn \<rparr>))
    (sbind (get_remote_info H conn) (\<lambda>remote_info.
     sbind (check_data_dir H (pl_data_dir plan)) (\<lambda>use_existing_data_dir.
     if use_existing_data_dir
     then sbind (read_sysid H (pl_data_dir plan)) (\<lambda>sysid.
            if ri_sysid remote_info \<noteq> sysid then die H ''Subscriber data directory is not basebackup of remote node.''
            else sret (conn, remote_info, True))
     else sret (conn, remote_info, False))))))"

definition clone_provider :: "'w host \<Rightarrow> cs_options \<Rightarrow> cs_plan \<Rightarrow> ('w, string \<times> string) cs_m" where
  "clone_provider H opts plan =
     sbind (identify_provider H plan) (\<lambda>(conn, remote_info, use_existing_data_dir).
     sthen (say VERBOSITY_NORMAL ''Creating replication slot ...'')
    (sbind (initialize_replication_slot H conn (ri_dbname remote_info) (ri_node_name remote_info) (pl_subscriber_name plan)
              (op_drop_slot_if_exists opts)) (\<lambda>slot_name.
     sthen (initialize_data_dir H (pl_data_dir plan) (if use_existing_data_dir then None else Some (pl_provider_connstr plan))
              (op_postgresql_conf opts) (op_pg_hba_conf opts))
    (sthen (smodify (\<lambda>s. s\<lparr> c_pid_file := c_snprintf MAXPGPATH (pl_data_dir plan @ ''/postmaster.pid'') \<rparr>))
    (sthen (say VERBOSITY_NORMAL ''Creating restore point on remote node ...'')
    (sbind (create_restore_point H conn slot_name) (\<lambda>remote_lsn.
     sthen (finish_conn H conn)
    (sthen (smodify (\<lambda>s. s\<lparr> c_provider_conn := None \<rparr>)) (sret (slot_name, remote_lsn))))))))))"

text \<open>Recovery up to the restore point with pglogical disabled, then the removal of the provider's configuration.\<close>

definition recovery_conf_contents :: "'w host \<Rightarrow> cs_options \<Rightarrow> cs_plan \<Rightarrow> string \<Rightarrow> string" where
  "recovery_conf_contents H opts plan slot_name =
     (if op_recovery_conf opts \<noteq> None then []
      else ''standby_mode = '' @ [CHR 0x27] @ ''on'' @ [CHR 0x27, CHR 0x0A] @
           ''primary_conninfo = '' @ [CHR 0x27] @ escape_single_quotes_ascii H (pl_provider_connstr plan) @ [CHR 0x27, CHR 0x0A]) @
     ''recovery_target_name = '' @ [CHR 0x27] @ slot_name @ [CHR 0x27, CHR 0x0A] @
     ''recovery_target_inclusive = true'' @ [CHR 0x0A] @
     ''recovery_target_action = promote'' @ [CHR 0x0A]"

definition pg_ctl_or_die :: "'w host \<Rightarrow> string \<Rightarrow> string \<Rightarrow> ('w, unit) cs_m" where
  "pg_ctl_or_die H arg msg =
     sbind (run_pg_ctl H arg) (\<lambda>pg_ctl_ret. if pg_ctl_ret \<noteq> 0 then die H msg else sret ())"

definition recovery_start_arg :: string where
  "recovery_start_arg = ''start -l '' @ [CHR 0x22] @ log_file @ [CHR 0x22] @ '' -o '' @ [CHR 0x22] @
     ''-c shared_preload_libraries='' @ [CHR 0x27, CHR 0x27] @ [CHR 0x22]"

definition with_subscriber :: "'w host \<Rightarrow> cs_plan \<Rightarrow> (nat \<Rightarrow> ('w, unit) cs_m) \<Rightarrow> ('w, unit) cs_m" where
  "with_subscriber H plan work =
     sbind (connectdb H (pl_subscriber_connstr plan)) (\<lambda>conn.
     sthen (smodify (\<lambda>s. s\<lparr> c_subscriber_conn := Some conn \<rparr>))
    (sthen (work conn)
    (sthen (finish_conn H conn)
           (smodify (\<lambda>s. s\<lparr> c_subscriber_conn := None \<rparr>)))))"

definition catch_up :: "'w host \<Rightarrow> cs_options \<Rightarrow> cs_plan \<Rightarrow> string \<Rightarrow> ('w, unit) cs_m" where
  "catch_up H opts plan slot_name =
     sthen (say VERBOSITY_NORMAL ''Bringing subscriber node to the restore point ...'')
    (sthen (case op_recovery_conf opts of None \<Rightarrow> sret () | Some f \<Rightarrow> CopyConfFile H f ''recovery.conf'')
    (sthen (WriteRecoveryConf H (recovery_conf_contents H opts plan slot_name))
    (sthen (pg_ctl_or_die H recovery_start_arg
              ''Postgres startup for restore point catchup failed with %d. See pglogical_create_subscriber_postgres.log.'')
    (sthen (wait_primary_connection H (pl_subscriber_connstr plan))
    (sthen (say VERBOSITY_VERBOSE ''Removing old pglogical configuration ...'')
    (sthen (with_subscriber H plan (remove_unwanted_data H))
    (sthen (pg_ctl_or_die H ''stop''
              ''Postgres stop after restore point catchup failed with %d. See pglogical_create_subscriber_postgres.log.'')
           (wait_postmaster_shutdown H))))))))"

text \<open>The start with pglogical, the origin at the position of the restore point and the subscription.\<close>

definition subscribe :: "'w host \<Rightarrow> cs_plan \<Rightarrow> string \<Rightarrow> string \<Rightarrow> ('w, unit) cs_m" where
  "subscribe H plan slot_name remote_lsn =
     sthen (say VERBOSITY_NORMAL ''Initializing pglogical on the subscriber node:'')
    (sthen (pg_ctl_or_die H ''start'' ''Postgres restart with pglogical enabled failed with %d.'')
    (sthen (wait_postmaster_connection H (pl_subscriber_connstr plan))
           (with_subscriber H plan (\<lambda>conn.
              sthen (say VERBOSITY_VERBOSE ''Creating pglogical extension ...'')
             (sthen (install_extension H conn ''pglogical'')
             (sthen (say VERBOSITY_VERBOSE ''Creating replication origin ...'')
             (sthen (initialize_replication_origin H conn slot_name (Some remote_lsn))
             (sthen (say VERBOSITY_NORMAL ''Creating subscriber %s ...'')
             (sthen (say VERBOSITY_VERBOSE ''Replication sets: %s'')
                    (pglogical_subscribe H conn (pl_subscriber_name plan) (pl_subscriber_connstr plan) (pl_provider_connstr plan)
                       (pl_replication_sets plan)))))))))))"

definition stop_at_end :: "'w host \<Rightarrow> ('w, unit) cs_m" where
  "stop_at_end H =
     sthen (say VERBOSITY_NORMAL ''Stopping the subscriber node ...'')
    (sthen (pg_ctl_or_die H ''stop'' ''Stopping postgres after successful subscribtion failed with %d.'')
           (wait_postmaster_shutdown H))"

definition create_subscriber_main :: "'w host \<Rightarrow> string list \<Rightarrow> ('w, nat) cs_m" where
  "create_subscriber_main H argv =
     (case argv of
        [] \<Rightarrow> sfail NullDereference
      | argv0 # args \<Rightarrow>
          sthen (smodify (\<lambda>s. s\<lparr> c_argv0 := argv0 \<rparr>))
         (if list_ex (\<lambda>a. a = ''--help'' \<or> a = ''-?'') args then sthen (smodify usage) (sfail (ProcExit 0))
          else sbind (parse_options H (getopt_long H argv) no_options) (\<lambda>opts.
          sbind (sanity_checks H opts) (\<lambda>plan.
          sthen (open_log H)
         (sthen (say VERBOSITY_NORMAL ''%s: starting ...'')
         (sbind (clone_provider H opts plan) (\<lambda>(slot_name, remote_lsn).
          sthen (catch_up H opts plan slot_name)
         (sthen (subscribe H plan slot_name remote_lsn)
         (sthen (swhen (op_stop opts) (stop_at_end H))
         (sthen (say VERBOSITY_NORMAL ''All done'') (sret 0)))))))))))"

end
