(* ===== verification/Pgl_CreateSubscriberFacts.thy ===== *)
theory Pgl_CreateSubscriberFacts
  imports Pgl_CreateSubscriber
begin

text \<open>
  The parts of \<open>pglogical_create_subscriber.c\<close>: replication set names and connection strings keep what the user wrote, files are copied,
  the waiting loops end exactly when the server is up or gone, and what \<open>die\<close> does when it cannot stop the server.
\<close>

section \<open>What is promised\<close>

text \<open>A name the validation accepts, and the normal form of a list of names.\<close>

definition valid_set_name :: "string \<Rightarrow> bool" where
  "valid_set_name name \<longleftrightarrow> name \<noteq> [] \<and> length name \<le> NAMEDATALEN \<and> list_all set_name_char name"

fun sep_join :: "string list \<Rightarrow> string" where
  "sep_join [] = []"
| "sep_join [n] = n"
| "sep_join (n # k # ns) = n @ '', '' @ sep_join (k # ns)"

text \<open>The pid that a pid file holds, 0 when there is none.\<close>

definition pid_in :: "'w host \<Rightarrow> string \<Rightarrow> 'w machine \<Rightarrow> int" where
  "pid_in H path m = (case open_read H path m of None \<Rightarrow> 0 | Some t \<Rightarrow> (case scan_long t of None \<Rightarrow> 0 | Some (pid, _) \<Rightarrow> pid))"

definition postmaster_up :: "'w host \<Rightarrow> string \<Rightarrow> 'w machine \<Rightarrow> bool" where
  "postmaster_up H path m \<longleftrightarrow> pid_in H path m \<noteq> 0 \<and> postmaster_is_alive H (pid_in H path m) m"

text \<open>
  The syntax of connection strings as the documentation of \<open>libpq\<close> has it: blanks, a keyword, an equal sign that blanks may surround,
  and a value, either plain up to the next blank or in single quotes, with a backslash before any quoted character.
\<close>

fun read_quoted :: "string \<Rightarrow> (string \<times> string) option" where
  "read_quoted [] = None"
| "read_quoted (c # r) =
     (if c = CHR 0x27 then Some ([], r)
      else if c = CHR 0x5C
      then (case r of [] \<Rightarrow> None | e # r' \<Rightarrow> map_option (\<lambda>(v, t). (e # v, t)) (read_quoted r'))
      else map_option (\<lambda>(v, t). (c # v, t)) (read_quoted r))"

fun read_plain :: "string \<Rightarrow> string \<times> string" where
  "read_plain [] = ([], [])"
| "read_plain (c # r) =
     (if is_blank c then ([], c # r)
      else if c = CHR 0x5C
      then (case r of [] \<Rightarrow> ([], []) | e # r' \<Rightarrow> (case read_plain r' of (v, t) \<Rightarrow> (e # v, t)))
      else (case read_plain r of (v, t) \<Rightarrow> (c # v, t)))"

definition read_value :: "string \<Rightarrow> (string \<times> string) option" where
  "read_value s = (if s \<noteq> [] \<and> hd s = CHR 0x27 then read_quoted (tl s) else Some (read_plain s))"

definition keyword_char :: "char \<Rightarrow> bool" where
  "keyword_char c \<longleftrightarrow> \<not> is_blank c \<and> c \<noteq> CHR ''=''"

lemma read_quoted_length: "case read_quoted s of None \<Rightarrow> True | Some (v, t) \<Rightarrow> length t < length s"
proof (induction s rule: read_quoted.induct)
  case (2 c r)
  show ?case
  proof (cases "c = CHR 0x5C")
    case True
    then show ?thesis using 2(1) by (cases r) (auto split: option.splits)
  next
    case False
    then show ?thesis using 2(2) by (auto split: option.splits)
  qed
qed simp

lemma read_plain_length: "length (snd (read_plain s)) \<le> length s"
proof (induction s rule: read_plain.induct)
  case (2 c r)
  show ?case
  proof (cases "c = CHR 0x5C \<and> \<not> is_blank c")
    case True
    then show ?thesis using 2(1) by (cases r) (auto split: prod.splits)
  next
    case False
    then show ?thesis using 2(2) by (auto split: prod.splits)
  qed
qed simp

lemma read_value_length: "read_value s = Some (v, t) \<Longrightarrow> length t \<le> length s"
  using read_quoted_length[of "tl s"] read_plain_length[of s]
  by (auto simp: read_value_def split: if_splits)

lemma read_params_decreases:
  assumes "dropWhile is_blank (dropWhile keyword_char (dropWhile is_blank s)) \<noteq> []"
    "read_value (dropWhile is_blank (tl (dropWhile is_blank (dropWhile keyword_char (dropWhile is_blank s))))) = Some (v, t)"
  shows "length t < length s"
proof -
  let ?r = "dropWhile is_blank (dropWhile keyword_char (dropWhile is_blank s))"
  have "length ?r \<le> length s" by (meson length_dropWhile_le order_trans)
  moreover have "length t \<le> length (tl ?r)" by (meson read_value_length[OF assms(2)] length_dropWhile_le order_trans)
  moreover have "length (tl ?r) < length ?r" using assms(1) by simp
  ultimately show ?thesis by linarith
qed

function read_params :: "string \<Rightarrow> (string \<times> string) list option" where
  "read_params s =
     (let s = dropWhile is_blank s; rest = dropWhile is_blank (dropWhile keyword_char s)
      in if s = [] then Some []
         else if rest = [] \<or> hd rest \<noteq> CHR ''='' then None
         else case read_value (dropWhile is_blank (tl rest)) of
                None \<Rightarrow> None
              | Some (v, t) \<Rightarrow> map_option (\<lambda>ps. (takeWhile keyword_char s, v) # ps) (read_params t))"
  by pat_completeness auto

termination
  by (relation "measure length") (auto intro: read_params_decreases)

declare read_params.simps [simp del]

definition value_text :: "string \<Rightarrow> string" where
  "value_text v = appendPQExpBufferConnstrValue [] v"

section \<open>State fields\<close>

lemma print_msg_fields [simp]:
  "c_data_dir (print_msg l f s) = c_data_dir s" "c_trace (print_msg l f s) = c_trace s" "c_machine (print_msg l f s) = c_machine s"
  "c_pid_file (print_msg l f s) = c_pid_file s"
  by (simp_all add: print_msg_def)

lemma one_second_fields [simp]:
  "c_data_dir (one_second H l s) = c_data_dir s" "c_trace (one_second H l s) = c_trace s" "c_pid_file (one_second H l s) = c_pid_file s"
  "c_machine (one_second H l s) = usleep H (c_machine s)"
  by (simp_all add: one_second_def)

lemma put_file_fields [simp]:
  "c_data_dir (put_file p c s) = c_data_dir s" "c_trace (put_file p c s) = c_trace s"
  by (simp_all add: put_file_def)

section \<open>Replication set names\<close>

lemma set_name_no_sep: "set_name_char c \<Longrightarrow> \<not> set_sep c"
  by (auto simp: set_name_char_def set_sep_def byte_val_def)

lemma validate_names_later:
  "validate_names names False buf =
     (if list_all valid_set_name names then Inr (buf @ concat (map (\<lambda>n. '', '' @ n) names)) else validate_names names False buf)"
  by (induction names arbitrary: buf) (auto simp: valid_set_name_def)

lemma validate_names_ok_iff: "(\<exists>r. validate_names names b buf = Inr r) \<longleftrightarrow> list_all valid_set_name names"
  by (induction names arbitrary: b buf) (auto simp: valid_set_name_def)

lemma join_eq: "sep_join (n # ns) = n @ concat (map (\<lambda>n. CHR '','' # CHR '' '' # n) ns)"
  by (induction ns arbitrary: n) auto

lemma validate_names_join:
  assumes "list_all valid_set_name names" shows "validate_names names True [] = Inr (sep_join names)"
proof (cases names)
  case (Cons n ns)
  with assms have "validate_names ns False n = Inr (n @ concat (map (\<lambda>n. '', '' @ n) ns))"
    by (subst validate_names_later) simp
  with assms Cons show ?thesis by (simp add: valid_set_name_def join_eq)
qed simp

lemma strtok_skip: "set_sep c \<Longrightarrow> strtok_all set_sep (c # s) = strtok_all set_sep s"
  by (simp add: strtok_all.simps[of _ "c # s"] strtok_all.simps[of _ s])

lemma strtok_token:
  assumes "valid_set_name n" "r = [] \<or> set_sep (hd r)"
  shows "strtok_all set_sep (n @ r) = n # strtok_all set_sep r"
proof -
  obtain c t where n: "n = c # t" using assms(1) by (cases n) (auto simp: valid_set_name_def)
  have c: "\<not> set_sep c" "\<forall>x \<in> set t. \<not> set_sep x" using assms(1) n set_name_no_sep by (auto simp: valid_set_name_def list_all_iff)
  have "takeWhile (\<lambda>x. \<not> set_sep x) (t @ r) = t" "dropWhile (\<lambda>x. \<not> set_sep x) (t @ r) = r"
    using assms(2) c(2) by (cases r; simp add: takeWhile_append2 dropWhile_append2)+
  then show ?thesis using c(1) n by (subst strtok_all.simps) simp
qed

lemma strtok_join: "list_all valid_set_name names \<Longrightarrow> strtok_all set_sep (sep_join names) = names"
proof (induction names rule: sep_join.induct)
  case 1 show ?case by (simp add: strtok_all.simps)
next
  case (2 n) then show ?case using strtok_token[of n "[]"] by (simp add: strtok_all.simps[of _ "[]"])
next
  case (3 n k ns)
  have s: "set_sep (CHR '','')" "set_sep (CHR '' '')" by (simp_all add: set_sep_def)
  with 3 show ?case using strtok_token[of n "'', '' @ sep_join (k # ns)"] by (simp add: strtok_skip)
qed

lemma validate_ok_iff:
  "validate_replication_set_input (Some sets) = Inr (Some ret) \<longleftrightarrow>
   list_all valid_set_name (strtok_all set_sep sets) \<and> ret = sep_join (strtok_all set_sep sets)"
proof -
  let ?v = "validate_names (strtok_all set_sep sets) True []"
  have "validate_replication_set_input (Some sets) = Inr (Some ret) \<longleftrightarrow> ?v = Inr ret"
    by (auto simp: validate_replication_set_input_def split: sum.splits)
  moreover have "?v = Inr ret \<longleftrightarrow> list_all valid_set_name (strtok_all set_sep sets) \<and> ret = sep_join (strtok_all set_sep sets)"
    using validate_names_ok_iff[of "strtok_all set_sep sets" True "[]"] validate_names_join by force
  ultimately show ?thesis by simp
qed

text \<open>
  The names that validation accepts keep their tokens, are all valid, and their text is a normal form: validating it again gives it back.
\<close>

theorem validated_sets_normal:
  assumes "validate_replication_set_input (Some sets) = Inr (Some ret)"
  shows "strtok_all set_sep ret = strtok_all set_sep sets \<and> list_all valid_set_name (strtok_all set_sep sets) \<and>
    validate_replication_set_input (Some ret) = Inr (Some ret)"
  using assms strtok_join by (simp add: validate_ok_iff)

text \<open>The limit is one byte too large: a name of 64 bytes passes, and PostgreSQL cuts it.\<close>

theorem validated_name_cut:
  assumes "length name = 64" "list_all set_name_char name"
  shows "validate_replication_set_input (Some name) = Inr (Some name) \<and> namestrcpy name \<noteq> name"
proof -
  have v: "valid_set_name name" using assms by (auto simp: valid_set_name_def)
  then have "strtok_all set_sep name = [name]" using strtok_token[of name "[]"] by (simp add: strtok_all.simps[of _ "[]"])
  moreover have "length (namestrcpy name) \<noteq> length name" using assms(1) by (simp add: namestrcpy_def)
  ultimately show ?thesis using v by (auto simp: validate_ok_iff)
qed

section \<open>Files\<close>

lemma put_file_get [simp]:
  "file_contents p (put_file p c s) = c" "p \<noteq> q \<Longrightarrow> file_contents q (put_file p c s) = file_contents q s"
  "files (c_machine (put_file p c s)) = (files (c_machine s))(p \<mapsto> c)"
  "put_file p c (put_file p c' s) = put_file p c s"
  by (simp_all add: file_contents_def put_file_def)

lemma copy_loop_copies:
  assumes "\<And>c m. io_ok H c m" "a \<noteq> b"
  shows "copy_loop H a b pos s = Some (Inr (), if drop pos (file_contents a s) = [] then s
     else put_file b (file_contents b s @ drop pos (file_contents a s)) s)"
proof (induction "length (file_contents a s) - pos" arbitrary: pos s rule: less_induct)
  case less
  show ?case
  proof (cases "drop pos (file_contents a s) = []")
    case True then show ?thesis by (subst copy_loop.simps) (simp add: assms Let_def)
  next
    case False
    let ?chunk = "take COPY_BUF_SIZE (drop pos (file_contents a s))"
    let ?s = "put_file b (file_contents b s @ ?chunk) s"
    have l: "0 < length ?chunk" "pos + length ?chunk \<le> length (file_contents a s)" using False by auto
    have d: "?chunk @ drop (pos + length ?chunk) (file_contents a s) = drop pos (file_contents a s)"
      by (metis append_take_drop_id drop_drop add.commute length_take min.commute take_drop drop_take append_eq_conv_conj) 
    have "copy_loop H a b (pos + length ?chunk) ?s = Some (Inr (), if drop (pos + length ?chunk) (file_contents a ?s) = [] then ?s
       else put_file b (file_contents b ?s @ drop (pos + length ?chunk) (file_contents a ?s)) ?s)"
      using l assms(2) by (intro less) auto
    moreover have "copy_loop H a b pos s = copy_loop H a b (pos + length ?chunk) ?s"
      using False assms(1) by (subst copy_loop.simps) (simp add: Let_def)
    ultimately show ?thesis using False assms(2) d by (auto simp: append_assoc)
  qed
qed

text \<open>When the calls on files succeed, the copy ends and holds the bytes of the source, whatever its size.\<close>

theorem copy_file_copies:
  assumes "\<And>c m. io_ok H c m" "fromfile \<noteq> tofile" "fromfile \<noteq> []" "files (c_machine s) fromfile = Some contents"
  shows "copy_file H fromfile tofile s = Some (Inr (), put_file tofile contents s)"
  using assms copy_loop_copies[OF assms(1,2), of 0 "put_file tofile [] s"]
  by (auto simp: copy_file_def sbind_simps open_read_def sbind_def[of "copy_loop _ _ _ _"] sret_def sget_def file_contents_def smodify_def)

section \<open>Dying\<close>

text \<open>
  When \<open>pg_ctl\<close> cannot be used and the pid file is there, \<open>die\<close> calls itself without end: each round tries to stop the server and dies
  of not finding the program.
\<close>

theorem die_without_pg_ctl:
  assumes "\<And>m conn. files (PQfinish H conn m) = files m" "\<And>c m. io_ok H c m"
    "\<And>m. \<exists>msg. find_other_exec H (c_argv0 s) ''pg_ctl'' m = Inr (Inl msg)" "get_pgpid H s \<noteq> 0"
  shows "die H msg s = None"
proof -
  have r: "c_argv0 (die_report H msg t) = c_argv0 t \<and> get_pgpid H (die_report H msg t) = get_pgpid H t" for msg t
    by (simp add: die_report_def finish_opt_def get_pgpid_def open_read_def assms(1,2) Let_def split: option.splits)
  have "die_loop K msg t = Some y \<Longrightarrow> K = H \<Longrightarrow> c_argv0 t = c_argv0 s \<Longrightarrow> get_pgpid H t \<noteq> 0 \<Longrightarrow> False" for K msg t y
  proof (induction rule: die_loop.raw_induct [rotated, consumes 1])
    case (1 loop K msg t y)
    obtain m' where "find_other_exec H (c_argv0 s) ''pg_ctl'' (c_machine (die_report H msg t)) = Inr (Inl m')" using assms(3) by blast
    then have "try_pg_ctl H ''stop -s'' (die_report H msg t) = (Inr (Inl m'), die_report H msg t)"
      using 1(4) r by (simp add: try_pg_ctl_def)
    then have "loop H m' (die_report H msg t) = Some y" using 1(2,3,5) r by simp
    from 1(1)[OF this] show ?case using r 1(4,5) by simp
  qed
  from this [OF _ refl refl assms(4)] show ?thesis by (auto simp: die_def split: option.splits)
qed

text \<open>The warning that the server could not be stopped is printed exactly when \<open>pg_ctl\<close> reported success.\<close>

theorem die_warns_on_success:
  assumes "try_pg_ctl H ''stop -s'' (die_report H msg s) = (Inr (Inr ret), s')" "get_pgpid H (die_report H msg s) \<noteq> 0"
  shows "die H msg s = Some (Inl (ProcExit 1), if ret = 0
     then s'\<lparr> c_stderr := c_stderr s' @ [''WARNING: postgres seems to be running, but could not be stopped''] \<rparr> else s')"
  using assms by (simp add: die_def die_loop.simps[of H msg s])

section \<open>Connection strings are read back\<close>

lemma append_value: "appendPQExpBufferConnstrValue buf v = buf @ value_text v"
  by (simp add: value_text_def appendPQExpBufferConnstrValue_def)

lemma read_quoted_escape: "read_quoted (escape_value v @ CHR 0x27 # r) = Some (v, r)"
  by (induction v) auto

lemma plain_char_readable: "plain_char c \<Longrightarrow> \<not> is_blank c \<and> c \<noteq> CHR 0x5C \<and> c \<noteq> CHR 0x27"
  by (auto simp: plain_char_def is_blank_def byte_val_def)

lemma read_plain_plain:
  "list_all plain_char v \<Longrightarrow> r = [] \<or> is_blank (hd r) \<Longrightarrow> read_plain (v @ r) = (v, r)"
proof (induction v)
  case Nil then show ?case by (cases r) auto
next
  case (Cons c v) then show ?case using plain_char_readable[of c] by simp
qed

lemma read_value_text:
  assumes "v \<noteq> []" "r = [] \<or> is_blank (hd r)"
  shows "read_value (dropWhile is_blank (value_text v @ r)) = Some (v, r)"
proof (cases "list_all plain_char v")
  case True
  moreover obtain c w where "v = c # w" using assms(1) by (cases v) auto
  ultimately show ?thesis using plain_char_readable[of c] read_plain_plain[OF True assms(2)]
    by (simp add: value_text_def appendPQExpBufferConnstrValue_def read_value_def list_ex_iff list_all_iff)
next
  case False
  have "\<not> is_blank (CHR 0x27)" by (simp add: is_blank_def byte_val_def)
  with False show ?thesis
    by (simp add: value_text_def appendPQExpBufferConnstrValue_def read_value_def list_ex_iff list_all_iff read_quoted_escape)
qed

lemma params_accumulate:
  "params_to_connstr (Suc i) ps buf = buf @ concat (map (\<lambda>(k, v). '' '' @ k @ ''='' @ value_text v) ps)"
  by (induction ps arbitrary: i buf) (auto simp: append_value)

lemma read_param:
  assumes "list_all keyword_char k" "v \<noteq> []" "r = [] \<or> is_blank (hd r)" "k \<noteq> []"
  shows "read_params (k @ ''='' @ value_text v @ r) = map_option (\<lambda>ps. (k, v) # ps) (read_params r)"
proof -
  have b: "dropWhile is_blank (k @ CHR ''='' # value_text v @ r) = k @ CHR ''='' # value_text v @ r"
    using assms(1,4) by (cases k) (auto simp: keyword_char_def)
  have e: "\<not> keyword_char (CHR ''='')" "\<not> is_blank (CHR ''='')" by (simp_all add: keyword_char_def is_blank_def byte_val_def)
  have k: "dropWhile keyword_char (k @ CHR ''='' # value_text v @ r) = CHR ''='' # value_text v @ r"
    "takeWhile keyword_char (k @ CHR ''='' # value_text v @ r) = k"
    using assms(1) e(1) by (auto simp: dropWhile_append2 takeWhile_append2 list_all_iff)
  show ?thesis
    using read_value_text[OF assms(2,3)] by (subst read_params.simps) (simp add: b k e Let_def)
qed

lemma read_rendered:
  assumes "list_all (\<lambda>(k, v). k \<noteq> [] \<and> list_all keyword_char k \<and> v \<noteq> []) ps"
  shows "read_params (concat (map (\<lambda>(k, v). '' '' @ k @ ''='' @ value_text v) ps)) = Some ps"
  using assms
proof (induction ps)
  case Nil show ?case by (simp add: read_params.simps)
next
  case (Cons p ps)
  obtain k v where p: "p = (k, v)" by (cases p)
  let ?r = "concat (map (\<lambda>(k, v). '' '' @ k @ ''='' @ value_text v) ps)"
  have "?r = [] \<or> is_blank (hd ?r)" by (cases ps) (auto simp: is_blank_def byte_val_def split: prod.splits)
  then have "read_params (k @ ''='' @ value_text v @ ?r) = Some (p # ps)"
    using Cons p by (subst read_param) auto
  moreover have "read_params (CHR '' '' # t) = read_params t" for t
    by (simp add: read_params.simps[of "CHR '' '' # t"] read_params.simps[of t] is_blank_def byte_val_def)
  ultimately show ?case by (simp add: p)
qed

lemma connstr_read:
  assumes "list_all (\<lambda>(k, v). k \<noteq> [] \<and> list_all keyword_char k \<and> v \<noteq> []) ps"
  shows "read_params (PQconninfoParamsToConnstr ps) = Some ps"
proof (cases ps)
  case Nil then show ?thesis by (simp add: PQconninfoParamsToConnstr_def read_params.simps)
next
  case (Cons p qs)
  have "read_params (CHR '' '' # t) = read_params t" for t
    by (simp add: read_params.simps[of "CHR '' '' # t"] read_params.simps[of t] is_blank_def byte_val_def)
  then show ?thesis using read_rendered[OF assms] Cons
    by (auto simp: PQconninfoParamsToConnstr_def params_accumulate append_value split: prod.splits)
qed

lemma used_options_set: "list_all (\<lambda>(k, v). v \<noteq> []) (used_options dbname opts)"
  by (induction dbname opts rule: used_options.induct) (auto split: option.splits)

lemma used_options_keywords:
  "list_all (\<lambda>(k, v). k \<noteq> [] \<and> list_all keyword_char k) opts \<Longrightarrow>
   list_all (\<lambda>(k, v). k \<noteq> [] \<and> list_all keyword_char k) (used_options dbname opts)"
  by (induction dbname opts rule: used_options.induct) (auto split: option.splits)

lemma used_options_all:
  "used_options None opts = [(k, v). (k, Some v) \<leftarrow> opts, v \<noteq> []]"
  by (induction "None :: string option" opts rule: used_options.induct) (auto split: option.splits)

text \<open>
  The connection string that the tool builds from a given one, and that it hands to \<open>libpq\<close>, \<open>pg_basebackup\<close> and the subscription, reads
  as exactly the options that are set in the given one, whatever characters their values have.
\<close>

theorem get_connstr_keeps_options:
  assumes "is_connstr c" "PQconninfoParse H c = Some opts" "list_all (\<lambda>(k, v). k \<noteq> [] \<and> list_all keyword_char k) opts"
  shows "\<exists>connstr. get_connstr H (Some c) None = Inr connstr \<and> read_params connstr = Some [(k, v). (k, Some v) \<leftarrow> opts, v \<noteq> []]"
proof -
  have "list_all (\<lambda>(k, v). k \<noteq> [] \<and> list_all keyword_char k \<and> v \<noteq> []) (used_options None opts)"
    using used_options_set[of None opts] used_options_keywords[OF assms(3), of None] by (auto simp: list_all_iff)
  from connstr_read[OF this] show ?thesis
    using assms(1,2) by (simp add: get_connstr_def used_options_all)
qed

section \<open>Waiting\<close>

text \<open>
  The first wait ends exactly when the postmaster is up after some number of seconds, whatever the machine does meanwhile, and the wait for the
  shutdown when the pid file is gone.
\<close>

lemma usleep_shift: "(usleep H ^^ k) (usleep H m) = (usleep H ^^ Suc k) m"
  by (simp add: funpow_swap1)

lemma get_pgpid_in: "get_pgpid H s = pid_in H (c_pid_file s) (c_machine s)"
  by (simp add: get_pgpid_def pid_in_def)

theorem wait_postmaster_up_returns:
  "(\<exists>y. wait_postmaster_up H s = Some y) \<longleftrightarrow>
   (\<exists>k. postmaster_up H (c_pid_file s) ((usleep H ^^ k) (c_machine s)))"
  (is "?L s \<longleftrightarrow> (\<exists>k. ?up k s)")
proof
  assume "?L s"
  then obtain y where "wait_postmaster_up H s = Some y" by blast
  then show "\<exists>k. ?up k s"
  proof (induction rule: wait_postmaster_up.raw_induct [rotated, consumes 1])
    case (1 loop K t y)
    show ?case
    proof (cases "get_pgpid K t \<noteq> 0 \<and> postmaster_is_alive K (get_pgpid K t) (c_machine t)")
      case True then show ?thesis by (intro exI[of _ 0]) (simp add: get_pgpid_in postmaster_up_def)
    next
      case False
      with 1(2) have "loop K (one_second K VERBOSITY_VERBOSE t) = Some y" by simp
      from 1(1)[OF this] show ?thesis unfolding one_second_fields usleep_shift by blast
    qed
  qed
next
  assume "\<exists>k. ?up k s"
  then obtain k where "?up k s" by blast
  then show "?L s"
  proof (induction k arbitrary: s)
    case 0 then show ?case by (simp add: wait_postmaster_up.simps get_pgpid_in postmaster_up_def)
  next
    case (Suc k)
    then have "?up k (one_second H VERBOSITY_VERBOSE s)" unfolding one_second_fields usleep_shift by blast
    from Suc.IH[OF this] show ?case by (subst wait_postmaster_up.simps) simp
  qed
qed

theorem wait_postmaster_shutdown_returns:
  "(\<exists>y. wait_shutdown_loop H s = Some y) \<longleftrightarrow> (\<exists>k. pid_in H (c_pid_file s) ((usleep H ^^ k) (c_machine s)) = 0)"
  (is "?L s \<longleftrightarrow> (\<exists>k. ?down k s)")
proof
  assume "?L s"
  then obtain y where "wait_shutdown_loop H s = Some y" by blast
  then show "\<exists>k. ?down k s"
  proof (induction rule: wait_shutdown_loop.raw_induct [rotated, consumes 1])
    case (1 loop K t y)
    show ?case
    proof (cases "get_pgpid K t = 0")
      case True then show ?thesis by (intro exI[of _ 0]) (simp add: get_pgpid_in)
    next
      case False
      with 1(2) have "loop K (one_second K VERBOSITY_NORMAL t) = Some y" by simp
      from 1(1)[OF this] show ?thesis unfolding one_second_fields usleep_shift by blast
    qed
  qed
next
  assume "\<exists>k. ?down k s"
  then obtain k where "?down k s" by blast
  then show "?L s"
  proof (induction k arbitrary: s)
    case 0 then show ?case by (simp add: wait_shutdown_loop.simps get_pgpid_in)
  next
    case (Suc k)
    then have "?down k (one_second H VERBOSITY_NORMAL s)" unfolding one_second_fields usleep_shift by blast
    from Suc.IH[OF this] show ?case by (subst wait_shutdown_loop.simps) simp
  qed
qed

end
