(* ===== verification/Pgl_CloneRun.thy ===== *)
theory Pgl_CloneRun
  imports Pgl_CreateSubscriberFacts "HOL-Library.Sublist"
begin

text \<open>
  A whole run of \<open>pglogical_create_subscriber\<close>: in which order it makes the provider, the files and the new subscriber do their parts,
  so that the subscription starts exactly where the physical copy ended.
\<close>

section \<open>The order of a run\<close>

text \<open>
  What a computation asks of others: on every successful run with data directory \<open>d\<close>, the trace is extended by calls that contain a
  sequence \<open>es\<close> with \<open>R x es\<close>.
\<close>

definition emits :: "string \<Rightarrow> ('w, 'a) cs_m \<Rightarrow> ('a \<Rightarrow> call list \<Rightarrow> bool) \<Rightarrow> bool" where
  "emits d m R \<longleftrightarrow> (\<forall>s x s'. c_data_dir s = Some d \<longrightarrow> m s = Some (Inr x, s') \<longrightarrow>
     c_data_dir s' = Some d \<and> (\<exists>ts es. c_trace s' = c_trace s @ ts \<and> subseq es ts \<and> R x es))"

abbreviation quiet :: "string \<Rightarrow> ('w, 'a) cs_m \<Rightarrow> bool" where
  "quiet d m \<equiv> emits d m (\<lambda>_ es. es = [])"

definition pg_ctl_call :: "string \<Rightarrow> string \<Rightarrow> call \<Rightarrow> bool" where
  "pg_ctl_call d arg c \<longleftrightarrow> (\<exists>path opts. c = Ran (path @ '' '' @ arg @ '' -D '' @ [CHR 0x22] @ d @ [CHR 0x22] @ opts))"

text \<open>The base backup: of the server behind the connection string, into the data directory.\<close>

definition basebackup_call :: "string \<Rightarrow> string \<Rightarrow> call \<Rightarrow> bool" where
  "basebackup_call connstr d c \<longleftrightarrow> (\<exists>path opts. c = Ran (path @ '' -D '' @ [CHR 0x22] @ d @ [CHR 0x22] @ '' -d '' @ [CHR 0x22] @
     connstr @ [CHR 0x22] @ '' -X s -P'' @ opts))"

text \<open>The data directory was already filled when the run began; otherwise it was empty or not there.\<close>

definition filled_before :: "'w host \<Rightarrow> string \<Rightarrow> bool" where
  "filled_before H d \<longleftrightarrow> (\<exists>m. pg_check_dir H d m \<in> {2, 3, 4})"

text \<open>The server behind a connection answered that it is not, or no longer, in recovery.\<close>

definition recovery_query :: string where
  "recovery_query = ''SELECT pg_is_in_recovery()''"

definition recovered :: "'w host \<Rightarrow> nat \<Rightarrow> bool" where
  "recovered H conn \<longleftrightarrow> (\<exists>m m' res rest. exec_on H conn recovery_query m = (res, m') \<and>
     PQresultStatus res = PGRES_TUPLES_OK \<and> PQgetvalue res 0 0 = Inr (CHR ''f'' # rest))"

text \<open>
  The wait for the end of recovery: the last question was asked through a connection made with the given connection string, or the one
  handed in, and the answer was that recovery is over.
\<close>

definition last_question :: "string \<Rightarrow> nat option \<Rightarrow> nat \<Rightarrow> call list \<Rightarrow> bool" where
  "last_question connstr conn k es \<longleftrightarrow>
     (conn = Some k \<and> es = [Queried k recovery_query]) \<or> es = [Connected connstr k, Queried k recovery_query]"

text \<open>
  The three parts of a run, and a whole run: the position is what the provider answered to the creation of the restore point.  Every
  query goes through the connection opened before it: in the first part to the provider, in the other two to the new subscriber.
\<close>

definition clone_calls :: "'w host \<Rightarrow> cs_plan \<Rightarrow> string \<Rightarrow> string \<Rightarrow> call list \<Rightarrow> bool" where
  "clone_calls H plan slot lsn es \<longleftrightarrow> (\<exists>conn backup m m' res.
     es = [Connected (pl_provider_connstr plan) conn, Queried conn (new_slot_query H slot)] @ backup @
          [Queried conn (restore_point_query slot)] \<and>
     (if backup = [] then filled_before H (pl_data_dir plan)
      else \<exists>c. backup = [c] \<and> basebackup_call (pl_provider_connstr plan) (pl_data_dir plan) c) \<and>
     exec_on H conn (restore_point_query slot) m = (res, m') \<and> PQgetvalue res 0 0 = Inr lsn)"

definition catch_up_calls :: "'w host \<Rightarrow> cs_options \<Rightarrow> cs_plan \<Rightarrow> string \<Rightarrow> string \<Rightarrow> call list \<Rightarrow> bool" where
  "catch_up_calls H opts plan d slot es \<longleftrightarrow> (\<exists>started stopped asked conn.
     pg_ctl_call d recovery_start_arg started \<and> pg_ctl_call d ''stop'' stopped \<and> recovered H asked \<and>
     es = [Wrote (d @ ''/recovery.conf'') (recovery_conf_contents H opts plan slot), started,
           Connected (pl_subscriber_connstr plan) asked, Queried asked recovery_query,
           Connected (pl_subscriber_connstr plan) conn, Queried conn ''DROP EXTENSION pglogical CASCADE;'', stopped])"

definition subscribe_calls :: "'w host \<Rightarrow> cs_plan \<Rightarrow> string \<Rightarrow> string \<Rightarrow> string \<Rightarrow> call list \<Rightarrow> bool" where
  "subscribe_calls H plan d slot lsn es \<longleftrightarrow> (\<exists>started conn.
     pg_ctl_call d ''start'' started \<and>
     es = [started, Connected (pl_subscriber_connstr plan) conn,
           Queried conn (origin_create_query H slot), Queried conn (origin_advance_query H slot lsn),
           Queried conn (create_node_query H (pl_subscriber_name plan) (pl_subscriber_connstr plan)),
           Queried conn (create_subscription_query H (pl_subscriber_name plan) (pl_provider_connstr plan) (pl_replication_sets plan)),
           Queried conn sync_status_query])"

definition run_calls :: "'w host \<Rightarrow> cs_options \<Rightarrow> cs_plan \<Rightarrow> string \<Rightarrow> string \<Rightarrow> call list \<Rightarrow> bool" where
  "run_calls H opts plan slot lsn es \<longleftrightarrow> (\<exists>e1 e2 e3. es = e1 @ e2 @ e3 \<and> clone_calls H plan slot lsn e1 \<and>
     catch_up_calls H opts plan (pl_data_dir plan) slot e2 \<and> subscribe_calls H plan (pl_data_dir plan) slot lsn e3)"

text \<open>
  An example machine: the provider and the subscriber answer every query, \<open>pg_ctl\<close> and \<open>pg_basebackup\<close> succeed, and the pid
  file is there while the server runs.  \<open>ex_at\<close> is the state after \<open>n\<close> commands.
\<close>

definition ex_result :: "ExecStatusType \<Rightarrow> string \<Rightarrow> PGresult" where
  "ex_result st answer = \<lparr> PQresultStatus = st, res_rows = [[Some answer, Some answer, Some answer, Some answer, Some answer]],
     PQnfields = 5, PQresultErrorMessage = [] \<rparr>"

definition ex_pid_file :: string where
  "ex_pid_file = ''/data/postmaster.pid''"

definition ex_cs_host :: "nat host" where
  "ex_cs_host = \<lparr> PQconnectdb = (\<lambda>c m. (length c, m)), conn_status_ok = (\<lambda>_ _. True),
     exec_on = (\<lambda>_ q m. (if take 1 q = ''S'' then ex_result PGRES_TUPLES_OK (if take 20 q = ''SELECT pg_create_res'' then ''0/16B3748'' else ''f'')
                         else ex_result PGRES_COMMAND_OK [], m)),
     PQfinish = (\<lambda>_ m. m), PQping = (\<lambda>_ m. (PQPING_OK, m)),
     escape_literal = (\<lambda>s. [CHR 0x27] @ s @ [CHR 0x27]), escape_identifier = (\<lambda>s. s),
     PQconninfoParse = (\<lambda>c. None), escape_single_quotes_ascii = (\<lambda>s. s),
     shell = (\<lambda>cmd m. (WIFEXITED 0, \<lparr> files = (files m)(ex_pid_file := if even (outside m) then None else Some ''42''),
                         outside = outside m + 1 \<rparr>)),
     popen_fgets = (\<lambda>_ _. Some ''pg_ctl (PostgreSQL) 9.6.1''), find_my_exec = (\<lambda>a. Some (''/bin/'' @ a)),
     canonicalize_path = (\<lambda>p. p), pg_check_dir = (\<lambda>_ _. 0), stat = (\<lambda>_ _. None), io_ok = (\<lambda>_ _. True),
     usleep = (\<lambda>m. m), getpid = 7, getppid = 1, kill0 = (\<lambda>_ _. True),
     getopt_long = (\<lambda>_. [(68, ''/data''), (110, ''sub''), (1, ''prov''), (2, ''repl''), (7, [])]),
     sizeof_ControlFileData = 8, system_identifier = (\<lambda>_. 0), version_num = 90601 \<rparr>"

definition ex_cs_state :: "nat cs_state" where
  "ex_cs_state = \<lparr> c_argv0 = [], c_data_dir = None, c_pid_file = [], c_verbosity = 0, c_subscriber_conn = None, c_provider_conn = None,
     c_stdout = [], c_stderr = [], c_trace = [], c_machine = \<lparr> files = (\<lambda>_. None), outside = 0 \<rparr> \<rparr>"


definition ex_plan :: cs_plan where
  "ex_plan = \<lparr> pl_data_dir = ''/data'', pl_subscriber_name = ''sub'', pl_provider_connstr = ''dbname=prov'', pl_subscriber_connstr = ''dbname=repl'',
     pl_replication_sets = ''default,default_insert_only,ddl_sql'' \<rparr>"

definition ex_opts :: cs_options where
  "ex_opts = no_options\<lparr> op_drop_slot_if_exists := True, op_subscriber_name := Some ''sub'', op_subscriber_connstr := Some ''repl'',
     op_provider_connstr := Some ''prov'' \<rparr>"

definition runs :: "('w cs_state \<Rightarrow> bool) \<Rightarrow> ('w, 'a) cs_m \<Rightarrow> 'a \<Rightarrow> ('w cs_state \<Rightarrow> bool) \<Rightarrow> bool" where
  "runs P m x Q \<longleftrightarrow> (\<forall>s. P s \<longrightarrow> (\<exists>s'. m s = Some (Inr x, s') \<and> Q s'))"

definition ex_at :: "string \<Rightarrow> nat \<Rightarrow> nat cs_state \<Rightarrow> bool" where
  "ex_at pid n s \<longleftrightarrow> c_data_dir s = Some ''/data'' \<and> c_argv0 s = ''create'' \<and> c_verbosity s = 0 \<and> c_pid_file s = pid \<and>
     outside (c_machine s) = n \<and> files (c_machine s) ex_pid_file = (if even n then (if n = 0 then None else Some ''42'') else None)"

abbreviation ex_select :: "string \<Rightarrow> PGresult" where
  "ex_select a \<equiv> ex_result PGRES_TUPLES_OK a"

section \<open>What each part asks for\<close>

named_theorems emits_rules \<open>what a computation asks of others\<close>

lemma emits_I:
  assumes "\<And>s x s'. c_data_dir s = Some d \<Longrightarrow> m s = Some (Inr x, s') \<Longrightarrow>
    c_data_dir s' = Some d \<and> (\<exists>ts. c_trace s' = c_trace s @ ts \<and> R x ts)"
  shows "emits d m R"
  using assms unfolding emits_def by (metis subseq_order.order_refl)

lemma emits_bind:
  assumes "emits d m R" "\<And>x. emits d (f x) (S x)"
  shows "emits d (sbind m f) (\<lambda>y es. \<exists>x e1 e2. es = e1 @ e2 \<and> R x e1 \<and> S x y e2)"
  unfolding emits_def
proof (intro allI impI)
  fix s y s' assume d: "c_data_dir s = Some d" and "sbind m f s = Some (Inr y, s')"
  then obtain x t where 1: "m s = Some (Inr x, t)" and 2: "f x t = Some (Inr y, s')" by (auto simp: sbind_eq)
  obtain t1 e1 where a: "c_trace t = c_trace s @ t1" "subseq e1 t1" "R x e1" and d1: "c_data_dir t = Some d"
    using assms(1) 1 d unfolding emits_def by blast
  obtain t2 e2 where b: "c_trace s' = c_trace t @ t2" "subseq e2 t2" "S x y e2" and d2: "c_data_dir s' = Some d"
    using assms(2)[of x] 2 d1 unfolding emits_def by blast
  have "subseq (e1 @ e2) (t1 @ t2)" using a(2) b(2) by (rule list_emb_append_mono)
  with a b d2 show "c_data_dir s' = Some d \<and> (\<exists>ts es. c_trace s' = c_trace s @ ts \<and> subseq es ts \<and>
      (\<exists>x e1 e2. es = e1 @ e2 \<and> R x e1 \<and> S x y e2))" by auto
qed

lemma emits_mono: "emits d m R \<Longrightarrow> (\<And>x es. R x es \<Longrightarrow> S x es) \<Longrightarrow> emits d m S"
  unfolding emits_def by meson

lemma emits_quiet: "emits d m R \<Longrightarrow> quiet d m"
  unfolding emits_def by (meson list_emb_Nil)

lemma emits_then:
  "emits d m (\<lambda>_. R) \<Longrightarrow> quiet d k \<Longrightarrow> emits d (sthen m k) (\<lambda>_. R)"
  by (rule emits_mono, rule emits_bind) auto

lemma emits_skip [emits_rules]: "quiet d m \<Longrightarrow> (\<And>x. emits d (f x) R) \<Longrightarrow> emits d (sbind m f) R"
  by (rule emits_mono, rule emits_bind) auto

lemma emits_branch [emits_rules]:
  "(b \<Longrightarrow> emits d m R) \<Longrightarrow> (\<not> b \<Longrightarrow> emits d n R) \<Longrightarrow> emits d (if b then m else n) R"
  "(z = None \<Longrightarrow> emits d m R) \<Longrightarrow> (\<And>y. z = Some y \<Longrightarrow> emits d (k y) R) \<Longrightarrow> emits d (case z of None \<Rightarrow> m | Some y \<Rightarrow> k y) R"
  "(\<And>a b. w = (a, b) \<Longrightarrow> emits d (l a b) R) \<Longrightarrow> emits d (case w of (a, b) \<Rightarrow> l a b) R"
  by (simp_all split: option.splits prod.splits)

lemma emits_basic [emits_rules]:
  "quiet d (sret x)" "emits d (sfail e) R" "quiet d (sget g)" "quiet d (slift r)" "quiet d (say lev msg)" "quiet d (finish_conn H c)"
  by (rule emits_I; auto simp: sret_def sfail_def sget_def slift_def say_def smodify_def finish_conn_def print_msg_def)+

lemma quiet_when [emits_rules]: "quiet d u \<Longrightarrow> quiet d (swhen c u)"
  by (simp add: swhen_def emits_basic)

lemma emits_value: "emits d (sret x) (\<lambda>y es. es = [] \<and> y = x)" "emits d (slift r) (\<lambda>y es. es = [] \<and> r = Inr y)"
  by (rule emits_I; auto simp: sret_def slift_def)+

lemma emits_modify:
  "(\<And>s. c_data_dir (f s) = c_data_dir s \<and> c_trace (f s) = c_trace s) \<Longrightarrow> quiet d (smodify f)"
  by (rule emits_I) (auto simp: smodify_def)

lemma emits_die [emits_rules]: "emits d (die H msg) R"
  by (rule emits_I) (auto simp: die_def split: option.splits)

lemma die_not_ok: "die H msg s \<noteq> Some (Inr x, s')"
  by (auto simp: die_def split: option.splits)

lemma emits_die_or [emits_rules]: "quiet d (die_or H r)"
  by (auto simp: die_or_def intro: emits_rules split: sum.splits)

lemma emits_connected: "emits d (connectdb H c) (\<lambda>conn es. es = [Connected c conn])"
  by (rule emits_I) (auto simp: connectdb_def die_def Let_def split: prod.splits if_splits option.splits)

lemmas emits_connect [emits_rules] = emits_quiet [OF emits_connected]

lemma emits_query: "emits d (exec_or_die H conn st msg q)
   (\<lambda>res es. es = [Queried conn q] \<and> PQresultStatus res = st \<and> (\<exists>m m'. exec_on H conn q m = (res, m')))"
proof (rule emits_I)
  fix s x s' assume "c_data_dir s = Some d" "exec_or_die H conn st msg q s = Some (Inr x, s')"
  then show "c_data_dir s' = Some d \<and> (\<exists>ts. c_trace s' = c_trace s @ ts \<and> ts = [Queried conn q] \<and> PQresultStatus x = st \<and> (\<exists>m m'. exec_on H conn q m = (x, m')))"
    by (auto simp: exec_or_die_def sbind_eq c_exec_def die_def sret_def split: prod.splits if_splits option.splits)
qed

lemmas quiet_query [emits_rules] = emits_quiet [OF emits_query]

lemma emits_exec: "emits d (c_exec H conn q) (\<lambda>res es. es = [Queried conn q] \<and> (\<exists>m m'. exec_on H conn q m = (res, m')))"
  by (rule emits_I) (auto simp: c_exec_def split: prod.splits)

lemma quiet_find [emits_rules]: "quiet d (find_other_exec_or_die H target)"
  unfolding emits_def find_other_exec_or_die_def
  by (intro allI impI) (rule emits_die_or [unfolded emits_def, rule_format])

lemma c_system_fields: "c_system H cmd s = (ret, s') \<Longrightarrow> c_data_dir s' = c_data_dir s \<and> c_trace s' = c_trace s @ [Ran cmd]"
  by (auto simp: c_system_def Let_def split: prod.splits)

lemma emits_system: "emits d (\<lambda>s. case c_system H cmd s of (ret, s') \<Rightarrow> Some (Inr ret, s')) (\<lambda>_ es. es = [Ran cmd])"
  by (rule emits_I) (auto split: prod.splits dest!: c_system_fields)

lemma emits_basebackup: "emits d (run_basebackup H connstr dir) (\<lambda>_ es. \<exists>c. es = [c] \<and> basebackup_call connstr dir c)"
  unfolding run_basebackup_def Let_def
  apply (rule emits_skip [OF quiet_find])
  apply (rule emits_skip [OF emits_basic(3)])
  apply (rule emits_skip [OF emits_basic(5)])
  apply (rule emits_mono)
   apply (rule emits_bind [OF emits_system, where S = "\<lambda>_ _ es. es = []"])
   apply (auto intro!: emits_rules split: wait_status.splits)[1]
  apply (fastforce simp: basebackup_call_def)
  done

lemma emits_check_dir: "emits d (check_data_dir H dir) (\<lambda>there es. es = [] \<and> (there \<longrightarrow> filled_before H dir))"
proof (rule emits_I)
  fix s :: "'a cs_state" and x s' assume "c_data_dir s = Some d" "check_data_dir H dir s = Some (Inr x, s')"
  then show "c_data_dir s' = Some d \<and> (\<exists>ts. c_trace s' = c_trace s @ ts \<and> ts = [] \<and> (x \<longrightarrow> filled_before H dir))"
    by (auto simp: check_data_dir_def filled_before_def sbind_simps sbind_eq sget_def sret_def die_not_ok split: if_splits)
qed

lemma quiet_provider_steps [emits_rules]:
  "quiet d (extension_exists H conn ext)" "quiet d (get_remote_info H conn)" "quiet d (drop_existing_slot H conn slot dr)"
  "quiet d (read_sysid H dir)"
  unfolding extension_exists_def get_remote_info_def drop_existing_slot_def read_sysid_def Let_def
  by (intro emits_rules)+

lemma die_fails: "die H msg s = Some y \<Longrightarrow> \<exists>e. fst y = Inl e"
  by (auto simp: die_def split: option.splits)

lemma copy_loop_keeps:
  "copy_loop H a b n s = Some y \<Longrightarrow> fst y = Inr () \<Longrightarrow> c_data_dir (snd y) = c_data_dir s \<and> c_trace (snd y) = c_trace s"
  by (induction rule: copy_loop.raw_induct [rotated, consumes 1]) (force simp: Let_def dest: die_fails split: if_splits)

lemma wait_up_keeps:
  "wait_postmaster_up H s = Some y \<Longrightarrow> c_data_dir (snd y) = c_data_dir s \<and> c_trace (snd y) = c_trace s"
  by (induction rule: wait_postmaster_up.raw_induct [rotated, consumes 1]) (auto split: if_splits)

lemma wait_ping_keeps:
  "wait_postmaster_ping H c p s = Some y \<Longrightarrow> c_data_dir (snd y) = c_data_dir s \<and> c_trace (snd y) = c_trace s"
  by (induction rule: wait_postmaster_ping.raw_induct [rotated, consumes 1]) (auto simp: Let_def split: if_splits prod.splits)

lemma wait_shutdown_keeps:
  "wait_shutdown_loop H s = Some y \<Longrightarrow> c_data_dir (snd y) = c_data_dir s \<and> c_trace (snd y) = c_trace s"
  by (induction rule: wait_shutdown_loop.raw_induct [rotated, consumes 1]) (auto split: if_splits)

lemma quiet_loops [emits_rules]:
  "quiet d (copy_loop H a b n)" "quiet d (wait_postmaster_up H)" "quiet d (wait_postmaster_ping H c p)" "quiet d (wait_shutdown_loop H)"
  using copy_loop_keeps wait_up_keeps wait_ping_keeps wait_shutdown_keeps by (intro emits_I; fastforce)+

lemma quiet_files [emits_rules]:
  "quiet d (copy_file H a b)" "quiet d (CopyConfFile H a b)" "quiet d (open_log H)"
  unfolding copy_file_def CopyConfFile_def open_log_def
  by (intro emits_rules emits_modify; simp)+

lemma emits_data_dir: "emits d (initialize_data_dir H dir c pc hc)
   (\<lambda>_ es. case c of None \<Rightarrow> es = [] | Some connstr \<Rightarrow> \<exists>b. es = [b] \<and> basebackup_call connstr dir b)"
proof -
  have q: "quiet d (sthen (case pc of None \<Rightarrow> sret () | Some f \<Rightarrow> CopyConfFile H f ''postgresql.conf'')
      (case hc of None \<Rightarrow> sret () | Some f \<Rightarrow> CopyConfFile H f ''pg_hba.conf''))"
    by (intro emits_rules)
  show ?thesis
  proof (cases c)
    case None
    then show ?thesis using q emits_skip [OF emits_basic(1) q] by (simp add: initialize_data_dir_def)
  next
    case (Some k)
    show ?thesis
      unfolding initialize_data_dir_def Some option.case
      by (rule emits_then [OF emits_skip [OF emits_basic(5) emits_basebackup] q])
  qed
qed

lemma quiet_connection [emits_rules]: "quiet d (wait_postmaster_connection H c)" "quiet d (wait_postmaster_shutdown H)"
  unfolding wait_postmaster_connection_def wait_postmaster_shutdown_def by (intro emits_rules)+

lemma emits_reconnect:
  "emits d (reconnect H connstr conn) (\<lambda>k es. (conn = Some k \<and> es = []) \<or> es = [Connected connstr k])"
proof (cases conn)
  case None
  show ?thesis
    unfolding reconnect_def None option.case
    by (rule emits_skip [OF emits_basic(3)], rule emits_skip [OF quiet_connection(1)], rule emits_mono [OF emits_connected]) simp
next
  case (Some c)
  have "emits d (sret c) (\<lambda>k es. (Some c = Some k \<and> es = []) \<or> es = [Connected connstr k])"
    by (rule emits_mono [OF emits_value(1)]) simp
  moreover have "emits d (connectdb H connstr) (\<lambda>k es. (Some c = Some k \<and> es = []) \<or> es = [Connected connstr k])"
    by (rule emits_mono [OF emits_connected]) simp
  ultimately show ?thesis
    unfolding reconnect_def Some option.case
    by (intro emits_skip emits_basic emits_branch quiet_connection)
qed

lemma answered_recovered:
  assumes "exec_on H k recovery_query m = (res, m')" "answers_primary res = Inr True"
  shows "recovered H k"
proof -
  obtain v where v: "PQgetvalue res 0 0 = Inr v" "v \<noteq> []" "hd v = CHR ''f''" "PQresultStatus res = PGRES_TUPLES_OK"
    using assms(2) by (auto simp: answers_primary_def rbind_def split: if_splits sum.splits)
  then have "v = CHR ''f'' # tl v" by (cases v) auto
  with assms(1) v show ?thesis unfolding recovered_def by metis
qed

lemma emits_ask:
  "emits d (ask_primary H connstr conn) (\<lambda>(k, over) es. last_question connstr conn k es \<and> (over \<longrightarrow> recovered H k))"
  unfolding ask_primary_def
  apply (rule emits_mono)
   apply (rule emits_bind [OF emits_reconnect])
   apply (rule emits_bind [OF emits_exec])
   apply (rule emits_bind [OF emits_value(2) emits_value(1)])
  apply (auto simp: last_question_def recovery_query_def intro: answered_recovered [unfolded recovery_query_def])
  done

lemma last_question_trans:
  assumes "last_question cs conn c e1" "subseq e1 t1" "last_question cs (Some c) k e2" "subseq e2 t2"
  shows "\<exists>es. last_question cs conn k es \<and> subseq es (t1 @ t2)"
proof (cases "e2 = [Connected cs k, Queried k recovery_query]")
  case True
  then show ?thesis using assms(4) unfolding last_question_def by (metis list_emb_append2)
next
  case False
  then have k: "k = c" "e2 = [Queried k recovery_query]" using assms(3) by (auto simp: last_question_def)
  show ?thesis
  proof (cases "e1 = [Connected cs c, Queried c recovery_query]")
    case True
    then have "subseq [Connected cs c] t1" using assms(2) by (auto intro: subseq_order.order_trans)
    then have "subseq ([Connected cs c] @ e2) (t1 @ t2)" using assms(4) by (rule list_emb_append_mono)
    then show ?thesis using k unfolding last_question_def by auto
  next
    case False
    then have "conn = Some c" using assms(1) by (auto simp: last_question_def)
    then show ?thesis using k assms(4) unfolding last_question_def by (metis list_emb_append2)
  qed
qed

lemma emits_primary_loop:
  "emits d (wait_primary_loop H cs conn) (\<lambda>k es. last_question cs conn k es \<and> recovered H k)"
  unfolding emits_def
proof (intro allI impI)
  fix s k s' assume d: "c_data_dir s = Some d" and r: "wait_primary_loop H cs conn s = Some (Inr k, s')"
  have "wait_primary_loop H cs conn s = Some y \<Longrightarrow> fst y = Inr k \<Longrightarrow> c_data_dir s = Some d \<Longrightarrow>
     c_data_dir (snd y) = Some d \<and> (\<exists>ts es. c_trace (snd y) = c_trace s @ ts \<and> subseq es ts \<and> last_question cs conn k es \<and> recovered H k)"
    for H cs conn s y
  proof (induction rule: wait_primary_loop.raw_induct [rotated, consumes 1])
    case (1 loop H cs conn s y)
    then obtain c over t where a: "ask_primary H cs conn s = Some (Inr (c, over), t)"
      by (auto split: option.splits sum.splits prod.splits)
    obtain t1 e1 where t: "c_data_dir t = Some d" "c_trace t = c_trace s @ t1" "subseq e1 t1" "last_question cs conn c e1"
        "over \<longrightarrow> recovered H c"
      using emits_ask [unfolded emits_def, rule_format, OF 1(4) a] by auto
    show ?case
    proof (cases over)
      case True
      then show ?thesis using 1(2,3) a t by auto
    next
      case False
      then have "loop H cs (Some c) (one_second H VERBOSITY_VERBOSE t) = Some y" using 1(2) a by simp
      from 1(1) [OF this 1(3)] t last_question_trans [OF t(4,3)] show ?thesis by fastforce
    qed
  qed
  from this [OF r _ d] show "c_data_dir s' = Some d \<and>
      (\<exists>ts es. c_trace s' = c_trace s @ ts \<and> subseq es ts \<and> last_question cs conn k es \<and> recovered H k)" by simp
qed

lemma emits_primary: "emits d (wait_primary_connection H cs)
   (\<lambda>_ es. \<exists>k. es = [Connected cs k, Queried k recovery_query] \<and> recovered H k)"
proof -
  have q: "quiet d (sthen (finish_conn H k) (say VERBOSITY_VERBOSE [CHR 0x0A]))" for k
    by (intro emits_rules)
  show ?thesis
    unfolding wait_primary_connection_def
    apply (rule emits_skip [OF quiet_connection(1)])
    apply (rule emits_skip [OF emits_basic(5)])
    apply (rule emits_mono)
     apply (rule emits_bind [OF emits_primary_loop q])
    apply (auto simp: last_question_def)
    done
qed

lemma emits_pg_ctl: "emits d (pg_ctl_or_die H arg msg) (\<lambda>_ es. \<exists>c. es = [c] \<and> pg_ctl_call d arg c)"
proof (rule emits_I)
  fix s :: "'a cs_state" and x s' assume d: "c_data_dir s = Some d" and "pg_ctl_or_die H arg msg s = Some (Inr x, s')"
  then obtain ret t where t: "run_pg_ctl H arg s = Some (Inr ret, t)" and "s' = t"
    by (auto simp: pg_ctl_or_die_def sbind_eq sret_def die_not_ok split: if_splits)
  then obtain path st where "c_system H (pg_ctl_cmd path arg s) (print_msg VERBOSITY_DEBUG ''Running pg_ctl: %s.'' s) = (st, s')"
    by (auto simp: run_pg_ctl_def try_pg_ctl_def die_or_def die_not_ok sret_def sfail_def Let_def
        split: sum.splits prod.splits wait_status.splits)
  from c_system_fields [OF this] d
  show "c_data_dir s' = Some d \<and> (\<exists>ts. c_trace s' = c_trace s @ ts \<and> (\<exists>c. ts = [c] \<and> pg_ctl_call d arg c))"
    by (auto simp: pg_ctl_call_def pg_ctl_cmd_def the_data_dir_def)
qed

lemma emits_recovery_conf:
  "emits d (WriteRecoveryConf H contents) (\<lambda>_ es. es = [Wrote (d @ ''/recovery.conf'') contents])"
  by (rule emits_I) (auto simp: WriteRecoveryConf_def Let_def die_not_ok the_data_dir_def split: if_splits)

lemma emits_slot:
  "emits d (initialize_replication_slot H conn dbname node sub dr) (\<lambda>slot es. es = [Queried conn (new_slot_query H slot)])"
  unfolding initialize_replication_slot_def
  by (rule emits_skip [OF quiet_query], rule emits_skip [OF emits_basic(4)], rule emits_skip [OF quiet_provider_steps(3)],
      rule emits_mono, rule emits_bind [OF emits_query emits_value(1)], auto)

lemma emits_restore_point:
  "emits d (create_restore_point H conn name) (\<lambda>lsn es. es = [Queried conn (restore_point_query name)] \<and>
     (\<exists>m m' res. exec_on H conn (restore_point_query name) m = (res, m') \<and> PQgetvalue res 0 0 = Inr lsn))"
  unfolding create_restore_point_def by (rule emits_mono, rule emits_bind [OF emits_query emits_value(2)]) auto

lemma emits_clean: "emits d (remove_unwanted_data H conn) (\<lambda>_ es. es = [Queried conn ''DROP EXTENSION pglogical CASCADE;''])"
  unfolding remove_unwanted_data_def
  by (rule emits_skip [OF quiet_query], rule emits_mono, rule emits_bind [OF emits_query emits_value(1)], auto)

lemma emits_origin: "emits d (initialize_replication_origin H conn name (Some lsn))
   (\<lambda>_ es. es = [Queried conn (origin_create_query H name), Queried conn (origin_advance_query H name lsn)])"
  unfolding initialize_replication_origin_def option.case
  by (rule emits_mono, rule emits_bind [OF emits_query emits_bind [OF emits_query emits_value(1)]]) auto

lemma emits_subscribe: "emits d (pglogical_subscribe H conn name sdsn pdsn sets)
   (\<lambda>_ es. es = [Queried conn (create_node_query H name sdsn), Queried conn (create_subscription_query H name pdsn sets),
      Queried conn sync_status_query])"
  unfolding pglogical_subscribe_def
  by (rule emits_mono, rule emits_bind [OF emits_query emits_bind [OF emits_query emits_bind [OF emits_query emits_value(1)]]]) auto

lemma emits_with_subscriber:
  assumes "\<And>conn. emits d (work conn) (\<lambda>_. R conn)"
  shows "emits d (with_subscriber H plan work) (\<lambda>_ es. \<exists>conn e. es = Connected (pl_subscriber_connstr plan) conn # e \<and> R conn e)"
proof -
  have "emits d (sthen (smodify (\<lambda>s. s\<lparr> c_subscriber_conn := Some conn \<rparr>)) (sthen (work conn)
      (sthen (finish_conn H conn) (smodify (\<lambda>s. s\<lparr> c_subscriber_conn := None \<rparr>))))) (\<lambda>_. R conn)" for conn
    by (intro emits_skip emits_modify emits_then assms emits_basic) simp_all
  then show ?thesis
    unfolding with_subscriber_def by (intro emits_mono [OF emits_bind [OF emits_connected]]) auto
qed

lemma emits_append:
  "emits d m (\<lambda>_. R) \<Longrightarrow> emits d k (\<lambda>_. S) \<Longrightarrow> emits d (sthen m k) (\<lambda>_ es. \<exists>e1 e2. es = e1 @ e2 \<and> R e1 \<and> S e2)"
  by (rule emits_mono, rule emits_bind) auto

lemma emits_identify: "emits d (identify_provider H plan) (\<lambda>(conn, _, there) es.
   es = [Connected (pl_provider_connstr plan) conn] \<and> (there \<longrightarrow> filled_before H (pl_data_dir plan)))"
proof -
  have m: "quiet d (smodify (\<lambda>s. s\<lparr> c_provider_conn := c \<rparr>))" for c
    by (rule emits_modify) simp
  have e: "emits d (if there then sbind (read_sysid H (pl_data_dir plan)) (\<lambda>sysid.
        if ri_sysid ri \<noteq> sysid then die H msg else sret (conn, ri, True)) else sret (conn, ri, False))
      (\<lambda>x es. es = [] \<and> fst x = conn \<and> snd (snd x) = there)" for there ri conn msg
  proof -
    have v: "emits d (sret (conn, ri, b)) (\<lambda>x es. es = [] \<and> fst x = conn \<and> snd (snd x) = b)" for b
      by (rule emits_mono [OF emits_value(1)]) auto
    have "emits d (sbind (read_sysid H (pl_data_dir plan)) (\<lambda>sysid.
        if ri_sysid ri \<noteq> sysid then die H msg else sret (conn, ri, True))) (\<lambda>x es. es = [] \<and> fst x = conn \<and> snd (snd x) = True)"
      by (intro emits_skip [OF quiet_provider_steps(4)] emits_branch(1) emits_die v)
    then show ?thesis using v [of False] by (cases there) simp_all
  qed
  show ?thesis
    unfolding identify_provider_def
    apply (rule emits_skip [OF emits_basic(5)])
    apply (rule emits_mono)
     apply (rule emits_bind [OF emits_connected])
     apply (rule emits_skip [OF m])
     apply (rule emits_skip [OF quiet_provider_steps(2)])
     apply (rule emits_bind [OF emits_check_dir])
     apply (rule e)
    apply auto
    done
qed

lemma emits_clone: "emits d (clone_provider H opts plan) (\<lambda>p. clone_calls H plan (fst p) (snd p))"
proof -
  have m: "quiet d (smodify (\<lambda>s. s\<lparr> c_pid_file := v \<rparr>))" "quiet d (smodify (\<lambda>s. s\<lparr> c_provider_conn := c \<rparr>))" for v c
    by (rule emits_modify; simp)+
  have "emits d (case x of (conn, remote_info, there) \<Rightarrow>
     sthen (say VERBOSITY_NORMAL ''Creating replication slot ...'')
    (sbind (initialize_replication_slot H conn (ri_dbname remote_info) (ri_node_name remote_info) (pl_subscriber_name plan)
              (op_drop_slot_if_exists opts)) (\<lambda>slot_name.
     sthen (initialize_data_dir H (pl_data_dir plan) (if there then None else Some (pl_provider_connstr plan))
              (op_postgresql_conf opts) (op_pg_hba_conf opts))
    (sthen (smodify (\<lambda>s. s\<lparr> c_pid_file := c_snprintf MAXPGPATH (pl_data_dir plan @ ''/postmaster.pid'') \<rparr>))
    (sthen (say VERBOSITY_NORMAL ''Creating restore point on remote node ...'')
    (sbind (create_restore_point H conn slot_name) (\<lambda>remote_lsn.
     sthen (finish_conn H conn)
    (sthen (smodify (\<lambda>s. s\<lparr> c_provider_conn := None \<rparr>)) (sret (slot_name, remote_lsn))))))))))
     (\<lambda>(slot, lsn) es. \<exists>backup m m' res.
        es = [Queried (fst x) (new_slot_query H slot)] @ backup @ [Queried (fst x) (restore_point_query slot)] \<and>
        (if snd (snd x) then backup = [] else \<exists>c. backup = [c] \<and> basebackup_call (pl_provider_connstr plan) (pl_data_dir plan) c) \<and>
        exec_on H (fst x) (restore_point_query slot) m = (res, m') \<and> PQgetvalue res 0 0 = Inr lsn)" for x
    apply (rule emits_branch)+
    apply (rule emits_skip [OF emits_basic(5)])
    apply (rule emits_mono)
     apply (rule emits_bind [OF emits_slot])
     apply (rule emits_bind [OF emits_data_dir])
     apply (rule emits_skip [OF m(1)])
     apply (rule emits_skip [OF emits_basic(5)])
     apply (rule emits_bind [OF emits_restore_point])
     apply (rule emits_skip [OF emits_basic(6)])
     apply (rule emits_skip [OF m(2)])
     apply (rule emits_value)
    apply (fastforce split: if_splits)
    done
  then show ?thesis
    unfolding clone_provider_def
    by (rule emits_mono [OF emits_bind [OF emits_identify]]) (fastforce simp: clone_calls_def split: if_splits)
qed

lemma emits_catch_up: "emits d (catch_up H opts plan slot) (\<lambda>_. catch_up_calls H opts plan d slot)"
proof -
  have q: "quiet d (case op_recovery_conf opts of None \<Rightarrow> sret () | Some f \<Rightarrow> CopyConfFile H f ''recovery.conf'')"
    by (intro emits_rules)
  show ?thesis
    unfolding catch_up_def
    apply (rule emits_skip [OF emits_basic(5)])
    apply (rule emits_skip [OF q])
    apply (rule emits_mono)
     apply (rule emits_append [OF emits_recovery_conf])
     apply (rule emits_append [OF emits_pg_ctl])
     apply (rule emits_append [OF emits_primary])
     apply (rule emits_skip [OF emits_basic(5)])
     apply (rule emits_append [OF emits_with_subscriber [OF emits_clean]])
     apply (rule emits_then [OF emits_pg_ctl quiet_connection(2)])
    apply (auto simp: catch_up_calls_def)
    done
qed

lemma emits_start: "emits d (subscribe H plan slot lsn) (\<lambda>_. subscribe_calls H plan d slot lsn)"
proof -
  have i: "quiet d (install_extension H conn ext)" for conn ext
    unfolding install_extension_def by (intro emits_rules)
  show ?thesis
    unfolding subscribe_def
    apply (rule emits_skip [OF emits_basic(5)])
    apply (rule emits_mono)
     apply (rule emits_append [OF emits_pg_ctl])
     apply (rule emits_skip [OF quiet_connection(1)])
     apply (rule emits_with_subscriber)
     apply (rule emits_skip [OF emits_basic(5)])
     apply (rule emits_skip [OF i])
     apply (rule emits_skip [OF emits_basic(5)])
     apply (rule emits_append [OF emits_origin])
     apply (rule emits_skip [OF emits_basic(5)])
     apply (rule emits_skip [OF emits_basic(5)])
     apply (rule emits_subscribe)
    apply (auto simp: subscribe_calls_def)
    done
qed

lemma sanity_checks_plan: "sanity_checks H opts s = Some (Inr plan, s') \<Longrightarrow> s' = s \<and> c_data_dir s = Some (pl_data_dir plan)"
  by (auto simp: sanity_checks_def sbind_eq sget_def usage_exit_def smodify_def sfail_def die_or_def die_not_ok sret_def
      split: option.splits sum.splits if_splits)

lemma emits_run:
  "emits (pl_data_dir plan) (sbind (clone_provider H opts plan) (\<lambda>(slot, lsn).
      sthen (catch_up H opts plan slot) (sthen (subscribe H plan slot lsn)
     (sthen (swhen (op_stop opts) (stop_at_end H)) (sthen (say VERBOSITY_NORMAL ''All done'') (sret 0))))))
   (\<lambda>_ es. \<exists>slot lsn. run_calls H opts plan slot lsn es)"
proof -
  let ?d = "pl_data_dir plan"
  have r: "quiet ?d (sthen (swhen (op_stop opts) (stop_at_end H)) (sthen (say VERBOSITY_NORMAL ''All done'') (sret 0)))"
    unfolding stop_at_end_def by (intro emits_rules emits_quiet [OF emits_pg_ctl])
  have a: "emits ?d (case p of (slot, lsn) \<Rightarrow> sthen (catch_up H opts plan slot) (sthen (subscribe H plan slot lsn)
      (sthen (swhen (op_stop opts) (stop_at_end H)) (sthen (say VERBOSITY_NORMAL ''All done'') (sret 0)))))
      (\<lambda>_ es. \<exists>e1 e2. es = e1 @ e2 \<and> catch_up_calls H opts plan ?d (fst p) e1 \<and> subscribe_calls H plan ?d (fst p) (snd p) e2)" for p
    unfolding case_prod_unfold by (rule emits_append [OF emits_catch_up emits_then [OF emits_start r]])
  show ?thesis
    by (rule emits_mono, rule emits_bind [OF emits_clone a]) (unfold run_calls_def, blast)
qed

section \<open>The whole run\<close>

text \<open>
  C13.  When \<open>pglogical_create_subscriber\<close> succeeds, it did, in this order, with the options it was given.  On a connection made with the
  provider's connection string: create the slot; unless the data directory was filled before, take a base backup of that provider into
  it; create the restore point named as the slot.  Then write the recovery target with that name to the data directory's
  \<open>recovery.conf\<close> and start the copy without pglogical; ask on a connection made with the subscriber's connection string whether the
  server is still in recovery, until it answers that recovery is over; only then, on another connection made with the subscriber's
  connection string, drop the copied pglogical configuration, and stop the server.  Then start it again and, all on one connection made
  with the subscriber's connection string, create the replication origin named as the slot, advance it to the position the provider
  answered for the restore point, create the node and the subscription, without copying, and mark it ready.  So the stream of the slot,
  which begins before the restore point, resumes at the point where the physical copy ended.
\<close>

theorem subscriber_starts_at_restore_point:
  assumes "create_subscriber_main H argv s = Some (Inr code, s')"
  shows "\<exists>opts plan t slot lsn es.
    parse_options H (getopt_long H argv) no_options (s\<lparr> c_argv0 := hd argv \<rparr>) = Some (Inr opts, t) \<and>
    sanity_checks H opts t = Some (Inr plan, t) \<and> run_calls H opts plan slot lsn es \<and> subseq es (c_trace s')"
proof -
  obtain a args where argv: "argv = a # args" using assms by (cases argv) (auto simp: create_subscriber_main_def sfail_def)
  obtain opts t where p: "parse_options H (getopt_long H argv) no_options (s\<lparr> c_argv0 := hd argv \<rparr>) = Some (Inr opts, t)"
    and "sbind (sanity_checks H opts) (\<lambda>plan. sthen (open_log H) (sthen (say VERBOSITY_NORMAL ''%s: starting ...'')
        (sbind (clone_provider H opts plan) (\<lambda>(slot, lsn). sthen (catch_up H opts plan slot) (sthen (subscribe H plan slot lsn)
        (sthen (swhen (op_stop opts) (stop_at_end H)) (sthen (say VERBOSITY_NORMAL ''All done'') (sret 0)))))))) t = Some (Inr code, s')"
    using assms argv by (auto simp: create_subscriber_main_def sbind_simps sbind_eq [of _ _ _ "Inr code"] sfail_def split: if_splits)
  then obtain plan t' where c: "sanity_checks H opts t = Some (Inr plan, t')"
    and r: "sthen (open_log H) (sthen (say VERBOSITY_NORMAL ''%s: starting ...'')
        (sbind (clone_provider H opts plan) (\<lambda>(slot, lsn). sthen (catch_up H opts plan slot) (sthen (subscribe H plan slot lsn)
        (sthen (swhen (op_stop opts) (stop_at_end H)) (sthen (say VERBOSITY_NORMAL ''All done'') (sret 0))))))) t' = Some (Inr code, s')"
    by (simp only: sbind_eq [of "sanity_checks _ _"]) blast
  from sanity_checks_plan [OF c] have d: "t' = t" "c_data_dir t = Some (pl_data_dir plan)" by simp_all
  obtain ts es slot lsn where "c_trace s' = c_trace t @ ts" "subseq es ts" "run_calls H opts plan slot lsn es"
    using emits_skip [OF quiet_files(3) emits_skip [OF emits_basic(5) emits_run], unfolded emits_def, rule_format, OF d(2) r [unfolded d(1)]]
    by blast
  then show ?thesis using p c d(1) by (metis list_emb_append2)
qed

section \<open>An example run\<close>

lemma ex_fields:
  "PQconnectdb ex_cs_host c m = (length c, m)" "conn_status_ok ex_cs_host n m = True"
  "exec_on ex_cs_host n q m = (if take 1 q = ''S'' then ex_result PGRES_TUPLES_OK (if take 20 q = ''SELECT pg_create_res'' then ''0/16B3748'' else ''f'')
                         else ex_result PGRES_COMMAND_OK [], m)"
  "PQfinish ex_cs_host n m = m" "PQping ex_cs_host c m = (PQPING_OK, m)"
  "shell ex_cs_host c m = (WIFEXITED 0, \<lparr> files = (files m)(ex_pid_file := if even (outside m) then None else Some ''42''),
                         outside = outside m + 1 \<rparr>)"
  "pg_check_dir ex_cs_host c m = 0" "stat ex_cs_host c m = None" "io_ok ex_cs_host i m = True" "usleep ex_cs_host m = m"
  "getpid ex_cs_host = 7" "getppid ex_cs_host = 1" "kill0 ex_cs_host p m = True"
  "getopt_long ex_cs_host argv = [(68, ''/data''), (110, ''sub''), (1, ''prov''), (2, ''repl''), (7, [])]"
  "popen_fgets ex_cs_host c m = Some ''pg_ctl (PostgreSQL) 9.6.1''" "find_my_exec ex_cs_host c = Some (''/bin/'' @ c)" "canonicalize_path ex_cs_host c = c"
  "version_num ex_cs_host = 90601"
  by (simp_all add: ex_cs_host_def)

lemma ex_version: "scan_version ''pg_ctl (PostgreSQL) 9.6.1'' = Some (9, 6)"
  by code_simp
lemma ex_dir: "dir_of (''/bin/'' @ ''create'') = Some ''/bin''"
  by (simp add: dir_of_def)

lemma ex_find: "find_other_exec ex_cs_host ''create'' target m = Inr (Inr (take 1023 (''/bin/'' @ target)))"
  by (simp add: find_other_exec_def find_other_exec_version_fe_def ex_fields ex_version ex_dir[unfolded append.simps] c_snprintf_def Let_def)

lemma ex_pid: "scan_long ''42'' = Some (42, [])" by code_simp

lemma ex_conn: "get_connstr ex_cs_host (Some ''prov'') None = Inr ''dbname=prov''" "get_connstr ex_cs_host (Some ''repl'') None = Inr ''dbname=repl''"
  by (simp_all add: get_connstr_def is_connstr_def starts_with_def PQconninfoParamsToConnstr_def appendPQExpBufferConnstrValue_def plain_char_def byte_val_def)

lemma ex_parse: "parse_options ex_cs_host (getopt_long ex_cs_host argv) no_options s = Some (Inr ex_opts, s\<lparr> c_data_dir := Some ''/data'' \<rparr>)"
  by (simp add: ex_fields parse_option_def sbind_assoc sbind_simps ex_opts_def no_options_def) (simp add: sret_def)

lemma ex_sanity: "c_data_dir s = Some ''/data'' \<Longrightarrow> sanity_checks ex_cs_host ex_opts s = Some (Inr ex_plan, s)"
  by (simp add: sanity_checks_def sbind_simps ex_opts_def no_options_def die_or_def ex_conn ex_plan_def) (simp add: sret_def)

lemma runs_bind: "runs P m x Q \<Longrightarrow> runs Q (f x) y R \<Longrightarrow> runs P (sbind m f) y R"
  by (fastforce simp: runs_def sbind_def)

lemma runs_basic:
  "runs (ex_at p n) (sret x) x (ex_at p n)" "runs (ex_at p n) (slift (Inr y)) y (ex_at p n)"
  "runs (ex_at p n) (say l msg) () (ex_at p n)" "runs (ex_at p n) (finish_conn ex_cs_host c) () (ex_at p n)"
  "runs (ex_at p n) (sget c_verbosity) 0 (ex_at p n)"
  "runs (ex_at p n) (connectdb ex_cs_host cs) (length cs) (ex_at p n)"
  "runs (ex_at p n) (smodify (\<lambda>s. s\<lparr> c_provider_conn := c' \<rparr>)) () (ex_at p n)"
  "runs (ex_at p n) (smodify (\<lambda>s. s\<lparr> c_subscriber_conn := c' \<rparr>)) () (ex_at p n)"
  "runs (ex_at p n) (smodify (\<lambda>s. s\<lparr> c_pid_file := p' \<rparr>)) () (ex_at p' n)"
  by (auto simp: runs_def ex_at_def sret_def slift_def say_def smodify_def finish_conn_def sget_def connectdb_def print_msg_def ex_fields)

lemma runs_select: "take 20 (CHR ''S'' # q) \<noteq> ''SELECT pg_create_res'' \<Longrightarrow>
    runs (ex_at p n) (exec_or_die ex_cs_host c PGRES_TUPLES_OK msg (CHR ''S'' # q)) (ex_select ''f'') (ex_at p n)"
  and runs_restore: "take 20 (CHR ''S'' # q) = ''SELECT pg_create_res'' \<Longrightarrow>
    runs (ex_at p n) (exec_or_die ex_cs_host c PGRES_TUPLES_OK msg (CHR ''S'' # q)) (ex_select ''0/16B3748'') (ex_at p n)"
  and runs_command: "d \<noteq> CHR ''S'' \<Longrightarrow>
    runs (ex_at p n) (exec_or_die ex_cs_host c PGRES_COMMAND_OK msg (d # q)) (ex_result PGRES_COMMAND_OK []) (ex_at p n)"
  by (auto simp: runs_def exec_or_die_def sbind_def c_exec_def ex_fields ex_result_def sret_def ex_at_def)

lemma ex_result_value: "PQgetvalue (ex_result st a) 0 k = (if k < 5 then Inr a else Inl NullDereference)" "PQntuples (ex_result st a) = 1"
  by (auto simp: PQgetvalue_def ex_result_def PQntuples_def less_Suc_eq numeral_eq_Suc)

lemma runs_remote_info: "\<exists>ri. runs (ex_at p n) (get_remote_info ex_cs_host c) ri (ex_at p n)"
  unfolding get_remote_info_def extension_exists_def
  apply (rule exI)
  apply (rule runs_bind)
   apply (rule runs_bind)
    apply simp
    apply (rule runs_select, simp)
   apply (rule runs_basic)
  apply (simp add: ex_result_value)
  apply (rule runs_bind, rule runs_select, simp)
  apply (simp add: ex_result_value)
  apply (rule runs_bind, rule runs_basic)+
  apply (rule runs_basic)
  done

lemma runs_identify: "\<exists>ri. runs (ex_at p n) (identify_provider ex_cs_host ex_plan) (11, ri, False) (ex_at p n)"
proof -
  obtain ri where ri: "runs (ex_at p n) (get_remote_info ex_cs_host 11) ri (ex_at p n)" using runs_remote_info by blast
  have c: "runs (ex_at p n) (check_data_dir ex_cs_host dir) False (ex_at p n)" for dir
    by (simp add: check_data_dir_def runs_def sbind_simps ex_fields) (simp add: sret_def)
  have l: "length (pl_provider_connstr ex_plan) = 11" by (simp add: ex_plan_def)
  have "runs (ex_at p n) (identify_provider ex_cs_host ex_plan) (11, ri, False) (ex_at p n)"
    unfolding identify_provider_def
    by (rule runs_bind, rule runs_basic, rule runs_bind, rule runs_basic(6), unfold l, rule runs_bind, rule runs_basic(7),
        rule runs_bind, rule ri, rule runs_bind, rule c, simp, rule runs_basic)
  then show ?thesis by blast
qed

lemma runs_slot: "runs (ex_at p n) (initialize_replication_slot ex_cs_host c db node sub True) ''f'' (ex_at p n)"
proof -
  have q: "runs (ex_at p n) (exec_or_die ex_cs_host c PGRES_TUPLES_OK msg (gen_slot_name_query ex_cs_host db node sub)) (ex_select ''f'') (ex_at p n)"
     "runs (ex_at p n) (exec_or_die ex_cs_host c PGRES_TUPLES_OK msg (new_slot_query ex_cs_host slot)) (ex_select ''f'') (ex_at p n)" for msg slot
    unfolding gen_slot_name_query_def new_slot_query_def append.simps by (rule runs_select; simp)+
  have d: "runs (ex_at p n) (drop_existing_slot ex_cs_host c slot True) () (ex_at p n)" for slot
    unfolding drop_existing_slot_def append.simps
    apply (rule runs_bind, rule runs_select, simp)
    apply (simp add: ex_result_value swhen_def)
    apply (rule runs_bind, rule runs_basic, rule runs_bind, rule runs_select, simp, rule runs_basic)
    done
  show ?thesis
    unfolding initialize_replication_slot_def
    apply (rule runs_bind, rule q)
    apply (simp add: ex_result_value)
    apply (rule runs_bind, rule runs_basic, rule runs_bind, rule d, rule runs_bind, rule q, rule runs_basic)
    done
qed

lemma runs_find: "runs (ex_at p n) (find_other_exec_or_die ex_cs_host t) (take 1023 (''/bin/'' @ t)) (ex_at p n)"
  by (auto simp: runs_def find_other_exec_or_die_def ex_at_def ex_find die_or_def sret_def)

lemma runs_system: "runs (ex_at p n) (\<lambda>s. case c_system ex_cs_host cmd s of (ret, s') \<Rightarrow> Some (Inr ret, s')) (WIFEXITED 0) (ex_at p (Suc n))"
  by (auto simp: runs_def c_system_def ex_fields ex_at_def)

lemma runs_data_dir: "runs (ex_at p n) (initialize_data_dir ex_cs_host dir (Some c) None None) () (ex_at p (Suc n))"
  unfolding initialize_data_dir_def run_basebackup_def option.case Let_def
  by (rule runs_bind, rule runs_bind, rule runs_basic, rule runs_bind, rule runs_find, rule runs_bind, rule runs_basic(5),
      rule runs_bind, rule runs_basic, rule runs_bind, rule runs_system, simp, rule runs_basic, rule runs_bind, rule runs_basic, rule runs_basic)

lemma runs_pg_ctl: "runs (ex_at p n) (pg_ctl_or_die ex_cs_host arg msg) () (ex_at p (Suc n))"
  by (auto simp: runs_def pg_ctl_or_die_def run_pg_ctl_def try_pg_ctl_def ex_at_def ex_find die_or_def sret_def Let_def c_system_def ex_fields
     sbind_def print_msg_def)

lemma runs_clone: "runs (ex_at [] 0) (clone_provider ex_cs_host ex_opts ex_plan) (''f'', ''0/16B3748'') (ex_at ex_pid_file (Suc 0))"
proof -
  obtain ri where ri: "runs (ex_at [] 0) (identify_provider ex_cs_host ex_plan) (11, ri, False) (ex_at [] 0)" using runs_identify by blast
  have o: "op_drop_slot_if_exists ex_opts = True" "op_postgresql_conf ex_opts = None" "op_pg_hba_conf ex_opts = None"
     "c_snprintf MAXPGPATH (pl_data_dir ex_plan @ ''/postmaster.pid'') = ex_pid_file"
    by (simp_all add: ex_opts_def no_options_def c_snprintf_def ex_plan_def ex_pid_file_def)
  have r: "runs (ex_at q n) (create_restore_point ex_cs_host c slot) ''0/16B3748'' (ex_at q n)" for q n c slot
    unfolding create_restore_point_def restore_point_query_def append.simps
    apply (rule runs_bind, rule runs_restore, simp)
    apply (simp add: ex_result_value)
    apply (rule runs_basic)
    done
  show ?thesis
    unfolding clone_provider_def o
    apply (rule runs_bind, rule ri, simp)
    apply (rule runs_bind, rule runs_basic, rule runs_bind, rule runs_slot, rule runs_bind, rule runs_data_dir, rule runs_bind, rule runs_basic(9),
       rule runs_bind, rule runs_basic, rule runs_bind, rule r, rule runs_bind, rule runs_basic, rule runs_bind, rule runs_basic)
    apply (rule runs_basic)
    done
qed

lemma ex_pgpid: "ex_at ex_pid_file n s \<Longrightarrow> get_pgpid ex_cs_host s = (if even n \<and> n \<noteq> 0 then 42 else 0)"
  by (simp add: ex_at_def get_pgpid_def open_read_def ex_fields ex_pid ex_pid_file_def)

lemma runs_wait: "even n \<Longrightarrow> n \<noteq> 0 \<Longrightarrow> runs (ex_at ex_pid_file n) (wait_postmaster_connection ex_cs_host c) () (ex_at ex_pid_file n)"
proof -
  assume n: "even n" "n \<noteq> 0"
  have u: "runs (ex_at ex_pid_file n) (wait_postmaster_up ex_cs_host) 42 (ex_at ex_pid_file n)"
    using n by (simp add: runs_def wait_postmaster_up.simps ex_pgpid postmaster_is_alive_def ex_fields)
  have q: "runs (ex_at ex_pid_file n) (wait_postmaster_ping ex_cs_host c 42) () (ex_at ex_pid_file n)"
    by (simp add: runs_def wait_postmaster_ping.simps ex_fields)
  show ?thesis
    unfolding wait_postmaster_connection_def
    by (rule runs_bind, rule runs_basic, rule runs_bind, rule u, rule runs_bind, rule q, rule runs_basic)
qed

lemma runs_primary: "even n \<Longrightarrow> n \<noteq> 0 \<Longrightarrow> runs (ex_at ex_pid_file n) (wait_primary_connection ex_cs_host c) () (ex_at ex_pid_file n)"
proof -
  assume n: "even n" "n \<noteq> 0"
  have x: "runs (ex_at ex_pid_file n) (c_exec ex_cs_host k ''SELECT pg_is_in_recovery()'') (ex_select ''f'') (ex_at ex_pid_file n)" for k
    by (simp add: runs_def c_exec_def ex_fields) (simp add: ex_at_def)
  have g: "runs (ex_at ex_pid_file n) (sget (\<lambda>s. False)) False (ex_at ex_pid_file n)" by (simp add: runs_def sget_def)
  have a: "answers_primary (ex_select ''f'') = Inr True" by (simp add: answers_primary_def ex_result_value) (simp add: ex_result_def)
  have "runs (ex_at ex_pid_file n) (ask_primary ex_cs_host c None) (length c, True) (ex_at ex_pid_file n)"
    unfolding ask_primary_def reconnect_def option.case
    apply (rule runs_bind, rule runs_bind, rule g, rule runs_bind, rule runs_wait[OF n], rule runs_basic(6), rule runs_bind, rule x)
    apply (simp add: a)
    apply (rule runs_bind, rule runs_basic, rule runs_basic)
    done
  then have l: "runs (ex_at ex_pid_file n) (wait_primary_loop ex_cs_host c None) (length c) (ex_at ex_pid_file n)"
    by (fastforce simp: runs_def wait_primary_loop.simps)
  show ?thesis
    unfolding wait_primary_connection_def
    by (rule runs_bind, rule runs_wait[OF n], rule runs_bind, rule runs_basic, rule runs_bind, rule l, rule runs_bind, rule runs_basic, rule runs_basic)
qed


lemma runs_shutdown: "odd n \<Longrightarrow> runs (ex_at ex_pid_file n) (wait_postmaster_shutdown ex_cs_host) () (ex_at ex_pid_file n)"
proof -
  assume n: "odd n"
  have u: "runs (ex_at ex_pid_file n) (wait_shutdown_loop ex_cs_host) () (ex_at ex_pid_file n)"
    using n by (simp add: runs_def wait_shutdown_loop.simps ex_pgpid)
  show ?thesis
    unfolding wait_postmaster_shutdown_def
    by (rule runs_bind, rule runs_basic, rule runs_bind, rule u, rule runs_basic)
qed

lemma runs_with: "(\<And>conn. runs (ex_at p n) (work conn) () (ex_at p n)) \<Longrightarrow> runs (ex_at p n) (with_subscriber ex_cs_host plan work) () (ex_at p n)"
  unfolding with_subscriber_def
  by (rule runs_bind, rule runs_basic(6), rule runs_bind, rule runs_basic, rule runs_bind, assumption, rule runs_bind, rule runs_basic, rule runs_basic)

lemma runs_recovery_conf: "runs (ex_at p n) (WriteRecoveryConf ex_cs_host contents) () (ex_at p n)"
  by (simp add: runs_def WriteRecoveryConf_def ex_fields) (simp add: ex_at_def put_file_def Let_def the_data_dir_def ex_pid_file_def)

lemma runs_catch_up: "runs (ex_at ex_pid_file (Suc 0)) (catch_up ex_cs_host ex_opts ex_plan slot) () (ex_at ex_pid_file (Suc (Suc (Suc 0))))"
proof -
  have o: "op_recovery_conf ex_opts = None" by (simp add: ex_opts_def no_options_def)
  have c: "runs (ex_at p n) (remove_unwanted_data ex_cs_host conn) () (ex_at p n)" for p n conn
    unfolding remove_unwanted_data_def
    by (rule runs_bind, rule runs_select, simp, rule runs_bind, rule runs_command, simp, rule runs_basic)
  show ?thesis
    unfolding catch_up_def o option.case
    by (rule runs_bind, rule runs_basic, rule runs_bind, rule runs_basic, rule runs_bind, rule runs_recovery_conf, rule runs_bind, rule runs_pg_ctl,
       rule runs_bind, rule runs_primary, simp, simp, rule runs_bind, rule runs_basic, rule runs_bind, rule runs_with, rule c,
       rule runs_bind, rule runs_pg_ctl, rule runs_shutdown, simp)
qed

lemma runs_subscribe: "runs (ex_at ex_pid_file (Suc (Suc (Suc 0)))) (subscribe ex_cs_host ex_plan slot lsn) () (ex_at ex_pid_file (Suc (Suc (Suc (Suc 0)))))"
proof -
  have i: "runs (ex_at p n) (install_extension ex_cs_host conn ext) () (ex_at p n)" for p n conn ext
    unfolding install_extension_def append.simps by (rule runs_bind, rule runs_command, simp, rule runs_basic)
  have r: "runs (ex_at p n) (initialize_replication_origin ex_cs_host conn slot (Some l)) () (ex_at p n)" for p n conn l
    unfolding initialize_replication_origin_def origin_create_query_def origin_advance_query_def append.simps option.case
    by (rule runs_bind, rule runs_select, simp, rule runs_bind, rule runs_select, simp, rule runs_basic)
  have s: "runs (ex_at p n) (pglogical_subscribe ex_cs_host conn a b c d) () (ex_at p n)" for p n conn a b c d
    unfolding pglogical_subscribe_def create_node_query_def create_subscription_query_def sync_status_query_def append.simps
    by (rule runs_bind, rule runs_select, simp, rule runs_bind, rule runs_select, simp, rule runs_bind, rule runs_command, simp, rule runs_basic)
  show ?thesis
    unfolding subscribe_def
    by (rule runs_bind, rule runs_basic, rule runs_bind, rule runs_pg_ctl, rule runs_bind, rule runs_wait, simp, simp, rule runs_with,
       rule runs_bind, rule runs_basic, rule runs_bind, rule i, rule runs_bind, rule runs_basic, rule runs_bind, rule r, rule runs_bind, rule runs_basic,
       rule runs_bind, rule runs_basic, rule s)
qed

lemma runs_main: "\<exists>s'. create_subscriber_main ex_cs_host [''create''] ex_cs_state = Some (Inr 0, s')"
proof -
  let ?P = "\<lambda>s. ex_at [] 0 (s\<lparr> c_argv0 := ''create'', c_data_dir := Some ''/data'' \<rparr>)"
  have p: "runs (\<lambda>s. ex_at [] 0 (s\<lparr> c_data_dir := Some ''/data'' \<rparr>)) (parse_options ex_cs_host (getopt_long ex_cs_host argv) no_options) ex_opts (ex_at [] 0)" for argv
    by (simp add: runs_def ex_parse)
  have q: "runs (ex_at [] 0) (sanity_checks ex_cs_host ex_opts) ex_plan (ex_at [] 0)"
    by (simp add: runs_def ex_sanity ex_at_def)
  have a: "runs ?P (smodify (\<lambda>s. s\<lparr> c_argv0 := ''create'' \<rparr>)) () (\<lambda>s. ex_at [] 0 (s\<lparr> c_data_dir := Some ''/data'' \<rparr>))"
    by (simp add: runs_def smodify_def ex_at_def)
  have l: "runs (ex_at [] 0) (open_log ex_cs_host) () (ex_at [] 0)"
    by (simp add: runs_def open_log_def sbind_simps ex_fields) (simp add: smodify_def ex_at_def put_file_def log_file_def ex_pid_file_def)
  have o: "op_stop ex_opts = False" by (simp add: ex_opts_def no_options_def)
  have "runs ?P (create_subscriber_main ex_cs_host [''create'']) 0 (ex_at ex_pid_file (Suc (Suc (Suc (Suc 0)))))"
    unfolding create_subscriber_main_def list.case list_ex_iff list.set ball_empty bex_empty if_False swhen_def
    by (rule runs_bind, rule a, rule runs_bind, rule p, rule runs_bind, rule q, rule runs_bind, rule l, rule runs_bind, rule runs_basic,
       rule runs_bind, rule runs_clone, unfold prod.case o if_False, rule runs_bind, rule runs_catch_up, rule runs_bind, rule runs_subscribe,
       rule runs_bind, rule runs_basic, rule runs_bind, rule runs_basic, rule runs_basic)
  moreover have "?P ex_cs_state" by (simp add: ex_at_def ex_cs_state_def)
  ultimately show ?thesis unfolding runs_def by blast
qed

theorem subscriber_starts_at_restore_point_witness:
  "\<exists>s'. create_subscriber_main ex_cs_host [''create''] ex_cs_state = Some (Inr 0, s') \<and>
     (\<exists>opts plan slot lsn es. run_calls ex_cs_host opts plan slot lsn es \<and> subseq es (c_trace s'))"
proof -
  obtain s' where r: "create_subscriber_main ex_cs_host [''create''] ex_cs_state = Some (Inr 0, s')" using runs_main by blast
  with subscriber_starts_at_restore_point [OF r] show ?thesis by blast
qed

end
