(* ===== verification/Spec2Isabelle.thy ===== *)
theory Spec2Isabelle
  imports Pgl_Proto Pgl_Sequences Pgl_Hooks Pgl_Conflict Pgl_Lifecycle Pgl_Origin Pgl_Provider Pgl_CloneRun
begin

text \<open>
  \<^bold>\<open>pglogical: logical replication for PostgreSQL.\<close>

  \<^bold>\<open>The program.\<close>  A provider decodes its write-ahead log with an output plugin (\<open>src/pglogical_output/\<close>) and sends messages to
  subscribers; pglogical's hooks (\<open>src/pglogical_hooks.c\<close>) decide by replication sets (\<open>src/pglogical_repset.c\<close>) what is sent.  On a
  subscriber an apply worker (\<open>src/pglogical_apply.c\<close>) reads the messages (\<open>src/pglogical_proto.c\<close>), finds the local relation
  (\<open>src/pglogical_relcache.c\<close>), resolves conflicts (\<open>src/pglogical_conflict.c\<close>) and changes rows; sync workers
  (\<open>src/pglogical_sync.c\<close>) copy the data that was there before.  A supervisor and a manager per database (\<open>src/pglogical.c\<close>,
  \<open>src/pglogical_manager.c\<close>) keep the workers running in slots of shared memory (\<open>src/pglogical_worker.c\<close>).  Nodes and subscriptions are
  catalog tables (\<open>src/pglogical_node.c\<close>); TRUNCATE, DDL and sequences travel through a queue table (\<open>src/pglogical_queue.c\<close>,
  \<open>src/pglogical_sequences.c\<close>, \<open>src/pglogical_executor.c\<close>).  The user drives all of it by SQL functions (\<open>src/pglogical_functions.c\<close>); the
  command line tool \<open>src/pglogical_create_subscriber.c\<close> makes a subscriber from a physical copy of the provider.  On PostgreSQL 9.4
  replication origins are a table of the extension (\<open>src/compat94/pglogical_compat.c\<close>).

  \<^bold>\<open>Shared theories.\<close>
  \<^item> \<open>Pgl_Prelude\<close>: PostgreSQL's types, errors as values (\<open>'a result\<close> is \<open>pg_error + 'a\<close>, one constructor use per \<open>elog\<close> and
    \<open>ereport\<close>), the simplification collections and lemmas on results, lists and words.
  \<^item> \<open>Pgl_Monad\<close>: computations in a state that survives errors and may wait forever (\<open>None\<close>), with a weakest precondition whose rules
    compute along a program (\<open>wp_simps\<close>).
  \<^item> \<open>Pgl_Types\<close>, \<open>Pgl_Pqformat\<close>, \<open>Pgl_Catalog\<close>: the backend structures the code reads; the message routines of PostgreSQL as a locale
    with an interpretation on network byte order; a catalog table as the list of its visible rows with the locale \<open>unique_table\<close>, interpreted
    for every unique index.

  \<^bold>\<open>Provider.\<close>
  \<^item> \<open>Pgl_Native\<close> (\<open>pglogical_proto_native.c\<close>) and \<open>Pgl_Json\<close> (\<open>pglogical_proto_json.c\<close>): every message as the bytes appended.
  \<^item> \<open>Pgl_Config\<close> (\<open>pglogical_config.c\<close>) and \<open>Pgl_Output\<close> (\<open>pglogical_output.c\<close>, \<open>pglogical_relmetacache.c\<close>, the plugin's
    \<open>pglogical_hooks.c\<close>): parameters, startup negotiation, the session as a state machine of decoding callbacks.  Shown: the startup message
    comes first and once, a relation is described before its data and stays stale from an invalidation to the commit, on which terms
    clients are accepted and get binary data (laxer ones than the protocol document asks for).
  \<^item> \<open>Pgl_Repset\<close>, \<open>Pgl_RowFilter\<close>, \<open>Pgl_Hooks\<close>, \<open>Pgl_Queue\<close>, \<open>Pgl_Sequences\<close>: replication sets with their caches, the preparation of row
    filters, the row filter hook, queued messages, sequences in 64-bit arithmetic.  Shown: catalogs stay consistent under every sequence of
    operations, the cached table info refines a specification, a session sends exactly the wanted changes and columns, recorded sequence values
    stay ahead.  The caches are hash tables whose oid keys the code compares as strings, and membership rows are read with the descriptor of
    the user's table: the theorems are about tables with a hash key of their own (\<open>own_key\<close>) and speak of the rows as they are read.
  \<^item> \<open>Pgl_Executor\<close>, \<open>Pgl_RepsetFunctions\<close>, \<open>Pgl_Provider\<close>: the utility hook, the functions on replication sets, DDL and the
    event trigger.  Shown: which TRUNCATE messages are queued, which column lists are accepted, that dropped objects leave no members, and that
    the rows of the filtered initial copy are the rows whose insertion would be streamed.

  \<^bold>\<open>Subscriber.\<close>
  \<^item> \<open>Pgl_Relcache\<close> and \<open>Pgl_Proto\<close> (\<open>pglogical_relcache.c\<close>, \<open>pglogical_proto.c\<close>): the relation cache and every message reader.  Shown: the
    round trip from the provider's writer to the subscriber's tuple for INSERT, UPDATE, DELETE and the transaction messages.
  \<^item> \<open>Pgl_Conflict\<close>, \<open>Pgl_Rows\<close>: the search for conflicting rows under concurrent sessions, every resolver, and what the handlers do with rows.
    Shown: the search returns once the others settle and stops at the first conflict, so that the error for several is never raised; row
    changes refine the operations of a map from keys to rows.
  \<^item> \<open>Pgl_Messages\<close>, \<open>Pgl_Feedback\<close>, \<open>Pgl_Apply\<close> (\<open>pglogical_apply.c\<close>): startup parameters, queued commands, all message handlers, the
    hand-over to sync workers and the loop.  Shown: only COMMIT changes the committed rows, positions reported to the provider never run ahead
    of the local disk, but for the commits the code does not track.
  \<^item> \<open>Pgl_Sync\<close> (\<open>pglogical_sync.c\<close>): the status catalog and the synchronization of subscriptions and tables with their cleanup.  Shown: the
    statuses its transactions commit go forward along one path, and a run that cannot be repeated is refused.
  \<^item> \<open>Pgl_Origin\<close> (\<open>compat94/pglogical_compat.c\<close>): the table of origins, the session's origin and its transaction callback.  Shown: a new
    process resumes after the last committed transaction.
  \<^item> \<open>Pgl_Util\<close>, \<open>Pgl_Rpc\<close> (\<open>pglogical.c\<close>, \<open>pglogical_rpc.c\<close>): slot names, arrays, connection parameters and the queries and replication
    commands sent to the provider.  Shown: what the subscriber sends is what the provider's parser accepts.

  \<^bold>\<open>Processes and catalogs.\<close>
  \<^item> \<open>Pgl_Worker\<close>, \<open>Pgl_Manager\<close>: the slots as a state machine over registrations, exits and signals; one turn of the manager and of
    the supervisor.  Shown: a slot has at most one process, whatever interleaves, as long as no slot is registered again before its
    registrant waits for the worker; and that this can go wrong otherwise.
  \<^item> \<open>Pgl_Lifecycle\<close>: loading the library, the loops of supervisor and manager, the life of a worker process.  Shown: all slots are empty
    at first, the manager's waits stay in their bounds, a process leaves its slot however it ends, a failed manager is started again.
  \<^item> \<open>Pgl_Node\<close>, \<open>Pgl_Functions\<close>, \<open>Pgl_Consistency\<close>, \<open>Pgl_SubscriptionLife\<close>: the node catalogs and the SQL functions on nodes and
    subscriptions.  Shown: the functions keep all references between the catalogs, dropping a subscription undoes creating it, and returns
    exactly when the apply worker leaves or an interrupt comes.
  \<^item> \<open>Pgl_CreateSubscriber\<close>, \<open>Pgl_CreateSubscriberFacts\<close>, \<open>Pgl_CloneRun\<close> (\<open>pglogical_create_subscriber.c\<close>, \<open>pglogical_fe.c\<close>): the command
    line tool with its files, connections and waiting loops.  Shown: the order of its steps and the server each goes to, so that the subscription starts where the
    physical copy ended; connection strings and set names arrive as the user wrote them.

  \<^bold>\<open>Conventions.\<close>  A C string or message is a list of bytes (\<open>char\<close>); oids, positions and counters are words of their width.  Every function of the
  source is one definition of the same name; helper definitions name the part of the body they translate.  Code outside the repository (the
  executor, the parser, libpq, dynamic hash tables, the reorder buffer, the clock, other processes) is a parameter: a field of a record of
  functions, with what a theorem needs of it stated as a hypothesis.  Dereferencing NULL is the error \<open>NullDereference\<close>.

  \<^bold>\<open>Loops.\<close>  Loops over lists are structural recursion.  Loops that wait for another process are \<open>partial_function (option)\<close>, where
  \<open>None\<close> is waiting forever (\<open>wait_apply_exit\<close>, \<open>find_index_tuple\<close>, \<open>startup_loop\<close>, \<open>wait_for_sync_status_change\<close>,
  \<open>wait_postmaster_up\<close>, \<open>wait_primary_loop\<close>, \<open>wait_shutdown_loop\<close>); that they return is proved under conditions on the other processes.  The loops of the manager
  and the supervisor are partial functions over one turn, a function on the worker's state, and the apply loop is a recursion over the
  messages that arrive.  No definition uses fuel.

  \<^bold>\<open>Not modelled.\<close>  Memory contexts, locks and the setting up of processes have no effect on what is proved.
  Signals that arrive in the middle of a step are seen at the points where the code looks at them.
  \<open>compat95\<close> hands out a lightweight lock; \<open>pglogical_infofuncs.c\<close> returns constants; the dump tool (\<open>pglogical_dump\<close>) is a patched
  \<open>pg_dump\<close> that is not part of this repository; the example hooks \<open>pglogical_output_plhooks.c\<close> call user functions; tests are not part
  of the program.
\<close>

end
